(* ===== verification/Prelude.thy ===== *)
theory Prelude
  imports Main "HOL-Library.Word" "HOL-Library.AList" "HOL-Library.Multiset"
    "HOL-Library.Signed_Division"
begin

text \<open>
  Shared vocabulary of the development: the Go types the daemons use (machine integers,
  \<open>time.Time\<close>, \<open>time.Duration\<close>, maps, errors), the collections of simplification rules
  the component theories feed, and the generic list, map and option lemmas they use.

  \<^item> A \<open>time.Time\<close> is an \<open>int\<close>: nanoseconds since Go's zero time (1 January of year 1, UTC).
    The zero value \<open>time.Time{}\<close> is \<open>0\<close>.
  \<^item> A \<open>time.Duration\<close> is an \<open>int\<close> in the range of \<open>int64\<close>; \<open>Time.Sub\<close> saturates at the
    ends of that range, as Go documents.
  \<^item> A Go map is an association list. Its keys are distinct (\<open>gomap_ok\<close>), lookup is
    \<open>map_of\<close>, assignment is \<open>AList.update\<close>. Go leaves the order of a \<open>range\<close> loop over a map
    unspecified: in the model it is the order of the list, and the theorems about such
    loops hold for every order.
  \<^item> A Go call that can fail returns a value of a sum type: \<open>Inl\<close> the error, \<open>Inr\<close> the result.
\<close>

named_theorems go_defs \<open>definitions of Go primitives that proofs unfold freely\<close>
named_theorems cache_defs \<open>definitions of the price cache operations\<close>
named_theorems config_defs \<open>definitions of the market configuration operations\<close>

section \<open>Machine integers\<close>

type_synonym uint64 = "64 word"
type_synonym uint32 = "32 word"
type_synonym int32 = "32 word"

type_synonym MarketId = uint32
type_synonym ExchangeId = string
type_synonym Exponent = int32

section \<open>Time\<close>

type_synonym gotime = int
type_synonym duration = int

definition maxDuration_int64 :: duration where
  [go_defs]: "maxDuration_int64 = 2 ^ 63 - 1"

definition minDuration_int64 :: duration where
  [go_defs]: "minDuration_int64 = - (2 ^ 63)"

definition zero_time :: gotime where
  [go_defs]: "zero_time = 0"

definition IsZero :: "gotime \<Rightarrow> bool" where
  [go_defs]: "IsZero t \<longleftrightarrow> t = zero_time"

definition time_Add :: "gotime \<Rightarrow> duration \<Rightarrow> gotime" where
  [go_defs]: "time_Add t d = t + d"

definition time_Sub :: "gotime \<Rightarrow> gotime \<Rightarrow> duration" where
  [go_defs]: "time_Sub t u = max minDuration_int64 (min maxDuration_int64 (t - u))"

definition time_After :: "gotime \<Rightarrow> gotime \<Rightarrow> bool" where
  [go_defs]: "time_After t u \<longleftrightarrow> u < t"

definition time_Before :: "gotime \<Rightarrow> gotime \<Rightarrow> bool" where
  [go_defs]: "time_Before t u \<longleftrightarrow> t < u"

text \<open>Negation of an \<open>int64\<close>: the least value is its own negation.\<close>

definition dur_neg :: "duration \<Rightarrow> duration" where
  [go_defs]: "dur_neg d = (if d = minDuration_int64 then d else - d)"

section \<open>Errors\<close>

text \<open>The panics the source can run into, by cause.\<close>

datatype go_panic =
    NilDereference
  | PanicNotInitialized
  | PanicNilResponse
  | PanicUpdaterExists ExchangeId
  | PanicNegativeWaitGroup
  | PanicIndexOutOfRange
  | PanicServiceUnhealthy string
  | PanicTypeAssertion
  | PanicNilMapWrite
  | PanicMessage string

fun bindE :: "'e + 'a \<Rightarrow> ('a \<Rightarrow> 'e + 'b) \<Rightarrow> 'e + 'b" where
  "bindE (Inl e) f = Inl e"
| "bindE (Inr x) f = f x"

lemma bindE_Inr_iff [simp]: "bindE r f = Inr y \<longleftrightarrow> (\<exists>x. r = Inr x \<and> f x = Inr y)"
  by (cases r) auto

lemma bindE_Inl_iff [simp]: "bindE r f = Inl e \<longleftrightarrow> r = Inl e \<or> (\<exists>x. r = Inr x \<and> f x = Inl e)"
  by (cases r) auto

text \<open>A loop that returns at the first error: the error of the first element whose check fails.\<close>

fun checkAll :: "('a \<Rightarrow> 'e option) \<Rightarrow> 'a list \<Rightarrow> 'e option" where
  "checkAll chk [] = None"
| "checkAll chk (x # xs) = (case chk x of Some e \<Rightarrow> Some e | None \<Rightarrow> checkAll chk xs)"

lemma checkAll_None_iff: "checkAll chk xs = None \<longleftrightarrow> (\<forall>x \<in> set xs. chk x = None)"
  by (induction xs) (auto split: option.splits)

lemma checkAll_SomeD: "checkAll chk xs = Some e \<Longrightarrow> \<exists>x \<in> set xs. chk x = Some e"
  by (induction xs) (auto split: option.splits)

lemma option_eq_SomeI: "(\<And>v. a = Some v \<longleftrightarrow> b = Some v) \<Longrightarrow> a = b"
  by (cases a; cases b) auto

section \<open>Go maps\<close>

type_synonym ('k, 'v) gomap = "('k \<times> 'v) list"

abbreviation gomap_ok :: "('k, 'v) gomap \<Rightarrow> bool" where
  "gomap_ok m \<equiv> distinct (map fst m)"

abbreviation mput :: "'k \<Rightarrow> 'v \<Rightarrow> ('k, 'v) gomap \<Rightarrow> ('k, 'v) gomap" where
  "mput \<equiv> AList.update"

lemma map_of_mput [simp]: "map_of (mput k v m) = (map_of m)(k \<mapsto> v)"
  by (rule update_conv')

lemma gomap_ok_mput [simp]: "gomap_ok m \<Longrightarrow> gomap_ok (mput k v m)"
  by (rule distinct_update)

lemma keys_mput [simp]: "fst ` set (mput k v m) = insert k (fst ` set m)"
  by (induction m) auto

lemma mput_new: "k \<notin> fst ` set m \<Longrightarrow> mput k v m = m @ [(k, v)]"
  by (induction m) auto

lemma keys_mput_known: "k \<in> fst ` set m \<Longrightarrow> map fst (mput k v m) = map fst m"
  by (induction m) auto

lemma set_mput_subset: "set (mput k v m) \<subseteq> insert (k, v) (set m)"
  by (induction m) auto

lemma map_of_eq_Some_iff_set: "gomap_ok m \<Longrightarrow> map_of m k = Some v \<longleftrightarrow> (k, v) \<in> set m"
  by simp

lemma map_of_None_iff_key: "map_of m k = None \<longleftrightarrow> k \<notin> fst ` set m"
  by (induction m) auto

text \<open>
  Two representations of the same Go map are permutations of each other, so whatever a
  \<open>range\<close> loop collects is the same multiset for both.
\<close>

lemma gomap_same_mset:
  assumes "gomap_ok m" and "gomap_ok m'" and "map_of m = map_of m'"
  shows "mset m = mset m'"
proof -
  have "set m = set m'"
    using assms map_of_eqI map_of_inject_set by (metis map_of_inject_set)
  moreover have "distinct m" "distinct m'"
    using assms(1,2) by (simp_all add: distinct_map)
  ultimately show ?thesis by (simp add: set_eq_iff_mset_eq_distinct)
qed

lemma find_SomeD: "find P xs = Some x \<Longrightarrow> x \<in> set xs \<and> P x"
  by (induction xs) (auto split: if_splits)

text \<open>The map a loop builds by assigning a key and a value for every element of a slice.\<close>

definition build_map :: "('a \<Rightarrow> 'k) \<Rightarrow> ('a \<Rightarrow> 'v) \<Rightarrow> 'a list \<Rightarrow> ('k, 'v) gomap" where
  "build_map f g xs = fold (\<lambda>x m. mput (f x) (g x) m) xs []"

lemma fold_mput_ok: "gomap_ok m \<Longrightarrow> gomap_ok (fold (\<lambda>x m. mput (f x) (g x) m) xs m)"
  by (induction xs arbitrary: m) simp_all

lemma fold_mput_keys: "fst ` set (fold (\<lambda>x m. mput (f x) (g x) m) xs m) = fst ` set m \<union> f ` set xs"
  by (induction xs arbitrary: m) auto

lemma fold_mput_map_of:
  "map_of (fold (\<lambda>x m. mput (f x) (g x) m) xs m) k =
     (case find (\<lambda>x. f x = k) (rev xs) of Some x \<Rightarrow> Some (g x) | None \<Rightarrow> map_of m k)"
  by (induction xs rule: rev_induct) auto

lemma build_map_ok [simp]: "gomap_ok (build_map f g xs)"
  by (simp add: build_map_def fold_mput_ok)

lemma build_map_keys [simp]: "fst ` set (build_map f g xs) = f ` set xs"
  by (simp add: build_map_def fold_mput_keys)

lemma map_of_build_map:
  "map_of (build_map f g xs) k = map_option g (find (\<lambda>x. f x = k) (rev xs))"
  by (simp add: build_map_def fold_mput_map_of split: option.splits)

lemma build_map_SomeD:
  "map_of (build_map f g xs) k = Some v \<Longrightarrow> \<exists>x \<in> set xs. f x = k \<and> g x = v"
  by (auto simp: map_of_build_map dest!: find_SomeD)

lemma build_map_distinct:
  assumes "distinct (map f xs)" and "x \<in> set xs"
  shows "map_of (build_map f g xs) (f x) = Some (g x)"
proof -
  obtain v where v: "map_of (build_map f g xs) (f x) = Some v"
    using assms(2) map_of_None_iff_key [of "build_map f g xs" "f x"]
    by (cases "map_of (build_map f g xs) (f x)") simp_all
  from build_map_SomeD [OF this] obtain y where "y \<in> set xs" "f y = f x" "g y = v" by blast
  with assms have "y = x" by (auto simp: distinct_map inj_on_def)
  with v \<open>g y = v\<close> show ?thesis by simp
qed

lemma build_map_id:
  assumes "gomap_ok m"
  shows "build_map fst snd m = m"
proof -
  have "fold (\<lambda>x m. mput (fst x) (snd x) m) m m' = m' @ m" if "distinct (map fst (m' @ m))" for m'
    using that by (induction m arbitrary: m') (auto simp: mput_new)
  from this [of "[]"] assms show ?thesis by (simp add: build_map_def)
qed

text \<open>Two maps of the same size, one of which agrees with the other on its keys, are the same map.\<close>

lemma map_of_eq_of_size:
  assumes ok: "gomap_ok m" "gomap_ok m'" and len: "length m = length m'"
    and sub: "\<And>k v. map_of m k = Some v \<Longrightarrow> map_of m' k = Some v"
  shows "map_of m = map_of m'"
proof -
  have card: "card (dom (map_of m)) = length m" "card (dom (map_of m')) = length m'"
    using ok distinct_card [of "map fst m"] distinct_card [of "map fst m'"]
    by (simp_all add: dom_map_of_conv_image_fst)
  have "dom (map_of m) = dom (map_of m')"
    using card len sub by (intro card_subset_eq) (auto simp: finite_dom_map_of)
  then show ?thesis using sub by (intro ext) (metis domIff option.exhaust_sel)
qed

section \<open>Lists\<close>

lemma count_filter_ge_sorted:
  fixes s :: "int list"
  assumes "sorted s" and "j < length s" and "s ! j < a"
  shows "length (filter (\<lambda>v. a \<le> v) s) \<le> length s - Suc j"
proof -
  have "\<forall>v \<in> set (take (Suc j) s). v < a"
    using assms by (fastforce simp: in_set_conv_nth less_Suc_eq_le
        dest: sorted_nth_mono [of s _ j])
  then have "filter (\<lambda>v. a \<le> v) (take (Suc j) s) = []"
    by (auto simp: filter_empty_conv)
  then have "filter (\<lambda>v. a \<le> v) s = filter (\<lambda>v. a \<le> v) (drop (Suc j) s)"
    by (metis append_Nil append_take_drop_id filter_append)
  then show ?thesis
    by (metis length_drop length_filter_le)
qed

lemma count_filter_le_sorted:
  fixes s :: "int list"
  assumes "sorted s" and "j < length s" and "b < s ! j"
  shows "length (filter (\<lambda>v. v \<le> b) s) \<le> j"
proof -
  have "\<forall>v \<in> set (drop j s). b < v"
  proof
    fix v assume "v \<in> set (drop j s)"
    then obtain i where "i < length s - j" and "v = s ! (j + i)"
      by (auto simp: in_set_conv_nth)
    moreover from this have "s ! j \<le> s ! (j + i)"
      using assms(1) by (intro sorted_nth_mono) auto
    ultimately show "b < v" using assms(3) by simp
  qed
  then have "filter (\<lambda>v. v \<le> b) (drop j s) = []"
    by (auto simp: filter_empty_conv)
  then have "filter (\<lambda>v. v \<le> b) s = filter (\<lambda>v. v \<le> b) (take j s)"
    by (metis append_Nil2 append_take_drop_id filter_append)
  then show ?thesis
    by (metis length_filter_le length_take min.bounded_iff)
qed

lemma length_filter_mono:
  "(\<And>x. x \<in> set xs \<Longrightarrow> P x \<Longrightarrow> Q x) \<Longrightarrow> length (filter P xs) \<le> length (filter Q xs)"
  by (induction xs) auto

lemma sort_key_inj_eq:
  assumes "inj f" and "mset xs = mset ys"
  shows "sort_key f xs = sort_key f ys"
proof (rule sort_key_inj_key_eq)
  show "mset xs = mset (sort_key f ys)" using assms(2) by simp
  show "inj_on f (set xs)" using assms(1) by (rule inj_on_subset) simp
qed simp

end
