(* ===== verification/GoLib.thy ===== *)
theory GoLib
  imports Prelude
begin

text \<open>
  The numeric helpers of \<open>lib/\<close>: the generic \<open>Median\<close>, \<open>AbsInt32\<close> and \<open>Min\<close> of
  \<open>lib/math.go\<close>, the memoised powers of ten of \<open>lib/big_math.go\<close> and \<open>GetSortedKeys\<close> of
  \<open>lib/collections.go\<close>. The interface \<open>go_integer\<close> states what an integer type of Go
  promises; the median theorems are proved once in it and interpreted at the four widths
  \<open>Median\<close> can be instantiated with. The interface \<open>price_resolver\<close> is the contract of the
  \<open>Resolver\<close> type of \<open>pricefeed/types/resolver.go\<close>, which the median implements.
\<close>

section \<open>Median\<close>

datatype lib_error = ErrEmptyInput

text \<open>
  \<open>Median[V]\<close> is generic in the integer type: \<open>rd\<close> reads a value of the type as an integer
  and \<open>wr\<close> stores an integer in the type, wrapping around. Every arithmetic operation of
  the source is one read, one operation and one store.
\<close>

definition Median :: "('v \<Rightarrow> int) \<Rightarrow> (int \<Rightarrow> 'v) \<Rightarrow> 'v list \<Rightarrow> lib_error + 'v" where
  "Median rd wr input =
     (let l = length input in
      if l = 0 then Inl ErrEmptyInput
      else
        let inputCopy = sort_key rd input; midIdx = l div 2 in
        if l mod 2 = 1 then Inr (inputCopy ! midIdx)
        else
          let x = inputCopy ! (midIdx - 1); y = inputCopy ! midIdx in
          if rd x \<le> 0 \<and> rd y \<ge> 0 then
            let sum = wr (rd x + rd y)
            in Inr (wr (rd (wr (rd sum sdiv 2)) + rd (wr (rd sum smod 2))))
          else if rd y > 0 then
            Inr (wr (rd y - rd (wr (rd (wr (rd y - rd x)) sdiv 2))))
          else
            Inr (wr (rd x + rd (wr (rd (wr (rd y - rd x)) sdiv 2)))))"

abbreviation Median_uint64 :: "uint64 list \<Rightarrow> lib_error + uint64" where
  "Median_uint64 \<equiv> Median uint word_of_int"

text \<open>Reference: half of an integer, rounded away from zero, and the median of a list of integers.\<close>

definition half_away :: "int \<Rightarrow> int" where
  "half_away s = (if 0 \<le> s then (s + 1) div 2 else - ((1 - s) div 2))"

definition median_int :: "int list \<Rightarrow> int" where
  "median_int xs =
     (let s = sort xs; m = length xs div 2 in
      if odd (length xs) then s ! m else half_away (s ! (m - 1) + s ! m))"

definition AbsInt32 :: "int32 \<Rightarrow> uint32" where
  "AbsInt32 i = (if sint i < 0 then 0 - i else i)"

definition Min_go :: "'a::linorder \<Rightarrow> 'a \<Rightarrow> 'a" where
  "Min_go x y = (if x > y then y else x)"

section \<open>Memoised powers of ten\<close>

text \<open>
  \<open>warmCache\<close> parses the strings \<open>1\<close>, \<open>10\<close>, \<open>100\<close>, ... into the memo table. \<open>parse_digits\<close>
  is \<open>big.Int.SetString\<close> on strings of decimal digits, \<open>None\<close> its failure result. (With base 0
  a leading zero would change the base; the strings passed there have none.)
\<close>

definition digit_of_char :: "char \<Rightarrow> int option" where
  "digit_of_char c =
     (let n = (of_char c :: int) in if 48 \<le> n \<and> n \<le> 57 then Some (n - 48) else None)"

fun parse_digits_acc :: "int \<Rightarrow> string \<Rightarrow> int option" where
  "parse_digits_acc acc [] = Some acc"
| "parse_digits_acc acc (c # cs) =
     (case digit_of_char c of None \<Rightarrow> None | Some d \<Rightarrow> parse_digits_acc (10 * acc + d) cs)"

definition parse_digits :: "string \<Rightarrow> int option" where
  "parse_digits s = (if s = [] then None else parse_digits_acc 0 s)"

text \<open>
  The loop of \<open>warmCache\<close>: \<open>i\<close> counts up, the string grows by one zero in each round, the
  result is \<open>None\<close> where the source panics. The first argument is the number of rounds left.
\<close>

fun warmCache_loop :: "nat \<Rightarrow> nat \<Rightarrow> string \<Rightarrow> (nat, int) gomap \<Rightarrow> (nat, int) gomap option" where
  "warmCache_loop 0 i s m = Some m"
| "warmCache_loop (Suc n) i s m =
     (case parse_digits s of
        None \<Rightarrow> None
      | Some v \<Rightarrow> warmCache_loop n (Suc i) (s @ ''0'') (mput i v m))"

definition warmCache :: "(nat, int) gomap option" where
  "warmCache = warmCache_loop 100 0 ''1'' []"

definition bigPow10Memo :: "nat \<Rightarrow> int option" where
  "bigPow10Memo = (case warmCache of None \<Rightarrow> (\<lambda>_. None) | Some m \<Rightarrow> map_of m)"

lemma parse_digits_acc_zeros:
  "parse_digits_acc a (replicate n (CHR ''0'')) = Some (a * 10 ^ n)"
  by (induction n arbitrary: a) (simp_all add: digit_of_char_def)

lemma parse_pow10: "parse_digits (CHR ''1'' # replicate n (CHR ''0'')) = Some (10 ^ n)"
  by (simp add: parse_digits_def digit_of_char_def parse_digits_acc_zeros)

lemma warmCache_loop_run:
  assumes "\<And>k. map_of m k = (if k < i then Some (10 ^ k) else None)"
  shows "\<exists>m'. warmCache_loop n i (CHR ''1'' # replicate i (CHR ''0'')) m = Some m' \<and>
    (\<forall>k. map_of m' k = (if k < i + n then Some (10 ^ k) else None))"
  using assms
proof (induction n arbitrary: i m)
  case 0
  then show ?case by simp
next
  case (Suc n)
  let ?m = "mput i (10 ^ i) m"
  have "\<And>k. map_of ?m k = (if k < Suc i then Some (10 ^ k) else None)"
    using Suc.prems by (auto simp: less_Suc_eq)
  from Suc.IH [OF this] show ?case
    by (simp add: parse_pow10 replicate_append_same [symmetric])
qed

lemma bigPow10Memo_eq: "bigPow10Memo k = (if k < 100 then Some (10 ^ k) else None)"
proof -
  obtain m where w: "warmCache = Some m"
    and m: "map_of m k = (if k < 100 then Some (10 ^ k) else None)"
    using warmCache_loop_run [of "[]" 0 100] by (auto simp: warmCache_def)
  have "bigPow10Memo = map_of m" unfolding bigPow10Memo_def w by simp
  with m show ?thesis by simp
qed

function bigPow10Helper :: "nat \<Rightarrow> int" where
  "bigPow10Helper e =
     (case bigPow10Memo e of
        Some m \<Rightarrow> m
      | None \<Rightarrow> let e1 = e div 2; e2 = e - e1 in bigPow10Helper e1 * bigPow10Helper e2)"
  by pat_completeness auto
termination
  by (relation "measure id") (auto simp: bigPow10Memo_eq split: if_splits)

declare bigPow10Helper.simps [simp del]

definition BigPow10 :: "uint64 \<Rightarrow> int" where
  "BigPow10 exponent = bigPow10Helper (unat exponent)"

section \<open>Sorted keys of a map\<close>

definition GetSortedKeys :: "('k::linorder, 'v) gomap \<Rightarrow> 'k list" where
  "GetSortedKeys m = sort (map fst m)"

section \<open>Correctness of the median\<close>

lemma Median_Nil: "Median rd wr [] = Inl ErrEmptyInput"
  by (simp add: Median_def)

lemma half_away_between: "x \<le> y \<Longrightarrow> x \<le> half_away (x + y) \<and> half_away (x + y) \<le> y"
  by (auto simp: half_away_def)

text \<open>The three branches of the source, on integers that do not overflow.\<close>

lemma half_away_branches:
  shows "x \<le> 0 \<Longrightarrow> 0 \<le> y \<Longrightarrow> (x + y) sdiv 2 + (x + y) smod 2 = half_away (x + y)"
    and "0 < x \<Longrightarrow> x \<le> y \<Longrightarrow> y - (y - x) sdiv 2 = half_away (x + y)"
    and "y < 0 \<Longrightarrow> x \<le> y \<Longrightarrow> x + (y - x) sdiv 2 = half_away (x + y)"
  by (auto simp: half_away_def signed_divide_int_def signed_modulo_int_def sgn_if) presburger+

locale go_integer =
  fixes rd :: "'v \<Rightarrow> int" and wr :: "int \<Rightarrow> 'v" and lo :: int and hi :: int
  assumes rd_ge: "lo \<le> rd x"
    and rd_le: "rd x \<le> hi"
    and rd_wr: "lo \<le> i \<Longrightarrow> i \<le> hi \<Longrightarrow> rd (wr i) = i"
    and rd_inj: "rd x = rd y \<Longrightarrow> x = y"
    and lo_hi: "lo = 0 \<or> lo = - hi - 1"
    and hi_pos: "1 < hi"
begin

lemma lo_nonpos: "lo \<le> 0"
  using lo_hi hi_pos by auto

lemma inj_rd: "inj rd"
  by (auto intro: injI rd_inj)

lemma map_sort_key: "map rd (sort_key rd xs) = sort (map rd xs)"
  by (rule properties_for_sort [symmetric]) simp_all

lemma nth_sort_key: "i < length xs \<Longrightarrow> rd (sort_key rd xs ! i) = sort (map rd xs) ! i"
  by (metis length_sort map_sort_key nth_map)

text \<open>Storing one of the three branch results does not wrap around.\<close>

lemma branch_results:
  assumes "rd x \<le> rd y"
  shows "rd x \<le> 0 \<Longrightarrow> 0 \<le> rd y \<Longrightarrow>
      rd (wr (rd (wr (rd (wr (rd x + rd y)) sdiv 2)) + rd (wr (rd (wr (rd x + rd y)) smod 2)))) =
      half_away (rd x + rd y)"
    and "0 < rd x \<Longrightarrow>
      rd (wr (rd y - rd (wr (rd (wr (rd y - rd x)) sdiv 2)))) = half_away (rd x + rd y)"
    and "rd y < 0 \<Longrightarrow>
      rd (wr (rd x + rd (wr (rd (wr (rd y - rd x)) sdiv 2)))) = half_away (rd x + rd y)"
proof -
  note b = rd_ge [of x] rd_le [of x] rd_ge [of y] rd_le [of y] lo_nonpos hi_pos lo_hi
  note between = half_away_between [OF assms]
  show "rd (wr (rd (wr (rd (wr (rd x + rd y)) sdiv 2)) + rd (wr (rd (wr (rd x + rd y)) smod 2)))) =
      half_away (rd x + rd y)" if "rd x \<le> 0" "0 \<le> rd y"
  proof -
    let ?s = "rd x + rd y"
    have s: "rd (wr ?s) = ?s" using that b by (intro rd_wr) auto
    have d: "rd (wr (?s sdiv 2)) = ?s sdiv 2"
      using that b by (intro rd_wr) (auto simp: signed_divide_int_def sgn_if)
    have m: "rd (wr (?s smod 2)) = ?s smod 2"
      using that b by (intro rd_wr) (auto simp: signed_modulo_int_def signed_divide_int_def sgn_if)
    show ?thesis
      unfolding s d m half_away_branches(1) [OF that] using between b by (intro rd_wr) auto
  qed
  show "rd (wr (rd y - rd (wr (rd (wr (rd y - rd x)) sdiv 2)))) = half_away (rd x + rd y)"
    if "0 < rd x"
  proof -
    have s: "rd (wr (rd y - rd x)) = rd y - rd x" using that assms b by (intro rd_wr) auto
    have d: "rd (wr ((rd y - rd x) sdiv 2)) = (rd y - rd x) sdiv 2"
      using that assms b by (intro rd_wr) (auto simp: signed_divide_int_def sgn_if)
    show ?thesis
      unfolding s d half_away_branches(2) [OF that assms] using between b by (intro rd_wr) auto
  qed
  show "rd (wr (rd x + rd (wr (rd (wr (rd y - rd x)) sdiv 2)))) = half_away (rd x + rd y)"
    if "rd y < 0"
  proof -
    have s: "rd (wr (rd y - rd x)) = rd y - rd x" using that assms b by (intro rd_wr) auto
    have d: "rd (wr ((rd y - rd x) sdiv 2)) = (rd y - rd x) sdiv 2"
      using that assms b by (intro rd_wr) (auto simp: signed_divide_int_def sgn_if)
    show ?thesis
      unfolding s d half_away_branches(3) [OF that assms] using between b by (intro rd_wr) auto
  qed
qed

lemma Median_correct:
  assumes "xs \<noteq> []"
  shows "\<exists>v. Median rd wr xs = Inr v \<and> rd v = median_int (map rd xs)"
proof (cases "odd (length xs)")
  case True
  then show ?thesis
    using assms by (auto simp: Median_def median_int_def Let_def nth_sort_key odd_iff_mod_2_eq_one)
next
  case False
  let ?m = "length xs div 2"
  let ?x = "sort_key rd xs ! (?m - 1)" and ?y = "sort_key rd xs ! ?m"
  have m: "0 < ?m" "?m < length xs"
    using assms False by (cases xs; force elim: evenE)+
  have rx: "rd ?x = sort (map rd xs) ! (?m - 1)" and ry: "rd ?y = sort (map rd xs) ! ?m"
    using m by (simp_all add: nth_sort_key)
  have le: "rd ?x \<le> rd ?y"
    unfolding rx ry using m by (intro sorted_nth_mono) auto
  have spec: "median_int (map rd xs) = half_away (rd ?x + rd ?y)"
    using False unfolding rx ry by (simp add: median_int_def Let_def)
  have "rd ?y < 0" if "\<not> (rd ?x \<le> 0 \<and> 0 \<le> rd ?y)" "\<not> 0 < rd ?y"
    using that le by auto
  then show ?thesis
    unfolding spec using assms False branch_results [OF le] le
    by (auto simp: Median_def Let_def even_iff_mod_2_eq_zero)
qed

lemma Median_Inr: "Median rd wr xs = Inr v \<Longrightarrow> xs \<noteq> [] \<and> rd v = median_int (map rd xs)"
  using Median_correct [of xs] by (cases "xs = []") (auto simp: Median_def)

lemma Median_Inr_iff: "Median rd wr xs = Inr v \<longleftrightarrow> xs \<noteq> [] \<and> rd v = median_int (map rd xs)"
  using Median_Inr [of xs v] Median_correct [of xs] rd_inj by fastforce

lemma Median_mset:
  assumes "mset xs = mset ys"
  shows "Median rd wr xs = Median rd wr ys"
  using sort_key_inj_eq [OF inj_rd assms] mset_eq_length [OF assms] by (simp add: Median_def Let_def)

end

text \<open>The four instances the type constraint of \<open>Median\<close> allows.\<close>

lemma uint_in_range:
  fixes x :: "'a::len word"
  shows "uint x \<le> 2 ^ LENGTH('a) - 1"
  using uint_bounded [of x] by simp

lemma sint_in_range:
  fixes x :: "'a::len word"
  shows "- (2 ^ (LENGTH('a) - 1)) \<le> sint x" and "sint x \<le> 2 ^ (LENGTH('a) - 1) - 1"
  using sint_ge [of x] sint_lt [of x] by simp_all

lemma sint_word_of_int_id:
  assumes "- (2 ^ (LENGTH('a) - 1)) \<le> i" and "i \<le> 2 ^ (LENGTH('a) - 1) - 1"
  shows "sint (word_of_int i :: 'a::len word) = i"
  using assms by (simp add: sint_sbintrunc' signed_take_bit_int_eq_self)

interpretation u64: go_integer "uint :: uint64 \<Rightarrow> int" word_of_int 0 "2 ^ 64 - 1"
proof
  show "uint x \<le> 2 ^ 64 - 1" for x :: uint64 using uint_in_range [of x] by simp
  show "uint (word_of_int i :: uint64) = i" if "0 \<le> i" "i \<le> 2 ^ 64 - 1" for i
    using that by (simp add: word_of_int_inverse)
qed (simp_all add: word_uint_eqI)

interpretation u32: go_integer "uint :: uint32 \<Rightarrow> int" word_of_int 0 "2 ^ 32 - 1"
proof
  show "uint x \<le> 2 ^ 32 - 1" for x :: uint32 using uint_in_range [of x] by simp
  show "uint (word_of_int i :: uint32) = i" if "0 \<le> i" "i \<le> 2 ^ 32 - 1" for i
    using that by (simp add: word_of_int_inverse)
qed (simp_all add: word_uint_eqI)

interpretation i64: go_integer "sint :: 64 word \<Rightarrow> int" word_of_int "- (2 ^ 63)" "2 ^ 63 - 1"
  using sint_in_range [where 'a = 64] sint_word_of_int_id [where 'a = 64]
  by unfold_locales (simp_all add: signed_word_eqI)

interpretation i32: go_integer "sint :: int32 \<Rightarrow> int" word_of_int "- (2 ^ 31)" "2 ^ 31 - 1"
  using sint_in_range [where 'a = 32] sint_word_of_int_id [where 'a = 32]
  by unfold_locales (simp_all add: signed_word_eqI)

section \<open>Robustness: a majority inside an interval keeps the median inside\<close>

lemma median_int_majority:
  assumes maj: "length xs < 2 * length (filter (\<lambda>v. a \<le> v \<and> v \<le> b) xs)"
  shows "a \<le> median_int xs \<and> median_int xs \<le> b"
proof -
  let ?s = "sort xs" and ?n = "length xs"
  let ?j = "(?n - 1) div 2" and ?k = "?n div 2"
  have n: "0 < ?n" using maj by (cases xs) auto
  have "length (filter (\<lambda>v. a \<le> v \<and> v \<le> b) xs) \<le> length (filter (\<lambda>v. a \<le> v) xs)"
    and "length (filter (\<lambda>v. a \<le> v \<and> v \<le> b) xs) \<le> length (filter (\<lambda>v. v \<le> b) xs)"
    by (auto intro: length_filter_mono)
  moreover have "length (filter P ?s) = length (filter P xs)" for P
    by (metis mset_filter mset_sort size_mset)
  ultimately have ge: "?n < 2 * length (filter (\<lambda>v. a \<le> v) ?s)"
    and le: "?n < 2 * length (filter (\<lambda>v. v \<le> b) ?s)"
    using maj by auto
  have lower: "a \<le> ?s ! ?j"
  proof (rule ccontr)
    assume "\<not> a \<le> ?s ! ?j"
    then have "length (filter (\<lambda>v. a \<le> v) ?s) \<le> ?n - Suc ?j"
      using count_filter_ge_sorted [of ?s ?j a] n by (cases "length xs") simp_all
    moreover have "2 * (?n - Suc ?j) \<le> ?n" using n by arith
    ultimately show False using ge by linarith
  qed
  have upper: "?s ! ?k \<le> b"
  proof (rule ccontr)
    assume "\<not> ?s ! ?k \<le> b"
    then have "length (filter (\<lambda>v. v \<le> b) ?s) \<le> ?k"
      using count_filter_le_sorted [of ?s ?k b] n by simp
    with le show False by presburger
  qed
  have mono: "?s ! ?j \<le> ?s ! ?k"
    using n by (intro sorted_nth_mono) (auto simp: div_le_mono)
  show ?thesis
  proof (cases "odd ?n")
    case True
    then have "?j = ?k" by presburger
    with True lower upper show ?thesis by (simp add: median_int_def)
  next
    case False
    then have "?j = ?k - 1" using n by presburger
    then have "median_int xs = half_away (?s ! ?j + ?s ! ?k)"
      using False by (simp add: median_int_def Let_def)
    with half_away_between [OF mono] lower upper show ?thesis by auto
  qed
qed

section \<open>The resolver interface\<close>

text \<open>
  \<open>types.Resolver\<close> is any function from a list of prices to one price. What its callers
  rely on: it answers on every non-empty list, it does not depend on the order in which a
  map loop collected the prices, and a minority of the prices cannot move the answer out
  of an interval that holds the others.
\<close>

locale price_resolver =
  fixes resolver :: "uint64 list \<Rightarrow> 'e + uint64"
  assumes resolver_total: "xs \<noteq> [] \<Longrightarrow> \<exists>v. resolver xs = Inr v"
    and resolver_mset: "mset xs = mset ys \<Longrightarrow> resolver xs = resolver ys"
    and resolver_majority: "resolver xs = Inr v \<Longrightarrow>
      length xs < 2 * length (filter (\<lambda>p. a \<le> p \<and> p \<le> b) xs) \<Longrightarrow> a \<le> v \<and> v \<le> b"
begin

lemma resolver_bounds:
  assumes "resolver xs = Inr v" and "xs \<noteq> []" and "\<And>p. p \<in> set xs \<Longrightarrow> a \<le> p \<and> p \<le> b"
  shows "a \<le> v \<and> v \<le> b"
proof (rule resolver_majority [OF assms(1)])
  have "filter (\<lambda>p. a \<le> p \<and> p \<le> b) xs = xs" using assms(3) by (simp add: filter_id_conv)
  then show "length xs < 2 * length (filter (\<lambda>p. a \<le> p \<and> p \<le> b) xs)"
    using assms(2) by simp
qed

lemma resolver_single: "resolver [p] = Inr p"
proof -
  obtain v where "resolver [p] = Inr v" using resolver_total [of "[p]"] by auto
  with resolver_bounds [of "[p]" v p p] have "v = p" by auto
  with \<open>resolver [p] = Inr v\<close> show ?thesis by simp
qed

lemma resolver_positive:
  assumes "resolver xs = Inr v" and "xs \<noteq> []" and "0 \<notin> set xs"
  shows "v \<noteq> 0"
proof -
  have "1 \<le> p \<and> p \<le> - 1" if "p \<in> set xs" for p :: uint64
  proof -
    have "p \<noteq> 0" using that assms(3) by auto
    then have "1 \<le> p" by (simp add: not_less [symmetric])
    then show ?thesis by simp
  qed
  then have "1 \<le> v" using resolver_bounds [OF assms(1,2)] by blast
  then show ?thesis by auto
qed

end

lemma Median_uint64_majority:
  assumes "Median_uint64 xs = Inr v"
    and "length xs < 2 * length (filter (\<lambda>p. a \<le> p \<and> p \<le> b) xs)"
  shows "a \<le> v \<and> v \<le> b"
proof -
  have "uint v = median_int (map uint xs)" using u64.Median_Inr [OF assms(1)] by simp
  moreover have "filter (\<lambda>w. uint a \<le> w \<and> w \<le> uint b) (map uint xs) =
      map uint (filter (\<lambda>p. a \<le> p \<and> p \<le> b) xs)"
    by (simp add: filter_map comp_def word_le_def)
  ultimately show ?thesis
    using median_int_majority [of "map uint xs" "uint a" "uint b"] assms(2)
    by (simp add: word_le_def)
qed

interpretation medianResolver: price_resolver Median_uint64
proof unfold_locales
  show "\<exists>v. Median_uint64 xs = Inr v" if "xs \<noteq> []" for xs
    using u64.Median_correct [OF that] by blast
  show "Median_uint64 xs = Median_uint64 ys" if "mset xs = mset ys" for xs ys
    using that by (rule u64.Median_mset)
qed (rule Median_uint64_majority)

section \<open>Powers of ten, absolute value, sorted keys\<close>

lemma bigPow10Helper_correct: "bigPow10Helper e = 10 ^ e"
proof (induction e rule: bigPow10Helper.induct)
  case (1 e)
  show ?case
  proof (cases "e < 100")
    case True
    then show ?thesis by (simp add: bigPow10Helper.simps [of e] bigPow10Memo_eq)
  next
    case False
    then have "bigPow10Helper e = 10 ^ (e div 2) * 10 ^ (e - e div 2)"
      using 1 by (simp add: bigPow10Helper.simps [of e] bigPow10Memo_eq Let_def)
    then show ?thesis by (simp add: power_add [symmetric])
  qed
qed

lemma uint_AbsInt32: "uint (AbsInt32 i) = \<bar>sint i\<bar>"
proof (cases "sint i < 0")
  case True
  have "uint (0 - i) = uint (word_of_int (- sint i) :: int32)" by simp
  also have "\<dots> = - sint i"
    using True sint_in_range [of i] by (intro word_of_int_inverse [OF refl]) simp_all
  finally show ?thesis using True by (simp add: AbsInt32_def)
next
  case False
  then have "uint i = sint i"
    using sint_in_range [of i] by (simp add: uint_sint take_bit_int_eq_self)
  with False show ?thesis by (simp add: AbsInt32_def)
qed

lemma GetSortedKeys_eq: "gomap_ok m \<Longrightarrow> GetSortedKeys m = sorted_list_of_set (dom (map_of m))"
  by (simp add: GetSortedKeys_def dom_map_of_conv_image_fst sorted_list_of_set_sort_remdups
      distinct_remdups_id flip: set_map)

section \<open>Properties\<close>

text \<open>\<open>Median\<close> at type \<open>uint64\<close> fails exactly on the empty list; otherwise its result is the
  mathematical median, the average of two middle elements rounded away from zero, and no
  intermediate sum or difference wraps around.\<close>

theorem Median_uint64_correct:
  "case Median_uint64 xs of
     Inl e \<Rightarrow> e = ErrEmptyInput \<and> xs = []
   | Inr v \<Rightarrow> xs \<noteq> [] \<and> uint v = median_int (map uint xs)"
  using u64.Median_correct [of xs] by (cases "xs = []") (auto simp: Median_Nil)

text \<open>The same for the signed instance \<open>int64\<close>, whose middle elements can have different signs or
  both be negative.\<close>

theorem Median_int64_correct:
  "case Median sint (word_of_int :: int \<Rightarrow> 64 word) xs of
     Inl e \<Rightarrow> e = ErrEmptyInput \<and> xs = []
   | Inr v \<Rightarrow> xs \<noteq> [] \<and> sint v = median_int (map sint xs)"
  using i64.Median_correct [of xs] by (cases "xs = []") (auto simp: Median_Nil)

text \<open>\<open>BigPow10\<close> is ten to the power of its argument: the memo table is filled without a panic,
  its entries are right, and the recursion on larger exponents ends with the right product.\<close>

theorem BigPow10_correct: "(\<exists>m. warmCache = Some m) \<and> BigPow10 exponent = 10 ^ unat exponent"
  using warmCache_loop_run [of "[]" 0 100]
  by (auto simp: warmCache_def BigPow10_def bigPow10Helper_correct)

end
