(* ===== verification/PriceTimestamp.thy ===== *)
theory PriceTimestamp
  imports Prelude
begin

text \<open>
  \<open>pricefeed/types/price_timestamp.go\<close>: one price with the time of its last update, the
  cell both price caches are made of. The interface \<open>price_store\<close> says what a cache made of
  such cells promises (an update goes to one cell and follows \<open>UpdatePrice\<close>); the
  last-writer-wins theorems are proved once in it and used for the server cache and for the
  client cache.
\<close>

section \<open>The cell\<close>

record PriceTimestamp =
  pt_LastUpdateTime :: gotime
  pt_Price :: uint64

definition NewPriceTimestamp :: PriceTimestamp where
  "NewPriceTimestamp = \<lparr>pt_LastUpdateTime = zero_time, pt_Price = 0\<rparr>"

text \<open>The updated cell, and whether the update was applied.\<close>

definition PriceTimestamp_UpdatePrice ::
    "PriceTimestamp \<Rightarrow> uint64 \<Rightarrow> gotime \<Rightarrow> PriceTimestamp \<times> bool" where
  "PriceTimestamp_UpdatePrice pt price newUpdateTime =
     (if time_After newUpdateTime (pt_LastUpdateTime pt)
      then (pt\<lparr>pt_LastUpdateTime := newUpdateTime, pt_Price := price\<rparr>, True)
      else (pt, False))"

definition PriceTimestamp_GetValidPrice :: "PriceTimestamp \<Rightarrow> gotime \<Rightarrow> uint64 \<times> bool" where
  "PriceTimestamp_GetValidPrice pt cutoffTime =
     (if time_Before (pt_LastUpdateTime pt) cutoffTime then (0, False) else (pt_Price pt, True))"

text \<open>A Go map of cells: the update of both caches creates a missing cell before it updates it.\<close>

definition cell :: "PriceTimestamp option \<Rightarrow> PriceTimestamp" where
  "cell c = (case c of None \<Rightarrow> NewPriceTimestamp | Some pt \<Rightarrow> pt)"

lemma cell_simps [simp]: "cell None = NewPriceTimestamp" "cell (Some pt) = pt"
  by (simp_all add: cell_def)

text \<open>
  One update of a Go map of cells: look the key up, store a new cell if there is none, update
  the cell. Both caches do this, the server for an exchange, the client for a market.
\<close>

definition put_cell ::
    "'k \<Rightarrow> uint64 \<Rightarrow> gotime \<Rightarrow> ('k, PriceTimestamp) gomap \<Rightarrow> ('k, PriceTimestamp) gomap" where
  "put_cell k price t m =
     (let m' = (case map_of m k of None \<Rightarrow> mput k NewPriceTimestamp m | Some _ \<Rightarrow> m);
          pt = cell (map_of m' k)
      in mput k (fst (PriceTimestamp_UpdatePrice pt price t)) m')"

text \<open>The prices of the cells that are not older than a cutoff time, in the order of the map.\<close>

definition recent_prices :: "('k, PriceTimestamp) gomap \<Rightarrow> gotime \<Rightarrow> uint64 list" where
  "recent_prices m cutoff =
     map (\<lambda>c. pt_Price (snd c)) (filter (\<lambda>c. cutoff \<le> pt_LastUpdateTime (snd c)) m)"

abbreviation updated :: "PriceTimestamp \<Rightarrow> uint64 \<Rightarrow> gotime \<Rightarrow> PriceTimestamp" where
  "updated pt p t \<equiv> fst (PriceTimestamp_UpdatePrice pt p t)"

lemma put_cell_map_of:
  "map_of (put_cell k p t m) = (map_of m)(k \<mapsto> updated (cell (map_of m k)) p t)"
  by (auto simp: put_cell_def Let_def split: option.splits)

lemma put_cell_ok: "gomap_ok m \<Longrightarrow> gomap_ok (put_cell k p t m)"
  by (auto simp: put_cell_def Let_def split: option.splits)

lemma mset_recent_prices: "mset m = mset m' \<Longrightarrow> mset (recent_prices m c) = mset (recent_prices m' c)"
  by (simp add: recent_prices_def)

lemma recent_prices_Nil [simp]: "recent_prices [] c = []"
  by (simp add: recent_prices_def)

section \<open>A history of updates of one cell\<close>

definition pt_run :: "PriceTimestamp \<Rightarrow> (uint64 \<times> gotime) list \<Rightarrow> PriceTimestamp" where
  "pt_run pt us = fold (\<lambda>(p, t) c. updated c p t) us pt"

lemma pt_run_simps [simp]:
  "pt_run pt [] = pt"
  "pt_run pt ((p, t) # us) = pt_run (updated pt p t) us"
  by (simp_all add: pt_run_def)

lemma UpdatePrice_time: "pt_LastUpdateTime (updated pt p t) = max (pt_LastUpdateTime pt) t"
  by (simp add: PriceTimestamp_UpdatePrice_def go_defs)

lemma pt_run_time_ge:
  "pt_LastUpdateTime pt \<le> pt_LastUpdateTime (pt_run pt us)"
  "(p, t) \<in> set us \<Longrightarrow> t \<le> pt_LastUpdateTime (pt_run pt us)"
proof (induction us arbitrary: pt)
  case (Cons u us)
  obtain q s where u: "u = (q, s)" by (cases u)
  { case 1 then show ?case using Cons.IH(1) [of "updated pt q s"] by (simp add: u UpdatePrice_time) }
  { case 2 then show ?case
      using Cons.IH(1) [of "updated pt q s"] Cons.IH(2) [of "updated pt q s"]
      by (auto simp: u UpdatePrice_time) }
qed simp_all

text \<open>The cell at the end is the one at the start or holds one of the updates.\<close>

lemma pt_run_source:
  "pt_run pt us = pt \<or>
   (pt_Price (pt_run pt us), pt_LastUpdateTime (pt_run pt us)) \<in> set us \<and>
     pt_LastUpdateTime pt < pt_LastUpdateTime (pt_run pt us)"
proof (induction us arbitrary: pt)
  case (Cons u us)
  obtain q s where u: "u = (q, s)" by (cases u)
  show ?case
  proof (cases "pt_LastUpdateTime pt < s")
    case True
    then have up: "pt_LastUpdateTime (updated pt q s) = s" "pt_Price (updated pt q s) = q"
      by (simp_all add: PriceTimestamp_UpdatePrice_def go_defs)
    from Cons.IH [of "updated pt q s"] show ?thesis using True up by (auto simp: u)
  next
    case False
    then have "updated pt q s = pt" by (simp add: PriceTimestamp_UpdatePrice_def go_defs)
    with Cons.IH [of pt] show ?thesis by (auto simp: u)
  qed
qed simp

lemma pt_eqI:
  "pt_LastUpdateTime a = pt_LastUpdateTime b \<Longrightarrow> pt_Price a = pt_Price b \<Longrightarrow>
    (a :: PriceTimestamp) = b"
  by simp

text \<open>
  Convergence of one cell: two orders of the same updates, whose times differ, lead to
  the same cell.
\<close>

lemma pt_run_converges:
  assumes same: "set us = set vs"
    and times: "\<And>p q t. (p, t) \<in> set us \<Longrightarrow> (q, t) \<in> set us \<Longrightarrow> p = q"
  shows "pt_run pt us = pt_run pt vs"
proof -
  let ?a = "pt_run pt us" and ?b = "pt_run pt vs"
  consider "?a = pt" "?b = pt"
    | "?a = pt" "(pt_Price ?b, pt_LastUpdateTime ?b) \<in> set us" "pt_LastUpdateTime pt < pt_LastUpdateTime ?b"
    | "?b = pt" "(pt_Price ?a, pt_LastUpdateTime ?a) \<in> set us" "pt_LastUpdateTime pt < pt_LastUpdateTime ?a"
    | "(pt_Price ?a, pt_LastUpdateTime ?a) \<in> set us" "(pt_Price ?b, pt_LastUpdateTime ?b) \<in> set us"
    using pt_run_source [of pt us] pt_run_source [of pt vs] same by blast
  then show ?thesis
  proof cases
    case 1 then show ?thesis by simp
  next
    case 2 then show ?thesis using pt_run_time_ge(2) [of _ _ us pt] by fastforce
  next
    case 3 then show ?thesis using pt_run_time_ge(2) [of _ _ vs pt] same by fastforce
  next
    case 4
    have "pt_LastUpdateTime ?a = pt_LastUpdateTime ?b"
      using 4 pt_run_time_ge(2) [of _ _ us pt] pt_run_time_ge(2) [of _ _ vs pt] same
      by (metis order_antisym)
    with 4 times show ?thesis by (metis pt_eqI)
  qed
qed

text \<open>
  The updates of one key in a list of keyed updates, and what they leave in its cell, which
  exists only after the first of them.
\<close>

definition updates_of :: "'k \<Rightarrow> ('k \<times> uint64 \<times> gotime) list \<Rightarrow> (uint64 \<times> gotime) list" where
  "updates_of k us = map snd (filter (\<lambda>u. fst u = k) us)"

definition cell_after :: "PriceTimestamp option \<Rightarrow> (uint64 \<times> gotime) list \<Rightarrow> PriceTimestamp option" where
  "cell_after c us = (if us = [] then c else Some (pt_run (cell c) us))"

text \<open>No key is given two different prices for the same time.\<close>

definition consistent_times :: "('k \<times> uint64 \<times> gotime) list \<Rightarrow> bool" where
  "consistent_times us \<longleftrightarrow>
     (\<forall>x \<in> set us. \<forall>y \<in> set us. fst x = fst y \<and> snd (snd x) = snd (snd y) \<longrightarrow> x = y)"

lemma updates_of_simps [simp]:
  "updates_of k [] = []"
  "updates_of k (u # us) = (if fst u = k then [snd u] else []) @ updates_of k us"
  "updates_of k (us @ vs) = updates_of k us @ updates_of k vs"
  by (simp_all add: updates_of_def)

lemma set_updates_of: "set (updates_of k us) = {(p, t). (k, p, t) \<in> set us}"
  by (auto simp: updates_of_def image_iff)

lemma updates_of_none: "(\<And>u. u \<in> set us \<Longrightarrow> fst u \<noteq> k) \<Longrightarrow> updates_of k us = []"
  by (auto simp: updates_of_def filter_empty_conv)

lemma cell_after_simps [simp]:
  "cell_after c [] = c"
  "cell_after c ((p, t) # us) = cell_after (Some (updated (cell c) p t)) us"
  by (simp_all add: cell_after_def)

lemma cell_after_append: "cell_after c (us @ vs) = cell_after (cell_after c us) vs"
  by (auto simp: cell_after_def pt_run_def)

lemma cell_after_time_mono:
  assumes "cell_after (Some pt) us = Some pt'"
  shows "pt_LastUpdateTime pt \<le> pt_LastUpdateTime pt'"
  using assms pt_run_time_ge(1) [of pt us] by (auto simp: cell_after_def split: if_splits)

lemma cell_after_source:
  assumes "cell_after c us = Some pt"
  shows "c = Some pt \<or> pt = NewPriceTimestamp \<or> (pt_Price pt, pt_LastUpdateTime pt) \<in> set us"
  using assms pt_run_source [of "cell c" us]
  by (cases c) (auto simp: cell_after_def split: if_splits)

lemma cell_after_converges_1:
  assumes "set us = set vs"
    and "\<And>p q t. (p, t) \<in> set us \<Longrightarrow> (q, t) \<in> set us \<Longrightarrow> p = q"
  shows "cell_after c us = cell_after c vs"
proof -
  have "us = [] \<longleftrightarrow> vs = []" using assms(1) by (metis set_empty)
  moreover have "pt_run (cell c) us = pt_run (cell c) vs" using assms by (rule pt_run_converges)
  ultimately show ?thesis by (simp add: cell_after_def)
qed

lemma cell_after_converges:
  assumes "set us = set vs" and "consistent_times us"
  shows "cell_after c (updates_of k us) = cell_after c (updates_of k vs)"
proof (rule cell_after_converges_1)
  show "set (updates_of k us) = set (updates_of k vs)" using assms(1) by (simp add: set_updates_of)
  show "p = q" if "(p, t) \<in> set (updates_of k us)" "(q, t) \<in> set (updates_of k us)" for p q t
    using that assms(2) unfolding consistent_times_def set_updates_of by fastforce
qed

section \<open>The interface of a price cache\<close>

text \<open>
  \<open>lookup\<close> finds a cell, \<open>put\<close> is one update, \<open>known\<close> says which keys the cache accepts
  (the client cache is created for a fixed set of exchanges), \<open>inv\<close> is its invariant.
\<close>

locale price_store =
  fixes lookup :: "'s \<Rightarrow> 'k \<Rightarrow> PriceTimestamp option"
    and put :: "'k \<Rightarrow> uint64 \<Rightarrow> gotime \<Rightarrow> 's \<Rightarrow> 's"
    and known :: "'s \<Rightarrow> 'k \<Rightarrow> bool"
    and inv :: "'s \<Rightarrow> bool"
  assumes lookup_put: "inv s \<Longrightarrow> known s k \<Longrightarrow> lookup (put k p t s) k' =
      (if k' = k then Some (updated (cell (lookup s k)) p t) else lookup s k')"
    and known_put: "inv s \<Longrightarrow> known s k \<Longrightarrow> known (put k p t s) k' \<longleftrightarrow> known s k'"
    and inv_put: "inv s \<Longrightarrow> known s k \<Longrightarrow> inv (put k p t s)"
begin

abbreviation puts :: "('k \<times> uint64 \<times> gotime) list \<Rightarrow> 's \<Rightarrow> 's" where
  "puts us s \<equiv> fold (\<lambda>(k, p, t). put k p t) us s"

lemma puts_inv:
  assumes "inv s" and "\<forall>u \<in> set us. known s (fst u)"
  shows "inv (puts us s) \<and> (\<forall>k. known (puts us s) k \<longleftrightarrow> known s k)"
  using assms
proof (induction us arbitrary: s)
  case (Cons u us)
  obtain k p t where u: "u = (k, p, t)" by (cases u)
  have "inv (put k p t s)" "\<forall>k'. known (put k p t s) k' \<longleftrightarrow> known s k'"
    using Cons.prems by (auto simp: u inv_put known_put)
  then show ?case using Cons.IH [of "put k p t s"] Cons.prems by (simp add: u)
qed simp

text \<open>What a run of updates leaves in a cell: the run of the updates of its key.\<close>

lemma lookup_puts:
  assumes "inv s" and "\<forall>u \<in> set us. known s (fst u)"
  shows "lookup (puts us s) k = cell_after (lookup s k) (updates_of k us)"
  using assms
proof (induction us arbitrary: s)
  case (Cons u us)
  obtain j p t where u: "u = (j, p, t)" by (cases u)
  have "inv (put j p t s)" "\<forall>u \<in> set us. known (put j p t s) (fst u)"
    using Cons.prems by (auto simp: u inv_put known_put)
  note IH = Cons.IH [OF this]
  have "lookup (put j p t s) k =
      (if k = j then Some (updated (cell (lookup s j)) p t) else lookup s k)"
    using Cons.prems by (intro lookup_put) (auto simp: u)
  with IH show ?case by (auto simp: u)
qed simp

text \<open>Last writer wins, whatever the order of arrival.\<close>

lemma puts_converge:
  assumes s: "inv s" "\<forall>u \<in> set us. known s (fst u)"
    and same: "set us = set vs"
    and times: "consistent_times us"
  shows "lookup (puts us s) k = lookup (puts vs s) k"
  using s same cell_after_converges [OF same times] by (simp add: lookup_puts)

text \<open>A cell never goes back in time.\<close>

lemma puts_time_mono:
  assumes "inv s" and "\<forall>u \<in> set us. known s (fst u)" and "lookup s k = Some pt"
  shows "\<exists>pt'. lookup (puts us s) k = Some pt' \<and> pt_LastUpdateTime pt \<le> pt_LastUpdateTime pt'"
proof -
  obtain pt' where "cell_after (Some pt) (updates_of k us) = Some pt'"
    by (cases "updates_of k us = []") (simp_all add: cell_after_def)
  then show ?thesis using assms cell_after_time_mono by (auto simp: lookup_puts)
qed

end

end
