(* ===== verification/MarketConfig.thy ===== *)
theory MarketConfig
  imports GoLib
begin

text \<open>
  The market configuration the daemon keeps, as its types and their methods:
  \<open>pricefeed/client/types/market_config.go\<close>, \<open>mutable_market_config.go\<close>,
  \<open>mutable_exchange_market_config.go\<close>, \<open>market_param.go\<close>, \<open>exchange_config_json.go\<close> and
  \<open>exchange_market_config_json.go\<close>. A nil pointer to a market id is \<open>None\<close>. A method that
  returns an error returns \<open>Some\<close> error here and \<open>None\<close> for nil.
\<close>

section \<open>Hexadecimal strings\<close>

text \<open>\<open>encoding/hex\<close>: digits in both cases are accepted, two per byte, first error first.\<close>

datatype hex_error = InvalidByteError char | ErrLength

definition fromHexChar :: "char \<Rightarrow> nat option" where
  "fromHexChar c = (let n = of_char c :: nat in
     if 48 \<le> n \<and> n \<le> 57 then Some (n - 48)
     else if 97 \<le> n \<and> n \<le> 102 then Some (n - 97 + 10)
     else if 65 \<le> n \<and> n \<le> 70 then Some (n - 65 + 10)
     else None)"

fun hex_DecodeString :: "string \<Rightarrow> hex_error + nat list" where
  "hex_DecodeString [] = Inr []"
| "hex_DecodeString [c] = (case fromHexChar c of None \<Rightarrow> Inl (InvalidByteError c) | Some _ \<Rightarrow> Inl ErrLength)"
| "hex_DecodeString (c # d # s) =
     (case fromHexChar c of
        None \<Rightarrow> Inl (InvalidByteError c)
      | Some a \<Rightarrow> (case fromHexChar d of
          None \<Rightarrow> Inl (InvalidByteError d)
        | Some b \<Rightarrow> bindE (hex_DecodeString s) (\<lambda>bs. Inr ((16 * a + b) # bs))))"

section \<open>Errors\<close>

datatype config_error =
    ErrPairEmpty
  | ErrMinExchangesZero
  | ErrMinPriceChangePpm
  | ErrExchangeConfigJson
  | ErrQueryDataEmpty
  | ErrQueryDataHex hex_error
  | ErrExchangesEmpty
  | ErrExchangeNameEmpty
  | ErrExchangeNameInvalid string
  | ErrTickerEmpty
  | ErrAdjustmentMarketInvalid string
  | ErrNoMarketConfig MarketId ExchangeId
  | ErrInvalidMarketConfig MarketId ExchangeId config_error
  | ErrNoAdjustByConfig MarketId MarketId ExchangeId

section \<open>Market parameters\<close>

definition MaxPriceChangePpm :: uint32 where
  "MaxPriceChangePpm = 10000"

record MarketParam =
  mp_Id :: uint32
  mp_Pair :: string
  mp_Exponent :: int32
  mp_MinExchanges :: uint32
  mp_MinPriceChangePpm :: uint32
  mp_ExchangeConfigJson :: string
  mp_QueryData :: string

text \<open>
  \<open>validJSON\<close> decides whether \<open>json.Unmarshal\<close> accepts the string as a JSON object, the test of
  \<open>IsValidJSON\<close>; the theorems hold for every such function.
\<close>

definition MarketParam_Validate :: "(string \<Rightarrow> bool) \<Rightarrow> MarketParam \<Rightarrow> config_error option" where
  "MarketParam_Validate validJSON mp =
     (if mp_Pair mp = '''' then Some ErrPairEmpty
      else if mp_MinExchanges mp = 0 then Some ErrMinExchangesZero
      else if mp_MinPriceChangePpm mp = 0 \<or> mp_MinPriceChangePpm mp \<ge> MaxPriceChangePpm
        then Some ErrMinPriceChangePpm
      else if \<not> validJSON (mp_ExchangeConfigJson mp) then Some ErrExchangeConfigJson
      else if mp_QueryData mp = '''' then Some ErrQueryDataEmpty
      else case hex_DecodeString (mp_QueryData mp) of
             Inl e \<Rightarrow> Some (ErrQueryDataHex e)
           | Inr _ \<Rightarrow> None)"

section \<open>The configuration of a market on an exchange, as JSON gives it\<close>

record ExchangeMarketConfigJson =
  emcj_ExchangeName :: string
  emcj_Ticker :: string
  emcj_AdjustByMarket :: string
  emcj_Invert :: bool

definition ExchangeMarketConfigJson_Validate ::
    "ExchangeMarketConfigJson \<Rightarrow> ExchangeId list \<Rightarrow> (string, MarketId) gomap \<Rightarrow> config_error option" where
  "ExchangeMarketConfigJson_Validate emcj exchangeIds marketNames =
     (let exchangeNameMap = build_map (\<lambda>e. e) (\<lambda>_. ()) exchangeIds in
      if emcj_ExchangeName emcj = '''' then Some ErrExchangeNameEmpty
      else if map_of exchangeNameMap (emcj_ExchangeName emcj) = None
        then Some (ErrExchangeNameInvalid (emcj_ExchangeName emcj))
      else if emcj_Ticker emcj = '''' then Some ErrTickerEmpty
      else if emcj_AdjustByMarket emcj \<noteq> '''' \<and> map_of marketNames (emcj_AdjustByMarket emcj) = None
        then Some (ErrAdjustmentMarketInvalid (emcj_AdjustByMarket emcj))
      else None)"

record ExchangeConfigJson =
  ecj_Exchanges :: "ExchangeMarketConfigJson list"

definition ExchangeConfigJson_Validate ::
    "ExchangeConfigJson \<Rightarrow> ExchangeId list \<Rightarrow> (string, MarketId) gomap \<Rightarrow> config_error option" where
  "ExchangeConfigJson_Validate ecj exchangeNames marketNames =
     (if length (ecj_Exchanges ecj) = 0 then Some ErrExchangesEmpty
      else checkAll (\<lambda>exchange. ExchangeMarketConfigJson_Validate exchange exchangeNames marketNames)
             (ecj_Exchanges ecj))"

section \<open>The configuration the daemon keeps\<close>

record MarketConfig =
  mc_Ticker :: string
  mc_AdjustByMarket :: "MarketId option"
  mc_Invert :: bool

definition MarketConfig_Equal :: "MarketConfig \<Rightarrow> MarketConfig \<Rightarrow> bool" where
  "MarketConfig_Equal mc other \<longleftrightarrow>
     mc_Ticker mc = mc_Ticker other \<and>
     mc_Invert mc = mc_Invert other \<and>
     ((mc_AdjustByMarket mc = None \<and> mc_AdjustByMarket other = None) \<or>
      (mc_AdjustByMarket mc \<noteq> None \<and> mc_AdjustByMarket other \<noteq> None \<and>
       the (mc_AdjustByMarket mc) = the (mc_AdjustByMarket other)))"

definition MarketConfig_Copy :: "MarketConfig \<Rightarrow> MarketConfig" where
  "MarketConfig_Copy mc =
     (let adjustByMarket =
        (case mc_AdjustByMarket mc of None \<Rightarrow> None | Some m \<Rightarrow> Some m)
      in \<lparr>mc_Ticker = mc_Ticker mc, mc_AdjustByMarket = adjustByMarket, mc_Invert = mc_Invert mc\<rparr>)"

record MutableMarketConfig =
  mmc_Id :: MarketId
  mmc_Pair :: string
  mmc_Exponent :: Exponent
  mmc_MinExchanges :: uint32

definition MutableMarketConfig_Copy :: "MutableMarketConfig \<Rightarrow> MutableMarketConfig" where
  "MutableMarketConfig_Copy mmc =
     \<lparr>mmc_Id = mmc_Id mmc, mmc_Pair = mmc_Pair mmc, mmc_Exponent = mmc_Exponent mmc,
      mmc_MinExchanges = mmc_MinExchanges mmc\<rparr>"

definition MutableMarketConfig_Validate :: "MutableMarketConfig \<Rightarrow> config_error option" where
  "MutableMarketConfig_Validate mmc =
     (if mmc_Pair mmc = '''' then Some ErrPairEmpty
      else if mmc_MinExchanges mmc = 0 then Some ErrMinExchangesZero
      else None)"

record MutableExchangeMarketConfig =
  memc_Id :: ExchangeId
  memc_MarketToMarketConfig :: "(MarketId, MarketConfig) gomap"

definition MutableExchangeMarketConfig_Copy ::
    "MutableExchangeMarketConfig \<Rightarrow> MutableExchangeMarketConfig" where
  "MutableExchangeMarketConfig_Copy memc =
     \<lparr>memc_Id = memc_Id memc,
      memc_MarketToMarketConfig =
        build_map fst (\<lambda>x. MarketConfig_Copy (snd x)) (memc_MarketToMarketConfig memc)\<rparr>"

definition memc_GetMarketIds :: "MutableExchangeMarketConfig \<Rightarrow> MarketId list" where
  "memc_GetMarketIds memc = GetSortedKeys (memc_MarketToMarketConfig memc)"

definition validate_market ::
    "ExchangeId \<Rightarrow> (MarketId, MutableMarketConfig) gomap \<Rightarrow> MarketId \<times> MarketConfig \<Rightarrow> config_error option" where
  "validate_market exchangeId marketToMutableConfig x =
     (case map_of marketToMutableConfig (fst x) of
        None \<Rightarrow> Some (ErrNoMarketConfig (fst x) exchangeId)
      | Some mutableMarketConfig \<Rightarrow>
          (case MutableMarketConfig_Validate mutableMarketConfig of
             Some err \<Rightarrow> Some (ErrInvalidMarketConfig (fst x) exchangeId err)
           | None \<Rightarrow>
               (case mc_AdjustByMarket (snd x) of
                  None \<Rightarrow> None
                | Some adjustBy \<Rightarrow>
                    if map_of marketToMutableConfig adjustBy = None
                    then Some (ErrNoAdjustByConfig adjustBy (fst x) exchangeId)
                    else None)))"

definition MutableExchangeMarketConfig_Validate ::
    "MutableExchangeMarketConfig \<Rightarrow> MutableMarketConfig list \<Rightarrow> config_error option" where
  "MutableExchangeMarketConfig_Validate memc marketConfigs =
     (let marketToMutableConfig = build_map mmc_Id (\<lambda>c. c) marketConfigs in
      checkAll (validate_market (memc_Id memc) marketToMutableConfig) (memc_MarketToMarketConfig memc))"

definition MutableExchangeMarketConfig_Equal ::
    "MutableExchangeMarketConfig \<Rightarrow> MutableExchangeMarketConfig \<Rightarrow> bool" where
  "MutableExchangeMarketConfig_Equal memc other =
     (if memc_Id memc \<noteq> memc_Id other then False
      else if length (memc_MarketToMarketConfig memc) \<noteq> length (memc_MarketToMarketConfig other) then False
      else list_all (\<lambda>(market, config).
             case map_of (memc_MarketToMarketConfig other) market of
               None \<Rightarrow> False
             | Some otherConfig \<Rightarrow> MarketConfig_Equal config otherConfig)
           (memc_MarketToMarketConfig memc))"

abbreviation memc_ok :: "MutableExchangeMarketConfig \<Rightarrow> bool" where
  "memc_ok memc \<equiv> gomap_ok (memc_MarketToMarketConfig memc)"

section \<open>Lemmas\<close>

lemma MarketConfig_Equal_iff: "MarketConfig_Equal mc other \<longleftrightarrow> (mc :: MarketConfig) = other"
  by (cases mc; cases other; cases "mc_AdjustByMarket mc"; cases "mc_AdjustByMarket other")
    (auto simp: MarketConfig_Equal_def)

lemma MarketConfig_Copy_eq [simp]: "MarketConfig_Copy mc = mc"
  by (auto simp: MarketConfig_Copy_def Let_def split: option.splits)

lemma MutableMarketConfig_Copy_eq [simp]: "MutableMarketConfig_Copy mmc = mmc"
  by (simp add: MutableMarketConfig_Copy_def)

lemma MutableExchangeMarketConfig_Copy_eq [simp]:
  "memc_ok memc \<Longrightarrow> MutableExchangeMarketConfig_Copy memc = memc"
  by (simp add: MutableExchangeMarketConfig_Copy_def build_map_id)

lemma memc_GetMarketIds_set [simp]: "set (memc_GetMarketIds memc) = fst ` set (memc_MarketToMarketConfig memc)"
  by (simp add: memc_GetMarketIds_def GetSortedKeys_def)

lemma memc_GetMarketIds_length [simp]:
  "length (memc_GetMarketIds memc) = length (memc_MarketToMarketConfig memc)"
  by (simp add: memc_GetMarketIds_def GetSortedKeys_def)

lemma memc_GetMarketIds_distinct: "memc_ok memc \<Longrightarrow> distinct (memc_GetMarketIds memc)"
  by (simp add: memc_GetMarketIds_def GetSortedKeys_def)

text \<open>\<open>Equal\<close> is equality of the exchange and of the map, whatever the order of its entries.\<close>

lemma MutableExchangeMarketConfig_Equal_iff:
  assumes "memc_ok memc" and "memc_ok other"
  shows "MutableExchangeMarketConfig_Equal memc other \<longleftrightarrow>
    memc_Id memc = memc_Id other \<and>
    map_of (memc_MarketToMarketConfig memc) = map_of (memc_MarketToMarketConfig other)" (is "?l \<longleftrightarrow> ?r")
proof
  assume ?l
  then show ?r
    using assms by (fastforce simp: MutableExchangeMarketConfig_Equal_def list_all_iff MarketConfig_Equal_iff
        split: if_splits option.splits intro!: map_of_eq_of_size)
next
  assume r: ?r
  then have "mset (memc_MarketToMarketConfig memc) = mset (memc_MarketToMarketConfig other)"
    using assms gomap_same_mset by blast
  then have "length (memc_MarketToMarketConfig memc) = length (memc_MarketToMarketConfig other)"
    by (metis size_mset)
  moreover have "map_of (memc_MarketToMarketConfig other) (fst x) = Some (snd x)"
    if "x \<in> set (memc_MarketToMarketConfig memc)" for x
    using r assms(1) that by (metis map_of_is_SomeI prod.collapse)
  ultimately show ?l
    using r by (auto simp: MutableExchangeMarketConfig_Equal_def list_all_iff MarketConfig_Equal_iff)
qed

text \<open>What the configuration of an exchange must know about the markets to be valid.\<close>

definition markets_known :: "MutableExchangeMarketConfig \<Rightarrow> MutableMarketConfig list \<Rightarrow> bool" where
  "markets_known memc cfgs \<longleftrightarrow> (\<forall>x \<in> set (memc_MarketToMarketConfig memc).
     (\<exists>c. map_of (build_map mmc_Id (\<lambda>c. c) cfgs) (fst x) = Some c \<and>
        mmc_Pair c \<noteq> '''' \<and> mmc_MinExchanges c \<noteq> 0) \<and>
     (\<forall>a. mc_AdjustByMarket (snd x) = Some a \<longrightarrow> a \<in> mmc_Id ` set cfgs))"

lemma map_of_build_map_known: "map_of (build_map f g xs) k = None \<longleftrightarrow> k \<notin> f ` set xs"
  by (simp add: map_of_None_iff_key)

lemma MutableMarketConfig_Validate_None:
  "MutableMarketConfig_Validate c = None \<longleftrightarrow> mmc_Pair c \<noteq> '''' \<and> mmc_MinExchanges c \<noteq> 0"
  by (simp add: MutableMarketConfig_Validate_def)

lemma validate_market_None:
  "validate_market e m x = None \<longleftrightarrow>
    (\<exists>c. map_of m (fst x) = Some c \<and> mmc_Pair c \<noteq> '''' \<and> mmc_MinExchanges c \<noteq> 0) \<and>
    (\<forall>a. mc_AdjustByMarket (snd x) = Some a \<longrightarrow> map_of m a \<noteq> None)"
  by (cases "map_of m (fst x)"; cases "mc_AdjustByMarket (snd x)")
    (simp_all add: validate_market_def flip: MutableMarketConfig_Validate_None split: option.splits)

lemma MutableExchangeMarketConfig_Validate_None:
  "MutableExchangeMarketConfig_Validate memc cfgs = None \<longleftrightarrow> markets_known memc cfgs"
  unfolding MutableExchangeMarketConfig_Validate_def markets_known_def Let_def checkAll_None_iff
    validate_market_None map_of_build_map_known by simp

lemma ExchangeMarketConfigJson_Validate_None:
  "ExchangeMarketConfigJson_Validate emcj ids names = None \<longleftrightarrow>
     emcj_ExchangeName emcj \<noteq> '''' \<and> emcj_ExchangeName emcj \<in> set ids \<and> emcj_Ticker emcj \<noteq> '''' \<and>
     (emcj_AdjustByMarket emcj \<noteq> '''' \<longrightarrow> emcj_AdjustByMarket emcj \<in> dom (map_of names))"
  by (auto simp: ExchangeMarketConfigJson_Validate_def Let_def map_of_build_map_known)

lemma ExchangeConfigJson_Validate_None:
  "ExchangeConfigJson_Validate ecj ids names = None \<longleftrightarrow> ecj_Exchanges ecj \<noteq> [] \<and>
     (\<forall>x \<in> set (ecj_Exchanges ecj). ExchangeMarketConfigJson_Validate x ids names = None)"
  by (simp add: ExchangeConfigJson_Validate_def checkAll_None_iff)

end
