(* ===== verification/ServerPrices.thy ===== *)
theory ServerPrices
  imports GoLib PriceTimestamp MarketConfig
begin

text \<open>
  The price cache of the daemon server: \<open>server/types/pricefeed/exchange_to_price.go\<close>,
  \<open>server/types/pricefeed/market_to_exchange_prices.go\<close>, and the gRPC handler
  \<open>UpdateMarketPrices\<close> of \<open>server/pricefeed.go\<close> that feeds it. The methods run under the
  mutex of \<open>MarketToExchangePrices\<close>, so each is one atomic step on the cache. Telemetry and
  log calls have no effect on the state and are left out.
\<close>

section \<open>Requests\<close>

text \<open>The fields of the request messages that the handler reads; \<open>LastUpdateTime\<close> is a pointer.\<close>

record ExchangePrice =
  ep_ExchangeId :: ExchangeId
  ep_Price :: uint64
  ep_LastUpdateTime :: "gotime option"

record MarketPriceUpdate =
  mpu_MarketId :: uint32
  mpu_ExchangePrices :: "ExchangePrice list"

section \<open>The prices of one market\<close>

record ExchangeToPrice =
  etp_marketId :: uint32
  etp_exchangeToPriceTimestamp :: "(ExchangeId, PriceTimestamp) gomap"

definition NewExchangeToPrice :: "uint32 \<Rightarrow> ExchangeToPrice" where
  "NewExchangeToPrice marketId =
     \<lparr>etp_marketId = marketId, etp_exchangeToPriceTimestamp = []\<rparr>"

fun ExchangeToPrice_UpdatePrices ::
    "ExchangeToPrice \<Rightarrow> ExchangePrice list \<Rightarrow> go_panic + ExchangeToPrice" where
  "ExchangeToPrice_UpdatePrices etp [] = Inr etp"
| "ExchangeToPrice_UpdatePrices etp (exchangePrice # updates) =
     (case ep_LastUpdateTime exchangePrice of
        None \<Rightarrow> Inl NilDereference
      | Some t \<Rightarrow>
          ExchangeToPrice_UpdatePrices
            (etp\<lparr>etp_exchangeToPriceTimestamp :=
               put_cell (ep_ExchangeId exchangePrice) (ep_Price exchangePrice) t
                 (etp_exchangeToPriceTimestamp etp)\<rparr>)
            updates)"

text \<open>The loop of \<open>getValidPricesAndLatestUpdate\<close>; \<open>prices\<close> and \<open>latestUpdate\<close> are its results so far.\<close>

fun valid_prices_loop ::
    "gotime \<Rightarrow> (ExchangeId, PriceTimestamp) gomap \<Rightarrow> uint64 list \<Rightarrow> gotime \<Rightarrow> uint64 list \<times> gotime" where
  "valid_prices_loop cutoffTime [] prices latestUpdate = (prices, latestUpdate)"
| "valid_prices_loop cutoffTime ((exchangeId, priceTimestamp) # rest) prices latestUpdate =
     (case PriceTimestamp_GetValidPrice priceTimestamp cutoffTime of
        (price, True) \<Rightarrow>
          valid_prices_loop cutoffTime rest (prices @ [price])
            (if time_After (pt_LastUpdateTime priceTimestamp) latestUpdate
             then pt_LastUpdateTime priceTimestamp else latestUpdate)
      | (_, False) \<Rightarrow> valid_prices_loop cutoffTime rest prices latestUpdate)"

definition getValidPricesAndLatestUpdate :: "ExchangeToPrice \<Rightarrow> gotime \<Rightarrow> uint64 list \<times> gotime" where
  "getValidPricesAndLatestUpdate etp cutoffTime =
     valid_prices_loop cutoffTime (etp_exchangeToPriceTimestamp etp) [] zero_time"

definition ExchangeToPrice_GetValidPrices :: "ExchangeToPrice \<Rightarrow> gotime \<Rightarrow> uint64 list" where
  "ExchangeToPrice_GetValidPrices etp cutoffTime =
     fst (getValidPricesAndLatestUpdate etp cutoffTime)"

section \<open>The prices of all markets\<close>

record MarketToExchangePrices =
  mte_marketToExchangePrices :: "(uint32, ExchangeToPrice) gomap"
  mte_maxPriceAge :: duration

record PriceAggregateSnapshot =
  pas_MarketId :: uint32
  pas_Price :: uint64
  pas_NumSources :: nat
  pas_LatestUpdate :: gotime

definition NewMarketToExchangePrices :: "duration \<Rightarrow> MarketToExchangePrices" where
  "NewMarketToExchangePrices maxPriceAge =
     \<lparr>mte_marketToExchangePrices = [], mte_maxPriceAge = maxPriceAge\<rparr>"

fun MarketToExchangePrices_UpdatePrices ::
    "MarketToExchangePrices \<Rightarrow> MarketPriceUpdate list \<Rightarrow> go_panic + MarketToExchangePrices" where
  "MarketToExchangePrices_UpdatePrices mte [] = Inr mte"
| "MarketToExchangePrices_UpdatePrices mte (marketPriceUpdate # updates) =
     (let marketId = mpu_MarketId marketPriceUpdate;
          exchangeToPrices =
            (case map_of (mte_marketToExchangePrices mte) marketId of
               None \<Rightarrow> NewExchangeToPrice marketId | Some etp \<Rightarrow> etp)
      in bindE (ExchangeToPrice_UpdatePrices exchangeToPrices (mpu_ExchangePrices marketPriceUpdate))
           (\<lambda>etp'. MarketToExchangePrices_UpdatePrices
              (mte\<lparr>mte_marketToExchangePrices :=
                 mput marketId etp' (mte_marketToExchangePrices mte)\<rparr>)
              updates))"

fun price_aggregates_loop ::
    "MarketToExchangePrices \<Rightarrow> gotime \<Rightarrow> uint32 list \<Rightarrow> PriceAggregateSnapshot list" where
  "price_aggregates_loop mte cutoffTime [] = []"
| "price_aggregates_loop mte cutoffTime (marketId # rest) =
     (case map_of (mte_marketToExchangePrices mte) marketId of
        None \<Rightarrow> price_aggregates_loop mte cutoffTime rest
      | Some exchangeToPrice \<Rightarrow>
          (let (validPrices, latestUpdate) = getValidPricesAndLatestUpdate exchangeToPrice cutoffTime in
           if length validPrices = 0 then price_aggregates_loop mte cutoffTime rest
           else case Median_uint64 validPrices of
                  Inl _ \<Rightarrow> price_aggregates_loop mte cutoffTime rest
                | Inr median \<Rightarrow>
                    \<lparr>pas_MarketId = marketId, pas_Price = median,
                     pas_NumSources = length validPrices, pas_LatestUpdate = latestUpdate\<rparr>
                    # price_aggregates_loop mte cutoffTime rest))"

definition GetValidPriceAggregates ::
    "MarketToExchangePrices \<Rightarrow> uint32 list \<Rightarrow> gotime \<Rightarrow> PriceAggregateSnapshot list" where
  "GetValidPriceAggregates mte marketIds readTime =
     price_aggregates_loop mte (time_Add readTime (dur_neg (mte_maxPriceAge mte))) marketIds"

fun median_prices_loop ::
    "MarketToExchangePrices \<Rightarrow> gotime \<Rightarrow> MarketParam list \<Rightarrow> (uint32, uint64) gomap \<Rightarrow>
     (uint32, uint64) gomap" where
  "median_prices_loop mte cutoffTime [] marketIdToMedianPrice = marketIdToMedianPrice"
| "median_prices_loop mte cutoffTime (marketParam # rest) marketIdToMedianPrice =
     (let marketId = mp_Id marketParam in
      case map_of (mte_marketToExchangePrices mte) marketId of
        None \<Rightarrow> median_prices_loop mte cutoffTime rest marketIdToMedianPrice
      | Some exchangeToPrice \<Rightarrow>
          (let validPrices = ExchangeToPrice_GetValidPrices exchangeToPrice cutoffTime in
           if length validPrices \<ge> unat (mp_MinExchanges marketParam) then
             (case Median_uint64 validPrices of
                Inl _ \<Rightarrow> median_prices_loop mte cutoffTime rest marketIdToMedianPrice
              | Inr median \<Rightarrow>
                  median_prices_loop mte cutoffTime rest (mput marketId median marketIdToMedianPrice))
           else median_prices_loop mte cutoffTime rest marketIdToMedianPrice))"

definition GetValidMedianPrices ::
    "MarketToExchangePrices \<Rightarrow> MarketParam list \<Rightarrow> gotime \<Rightarrow> (uint32, uint64) gomap" where
  "GetValidMedianPrices mte marketParams readTime =
     median_prices_loop mte (time_Add readTime (dur_neg (mte_maxPriceAge mte))) marketParams []"

section \<open>The gRPC handler\<close>

datatype server_error =
    ErrPriceFeedMarketPriceUpdateEmpty
  | ErrPriceFeedInvalidPrice ExchangePrice uint32
  | ErrPriceFeedLastUpdateTimeNotSet ExchangePrice uint32

definition validateExchangePrice :: "uint32 \<Rightarrow> ExchangePrice \<Rightarrow> server_error option" where
  "validateExchangePrice marketId ep =
     (if ep_Price ep = 0 then Some (ErrPriceFeedInvalidPrice ep marketId)
      else if ep_LastUpdateTime ep = None then Some (ErrPriceFeedLastUpdateTimeNotSet ep marketId)
      else None)"

definition validateMarketPriceUpdate :: "MarketPriceUpdate \<Rightarrow> server_error option" where
  "validateMarketPriceUpdate mpu =
     checkAll (validateExchangePrice (mpu_MarketId mpu)) (mpu_ExchangePrices mpu)"

definition validateMarketPricesUpdatesMessage :: "MarketPriceUpdate list \<Rightarrow> server_error option" where
  "validateMarketPricesUpdatesMessage updates =
     (if length updates = 0 then Some ErrPriceFeedMarketPriceUpdateEmpty
      else checkAll validateMarketPriceUpdate updates)"

text \<open>
  The handler of a server whose \<open>marketToExchange\<close> field may be unset. The outer sum is a
  panic; the result is the new field and the error the RPC returns, if any.
\<close>

definition UpdateMarketPrices ::
    "MarketToExchangePrices option \<Rightarrow> MarketPriceUpdate list \<Rightarrow>
     go_panic + (MarketToExchangePrices \<times> server_error option)" where
  "UpdateMarketPrices marketToExchange req =
     (case marketToExchange of
        None \<Rightarrow> Inl PanicNotInitialized
      | Some mte \<Rightarrow>
          (case validateMarketPricesUpdatesMessage req of
             Some err \<Rightarrow> Inr (mte, Some err)
           | None \<Rightarrow>
               bindE (MarketToExchangePrices_UpdatePrices mte req) (\<lambda>mte'. Inr (mte', None))))"

section \<open>Views of the cache\<close>

text \<open>The cell of a market and an exchange, and the prices of a market that are recent enough.\<close>

definition cache_cell :: "MarketToExchangePrices \<Rightarrow> uint32 \<times> ExchangeId \<Rightarrow> PriceTimestamp option" where
  "cache_cell mte k =
     (case map_of (mte_marketToExchangePrices mte) (fst k) of
        None \<Rightarrow> None
      | Some etp \<Rightarrow> map_of (etp_exchangeToPriceTimestamp etp) (snd k))"

definition valid_prices :: "MarketToExchangePrices \<Rightarrow> uint32 \<Rightarrow> gotime \<Rightarrow> uint64 list" where
  "valid_prices mte m readTime =
     (case map_of (mte_marketToExchangePrices mte) m of
        None \<Rightarrow> []
      | Some etp \<Rightarrow> recent_prices (etp_exchangeToPriceTimestamp etp)
                      (time_Add readTime (dur_neg (mte_maxPriceAge mte))))"

definition mte_ok :: "MarketToExchangePrices \<Rightarrow> bool" where
  "mte_ok mte \<longleftrightarrow> gomap_ok (mte_marketToExchangePrices mte) \<and>
     (\<forall>(m, etp) \<in> set (mte_marketToExchangePrices mte).
        etp_marketId etp = m \<and> gomap_ok (etp_exchangeToPriceTimestamp etp))"

text \<open>The cell updates a request asks for, in the order the two nested loops apply them.\<close>

definition exchange_puts ::
    "uint32 \<Rightarrow> ExchangePrice list \<Rightarrow> ((uint32 \<times> ExchangeId) \<times> uint64 \<times> gotime) list" where
  "exchange_puts m eps = concat (map (\<lambda>ep. case ep_LastUpdateTime ep of None \<Rightarrow> []
     | Some t \<Rightarrow> [((m, ep_ExchangeId ep), ep_Price ep, t)]) eps)"

definition request_puts ::
    "MarketPriceUpdate list \<Rightarrow> ((uint32 \<times> ExchangeId) \<times> uint64 \<times> gotime) list" where
  "request_puts us = concat (map (\<lambda>u. exchange_puts (mpu_MarketId u) (mpu_ExchangePrices u)) us)"

text \<open>One update as a request of its own, and a sequence of requests served one after the other.\<close>

definition server_put ::
    "uint32 \<times> ExchangeId \<Rightarrow> uint64 \<Rightarrow> gotime \<Rightarrow> MarketToExchangePrices \<Rightarrow> MarketToExchangePrices" where
  "server_put k p t mte =
     (case MarketToExchangePrices_UpdatePrices mte
        [\<lparr>mpu_MarketId = fst k, mpu_ExchangePrices =
           [\<lparr>ep_ExchangeId = snd k, ep_Price = p, ep_LastUpdateTime = Some t\<rparr>]\<rparr>] of
        Inr mte' \<Rightarrow> mte' | Inl _ \<Rightarrow> mte)"

fun serve_all ::
    "MarketToExchangePrices \<Rightarrow> MarketPriceUpdate list list \<Rightarrow> go_panic + MarketToExchangePrices" where
  "serve_all mte [] = Inr mte"
| "serve_all mte (req # reqs) =
     bindE (UpdateMarketPrices (Some mte) req) (\<lambda>(mte', _). serve_all mte' reqs)"

definition accepted_puts ::
    "MarketPriceUpdate list list \<Rightarrow> ((uint32 \<times> ExchangeId) \<times> uint64 \<times> gotime) list" where
  "accepted_puts reqs =
     concat (map request_puts (filter (\<lambda>r. validateMarketPricesUpdatesMessage r = None) reqs))"

section \<open>The loops in closed form\<close>

lemma valid_prices_loop_eq:
  "fst (valid_prices_loop cutoff m prices latest) = prices @ recent_prices m cutoff"
  by (induction cutoff m prices latest rule: valid_prices_loop.induct)
    (auto simp: recent_prices_def PriceTimestamp_GetValidPrice_def go_defs)

lemma GetValidPrices_eq:
  "ExchangeToPrice_GetValidPrices etp cutoff =
     recent_prices (etp_exchangeToPriceTimestamp etp) cutoff"
  by (simp add: ExchangeToPrice_GetValidPrices_def getValidPricesAndLatestUpdate_def
      valid_prices_loop_eq)

lemma valid_prices_loop_latest:
  "snd (valid_prices_loop cutoff m prices latest) =
     fold max (map (\<lambda>c. pt_LastUpdateTime (snd c))
       (filter (\<lambda>c. cutoff \<le> pt_LastUpdateTime (snd c)) m)) latest"
  by (induction cutoff m prices latest rule: valid_prices_loop.induct)
    (auto simp: PriceTimestamp_GetValidPrice_def go_defs max_def)

lemma median_prices_loop_eq:
  "map_of (median_prices_loop mte cutoff params acc) m =
     (if \<exists>mp \<in> set params. mp_Id mp = m \<and>
           (\<exists>etp. map_of (mte_marketToExchangePrices mte) m = Some etp \<and>
             unat (mp_MinExchanges mp) \<le> length (ExchangeToPrice_GetValidPrices etp cutoff) \<and>
             ExchangeToPrice_GetValidPrices etp cutoff \<noteq> [])
      then (case map_of (mte_marketToExchangePrices mte) m of None \<Rightarrow> None
            | Some etp \<Rightarrow> (case Median_uint64 (ExchangeToPrice_GetValidPrices etp cutoff) of
                 Inl _ \<Rightarrow> None | Inr v \<Rightarrow> Some v))
      else map_of acc m)"
proof (induction params arbitrary: acc)
  case (Cons mp params)
  show ?case
  proof (cases "map_of (mte_marketToExchangePrices mte) (mp_Id mp)")
    case None
    then show ?thesis by (auto simp: Cons.IH)
  next
    case (Some etp)
    let ?vp = "ExchangeToPrice_GetValidPrices etp cutoff"
    show ?thesis
    proof (cases "unat (mp_MinExchanges mp) \<le> length ?vp \<and> ?vp \<noteq> []")
      case True
      then obtain v where "Median_uint64 ?vp = Inr v"
        using medianResolver.resolver_total by blast
      with True Some show ?thesis by (auto simp: Cons.IH)
    next
      case False
      then have step: "median_prices_loop mte cutoff (mp # params) acc =
          median_prices_loop mte cutoff params acc"
        using Some by (auto simp: Median_def)
      show ?thesis unfolding step Cons.IH using False Some by (intro if_cong) auto
    qed
  qed
qed simp

text \<open>The specification of \<open>GetValidMedianPrices\<close>, for every market.\<close>

lemma GetValidMedianPrices_iff:
  "map_of (GetValidMedianPrices mte params readTime) m = Some v \<longleftrightarrow>
     Median_uint64 (valid_prices mte m readTime) = Inr v \<and>
     (\<exists>mp \<in> set params. mp_Id mp = m \<and>
        unat (mp_MinExchanges mp) \<le> length (valid_prices mte m readTime))"
proof (cases "map_of (mte_marketToExchangePrices mte) m")
  case None
  then show ?thesis
    by (simp add: GetValidMedianPrices_def median_prices_loop_eq valid_prices_def Median_def)
next
  case (Some etp)
  show ?thesis
    using u64.Median_Inr [of "valid_prices mte m readTime"]
    by (auto simp: GetValidMedianPrices_def median_prices_loop_eq valid_prices_def Some
        GetValidPrices_eq split: sum.splits)
qed

section \<open>The cache as a price store\<close>

lemma mte_ok_new: "mte_ok (NewMarketToExchangePrices d)"
  by (simp add: mte_ok_def NewMarketToExchangePrices_def)

lemma mte_okD:
  assumes "mte_ok mte" and "map_of (mte_marketToExchangePrices mte) m = Some etp"
  shows "etp_marketId etp = m" and "gomap_ok (etp_exchangeToPriceTimestamp etp)"
  using assms by (auto simp: mte_ok_def dest: map_of_SomeD)

lemma mte_ok_mput:
  assumes "mte_ok mte" and "etp_marketId etp = m" and "gomap_ok (etp_exchangeToPriceTimestamp etp)"
  shows "mte_ok (mte\<lparr>mte_marketToExchangePrices := mput m etp (mte_marketToExchangePrices mte)\<rparr>)"
  using assms set_mput_subset [of m etp "mte_marketToExchangePrices mte"]
  by (auto simp: mte_ok_def)

text \<open>The inner loop, seen through the cells of its market.\<close>

lemma ExchangeToPrice_UpdatePrices_run:
  assumes "list_all (\<lambda>ep. ep_LastUpdateTime ep \<noteq> None) eps"
  shows "\<exists>etp'. ExchangeToPrice_UpdatePrices etp eps = Inr etp' \<and>
    etp_marketId etp' = etp_marketId etp \<and>
    (gomap_ok (etp_exchangeToPriceTimestamp etp) \<longrightarrow> gomap_ok (etp_exchangeToPriceTimestamp etp')) \<and>
    etp_exchangeToPriceTimestamp etp' =
      fold (\<lambda>(k, p, t). put_cell (snd k) p t) (exchange_puts m eps) (etp_exchangeToPriceTimestamp etp)"
  using assms
proof (induction eps arbitrary: etp)
  case Nil
  then show ?case by (simp add: exchange_puts_def)
next
  case (Cons ep eps)
  from Cons.prems obtain t where t: "ep_LastUpdateTime ep = Some t" by auto
  let ?etp = "etp\<lparr>etp_exchangeToPriceTimestamp :=
    put_cell (ep_ExchangeId ep) (ep_Price ep) t (etp_exchangeToPriceTimestamp etp)\<rparr>"
  have "exchange_puts m (ep # eps) =
      ((m, ep_ExchangeId ep), ep_Price ep, t) # exchange_puts m eps"
    by (simp add: exchange_puts_def t)
  moreover from Cons.IH [of ?etp] Cons.prems obtain etp' where
    "ExchangeToPrice_UpdatePrices ?etp eps = Inr etp'" "etp_marketId etp' = etp_marketId ?etp"
    "gomap_ok (etp_exchangeToPriceTimestamp ?etp) \<longrightarrow> gomap_ok (etp_exchangeToPriceTimestamp etp')"
    "etp_exchangeToPriceTimestamp etp' = fold (\<lambda>(k, p, t). put_cell (snd k) p t)
       (exchange_puts m eps) (etp_exchangeToPriceTimestamp ?etp)"
    by auto
  ultimately show ?case by (simp add: t put_cell_ok)
qed

lemma fold_put_cell:
  assumes "\<forall>u \<in> set us. fst (fst u) = m"
  shows "map_of (fold (\<lambda>(k, p, t). put_cell (snd k) p t) us c) e =
    cell_after (map_of c e) (updates_of (m, e) us)"
  using assms
proof (induction us arbitrary: c)
  case (Cons u us)
  obtain k p t where u: "u = (k, p, t)" by (cases u)
  have "fst k = m" using Cons.prems by (simp add: u)
  then show ?case
    using Cons.IH [of "put_cell (snd k) p t c"] Cons.prems
    by (auto simp: u put_cell_map_of prod_eq_iff)
qed simp

lemma exchange_puts_market: "u \<in> set (exchange_puts m eps) \<Longrightarrow> fst (fst u) = m"
  by (auto simp: exchange_puts_def split: option.splits)

text \<open>One round of the outer loop, seen through all cells.\<close>

definition etp_of :: "MarketToExchangePrices \<Rightarrow> uint32 \<Rightarrow> ExchangeToPrice" where
  "etp_of mte m = (case map_of (mte_marketToExchangePrices mte) m of
     None \<Rightarrow> NewExchangeToPrice m | Some etp \<Rightarrow> etp)"

lemma market_round:
  assumes eps: "list_all (\<lambda>ep. ep_LastUpdateTime ep \<noteq> None) eps" and ok: "mte_ok mte"
  shows "\<exists>etp'. ExchangeToPrice_UpdatePrices (etp_of mte m) eps = Inr etp' \<and>
    (let mte' = mte\<lparr>mte_marketToExchangePrices := mput m etp' (mte_marketToExchangePrices mte)\<rparr> in
     mte_ok mte' \<and> (\<forall>k. cache_cell mte' k =
       cell_after (cache_cell mte k) (updates_of k (exchange_puts m eps))))"
proof -
  let ?ps = "exchange_puts m eps"
  obtain etp' where up: "ExchangeToPrice_UpdatePrices (etp_of mte m) eps = Inr etp'"
    and id: "etp_marketId etp' = etp_marketId (etp_of mte m)"
    and ok': "gomap_ok (etp_exchangeToPriceTimestamp (etp_of mte m)) \<longrightarrow>
      gomap_ok (etp_exchangeToPriceTimestamp etp')"
    and cells: "etp_exchangeToPriceTimestamp etp' = fold (\<lambda>(k, p, t). put_cell (snd k) p t) ?ps
      (etp_exchangeToPriceTimestamp (etp_of mte m))"
    using ExchangeToPrice_UpdatePrices_run [OF eps, of "etp_of mte m" m] by auto
  let ?mte = "mte\<lparr>mte_marketToExchangePrices := mput m etp' (mte_marketToExchangePrices mte)\<rparr>"
  have "etp_marketId (etp_of mte m) = m \<and> gomap_ok (etp_exchangeToPriceTimestamp (etp_of mte m))"
    using mte_okD [OF ok] by (auto simp: etp_of_def NewExchangeToPrice_def split: option.splits)
  then have "mte_ok ?mte" using ok id ok' by (intro mte_ok_mput) auto
  moreover have "cache_cell ?mte (j, e) = cell_after (cache_cell mte (j, e)) (updates_of (j, e) ?ps)"
    for j e
  proof (cases "j = m")
    case True
    have "map_of (etp_exchangeToPriceTimestamp (etp_of mte m)) e = cache_cell mte (m, e)"
      by (simp add: cache_cell_def etp_of_def NewExchangeToPrice_def split: option.splits)
    then show ?thesis
      using fold_put_cell [of ?ps m "etp_exchangeToPriceTimestamp (etp_of mte m)" e]
      by (auto simp: True cache_cell_def cells dest: exchange_puts_market)
  next
    case False
    then have "updates_of (j, e) ?ps = []"
      by (auto intro!: updates_of_none dest: exchange_puts_market)
    with False show ?thesis by (simp add: cache_cell_def)
  qed
  ultimately show ?thesis using up by (auto simp: Let_def)
qed

lemma MarketToExchangePrices_UpdatePrices_run:
  assumes "\<forall>u \<in> set us. list_all (\<lambda>ep. ep_LastUpdateTime ep \<noteq> None) (mpu_ExchangePrices u)"
    and "mte_ok mte"
  shows "\<exists>mte'. MarketToExchangePrices_UpdatePrices mte us = Inr mte' \<and> mte_ok mte' \<and>
    mte_maxPriceAge mte' = mte_maxPriceAge mte \<and>
    (\<forall>k. cache_cell mte' k = cell_after (cache_cell mte k) (updates_of k (request_puts us)))"
  using assms
proof (induction us arbitrary: mte)
  case Nil
  then show ?case by (simp add: request_puts_def)
next
  case (Cons u us)
  let ?m = "mpu_MarketId u"
  obtain etp' where up: "ExchangeToPrice_UpdatePrices (etp_of mte ?m) (mpu_ExchangePrices u) = Inr etp'"
    and round: "let mte' = mte\<lparr>mte_marketToExchangePrices := mput ?m etp' (mte_marketToExchangePrices mte)\<rparr> in
     mte_ok mte' \<and> (\<forall>k. cache_cell mte' k =
       cell_after (cache_cell mte k) (updates_of k (exchange_puts ?m (mpu_ExchangePrices u))))"
    using market_round [of "mpu_ExchangePrices u" mte ?m] Cons.prems by auto
  let ?mte = "mte\<lparr>mte_marketToExchangePrices := mput ?m etp' (mte_marketToExchangePrices mte)\<rparr>"
  from Cons.IH [of ?mte] Cons.prems(1) round obtain mte' where
    run: "MarketToExchangePrices_UpdatePrices ?mte us = Inr mte'" "mte_ok mte'"
      "mte_maxPriceAge mte' = mte_maxPriceAge mte" and
    rest: "\<forall>k. cache_cell mte' k = cell_after (cache_cell ?mte k) (updates_of k (request_puts us))"
    by (auto simp: Let_def)
  have "request_puts (u # us) = exchange_puts ?m (mpu_ExchangePrices u) @ request_puts us"
    by (simp add: request_puts_def)
  then show ?case
    using run up round rest by (auto simp: Let_def cell_after_append etp_of_def)
qed

text \<open>The cache is a price store: every key is known.\<close>

lemma server_put_cells:
  assumes "mte_ok mte"
  shows "mte_ok (server_put k p t mte)"
    and "cache_cell (server_put k p t mte) k' =
      (if k' = k then Some (updated (cell (cache_cell mte k)) p t) else cache_cell mte k')"
proof -
  let ?us = "[\<lparr>mpu_MarketId = fst k, mpu_ExchangePrices =
           [\<lparr>ep_ExchangeId = snd k, ep_Price = p, ep_LastUpdateTime = Some t\<rparr>]\<rparr>]"
  have "request_puts ?us = [(k, p, t)]" by (simp add: request_puts_def exchange_puts_def)
  then obtain mte' where run: "MarketToExchangePrices_UpdatePrices mte ?us = Inr mte'" "mte_ok mte'"
    "\<forall>k'. cache_cell mte' k' = cell_after (cache_cell mte k') (updates_of k' [(k, p, t)])"
    using MarketToExchangePrices_UpdatePrices_run [of ?us mte] assms by fastforce
  then have "server_put k p t mte = mte'" by (simp only: server_put_def sum.case)
  with run(2) run(3) [rule_format, of k'] show "mte_ok (server_put k p t mte)"
    "cache_cell (server_put k p t mte) k' =
      (if k' = k then Some (updated (cell (cache_cell mte k)) p t) else cache_cell mte k')"
    by (simp_all split: if_splits)
qed

interpretation server: price_store cache_cell server_put "\<lambda>_ _. True" mte_ok
  by unfold_locales (auto simp: server_put_cells)

section \<open>The handler\<close>

lemma validate_None_iff:
  "validateMarketPricesUpdatesMessage us = None \<longleftrightarrow>
     us \<noteq> [] \<and> (\<forall>u \<in> set us. \<forall>ep \<in> set (mpu_ExchangePrices u).
        ep_Price ep \<noteq> 0 \<and> ep_LastUpdateTime ep \<noteq> None)"
  by (auto simp: validateMarketPricesUpdatesMessage_def validateMarketPriceUpdate_def
      validateExchangePrice_def checkAll_None_iff split: if_splits)

lemma request_puts_nonzero:
  assumes "validateMarketPricesUpdatesMessage us = None" and "(k, p, t) \<in> set (request_puts us)"
  shows "p \<noteq> 0"
  using assms by (auto simp: validate_None_iff request_puts_def exchange_puts_def split: option.splits)

text \<open>One call: it returns, keeps the cache well formed, and applies exactly the accepted updates.\<close>

lemma UpdateMarketPrices_run:
  assumes "mte_ok mte"
  shows "\<exists>mte'. UpdateMarketPrices (Some mte) us = Inr (mte', validateMarketPricesUpdatesMessage us) \<and>
    mte_ok mte' \<and> mte_maxPriceAge mte' = mte_maxPriceAge mte \<and>
    (\<forall>k. cache_cell mte' k = cell_after (cache_cell mte k) (updates_of k (accepted_puts [us])))"
proof (cases "validateMarketPricesUpdatesMessage us")
  case None
  then have "\<forall>u \<in> set us. list_all (\<lambda>ep. ep_LastUpdateTime ep \<noteq> None) (mpu_ExchangePrices u)"
    by (auto simp: validate_None_iff list_all_iff)
  from MarketToExchangePrices_UpdatePrices_run [OF this assms] None show ?thesis
    by (auto simp: UpdateMarketPrices_def accepted_puts_def)
next
  case (Some e)
  with assms show ?thesis by (auto simp: UpdateMarketPrices_def accepted_puts_def)
qed

lemma serve_all_run:
  assumes "mte_ok mte"
  shows "\<exists>mte'. serve_all mte reqs = Inr mte' \<and> mte_ok mte' \<and>
    mte_maxPriceAge mte' = mte_maxPriceAge mte \<and>
    (\<forall>k. cache_cell mte' k = cell_after (cache_cell mte k) (updates_of k (accepted_puts reqs)))"
  using assms
proof (induction reqs arbitrary: mte)
  case Nil
  then show ?case by (simp add: accepted_puts_def)
next
  case (Cons r reqs)
  from UpdateMarketPrices_run [OF Cons.prems, of r] obtain mte1 where
    one: "UpdateMarketPrices (Some mte) r = Inr (mte1, validateMarketPricesUpdatesMessage r)"
      "mte_ok mte1" "mte_maxPriceAge mte1 = mte_maxPriceAge mte"
      "\<forall>k. cache_cell mte1 k = cell_after (cache_cell mte k) (updates_of k (accepted_puts [r]))"
    by auto
  have "accepted_puts (r # reqs) = accepted_puts [r] @ accepted_puts reqs"
    by (simp add: accepted_puts_def)
  with one Cons.IH [OF one(2)] show ?case by (auto simp: cell_after_append)
qed

section \<open>Reading: the order of the map loops does not matter\<close>

definition market_cells :: "MarketToExchangePrices \<Rightarrow> uint32 \<Rightarrow> (ExchangeId, PriceTimestamp) gomap" where
  "market_cells mte m = (case map_of (mte_marketToExchangePrices mte) m of None \<Rightarrow> []
     | Some etp \<Rightarrow> etp_exchangeToPriceTimestamp etp)"

lemma market_cells_views:
  "valid_prices mte m readTime =
     recent_prices (market_cells mte m) (time_Add readTime (dur_neg (mte_maxPriceAge mte)))"
  "map_of (market_cells mte m) e = cache_cell mte (m, e)"
  by (simp_all add: valid_prices_def market_cells_def cache_cell_def split: option.splits)

lemma market_cells_ok: "mte_ok mte \<Longrightarrow> gomap_ok (market_cells mte m)"
  using mte_okD by (auto simp: market_cells_def split: option.splits)

lemma valid_prices_cells:
  assumes "mte_ok a" and "mte_ok b" and "mte_maxPriceAge a = mte_maxPriceAge b"
    and cells: "\<And>k. cache_cell a k = cache_cell b k"
  shows "mset (valid_prices a m readTime) = mset (valid_prices b m readTime)"
proof -
  have "map_of (market_cells a m) = map_of (market_cells b m)"
    using cells by (auto simp: market_cells_views(2))
  then have "mset (market_cells a m) = mset (market_cells b m)"
    using assms(1,2) by (intro gomap_same_mset) (auto intro: market_cells_ok)
  then show ?thesis unfolding market_cells_views(1) assms(3) by (rule mset_recent_prices)
qed

lemma GetValidMedianPrices_cells:
  assumes "mte_ok a" and "mte_ok b" and "mte_maxPriceAge a = mte_maxPriceAge b"
    and "\<And>k. cache_cell a k = cache_cell b k"
  shows "map_of (GetValidMedianPrices a params readTime) = map_of (GetValidMedianPrices b params readTime)"
proof
  fix m
  have "mset (valid_prices a m readTime) = mset (valid_prices b m readTime)"
    using assms by (rule valid_prices_cells)
  moreover from this have "Median_uint64 (valid_prices a m readTime) =
      Median_uint64 (valid_prices b m readTime)"
    by (rule medianResolver.resolver_mset)
  moreover from calculation(1) have "length (valid_prices a m readTime) = length (valid_prices b m readTime)"
    by (rule mset_eq_length)
  ultimately have "map_of (GetValidMedianPrices a params readTime) m = Some v \<longleftrightarrow>
      map_of (GetValidMedianPrices b params readTime) m = Some v" for v
    by (simp add: GetValidMedianPrices_iff)
  then show "map_of (GetValidMedianPrices a params readTime) m =
      map_of (GetValidMedianPrices b params readTime) m"
    by (rule option_eq_SomeI)
qed

text \<open>Every price that counts as recent sits in a cell.\<close>

lemma valid_prices_cell:
  assumes "mte_ok mte" and "p \<in> set (valid_prices mte m readTime)"
  shows "\<exists>e pt. cache_cell mte (m, e) = Some pt \<and> pt_Price pt = p \<and>
    time_Add readTime (dur_neg (mte_maxPriceAge mte)) \<le> pt_LastUpdateTime pt"
proof -
  obtain e pt where "(e, pt) \<in> set (market_cells mte m)" and pt: "pt_Price pt = p"
    "time_Add readTime (dur_neg (mte_maxPriceAge mte)) \<le> pt_LastUpdateTime pt"
    using assms(2) by (auto simp: market_cells_views(1) recent_prices_def)
  then have "cache_cell mte (m, e) = Some pt"
    using market_cells_ok [OF assms(1), of m] by (simp flip: market_cells_views(2))
  with pt show ?thesis by auto
qed

section \<open>Properties\<close>


text \<open>C2: A minority of exchanges cannot move the reported median: if more than half of the recent
  prices of a market lie between \<open>lo\<close> and \<open>hi\<close>, so does the median the server reports.\<close>

theorem GetValidMedianPrices_majority:
  assumes "map_of (GetValidMedianPrices mte params readTime) m = Some v"
    and "length (valid_prices mte m readTime) <
      2 * length (filter (\<lambda>p. lo \<le> p \<and> p \<le> hi) (valid_prices mte m readTime))"
  shows "lo \<le> v \<and> v \<le> hi"
  using assms medianResolver.resolver_majority by (auto simp: GetValidMedianPrices_iff)

text \<open>C3: The handler \<open>UpdateMarketPrices\<close> of an initialised server never panics. A request that fails
  validation leaves the cache as it was and returns its error; a request that passes applies
  exactly its own updates, each to the cell of its market and exchange.\<close>

theorem UpdateMarketPrices_spec:
  assumes "mte_ok mte"
  shows "\<exists>mte'. UpdateMarketPrices (Some mte) req = Inr (mte', validateMarketPricesUpdatesMessage req) \<and>
    mte_ok mte' \<and>
    (if validateMarketPricesUpdatesMessage req = None
     then \<forall>k. cache_cell mte' k = cell_after (cache_cell mte k) (updates_of k (request_puts req))
     else mte' = mte)"
proof -
  from UpdateMarketPrices_run [OF assms, of req] obtain mte' where
    run: "UpdateMarketPrices (Some mte) req = Inr (mte', validateMarketPricesUpdatesMessage req)"
      "mte_ok mte'"
      "\<forall>k. cache_cell mte' k = cell_after (cache_cell mte k) (updates_of k (accepted_puts [req]))"
    by auto
  moreover have "mte' = mte" if "validateMarketPricesUpdatesMessage req \<noteq> None"
    using run(1) that by (auto simp: UpdateMarketPrices_def)
  ultimately show ?thesis by (auto simp: accepted_puts_def)
qed


text \<open>After any sequence of requests to a fresh server, the median it reports at a time later than
  the maximal price age is never the invalid price zero.\<close>

theorem served_median_nonzero:
  assumes "serve_all (NewMarketToExchangePrices age) reqs = Inr mte"
    and "zero_time < time_Add readTime (dur_neg age)"
    and "map_of (GetValidMedianPrices mte params readTime) m = Some v"
  shows "v \<noteq> 0"
proof -
  from serve_all_run [OF mte_ok_new, of age reqs] assms(1) have ok: "mte_ok mte"
    and age: "mte_maxPriceAge mte = age"
    and cells: "\<And>k. cache_cell mte k = cell_after None (updates_of k (accepted_puts reqs))"
    by (auto simp: NewMarketToExchangePrices_def cache_cell_def)
  have "p \<noteq> 0" if "p \<in> set (valid_prices mte m readTime)" for p
  proof -
    from valid_prices_cell [OF ok that] obtain e pt where
      pt: "cache_cell mte (m, e) = Some pt" "pt_Price pt = p" "zero_time < pt_LastUpdateTime pt"
      using assms(2) by (auto simp: age)
    then have "(p, pt_LastUpdateTime pt) \<in> set (updates_of (m, e) (accepted_puts reqs))"
      using cell_after_source [of None _ pt] cells by (force simp: NewPriceTimestamp_def)
    then show ?thesis
      by (auto simp: set_updates_of accepted_puts_def dest: request_puts_nonzero)
  qed
  then have "0 \<notin> set (valid_prices mte m readTime)" by blast
  moreover from assms(3) have "Median_uint64 (valid_prices mte m readTime) = Inr v"
    by (simp add: GetValidMedianPrices_iff)
  ultimately show ?thesis
    using medianResolver.resolver_positive u64.Median_Inr by blast
qed

section \<open>A concrete cache\<close>

definition demo_price :: "ExchangeId \<Rightarrow> uint64 \<Rightarrow> gotime \<Rightarrow> ExchangePrice" where
  "demo_price e p t = \<lparr>ep_ExchangeId = e, ep_Price = p, ep_LastUpdateTime = Some t\<rparr>"

definition demo_request :: "MarketPriceUpdate list" where
  "demo_request = [\<lparr>mpu_MarketId = 1, mpu_ExchangePrices =
     [demo_price ''Binance'' 100 50, demo_price ''Kraken'' 102 51, demo_price ''Okx'' 900 52]\<rparr>]"

definition demo_request2 :: "MarketPriceUpdate list" where
  "demo_request2 = [\<lparr>mpu_MarketId = 1, mpu_ExchangePrices = [demo_price ''Okx'' 101 53]\<rparr>]"

definition demo_param :: MarketParam where
  "demo_param = \<lparr>mp_Id = 1, mp_Pair = ''BTC-USD'', mp_Exponent = - 5, mp_MinExchanges = 2,
     mp_MinPriceChangePpm = 1000, mp_ExchangeConfigJson = ''{}'', mp_QueryData = ''00''\<rparr>"

definition demo_cache :: MarketToExchangePrices where
  "demo_cache = (case serve_all (NewMarketToExchangePrices 30) [demo_request] of
     Inr m \<Rightarrow> m | Inl _ \<Rightarrow> NewMarketToExchangePrices 30)"

theorem GetValidMedianPrices_majority_witness:
  "map_of (GetValidMedianPrices demo_cache [demo_param] 60) 1 = Some 102 \<and>
   100 \<le> (102 :: uint64) \<and> (102 :: uint64) \<le> 102"
proof -
  have h: "map_of (GetValidMedianPrices demo_cache [demo_param] 60) 1 = Some 102" by code_simp
  have m: "length (valid_prices demo_cache 1 60) <
      2 * length (filter (\<lambda>p. 100 \<le> p \<and> p \<le> 102) (valid_prices demo_cache 1 60))"
    by code_simp
  show ?thesis using h GetValidMedianPrices_majority [OF h m] by simp
qed

theorem UpdateMarketPrices_spec_witness:
  "mte_ok demo_cache \<and>
   (\<exists>mte'. UpdateMarketPrices (Some demo_cache) demo_request2 = Inr (mte', None) \<and>
      cache_cell mte' (1, ''Okx'') = Some \<lparr>pt_LastUpdateTime = 53, pt_Price = 101\<rparr>)"
proof -
  have ok: "mte_ok demo_cache" by code_simp
  have v: "validateMarketPricesUpdatesMessage demo_request2 = None" by code_simp
  have "cell_after (cache_cell demo_cache (1, ''Okx'')) (updates_of (1, ''Okx'') (request_puts demo_request2)) =
      Some \<lparr>pt_LastUpdateTime = 53, pt_Price = 101\<rparr>"
    by code_simp
  then show ?thesis using ok UpdateMarketPrices_spec [OF ok, of demo_request2] by (auto simp: v)
qed


theorem served_median_nonzero_witness:
  "serve_all (NewMarketToExchangePrices 30) [demo_request] = Inr demo_cache \<and>
   map_of (GetValidMedianPrices demo_cache [demo_param] 60) 1 = Some 102 \<and> (102 :: uint64) \<noteq> 0"
proof -
  have s: "serve_all (NewMarketToExchangePrices 30) [demo_request] = Inr demo_cache" by code_simp
  have t: "zero_time < time_Add 60 (dur_neg 30)" by code_simp
  have m: "map_of (GetValidMedianPrices demo_cache [demo_param] 60) 1 = Some 102" by code_simp
  show ?thesis using s m served_median_nonzero [OF s t m] by blast
qed

end
