(* ===== verification/ClientPrices.thy ===== *)
theory ClientPrices
  imports GoLib PriceTimestamp
begin

text \<open>
  The in-memory cache of the price daemon client: \<open>pricefeed/client/types/market_to_price.go\<close>
  (the prices of one exchange) and \<open>pricefeed/client/types/exchange_to_market_prices.go\<close> (all
  exchanges). The exchanges are fixed at creation; every method of \<open>MarketToPrice\<close> holds its
  mutex, so an update is one atomic step. Telemetry is left out.
\<close>

section \<open>One exchange\<close>

record MarketPriceTimestamp =
  mpt_MarketId :: uint32
  mpt_Price :: uint64
  mpt_LastUpdatedAt :: gotime

record MarketToPrice =
  mtp_MarketToPriceTimestamp :: "(uint32, PriceTimestamp) gomap"

definition NewMarketToPrice :: MarketToPrice where
  "NewMarketToPrice = \<lparr>mtp_MarketToPriceTimestamp = []\<rparr>"

definition MarketToPrice_UpdatePrice :: "MarketToPrice \<Rightarrow> MarketPriceTimestamp \<Rightarrow> MarketToPrice" where
  "MarketToPrice_UpdatePrice mtp mpt =
     mtp\<lparr>mtp_MarketToPriceTimestamp :=
       put_cell (mpt_MarketId mpt) (mpt_Price mpt) (mpt_LastUpdatedAt mpt)
         (mtp_MarketToPriceTimestamp mtp)\<rparr>"

definition MarketToPrice_GetAllPrices :: "MarketToPrice \<Rightarrow> MarketPriceTimestamp list" where
  "MarketToPrice_GetAllPrices mtp =
     map (\<lambda>(marketId, priceTimestamp).
         \<lparr>mpt_MarketId = marketId, mpt_Price = pt_Price priceTimestamp,
          mpt_LastUpdatedAt = pt_LastUpdateTime priceTimestamp\<rparr>)
       (mtp_MarketToPriceTimestamp mtp)"

definition GetValidPriceForMarket :: "MarketToPrice \<Rightarrow> MarketId \<Rightarrow> gotime \<Rightarrow> uint64 \<times> bool" where
  "GetValidPriceForMarket mtp marketId cutoffTime =
     (case map_of (mtp_MarketToPriceTimestamp mtp) marketId of
        None \<Rightarrow> (0, False)
      | Some price \<Rightarrow> PriceTimestamp_GetValidPrice price cutoffTime)"

section \<open>All exchanges\<close>

record ExchangeToMarketPrices =
  etmp_ExchangeMarketPrices :: "(ExchangeId, MarketToPrice) gomap"

datatype exchange_ids_error = ErrNoExchangeIds | ErrExchangeIdTwice ExchangeId

fun new_exchanges_loop ::
    "ExchangeId list \<Rightarrow> (ExchangeId, MarketToPrice) gomap \<Rightarrow>
     exchange_ids_error + (ExchangeId, MarketToPrice) gomap" where
  "new_exchanges_loop [] m = Inr m"
| "new_exchanges_loop (exchangeId # rest) m =
     (case map_of m exchangeId of
        Some _ \<Rightarrow> Inl (ErrExchangeIdTwice exchangeId)
      | None \<Rightarrow> new_exchanges_loop rest (mput exchangeId NewMarketToPrice m))"

definition NewExchangeToMarketPrices ::
    "ExchangeId list \<Rightarrow> exchange_ids_error + ExchangeToMarketPrices" where
  "NewExchangeToMarketPrices exchangeIds =
     (if length exchangeIds = 0 then Inl ErrNoExchangeIds
      else bindE (new_exchanges_loop exchangeIds [])
             (\<lambda>m. Inr \<lparr>etmp_ExchangeMarketPrices = m\<rparr>))"

text \<open>An unknown exchange gives a nil \<open>MarketToPrice\<close>, whose method call panics.\<close>

definition ExchangeToMarketPrices_UpdatePrice ::
    "ExchangeToMarketPrices \<Rightarrow> ExchangeId \<Rightarrow> MarketPriceTimestamp \<Rightarrow> go_panic + ExchangeToMarketPrices" where
  "ExchangeToMarketPrices_UpdatePrice etmp exchangeId mpt =
     (case map_of (etmp_ExchangeMarketPrices etmp) exchangeId of
        None \<Rightarrow> Inl NilDereference
      | Some mtp \<Rightarrow>
          Inr (etmp\<lparr>etmp_ExchangeMarketPrices :=
            mput exchangeId (MarketToPrice_UpdatePrice mtp mpt) (etmp_ExchangeMarketPrices etmp)\<rparr>))"

definition ExchangeToMarketPrices_GetAllPrices ::
    "ExchangeToMarketPrices \<Rightarrow> (ExchangeId, MarketPriceTimestamp list) gomap" where
  "ExchangeToMarketPrices_GetAllPrices etmp =
     map (\<lambda>(exchangeId, mtp). (exchangeId, MarketToPrice_GetAllPrices mtp))
       (etmp_ExchangeMarketPrices etmp)"

fun index_prices_loop ::
    "MarketId \<Rightarrow> gotime \<Rightarrow> (ExchangeId, MarketToPrice) gomap \<Rightarrow> uint64 list \<Rightarrow> uint64 list" where
  "index_prices_loop marketId cutoffTime [] prices = prices"
| "index_prices_loop marketId cutoffTime ((_, mtp) # rest) prices =
     (case GetValidPriceForMarket mtp marketId cutoffTime of
        (price, True) \<Rightarrow> index_prices_loop marketId cutoffTime rest (prices @ [price])
      | (_, False) \<Rightarrow> index_prices_loop marketId cutoffTime rest prices)"

definition GetIndexPrice ::
    "ExchangeToMarketPrices \<Rightarrow> MarketId \<Rightarrow> gotime \<Rightarrow> (uint64 list \<Rightarrow> 'e + uint64) \<Rightarrow> uint64 \<times> nat" where
  "GetIndexPrice etmp marketId cutoffTime resolver =
     (let prices = index_prices_loop marketId cutoffTime (etmp_ExchangeMarketPrices etmp) [] in
      if length prices = 0 then (0, 0)
      else case resolver prices of
             Inl _ \<Rightarrow> (0, 0)
           | Inr median \<Rightarrow> (median, length prices))"

section \<open>Views of the cache\<close>

definition client_cell :: "ExchangeToMarketPrices \<Rightarrow> ExchangeId \<times> MarketId \<Rightarrow> PriceTimestamp option" where
  "client_cell etmp k =
     (case map_of (etmp_ExchangeMarketPrices etmp) (fst k) of
        None \<Rightarrow> None
      | Some mtp \<Rightarrow> map_of (mtp_MarketToPriceTimestamp mtp) (snd k))"

definition client_known :: "ExchangeToMarketPrices \<Rightarrow> ExchangeId \<times> MarketId \<Rightarrow> bool" where
  "client_known etmp k \<longleftrightarrow> fst k \<in> set (map fst (etmp_ExchangeMarketPrices etmp))"

definition etmp_ok :: "ExchangeToMarketPrices \<Rightarrow> bool" where
  "etmp_ok etmp \<longleftrightarrow> gomap_ok (etmp_ExchangeMarketPrices etmp) \<and>
     (\<forall>x \<in> set (etmp_ExchangeMarketPrices etmp). gomap_ok (mtp_MarketToPriceTimestamp (snd x)))"

definition client_put ::
    "ExchangeId \<times> MarketId \<Rightarrow> uint64 \<Rightarrow> gotime \<Rightarrow> ExchangeToMarketPrices \<Rightarrow> ExchangeToMarketPrices" where
  "client_put k p t etmp =
     (case ExchangeToMarketPrices_UpdatePrice etmp (fst k)
        \<lparr>mpt_MarketId = snd k, mpt_Price = p, mpt_LastUpdatedAt = t\<rparr> of
        Inr etmp' \<Rightarrow> etmp' | Inl _ \<Rightarrow> etmp)"

text \<open>The recent prices of one market, one per exchange that has one.\<close>

definition market_prices :: "ExchangeToMarketPrices \<Rightarrow> MarketId \<Rightarrow> gotime \<Rightarrow> uint64 list" where
  "market_prices etmp m cutoff =
     concat (map (\<lambda>x. case map_of (mtp_MarketToPriceTimestamp (snd x)) m of
        None \<Rightarrow> [] | Some pt \<Rightarrow> if cutoff \<le> pt_LastUpdateTime pt then [pt_Price pt] else [])
      (etmp_ExchangeMarketPrices etmp))"

lemma index_prices_loop_eq:
  "index_prices_loop m cutoff xs prices =
     prices @ market_prices \<lparr>etmp_ExchangeMarketPrices = xs\<rparr> m cutoff"
proof (induction xs arbitrary: prices)
  case (Cons x xs)
  then show ?case
    by (cases x) (auto simp: market_prices_def GetValidPriceForMarket_def
        PriceTimestamp_GetValidPrice_def go_defs split: option.splits)
qed (simp add: market_prices_def)

lemma index_prices_loop_market_prices:
  "index_prices_loop m cutoff (etmp_ExchangeMarketPrices etmp) [] = market_prices etmp m cutoff"
  by (simp add: index_prices_loop_eq market_prices_def)

section \<open>The cache as a price store\<close>

lemma client_known_iff: "client_known etmp k \<longleftrightarrow> map_of (etmp_ExchangeMarketPrices etmp) (fst k) \<noteq> None"
  by (auto simp: client_known_def map_of_None_iff_key)

lemma client_put_known:
  assumes "map_of (etmp_ExchangeMarketPrices etmp) (fst k) = Some mtp"
  shows "client_put k p t etmp = etmp\<lparr>etmp_ExchangeMarketPrices := mput (fst k)
    (mtp\<lparr>mtp_MarketToPriceTimestamp := put_cell (snd k) p t (mtp_MarketToPriceTimestamp mtp)\<rparr>)
    (etmp_ExchangeMarketPrices etmp)\<rparr>"
  using assms by (simp add: client_put_def ExchangeToMarketPrices_UpdatePrice_def
      MarketToPrice_UpdatePrice_def)

lemma etmp_okD:
  assumes "etmp_ok etmp" and "map_of (etmp_ExchangeMarketPrices etmp) e = Some mtp"
  shows "gomap_ok (mtp_MarketToPriceTimestamp mtp)"
  using assms by (auto simp: etmp_ok_def dest!: map_of_SomeD)

lemma client_put_cells:
  assumes "etmp_ok etmp" and "client_known etmp k"
  shows "etmp_ok (client_put k p t etmp)"
    and "client_cell (client_put k p t etmp) k' =
      (if k' = k then Some (updated (cell (client_cell etmp k)) p t) else client_cell etmp k')"
    and "client_known (client_put k p t etmp) k' \<longleftrightarrow> client_known etmp k'"
proof -
  obtain mtp where mtp: "map_of (etmp_ExchangeMarketPrices etmp) (fst k) = Some mtp"
    using assms(2) by (auto simp: client_known_iff)
  note put = client_put_known [OF mtp]
  show "etmp_ok (client_put k p t etmp)"
    using assms(1) put_cell_ok [OF etmp_okD [OF assms(1) mtp]] set_mput_subset
    by (fastforce simp: put etmp_ok_def)
  show "client_cell (client_put k p t etmp) k' =
      (if k' = k then Some (updated (cell (client_cell etmp k)) p t) else client_cell etmp k')"
    using mtp unfolding put by (cases k; cases k') (auto simp: client_cell_def put_cell_map_of)
  show "client_known (client_put k p t etmp) k' \<longleftrightarrow> client_known etmp k'"
    using mtp by (auto simp: put client_known_iff)
qed

interpretation client: price_store client_cell client_put client_known etmp_ok
  by unfold_locales (simp_all add: client_put_cells)

section \<open>Creation\<close>

lemma new_exchanges_loop_ok:
  "distinct (map fst m @ ids) \<Longrightarrow>
     new_exchanges_loop ids m = Inr (m @ map (\<lambda>e. (e, NewMarketToPrice)) ids)"
proof (induction ids arbitrary: m)
  case (Cons e ids)
  then have e: "e \<notin> fst ` set m" by auto
  with Cons show ?case
    by (simp add: mput_new map_of_None_iff_key [THEN iffD2, OF e])
qed simp

lemma new_exchanges_loop_error:
  assumes "gomap_ok m" and "\<not> distinct (map fst m @ ids)"
  shows "\<exists>e. new_exchanges_loop ids m = Inl (ErrExchangeIdTwice e) \<and>
    2 \<le> count (mset (map fst m @ ids)) e"
  using assms
proof (induction ids arbitrary: m)
  case (Cons e ids)
  show ?case
  proof (cases "map_of m e")
    case None
    then have e: "e \<notin> fst ` set m" by (simp add: map_of_None_iff_key)
    have "gomap_ok (mput e NewMarketToPrice m)"
      "\<not> distinct (map fst (mput e NewMarketToPrice m) @ ids)"
      using Cons.prems e by (auto simp: mput_new)
    from Cons.IH [OF this] show ?thesis using None by (auto simp: mput_new e split: if_splits)
  next
    case (Some x)
    then have "e \<in># mset (map fst m)" by (force dest: map_of_SomeD)
    then obtain n where "count (mset (map fst m)) e = Suc n"
      by (metis count_eq_zero_iff not0_implies_Suc)
    with Some show ?thesis by simp
  qed
qed auto

text \<open>The cache that \<open>NewExchangeToMarketPrices\<close> creates: one empty entry per exchange.\<close>

definition fresh_prices :: "ExchangeId list \<Rightarrow> ExchangeToMarketPrices" where
  "fresh_prices ids = \<lparr>etmp_ExchangeMarketPrices = map (\<lambda>e. (e, NewMarketToPrice)) ids\<rparr>"

lemma fresh_prices_ok:
  "distinct ids \<Longrightarrow> etmp_ok (fresh_prices ids)"
  "client_known (fresh_prices ids) k \<longleftrightarrow> fst k \<in> set ids"
  "client_cell (fresh_prices ids) k = None"
  by (auto simp: fresh_prices_def etmp_ok_def client_known_def client_cell_def NewMarketToPrice_def
      comp_def split: option.splits dest!: map_of_SomeD)

lemma NewExchangeToMarketPrices_ok:
  "ids \<noteq> [] \<Longrightarrow> distinct ids \<Longrightarrow> NewExchangeToMarketPrices ids = Inr (fresh_prices ids)"
  by (simp add: NewExchangeToMarketPrices_def new_exchanges_loop_ok fresh_prices_def)

lemma NewExchangeToMarketPrices_InrD:
  assumes "NewExchangeToMarketPrices ids = Inr etmp"
  shows "ids \<noteq> []" and "distinct ids" and "etmp = fresh_prices ids"
proof -
  show ne: "ids \<noteq> []" using assms by (auto simp: NewExchangeToMarketPrices_def)
  show d: "distinct ids"
    using assms new_exchanges_loop_error [of "[]" ids]
    by (cases "distinct ids") (auto simp: NewExchangeToMarketPrices_def split: if_splits)
  show "etmp = fresh_prices ids" using assms NewExchangeToMarketPrices_ok [OF ne d] by simp
qed

section \<open>Histories of updates\<close>

fun client_run ::
    "(ExchangeId \<times> MarketPriceTimestamp) list \<Rightarrow> ExchangeToMarketPrices \<Rightarrow> go_panic + ExchangeToMarketPrices" where
  "client_run [] etmp = Inr etmp"
| "client_run ((e, mpt) # us) etmp = bindE (ExchangeToMarketPrices_UpdatePrice etmp e mpt) (client_run us)"

definition client_keyed ::
    "(ExchangeId \<times> MarketPriceTimestamp) list \<Rightarrow> ((ExchangeId \<times> MarketId) \<times> uint64 \<times> gotime) list" where
  "client_keyed us = map (\<lambda>(e, mpt). ((e, mpt_MarketId mpt), mpt_Price mpt, mpt_LastUpdatedAt mpt)) us"

lemma UpdatePrice_put:
  assumes "client_known etmp (e, mpt_MarketId mpt)"
  shows "ExchangeToMarketPrices_UpdatePrice etmp e mpt =
    Inr (client_put (e, mpt_MarketId mpt) (mpt_Price mpt) (mpt_LastUpdatedAt mpt) etmp)"
  using assms
  by (auto simp: client_known_iff ExchangeToMarketPrices_UpdatePrice_def client_put_def
      MarketToPrice_UpdatePrice_def)

lemma client_put_keys:
  "map fst (etmp_ExchangeMarketPrices (client_put k p t etmp)) = map fst (etmp_ExchangeMarketPrices etmp)"
  by (auto simp: client_put_def ExchangeToMarketPrices_UpdatePrice_def
      split: option.splits intro!: keys_mput_known dest!: map_of_SomeD) (force)

lemma client_run_puts:
  assumes "etmp_ok etmp" and "\<forall>u \<in> set us. fst u \<in> fst ` set (etmp_ExchangeMarketPrices etmp)"
  shows "client_run us etmp = Inr (client.puts (client_keyed us) etmp)"
  using assms
proof (induction us arbitrary: etmp)
  case (Cons u us)
  obtain e mpt where u: "u = (e, mpt)" by (cases u)
  let ?k = "(e, mpt_MarketId mpt)" and ?p = "mpt_Price mpt" and ?t = "mpt_LastUpdatedAt mpt"
  have k: "client_known etmp ?k" using Cons.prems by (simp add: u client_known_def)
  have "fst ` set (etmp_ExchangeMarketPrices (client_put ?k ?p ?t etmp)) =
      fst ` set (etmp_ExchangeMarketPrices etmp)"
    using client_put_keys [of ?k ?p ?t etmp] by (metis list.set_map)
  then show ?case
    using Cons.prems Cons.IH [of "client_put ?k ?p ?t etmp"] client_put_cells(1) [OF Cons.prems(1) k]
    by (simp add: u UpdatePrice_put [OF k] client_keyed_def)
qed (simp add: client_keyed_def)

lemma client_puts_keys:
  "map fst (etmp_ExchangeMarketPrices (client.puts us etmp)) = map fst (etmp_ExchangeMarketPrices etmp)"
  by (induction us arbitrary: etmp) (auto simp: client_put_keys)

text \<open>The recent prices of a market are determined by the cells.\<close>

lemma market_prices_cells:
  assumes "etmp_ok etmp"
  shows "market_prices etmp m cutoff =
    concat (map (\<lambda>e. case client_cell etmp (e, m) of None \<Rightarrow> []
        | Some pt \<Rightarrow> if cutoff \<le> pt_LastUpdateTime pt then [pt_Price pt] else [])
      (map fst (etmp_ExchangeMarketPrices etmp)))"
proof -
  have "client_cell etmp (fst x, m) = map_of (mtp_MarketToPriceTimestamp (snd x)) m"
    if "x \<in> set (etmp_ExchangeMarketPrices etmp)" for x
  proof -
    have "map_of (etmp_ExchangeMarketPrices etmp) (fst x) = Some (snd x)"
      using that assms by (intro map_of_is_SomeI) (simp_all add: etmp_ok_def)
    then show ?thesis by (simp add: client_cell_def)
  qed
  then show ?thesis by (auto simp: market_prices_def intro!: arg_cong [where f = concat])
qed

text \<open>What a run from a fresh cache leaves: the cells of the updates, in the order of the exchanges.\<close>

lemma client_run_fresh:
  assumes "distinct ids" and "\<forall>u \<in> set us. fst u \<in> set ids"
  shows "\<exists>etmp. client_run us (fresh_prices ids) = Inr etmp \<and> etmp_ok etmp \<and>
    map fst (etmp_ExchangeMarketPrices etmp) = ids \<and>
    (\<forall>k. client_cell etmp k = cell_after None (updates_of k (client_keyed us)))"
proof -
  note ok = fresh_prices_ok(1) [OF assms(1)]
  have known: "\<forall>u \<in> set (client_keyed us). client_known (fresh_prices ids) (fst u)"
    using assms(2) by (auto simp: client_keyed_def fresh_prices_ok(2))
  have "fst ` set (etmp_ExchangeMarketPrices (fresh_prices ids)) = set ids"
    by (force simp: fresh_prices_def)
  then have "client_run us (fresh_prices ids) = Inr (client.puts (client_keyed us) (fresh_prices ids))"
    using assms(2) by (intro client_run_puts [OF ok]) simp
  moreover have "map fst (etmp_ExchangeMarketPrices (fresh_prices ids)) = ids"
    by (simp add: fresh_prices_def comp_def)
  ultimately show ?thesis
    using client.puts_inv [OF ok known] client.lookup_puts [OF ok known]
    by (simp add: client_puts_keys fresh_prices_ok(3))
qed

section \<open>Properties\<close>

text \<open>\<open>NewExchangeToMarketPrices\<close> succeeds exactly when the list of exchanges is not empty and has
  no duplicate; the cache then accepts exactly these exchanges and is empty. Otherwise the error
  is the one of the empty list, or names an exchange that appears twice.\<close>

theorem NewExchangeToMarketPrices_spec:
  "case NewExchangeToMarketPrices ids of
     Inr etmp \<Rightarrow> ids \<noteq> [] \<and> distinct ids \<and> etmp_ok etmp \<and>
       map fst (etmp_ExchangeMarketPrices etmp) = ids \<and> (\<forall>k. client_cell etmp k = None)
   | Inl ErrNoExchangeIds \<Rightarrow> ids = []
   | Inl (ErrExchangeIdTwice e) \<Rightarrow> 2 \<le> count (mset ids) e"
proof (cases "ids \<noteq> [] \<and> distinct ids")
  case True
  then show ?thesis
    by (simp add: NewExchangeToMarketPrices_ok fresh_prices_ok) (simp add: fresh_prices_def comp_def)
next
  case False
  then show ?thesis
    using new_exchanges_loop_error [of "[]" ids] by (auto simp: NewExchangeToMarketPrices_def)
qed

text \<open>After any updates of known exchanges, no update panics and the index price of a market is the
  median, over the exchanges in any order, of the newest price of each exchange that is not older
  than the cutoff, together with the number of these prices; it is \<open>(0, 0)\<close> if there is none.\<close>

theorem GetIndexPrice_history:
  assumes "NewExchangeToMarketPrices ids = Inr fresh" and "\<forall>u \<in> set us. fst u \<in> set ids"
  shows "\<exists>etmp. client_run us fresh = Inr etmp \<and>
    (let prices = concat (map (\<lambda>e. case cell_after None (updates_of (e, m) (client_keyed us)) of None \<Rightarrow> []
           | Some pt \<Rightarrow> if cutoff \<le> pt_LastUpdateTime pt then [pt_Price pt] else []) ids)
     in if prices = [] then GetIndexPrice etmp m cutoff Median_uint64 = (0, 0)
        else uint (fst (GetIndexPrice etmp m cutoff Median_uint64)) = median_int (map uint prices) \<and>
          snd (GetIndexPrice etmp m cutoff Median_uint64) = length prices)"
proof -
  note new = NewExchangeToMarketPrices_InrD [OF assms(1)]
  from client_run_fresh [OF new(2) assms(2)] obtain etmp where
    run: "client_run us (fresh_prices ids) = Inr etmp" "etmp_ok etmp"
      "map fst (etmp_ExchangeMarketPrices etmp) = ids"
      "\<forall>k. client_cell etmp k = cell_after None (updates_of k (client_keyed us))" by blast
  let ?ps = "market_prices etmp m cutoff"
  have "?ps \<noteq> [] \<Longrightarrow> \<exists>v. Median_uint64 ?ps = Inr v \<and> uint v = median_int (map uint ?ps)"
    by (rule u64.Median_correct)
  then have "if ?ps = [] then GetIndexPrice etmp m cutoff Median_uint64 = (0, 0)
     else uint (fst (GetIndexPrice etmp m cutoff Median_uint64)) = median_int (map uint ?ps) \<and>
       snd (GetIndexPrice etmp m cutoff Median_uint64) = length ?ps"
    by (auto simp: GetIndexPrice_def index_prices_loop_market_prices)
  then show ?thesis
    unfolding new(3) using run by (simp add: market_prices_cells [OF run(2)] Let_def)
qed

text \<open>The index price does not depend on the order in which the price updates of the encoders
  arrive, provided no exchange gives two prices of a market with the same time; and updating a
  price of an exchange the cache does not know panics.\<close>

theorem GetIndexPrice_order_irrelevant:
  assumes "NewExchangeToMarketPrices ids = Inr fresh"
  shows "(mset us = mset vs \<and> (\<forall>u \<in> set us. fst u \<in> set ids) \<and> consistent_times (client_keyed us) \<longrightarrow>
      (\<exists>a b. client_run us fresh = Inr a \<and> client_run vs fresh = Inr b \<and>
        (\<forall>m cutoff. GetIndexPrice a m cutoff Median_uint64 = GetIndexPrice b m cutoff Median_uint64))) \<and>
      (e \<notin> set ids \<longrightarrow> ExchangeToMarketPrices_UpdatePrice fresh e mpt = Inl NilDereference)"
    (is "?order \<and> ?unknown")
proof
  note new = NewExchangeToMarketPrices_InrD [OF assms(1)]
  show ?order
  proof (intro impI; elim conjE)
    assume us: "mset us = mset vs" "\<forall>u \<in> set us. fst u \<in> set ids" "consistent_times (client_keyed us)"
    have same: "set us = set vs" using us(1) by (metis set_mset_mset)
    with us(2) have vs: "\<forall>u \<in> set vs. fst u \<in> set ids" by simp
    from client_run_fresh [OF new(2) us(2)] obtain a where
      a: "client_run us fresh = Inr a" "etmp_ok a" "map fst (etmp_ExchangeMarketPrices a) = ids"
        "\<forall>k. client_cell a k = cell_after None (updates_of k (client_keyed us))" using new(3) by blast
    from client_run_fresh [OF new(2) vs] obtain b where
      b: "client_run vs fresh = Inr b" "etmp_ok b" "map fst (etmp_ExchangeMarketPrices b) = ids"
        "\<forall>k. client_cell b k = cell_after None (updates_of k (client_keyed vs))" using new(3) by blast
    have "set (client_keyed us) = set (client_keyed vs)" using same by (simp add: client_keyed_def)
    then have "client_cell a k = client_cell b k" for k
      using a(4) b(4) us(3) cell_after_converges by metis
    then have "market_prices a m cutoff = market_prices b m cutoff" for m cutoff
      using a(2,3) b(2,3) by (simp add: market_prices_cells)
    then show "\<exists>a b. client_run us fresh = Inr a \<and> client_run vs fresh = Inr b \<and>
        (\<forall>m cutoff. GetIndexPrice a m cutoff Median_uint64 = GetIndexPrice b m cutoff Median_uint64)"
      using a(1) b(1) by (auto simp: GetIndexPrice_def index_prices_loop_market_prices)
  qed
  show ?unknown
    using new(3) by (auto simp: ExchangeToMarketPrices_UpdatePrice_def fresh_prices_def
        split: option.splits dest!: map_of_SomeD)
qed

section \<open>Witnesses\<close>

definition demo_exchanges :: "ExchangeId list" where
  "demo_exchanges = [''Binance'', ''Okx'', ''Kraken'']"

definition demo_updates :: "(ExchangeId \<times> MarketPriceTimestamp) list" where
  "demo_updates =
    [(''Binance'', \<lparr>mpt_MarketId = 1, mpt_Price = 100, mpt_LastUpdatedAt = 50\<rparr>),
     (''Okx'', \<lparr>mpt_MarketId = 1, mpt_Price = 106, mpt_LastUpdatedAt = 52\<rparr>),
     (''Okx'', \<lparr>mpt_MarketId = 1, mpt_Price = 103, mpt_LastUpdatedAt = 51\<rparr>),
     (''Kraken'', \<lparr>mpt_MarketId = 1, mpt_Price = 101, mpt_LastUpdatedAt = 20\<rparr>)]"

theorem GetIndexPrice_history_witness:
  "\<exists>etmp. client_run demo_updates (fresh_prices demo_exchanges) = Inr etmp \<and>
    uint (fst (GetIndexPrice etmp 1 50 Median_uint64)) = 103 \<and>
    snd (GetIndexPrice etmp 1 50 Median_uint64) = 2"
proof -
  have new: "NewExchangeToMarketPrices demo_exchanges = Inr (fresh_prices demo_exchanges)" by code_simp
  have known: "\<forall>u \<in> set demo_updates. fst u \<in> set demo_exchanges" by code_simp
  have prices: "concat (map (\<lambda>e. case cell_after None (updates_of (e, 1) (client_keyed demo_updates)) of
      None \<Rightarrow> [] | Some pt \<Rightarrow> if 50 \<le> pt_LastUpdateTime pt then [pt_Price pt] else []) demo_exchanges)
    = [100, 106]" by code_simp
  have "median_int (map uint [100 :: uint64, 106]) = 103" by code_simp
  with GetIndexPrice_history [OF new known, where m = 1 and cutoff = 50] show ?thesis
    unfolding prices Let_def by (simp add: numeral_2_eq_2)
qed

theorem GetIndexPrice_order_irrelevant_witness:
  "(\<exists>a b. client_run demo_updates (fresh_prices demo_exchanges) = Inr a \<and>
     client_run (rev demo_updates) (fresh_prices demo_exchanges) = Inr b \<and>
     GetIndexPrice a 1 50 Median_uint64 = GetIndexPrice b 1 50 Median_uint64) \<and>
   ExchangeToMarketPrices_UpdatePrice (fresh_prices demo_exchanges) ''Mexc'' (snd (hd demo_updates)) =
     Inl NilDereference"
proof -
  have new: "NewExchangeToMarketPrices demo_exchanges = Inr (fresh_prices demo_exchanges)" by code_simp
  have known: "\<forall>u \<in> set demo_updates. fst u \<in> set demo_exchanges" by code_simp
  have times: "consistent_times (client_keyed demo_updates)" by code_simp
  have mexc: "''Mexc'' \<notin> set demo_exchanges" by code_simp
  show ?thesis
    using GetIndexPrice_order_irrelevant [OF new, of demo_updates "rev demo_updates" "''Mexc''"
        "snd (hd demo_updates)"]
      known times mexc
    by auto
qed

end
