(* ===== verification/PriceFetcher.thy ===== *)
theory PriceFetcher
  imports ClientPrices MarketConfig
begin

text \<open>
  \<open>pricefeed/client/price_fetcher\<close>: the fetcher of one exchange. Its mutable state (the
  configuration of the exchange, the exponents, the ring of markets to query) is replaced when
  the configuration changes and advanced by every task loop; a task loop queries the exchange and
  sends every price or error to the encoder's channel.

  The ring is \<open>lists.Ring\<close> of \<open>gopkg.in/typ.v4\<close>, a third-party package: its operations are the
  argument \<open>R\<close>, and \<open>ring_laws\<close> states what the code relies on. The query handler is the
  argument \<open>query\<close>. A nil pointer is \<open>None\<close>, and using one gives \<open>NilDereference\<close>.
\<close>

section \<open>The ring of market ids\<close>

record 'r ring_ops =
  ring_New :: "nat \<Rightarrow> 'r option"
  ring_Value :: "'r \<Rightarrow> MarketId"
  ring_SetValue :: "'r \<Rightarrow> MarketId \<Rightarrow> 'r"
  ring_Next :: "'r \<Rightarrow> 'r"

text \<open>\<open>content r\<close> lists the values of the ring, from the element \<open>r\<close> points to.\<close>

definition ring_laws :: "('r, 'x) ring_ops_scheme \<Rightarrow> ('r \<Rightarrow> MarketId list) \<Rightarrow> bool" where
  "ring_laws R content \<longleftrightarrow>
     (\<forall>n. 0 < n \<longrightarrow> (\<exists>r. ring_New R n = Some r \<and> length (content r) = n)) \<and>
     (\<forall>r. content r \<noteq> [] \<longrightarrow>
        ring_Value R r = hd (content r) \<and>
        (\<forall>v. content (ring_SetValue R r v) = v # tl (content r)) \<and>
        content (ring_Next R r) = rotate1 (content r))"

section \<open>The mutable state\<close>

record 'r fetcher_mutableState =
  fms_mutableExchangeConfig :: "MutableExchangeMarketConfig option"
  fms_marketExponents :: "(MarketId, Exponent) gomap"
  fms_marketIdsRing :: "'r option"

record taskLoopDefinition =
  tld_mutableExchangeConfig :: MutableExchangeMarketConfig
  tld_marketExponents :: "(MarketId, Exponent) gomap"
  tld_marketIds :: "MarketId list"

definition fms_GetMarketIds :: "'r fetcher_mutableState \<Rightarrow> go_panic + MarketId list" where
  "fms_GetMarketIds ms =
     (case fms_mutableExchangeConfig ms of
        None \<Rightarrow> Inl NilDereference
      | Some config \<Rightarrow> Inr (memc_GetMarketIds config))"

fun take_ring ::
    "('r, 'x) ring_ops_scheme \<Rightarrow> nat \<Rightarrow> 'r option \<Rightarrow> MarketId list \<Rightarrow> go_panic + MarketId list \<times> 'r option" where
  "take_ring R 0 ring markets = Inr (markets, ring)"
| "take_ring R (Suc n) None markets = Inl NilDereference"
| "take_ring R (Suc n) (Some r) markets =
     take_ring R n (Some (ring_Next R r)) (markets @ [ring_Value R r])"

definition GetNextNMarkets ::
    "('r, 'x) ring_ops_scheme \<Rightarrow> 'r fetcher_mutableState \<Rightarrow> nat \<Rightarrow>
     go_panic + MarketId list \<times> 'r fetcher_mutableState" where
  "GetNextNMarkets R ms n =
     bindE (take_ring R n (fms_marketIdsRing ms) [])
       (\<lambda>(markets, ring). Inr (markets, ms\<lparr>fms_marketIdsRing := ring\<rparr>))"

definition fms_GetMarketExponents :: "'r fetcher_mutableState \<Rightarrow> (MarketId, Exponent) gomap" where
  "fms_GetMarketExponents ms = fms_marketExponents ms"

definition fms_GetMutableExchangeConfig ::
    "'r fetcher_mutableState \<Rightarrow> go_panic + MutableExchangeMarketConfig" where
  "fms_GetMutableExchangeConfig ms =
     (case fms_mutableExchangeConfig ms of
        None \<Rightarrow> Inl NilDereference
      | Some config \<Rightarrow> Inr (MutableExchangeMarketConfig_Copy config))"

definition fms_Update ::
    "'r fetcher_mutableState \<Rightarrow> MutableExchangeMarketConfig \<Rightarrow> (MarketId, Exponent) gomap \<Rightarrow>
     'r option \<Rightarrow> 'r fetcher_mutableState" where
  "fms_Update ms config marketExponents marketIdsRing =
     ms\<lparr>fms_mutableExchangeConfig := Some config, fms_marketExponents := marketExponents,
        fms_marketIdsRing := marketIdsRing\<rparr>"

definition fms_getTaskLoopDefinition ::
    "('r, 'x) ring_ops_scheme \<Rightarrow> 'r fetcher_mutableState \<Rightarrow> bool \<Rightarrow> nat \<Rightarrow>
     go_panic + taskLoopDefinition \<times> 'r fetcher_mutableState" where
  "fms_getTaskLoopDefinition R ms isMultiMarket maxQueries =
     bindE (if isMultiMarket then bindE (fms_GetMarketIds ms) (\<lambda>ids. Inr (ids, fms_marketIdsRing ms))
            else take_ring R maxQueries (fms_marketIdsRing ms) [])
       (\<lambda>(marketIds, ring).
          bindE (fms_GetMutableExchangeConfig ms)
            (\<lambda>config. Inr (\<lparr>tld_mutableExchangeConfig = config,
                             tld_marketExponents = fms_marketExponents ms,
                             tld_marketIds = marketIds\<rparr>,
                            ms\<lparr>fms_marketIdsRing := ring\<rparr>)))"

section \<open>The fetcher\<close>

record ExchangeQueryConfig =
  eqc_ExchangeId :: ExchangeId
  eqc_IntervalMs :: uint32
  eqc_TimeoutMs :: uint32
  eqc_MaxQueries :: uint32

record ExchangeQueryDetails =
  eqd_Exchange :: ExchangeId
  eqd_Url :: string
  eqd_IsMultiMarket :: bool

record 'r PriceFetcher =
  pf_exchangeQueryConfig :: ExchangeQueryConfig
  pf_exchangeDetails :: ExchangeQueryDetails
  pf_mutableState :: "'r fetcher_mutableState"

datatype updater_error = ErrExchangeIdMismatch | ErrInvalidExchangeConfig config_error

definition fetcher_GetExchangeId :: "'r PriceFetcher \<Rightarrow> ExchangeId" where
  "fetcher_GetExchangeId p = eqc_ExchangeId (pf_exchangeQueryConfig p)"

text \<open>The loop that fills the ring; a nil ring is only written to if there is a market.\<close>

fun fill_ring ::
    "('r, 'x) ring_ops_scheme \<Rightarrow> MarketId list \<Rightarrow> 'r option \<Rightarrow> go_panic + 'r option" where
  "fill_ring R [] ring = Inr ring"
| "fill_ring R (marketId # rest) None = Inl NilDereference"
| "fill_ring R (marketId # rest) (Some r) = fill_ring R rest (Some (ring_Next R (ring_SetValue R r marketId)))"

text \<open>The outer sum is a panic, the inner one the error that is returned.\<close>

definition fetcher_UpdateMutableExchangeConfig ::
    "('r, 'x) ring_ops_scheme \<Rightarrow> 'r PriceFetcher \<Rightarrow> MutableExchangeMarketConfig \<Rightarrow> MutableMarketConfig list \<Rightarrow>
     go_panic + updater_error + 'r PriceFetcher" where
  "fetcher_UpdateMutableExchangeConfig R p newConfig newMarketConfigs =
     (if memc_Id newConfig \<noteq> eqc_ExchangeId (pf_exchangeQueryConfig p) then Inr (Inl ErrExchangeIdMismatch)
      else case MutableExchangeMarketConfig_Validate newConfig newMarketConfigs of
        Some err \<Rightarrow> Inr (Inl (ErrInvalidExchangeConfig err))
      | None \<Rightarrow>
          let marketExponents = build_map mmc_Id mmc_Exponent newMarketConfigs in
          bindE (fill_ring R (memc_GetMarketIds newConfig)
                   (ring_New R (length (memc_GetMarketIds newConfig))))
            (\<lambda>ring. Inr (Inr (p\<lparr>pf_mutableState :=
                fms_Update (pf_mutableState p) newConfig marketExponents ring\<rparr>))))"

definition NewPriceFetcher ::
    "('r, 'x) ring_ops_scheme \<Rightarrow> ExchangeQueryConfig \<Rightarrow> ExchangeQueryDetails \<Rightarrow>
     MutableExchangeMarketConfig \<Rightarrow> MutableMarketConfig list \<Rightarrow> go_panic + updater_error + 'r PriceFetcher" where
  "NewPriceFetcher R exchangeQueryConfig exchangeDetails mutableExchangeConfig mutableMarketConfigs =
     (let pf = \<lparr>pf_exchangeQueryConfig = exchangeQueryConfig, pf_exchangeDetails = exchangeDetails,
                pf_mutableState = \<lparr>fms_mutableExchangeConfig = None, fms_marketExponents = [],
                                   fms_marketIdsRing = None\<rparr>\<rparr>
      in fetcher_UpdateMutableExchangeConfig R pf mutableExchangeConfig mutableMarketConfigs)"

definition isMultiMarketAndHasMarkets :: "'r PriceFetcher \<Rightarrow> go_panic + bool" where
  "isMultiMarketAndHasMarkets pf =
     (if eqd_IsMultiMarket (pf_exchangeDetails pf)
      then bindE (fms_GetMarketIds (pf_mutableState pf)) (\<lambda>ids. Inr (length ids > 0))
      else Inr False)"

definition getNumQueriesPerTaskLoop :: "'r PriceFetcher \<Rightarrow> go_panic + nat" where
  "getNumQueriesPerTaskLoop p =
     (if eqd_IsMultiMarket (pf_exchangeDetails p) then Inr 1
      else bindE (fms_GetMarketIds (pf_mutableState p))
             (\<lambda>ids. Inr (Min_go (unat (eqc_MaxQueries (pf_exchangeQueryConfig p))) (length ids))))"

text \<open>
  The task loop definition. The two reads of the state, \<open>getNumQueriesPerTaskLoop\<close> and the
  snapshot, are two critical sections: \<open>between\<close> is what another goroutine does to the fetcher in
  between (\<open>\<lambda>p. p\<close> if nothing).
\<close>

definition fetcher_getTaskLoopDefinition ::
    "('r, 'x) ring_ops_scheme \<Rightarrow> ('r PriceFetcher \<Rightarrow> 'r PriceFetcher) \<Rightarrow> 'r PriceFetcher \<Rightarrow>
     go_panic + taskLoopDefinition \<times> 'r PriceFetcher" where
  "fetcher_getTaskLoopDefinition R between p =
     bindE (getNumQueriesPerTaskLoop p)
       (\<lambda>n. let p' = between p in
          bindE (fms_getTaskLoopDefinition R (pf_mutableState p') (eqd_IsMultiMarket (pf_exchangeDetails p)) n)
            (\<lambda>(tld, ms). Inr (tld, p'\<lparr>pf_mutableState := ms\<rparr>)))"

section \<open>Queries\<close>

datatype 'e fetch_error = ErrQuery 'e | ErrZeroPrice ExchangeId MarketId

text \<open>A response holds an error or a price.\<close>

record 'e PriceFetcherSubtaskResponse =
  psr_Price :: "MarketPriceTimestamp option"
  psr_Err :: "'e fetch_error option"

fun subtask_prices_loop ::
    "ExchangeId \<Rightarrow> MarketPriceTimestamp list \<Rightarrow> 'e PriceFetcherSubtaskResponse list \<Rightarrow>
     'e PriceFetcherSubtaskResponse list" where
  "subtask_prices_loop exchangeId [] bCh = bCh"
| "subtask_prices_loop exchangeId (price # rest) bCh =
     (if mpt_Price price = 0
      then subtask_prices_loop exchangeId rest
             (bCh @ [\<lparr>psr_Price = None, psr_Err = Some (ErrZeroPrice exchangeId (mpt_MarketId price))\<rparr>])
      else subtask_prices_loop exchangeId rest (bCh @ [\<lparr>psr_Price = Some price, psr_Err = None\<rparr>]))"

text \<open>What a subtask writes to the channel.\<close>

definition runSubTask ::
    "(MarketId list \<Rightarrow> taskLoopDefinition \<Rightarrow> 'e + MarketPriceTimestamp list) \<Rightarrow> 'r PriceFetcher \<Rightarrow>
     MarketId list \<Rightarrow> taskLoopDefinition \<Rightarrow> 'e PriceFetcherSubtaskResponse list" where
  "runSubTask query pf marketIds tld =
     (case query marketIds tld of
        Inl err \<Rightarrow> [\<lparr>psr_Price = None, psr_Err = Some (ErrQuery err)\<rparr>]
      | Inr prices \<Rightarrow> subtask_prices_loop (eqc_ExchangeId (pf_exchangeQueryConfig pf)) prices [])"

text \<open>
  A task loop: the writes of every subtask it starts, in the order of the subtasks. The subtasks
  of a single-market exchange run in parallel, so the channel receives some interleaving of them.
\<close>

definition RunTaskLoop ::
    "('r, 'x) ring_ops_scheme \<Rightarrow> ('r PriceFetcher \<Rightarrow> 'r PriceFetcher) \<Rightarrow>
     (MarketId list \<Rightarrow> taskLoopDefinition \<Rightarrow> 'e + MarketPriceTimestamp list) \<Rightarrow> 'r PriceFetcher \<Rightarrow>
     go_panic + 'e PriceFetcherSubtaskResponse list list \<times> 'r PriceFetcher" where
  "RunTaskLoop R between query pf =
     bindE (fetcher_getTaskLoopDefinition R between pf)
       (\<lambda>(tld, pf').
          bindE (isMultiMarketAndHasMarkets pf')
            (\<lambda>multi. Inr (if multi then [runSubTask query pf' (tld_marketIds tld) tld]
                          else map (\<lambda>market. runSubTask query pf' [market] tld) (tld_marketIds tld), pf')))"

fun interleavings :: "'a list list \<Rightarrow> 'a list set" where
  "interleavings [] = {[]}"
| "interleavings (xs # xss) = (\<Union>ys \<in> interleavings xss. shuffles xs ys)"

section \<open>The ring of the fetcher\<close>

lemma ring_lawsD:
  assumes "ring_laws R content" and "content r \<noteq> []"
  shows "ring_Value R r = hd (content r)" "content (ring_SetValue R r v) = v # tl (content r)"
    "content (ring_Next R r) = rotate1 (content r)"
  using assms by (simp_all add: ring_laws_def)

lemma take_ring_spec:
  assumes "ring_laws R content" and "content r \<noteq> []"
  shows "\<exists>r'. take_ring R n (Some r) ms =
      Inr (ms @ map (\<lambda>i. content r ! (i mod length (content r))) [0..<n], Some r') \<and>
    content r' = rotate n (content r)"
  using assms
proof (induction n arbitrary: r ms)
  case (Suc n)
  note next_r = ring_lawsD [OF Suc.prems]
  have ne: "content (ring_Next R r) \<noteq> []" using next_r(3) Suc.prems(2) by simp
  have "rotate1 (content r) ! (i mod length (content r)) = content r ! (Suc i mod length (content r))" for i
    using nth_rotate1 [of "i mod length (content r)" "content r"] Suc.prems(2) by (simp add: mod_Suc_eq)
  moreover have "[0..<Suc n] = 0 # map Suc [0..<n]" by (simp add: map_Suc_upt upt_conv_Cons del: upt_Suc)
  ultimately show ?case
    using Suc.IH [OF Suc.prems(1) ne, of "ms @ [ring_Value R r]"] next_r Suc.prems(2)
    by (auto simp: comp_def hd_conv_nth rotate1_rotate_swap simp del: upt_Suc)
qed simp

lemma fill_ring_spec:
  assumes "ring_laws R content" and "length ids \<le> length (content r)"
  shows "\<exists>r'. fill_ring R ids (Some r) = Inr (Some r') \<and> content r' = drop (length ids) (content r) @ ids"
  using assms
proof (induction ids arbitrary: r)
  case (Cons m ids)
  then obtain a c where c: "content r = a # c" by (cases "content r") auto
  let ?s = "ring_SetValue R r m"
  have s: "content ?s = m # c" using ring_lawsD(2) [OF Cons.prems(1), of r] c by simp
  then have "content (ring_Next R ?s) = c @ [m]" using ring_lawsD(3) [OF Cons.prems(1), of ?s] by simp
  then show ?case using Cons.IH [OF Cons.prems(1), of "ring_Next R ?s"] Cons.prems(2) c by simp
qed simp

text \<open>
  The state of a fetcher that was created and updated: it has a configuration of its own exchange,
  and its ring goes round the markets of this configuration.
\<close>

definition fetcher_ok :: "('r \<Rightarrow> MarketId list) \<Rightarrow> 'r PriceFetcher \<Rightarrow> bool" where
  "fetcher_ok content p \<longleftrightarrow> (\<exists>c. fms_mutableExchangeConfig (pf_mutableState p) = Some c \<and>
     memc_ok c \<and> memc_Id c = fetcher_GetExchangeId p \<and>
     (memc_MarketToMarketConfig c \<noteq> [] \<longrightarrow> (\<exists>r k. fms_marketIdsRing (pf_mutableState p) = Some r \<and>
        content r = rotate k (memc_GetMarketIds c))))"

definition fetcher_config :: "'r PriceFetcher \<Rightarrow> MutableExchangeMarketConfig option" where
  "fetcher_config p = fms_mutableExchangeConfig (pf_mutableState p)"

lemma build_ring:
  assumes "ring_laws R content"
  shows "\<exists>ring. fill_ring R ids (ring_New R (length ids)) = Inr ring \<and>
    (ids \<noteq> [] \<longrightarrow> (\<exists>r. ring = Some r \<and> content r = ids))"
proof (cases "ids = []")
  case False
  with assms obtain r where r: "ring_New R (length ids) = Some r" "length (content r) = length ids"
    by (auto simp: ring_laws_def)
  then show ?thesis using fill_ring_spec [OF assms, of ids r] by auto
qed simp

lemma memc_GetMarketIds_Nil [simp]:
  "memc_GetMarketIds c = [] \<longleftrightarrow> memc_MarketToMarketConfig c = []"
  by (metis length_0_conv memc_GetMarketIds_length)

lemma fetcher_update_spec:
  assumes "ring_laws R content"
  shows "(memc_Id c \<noteq> fetcher_GetExchangeId p \<longrightarrow>
      fetcher_UpdateMutableExchangeConfig R p c cfgs = Inr (Inl ErrExchangeIdMismatch)) \<and>
    (\<forall>e. memc_Id c = fetcher_GetExchangeId p \<and> MutableExchangeMarketConfig_Validate c cfgs = Some e \<longrightarrow>
      fetcher_UpdateMutableExchangeConfig R p c cfgs = Inr (Inl (ErrInvalidExchangeConfig e))) \<and>
    (memc_Id c = fetcher_GetExchangeId p \<and> MutableExchangeMarketConfig_Validate c cfgs = None \<longrightarrow>
      (\<exists>p'. fetcher_UpdateMutableExchangeConfig R p c cfgs = Inr (Inr p') \<and>
        fetcher_config p' = Some c \<and> fetcher_GetExchangeId p' = fetcher_GetExchangeId p \<and>
        pf_exchangeQueryConfig p' = pf_exchangeQueryConfig p \<and> pf_exchangeDetails p' = pf_exchangeDetails p \<and>
        fms_marketExponents (pf_mutableState p') = build_map mmc_Id mmc_Exponent cfgs \<and>
        (memc_ok c \<longrightarrow> fetcher_ok content p')))"
proof -
  obtain ring where "fill_ring R (memc_GetMarketIds c) (ring_New R (length (memc_GetMarketIds c))) = Inr ring"
    "memc_GetMarketIds c \<noteq> [] \<longrightarrow> (\<exists>r. ring = Some r \<and> content r = memc_GetMarketIds c)"
    using build_ring [OF assms, of "memc_GetMarketIds c"] by blast
  moreover have "\<exists>k. memc_GetMarketIds c = rotate k (memc_GetMarketIds c)"
    by (rule exI [of _ 0]) simp
  ultimately show ?thesis
    by (auto simp: fetcher_UpdateMutableExchangeConfig_def fetcher_GetExchangeId_def fetcher_config_def
        fms_Update_def fetcher_ok_def simp del: memc_GetMarketIds_length)
qed

section \<open>Task loops\<close>

text \<open>The number of queries of a task loop of a single-market exchange.\<close>

definition queries_per_loop :: "'r PriceFetcher \<Rightarrow> nat" where
  "queries_per_loop p = (case fetcher_config p of None \<Rightarrow> 0
     | Some c \<Rightarrow> min (unat (eqc_MaxQueries (pf_exchangeQueryConfig p))) (length (memc_MarketToMarketConfig c)))"

lemma fetcher_okE:
  assumes "fetcher_ok content p"
  obtains c where "fms_mutableExchangeConfig (pf_mutableState p) = Some c" "fetcher_config p = Some c"
    "memc_ok c" "memc_Id c = fetcher_GetExchangeId p"
    "memc_MarketToMarketConfig c \<noteq> [] \<Longrightarrow> \<exists>r k. fms_marketIdsRing (pf_mutableState p) = Some r \<and>
       content r = rotate k (memc_GetMarketIds c)"
  using assms by (auto simp: fetcher_ok_def fetcher_config_def)

text \<open>
  One snapshot of a single-market fetcher: it takes the next markets of the ring and leaves the
  ring behind them; \<open>pos\<close> is the position of the ring in the sorted list of markets.
\<close>

definition ring_at :: "('r \<Rightarrow> MarketId list) \<Rightarrow> nat \<Rightarrow> 'r PriceFetcher \<Rightarrow> bool" where
  "ring_at content pos p \<longleftrightarrow> (\<exists>c r. fetcher_config p = Some c \<and> fms_marketIdsRing (pf_mutableState p) = Some r \<and>
     content r = rotate pos (memc_GetMarketIds c))"

lemma nth_rotate_mod:
  assumes "xs \<noteq> []"
  shows "rotate pos xs ! (i mod length xs) = xs ! ((pos + i) mod length xs)"
  using assms nth_rotate [of "i mod length xs" xs pos] by (simp add: mod_add_right_eq)

lemma cyclic_distinct:
  assumes "distinct xs" and "n \<le> length xs"
  shows "distinct (map (\<lambda>i. xs ! ((pos + i) mod length xs)) [0..<n])"
proof -
  have "map (\<lambda>i. xs ! ((pos + i) mod length xs)) [0..<n] = take n (rotate pos xs)"
    using assms(2) by (intro nth_equalityI) (simp_all add: nth_rotate)
  then show ?thesis using assms(1) by simp
qed

lemma task_loop_single:
  assumes laws: "ring_laws R content" and ok: "fetcher_ok content p" and c: "fetcher_config p = Some c"
    and single: "\<not> eqd_IsMultiMarket (pf_exchangeDetails p)" and at: "ring_at content pos p"
    and ne: "memc_MarketToMarketConfig c \<noteq> []"
  shows "\<exists>p'. fetcher_getTaskLoopDefinition R (\<lambda>p. p) p =
      Inr (\<lparr>tld_mutableExchangeConfig = c, tld_marketExponents = fms_marketExponents (pf_mutableState p),
            tld_marketIds = map (\<lambda>i. memc_GetMarketIds c ! ((pos + i) mod length (memc_GetMarketIds c)))
              [0..<queries_per_loop p]\<rparr>, p') \<and>
    fetcher_ok content p' \<and> ring_at content (pos + queries_per_loop p) p' \<and> fetcher_config p' = Some c \<and>
    pf_exchangeQueryConfig p' = pf_exchangeQueryConfig p \<and> pf_exchangeDetails p' = pf_exchangeDetails p"
proof -
  let ?ids = "memc_GetMarketIds c" and ?n = "queries_per_loop p"
  from at c obtain r where r: "fms_marketIdsRing (pf_mutableState p) = Some r" "content r = rotate pos ?ids"
    by (auto simp: ring_at_def)
  have cne: "content r \<noteq> []" "?ids \<noteq> []" using r(2) ne by auto
  from take_ring_spec [OF laws cne(1), of ?n "[]"] obtain r' where
    r': "take_ring R ?n (Some r) [] = Inr (map (\<lambda>i. content r ! (i mod length (content r))) [0..<?n], Some r')"
      "content r' = rotate ?n (content r)" by auto
  have ms: "map (\<lambda>i. content r ! (i mod length (content r))) [0..<?n] =
      map (\<lambda>i. ?ids ! ((pos + i) mod length ?ids)) [0..<?n]"
    using nth_rotate_mod [OF cne(2)] by (simp add: r(2))
  have c': "fms_mutableExchangeConfig (pf_mutableState p) = Some c" using c by (simp add: fetcher_config_def)
  have "memc_ok c" using ok c by (auto simp: fetcher_ok_def fetcher_config_def)
  moreover have "getNumQueriesPerTaskLoop p = Inr ?n"
    using single c c' by (simp add: getNumQueriesPerTaskLoop_def fms_GetMarketIds_def queries_per_loop_def
        Min_go_def min_def)
  moreover have "content r' = rotate (pos + ?n) ?ids" using r'(2) r(2) by (simp add: rotate_rotate add.commute)
  ultimately show ?thesis
    using single c c' r(1) r'(1) ok
    by (auto simp: fetcher_getTaskLoopDefinition_def fms_getTaskLoopDefinition_def ms
        fms_GetMutableExchangeConfig_def fetcher_ok_def ring_at_def fetcher_config_def fetcher_GetExchangeId_def)
qed

text \<open>The markets that consecutive task loops ask for.\<close>

fun task_loops ::
    "('r, 'x) ring_ops_scheme \<Rightarrow> nat \<Rightarrow> 'r PriceFetcher \<Rightarrow> go_panic + MarketId list list \<times> 'r PriceFetcher" where
  "task_loops R 0 p = Inr ([], p)"
| "task_loops R (Suc n) p =
     bindE (fetcher_getTaskLoopDefinition R (\<lambda>p. p) p)
       (\<lambda>(tld, p'). bindE (task_loops R n p')
          (\<lambda>(mss, p''). Inr (tld_marketIds tld # mss, p'')))"

lemma task_loops_single:
  assumes "ring_laws R content" and "fetcher_ok content p" and "fetcher_config p = Some c"
    and "\<not> eqd_IsMultiMarket (pf_exchangeDetails p)" and "ring_at content pos p"
    and "memc_MarketToMarketConfig c \<noteq> []"
  shows "\<exists>mss p'. task_loops R k p = Inr (mss, p') \<and> length mss = k \<and>
    concat mss = map (\<lambda>i. memc_GetMarketIds c ! ((pos + i) mod length (memc_GetMarketIds c)))
      [0..<k * queries_per_loop p] \<and>
    (\<forall>ms \<in> set mss. length ms = queries_per_loop p \<and> distinct ms)"
  using assms(2-5)
proof (induction k arbitrary: p pos)
  case (Suc k)
  let ?n = "queries_per_loop p" and ?at = "\<lambda>i. memc_GetMarketIds c ! (i mod length (memc_GetMarketIds c))"
  from task_loop_single [OF assms(1) Suc.prems(1,2,3,4) assms(6)] obtain p' where
    p': "fetcher_getTaskLoopDefinition R (\<lambda>p. p) p =
      Inr (\<lparr>tld_mutableExchangeConfig = c, tld_marketExponents = fms_marketExponents (pf_mutableState p),
            tld_marketIds = map (\<lambda>i. ?at (pos + i)) [0..<?n]\<rparr>, p')"
      "fetcher_ok content p'" "fetcher_config p' = Some c" "ring_at content (pos + ?n) p'"
      "pf_exchangeQueryConfig p' = pf_exchangeQueryConfig p" "pf_exchangeDetails p' = pf_exchangeDetails p"
    by blast
  have n: "queries_per_loop p' = ?n" using p' Suc.prems(2) by (simp add: queries_per_loop_def)
  from Suc.IH [OF p'(2,3) _ p'(4)] Suc.prems(3) p'(6) obtain mss p'' where
    tl: "task_loops R k p' = Inr (mss, p'')" "length mss = k"
      "concat mss = map (\<lambda>i. ?at (pos + ?n + i)) [0..<k * ?n]"
      "\<forall>ms \<in> set mss. length ms = ?n \<and> distinct ms" by (auto simp: n)
  have "[0..<Suc k * ?n] = [0..<?n] @ map (\<lambda>i. ?n + i) [0..<k * ?n]"
    using upt_add_eq_append [of 0 ?n "k * ?n"] map_add_upt [of ?n "k * ?n"] by (simp add: add.commute)
  moreover have "distinct (map (\<lambda>i. ?at (pos + i)) [0..<?n])"
  proof (rule cyclic_distinct)
    show "distinct (memc_GetMarketIds c)"
      using Suc.prems(1,2) by (auto simp: fetcher_ok_def fetcher_config_def memc_GetMarketIds_distinct)
    show "?n \<le> length (memc_GetMarketIds c)" using Suc.prems(2) by (simp add: queries_per_loop_def)
  qed
  ultimately show ?case using p'(1) tl by (simp add: comp_def add.assoc del: upt_Suc)
qed simp

lemma new_fetcher_spec:
  assumes "ring_laws R content" and "NewPriceFetcher R eqc eqd c cfgs = Inr (Inr p)" and "memc_ok c"
  shows "fetcher_ok content p" "fetcher_config p = Some c" "pf_exchangeQueryConfig p = eqc"
    "pf_exchangeDetails p = eqd"
proof -
  let ?p = "\<lparr>pf_exchangeQueryConfig = eqc, pf_exchangeDetails = eqd,
     pf_mutableState = \<lparr>fms_mutableExchangeConfig = None, fms_marketExponents = [], fms_marketIdsRing = None\<rparr>\<rparr>"
  have up: "fetcher_UpdateMutableExchangeConfig R ?p c cfgs = Inr (Inr p)"
    using assms(2) by (simp add: NewPriceFetcher_def)
  then have "memc_Id c = fetcher_GetExchangeId ?p \<and> MutableExchangeMarketConfig_Validate c cfgs = None"
    by (auto simp: fetcher_UpdateMutableExchangeConfig_def fetcher_GetExchangeId_def
        split: if_splits option.splits)
  then show "fetcher_ok content p" "fetcher_config p = Some c" "pf_exchangeQueryConfig p = eqc"
    "pf_exchangeDetails p = eqd"
    using fetcher_update_spec [OF assms(1), of c ?p cfgs] up assms(3) by auto
qed

lemma fetcher_ring_at:
  assumes "fetcher_ok content p" and "fetcher_config p = Some c" and "memc_MarketToMarketConfig c \<noteq> []"
  shows "\<exists>pos. ring_at content pos p"
  using assms by (auto simp: fetcher_ok_def ring_at_def fetcher_config_def)

lemma cyclic_covers:
  assumes "xs \<noteq> []" and "length xs \<le> m"
  shows "(\<lambda>i. xs ! ((pos + i) mod length xs)) ` {0..<m} = set xs"
proof -
  have "x \<in> (\<lambda>i. xs ! ((pos + i) mod length xs)) ` {0..<m}" if "x \<in> set xs" for x
  proof -
    from that have "x \<in> set (rotate pos xs)" by simp
    then obtain i where i: "i < length xs" "x = rotate pos xs ! i"
      unfolding in_set_conv_nth by (metis length_rotate)
    then show ?thesis using assms(2) nth_rotate [of i xs pos] by auto
  qed
  moreover have "xs ! ((pos + i) mod length xs) \<in> set xs" for i using assms(1) by simp
  ultimately show ?thesis by blast
qed

lemma subtask_prices_loop_eq:
  "subtask_prices_loop e ps ch = ch @ map (\<lambda>q. if mpt_Price q = 0
      then \<lparr>psr_Price = None, psr_Err = Some (ErrZeroPrice e (mpt_MarketId q))\<rparr>
      else \<lparr>psr_Price = Some q, psr_Err = None\<rparr>) ps"
  by (induction e ps ch rule: subtask_prices_loop.induct) simp_all

lemma set_interleavings: "ch \<in> interleavings xss \<Longrightarrow> set ch = (\<Union>xs \<in> set xss. set xs)"
  by (induction xss arbitrary: ch) (auto simp: set_shuffles)

lemma runSubTask_sound:
  assumes "r \<in> set (runSubTask query pf ms tld)"
  shows "(psr_Err r = None \<longleftrightarrow> psr_Price r \<noteq> None) \<and>
    (\<forall>q. psr_Price r = Some q \<longrightarrow> mpt_Price q \<noteq> 0 \<and> (\<exists>ps. query ms tld = Inr ps \<and> q \<in> set ps))"
  using assms by (auto simp: runSubTask_def subtask_prices_loop_eq split: sum.splits if_splits)

lemma getTaskLoopDefinition_ok:
  assumes "ring_laws R content" and "fetcher_ok content p"
  shows "\<exists>tld p' c. fetcher_getTaskLoopDefinition R (\<lambda>p. p) p = Inr (tld, p') \<and> fetcher_config p = Some c \<and>
    fetcher_config p' = Some c \<and> tld_mutableExchangeConfig tld = c \<and>
    set (tld_marketIds tld) \<subseteq> fst ` set (memc_MarketToMarketConfig c) \<and> fetcher_ok content p'"
proof -
  from assms(2) obtain c where c: "fms_mutableExchangeConfig (pf_mutableState p) = Some c"
    "fetcher_config p = Some c" "memc_ok c" "memc_Id c = fetcher_GetExchangeId p" by (rule fetcher_okE)
  consider "eqd_IsMultiMarket (pf_exchangeDetails p)"
    | "\<not> eqd_IsMultiMarket (pf_exchangeDetails p)" "memc_MarketToMarketConfig c = []"
    | "\<not> eqd_IsMultiMarket (pf_exchangeDetails p)" "memc_MarketToMarketConfig c \<noteq> []" by blast
  then show ?thesis
  proof cases
    case 3
    then obtain pos where "ring_at content pos p" using fetcher_ring_at [OF assms(2) c(2)] by blast
    from task_loop_single [OF assms c(2) 3(1) this 3(2)] show ?thesis
      using c(2) 3(2) cyclic_covers [of "memc_GetMarketIds c" _ pos]
      by (fastforce simp flip: memc_GetMarketIds_set intro: nth_mem)
  qed (use c assms(2) in \<open>auto simp: fetcher_getTaskLoopDefinition_def fms_getTaskLoopDefinition_def
      getNumQueriesPerTaskLoop_def fms_GetMarketIds_def fms_GetMutableExchangeConfig_def fetcher_ok_def
      Min_go_def fetcher_config_def fetcher_GetExchangeId_def\<close>)
qed

text \<open>The responses of a task loop, for every interleaving of its subtasks.\<close>

lemma task_loop_responses:
  assumes "ring_laws R content" and "fetcher_ok content p"
  shows "\<exists>outs p' tld. RunTaskLoop R (\<lambda>p. p) query p = Inr (outs, p') \<and> fetcher_ok content p' \<and>
    fetcher_config p' = fetcher_config p \<and>
    (\<forall>ch \<in> interleavings outs. \<forall>r \<in> set ch. (psr_Err r = None \<longleftrightarrow> psr_Price r \<noteq> None) \<and>
      (\<forall>q. psr_Price r = Some q \<longrightarrow> mpt_Price q \<noteq> 0 \<and> (\<exists>ms ps. set ms \<subseteq> set (tld_marketIds tld) \<and>
        query ms tld = Inr ps \<and> q \<in> set ps)))"
proof -
  from getTaskLoopDefinition_ok [OF assms] obtain tld p' c where
    t: "fetcher_getTaskLoopDefinition R (\<lambda>p. p) p = Inr (tld, p')" "fetcher_config p = Some c"
      "fetcher_config p' = Some c" "fetcher_ok content p'" by blast
  obtain multi where multi: "isMultiMarketAndHasMarkets p' = Inr multi"
    using t(3) by (cases "eqd_IsMultiMarket (pf_exchangeDetails p')")
      (simp_all add: isMultiMarketAndHasMarkets_def fms_GetMarketIds_def fetcher_config_def)
  let ?outs = "if multi then [runSubTask query p' (tld_marketIds tld) tld]
      else map (\<lambda>market. runSubTask query p' [market] tld) (tld_marketIds tld)"
  have "RunTaskLoop R (\<lambda>p. p) query p = Inr (?outs, p')" by (simp add: RunTaskLoop_def t(1) multi)
  moreover have "(psr_Err r = None \<longleftrightarrow> psr_Price r \<noteq> None) \<and>
      (\<forall>q. psr_Price r = Some q \<longrightarrow> mpt_Price q \<noteq> 0 \<and> (\<exists>ms ps. set ms \<subseteq> set (tld_marketIds tld) \<and>
        query ms tld = Inr ps \<and> q \<in> set ps))" if "ch \<in> interleavings ?outs" "r \<in> set ch" for ch r
  proof -
    have "r \<in> (\<Union>xs \<in> set ?outs. set xs)" using set_interleavings [OF that(1)] that(2) by simp
    then have "\<exists>ms. set ms \<subseteq> set (tld_marketIds tld) \<and> r \<in> set (runSubTask query p' ms tld)"
      by (cases multi) (auto intro: exI [of _ "[m]" for m])
    with runSubTask_sound show ?thesis by blast
  qed
  ultimately show ?thesis
    using t(2-4) by (intro exI [of _ ?outs] exI [of _ p'] exI [of _ tld]) auto
qed

section \<open>Properties\<close>

text \<open>C32: A fetcher of a single-market exchange asks for its markets in turn: it never exceeds the
  query limit, never asks for a market twice in a task loop, asks only for configured markets, and
  any number of task loops whose queries add up to the number of markets asks for all of them.\<close>

theorem fetcher_round_robin:
  assumes "ring_laws R content" and "NewPriceFetcher R eqc eqd c cfgs = Inr (Inr p)" and "memc_ok c"
    and "\<not> eqd_IsMultiMarket eqd" and "memc_MarketToMarketConfig c \<noteq> []"
    and "length (memc_GetMarketIds c) \<le> k * min (unat (eqc_MaxQueries eqc)) (length (memc_GetMarketIds c))"
  shows "\<exists>mss p'. task_loops R k p = Inr (mss, p') \<and> length mss = k \<and>
    set (concat mss) = set (memc_GetMarketIds c) \<and>
    (\<forall>ms \<in> set mss. length ms = min (unat (eqc_MaxQueries eqc)) (length (memc_GetMarketIds c)) \<and> distinct ms)"
proof -
  let ?ids = "memc_GetMarketIds c"
  note new = new_fetcher_spec [OF assms(1-3)]
  have ids: "?ids \<noteq> []" "distinct ?ids" using assms(3,5) by (simp_all add: memc_GetMarketIds_distinct)
  have n: "queries_per_loop p = min (unat (eqc_MaxQueries eqc)) (length ?ids)"
    using new by (simp add: queries_per_loop_def)
  obtain pos where at: "ring_at content pos p" using fetcher_ring_at [OF new(1,2) assms(5)] by blast
  have single: "\<not> eqd_IsMultiMarket (pf_exchangeDetails p)" using new(4) assms(4) by simp
  from task_loops_single [OF assms(1) new(1,2) single at assms(5), of k] obtain mss p' where
    tl: "task_loops R k p = Inr (mss, p')" "length mss = k"
      "concat mss = map (\<lambda>i. ?ids ! ((pos + i) mod length ?ids)) [0..<k * queries_per_loop p]"
      "\<forall>ms \<in> set mss. length ms = queries_per_loop p \<and> distinct ms" by blast
  have "set (concat mss) = set ?ids"
    unfolding tl(3) set_map set_upt using ids(1) assms(6) by (intro cyclic_covers) (simp_all add: n)
  then show ?thesis using tl(1,2,4) n by auto
qed

text \<open>A task loop of a fetcher never panics when nothing changes its configuration meanwhile, and in
  every interleaving of its subtasks each response on the channel holds either an error or a
  price, and a price is one that the query returned and is not zero.\<close>

theorem RunTaskLoop_responses:
  assumes "ring_laws R content" and "fetcher_ok content p"
  shows "\<exists>outs p' tld. RunTaskLoop R (\<lambda>p. p) query p = Inr (outs, p') \<and> fetcher_ok content p' \<and>
    fetcher_config p' = fetcher_config p \<and>
    (\<forall>ch \<in> interleavings outs. \<forall>r \<in> set ch. (psr_Err r = None \<longleftrightarrow> psr_Price r \<noteq> None) \<and>
      (\<forall>q. psr_Price r = Some q \<longrightarrow> mpt_Price q \<noteq> 0 \<and> (\<exists>ms ps. set ms \<subseteq> set (tld_marketIds tld) \<and>
        query ms tld = Inr ps \<and> q \<in> set ps)))"
  using assms by (rule task_loop_responses)

text \<open>The number of queries and the snapshot of the markets are read in two critical sections: if
  the exchange loses its last market between them, the task loop uses the nil ring of the new
  configuration and panics.\<close>

theorem RunTaskLoop_race:
  assumes "ring_laws R content" and "ring_New R 0 = None" and "fetcher_ok content p"
    and "fetcher_config p = Some c" and "memc_MarketToMarketConfig c \<noteq> []"
    and "\<not> eqd_IsMultiMarket (pf_exchangeDetails p)" and "eqc_MaxQueries (pf_exchangeQueryConfig p) \<noteq> 0"
  shows "let empty = \<lparr>memc_Id = fetcher_GetExchangeId p, memc_MarketToMarketConfig = []\<rparr> in
    \<exists>p'. fetcher_UpdateMutableExchangeConfig R p empty [] = Inr (Inr p') \<and>
      RunTaskLoop R (\<lambda>_. p') query p = Inl NilDereference"
proof -
  let ?empty = "\<lparr>memc_Id = fetcher_GetExchangeId p, memc_MarketToMarketConfig = []\<rparr>"
  have "MutableExchangeMarketConfig_Validate ?empty [] = None"
    by (simp add: MutableExchangeMarketConfig_Validate_def)
  moreover have "memc_GetMarketIds ?empty = []" by (simp add: memc_GetMarketIds_def GetSortedKeys_def)
  ultimately have up: "fetcher_UpdateMutableExchangeConfig R p ?empty [] = Inr (Inr
      (p\<lparr>pf_mutableState := fms_Update (pf_mutableState p) ?empty [] None\<rparr>))"
    using assms(2) by (simp add: fetcher_UpdateMutableExchangeConfig_def fetcher_GetExchangeId_def build_map_def
        del: memc_GetMarketIds_Nil memc_GetMarketIds_length)
  have "0 < unat (eqc_MaxQueries (pf_exchangeQueryConfig p))"
    using assms(7) by (simp add: unat_gt_0)
  then obtain n where "getNumQueriesPerTaskLoop p = Inr (Suc n)"
    using assms(4-6) by (cases "min (unat (eqc_MaxQueries (pf_exchangeQueryConfig p)))
        (length (memc_MarketToMarketConfig c))")
      (auto simp: getNumQueriesPerTaskLoop_def fms_GetMarketIds_def fetcher_config_def Min_go_def min_def
        split: if_splits)
  then show ?thesis
    using up assms(6) by (auto simp: RunTaskLoop_def fetcher_getTaskLoopDefinition_def
        fms_getTaskLoopDefinition_def fms_Update_def Let_def)
qed

section \<open>Witnesses\<close>

text \<open>A ring as the list of its values.\<close>

definition list_ring :: "MarketId list ring_ops" where
  "list_ring = \<lparr>ring_New = (\<lambda>n. if n = 0 then None else Some (replicate n 0)), ring_Value = hd,
     ring_SetValue = (\<lambda>r v. v # tl r), ring_Next = rotate1\<rparr>"

lemma list_ring_laws: "ring_laws list_ring (\<lambda>r. r)"
  by (simp add: ring_laws_def list_ring_def)

definition demo_memc :: MutableExchangeMarketConfig where
  "demo_memc = \<lparr>memc_Id = ''Okx'', memc_MarketToMarketConfig =
     [(7, \<lparr>mc_Ticker = ''BTC-USD'', mc_AdjustByMarket = None, mc_Invert = False\<rparr>),
      (3, \<lparr>mc_Ticker = ''ETH-USDT'', mc_AdjustByMarket = Some 9, mc_Invert = False\<rparr>),
      (9, \<lparr>mc_Ticker = ''USDT-USD'', mc_AdjustByMarket = None, mc_Invert = False\<rparr>)]\<rparr>"

definition demo_mmcs :: "MutableMarketConfig list" where
  "demo_mmcs = map (\<lambda>(m, name, e). \<lparr>mmc_Id = m, mmc_Pair = name, mmc_Exponent = e, mmc_MinExchanges = 1\<rparr>)
     [(3, ''ETH-USD'', -6), (7, ''BTC-USD'', -5), (9, ''USDT-USD'', -6)]"

definition demo_eqc :: ExchangeQueryConfig where
  "demo_eqc = \<lparr>eqc_ExchangeId = ''Okx'', eqc_IntervalMs = 2000, eqc_TimeoutMs = 3000, eqc_MaxQueries = 2\<rparr>"

definition demo_eqd :: ExchangeQueryDetails where
  "demo_eqd = \<lparr>eqd_Exchange = ''Okx'', eqd_Url = ''https://okx'', eqd_IsMultiMarket = False\<rparr>"

definition demo_fetcher :: "MarketId list PriceFetcher" where
  "demo_fetcher = \<lparr>pf_exchangeQueryConfig = demo_eqc, pf_exchangeDetails = demo_eqd,
     pf_mutableState = \<lparr>fms_mutableExchangeConfig = Some demo_memc,
       fms_marketExponents = [(3, -6), (7, -5), (9, -6)], fms_marketIdsRing = Some [3, 7, 9]\<rparr>\<rparr>"

lemma demo_fetcher_new: "NewPriceFetcher list_ring demo_eqc demo_eqd demo_memc demo_mmcs = Inr (Inr demo_fetcher)"
  by code_simp

lemma demo_memc_ok: "memc_ok demo_memc"
  by code_simp

theorem fetcher_round_robin_witness:
  "\<exists>mss p'. task_loops list_ring 2 demo_fetcher = Inr (mss, p') \<and> length mss = 2 \<and>
    set (concat mss) = {3, 7, 9} \<and> (\<forall>ms \<in> set mss. length ms = 2 \<and> distinct ms)"
proof -
  have single: "\<not> eqd_IsMultiMarket demo_eqd" and ne: "memc_MarketToMarketConfig demo_memc \<noteq> []"
    by code_simp+
  have len: "length (memc_GetMarketIds demo_memc) \<le>
      2 * min (unat (eqc_MaxQueries demo_eqc)) (length (memc_GetMarketIds demo_memc))" by code_simp
  have "min (unat (eqc_MaxQueries demo_eqc)) (length (memc_GetMarketIds demo_memc)) = 2" by code_simp
  moreover have "memc_GetMarketIds demo_memc = [3, 7, 9]" by code_simp
  ultimately show ?thesis
    using fetcher_round_robin [OF list_ring_laws demo_fetcher_new demo_memc_ok single ne len] by simp
qed

lemma demo_fetcher_ok: "fetcher_ok (\<lambda>r. r) demo_fetcher"
  using new_fetcher_spec(1) [OF list_ring_laws demo_fetcher_new demo_memc_ok] .

definition demo_query :: "MarketId list \<Rightarrow> taskLoopDefinition \<Rightarrow> string + MarketPriceTimestamp list" where
  "demo_query ms tld = (if ms = [7] then Inl ''timeout''
     else Inr (map (\<lambda>m. \<lparr>mpt_MarketId = m, mpt_Price = 5, mpt_LastUpdatedAt = 10\<rparr>) ms))"

theorem RunTaskLoop_responses_witness:
  "\<exists>outs p' tld. RunTaskLoop list_ring (\<lambda>p. p) demo_query demo_fetcher = Inr (outs, p') \<and>
    (\<forall>ch \<in> interleavings outs. \<forall>r \<in> set ch. (psr_Err r = None \<longleftrightarrow> psr_Price r \<noteq> None) \<and>
      (\<forall>q. psr_Price r = Some q \<longrightarrow> mpt_Price q \<noteq> 0 \<and> (\<exists>ms ps. set ms \<subseteq> set (tld_marketIds tld) \<and>
        demo_query ms tld = Inr ps \<and> q \<in> set ps)))"
  using RunTaskLoop_responses [OF list_ring_laws demo_fetcher_ok, of demo_query] by blast

theorem RunTaskLoop_race_witness:
  "\<exists>p'. fetcher_UpdateMutableExchangeConfig list_ring demo_fetcher
      \<lparr>memc_Id = fetcher_GetExchangeId demo_fetcher, memc_MarketToMarketConfig = []\<rparr> [] = Inr (Inr p') \<and>
    RunTaskLoop list_ring (\<lambda>_. p') demo_query demo_fetcher = Inl NilDereference"
proof -
  have "ring_New list_ring 0 = None" "fetcher_config demo_fetcher = Some demo_memc"
    "memc_MarketToMarketConfig demo_memc \<noteq> []" "\<not> eqd_IsMultiMarket (pf_exchangeDetails demo_fetcher)"
    "eqc_MaxQueries (pf_exchangeQueryConfig demo_fetcher) \<noteq> 0"
    by code_simp+
  from RunTaskLoop_race [OF list_ring_laws this(1) demo_fetcher_ok this(2-5), of demo_query]
  show ?thesis by (simp only: Let_def)
qed

end
