(* ===== verification/QueryHandler.thy ===== *)
theory QueryHandler
  imports PriceFetcher
begin

text \<open>
  \<open>pricefeed/client/queryhandler/exchange_query_handler.go\<close>: one query of an exchange. The HTTP
  request is the argument \<open>get\<close> (the URL to an error or a response), the price function of the
  exchange is the argument \<open>priceFunction\<close> (the body, the exponents by ticker and the resolver to
  an error message, or the prices and the errors by ticker), \<open>now\<close> is the clock.
\<close>

section \<open>URLs\<close>

fun strings_Join :: "string list \<Rightarrow> string \<Rightarrow> string" where
  "strings_Join [] sep = []"
| "strings_Join [s] sep = s"
| "strings_Join (s # t # ts) sep = s @ sep @ strings_Join (t # ts) sep"

definition CreateRequestUrl :: "string \<Rightarrow> string list \<Rightarrow> string" where
  "CreateRequestUrl baseUrl tickers =
     concat (map (\<lambda>c. if c = CHR ''$'' then strings_Join tickers '','' else [c]) baseUrl)"

section \<open>Queries\<close>

text \<open>What the code asks of an error of the HTTP client: its text and what \<open>errors.Is\<close> finds in it.\<close>

record network_error =
  ne_DeadlineExceeded :: bool
  ne_ConnReset :: bool
  ne_Text :: string

datatype query_error =
    ErrNoMarketIds
  | ErrNoConfigForMarket MarketId
  | ErrNoExponentForMarket MarketId
  | ErrGet network_error
  | ErrRateLimitingHandler
  | ErrUnexpectedStatus nat
  | ErrExchange ExchangeId string
  | ErrNoMarketIdForTicker string

record 'b http_response =
  resp_StatusCode :: nat
  resp_Body :: 'b

record ticker_maps =
  tm_tickers :: "string list"
  tm_tickerToPriceExponent :: "(string, int32) gomap"
  tm_tickerToMarketId :: "(string, MarketId) gomap"

fun query_tickers_loop ::
    "MutableExchangeMarketConfig \<Rightarrow> (MarketId, Exponent) gomap \<Rightarrow> MarketId list \<Rightarrow> ticker_maps \<Rightarrow>
     query_error + ticker_maps" where
  "query_tickers_loop exchangeConfig exponents [] tm = Inr tm"
| "query_tickers_loop exchangeConfig exponents (marketId # rest) tm =
     (case map_of (memc_MarketToMarketConfig exchangeConfig) marketId of
        None \<Rightarrow> Inl (ErrNoConfigForMarket marketId)
      | Some config \<Rightarrow>
          (case map_of exponents marketId of
             None \<Rightarrow> Inl (ErrNoExponentForMarket marketId)
           | Some priceExponent \<Rightarrow>
               query_tickers_loop exchangeConfig exponents rest
                 \<lparr>tm_tickers = tm_tickers tm @ [mc_Ticker config],
                  tm_tickerToPriceExponent = mput (mc_Ticker config) priceExponent (tm_tickerToPriceExponent tm),
                  tm_tickerToMarketId = mput (mc_Ticker config) marketId (tm_tickerToMarketId tm)\<rparr>))"

fun query_prices_loop ::
    "(string, MarketId) gomap \<Rightarrow> gotime \<Rightarrow> (string, uint64) gomap \<Rightarrow> MarketPriceTimestamp list \<Rightarrow>
     query_error + MarketPriceTimestamp list" where
  "query_prices_loop tickerToMarketId now [] mpts = Inr mpts"
| "query_prices_loop tickerToMarketId now ((ticker, price) # rest) mpts =
     (case map_of tickerToMarketId ticker of
        None \<Rightarrow> Inl (ErrNoMarketIdForTicker ticker)
      | Some marketId \<Rightarrow>
          query_prices_loop tickerToMarketId now rest
            (mpts @ [\<lparr>mpt_MarketId = marketId, mpt_Price = price, mpt_LastUpdatedAt = now\<rparr>]))"

fun query_unavailable_loop ::
    "(string, MarketId) gomap \<Rightarrow> (string, 'u) gomap \<Rightarrow> (MarketId, 'u) gomap \<Rightarrow>
     query_error + (MarketId, 'u) gomap" where
  "query_unavailable_loop tickerToMarketId [] unavailable = Inr unavailable"
| "query_unavailable_loop tickerToMarketId ((ticker, err) # rest) unavailable =
     (case map_of tickerToMarketId ticker of
        None \<Rightarrow> Inl (ErrNoMarketIdForTicker ticker)
      | Some marketId \<Rightarrow> query_unavailable_loop tickerToMarketId rest (mput marketId err unavailable))"

type_synonym ('b, 'u) price_function =
  "'b \<Rightarrow> (string, int32) gomap \<Rightarrow> (uint64 list \<Rightarrow> lib_error + uint64) \<Rightarrow>
   string + (string, uint64) gomap \<times> (string, 'u) gomap"

definition Query ::
    "(string \<Rightarrow> network_error + 'b http_response) \<Rightarrow> ('b, 'u) price_function \<Rightarrow> gotime \<Rightarrow>
     ExchangeQueryDetails \<Rightarrow> MutableExchangeMarketConfig \<Rightarrow> MarketId list \<Rightarrow> (MarketId, Exponent) gomap \<Rightarrow>
     query_error + MarketPriceTimestamp list \<times> (MarketId, 'u) gomap" where
  "Query get priceFunction now details exchangeConfig marketIds marketPriceExponent =
     (if length marketIds = 0 then Inl ErrNoMarketIds
      else bindE (query_tickers_loop exchangeConfig marketPriceExponent marketIds
             \<lparr>tm_tickers = [], tm_tickerToPriceExponent = [], tm_tickerToMarketId = []\<rparr>)
        (\<lambda>tm.
           case get (CreateRequestUrl (eqd_Url details) (tm_tickers tm)) of
             Inl err \<Rightarrow> Inl (ErrGet err)
           | Inr response \<Rightarrow>
               if resp_StatusCode response = 429 then Inl ErrRateLimitingHandler
               else if resp_StatusCode response < 200 \<or> resp_StatusCode response > 299
                 then Inl (ErrUnexpectedStatus (resp_StatusCode response))
               else
                 (case priceFunction (resp_Body response) (tm_tickerToPriceExponent tm) Median_uint64 of
                    Inl msg \<Rightarrow> Inl (ErrExchange (eqd_Exchange details) msg)
                  | Inr (prices, unavailableTickers) \<Rightarrow>
                      bindE (query_prices_loop (tm_tickerToMarketId tm) now prices [])
                        (\<lambda>mpts. bindE (query_unavailable_loop (tm_tickerToMarketId tm) unavailableTickers [])
                           (\<lambda>unavailable. Inr (mpts, unavailable))))))"

section \<open>Lemmas\<close>

lemma query_tickers_loop_spec:
  assumes "query_tickers_loop ec ex ms tm = Inr tm'"
  shows "(\<forall>m \<in> set ms. map_of (memc_MarketToMarketConfig ec) m \<noteq> None \<and> map_of ex m \<noteq> None) \<and>
    tm_tickers tm' = tm_tickers tm @ map (\<lambda>m. mc_Ticker (the (map_of (memc_MarketToMarketConfig ec) m))) ms \<and>
    tm_tickerToMarketId tm' = fold (\<lambda>m. mput (mc_Ticker (the (map_of (memc_MarketToMarketConfig ec) m))) m) ms
      (tm_tickerToMarketId tm) \<and>
    tm_tickerToPriceExponent tm' =
      fold (\<lambda>m. mput (mc_Ticker (the (map_of (memc_MarketToMarketConfig ec) m))) (the (map_of ex m))) ms
      (tm_tickerToPriceExponent tm)"
  using assms
  by (induction ec ex ms tm rule: query_tickers_loop.induct) (auto split: option.splits)

lemma query_tickers_loop_ok:
  assumes "\<forall>m \<in> set ms. map_of (memc_MarketToMarketConfig ec) m \<noteq> None \<and> map_of ex m \<noteq> None"
  shows "\<exists>tm'. query_tickers_loop ec ex ms tm = Inr tm'"
  using assms by (induction ec ex ms tm rule: query_tickers_loop.induct) auto

lemma query_prices_loop_eq:
  assumes "\<forall>x \<in> set ps. map_of tm (fst x) \<noteq> None"
  shows "query_prices_loop tm now ps acc = Inr (acc @ map (\<lambda>x. \<lparr>mpt_MarketId = the (map_of tm (fst x)),
    mpt_Price = snd x, mpt_LastUpdatedAt = now\<rparr>) ps)"
  using assms by (induction tm now ps acc rule: query_prices_loop.induct) (auto simp del: map_of_eq_None_iff)

lemma query_prices_loop_InrD:
  assumes "query_prices_loop tm now ps acc = Inr mpts"
  shows "\<forall>x \<in> set ps. map_of tm (fst x) \<noteq> None"
  using assms by (induction tm now ps acc rule: query_prices_loop.induct)
    (auto split: option.splits simp del: map_of_eq_None_iff)

text \<open>The ticker of a market on an exchange, and the markets of a configuration that share none.\<close>

definition market_ticker :: "MutableExchangeMarketConfig \<Rightarrow> MarketId \<Rightarrow> string" where
  "market_ticker ec m = mc_Ticker (the (map_of (memc_MarketToMarketConfig ec) m))"

definition query_url :: "ExchangeQueryDetails \<Rightarrow> MutableExchangeMarketConfig \<Rightarrow> MarketId list \<Rightarrow> string" where
  "query_url details ec ms = CreateRequestUrl (eqd_Url details) (map (market_ticker ec) ms)"

lemma query_maps:
  assumes "query_tickers_loop ec ex ms \<lparr>tm_tickers = [], tm_tickerToPriceExponent = [], tm_tickerToMarketId = []\<rparr> = Inr tm"
  shows "tm_tickers tm = map (market_ticker ec) ms"
    "tm_tickerToMarketId tm = build_map (market_ticker ec) (\<lambda>m. m) ms"
    "tm_tickerToPriceExponent tm = build_map (market_ticker ec) (\<lambda>m. the (map_of ex m)) ms"
  using query_tickers_loop_spec [OF assms] by (simp_all add: build_map_def market_ticker_def [abs_def])

lemma Query_after_tickers:
  assumes "ms \<noteq> []" and "\<forall>m \<in> set ms. map_of (memc_MarketToMarketConfig ec) m \<noteq> None \<and> map_of ex m \<noteq> None"
  shows "Query get priceFunction now details ec ms ex =
    (case get (query_url details ec ms) of
       Inl err \<Rightarrow> Inl (ErrGet err)
     | Inr response \<Rightarrow>
         if resp_StatusCode response = 429 then Inl ErrRateLimitingHandler
         else if resp_StatusCode response < 200 \<or> resp_StatusCode response > 299
           then Inl (ErrUnexpectedStatus (resp_StatusCode response))
         else (case priceFunction (resp_Body response)
             (build_map (market_ticker ec) (\<lambda>m. the (map_of ex m)) ms) Median_uint64 of
             Inl msg \<Rightarrow> Inl (ErrExchange (eqd_Exchange details) msg)
           | Inr (prices, unavailableTickers) \<Rightarrow>
               bindE (query_prices_loop (build_map (market_ticker ec) (\<lambda>m. m) ms) now prices [])
                 (\<lambda>mpts. bindE (query_unavailable_loop (build_map (market_ticker ec) (\<lambda>m. m) ms) unavailableTickers [])
                    (\<lambda>unavailable. Inr (mpts, unavailable)))))"
proof -
  from query_tickers_loop_ok [OF assms(2)] obtain tm where tm: "query_tickers_loop ec ex ms
      \<lparr>tm_tickers = [], tm_tickerToPriceExponent = [], tm_tickerToMarketId = []\<rparr> = Inr tm" by blast
  show ?thesis
    unfolding Query_def query_url_def tm bindE.simps query_maps [OF tm] using assms(1) by simp
qed

section \<open>Properties\<close>

text \<open>Every price that \<open>Query\<close> returns belongs to a market that was asked for, carries the time of
  the query, and is the price that the exchange's price function gave for the ticker of this
  market at the exponent of this market; the request went to the URL made of these tickers and
  was answered with a 2xx status.\<close>

theorem Query_sound:
  assumes "Query get priceFunction now details ec ms ex = Inr (mpts, unavailable)"
    and "distinct (map (market_ticker ec) ms)"
  shows "\<exists>resp prices unav. get (query_url details ec ms) = Inr resp \<and> 200 \<le> resp_StatusCode resp \<and>
    resp_StatusCode resp \<le> 299 \<and>
    priceFunction (resp_Body resp) (build_map (market_ticker ec) (\<lambda>m. the (map_of ex m)) ms) Median_uint64 =
      Inr (prices, unav) \<and>
    (\<forall>q \<in> set mpts. mpt_LastUpdatedAt q = now \<and> mpt_MarketId q \<in> set ms \<and>
      (market_ticker ec (mpt_MarketId q), mpt_Price q) \<in> set prices) \<and>
    (\<forall>m \<in> set ms. \<forall>p. (market_ticker ec m, p) \<in> set prices \<longrightarrow>
      \<lparr>mpt_MarketId = m, mpt_Price = p, mpt_LastUpdatedAt = now\<rparr> \<in> set mpts)"
proof -
  from assms(1) obtain tm where tm: "query_tickers_loop ec ex ms
      \<lparr>tm_tickers = [], tm_tickerToPriceExponent = [], tm_tickerToMarketId = []\<rparr> = Inr tm"
    by (auto simp: Query_def split: if_splits)
  note maps = query_maps [OF tm]
  let ?t2m = "build_map (market_ticker ec) (\<lambda>m. m) ms"
  from assms(1) tm obtain resp prices unav where
    r: "get (query_url details ec ms) = Inr resp" "200 \<le> resp_StatusCode resp" "resp_StatusCode resp \<le> 299"
      "priceFunction (resp_Body resp) (build_map (market_ticker ec) (\<lambda>m. the (map_of ex m)) ms) Median_uint64 =
        Inr (prices, unav)"
      "query_prices_loop ?t2m now prices [] = Inr mpts"
    by (auto simp: Query_def maps query_url_def split: if_splits sum.splits)
  have known: "\<forall>x \<in> set prices. map_of ?t2m (fst x) \<noteq> None" by (rule query_prices_loop_InrD [OF r(5)])
  have mpts: "mpts = map (\<lambda>x. \<lparr>mpt_MarketId = the (map_of ?t2m (fst x)), mpt_Price = snd x,
      mpt_LastUpdatedAt = now\<rparr>) prices"
    using query_prices_loop_eq [OF known, of now "[]"] r(5) by simp
  have lookup: "map_of ?t2m (market_ticker ec m) = Some m" if "m \<in> set ms" for m
    using build_map_distinct [OF assms(2) that] .
  have "mpt_LastUpdatedAt q = now \<and> mpt_MarketId q \<in> set ms \<and>
      (market_ticker ec (mpt_MarketId q), mpt_Price q) \<in> set prices" if "q \<in> set mpts" for q
  proof -
    from that obtain x where x: "x \<in> set prices" "mpt_MarketId q = the (map_of ?t2m (fst x))"
      "mpt_Price q = snd x" "mpt_LastUpdatedAt q = now" by (auto simp: mpts)
    with known obtain m where "map_of ?t2m (fst x) = Some m" by blast
    with build_map_SomeD [OF this] x show ?thesis by auto
  qed
  moreover have "\<lparr>mpt_MarketId = m, mpt_Price = p, mpt_LastUpdatedAt = now\<rparr> \<in> set mpts"
    if "m \<in> set ms" "(market_ticker ec m, p) \<in> set prices" for m p
    using that lookup by (force simp: mpts image_iff)
  ultimately show ?thesis using r(1-4) by blast
qed

text \<open>\<open>Query\<close> reports each failure with its own error: no market, a market without configuration or
  exponent, a failed request, status 429, any other status outside 2xx, and an error of the
  price function.\<close>

theorem Query_errors:
  "Query get priceFunction now details ec [] ex = Inl ErrNoMarketIds \<and>
   (ms \<noteq> [] \<and> (\<forall>m \<in> set ms. map_of (memc_MarketToMarketConfig ec) m \<noteq> None \<and> map_of ex m \<noteq> None) \<longrightarrow>
     (case get (query_url details ec ms) of
        Inl err \<Rightarrow> Query get priceFunction now details ec ms ex = Inl (ErrGet err)
      | Inr resp \<Rightarrow>
          (resp_StatusCode resp = 429 \<longrightarrow>
             Query get priceFunction now details ec ms ex = Inl ErrRateLimitingHandler) \<and>
          (resp_StatusCode resp \<noteq> 429 \<and> \<not> (200 \<le> resp_StatusCode resp \<and> resp_StatusCode resp \<le> 299) \<longrightarrow>
             Query get priceFunction now details ec ms ex = Inl (ErrUnexpectedStatus (resp_StatusCode resp))) \<and>
          (\<forall>msg. 200 \<le> resp_StatusCode resp \<and> resp_StatusCode resp \<le> 299 \<and>
             priceFunction (resp_Body resp) (build_map (market_ticker ec) (\<lambda>m. the (map_of ex m)) ms)
               Median_uint64 = Inl msg \<longrightarrow>
             Query get priceFunction now details ec ms ex = Inl (ErrExchange (eqd_Exchange details) msg))))"
proof (intro conjI impI)
  show "Query get priceFunction now details ec [] ex = Inl ErrNoMarketIds" by (simp add: Query_def)
qed (auto simp: Query_after_tickers split: sum.splits)

section \<open>Witnesses\<close>

definition demo_get :: "string \<Rightarrow> network_error + nat http_response" where
  "demo_get url = (if url = ''u?BTC-USD,USDT-USD'' then Inr \<lparr>resp_StatusCode = 200, resp_Body = 5\<rparr>
     else if url = ''u?BTC-USD'' then Inr \<lparr>resp_StatusCode = 429, resp_Body = 5\<rparr>
     else Inl \<lparr>ne_DeadlineExceeded = True, ne_ConnReset = False, ne_Text = ''timeout''\<rparr>)"

definition demo_price_function :: "(nat, string) price_function" where
  "demo_price_function body exps resolver = Inr ([(''USDT-USD'', of_nat body)], [(''BTC-USD'', ''missing'')])"

definition demo_details :: ExchangeQueryDetails where
  "demo_details = \<lparr>eqd_Exchange = ''Okx'', eqd_Url = ''u?$'', eqd_IsMultiMarket = True\<rparr>"

theorem Query_sound_witness:
  "\<exists>resp prices (unav :: (string, string) gomap). demo_get ''u?BTC-USD,USDT-USD'' = Inr resp \<and>
    demo_price_function (resp_Body resp) (build_map (market_ticker demo_memc) (\<lambda>m. the (map_of [(7, -5), (9, -6)] m)) [7, 9])
      Median_uint64 = Inr (prices, unav) \<and>
    (\<forall>q \<in> set [\<lparr>mpt_MarketId = 9, mpt_Price = 5, mpt_LastUpdatedAt = 44\<rparr>].
       (market_ticker demo_memc (mpt_MarketId q), mpt_Price q) \<in> set prices)"
proof -
  have q: "Query demo_get demo_price_function 44 demo_details demo_memc [7, 9] [(7, -5), (9, -6)] =
      Inr ([\<lparr>mpt_MarketId = 9, mpt_Price = 5, mpt_LastUpdatedAt = 44\<rparr>], [(7, ''missing'')])" by code_simp
  have d: "distinct (map (market_ticker demo_memc) [7, 9])" by code_simp
  have "query_url demo_details demo_memc [7, 9] = ''u?BTC-USD,USDT-USD''" by code_simp
  with Query_sound [OF q d] show ?thesis by (metis (no_types, lifting))
qed

theorem Query_errors_witness:
  "Query demo_get demo_price_function 44 demo_details demo_memc [7] [(7, -5), (9, -6)] = Inl ErrRateLimitingHandler"
proof -
  have ms: "[7 :: MarketId] \<noteq> []" "\<forall>m \<in> set [7 :: MarketId]. map_of (memc_MarketToMarketConfig demo_memc) m \<noteq> None \<and>
      map_of [(7 :: MarketId, -5 :: Exponent), (9, -6)] m \<noteq> None" by code_simp+
  have url: "demo_get (query_url demo_details demo_memc [7]) = Inr \<lparr>resp_StatusCode = 429, resp_Body = 5\<rparr>"
    by code_simp
  show ?thesis
    using Query_errors [of demo_get demo_price_function 44 demo_details demo_memc "[(7, -5), (9, -6)]" "[7]"] ms
    unfolding url by simp
qed

end
