(* ===== verification/Prices.thy ===== *)
theory Prices
  imports MarketConfig Complex_Main
begin

text \<open>
  \<open>lib/prices/utils.go\<close>: conversions of prices (\<open>Invert\<close>, \<open>Multiply\<close>, \<open>Divide\<close>) and the encoding
  of a reported value (\<open>EncodePrice\<close>).

  The conversions compute with \<open>github.com/shopspring/decimal\<close>, a third-party package: its
  operations are the argument \<open>D\<close>, and \<open>decimal_laws\<close> states the documented behaviour the code
  relies on (construction and multiplication are exact, a quotient has 16 digits after the point,
  \<open>BigInt\<close> is the integer component). \<open>abi.Arguments.Pack\<close> of go-ethereum is the argument \<open>pack\<close>.
  \<open>big.Int.Uint64\<close> keeps the low 64 bits.
\<close>

section \<open>The decimal package\<close>

record 'd decimal_ops =
  dec_NewFromBigInt :: "int \<Rightarrow> int32 \<Rightarrow> 'd"
  dec_NewFromInt :: "int \<Rightarrow> 'd"
  dec_Div :: "'d \<Rightarrow> 'd \<Rightarrow> 'd"
  dec_Mul :: "'d \<Rightarrow> 'd \<Rightarrow> 'd"
  dec_BigInt :: "'d \<Rightarrow> int"

definition rat_trunc :: "rat \<Rightarrow> int" where
  "rat_trunc x = (if 0 \<le> x then \<lfloor>x\<rfloor> else \<lceil>x\<rceil>)"

definition DivisionPrecision :: nat where
  "DivisionPrecision = 16"

definition decimal_laws :: "('d, 'x) decimal_ops_scheme \<Rightarrow> ('d \<Rightarrow> rat) \<Rightarrow> bool" where
  "decimal_laws D val \<longleftrightarrow>
     (\<forall>v e. val (dec_NewFromBigInt D v e) = of_int v * 10 powi sint e) \<and>
     (\<forall>v. val (dec_NewFromInt D v) = of_int v) \<and>
     (\<forall>a b. val (dec_Mul D a b) = val a * val b) \<and>
     (\<forall>a b. val b \<noteq> 0 \<longrightarrow> \<bar>val (dec_Div D a b) - val a / val b\<bar> \<le> 1 / (2 * 10 ^ DivisionPrecision)) \<and>
     (\<forall>a b. val b \<noteq> 0 \<longrightarrow> (\<exists>k. val (dec_Div D a b) * 10 ^ DivisionPrecision = of_int k)) \<and>
     (\<forall>a. dec_BigInt D a = rat_trunc (val a))"

section \<open>Conversions\<close>

definition bigint_Uint64 :: "int \<Rightarrow> uint64" where
  "bigint_Uint64 i = word_of_int i"

definition Invert :: "('d, 'x) decimal_ops_scheme \<Rightarrow> uint64 \<Rightarrow> Exponent \<Rightarrow> uint64" where
  "Invert D price exponent =
     (if price = 0 then 0
      else let decimalPrice = dec_NewFromBigInt D (uint price) exponent;
               invertedPrice = bigint_Uint64 (dec_BigInt D
                 (dec_Mul D (dec_Div D (dec_NewFromInt D 1) decimalPrice)
                            (dec_NewFromBigInt D 1 (- exponent))))
           in invertedPrice)"

definition Multiply ::
    "('d, 'x) decimal_ops_scheme \<Rightarrow> uint64 \<Rightarrow> int32 \<Rightarrow> uint64 \<Rightarrow> int32 \<Rightarrow> uint64" where
  "Multiply D price exponent adjustByPrice adjustByExponent =
     (let decimalPrice = dec_NewFromBigInt D (uint price) exponent;
          decimalAdjustByPrice = dec_NewFromBigInt D (uint adjustByPrice) adjustByExponent
      in bigint_Uint64 (dec_BigInt D
           (dec_Mul D (dec_Mul D decimalPrice decimalAdjustByPrice)
                      (dec_NewFromBigInt D 1 (- exponent)))))"

definition Divide ::
    "('d, 'x) decimal_ops_scheme \<Rightarrow> uint64 \<Rightarrow> Exponent \<Rightarrow> uint64 \<Rightarrow> Exponent \<Rightarrow> uint64" where
  "Divide D adjustByPrice adjustByExponent price exponent =
     (if price = 0 then 0
      else let decimalPrice = dec_NewFromBigInt D (uint price) exponent;
               decimalAdjustByPrice = dec_NewFromBigInt D (uint adjustByPrice) adjustByExponent
           in bigint_Uint64 (dec_BigInt D
                (dec_Mul D (dec_Div D decimalAdjustByPrice decimalPrice)
                           (dec_NewFromBigInt D 1 (- exponent)))))"

section \<open>Encoding of a reported value\<close>

text \<open>
  \<open>float64(v)\<close> of a \<open>uint64\<close>: the nearest number with a mantissa of 53 bits, ties to even. All
  callers of \<open>EncodePrice\<close> pass such a number, which is an integer.
\<close>

definition bit_length :: "nat \<Rightarrow> nat" where
  "bit_length v = length (takeWhile (\<lambda>i. 2 ^ i \<le> v) [0..<64])"

definition float64_of_uint64 :: "uint64 \<Rightarrow> nat" where
  "float64_of_uint64 w =
     (let v = unat w; s = bit_length v - 53; q = v div 2 ^ s; r = v mod 2 ^ s in
      if s = 0 then v
      else if 2 ^ s < 2 * r \<or> (2 ^ s = 2 * r \<and> odd q) then (q + 1) * 2 ^ s
      else q * 2 ^ s)"

fun decimal_digits :: "nat \<Rightarrow> string" where
  "decimal_digits n =
     (if n < 10 then [char_of (48 + n)] else decimal_digits (n div 10) @ [char_of (48 + n mod 10)])"

declare decimal_digits.simps [simp del]

text \<open>
  \<open>fmt.Sprintf\<close> of an integral number with the precision \<open>p\<close> of the verb \<open>%.pf\<close>: the digits,
  and a point and \<open>p\<close> zeros if \<open>p\<close> is positive. A negative \<open>p\<close> gives a malformed verb, and one
  whose digits but the last exceed a million is dropped by the parser of the format; both give a
  diagnostic text, \<open>None\<close> here.
\<close>

definition sprintf_f :: "int \<Rightarrow> nat \<Rightarrow> string option" where
  "sprintf_f p n =
     (if p < 0 \<or> 1000000 < p div 10 then None
      else if p = 0 then Some (decimal_digits n)
      else Some (decimal_digits n @ CHR ''.'' # replicate (nat p) (CHR ''0'')))"

fun split_dot :: "string \<Rightarrow> string list" where
  "split_dot [] = [[]]"
| "split_dot (c # s) =
     (if c = CHR ''.'' then [] # split_dot s
      else case split_dot s of (p # ps) \<Rightarrow> (c # p) # ps | [] \<Rightarrow> [[c]])"

definition hex_digit :: "nat \<Rightarrow> char" where
  "hex_digit n = char_of (if n < 10 then 48 + n else 87 + n)"

definition hex_EncodeToString :: "nat list \<Rightarrow> string" where
  "hex_EncodeToString bs = concat (map (\<lambda>b. [hex_digit (b div 16), hex_digit (b mod 16)]) bs)"

datatype 'e encode_error = ErrBigInt | ErrPack 'e

text \<open>
  The text of a bad precision has no second part after a point, or one that is sliced with the
  negative precision: both panic.
\<close>

definition EncodePrice ::
    "(int \<Rightarrow> 'e + nat list) \<Rightarrow> nat \<Rightarrow> int32 \<Rightarrow> go_panic + 'e encode_error + string" where
  "EncodePrice pack number exponent =
     (let newExponent = 18 + exponent in
      case sprintf_f (sint newExponent) number of
        None \<Rightarrow> Inl PanicIndexOutOfRange
      | Some strNumber \<Rightarrow>
          let parts = split_dot strNumber in
          if length parts \<le> 1 then Inl PanicIndexOutOfRange
          else
            let part1 = (if length (parts ! 1) > nat (sint newExponent)
                         then take (nat (sint newExponent)) (parts ! 1) else parts ! 1);
                truncatedStr = parts ! 0 @ part1
            in case parse_digits truncatedStr of
                 None \<Rightarrow> Inr (Inl ErrBigInt)
               | Some bigIntNumber \<Rightarrow>
                   (case pack bigIntNumber of
                      Inl err \<Rightarrow> Inr (Inl (ErrPack err))
                    | Inr encodedBytes \<Rightarrow> Inr (Inr (hex_EncodeToString encodedBytes))))"

section \<open>Conversions: what they compute\<close>

lemma decimal_lawsD:
  assumes "decimal_laws D val"
  shows "val (dec_NewFromBigInt D v e) = of_int v * 10 powi sint e" "val (dec_NewFromInt D v) = of_int v"
    "val (dec_Mul D a b) = val a * val b"
    "val b \<noteq> 0 \<Longrightarrow> \<bar>val (dec_Div D a b) - val a / val b\<bar> \<le> 1 / (2 * 10 ^ 16)"
    "val b \<noteq> 0 \<Longrightarrow> \<exists>k. val (dec_Div D a b) * 10 ^ 16 = of_int k"
    "dec_BigInt D a = rat_trunc (val a)"
  using assms by (simp_all add: decimal_laws_def DivisionPrecision_def)

lemma sint_uminus:
  fixes e :: "'a::len word"
  assumes "sint e \<noteq> - (2 ^ (LENGTH('a) - 1))"
  shows "sint (- e) = - sint e"
proof -
  have "- (2 ^ (LENGTH('a) - 1)) < sint e" "sint e \<le> 2 ^ (LENGTH('a) - 1) - 1"
    using sint_in_range [of e] assms by auto
  moreover have "- e = word_of_int (- sint e)" by simp
  ultimately show ?thesis using sint_word_of_int_id [where i = "- sint e" and 'a = 'a] by simp
qed

lemma uint_pos: "p \<noteq> 0 \<Longrightarrow> 0 < uint p"
  by (metis less_le uint_0_iff uint_ge_0)

lemma powi_cancel: "10 powi e * 10 powi (- e) = (1 :: rat)"
  by (simp add: power_int_minus)

lemma rat_trunc_nonneg: "0 \<le> x \<Longrightarrow> rat_trunc x = \<lfloor>x\<rfloor>"
  by (simp add: rat_trunc_def)

lemma rat_trunc_near:
  fixes x y :: rat
  assumes "\<bar>x - y\<bar> \<le> d" and "0 \<le> y"
  shows "\<bar>of_int (rat_trunc x) - y\<bar> < 1 + d"
  using assms by (auto simp: rat_trunc_def abs_if split: if_splits) linarith+

lemma scaled_div:
  assumes "decimal_laws D val" and "val b \<noteq> 0" and "sint e \<noteq> - (2 ^ 31)"
  shows "\<bar>val (dec_Mul D (dec_Div D a b) (dec_NewFromBigInt D 1 (- e))) - val a / val b * 10 powi (- sint e)\<bar>
    \<le> 10 powi (- sint e) / (2 * 10 ^ 16)"
proof -
  have "sint (- e) = - sint e" using sint_uminus [of e] assms(3) by simp
  then have "val (dec_Mul D (dec_Div D a b) (dec_NewFromBigInt D 1 (- e))) - val a / val b * 10 powi (- sint e)
      = (val (dec_Div D a b) - val a / val b) * 10 powi (- sint e)"
    by (simp add: decimal_lawsD(1,3) [OF assms(1)] left_diff_distrib)
  also have "\<bar>\<dots>\<bar> \<le> 1 / (2 * 10 ^ 16) * 10 powi (- sint e)"
    using decimal_lawsD(4) [OF assms(1,2), of a] by (simp add: abs_mult mult_right_mono)
  finally show ?thesis by simp
qed

text \<open>A quotient of non-negative decimals, rounded to a multiple of the precision, is not negative.\<close>

lemma dec_Div_nonneg:
  assumes "decimal_laws D val" and "0 \<le> val a" and "0 < val b"
  shows "0 \<le> val (dec_Div D a b)"
proof -
  let ?q = "val (dec_Div D a b)"
  obtain k where k: "?q * 10 ^ 16 = of_int k" using decimal_lawsD(5) [OF assms(1), of b a] assms(3) by auto
  have "0 \<le> val a / val b" using assms(2,3) by simp
  moreover have "\<bar>?q - val a / val b\<bar> \<le> 1 / (2 * 10 ^ 16)"
    using decimal_lawsD(4) [OF assms(1), of b a] assms(3) by auto
  ultimately have "- 1 / (2 * 10 ^ 16) \<le> ?q" by linarith
  then have "- 1 / 2 \<le> (of_int k :: rat)" by (simp flip: k add: field_simps)
  then have "0 \<le> k" by linarith
  then have "0 \<le> ?q * 10 ^ 16" using k by simp
  then show ?thesis by (simp add: zero_le_mult_iff)
qed

definition div_slack :: "Exponent \<Rightarrow> rat" where
  "div_slack e = 10 powi (- sint e) / (2 * 10 ^ 16)"

lemma quotient_conversion:
  assumes laws: "decimal_laws D val" and a: "0 \<le> val a" and b: "0 < val b" and e: "sint e \<noteq> - (2 ^ 31)"
    and small: "val a / val b * 10 powi (- sint e) + 1 + div_slack e \<le> 2 ^ 64"
  shows "\<bar>of_int (uint (bigint_Uint64 (dec_BigInt D
      (dec_Mul D (dec_Div D a b) (dec_NewFromBigInt D 1 (- e)))))) - val a / val b * 10 powi (- sint e)\<bar>
    < 1 + div_slack e"
proof -
  let ?x = "val (dec_Mul D (dec_Div D a b) (dec_NewFromBigInt D 1 (- e)))"
  let ?y = "val a / val b * 10 powi (- sint e)"
  have "\<bar>?x - ?y\<bar> \<le> div_slack e" using scaled_div [OF laws _ e, of b a] b by (simp add: div_slack_def)
  moreover have "0 \<le> ?y" using a b by simp
  ultimately have near: "\<bar>of_int (rat_trunc ?x) - ?y\<bar> < 1 + div_slack e" by (rule rat_trunc_near)
  have "0 \<le> ?x" using dec_Div_nonneg [OF laws a b] by (simp add: decimal_lawsD(1,3) [OF laws])
  then have lo: "0 \<le> rat_trunc ?x" by (simp add: rat_trunc_nonneg)
  have "of_int (rat_trunc ?x) < (of_int (2 ^ 64) :: rat)" using near small by (simp add: abs_if split: if_splits)
  then have "rat_trunc ?x < 2 ^ 64" by (simp only: of_int_less_iff)
  with lo have "uint (bigint_Uint64 (rat_trunc ?x)) = rat_trunc ?x"
    by (simp add: bigint_Uint64_def word_of_int_inverse)
  then show ?thesis using near by (simp add: decimal_lawsD(6) [OF laws])
qed

section \<open>Properties of the conversions\<close>

text \<open>\<open>Multiply\<close> is exact up to the final truncation: with an exponent other than the least
  \<open>int32\<close>, its result is the integer part of \<open>price * adjustByPrice * 10 ^ adjustByExponent\<close>,
  reduced to 64 bits; the exponent of the first price does not matter.\<close>

theorem Multiply_exact:
  assumes "decimal_laws D val" and "sint exponent \<noteq> - (2 ^ 31)"
  shows "Multiply D price exponent adjustByPrice adjustByExponent =
    word_of_int \<lfloor>of_int (uint price * uint adjustByPrice) * (10 :: rat) powi sint adjustByExponent\<rfloor>"
proof -
  let ?a = "dec_NewFromBigInt D (uint price) exponent"
  let ?b = "dec_NewFromBigInt D (uint adjustByPrice) adjustByExponent"
  let ?c = "dec_NewFromBigInt D 1 (- exponent)"
  let ?e = "of_int (uint price * uint adjustByPrice) * (10 :: rat) powi sint adjustByExponent"
  have neg: "sint (- exponent) = - sint exponent" using sint_uminus [of exponent] assms(2) by simp
  have "val (dec_Mul D (dec_Mul D ?a ?b) ?c) = ?e * (10 powi sint exponent * 10 powi (- sint exponent))"
    by (simp add: decimal_lawsD(1,3) [OF assms(1)] neg algebra_simps del: of_int_uint)
  then have "val (dec_Mul D (dec_Mul D ?a ?b) ?c) = ?e" unfolding powi_cancel by simp
  moreover have "0 \<le> ?e" by (simp del: of_int_uint)
  ultimately show ?thesis
    by (simp only: Multiply_def Let_def bigint_Uint64_def decimal_lawsD(6) [OF assms(1)] rat_trunc_nonneg)
qed

text \<open>\<open>Divide\<close> by a price that is not zero differs from the exact scaled quotient by less than one
  unit plus the precision of the decimal division, whenever the quotient leaves this much room in
  64 bits; dividing by the invalid price zero gives zero.\<close>

theorem Divide_bound:
  assumes "decimal_laws D val" and "sint exponent \<noteq> - (2 ^ 31)"
    and "exact = of_int (uint adjustByPrice) * 10 powi sint adjustByExponent /
       (of_int (uint price) * 10 powi sint exponent) * (10 :: rat) powi (- sint exponent)"
    and "exact + 1 + div_slack exponent \<le> 2 ^ 64"
  shows "(price = 0 \<longrightarrow> Divide D adjustByPrice adjustByExponent price exponent = 0) \<and>
    (price \<noteq> 0 \<longrightarrow> \<bar>of_int (uint (Divide D adjustByPrice adjustByExponent price exponent)) - exact\<bar>
       < 1 + div_slack exponent)"
proof (cases "price = 0")
  case False
  then have p: "0 < uint price" by (rule uint_pos)
  let ?a = "dec_NewFromBigInt D (uint adjustByPrice) adjustByExponent"
  let ?b = "dec_NewFromBigInt D (uint price) exponent"
  have "0 \<le> val ?a" "0 < val ?b" using p by (simp_all add: decimal_lawsD(1) [OF assms(1)] del: of_int_uint)
  from quotient_conversion [OF assms(1) this assms(2)] assms(3,4) False show ?thesis
    by (simp add: Divide_def Let_def decimal_lawsD(1) [OF assms(1)])
qed (simp add: Divide_def)

text \<open>\<open>Invert\<close> of a price that is not zero differs from the exact inverse, at the same exponent, by
  less than one unit plus the precision of the decimal division; the inverse of zero is zero.\<close>

theorem Invert_bound:
  assumes "decimal_laws D val" and "sint exponent \<noteq> - (2 ^ 31)"
    and "exact = 1 / (of_int (uint price) * 10 powi sint exponent) * (10 :: rat) powi (- sint exponent)"
    and "exact + 1 + div_slack exponent \<le> 2 ^ 64"
  shows "(price = 0 \<longrightarrow> Invert D price exponent = 0) \<and>
    (price \<noteq> 0 \<longrightarrow> \<bar>of_int (uint (Invert D price exponent)) - exact\<bar> < 1 + div_slack exponent)"
proof (cases "price = 0")
  case False
  then have p: "0 < uint price" by (rule uint_pos)
  let ?a = "dec_NewFromInt D 1" and ?b = "dec_NewFromBigInt D (uint price) exponent"
  have "0 \<le> val ?a" "0 < val ?b" using p by (simp_all add: decimal_lawsD(1,2) [OF assms(1)] del: of_int_uint)
  from quotient_conversion [OF assms(1) this assms(2)] assms(3,4) False show ?thesis
    by (simp add: Invert_def Let_def decimal_lawsD(1,2) [OF assms(1)])
qed (simp add: Invert_def)

section \<open>Encoding: lemmas\<close>

lemma parse_digits_acc_append:
  "parse_digits_acc a (xs @ ys) = (case parse_digits_acc a xs of None \<Rightarrow> None | Some b \<Rightarrow> parse_digits_acc b ys)"
  by (induction xs arbitrary: a) (simp_all split: option.splits)

lemma digit_of_char_of: "d < 10 \<Longrightarrow> digit_of_char (char_of (48 + d)) = Some (int d)"
proof -
  assume "d < 10"
  moreover have "(of_char (char_of (48 + d) :: char) :: int) = int (of_char (char_of (48 + d) :: char))"
    by (simp only: of_nat_of_char)
  ultimately show ?thesis by (simp add: digit_of_char_def Let_def of_char_of del: of_nat_of_char)
qed

lemma decimal_digits_nonempty: "decimal_digits n \<noteq> []"
  by (subst decimal_digits.simps) simp

lemma parse_decimal_digits: "parse_digits_acc 0 (decimal_digits n) = Some (int n)"
proof (induction n rule: decimal_digits.induct)
  case (1 n)
  show ?case
  proof (cases "n < 10")
    case True
    then show ?thesis by (subst decimal_digits.simps) (simp add: digit_of_char_of)
  next
    case False
    then have "decimal_digits n = decimal_digits (n div 10) @ [char_of (48 + n mod 10)]"
      by (subst decimal_digits.simps) simp
    then show ?thesis
      using 1 False by (simp add: parse_digits_acc_append digit_of_char_of of_nat_div of_nat_mod)
  qed
qed

lemma decimal_digits_no_dot: "CHR ''.'' \<notin> set (decimal_digits n)"
proof (induction n rule: decimal_digits.induct)
  case (1 n)
  have "CHR ''.'' \<noteq> char_of (48 + d)" if "d < 10" for d :: nat
  proof
    assume "CHR ''.'' = char_of (48 + d)"
    then have "(of_char (CHR ''.'') :: nat) = of_char (char_of (48 + d) :: char)" by simp
    then show False using that by (simp add: of_char_of)
  qed
  then show ?case using 1 by (subst decimal_digits.simps) auto
qed

lemma split_dot_no_dot: "CHR ''.'' \<notin> set s \<Longrightarrow> split_dot s = [s]"
  by (induction s) auto

lemma split_dot_two: "CHR ''.'' \<notin> set s \<Longrightarrow> split_dot (s @ CHR ''.'' # r) = s # split_dot r"
  by (induction s) auto

lemma split_dot_number:
  "split_dot (decimal_digits n @ CHR ''.'' # replicate k (CHR ''0'')) = [decimal_digits n, replicate k (CHR ''0'')]"
  by (simp add: split_dot_two decimal_digits_no_dot split_dot_no_dot)

lemma parse_shifted: "parse_digits (decimal_digits n @ replicate k (CHR ''0'')) = Some (int n * 10 ^ k)"
  by (simp add: parse_digits_def decimal_digits_nonempty parse_digits_acc_append parse_decimal_digits
      parse_digits_acc_zeros)

lemma EncodePrice_panics: "sint (18 + exponent) \<le> 0 \<Longrightarrow> EncodePrice pack n exponent = Inl PanicIndexOutOfRange"
  by (auto simp: EncodePrice_def sprintf_f_def split_dot_no_dot decimal_digits_no_dot Let_def)

lemma EncodePrice_value:
  assumes "0 < sint (18 + exponent)" and "sint (18 + exponent) \<le> 1000000"
  shows "EncodePrice pack n exponent =
    (case pack (int n * 10 ^ nat (sint (18 + exponent))) of
       Inl err \<Rightarrow> Inr (Inl (ErrPack err)) | Inr bs \<Rightarrow> Inr (Inr (hex_EncodeToString bs)))"
proof -
  have "\<not> 1000000 < sint (18 + exponent) div 10" using assms by linarith
  with assms show ?thesis
    by (simp add: EncodePrice_def sprintf_f_def split_dot_number parse_shifted Let_def)
qed

lemma fromHexChar_hex_digit: "d < 16 \<Longrightarrow> fromHexChar (hex_digit d) = Some d"
  by (auto simp: fromHexChar_def hex_digit_def of_char_of Let_def)

lemma hex_roundtrip:
  "\<forall>b \<in> set bs. b < 256 \<Longrightarrow> hex_DecodeString (hex_EncodeToString bs) = Inr bs"
proof (induction bs)
  case (Cons b bs)
  then have "b div 16 < 16" "b mod 16 < 16" by auto
  with Cons show ?case by (simp add: hex_EncodeToString_def fromHexChar_hex_digit)
qed (simp add: hex_EncodeToString_def)

text \<open>Big-endian value of a list of bytes, and what packing a \<open>uint256\<close> promises.\<close>

definition be_value :: "nat list \<Rightarrow> int" where
  "be_value bs = fold (\<lambda>b acc. 256 * acc + int b) bs 0"

definition pack_laws :: "(int \<Rightarrow> 'e + nat list) \<Rightarrow> bool" where
  "pack_laws pack \<longleftrightarrow> (\<forall>i. 0 \<le> i \<and> i < 2 ^ 256 \<longrightarrow>
     (\<exists>bs. pack i = Inr bs \<and> length bs = 32 \<and> (\<forall>b \<in> set bs. b < 256) \<and> be_value bs = i))"

section \<open>Properties of the encoding\<close>

text \<open>For a precision \<open>18 + exponent\<close> that is positive and a value that fits in 256 bits, \<open>EncodePrice\<close>
  returns 64 hexadecimal digits, which decode to the big-endian bytes of the value scaled to 18
  decimals; for a precision of zero or below it panics.\<close>

theorem EncodePrice_roundtrip:
  assumes "pack_laws pack" and "sint (18 + exponent) \<le> 1000000"
    and "int number * 10 ^ nat (sint (18 + exponent)) < 2 ^ 256"
  shows "if 0 < sint (18 + exponent)
    then \<exists>s bs. EncodePrice pack number exponent = Inr (Inr s) \<and> length s = 64 \<and>
      hex_DecodeString s = Inr bs \<and> be_value bs = int number * 10 ^ nat (sint (18 + exponent))
    else EncodePrice pack number exponent = Inl PanicIndexOutOfRange"
proof (cases "0 < sint (18 + exponent)")
  case True
  let ?v = "int number * 10 ^ nat (sint (18 + exponent))"
  from assms(1,3) obtain bs where bs: "pack ?v = Inr bs" "length bs = 32" "\<forall>b \<in> set bs. b < 256" "be_value bs = ?v"
    unfolding pack_laws_def by (meson mult_nonneg_nonneg of_nat_0_le_iff zero_le_numeral zero_le_power)
  have "length (hex_EncodeToString bs) = 64"
    by (simp add: hex_EncodeToString_def length_concat comp_def sum_list_triv bs(2))
  then show ?thesis
    using True bs hex_roundtrip [OF bs(3)] EncodePrice_value [OF True assms(2), of pack number] by auto
qed (simp add: EncodePrice_panics)

section \<open>The conversion to float64\<close>

lemma bit_length_spec:
  assumes "v < 2 ^ 64"
  shows "v < 2 ^ bit_length v" and "0 < bit_length v \<Longrightarrow> 2 ^ (bit_length v - 1) \<le> v"
proof -
  let ?P = "\<lambda>i. 2 ^ i \<le> v" and ?k = "bit_length v"
  have k: "?k \<le> 64" unfolding bit_length_def by (metis length_takeWhile_le length_upt minus_nat.diff_0)
  show "v < 2 ^ ?k"
  proof (cases "?k = 64")
    case False
    then have "length (takeWhile ?P [0..<64]) < length [0..<64]" using k by (simp add: bit_length_def)
    from nth_length_takeWhile [OF this] show ?thesis
      using False k by (simp add: bit_length_def)
  qed (use assms in simp)
  show "2 ^ (?k - 1) \<le> v" if "0 < ?k"
  proof -
    have "?k - 1 < length (takeWhile ?P [0..<64])" using that by (simp add: bit_length_def)
    then have "takeWhile ?P [0..<64] ! (?k - 1) \<in> set (takeWhile ?P [0..<64])" by (rule nth_mem)
    moreover have "takeWhile ?P [0..<64] ! (?k - 1) = ?k - 1"
      using that k by (subst takeWhile_nth) (simp_all add: bit_length_def)
    ultimately show ?thesis by (metis set_takeWhileD)
  qed
qed

lemma rounded_near:
  fixes v s :: nat
  assumes "f = (if 2 ^ s < 2 * (v mod 2 ^ s) \<or> (2 ^ s = 2 * (v mod 2 ^ s) \<and> odd (v div 2 ^ s))
    then (v div 2 ^ s + 1) * 2 ^ s else v div 2 ^ s * 2 ^ s)"
  shows "2 * \<bar>int f - int v\<bar> \<le> 2 ^ s"
proof -
  define p q r where "p = (2 :: nat) ^ s" and "q = v div p" and "r = v mod p"
  have v: "v = q * p + r" unfolding q_def r_def by (simp only: div_mult_mod_eq)
  have r: "r < p" by (simp add: r_def p_def)
  have "f = q * p + p \<and> p \<le> 2 * r \<or> f = q * p \<and> 2 * r \<le> p"
    using assms unfolding p_def [symmetric] q_def [symmetric] r_def [symmetric]
    by (auto split: if_splits)
  then have "2 * \<bar>int f - int v\<bar> \<le> int p" using v r by auto
  then show ?thesis by (simp add: p_def)
qed

lemma float64_near:
  "2 ^ 53 * \<bar>int (float64_of_uint64 w) - uint w\<bar> \<le> uint w"
proof -
  let ?v = "unat w" let ?s = "bit_length ?v - 53"
  have v64: "?v < 2 ^ 64" using unsigned_less [of w] by simp
  have v: "int ?v = uint w" by simp
  show ?thesis
  proof (cases "?s = 0")
    case True
    then have "float64_of_uint64 w = ?v" by (simp add: float64_of_uint64_def Let_def)
    then show ?thesis by simp
  next
    case False
    then have "2 * \<bar>int (float64_of_uint64 w) - int ?v\<bar> \<le> 2 ^ ?s"
      by (intro rounded_near) (simp add: float64_of_uint64_def Let_def)
    then have "2 ^ 53 * \<bar>int (float64_of_uint64 w) - uint w\<bar> \<le> 2 ^ 52 * 2 ^ ?s" unfolding v by simp
    also have "(2 :: int) ^ 52 * 2 ^ ?s = 2 ^ (bit_length ?v - 1)"
      unfolding power_add [symmetric] using False by (intro arg_cong [where f = "power 2"]) arith
    also have "\<dots> \<le> int ?v"
      using bit_length_spec(2) [OF v64] False
      by (metis diff_is_0_eq le_zero_eq linorder_not_le of_nat_le_iff of_nat_numeral of_nat_power zero_le)
    finally show ?thesis by simp
  qed
qed

text \<open>The conversion of a reported median to \<open>float64\<close> is exact up to \<open>2 ^ 53\<close>, and beyond it is off
  by at most half a unit of the 53-bit mantissa: the encoded value differs from the median by at
  most one part in \<open>2 ^ 53\<close>.\<close>

theorem float64_of_uint64_error:
  "(uint w \<le> 2 ^ 53 \<longrightarrow> int (float64_of_uint64 w) = uint w) \<and>
   2 ^ 53 * \<bar>int (float64_of_uint64 w) - uint w\<bar> \<le> uint w"
proof -
  have "int (float64_of_uint64 w) = uint w" if "uint w \<le> 2 ^ 53"
  proof (cases "uint w = 2 ^ 53")
    case True
    then have v: "unat w = 2 ^ 53" by (simp add: unat_eq_nat_uint)
    have "unat w < 2 ^ bit_length (unat w)" "0 < bit_length (unat w) \<Longrightarrow> 2 ^ (bit_length (unat w) - 1) \<le> unat w"
      using bit_length_spec [of "unat w"] by (simp_all add: v)
    then have "bit_length (unat w) = 54"
      unfolding v using power_strict_increasing_iff [of "2 :: nat" 53 "bit_length (2 ^ 53)"]
        power_increasing_iff [of "2 :: nat" "bit_length (2 ^ 53) - 1" 53]
      by simp
    then show ?thesis using True by (simp add: float64_of_uint64_def v)
  next
    case False
    then have "2 ^ 53 * \<bar>int (float64_of_uint64 w) - uint w\<bar> < 2 ^ 53 * 1"
      using that by (intro le_less_trans [OF float64_near]) simp
    then have "\<bar>int (float64_of_uint64 w) - uint w\<bar> < 1" by simp
    then show ?thesis by simp
  qed
  with float64_near show ?thesis by blast
qed

section \<open>Witnesses\<close>

text \<open>Rational numbers as decimals, with the quotient rounded to the precision of the package.\<close>

definition rat_decimal :: "rat decimal_ops" where
  "rat_decimal = \<lparr>dec_NewFromBigInt = (\<lambda>v e. of_int v * 10 powi sint e), dec_NewFromInt = of_int,
     dec_Div = (\<lambda>a b. of_int (round (a / b * 10 ^ 16)) / 10 ^ 16), dec_Mul = (*), dec_BigInt = rat_trunc\<rparr>"

lemma rat_decimal_laws: "decimal_laws rat_decimal (\<lambda>x. x)"
proof -
  have "\<bar>of_int (round (x * 10 ^ 16)) / 10 ^ 16 - x\<bar> \<le> 1 / (2 * 10 ^ 16)" for x :: rat
  proof -
    have "\<bar>of_int (round (x * 10 ^ 16)) - x * 10 ^ 16\<bar> \<le> 1 / 2" by (rule of_int_round_abs_le)
    then have "\<bar>of_int (round (x * 10 ^ 16)) - x * 10 ^ 16\<bar> / 10 ^ 16 \<le> 1 / 2 / 10 ^ 16"
      by (intro divide_right_mono) simp_all
    moreover have "\<bar>of_int (round (x * 10 ^ 16)) - x * 10 ^ 16\<bar> / 10 ^ 16 =
        \<bar>of_int (round (x * 10 ^ 16)) / 10 ^ 16 - x\<bar>"
      by (simp add: abs_if field_simps)
    ultimately show ?thesis by simp
  qed
  from this [of "a / b" for a b] show ?thesis
    by (auto simp: decimal_laws_def rat_decimal_def DivisionPrecision_def)
qed

theorem Multiply_exact_witness: "Multiply rat_decimal 2000000 (-3) 999000 (-6) = 1998000"
proof -
  have "sint (-3 :: int32) \<noteq> - (2 ^ 31)" by simp
  from Multiply_exact [OF rat_decimal_laws this, of 2000000 999000 "-6"]
  show ?thesis by (simp add: power_int_def power_one_over)
qed

theorem Divide_bound_witness:
  "\<bar>of_int (uint (Divide rat_decimal 6 (-1) 2 (-2))) - (3000 :: rat)\<bar> < 1 + div_slack (-2)"
proof -
  have e: "sint (-2 :: int32) \<noteq> - (2 ^ 31)" by simp
  have x: "3000 = of_int (uint (6 :: uint64)) * 10 powi sint (-1 :: int32) /
      (of_int (uint (2 :: uint64)) * 10 powi sint (-2 :: int32)) * (10 :: rat) powi (- sint (-2 :: int32))"
    by (simp add: power_int_def power_one_over)
  have s: "3000 + 1 + div_slack (-2) \<le> 2 ^ 64" by (simp add: div_slack_def power_int_def)
  from Divide_bound [OF rat_decimal_laws e x s] show ?thesis by simp
qed

theorem Invert_bound_witness:
  "\<bar>of_int (uint (Invert rat_decimal 4 (-2))) - (2500 :: rat)\<bar> < 1 + div_slack (-2)"
proof -
  have e: "sint (-2 :: int32) \<noteq> - (2 ^ 31)" by simp
  have x: "2500 = 1 / (of_int (uint (4 :: uint64)) * 10 powi sint (-2 :: int32)) *
      (10 :: rat) powi (- sint (-2 :: int32))"
    by (simp add: power_int_def power_one_over)
  have s: "2500 + 1 + div_slack (-2) \<le> 2 ^ 64" by (simp add: div_slack_def power_int_def)
  from Invert_bound [OF rat_decimal_laws e x s] show ?thesis by simp
qed

text \<open>Big-endian bytes of a \<open>uint256\<close>.\<close>

definition be_bytes :: "nat \<Rightarrow> int \<Rightarrow> nat list" where
  "be_bytes n i = map (\<lambda>k. nat (i div 256 ^ k mod 256)) (rev [0..<n])"

lemma be_value_append: "be_value (bs @ [b]) = 256 * be_value bs + int b"
  by (simp add: be_value_def)

lemma be_bytes_value: "0 \<le> i \<Longrightarrow> be_value (be_bytes n i) = i mod 256 ^ n"
proof (induction n arbitrary: i)
  case (Suc n)
  have "[0..<Suc n] = 0 # map Suc [0..<n]" by (simp add: map_Suc_upt upt_conv_Cons del: upt_Suc)
  then have "be_bytes (Suc n) i = be_bytes n (i div 256) @ [nat (i mod 256)]"
    by (simp add: be_bytes_def rev_map comp_def zdiv_zmult2_eq del: upt_Suc)
  moreover have "i mod 256 ^ Suc n = 256 * (i div 256 mod 256 ^ n) + i mod 256"
    using zmod_zmult2_eq [of "256 ^ n" i 256] by simp
  ultimately show ?case using Suc by (simp add: be_value_append pos_imp_zdiv_nonneg_iff)
qed (simp add: be_bytes_def be_value_def)

definition pack_uint256 :: "int \<Rightarrow> unit + nat list" where
  "pack_uint256 i = Inr (be_bytes 32 i)"

lemma pack_uint256_laws: "pack_laws pack_uint256"
  by (auto simp: pack_laws_def pack_uint256_def be_bytes_value simp del: of_nat_numeral)
    (auto simp: be_bytes_def nat_less_iff)

theorem EncodePrice_roundtrip_witness:
  "(\<exists>s bs. EncodePrice pack_uint256 123 (-6) = Inr (Inr s) \<and> length s = 64 \<and>
      hex_DecodeString s = Inr bs \<and> be_value bs = 123 * 10 ^ 12) \<and>
   EncodePrice pack_uint256 123 (-18) = Inl PanicIndexOutOfRange"
proof -
  have "sint (18 + -6 :: int32) = 12" "sint (18 + -18 :: int32) = 0" by simp_all
  with EncodePrice_roundtrip [OF pack_uint256_laws, of "-6" 123]
    EncodePrice_roundtrip [OF pack_uint256_laws, of "-18" 123] show ?thesis by simp
qed

end
