(* ===== verification/PriceEncoder.thy ===== *)
theory PriceEncoder
  imports QueryHandler Prices
begin

text \<open>
  \<open>pricefeed/client/price_encoder\<close>: the encoder of one exchange reads the fetcher's responses,
  converts every price to the quote currency of its market and stores it in the shared cache
  (\<open>ExchangeToMarketPrices\<close>, passed and returned explicitly). The clock is the argument \<open>now\<close>.
  What the code logs and counts for a failed response is kept as an event.
\<close>

section \<open>The mutable state\<close>

record adjustByMarketDetails =
  abd_MarketId :: MarketId
  abd_Exponent :: Exponent
  abd_MinExchanges :: uint32

record priceConversionDetails =
  pcd_Invert :: bool
  pcd_Exponent :: Exponent
  pcd_AdjustByMarketDetails :: "adjustByMarketDetails option"

record encoder_mutableState =
  ems_mutableExchangeConfig :: "MutableExchangeMarketConfig option"
  ems_marketToMutableConfig :: "(MarketId, MutableMarketConfig) gomap"

datatype conversion_error =
    ErrMarketConfigNotFound MarketId ExchangeId
  | ErrAdjustByConfigNotFound MarketId ExchangeId
  | ErrMutableConfigNotFound MarketId ExchangeId
  | ErrNoIndexPrice MarketId uint32 nat

definition ems_Update ::
    "encoder_mutableState \<Rightarrow> MutableExchangeMarketConfig \<Rightarrow> (MarketId, MutableMarketConfig) gomap \<Rightarrow>
     encoder_mutableState" where
  "ems_Update ms mutableExchangeConfig marketToMutableConfig =
     ms\<lparr>ems_mutableExchangeConfig := Some mutableExchangeConfig,
        ems_marketToMutableConfig := marketToMutableConfig\<rparr>"

definition GetPriceConversionDetailsForMarket ::
    "encoder_mutableState \<Rightarrow> MarketId \<Rightarrow> go_panic + conversion_error + priceConversionDetails" where
  "GetPriceConversionDetailsForMarket ms marketId =
     (case ems_mutableExchangeConfig ms of
        None \<Rightarrow> Inl NilDereference
      | Some config \<Rightarrow>
          (case map_of (memc_MarketToMarketConfig config) marketId of
             None \<Rightarrow> Inr (Inl (ErrMarketConfigNotFound marketId (memc_Id config)))
           | Some marketConfig \<Rightarrow>
               let adjust =
                 (case mc_AdjustByMarket marketConfig of
                    None \<Rightarrow> Inr None
                  | Some adjustBy \<Rightarrow>
                      (case map_of (ems_marketToMutableConfig ms) adjustBy of
                         None \<Rightarrow> Inl (ErrAdjustByConfigNotFound adjustBy (memc_Id config))
                       | Some adjustByMarketConfig \<Rightarrow>
                           Inr (Some \<lparr>abd_MarketId = adjustBy,
                                      abd_Exponent = mmc_Exponent adjustByMarketConfig,
                                      abd_MinExchanges = mmc_MinExchanges adjustByMarketConfig\<rparr>)))
               in Inr (bindE adjust (\<lambda>adjustDetails.
                    (case map_of (ems_marketToMutableConfig ms) marketId of
                       None \<Rightarrow> Inl (ErrMutableConfigNotFound marketId (memc_Id config))
                     | Some mutableMarketConfig \<Rightarrow>
                         Inr \<lparr>pcd_Invert = mc_Invert marketConfig,
                              pcd_Exponent = mmc_Exponent mutableMarketConfig,
                              pcd_AdjustByMarketDetails = adjustDetails\<rparr>)))))"

section \<open>The encoder\<close>

record PriceEncoder =
  pe_isPastGracePeriod :: bool
  pe_exchangeId :: ExchangeId
  pe_mutableState :: encoder_mutableState

definition encoder_GetExchangeId :: "PriceEncoder \<Rightarrow> ExchangeId" where
  "encoder_GetExchangeId p = pe_exchangeId p"

definition encoder_UpdateMutableExchangeConfig ::
    "PriceEncoder \<Rightarrow> MutableExchangeMarketConfig \<Rightarrow> MutableMarketConfig list \<Rightarrow> updater_error + PriceEncoder" where
  "encoder_UpdateMutableExchangeConfig p newConfig newMarketConfigs =
     (if memc_Id newConfig \<noteq> encoder_GetExchangeId p then Inl ErrExchangeIdMismatch
      else case MutableExchangeMarketConfig_Validate newConfig newMarketConfigs of
        Some err \<Rightarrow> Inl (ErrInvalidExchangeConfig err)
      | None \<Rightarrow>
          let newMarketsToMutableConfigs = build_map mmc_Id (\<lambda>c. c) newMarketConfigs in
          Inr (p\<lparr>pe_mutableState := ems_Update (pe_mutableState p) newConfig newMarketsToMutableConfigs\<rparr>))"

definition NewPriceEncoder ::
    "MutableExchangeMarketConfig \<Rightarrow> MutableMarketConfig list \<Rightarrow> updater_error + PriceEncoder" where
  "NewPriceEncoder mutableExchangeConfig mutableMarketConfigs =
     (let pe = \<lparr>pe_isPastGracePeriod = False, pe_exchangeId = memc_Id mutableExchangeConfig,
                pe_mutableState = \<lparr>ems_mutableExchangeConfig = None, ems_marketToMutableConfig = []\<rparr>\<rparr>
      in encoder_UpdateMutableExchangeConfig pe mutableExchangeConfig mutableMarketConfigs)"

definition MaxPriceAge :: duration where
  "MaxPriceAge = 30000000000"

definition convertPriceUpdate ::
    "('d, 'x) decimal_ops_scheme \<Rightarrow> gotime \<Rightarrow> PriceEncoder \<Rightarrow> ExchangeToMarketPrices \<Rightarrow> MarketPriceTimestamp \<Rightarrow>
     go_panic + conversion_error + MarketPriceTimestamp" where
  "convertPriceUpdate D now p etmp mpt =
     bindE (GetPriceConversionDetailsForMarket (pe_mutableState p) (mpt_MarketId mpt))
       (\<lambda>details. Inr (bindE details (\<lambda>conversionDetails.
          bindE
            (case pcd_AdjustByMarketDetails conversionDetails of
               None \<Rightarrow>
                 Inr (if pcd_Invert conversionDetails
                      then Invert D (mpt_Price mpt) (pcd_Exponent conversionDetails)
                      else mpt_Price mpt)
             | Some adjustBy \<Rightarrow>
                 let (adjustByIndexPrice, numPricesMedianized) =
                   GetIndexPrice etmp (abd_MarketId adjustBy) (time_Add now (dur_neg MaxPriceAge)) Median_uint64
                 in if numPricesMedianized < unat (abd_MinExchanges adjustBy)
                    then Inl (ErrNoIndexPrice (abd_MarketId adjustBy) (abd_MinExchanges adjustBy)
                                numPricesMedianized)
                    else Inr (if pcd_Invert conversionDetails
                              then Divide D adjustByIndexPrice (abd_Exponent adjustBy)
                                     (mpt_Price mpt) (pcd_Exponent conversionDetails)
                              else Multiply D (mpt_Price mpt) (pcd_Exponent conversionDetails)
                                     adjustByIndexPrice (abd_Exponent adjustBy)))
            (\<lambda>price. Inr \<lparr>mpt_MarketId = mpt_MarketId mpt, mpt_Price = price,
                           mpt_LastUpdatedAt = mpt_LastUpdatedAt mpt\<rparr>))))"

section \<open>Failed responses\<close>

text \<open>The reasons under which failures are counted; \<open>OtherFailure\<close> is the last branch, without a reason.\<close>

datatype failure_reason =
    HttpGetTimeout | RateLimit | ExchangeSpecificError | HttpGet5xx | HttpGetHangup | OtherFailure

datatype encoder_event =
    PriceConverted
  | ConversionFailed conversion_error bool
  | FetchFailed failure_reason

text \<open>The text of an error, as \<open>Error()\<close> gives it.\<close>

fun query_error_text :: "query_error \<Rightarrow> string" where
  "query_error_text ErrNoMarketIds = ''at least one marketId must be queried''"
| "query_error_text (ErrNoConfigForMarket m) = ''no market config for market: '' @ decimal_digits (unat m)"
| "query_error_text (ErrNoExponentForMarket m) =
     ''no market price exponent for id: '' @ decimal_digits (unat m)"
| "query_error_text (ErrGet e) = ne_Text e"
| "query_error_text ErrRateLimitingHandler = ''status 429 - rate limit exceeded''"
| "query_error_text (ErrUnexpectedStatus n) = ''Unexpected response status code of: '' @ decimal_digits n"
| "query_error_text (ErrExchange e msg) = e @ '' exchange error: '' @ msg"
| "query_error_text (ErrNoMarketIdForTicker t) =
     ''severe unexpected error: no market id for ticker: '' @ t"

fun fetch_error_text :: "query_error fetch_error \<Rightarrow> string" where
  "fetch_error_text (ErrQuery e) = query_error_text e"
| "fetch_error_text (ErrZeroPrice e m) =
     ''invalid price of 0 for exchange: '' @ CHR 0x27 # e @ CHR 0x27 # '' and market: '' @ decimal_digits (unat m)"

text \<open>What \<open>errors.Is\<close> and \<open>errors.As\<close> find; the error variables are compared by identity.\<close>

fun is_DeadlineExceeded :: "query_error fetch_error \<Rightarrow> bool" where
  "is_DeadlineExceeded (ErrQuery (ErrGet e)) = ne_DeadlineExceeded e"
| "is_DeadlineExceeded _ = False"

fun is_ECONNRESET :: "query_error fetch_error \<Rightarrow> bool" where
  "is_ECONNRESET (ErrQuery (ErrGet e)) = ne_ConnReset e"
| "is_ECONNRESET _ = False"

text \<open>
  \<open>constants.ErrRateLimiting\<close> is a variable of its own, which no error of the fetcher wraps: the
  handler returns the variable of the same name of its own package, \<open>ErrRateLimitingHandler\<close>.
\<close>

fun is_constants_ErrRateLimiting :: "query_error fetch_error \<Rightarrow> bool" where
  "is_constants_ErrRateLimiting _ = False"

fun as_ExchangeError :: "query_error fetch_error \<Rightarrow> bool" where
  "as_ExchangeError (ErrQuery (ErrExchange e msg)) = True"
| "as_ExchangeError _ = False"

text \<open>
  The patterns of \<open>IsGenericExchangeError\<close>, each a sequence of character classes that may occur
  anywhere in the text; the pattern of a status code ends with at least one digit, a point in a
  pattern stands for any character but the line feed.
\<close>

definition lit :: "string \<Rightarrow> (char \<Rightarrow> bool) list" where
  "lit s = map (\<lambda>c d. d = c) s"

fun match_prefix :: "(char \<Rightarrow> bool) list \<Rightarrow> string \<Rightarrow> bool" where
  "match_prefix [] s = True"
| "match_prefix (p # ps) [] = False"
| "match_prefix (p # ps) (c # s) = (p c \<and> match_prefix ps s)"

fun match_anywhere :: "(char \<Rightarrow> bool) list \<Rightarrow> string \<Rightarrow> bool" where
  "match_anywhere ps [] = match_prefix ps []"
| "match_anywhere ps (c # s) = (match_prefix ps (c # s) \<or> match_anywhere ps s)"

definition exchangeSideErrorResponsePatterns :: "(char \<Rightarrow> bool) list list" where
  "exchangeSideErrorResponsePatterns =
     [lit ''http2: server sent GOAWAY and closed the connection'',
      lit ''http2: client connection force closed via ClientConn'' @ [\<lambda>c. c \<noteq> CHR 0x0A] @ lit ''Close'',
      lit ''unexpected EOF'',
      lit ''Unexpected response status code of: '' @ [\<lambda>c. 48 \<le> (of_char c :: nat) \<and> (of_char c :: nat) \<le> 57],
      lit ''Failed to get entities from store'',
      lit ''request timeout'',
      [\<lambda>c. c = CHR ''I'' \<or> c = CHR ''i''] @ lit ''nternal error'',
      lit ''INTERNAL_ERROR'',
      lit ''SYS_ERROR'']"

definition IsGenericExchangeError :: "string \<Rightarrow> bool" where
  "IsGenericExchangeError text = list_ex (\<lambda>p. match_anywhere p text) exchangeSideErrorResponsePatterns"

section \<open>Processing a response\<close>

definition encoder_UpdatePrice ::
    "('d, 'x) decimal_ops_scheme \<Rightarrow> gotime \<Rightarrow> PriceEncoder \<Rightarrow> ExchangeToMarketPrices \<Rightarrow> MarketPriceTimestamp \<Rightarrow>
     go_panic + ExchangeToMarketPrices \<times> encoder_event" where
  "encoder_UpdatePrice D now p etmp mpt =
     bindE (convertPriceUpdate D now p etmp mpt)
       (\<lambda>result. case result of
          Inl err \<Rightarrow> Inr (etmp, ConversionFailed err (pe_isPastGracePeriod p))
        | Inr price \<Rightarrow>
            bindE (ExchangeToMarketPrices_UpdatePrice etmp (encoder_GetExchangeId p) price)
              (\<lambda>etmp'. Inr (etmp', PriceConverted)))"

definition ProcessPriceFetcherResponse ::
    "('d, 'x) decimal_ops_scheme \<Rightarrow> gotime \<Rightarrow> PriceEncoder \<Rightarrow> ExchangeToMarketPrices \<Rightarrow>
     query_error PriceFetcherSubtaskResponse option \<Rightarrow> go_panic + ExchangeToMarketPrices \<times> encoder_event" where
  "ProcessPriceFetcherResponse D now p etmp response =
     (case response of
        None \<Rightarrow> Inl PanicNilResponse
      | Some r \<Rightarrow>
          (case psr_Err r of
             None \<Rightarrow>
               (case psr_Price r of
                  None \<Rightarrow> Inl NilDereference
                | Some price \<Rightarrow> encoder_UpdatePrice D now p etmp price)
           | Some err \<Rightarrow>
               Inr (etmp, FetchFailed
                 (if is_DeadlineExceeded err then HttpGetTimeout
                  else if is_constants_ErrRateLimiting err then RateLimit
                  else if as_ExchangeError err then ExchangeSpecificError
                  else if IsGenericExchangeError (fetch_error_text err) then HttpGet5xx
                  else if is_ECONNRESET err then HttpGetHangup
                  else OtherFailure))))"

section \<open>Lemmas\<close>

definition encoder_config :: "PriceEncoder \<Rightarrow> MutableExchangeMarketConfig option" where
  "encoder_config p = ems_mutableExchangeConfig (pe_mutableState p)"

text \<open>An encoder that was created and updated: its configuration passed validation.\<close>

definition encoder_ok :: "PriceEncoder \<Rightarrow> bool" where
  "encoder_ok p \<longleftrightarrow> (\<exists>c cfgs. encoder_config p = Some c \<and> memc_Id c = pe_exchangeId p \<and>
     ems_marketToMutableConfig (pe_mutableState p) = build_map mmc_Id (\<lambda>c. c) cfgs \<and> markets_known c cfgs)"

lemma encoder_update_spec:
  "(memc_Id c \<noteq> encoder_GetExchangeId p \<longrightarrow>
      encoder_UpdateMutableExchangeConfig p c cfgs = Inl ErrExchangeIdMismatch) \<and>
    (\<forall>e. memc_Id c = encoder_GetExchangeId p \<and> MutableExchangeMarketConfig_Validate c cfgs = Some e \<longrightarrow>
      encoder_UpdateMutableExchangeConfig p c cfgs = Inl (ErrInvalidExchangeConfig e)) \<and>
    (memc_Id c = encoder_GetExchangeId p \<and> MutableExchangeMarketConfig_Validate c cfgs = None \<longrightarrow>
      (\<exists>p'. encoder_UpdateMutableExchangeConfig p c cfgs = Inr p' \<and> encoder_config p' = Some c \<and>
        encoder_GetExchangeId p' = encoder_GetExchangeId p \<and> encoder_ok p'))"
  by (auto simp: encoder_UpdateMutableExchangeConfig_def encoder_GetExchangeId_def encoder_config_def
      ems_Update_def encoder_ok_def simp flip: MutableExchangeMarketConfig_Validate_None)

lemma NewPriceEncoder_ok:
  assumes "NewPriceEncoder c cfgs = Inr p"
  shows "encoder_ok p" "encoder_config p = Some c" "encoder_GetExchangeId p = memc_Id c"
  using assms unfolding NewPriceEncoder_def Let_def
  by (auto simp: encoder_UpdateMutableExchangeConfig_def encoder_GetExchangeId_def encoder_config_def
      ems_Update_def encoder_ok_def MutableExchangeMarketConfig_Validate_None
      split: if_splits option.splits)

text \<open>With a valid configuration the conversion details of every configured market exist.\<close>

lemma conversion_details_total:
  assumes "encoder_ok p" and "encoder_config p = Some c" and "memc_ok c"
  shows "case map_of (memc_MarketToMarketConfig c) m of
      None \<Rightarrow> GetPriceConversionDetailsForMarket (pe_mutableState p) m =
        Inr (Inl (ErrMarketConfigNotFound m (memc_Id c)))
    | Some mc \<Rightarrow> \<exists>d. GetPriceConversionDetailsForMarket (pe_mutableState p) m = Inr (Inr d) \<and>
        pcd_Invert d = mc_Invert mc \<and>
        map_option abd_MarketId (pcd_AdjustByMarketDetails d) = mc_AdjustByMarket mc"
proof (cases "map_of (memc_MarketToMarketConfig c) m")
  case (Some mc)
  from assms(1,2) obtain cfgs where cfgs:
    "ems_marketToMutableConfig (pe_mutableState p) = build_map mmc_Id (\<lambda>c. c) cfgs" "markets_known c cfgs"
    by (auto simp: encoder_ok_def)
  let ?m = "build_map mmc_Id (\<lambda>c. c) cfgs"
  from Some have "(m, mc) \<in> set (memc_MarketToMarketConfig c)" by (rule map_of_SomeD)
  with cfgs(2) obtain k where k: "map_of ?m m = Some k"
    and adj: "\<And>a. mc_AdjustByMarket mc = Some a \<Longrightarrow> a \<in> mmc_Id ` set cfgs"
    by (fastforce simp: markets_known_def)
  have "\<exists>x. map_of ?m a = Some x" if "mc_AdjustByMarket mc = Some a" for a
    using adj [OF that] map_of_build_map_known [of mmc_Id "\<lambda>c. c" cfgs a] by (cases "map_of ?m a") auto
  then show ?thesis
    using Some k assms(2) cfgs(1)
    by (cases "mc_AdjustByMarket mc")
      (auto simp: GetPriceConversionDetailsForMarket_def encoder_config_def Let_def)
qed (use assms(2) in \<open>simp add: GetPriceConversionDetailsForMarket_def encoder_config_def\<close>)

text \<open>The price that a conversion computes, given the conversion details and the cache.\<close>

definition converted_price ::
    "('d, 'x) decimal_ops_scheme \<Rightarrow> gotime \<Rightarrow> ExchangeToMarketPrices \<Rightarrow> priceConversionDetails \<Rightarrow> uint64 \<Rightarrow>
     conversion_error + uint64" where
  "converted_price D now etmp d price =
     (case pcd_AdjustByMarketDetails d of
        None \<Rightarrow> Inr (if pcd_Invert d then Invert D price (pcd_Exponent d) else price)
      | Some a \<Rightarrow>
          (case GetIndexPrice etmp (abd_MarketId a) (now - MaxPriceAge) Median_uint64 of
             (index, n) \<Rightarrow>
               if n < unat (abd_MinExchanges a)
               then Inl (ErrNoIndexPrice (abd_MarketId a) (abd_MinExchanges a) n)
               else Inr (if pcd_Invert d then Divide D index (abd_Exponent a) price (pcd_Exponent d)
                         else Multiply D price (pcd_Exponent d) index (abd_Exponent a))))"

lemma dur_neg_MaxPriceAge: "time_Add now (dur_neg MaxPriceAge) = now - MaxPriceAge"
  by (simp add: go_defs MaxPriceAge_def)

lemma convertPriceUpdate_details:
  assumes "GetPriceConversionDetailsForMarket (pe_mutableState p) (mpt_MarketId q) = Inr (Inr d)"
  shows "convertPriceUpdate D now p etmp q = Inr (map_sum id (\<lambda>v. q\<lparr>mpt_Price := v\<rparr>)
    (converted_price D now etmp d (mpt_Price q)))"
proof -
  have "\<lparr>mpt_MarketId = mpt_MarketId q, mpt_Price = v, mpt_LastUpdatedAt = mpt_LastUpdatedAt q\<rparr> = q\<lparr>mpt_Price := v\<rparr>" for v
    by (cases q) simp
  moreover have "bindE r (\<lambda>v. Inr (f v)) = map_sum id f r" for r :: "conversion_error + uint64" and f :: "uint64 \<Rightarrow> MarketPriceTimestamp"
    by (cases r) simp_all
  ultimately show ?thesis
    unfolding convertPriceUpdate_def assms bindE.simps dur_neg_MaxPriceAge
    by (simp add: converted_price_def split: option.splits prod.splits)
qed

lemma convertPriceUpdate_cases:
  assumes "encoder_ok p" and "encoder_config p = Some c" and "memc_ok c"
  shows "(\<exists>err. convertPriceUpdate D now p etmp q = Inr (Inl err)) \<or>
    (\<exists>mc d v. map_of (memc_MarketToMarketConfig c) (mpt_MarketId q) = Some mc \<and>
      GetPriceConversionDetailsForMarket (pe_mutableState p) (mpt_MarketId q) = Inr (Inr d) \<and>
      converted_price D now etmp d (mpt_Price q) = Inr v \<and>
      convertPriceUpdate D now p etmp q = Inr (Inr (q\<lparr>mpt_Price := v\<rparr>)))"
proof (cases "map_of (memc_MarketToMarketConfig c) (mpt_MarketId q)")
  case None
  then show ?thesis
    using conversion_details_total [OF assms, of "mpt_MarketId q"] by (simp add: convertPriceUpdate_def)
next
  case (Some mc)
  then obtain d where d: "GetPriceConversionDetailsForMarket (pe_mutableState p) (mpt_MarketId q) = Inr (Inr d)"
    using conversion_details_total [OF assms, of "mpt_MarketId q"] by auto
  show ?thesis
    using Some d convertPriceUpdate_details [OF d, of D now etmp]
    by (cases "converted_price D now etmp d (mpt_Price q)") auto
qed

section \<open>Properties\<close>

text \<open>C30: With a valid configuration the encoder never panics on a response of the fetcher. A response
  with an error, and a price that cannot be converted, leave the cache as it is; a price of a
  configured market is converted (unchanged, inverted, or adjusted by the index price of the
  adjust-by market, which needs enough recent exchanges) and stored in the one cell of its exchange
  and market, unless that cell is newer.\<close>

theorem ProcessPriceFetcherResponse_spec:
  assumes "encoder_ok p" and "encoder_config p = Some c" and "memc_ok c"
    and "etmp_ok etmp" and "pe_exchangeId p \<in> fst ` set (etmp_ExchangeMarketPrices etmp)"
    and "psr_Err r = None \<longleftrightarrow> psr_Price r \<noteq> None"
  shows "\<exists>etmp' ev. ProcessPriceFetcherResponse D now p etmp (Some r) = Inr (etmp', ev) \<and> etmp_ok etmp' \<and>
    (if ev = PriceConverted
     then \<exists>q d v. psr_Price r = Some q \<and> mpt_MarketId q \<in> fst ` set (memc_MarketToMarketConfig c) \<and>
       GetPriceConversionDetailsForMarket (pe_mutableState p) (mpt_MarketId q) = Inr (Inr d) \<and>
       converted_price D now etmp d (mpt_Price q) = Inr v \<and>
       (\<forall>k. client_cell etmp' k = (if k = (pe_exchangeId p, mpt_MarketId q)
          then Some (updated (cell (client_cell etmp k)) v (mpt_LastUpdatedAt q)) else client_cell etmp k))
     else etmp' = etmp)"
proof (cases "psr_Price r")
  case None
  then obtain err where "psr_Err r = Some err" using assms(6) by auto
  then show ?thesis using assms(4) by (simp add: ProcessPriceFetcherResponse_def)
next
  case (Some q)
  then have run: "ProcessPriceFetcherResponse D now p etmp (Some r) = encoder_UpdatePrice D now p etmp q"
    using assms(6) by (simp add: ProcessPriceFetcherResponse_def)
  from convertPriceUpdate_cases [OF assms(1-3), of D now etmp q] show ?thesis
  proof (elim disjE exE conjE)
    fix err assume "convertPriceUpdate D now p etmp q = Inr (Inl err)"
    then show ?thesis using assms(4) run by (simp add: encoder_UpdatePrice_def)
  next
    fix mc d v
    assume mc: "map_of (memc_MarketToMarketConfig c) (mpt_MarketId q) = Some mc"
      and d: "GetPriceConversionDetailsForMarket (pe_mutableState p) (mpt_MarketId q) = Inr (Inr d)"
      and v: "converted_price D now etmp d (mpt_Price q) = Inr v"
      and conv: "convertPriceUpdate D now p etmp q = Inr (Inr (q\<lparr>mpt_Price := v\<rparr>))"
    let ?k = "(pe_exchangeId p, mpt_MarketId q)" and ?t = "mpt_LastUpdatedAt q"
    have known: "client_known etmp ?k" using assms(5) by (simp add: client_known_def)
    then have "ProcessPriceFetcherResponse D now p etmp (Some r) = Inr (client_put ?k v ?t etmp, PriceConverted)"
      using conv run UpdatePrice_put [of etmp "pe_exchangeId p" "q\<lparr>mpt_Price := v\<rparr>"]
      by (simp add: encoder_UpdatePrice_def encoder_GetExchangeId_def)
    moreover have "mpt_MarketId q \<in> fst ` set (memc_MarketToMarketConfig c)"
      using mc by (force dest: map_of_SomeD)
    ultimately show ?thesis
      using Some d v client_put_cells [OF assms(4) known, of v ?t] by auto
  qed
qed

text \<open>A query that the exchange answers with status 429 is never counted as rate limited: the query
  handler returns an error variable of its own, the encoder tests for another one of the same
  name, and the failure is counted without a reason.\<close>

theorem rate_limit_not_recognised:
  "ProcessPriceFetcherResponse D now p etmp
     (Some \<lparr>psr_Price = None, psr_Err = Some (ErrQuery ErrRateLimitingHandler)\<rparr>) = Inr (etmp, FetchFailed OtherFailure) \<and>
   ProcessPriceFetcherResponse D now p etmp response \<noteq> Inr (etmp', FetchFailed RateLimit)"
proof
  have "IsGenericExchangeError (fetch_error_text (ErrQuery ErrRateLimitingHandler)) = False" by code_simp
  then show "ProcessPriceFetcherResponse D now p etmp
     (Some \<lparr>psr_Price = None, psr_Err = Some (ErrQuery ErrRateLimitingHandler)\<rparr>) = Inr (etmp, FetchFailed OtherFailure)"
    by (simp add: ProcessPriceFetcherResponse_def)
  show "ProcessPriceFetcherResponse D now p etmp response \<noteq> Inr (etmp', FetchFailed RateLimit)"
    by (auto simp: ProcessPriceFetcherResponse_def encoder_UpdatePrice_def split: option.splits sum.splits if_splits)
qed

end
