(* ===== verification/PriceUpdater.thy ===== *)
theory PriceUpdater
  imports ServerPrices PriceEncoder
begin

text \<open>
  The price updater of \<open>pricefeed/client/subtask_runner.go\<close>: it reads all prices of the client cache,
  turns them into one request and sends it to the server. The gRPC transport is taken as a direct
  call of the handler. The theory joins the parts of the price daemon: fetcher and encoder over the
  channel, client cache and server cache over the request.
\<close>

section \<open>The request\<close>

definition add_exchange_price ::
    "ExchangeId \<Rightarrow> MarketPriceTimestamp \<Rightarrow> (MarketId, MarketPriceUpdate) gomap \<Rightarrow> (MarketId, MarketPriceUpdate) gomap" where
  "add_exchange_price exchangeId mpt marketPriceUpdateMap =
     (let m = (case map_of marketPriceUpdateMap (mpt_MarketId mpt) of
                 None \<Rightarrow> mput (mpt_MarketId mpt)
                   \<lparr>mpu_MarketId = mpt_MarketId mpt, mpu_ExchangePrices = []\<rparr> marketPriceUpdateMap
               | Some _ \<Rightarrow> marketPriceUpdateMap);
          exchangePrice = \<lparr>ep_ExchangeId = exchangeId, ep_Price = mpt_Price mpt,
                           ep_LastUpdateTime = Some (mpt_LastUpdatedAt mpt)\<rparr>
      in case map_of m (mpt_MarketId mpt) of
           None \<Rightarrow> m
         | Some u \<Rightarrow> mput (mpt_MarketId mpt)
             (u\<lparr>mpu_ExchangePrices := mpu_ExchangePrices u @ [exchangePrice]\<rparr>) m)"

definition transformPriceUpdates :: "(ExchangeId, MarketPriceTimestamp list) gomap \<Rightarrow> MarketPriceUpdate list" where
  "transformPriceUpdates updates =
     map snd (fold (\<lambda>(exchangeId, mpts). fold (add_exchange_price exchangeId) mpts) updates [])"

datatype updater_loop_error = ErrEmptyMarketPriceUpdate | ErrServer server_error

text \<open>The task loop: the server cache after it, and the error it returns.\<close>

definition RunPriceUpdaterTaskLoop ::
    "ExchangeToMarketPrices \<Rightarrow> MarketToExchangePrices \<Rightarrow>
     go_panic + MarketToExchangePrices \<times> updater_loop_error option" where
  "RunPriceUpdaterTaskLoop etmp server =
     (let request = transformPriceUpdates (ExchangeToMarketPrices_GetAllPrices etmp) in
      if length request > 0
      then bindE (UpdateMarketPrices (Some server) request)
             (\<lambda>(server', err). Inr (server', map_option ErrServer err))
      else Inr (server, Some ErrEmptyMarketPriceUpdate))"

section \<open>The request holds every cell of the cache once\<close>

lemma add_exchange_price_eq:
  "add_exchange_price e q m = mput (mpt_MarketId q)
     (let u = (case map_of m (mpt_MarketId q) of None \<Rightarrow> \<lparr>mpu_MarketId = mpt_MarketId q, mpu_ExchangePrices = []\<rparr> | Some u \<Rightarrow> u)
      in u\<lparr>mpu_ExchangePrices := mpu_ExchangePrices u @ [\<lparr>ep_ExchangeId = e, ep_Price = mpt_Price q,
           ep_LastUpdateTime = Some (mpt_LastUpdatedAt q)\<rparr>]\<rparr>) m"
  by (auto simp: add_exchange_price_def Let_def split: option.splits)

text \<open>The updates a map of market updates asks for, as keyed updates of the server cache.\<close>

definition price_puts :: "MarketId \<Rightarrow> ExchangePrice list \<Rightarrow> ((uint32 \<times> ExchangeId) \<times> uint64 \<times> gotime) set" where
  "price_puts k eps = (\<lambda>ep. ((k, ep_ExchangeId ep), ep_Price ep, the (ep_LastUpdateTime ep))) ` set eps"

definition map_puts :: "(MarketId, MarketPriceUpdate) gomap \<Rightarrow> ((uint32 \<times> ExchangeId) \<times> uint64 \<times> gotime) set" where
  "map_puts m = (\<Union>k. case map_of m k of None \<Rightarrow> {} | Some u \<Rightarrow> price_puts k (mpu_ExchangePrices u))"

definition updates_map_ok :: "(MarketId, MarketPriceUpdate) gomap \<Rightarrow> bool" where
  "updates_map_ok m \<longleftrightarrow> gomap_ok m \<and> (\<forall>k u. map_of m k = Some u \<longrightarrow> mpu_MarketId u = k \<and>
     (\<forall>ep \<in> set (mpu_ExchangePrices u). ep_LastUpdateTime ep \<noteq> None))"

lemma add_exchange_price_ok:
  assumes "updates_map_ok m"
  shows "updates_map_ok (add_exchange_price e q m)"
  using assms by (auto simp: updates_map_ok_def add_exchange_price_eq Let_def split: option.splits)

lemma add_exchange_price_puts:
  "map_puts (add_exchange_price e q m) =
    insert ((mpt_MarketId q, e), mpt_Price q, mpt_LastUpdatedAt q) (map_puts m)"
proof -
  let ?m = "add_exchange_price e q m" and ?x = "((mpt_MarketId q, e), mpt_Price q, mpt_LastUpdatedAt q)"
  let ?at = "\<lambda>m k. case map_of m k of None \<Rightarrow> {} | Some u \<Rightarrow> price_puts k (mpu_ExchangePrices u)"
  have "?at ?m k = (if k = mpt_MarketId q then insert ?x (?at m k) else ?at m k)" for k
    by (simp add: add_exchange_price_eq Let_def price_puts_def split: option.splits)
  then show ?thesis unfolding map_puts_def by (auto split: if_splits)
qed

lemma fold_add_exchange_price:
  assumes "updates_map_ok m"
  shows "updates_map_ok (fold (add_exchange_price e) qs m) \<and>
    map_puts (fold (add_exchange_price e) qs m) =
      (\<lambda>q. ((mpt_MarketId q, e), mpt_Price q, mpt_LastUpdatedAt q)) ` set qs \<union> map_puts m"
  using assms
  by (induction qs arbitrary: m) (auto simp: add_exchange_price_ok add_exchange_price_puts)

lemma fold_all_updates:
  assumes "updates_map_ok m"
  shows "updates_map_ok (fold (\<lambda>(e, qs). fold (add_exchange_price e) qs) us m) \<and>
    map_puts (fold (\<lambda>(e, qs). fold (add_exchange_price e) qs) us m) =
      (\<Union>x \<in> set us. (\<lambda>q. ((mpt_MarketId q, fst x), mpt_Price q, mpt_LastUpdatedAt q)) ` set (snd x)) \<union> map_puts m"
  using assms
proof (induction us arbitrary: m)
  case (Cons x us)
  obtain e qs where x: "x = (e, qs)" by (cases x)
  note step = fold_add_exchange_price [OF Cons.prems, of e qs]
  then show ?case using Cons.IH [of "fold (add_exchange_price e) qs m"] by (auto simp: x)
qed simp

lemma request_puts_map:
  assumes "updates_map_ok m"
  shows "set (request_puts (map snd m)) = map_puts m"
proof -
  have entry: "mpu_MarketId (snd x) = fst x" "map_of m (fst x) = Some (snd x)"
    "\<forall>ep \<in> set (mpu_ExchangePrices (snd x)). ep_LastUpdateTime ep \<noteq> None" if "x \<in> set m" for x
  proof -
    show s: "map_of m (fst x) = Some (snd x)"
      using that assms by (intro map_of_is_SomeI) (simp_all add: updates_map_ok_def)
    show "mpu_MarketId (snd x) = fst x"
      "\<forall>ep \<in> set (mpu_ExchangePrices (snd x)). ep_LastUpdateTime ep \<noteq> None"
      using assms s unfolding updates_map_ok_def by blast+
  qed
  have puts: "set (exchange_puts k eps) = price_puts k eps"
    if "\<forall>ep \<in> set eps. ep_LastUpdateTime ep \<noteq> None" for k eps
    using that by (force simp: exchange_puts_def price_puts_def split: option.splits)
  have "set (request_puts (map snd m)) = (\<Union>x \<in> set m. price_puts (fst x) (mpu_ExchangePrices (snd x)))"
    unfolding request_puts_def using entry puts by simp
  also have "\<dots> = map_puts m"
  proof (intro equalityI subsetI)
    fix y assume "y \<in> (\<Union>x \<in> set m. price_puts (fst x) (mpu_ExchangePrices (snd x)))"
    then obtain x where "x \<in> set m" "y \<in> price_puts (fst x) (mpu_ExchangePrices (snd x))" by blast
    then show "y \<in> map_puts m" using entry(2) unfolding map_puts_def by (intro UN_I [of "fst x"]) simp_all
  next
    fix y assume "y \<in> map_puts m"
    then obtain k u where "map_of m k = Some u" "y \<in> price_puts k (mpu_ExchangePrices u)"
      unfolding map_puts_def by (auto split: option.splits)
    then show "y \<in> (\<Union>x \<in> set m. price_puts (fst x) (mpu_ExchangePrices (snd x)))"
      by (intro UN_I [of "(k, u)"]) (simp_all add: map_of_SomeD)
  qed
  finally show ?thesis .
qed

text \<open>The cells of the client cache, keyed as the server keys them.\<close>

definition client_cells :: "ExchangeToMarketPrices \<Rightarrow> ((uint32 \<times> ExchangeId) \<times> uint64 \<times> gotime) set" where
  "client_cells etmp = {((m, e), pt_Price pt, pt_LastUpdateTime pt) | m e pt. client_cell etmp (e, m) = Some pt}"

lemma request_of_cache:
  assumes "etmp_ok etmp"
  shows "set (request_puts (transformPriceUpdates (ExchangeToMarketPrices_GetAllPrices etmp))) = client_cells etmp"
proof -
  let ?us = "ExchangeToMarketPrices_GetAllPrices etmp"
  have "updates_map_ok []" and "map_puts [] = {}" by (simp_all add: updates_map_ok_def map_puts_def)
  with fold_all_updates [of "[]" ?us] have
    "set (request_puts (transformPriceUpdates ?us)) =
      (\<Union>x \<in> set ?us. (\<lambda>q. ((mpt_MarketId q, fst x), mpt_Price q, mpt_LastUpdatedAt q)) ` set (snd x))"
    by (simp add: transformPriceUpdates_def request_puts_map)
  also have "\<dots> = {((m, e), pt_Price pt, pt_LastUpdateTime pt) | m e pt mtp.
      (e, mtp) \<in> set (etmp_ExchangeMarketPrices etmp) \<and> (m, pt) \<in> set (mtp_MarketToPriceTimestamp mtp)}"
    by (force simp: ExchangeToMarketPrices_GetAllPrices_def MarketToPrice_GetAllPrices_def)
  also have "\<dots> = client_cells etmp"
  proof -
    have "client_cell etmp (e, m) = Some pt \<longleftrightarrow> (\<exists>mtp. (e, mtp) \<in> set (etmp_ExchangeMarketPrices etmp) \<and>
        (m, pt) \<in> set (mtp_MarketToPriceTimestamp mtp))" for e m pt
    proof (cases "map_of (etmp_ExchangeMarketPrices etmp) e")
      case None
      then have "(e, mtp) \<notin> set (etmp_ExchangeMarketPrices etmp)" for mtp
        by (auto simp: map_of_None_iff_key image_iff)
      with None show ?thesis by (simp add: client_cell_def)
    next
      case (Some mtp)
      have "mtp' = mtp" if "(e, mtp') \<in> set (etmp_ExchangeMarketPrices etmp)" for mtp'
        using that Some assms by (simp add: etmp_ok_def)
      moreover have "client_cell etmp (e, m) = Some pt \<longleftrightarrow> (m, pt) \<in> set (mtp_MarketToPriceTimestamp mtp)"
        using Some map_of_eq_Some_iff_set [OF etmp_okD [OF assms Some]] by (simp add: client_cell_def)
      ultimately show ?thesis using map_of_SomeD [OF Some] by blast
    qed
    then show ?thesis by (auto simp: client_cells_def)
  qed
  finally show ?thesis .
qed

section \<open>The request and the server cache\<close>

lemma request_times_set:
  assumes "u \<in> set (transformPriceUpdates us)" and "ep \<in> set (mpu_ExchangePrices u)"
  shows "ep_LastUpdateTime ep \<noteq> None"
    and "((mpu_MarketId u, ep_ExchangeId ep), ep_Price ep, the (ep_LastUpdateTime ep)) \<in>
      set (request_puts (transformPriceUpdates us))"
proof -
  let ?m = "fold (\<lambda>(e, qs). fold (add_exchange_price e) qs) us []"
  have ok: "updates_map_ok ?m" using fold_all_updates [of "[]" us] by (simp add: updates_map_ok_def)
  from assms(1) obtain k where "(k, u) \<in> set ?m" by (auto simp: transformPriceUpdates_def)
  then have "map_of ?m k = Some u" using ok by (simp add: updates_map_ok_def)
  with ok assms(2) show t: "ep_LastUpdateTime ep \<noteq> None" unfolding updates_map_ok_def by blast
  then obtain t where "ep_LastUpdateTime ep = Some t" by blast
  then show "((mpu_MarketId u, ep_ExchangeId ep), ep_Price ep, the (ep_LastUpdateTime ep)) \<in>
      set (request_puts (transformPriceUpdates us))"
    using assms by (force simp: request_puts_def exchange_puts_def)
qed

lemma cache_request_valid:
  assumes "etmp_ok etmp" and "client_cells etmp \<noteq> {}" and "\<forall>x \<in> client_cells etmp. fst (snd x) \<noteq> 0"
  shows "validateMarketPricesUpdatesMessage (transformPriceUpdates (ExchangeToMarketPrices_GetAllPrices etmp)) = None"
proof -
  let ?req = "transformPriceUpdates (ExchangeToMarketPrices_GetAllPrices etmp)"
  have puts: "set (request_puts ?req) = client_cells etmp" by (rule request_of_cache [OF assms(1)])
  then have "?req \<noteq> []" using assms(2) by (auto simp: request_puts_def)
  moreover have "ep_Price ep \<noteq> 0 \<and> ep_LastUpdateTime ep \<noteq> None"
    if "u \<in> set ?req" "ep \<in> set (mpu_ExchangePrices u)" for u ep
    using request_times_set [OF that] assms(3) puts by fastforce
  ultimately show ?thesis by (auto simp: validate_None_iff)
qed

text \<open>What the request leaves in a cell of a cache: the client's cell, if it is newer.\<close>

lemma request_cell:
  assumes "etmp_ok etmp"
  shows "cell_after c (updates_of (m, e) (request_puts (transformPriceUpdates
      (ExchangeToMarketPrices_GetAllPrices etmp)))) =
    (case client_cell etmp (e, m) of None \<Rightarrow> c
     | Some pt \<Rightarrow> Some (updated (cell c) (pt_Price pt) (pt_LastUpdateTime pt)))" (is "cell_after c ?us = _")
proof -
  have us: "set ?us = {(p, t). ((m, e), p, t) \<in> client_cells etmp}"
    by (simp add: set_updates_of request_of_cache [OF assms])
  show ?thesis
  proof (cases "client_cell etmp (e, m)")
    case None
    then have "set ?us = {}" unfolding us by (auto simp: client_cells_def)
    then show ?thesis using None by simp
  next
    case (Some pt)
    then have one: "set ?us = set [(pt_Price pt, pt_LastUpdateTime pt)]" unfolding us by (auto simp: client_cells_def)
    then have "cell_after c ?us = cell_after c [(pt_Price pt, pt_LastUpdateTime pt)]"
      by (rule cell_after_converges_1) (use one in auto)
    then show ?thesis using Some by simp
  qed
qed

section \<open>The channel between fetcher and encoder\<close>

fun process_all ::
    "('d, 'x) decimal_ops_scheme \<Rightarrow> PriceEncoder \<Rightarrow> (gotime \<times> query_error PriceFetcherSubtaskResponse) list \<Rightarrow>
     ExchangeToMarketPrices \<Rightarrow> go_panic + ExchangeToMarketPrices" where
  "process_all D p [] etmp = Inr etmp"
| "process_all D p ((now, r) # rs) etmp =
     bindE (ProcessPriceFetcherResponse D now p etmp (Some r)) (\<lambda>(etmp', ev). process_all D p rs etmp')"

lemma process_one_ok:
  assumes "encoder_ok p" and "encoder_config p = Some c" and "memc_ok c" and "etmp_ok etmp"
    and "pe_exchangeId p \<in> fst ` set (etmp_ExchangeMarketPrices etmp)"
    and "psr_Err r = None \<longleftrightarrow> psr_Price r \<noteq> None"
  shows "\<exists>etmp' ev. ProcessPriceFetcherResponse D now p etmp (Some r) = Inr (etmp', ev) \<and> etmp_ok etmp' \<and>
    map fst (etmp_ExchangeMarketPrices etmp') = map fst (etmp_ExchangeMarketPrices etmp) \<and>
    (\<forall>k. fst k \<noteq> pe_exchangeId p \<longrightarrow> client_cell etmp' k = client_cell etmp k)"
proof (cases "psr_Price r")
  case None
  then obtain err where "psr_Err r = Some err" using assms(6) by auto
  then show ?thesis using assms(4) by (simp add: ProcessPriceFetcherResponse_def)
next
  case (Some q)
  then have run: "ProcessPriceFetcherResponse D now p etmp (Some r) = encoder_UpdatePrice D now p etmp q"
    using assms(6) by (simp add: ProcessPriceFetcherResponse_def)
  from convertPriceUpdate_cases [OF assms(1-3), of D now etmp q] obtain res where
    res: "convertPriceUpdate D now p etmp q = Inr res" by blast
  show ?thesis
  proof (cases res)
    case (Inl err)
    then show ?thesis using assms(4) run res by (simp add: encoder_UpdatePrice_def)
  next
    case (Inr q')
    let ?k = "(pe_exchangeId p, mpt_MarketId q')"
    have known: "client_known etmp ?k" using assms(5) by (simp add: client_known_def)
    note put = client_put_cells [OF assms(4) known, of "mpt_Price q'" "mpt_LastUpdatedAt q'"]
    have "ProcessPriceFetcherResponse D now p etmp (Some r) =
        Inr (client_put ?k (mpt_Price q') (mpt_LastUpdatedAt q') etmp, PriceConverted)"
      using run res Inr UpdatePrice_put [OF known] by (simp add: encoder_UpdatePrice_def encoder_GetExchangeId_def)
    then show ?thesis using put by (auto simp: client_put_keys)
  qed
qed

lemma process_all_ok:
  assumes "encoder_ok p" and "encoder_config p = Some c" and "memc_ok c" and "etmp_ok etmp"
    and "pe_exchangeId p \<in> fst ` set (etmp_ExchangeMarketPrices etmp)"
    and "\<forall>x \<in> set rs. psr_Err (snd x) = None \<longleftrightarrow> psr_Price (snd x) \<noteq> None"
  shows "\<exists>etmp'. process_all D p rs etmp = Inr etmp' \<and> etmp_ok etmp' \<and>
    (\<forall>k. fst k \<noteq> pe_exchangeId p \<longrightarrow> client_cell etmp' k = client_cell etmp k)"
  using assms(4-6)
proof (induction rs arbitrary: etmp)
  case (Cons x rs)
  obtain now r where x: "x = (now, r)" by (cases x)
  from process_one_ok [OF assms(1-3) Cons.prems(1,2), of r D now] Cons.prems(3) obtain e1 ev where
    e1: "ProcessPriceFetcherResponse D now p etmp (Some r) = Inr (e1, ev)" "etmp_ok e1"
      "map fst (etmp_ExchangeMarketPrices e1) = map fst (etmp_ExchangeMarketPrices etmp)"
      "\<forall>k. fst k \<noteq> pe_exchangeId p \<longrightarrow> client_cell e1 k = client_cell etmp k" by (auto simp: x)
  have "pe_exchangeId p \<in> fst ` set (etmp_ExchangeMarketPrices e1)"
    using Cons.prems(2) e1(3) by (metis list.set_map)
  with Cons.IH [OF e1(2)] Cons.prems(3) e1 show ?case by (auto simp: x)
qed simp

section \<open>Properties\<close>

text \<open>C34: Fetcher and encoder fit together: whatever the queries of a task loop return and in whatever
  order its subtasks write to the channel, the encoder processes every response without a panic
  and touches only the prices of its own exchange.\<close>

theorem pipeline_no_panic:
  assumes "ring_laws R content" and "fetcher_ok content pf"
    and "encoder_ok pe" and "encoder_config pe = Some c" and "memc_ok c"
    and "etmp_ok etmp" and "pe_exchangeId pe \<in> fst ` set (etmp_ExchangeMarketPrices etmp)"
  shows "\<exists>outs pf'. RunTaskLoop R (\<lambda>p. p) query pf = Inr (outs, pf') \<and>
    (\<forall>ch \<in> interleavings outs. \<forall>times. length times = length ch \<longrightarrow>
      (\<exists>etmp'. process_all D pe (zip times ch) etmp = Inr etmp' \<and> etmp_ok etmp' \<and>
        (\<forall>k. fst k \<noteq> pe_exchangeId pe \<longrightarrow> client_cell etmp' k = client_cell etmp k)))"
proof -
  from task_loop_responses [OF assms(1,2), of query] obtain outs pf' where
    outs: "RunTaskLoop R (\<lambda>p. p) query pf = Inr (outs, pf')"
      "\<forall>ch \<in> interleavings outs. \<forall>r \<in> set ch. psr_Err r = None \<longleftrightarrow> psr_Price r \<noteq> None" by blast
  have "\<exists>etmp'. process_all D pe (zip times ch) etmp = Inr etmp' \<and> etmp_ok etmp' \<and>
        (\<forall>k. fst k \<noteq> pe_exchangeId pe \<longrightarrow> client_cell etmp' k = client_cell etmp k)"
    if "ch \<in> interleavings outs" for ch times
  proof (rule process_all_ok [OF assms(3-7)])
    show "\<forall>x \<in> set (zip times ch). psr_Err (snd x) = None \<longleftrightarrow> psr_Price (snd x) \<noteq> None"
      using outs(2) that by (metis in_set_zipE prod.collapse)
  qed
  with outs(1) show ?thesis by blast
qed

text \<open>C13: If no price in the client cache is the invalid price zero and it holds some price, the updater
  succeeds: afterwards every cell of the server cache is at least as new as the cell of the client
  cache, and a cell that was older on the server, or missing, now equals the client's.\<close>

theorem updater_transfers_cache:
  assumes "etmp_ok etmp" and "mte_ok server" and "client_cells etmp \<noteq> {}"
    and "\<forall>x \<in> client_cells etmp. fst (snd x) \<noteq> 0"
  shows "\<exists>server'. RunPriceUpdaterTaskLoop etmp server = Inr (server', None) \<and> mte_ok server' \<and>
    (\<forall>e m. cache_cell server' (m, e) = (case client_cell etmp (e, m) of
        None \<Rightarrow> cache_cell server (m, e)
      | Some pt \<Rightarrow> Some (updated (cell (cache_cell server (m, e))) (pt_Price pt) (pt_LastUpdateTime pt))))"
proof -
  let ?req = "transformPriceUpdates (ExchangeToMarketPrices_GetAllPrices etmp)"
  have valid: "validateMarketPricesUpdatesMessage ?req = None"
    using cache_request_valid [OF assms(1,3)] assms(4) by blast
  then have puts: "accepted_puts [?req] = request_puts ?req" by (simp add: accepted_puts_def)
  from UpdateMarketPrices_run [OF assms(2), of ?req] valid obtain server' where
    s: "UpdateMarketPrices (Some server) ?req = Inr (server', None)" "mte_ok server'"
      "\<forall>k. cache_cell server' k = cell_after (cache_cell server k) (updates_of k (request_puts ?req))"
    by (auto simp: puts)
  have "?req \<noteq> []" using valid by (auto simp: validate_None_iff)
  with s(1) have "RunPriceUpdaterTaskLoop etmp server = Inr (server', None)"
    by (simp add: RunPriceUpdaterTaskLoop_def)
  with s(2,3) show ?thesis using request_cell [OF assms(1)] by auto
qed

text \<open>C37: One price of zero in the client cache, which the conversions can produce by truncation, makes
  the server reject the request with the prices of all markets: the server cache does not change
  and the updater fails, in this task loop and in every later one until the price is replaced.\<close>

theorem zero_price_blocks_updates:
  assumes "etmp_ok etmp" and "client_cell etmp (e, m) = Some pt" and "pt_Price pt = 0"
  shows "\<exists>err. RunPriceUpdaterTaskLoop etmp server = Inr (server, Some (ErrServer err))"
proof -
  let ?req = "transformPriceUpdates (ExchangeToMarketPrices_GetAllPrices etmp)"
  have "((m, e), 0, pt_LastUpdateTime pt) \<in> set (request_puts ?req)"
    using assms by (force simp: request_of_cache client_cells_def)
  then obtain u ep where "u \<in> set ?req" "ep \<in> set (mpu_ExchangePrices u)" "ep_Price ep = 0"
    by (auto simp: request_puts_def exchange_puts_def split: option.splits)
  then have "?req \<noteq> []" and "validateMarketPricesUpdatesMessage ?req \<noteq> None"
    by (auto simp: validate_None_iff)
  then show ?thesis by (auto simp: RunPriceUpdaterTaskLoop_def UpdateMarketPrices_def)
qed

section \<open>Witnesses\<close>

definition demo_client :: ExchangeToMarketPrices where
  "demo_client = (case client_run (take 2 demo_updates) (fresh_prices demo_exchanges) of Inr e \<Rightarrow> e | Inl _ \<Rightarrow> fresh_prices [])"

lemma demo_client_ok: "etmp_ok demo_client"
  by code_simp

lemma demo_client_cells: "client_cells demo_client = {((1, ''Binance''), 100, 50), ((1, ''Okx''), 106, 52)}"
proof -
  have "set (request_puts (transformPriceUpdates (ExchangeToMarketPrices_GetAllPrices demo_client))) =
      {((1, ''Binance''), 100, 50), ((1, ''Okx''), 106, 52)}" by code_simp
  then show ?thesis by (simp add: request_of_cache [OF demo_client_ok])
qed

theorem updater_transfers_cache_witness:
  "\<exists>server'. RunPriceUpdaterTaskLoop demo_client (NewMarketToExchangePrices 30) = Inr (server', None) \<and>
    cache_cell server' (1, ''Okx'') = Some \<lparr>pt_LastUpdateTime = 52, pt_Price = 106\<rparr>"
proof -
  have ne: "client_cells demo_client \<noteq> {}" and nz: "\<forall>x \<in> client_cells demo_client. fst (snd x) \<noteq> 0"
    by (simp_all add: demo_client_cells)
  have "client_cell demo_client (''Okx'', 1) = Some \<lparr>pt_LastUpdateTime = 52, pt_Price = 106\<rparr>"
    "cache_cell (NewMarketToExchangePrices 30) (1, ''Okx'') = None"
    "updated (cell None) 106 52 = \<lparr>pt_LastUpdateTime = 52, pt_Price = 106\<rparr>" by code_simp+
  with updater_transfers_cache [OF demo_client_ok mte_ok_new ne nz, of 30] show ?thesis by fastforce
qed

definition demo_encoder :: PriceEncoder where
  "demo_encoder = (case NewPriceEncoder demo_memc demo_mmcs of Inr p \<Rightarrow> p
     | Inl _ \<Rightarrow> \<lparr>pe_isPastGracePeriod = False, pe_exchangeId = [],
                  pe_mutableState = \<lparr>ems_mutableExchangeConfig = None, ems_marketToMutableConfig = []\<rparr>\<rparr>)"

lemma demo_encoder_ok: "encoder_ok demo_encoder" "encoder_config demo_encoder = Some demo_memc"
  "pe_exchangeId demo_encoder = ''Okx''"
proof -
  have new: "NewPriceEncoder demo_memc demo_mmcs = Inr demo_encoder" by code_simp
  show "encoder_ok demo_encoder" "encoder_config demo_encoder = Some demo_memc"
    using NewPriceEncoder_ok [OF new] by auto
  show "pe_exchangeId demo_encoder = ''Okx''" by code_simp
qed

definition demo_query2 :: "MarketId list \<Rightarrow> taskLoopDefinition \<Rightarrow> query_error + MarketPriceTimestamp list" where
  "demo_query2 ms tld = (if ms = [7] then Inl ErrRateLimitingHandler
     else Inr (map (\<lambda>m. \<lparr>mpt_MarketId = m, mpt_Price = 5, mpt_LastUpdatedAt = 10\<rparr>) ms))"

theorem pipeline_no_panic_witness:
  "\<exists>outs pf'. RunTaskLoop list_ring (\<lambda>p. p) demo_query2 demo_fetcher = Inr (outs, pf') \<and>
    (\<forall>ch \<in> interleavings outs. \<forall>times. length times = length ch \<longrightarrow>
      (\<exists>etmp'. process_all rat_decimal demo_encoder (zip times ch) demo_client = Inr etmp' \<and> etmp_ok etmp' \<and>
        (\<forall>k. fst k \<noteq> pe_exchangeId demo_encoder \<longrightarrow> client_cell etmp' k = client_cell demo_client k)))"
proof (rule pipeline_no_panic [OF list_ring_laws demo_fetcher_ok demo_encoder_ok(1,2) demo_memc_ok demo_client_ok])
  show "pe_exchangeId demo_encoder \<in> fst ` set (etmp_ExchangeMarketPrices demo_client)" by code_simp
qed

theorem ProcessPriceFetcherResponse_spec_witness:
  "\<exists>etmp' ev. ProcessPriceFetcherResponse rat_decimal 60 demo_encoder demo_client
      (Some \<lparr>psr_Price = Some \<lparr>mpt_MarketId = 7, mpt_Price = 90, mpt_LastUpdatedAt = 55\<rparr>, psr_Err = None\<rparr>) =
      Inr (etmp', ev) \<and> etmp_ok etmp' \<and>
    (ev = PriceConverted \<longrightarrow> client_cell etmp' (''Kraken'', 7) = client_cell demo_client (''Kraken'', 7))"
proof -
  let ?r = "\<lparr>psr_Price = Some \<lparr>mpt_MarketId = 7, mpt_Price = 90, mpt_LastUpdatedAt = 55\<rparr>,
    psr_Err = None :: query_error fetch_error option\<rparr>"
  have known: "pe_exchangeId demo_encoder \<in> fst ` set (etmp_ExchangeMarketPrices demo_client)" by code_simp
  have r: "psr_Err ?r = None \<longleftrightarrow> psr_Price ?r \<noteq> None" by simp
  from ProcessPriceFetcherResponse_spec [OF demo_encoder_ok(1,2) demo_memc_ok demo_client_ok known r,
      of rat_decimal 60] show ?thesis
    by (auto simp: demo_encoder_ok(3) split: if_splits)
qed

text \<open>A market whose ticker is inverted: a raw price of 200000 at exponent zero inverts to zero.\<close>

definition inverted_config :: MutableExchangeMarketConfig where
  "inverted_config = \<lparr>memc_Id = ''Okx'', memc_MarketToMarketConfig =
     [(7, \<lparr>mc_Ticker = ''USD-X'', mc_AdjustByMarket = None, mc_Invert = True\<rparr>)]\<rparr>"

definition inverted_market :: MutableMarketConfig where
  "inverted_market = \<lparr>mmc_Id = 7, mmc_Pair = ''X-USD'', mmc_Exponent = 0, mmc_MinExchanges = 1\<rparr>"

theorem zero_price_blocks_updates_witness:
  "\<exists>p etmp'. NewPriceEncoder inverted_config [inverted_market] = Inr p \<and>
    ProcessPriceFetcherResponse rat_decimal 60 p demo_client
      (Some \<lparr>psr_Price = Some \<lparr>mpt_MarketId = 7, mpt_Price = 200000, mpt_LastUpdatedAt = 55\<rparr>, psr_Err = None\<rparr>) =
      Inr (etmp', PriceConverted) \<and>
    (\<exists>err. RunPriceUpdaterTaskLoop etmp' (NewMarketToExchangePrices 30) =
       Inr (NewMarketToExchangePrices 30, Some (ErrServer err)))"
proof -
  define p where "p = \<lparr>pe_isPastGracePeriod = False, pe_exchangeId = ''Okx'',
     pe_mutableState = \<lparr>ems_mutableExchangeConfig = Some inverted_config,
       ems_marketToMutableConfig = [(7, inverted_market)]\<rparr>\<rparr>"
  let ?q = "\<lparr>mpt_MarketId = 7, mpt_Price = 200000, mpt_LastUpdatedAt = 55\<rparr>"
  let ?d = "\<lparr>pcd_Invert = True, pcd_Exponent = 0, pcd_AdjustByMarketDetails = None\<rparr>"
  have new: "NewPriceEncoder inverted_config [inverted_market] = Inr p" unfolding p_def by code_simp
  have details: "GetPriceConversionDetailsForMarket (pe_mutableState p) (mpt_MarketId ?q) = Inr (Inr ?d)"
    unfolding p_def by code_simp
  have inv: "Invert rat_decimal 200000 0 = 0"
  proof -
    have "\<lfloor>100000000001 / 2 :: rat\<rfloor> = 50000000000" "\<lfloor>50000000000 / 10 ^ 16 :: rat\<rfloor> = 0"
      by (simp_all add: floor_eq_iff)
    then show ?thesis by (simp add: Invert_def rat_decimal_def rat_trunc_def bigint_Uint64_def round_def)
  qed
  have known: "client_known demo_client (''Okx'', mpt_MarketId ?q)" by code_simp
  let ?e = "client_put (''Okx'', 7) 0 55 demo_client"
  have run: "ProcessPriceFetcherResponse rat_decimal 60 p demo_client (Some \<lparr>psr_Price = Some ?q, psr_Err = None\<rparr>) =
      Inr (?e, PriceConverted)"
    using convertPriceUpdate_details [OF details, of rat_decimal 60 demo_client] known
      UpdatePrice_put [of demo_client "''Okx''" "?q\<lparr>mpt_Price := 0\<rparr>"]
    by (simp add: ProcessPriceFetcherResponse_def encoder_UpdatePrice_def converted_price_def inv
        encoder_GetExchangeId_def p_def)
  have zero: "client_cell ?e (''Okx'', 7) = Some \<lparr>pt_LastUpdateTime = 55, pt_Price = 0\<rparr>" by code_simp
  have ok: "etmp_ok ?e" by code_simp
  from zero_price_blocks_updates [OF ok zero, of "NewMarketToExchangePrices 30"] new run show ?thesis by auto
qed

end
