(* ===== verification/MutableMarketConfigs.thy ===== *)
theory MutableMarketConfigs
  imports PriceUpdater
begin

text \<open>
  \<open>pricefeed/client/types/price_feed_mutable_market_configs.go\<close>: the one copy of the market
  configuration. It parses the market parameters, keeps the configuration per exchange and per
  market, and sends every changed exchange configuration to the fetcher and the encoder of the
  exchange. In the model the fetchers and encoders, which the code holds by reference, are part of
  the state. \<open>validJSON\<close> and \<open>unmarshal\<close> stand for \<open>json.Unmarshal\<close> into a generic object and into
  an \<open>ExchangeConfigJson\<close>; the theorems hold for every such pair. A nil list of parameters is
  \<open>None\<close>.
\<close>

section \<open>State\<close>

record 'r UpdatersForExchange =
  ufe_PriceFetcher :: "'r PriceFetcher option"
  ufe_PriceEncoder :: "PriceEncoder option"

record UpdateParameters =
  up_ExchangeConfig :: MutableExchangeMarketConfig
  up_MarketConfigs :: "MutableMarketConfig list"

text \<open>\<open>pm_updatersMissing\<close> is the counter of the wait group \<open>updatersInitialized\<close>.\<close>

record 'r PricefeedMutableMarketConfigs =
  pm_mutableExchangeToConfigs :: "(ExchangeId, MutableExchangeMarketConfig) gomap"
  pm_mutableMarketToConfigs :: "(MarketId, MutableMarketConfig) gomap"
  pm_mutableExchangeConfigUpdaters :: "(ExchangeId, 'r UpdatersForExchange) gomap"
  pm_updatersMissing :: nat

datatype param_error =
    ErrInvalidMarketParam config_error
  | ErrUnmarshalExchangeConfig
  | ErrInvalidExchangeConfigJson config_error

datatype configs_error =
    ErrMarketParamsNil
  | ErrDuplicateMarketId MarketId
  | ErrInternalExchangeNotFound ExchangeId
  | ErrInternalAdjustByNotFound ExchangeId string
  | ErrInternalNoPreviousConfig ExchangeId
  | ErrInternalNoUpdaters ExchangeId
  | ErrInternalFetcherNil ExchangeId
  | ErrInternalEncoderNil ExchangeId
  | ErrUpdaters "(ExchangeId \<times> bool \<times> updater_error) list"
  | ErrExchangeConfigNotFound ExchangeId
  | ErrMarketNotFound MarketId

definition expectedUpdatersPerExchange :: nat where
  "expectedUpdatersPerExchange = 2"

definition UpdatersForExchange_Validate :: "ExchangeId \<Rightarrow> 'r UpdatersForExchange \<Rightarrow> configs_error option" where
  "UpdatersForExchange_Validate exchangeId ufe =
     (if ufe_PriceFetcher ufe = None then Some (ErrInternalFetcherNil exchangeId)
      else if ufe_PriceEncoder ufe = None then Some (ErrInternalEncoderNil exchangeId)
      else None)"

definition empty_exchange_config :: "ExchangeId \<Rightarrow> MutableExchangeMarketConfig" where
  "empty_exchange_config exchangeId = \<lparr>memc_Id = exchangeId, memc_MarketToMarketConfig = []\<rparr>"

definition NewPriceFeedMutableMarketConfigs :: "ExchangeId list \<Rightarrow> 'r PricefeedMutableMarketConfigs" where
  "NewPriceFeedMutableMarketConfigs canonicalExchangeIds =
     \<lparr>pm_mutableExchangeToConfigs = build_map (\<lambda>e. e) empty_exchange_config canonicalExchangeIds,
      pm_mutableMarketToConfigs = [],
      pm_mutableExchangeConfigUpdaters = [],
      pm_updatersMissing = expectedUpdatersPerExchange * length canonicalExchangeIds\<rparr>"

section \<open>Registration of fetchers and encoders\<close>

datatype 'r updater = Fetcher "'r PriceFetcher" | Encoder PriceEncoder

fun updater_GetExchangeId :: "'r updater \<Rightarrow> ExchangeId" where
  "updater_GetExchangeId (Fetcher p) = fetcher_GetExchangeId p"
| "updater_GetExchangeId (Encoder p) = encoder_GetExchangeId p"

definition addExchangeConfigUpdater ::
    "'r PricefeedMutableMarketConfigs \<Rightarrow> 'r updater \<Rightarrow> go_panic + 'r PricefeedMutableMarketConfigs" where
  "addExchangeConfigUpdater pfmmc u =
     (let exchangeId = updater_GetExchangeId u;
          updatersForExchange =
            (case map_of (pm_mutableExchangeConfigUpdaters pfmmc) exchangeId of
               None \<Rightarrow> \<lparr>ufe_PriceFetcher = None, ufe_PriceEncoder = None\<rparr>
             | Some ufe \<Rightarrow> ufe)
      in bindE
           (case u of
              Fetcher p \<Rightarrow>
                if ufe_PriceFetcher updatersForExchange \<noteq> None then Inl (PanicUpdaterExists exchangeId)
                else Inr (updatersForExchange\<lparr>ufe_PriceFetcher := Some p\<rparr>)
            | Encoder p \<Rightarrow>
                if ufe_PriceEncoder updatersForExchange \<noteq> None then Inl (PanicUpdaterExists exchangeId)
                else Inr (updatersForExchange\<lparr>ufe_PriceEncoder := Some p\<rparr>))
           (\<lambda>ufe.
              if pm_updatersMissing pfmmc = 0 then Inl PanicNegativeWaitGroup
              else Inr (pfmmc\<lparr>pm_mutableExchangeConfigUpdaters :=
                              mput exchangeId ufe (pm_mutableExchangeConfigUpdaters pfmmc),
                            pm_updatersMissing := pm_updatersMissing pfmmc - 1\<rparr>)))"

definition AddPriceFetcher ::
    "'r PricefeedMutableMarketConfigs \<Rightarrow> 'r PriceFetcher \<Rightarrow> go_panic + 'r PricefeedMutableMarketConfigs" where
  "AddPriceFetcher pfmmc priceFetcher = addExchangeConfigUpdater pfmmc (Fetcher priceFetcher)"

definition AddPriceEncoder ::
    "'r PricefeedMutableMarketConfigs \<Rightarrow> PriceEncoder \<Rightarrow> go_panic + 'r PricefeedMutableMarketConfigs" where
  "AddPriceEncoder pfmmc priceEncoder = addExchangeConfigUpdater pfmmc (Encoder priceEncoder)"

section \<open>Parsing the market parameters\<close>

type_synonym exchange_configs = "(ExchangeId, MutableExchangeMarketConfig) gomap"
type_synonym market_configs = "(MarketId, MutableMarketConfig) gomap"
type_synonym param_errors = "(MarketId, param_error) gomap"

fun assign_exchanges_loop ::
    "MarketParam \<Rightarrow> (string, MarketId) gomap \<Rightarrow> ExchangeMarketConfigJson list \<Rightarrow> exchange_configs \<Rightarrow>
     configs_error + exchange_configs" where
  "assign_exchanges_loop marketParam marketNameToId [] configs = Inr configs"
| "assign_exchanges_loop marketParam marketNameToId (exchangeConfig # rest) configs =
     (let exchangeId = emcj_ExchangeName exchangeConfig in
      case map_of configs exchangeId of
        None \<Rightarrow> Inl (ErrInternalExchangeNotFound exchangeId)
      | Some mutableExchangeConfig \<Rightarrow>
          bindE
            (if emcj_AdjustByMarket exchangeConfig \<noteq> ''''
             then case map_of marketNameToId (emcj_AdjustByMarket exchangeConfig) of
                    None \<Rightarrow> Inl (ErrInternalAdjustByNotFound exchangeId (emcj_AdjustByMarket exchangeConfig))
                  | Some adjustByMarketId \<Rightarrow> Inr (Some adjustByMarketId)
             else Inr None)
            (\<lambda>adjustByMarket.
               let marketConfig = \<lparr>mc_Ticker = emcj_Ticker exchangeConfig, mc_AdjustByMarket = adjustByMarket,
                                   mc_Invert = emcj_Invert exchangeConfig\<rparr>
               in assign_exchanges_loop marketParam marketNameToId rest
                    (mput exchangeId
                       (mutableExchangeConfig\<lparr>memc_MarketToMarketConfig :=
                          mput (mp_Id marketParam) marketConfig (memc_MarketToMarketConfig mutableExchangeConfig)\<rparr>)
                       configs)))"

fun transform_params_loop ::
    "(string \<Rightarrow> bool) \<Rightarrow> (string \<Rightarrow> ExchangeConfigJson option) \<Rightarrow> ExchangeId list \<Rightarrow> (string, MarketId) gomap \<Rightarrow>
     MarketParam list \<Rightarrow> exchange_configs \<Rightarrow> market_configs \<Rightarrow> param_errors \<Rightarrow>
     configs_error + exchange_configs \<times> market_configs \<times> param_errors" where
  "transform_params_loop validJSON unmarshal exchangeNames marketNameToId [] ecs mcs errs = Inr (ecs, mcs, errs)"
| "transform_params_loop validJSON unmarshal exchangeNames marketNameToId (marketParam # rest) ecs mcs errs =
     (let continue_with = (\<lambda>err.
            transform_params_loop validJSON unmarshal exchangeNames marketNameToId rest ecs mcs
              (mput (mp_Id marketParam) err errs))
      in
      case MarketParam_Validate validJSON marketParam of
        Some err \<Rightarrow> continue_with (ErrInvalidMarketParam err)
      | None \<Rightarrow>
          if map_of mcs (mp_Id marketParam) \<noteq> None then Inl (ErrDuplicateMarketId (mp_Id marketParam))
          else
            (case unmarshal (mp_ExchangeConfigJson marketParam) of
               None \<Rightarrow> continue_with ErrUnmarshalExchangeConfig
             | Some exchangeConfigJson \<Rightarrow>
                 (case ExchangeConfigJson_Validate exchangeConfigJson exchangeNames marketNameToId of
                    Some err \<Rightarrow> continue_with (ErrInvalidExchangeConfigJson err)
                  | None \<Rightarrow>
                      bindE (assign_exchanges_loop marketParam marketNameToId (ecj_Exchanges exchangeConfigJson) ecs)
                        (\<lambda>ecs'.
                           transform_params_loop validJSON unmarshal exchangeNames marketNameToId rest ecs'
                             (mput (mp_Id marketParam)
                                \<lparr>mmc_Id = mp_Id marketParam, mmc_Pair = mp_Pair marketParam,
                                 mmc_Exponent = mp_Exponent marketParam,
                                 mmc_MinExchanges = mp_MinExchanges marketParam\<rparr> mcs)
                             errs))))"

definition ValidateAndTransformParams ::
    "(string \<Rightarrow> bool) \<Rightarrow> (string \<Rightarrow> ExchangeConfigJson option) \<Rightarrow> 'r PricefeedMutableMarketConfigs \<Rightarrow>
     MarketParam list option \<Rightarrow> configs_error + exchange_configs \<times> market_configs \<times> param_errors" where
  "ValidateAndTransformParams validJSON unmarshal pfmmc marketParams =
     (case marketParams of
        None \<Rightarrow> Inl ErrMarketParamsNil
      | Some params \<Rightarrow>
          let exchangeNames = map fst (pm_mutableExchangeToConfigs pfmmc);
              mutableExchangeConfigs = build_map (\<lambda>e. e) empty_exchange_config exchangeNames;
              marketNameToId = build_map mp_Pair mp_Id params
          in transform_params_loop validJSON unmarshal exchangeNames marketNameToId params
               mutableExchangeConfigs [] [])"

section \<open>Updating the fetchers and encoders\<close>

fun copy_market_configs :: "market_configs \<Rightarrow> MarketId list \<Rightarrow> go_panic + MutableMarketConfig list" where
  "copy_market_configs mcs [] = Inr []"
| "copy_market_configs mcs (marketId # rest) =
     (case map_of mcs marketId of
        None \<Rightarrow> Inl NilDereference
      | Some config \<Rightarrow>
          bindE (copy_market_configs mcs rest) (\<lambda>cs. Inr (MutableMarketConfig_Copy config # cs)))"

definition markets_on_exchange :: "MutableExchangeMarketConfig \<Rightarrow> (MarketId, unit) gomap" where
  "markets_on_exchange config =
     fold (\<lambda>(marketId, mc) m.
         let m' = mput marketId () m in
         case mc_AdjustByMarket mc of None \<Rightarrow> m' | Some adjustBy \<Rightarrow> mput adjustBy () m')
       (memc_MarketToMarketConfig config) []"

definition getUpdateParametersForExchange ::
    "MutableExchangeMarketConfig \<Rightarrow> market_configs \<Rightarrow> go_panic + UpdateParameters" where
  "getUpdateParametersForExchange mutableExchangeConfig mutableMarketConfigs =
     bindE (copy_market_configs mutableMarketConfigs (map fst (markets_on_exchange mutableExchangeConfig)))
       (\<lambda>marketConfigCopies.
          Inr \<lparr>up_ExchangeConfig = MutableExchangeMarketConfig_Copy mutableExchangeConfig,
               up_MarketConfigs = sort_key mmc_Id marketConfigCopies\<rparr>)"

fun check_updaters ::
    "exchange_configs \<Rightarrow> (ExchangeId, 'r UpdatersForExchange) gomap \<Rightarrow> ExchangeId \<Rightarrow> configs_error option" where
  "check_updaters previous updaters exchangeId =
     (if map_of previous exchangeId = None then Some (ErrInternalNoPreviousConfig exchangeId)
      else case map_of updaters exchangeId of
        None \<Rightarrow> Some (ErrInternalNoUpdaters exchangeId)
      | Some exchangeUpdaters \<Rightarrow> UpdatersForExchange_Validate exchangeId exchangeUpdaters)"

text \<open>The updates to send, by exchange: the code keeps the same ones for the fetcher and the encoder.\<close>

fun compute_updates ::
    "exchange_configs \<Rightarrow> exchange_configs \<Rightarrow> market_configs \<Rightarrow> (ExchangeId, 'r UpdatersForExchange) gomap \<Rightarrow>
     go_panic + (ExchangeId, UpdateParameters) gomap" where
  "compute_updates previous new mcs [] = Inr []"
| "compute_updates previous new mcs ((exchangeId, updaters) # rest) =
     (case (map_of previous exchangeId, map_of new exchangeId) of
        (Some previousConfig, Some mutableExchangeConfig) \<Rightarrow>
          bindE (compute_updates previous new mcs rest)
            (\<lambda>updates.
               if \<not> MutableExchangeMarketConfig_Equal previousConfig mutableExchangeConfig
               then bindE (getUpdateParametersForExchange mutableExchangeConfig mcs)
                      (\<lambda>up. Inr ((exchangeId, up) # updates))
               else Inr updates)
      | _ \<Rightarrow> Inl NilDereference)"

definition send_encoder_update ::
    "UpdateParameters \<Rightarrow> PriceEncoder option \<Rightarrow> go_panic + updater_error option \<times> PriceEncoder option" where
  "send_encoder_update up encoder =
     (case encoder of
        None \<Rightarrow> Inl NilDereference
      | Some p \<Rightarrow>
          (case encoder_UpdateMutableExchangeConfig p (up_ExchangeConfig up) (up_MarketConfigs up) of
             Inl err \<Rightarrow> Inr (Some err, Some p)
           | Inr p' \<Rightarrow> Inr (None, Some p')))"

definition send_fetcher_update ::
    "('r, 'x) ring_ops_scheme \<Rightarrow> UpdateParameters \<Rightarrow> 'r PriceFetcher option \<Rightarrow>
     go_panic + updater_error option \<times> 'r PriceFetcher option" where
  "send_fetcher_update R up fetcher =
     (case fetcher of
        None \<Rightarrow> Inl NilDereference
      | Some p \<Rightarrow>
          bindE (fetcher_UpdateMutableExchangeConfig R p (up_ExchangeConfig up) (up_MarketConfigs up))
            (\<lambda>res. case res of
               Inl err \<Rightarrow> Inr (Some err, Some p)
             | Inr p' \<Rightarrow> Inr (None, Some p')))"

text \<open>Step 6: the encoder of an exchange first, then its fetcher.\<close>

fun send_updates ::
    "('r, 'x) ring_ops_scheme \<Rightarrow> (ExchangeId, UpdateParameters) gomap \<Rightarrow> (ExchangeId, 'r UpdatersForExchange) gomap \<Rightarrow>
     go_panic + (ExchangeId \<times> bool \<times> updater_error) list \<times> (ExchangeId, 'r UpdatersForExchange) gomap" where
  "send_updates R updates [] = Inr ([], [])"
| "send_updates R updates ((exchangeId, ufe) # rest) =
     bindE
       (case map_of updates exchangeId of
          None \<Rightarrow> Inr ([], ufe)
        | Some up \<Rightarrow>
            bindE (send_encoder_update up (ufe_PriceEncoder ufe))
              (\<lambda>(encErr, encoder).
                 bindE (send_fetcher_update R up (ufe_PriceFetcher ufe))
                   (\<lambda>(fetErr, fetcher).
                      Inr ((case encErr of None \<Rightarrow> [] | Some e \<Rightarrow> [(exchangeId, False, e)]) @
                           (case fetErr of None \<Rightarrow> [] | Some e \<Rightarrow> [(exchangeId, True, e)]),
                           \<lparr>ufe_PriceFetcher = fetcher, ufe_PriceEncoder = encoder\<rparr>))))
       (\<lambda>(errs, ufe').
          bindE (send_updates R updates rest)
            (\<lambda>(errs', rest'). Inr (errs @ errs', (exchangeId, ufe') # rest')))"

text \<open>
  \<open>UpdateMarkets\<close> returns the errors of single parameters and an error. \<open>None\<close> as a whole says that
  the call still waits for a fetcher or encoder to be added.
\<close>

definition UpdateMarkets ::
    "('r, 'x) ring_ops_scheme \<Rightarrow> (string \<Rightarrow> bool) \<Rightarrow> (string \<Rightarrow> ExchangeConfigJson option) \<Rightarrow>
     'r PricefeedMutableMarketConfigs \<Rightarrow> MarketParam list option \<Rightarrow>
     (go_panic + (param_errors \<times> configs_error option) \<times> 'r PricefeedMutableMarketConfigs) option" where
  "UpdateMarkets R validJSON unmarshal pfmmc marketParams =
     (if pm_updatersMissing pfmmc \<noteq> 0 then None
      else Some
        (case ValidateAndTransformParams validJSON unmarshal pfmmc marketParams of
           Inl err \<Rightarrow> Inr (([], Some err), pfmmc)
         | Inr (newExchangeConfigs, newMarketConfigs, marketParamErrors) \<Rightarrow>
             (case checkAll (check_updaters (pm_mutableExchangeToConfigs pfmmc) (pm_mutableExchangeConfigUpdaters pfmmc))
                     (map fst newExchangeConfigs) of
                Some err \<Rightarrow> Inr (([], Some err), pfmmc)
              | None \<Rightarrow>
                  bindE (compute_updates (pm_mutableExchangeToConfigs pfmmc) newExchangeConfigs newMarketConfigs
                           (pm_mutableExchangeConfigUpdaters pfmmc))
                    (\<lambda>updates.
                       bindE (send_updates R updates (pm_mutableExchangeConfigUpdaters pfmmc))
                         (\<lambda>(updaterErrors, updaters).
                            Inr ((marketParamErrors,
                                  if length updaterErrors > 0 then Some (ErrUpdaters updaterErrors) else None),
                                 pfmmc\<lparr>pm_mutableExchangeToConfigs := newExchangeConfigs,
                                       pm_mutableMarketToConfigs := newMarketConfigs,
                                       pm_mutableExchangeConfigUpdaters := updaters\<rparr>))))))"

section \<open>Copies for new fetchers and encoders\<close>

definition GetExchangeMarketConfigCopy ::
    "'r PricefeedMutableMarketConfigs \<Rightarrow> ExchangeId \<Rightarrow> configs_error + MutableExchangeMarketConfig" where
  "GetExchangeMarketConfigCopy pfmmc exchangeId =
     (case map_of (pm_mutableExchangeToConfigs pfmmc) exchangeId of
        None \<Rightarrow> Inl (ErrExchangeConfigNotFound exchangeId)
      | Some memc \<Rightarrow> Inr (MutableExchangeMarketConfig_Copy memc))"

fun GetMarketConfigCopies ::
    "'r PricefeedMutableMarketConfigs \<Rightarrow> MarketId list \<Rightarrow> configs_error + MutableMarketConfig list" where
  "GetMarketConfigCopies pfmmc [] = Inr []"
| "GetMarketConfigCopies pfmmc (market # rest) =
     (case map_of (pm_mutableMarketToConfigs pfmmc) market of
        None \<Rightarrow> Inl (ErrMarketNotFound market)
      | Some config \<Rightarrow>
          bindE (GetMarketConfigCopies pfmmc rest) (\<lambda>cs. Inr (MutableMarketConfig_Copy config # cs)))"

section \<open>The interface of a fetcher or encoder\<close>

text \<open>
  The contract of \<open>ExchangeConfigUpdater\<close>: an update is refused, without a change, exactly if it is
  for another exchange or its configuration is not valid; an accepted one replaces the
  configuration.
\<close>

locale exchange_config_updater =
  fixes update :: "'s \<Rightarrow> MutableExchangeMarketConfig \<Rightarrow> MutableMarketConfig list \<Rightarrow> go_panic + updater_error + 's"
    and exchange :: "'s \<Rightarrow> ExchangeId"
    and config :: "'s \<Rightarrow> MutableExchangeMarketConfig option"
    and usable :: "'s \<Rightarrow> bool"
    and ok :: "'s \<Rightarrow> bool"
  assumes update_mismatch: "usable s \<Longrightarrow> memc_Id c \<noteq> exchange s \<Longrightarrow> update s c cfgs = Inr (Inl ErrExchangeIdMismatch)"
    and update_invalid: "usable s \<Longrightarrow> memc_Id c = exchange s \<Longrightarrow>
      MutableExchangeMarketConfig_Validate c cfgs = Some e \<Longrightarrow> update s c cfgs = Inr (Inl (ErrInvalidExchangeConfig e))"
    and update_valid: "usable s \<Longrightarrow> memc_Id c = exchange s \<Longrightarrow> memc_ok c \<Longrightarrow>
      MutableExchangeMarketConfig_Validate c cfgs = None \<Longrightarrow>
      \<exists>s'. update s c cfgs = Inr (Inr s') \<and> usable s' \<and> ok s' \<and> exchange s' = exchange s \<and> config s' = Some c"
begin

lemma update_accepts_iff:
  assumes "usable s" and "memc_ok c"
  shows "(\<exists>s'. update s c cfgs = Inr (Inr s')) \<longleftrightarrow> memc_Id c = exchange s \<and> markets_known c cfgs"
proof (cases "memc_Id c = exchange s")
  case True
  then show ?thesis
    using update_invalid [OF assms(1) True, of cfgs] update_valid [OF assms(1) True assms(2), of cfgs]
    by (cases "MutableExchangeMarketConfig_Validate c cfgs")
      (auto simp flip: MutableExchangeMarketConfig_Validate_None)
next
  case False
  then show ?thesis using update_mismatch [OF assms(1) False, of cfgs] by auto
qed

lemma update_known:
  assumes "usable s" and "memc_ok c" and "memc_Id c = exchange s" and "markets_known c cfgs"
  shows "\<exists>s'. update s c cfgs = Inr (Inr s') \<and> usable s' \<and> ok s' \<and> exchange s' = exchange s \<and> config s' = Some c"
  using update_valid [OF assms(1,3,2)] assms(4) by (simp add: MutableExchangeMarketConfig_Validate_None)

lemma update_never_panics: "usable s \<Longrightarrow> memc_ok c \<Longrightarrow> update s c cfgs \<noteq> Inl pn"
  using update_mismatch [of s c cfgs] update_invalid [of s c cfgs] update_valid [of s c cfgs]
  by (cases "memc_Id c = exchange s"; cases "MutableExchangeMarketConfig_Validate c cfgs") auto

end

interpretation encoder: exchange_config_updater
  "\<lambda>p c cfgs. Inr (encoder_UpdateMutableExchangeConfig p c cfgs)" encoder_GetExchangeId encoder_config
  "\<lambda>_. True" encoder_ok
  using encoder_update_spec by unfold_locales (auto simp: encoder_UpdateMutableExchangeConfig_def)

text \<open>The fetcher, together with the operations of its ring and the reading of a ring as a list.\<close>

interpretation fetcher: exchange_config_updater
  "\<lambda>(R, content, p) c cfgs. map_sum id (map_sum id (\<lambda>p'. (R, content, p')))
     (fetcher_UpdateMutableExchangeConfig R p c cfgs)"
  "\<lambda>(R, content, p). fetcher_GetExchangeId p"
  "\<lambda>(R, content, p). fetcher_config p"
  "\<lambda>(R, content, p). ring_laws R content"
  "\<lambda>(R, content, p). fetcher_ok content p"
  using fetcher_update_spec by unfold_locales (force simp: split_beta)+

section \<open>What parsing produces\<close>

text \<open>
  The exchange configurations: every entry is the configuration of its exchange, over markets
  \<open>ms\<close>, with adjust-by markets among \<open>as\<close>.
\<close>

definition exchange_config_ok ::
    "MarketId set \<Rightarrow> MarketId set \<Rightarrow> ExchangeId \<Rightarrow> MutableExchangeMarketConfig \<Rightarrow> bool" where
  "exchange_config_ok ms as e c \<longleftrightarrow> memc_Id c = e \<and> memc_ok c \<and>
     fst ` set (memc_MarketToMarketConfig c) \<subseteq> ms \<and>
     (\<forall>x \<in> set (memc_MarketToMarketConfig c). set_option (mc_AdjustByMarket (snd x)) \<subseteq> as)"

definition exchange_configs_ok :: "MarketId set \<Rightarrow> MarketId set \<Rightarrow> exchange_configs \<Rightarrow> bool" where
  "exchange_configs_ok ms as ecs \<longleftrightarrow> gomap_ok ecs \<and>
     (\<forall>e c. map_of ecs e = Some c \<longrightarrow> exchange_config_ok ms as e c)"

definition market_configs_ok :: "market_configs \<Rightarrow> bool" where
  "market_configs_ok mcs \<longleftrightarrow> gomap_ok mcs \<and>
     (\<forall>m c. map_of mcs m = Some c \<longrightarrow> mmc_Id c = m \<and> mmc_Pair c \<noteq> '''' \<and> mmc_MinExchanges c \<noteq> 0)"

lemma exchange_config_ok_mono:
  "exchange_config_ok ms as e c \<Longrightarrow> ms \<subseteq> ms' \<Longrightarrow> exchange_config_ok ms' as e c"
  unfolding exchange_config_ok_def by blast

lemma exchange_configs_ok_mono:
  assumes "exchange_configs_ok ms as ecs" and "ms \<subseteq> ms'"
  shows "exchange_configs_ok ms' as ecs"
  using assms exchange_config_ok_mono [OF _ assms(2)] by (simp add: exchange_configs_ok_def)

lemma exchange_config_ok_put:
  assumes "exchange_config_ok ms as e c" and "m \<in> ms" and "set_option (mc_AdjustByMarket mc) \<subseteq> as"
  shows "exchange_config_ok ms as e
    (c\<lparr>memc_MarketToMarketConfig := mput m mc (memc_MarketToMarketConfig c)\<rparr>)"
proof -
  have "set_option (mc_AdjustByMarket (snd x)) \<subseteq> as" if "x \<in> set (mput m mc (memc_MarketToMarketConfig c))" for x
  proof -
    from that have "x = (m, mc) \<or> x \<in> set (memc_MarketToMarketConfig c)" using set_mput_subset by fast
    then show ?thesis using assms(1,3) unfolding exchange_config_ok_def by auto
  qed
  then show ?thesis using assms(1,2) by (simp add: exchange_config_ok_def)
qed

lemma assign_step:
  assumes "assign_exchanges_loop param names (x # xs) ecs = Inr ecs'"
  obtains c adj where "map_of ecs (emcj_ExchangeName x) = Some c" "set_option adj \<subseteq> snd ` set names"
    "assign_exchanges_loop param names xs (mput (emcj_ExchangeName x)
      (c\<lparr>memc_MarketToMarketConfig := mput (mp_Id param)
        \<lparr>mc_Ticker = emcj_Ticker x, mc_AdjustByMarket = adj, mc_Invert = emcj_Invert x\<rparr>
        (memc_MarketToMarketConfig c)\<rparr>) ecs) = Inr ecs'"
proof (cases "map_of ecs (emcj_ExchangeName x)")
  case None
  with assms show ?thesis by (simp add: Let_def)
next
  case (Some c)
  show ?thesis
  proof (cases "emcj_AdjustByMarket x = ''''")
    case True
    with Some assms that [of c None] show ?thesis by (simp add: Let_def)
  next
    case False
    with Some assms obtain a where "map_of names (emcj_AdjustByMarket x) = Some a"
      by (cases "map_of names (emcj_AdjustByMarket x)") (simp_all add: Let_def)
    moreover from map_of_SomeD [OF this] have "a \<in> snd ` set names" by force
    ultimately show ?thesis using False Some assms that [of c "Some a"] by (simp add: Let_def)
  qed
qed

lemma assign_exchanges_loop_ok:
  assumes "assign_exchanges_loop param names xs ecs = Inr ecs'" and "exchange_configs_ok ms (snd ` set names) ecs"
    and "mp_Id param \<in> ms"
  shows "exchange_configs_ok ms (snd ` set names) ecs' \<and> map fst ecs' = map fst ecs"
  using assms(1,2)
proof (induction xs arbitrary: ecs)
  case (Cons x xs)
  let ?e = "emcj_ExchangeName x"
  from assign_step [OF Cons.prems(1)] obtain c adj where c: "map_of ecs ?e = Some c"
    and adj: "set_option adj \<subseteq> snd ` set names"
    and rest: "assign_exchanges_loop param names xs (mput ?e (c\<lparr>memc_MarketToMarketConfig := mput (mp_Id param)
      \<lparr>mc_Ticker = emcj_Ticker x, mc_AdjustByMarket = adj, mc_Invert = emcj_Invert x\<rparr>
      (memc_MarketToMarketConfig c)\<rparr>) ecs) = Inr ecs'" (is "assign_exchanges_loop _ _ _ ?ecs = _") .
  have e: "?e \<in> fst ` set ecs" using c by (force dest: map_of_SomeD)
  have "exchange_config_ok ms (snd ` set names) ?e c"
    using Cons.prems(2) c by (simp add: exchange_configs_ok_def)
  from exchange_config_ok_put [OF this assms(3)] adj
  have "exchange_configs_ok ms (snd ` set names) ?ecs"
    using Cons.prems(2) by (simp add: exchange_configs_ok_def)
  from Cons.IH [OF rest this] show ?case using keys_mput_known [OF e] by simp
qed simp

text \<open>The outcome for one parameter that is fit for use.\<close>

definition usable_param ::
    "(string \<Rightarrow> bool) \<Rightarrow> (string \<Rightarrow> ExchangeConfigJson option) \<Rightarrow> ExchangeId list \<Rightarrow> (string, MarketId) gomap \<Rightarrow>
     MarketParam \<Rightarrow> bool" where
  "usable_param validJSON unmarshal exchangeNames names param \<longleftrightarrow>
     MarketParam_Validate validJSON param = None \<and>
     (case unmarshal (mp_ExchangeConfigJson param) of None \<Rightarrow> False
      | Some j \<Rightarrow> ExchangeConfigJson_Validate j exchangeNames names = None)"

abbreviation param_config :: "MarketParam \<Rightarrow> MutableMarketConfig" where
  "param_config param \<equiv> \<lparr>mmc_Id = mp_Id param, mmc_Pair = mp_Pair param, mmc_Exponent = mp_Exponent param,
     mmc_MinExchanges = mp_MinExchanges param\<rparr>"

lemma MarketParam_Validate_None:
  "MarketParam_Validate validJSON mp = None \<Longrightarrow> mp_Pair mp \<noteq> '''' \<and> mp_MinExchanges mp \<noteq> 0"
  by (auto simp: MarketParam_Validate_def split: if_splits)

lemma transform_params_loop_ok:
  assumes "transform_params_loop validJSON unmarshal ens names ps ecs mcs errs = Inr (ecs', mcs', errs')"
    and "exchange_configs_ok (fst ` set mcs) (snd ` set names) ecs" and "market_configs_ok mcs"
  shows "exchange_configs_ok (fst ` set mcs') (snd ` set names) ecs' \<and> market_configs_ok mcs' \<and>
    map fst ecs' = map fst ecs \<and>
    (\<forall>m. map_of mcs' m = (case find (\<lambda>p. mp_Id p = m) (filter (usable_param validJSON unmarshal ens names) ps) of
        Some p \<Rightarrow> Some (param_config p) | None \<Rightarrow> map_of mcs m)) \<and>
    (\<forall>p \<in> set ps. usable_param validJSON unmarshal ens names p \<longrightarrow> map_of mcs (mp_Id p) = None) \<and>
    distinct (map mp_Id (filter (usable_param validJSON unmarshal ens names) ps))"
  using assms
proof (induction ps arbitrary: ecs mcs errs)
  case (Cons p ps)
  show ?case
  proof (cases "usable_param validJSON unmarshal ens names p")
    case True
    then obtain j where j: "MarketParam_Validate validJSON p = None" "unmarshal (mp_ExchangeConfigJson p) = Some j"
      "ExchangeConfigJson_Validate j ens names = None" by (auto simp: usable_param_def split: option.splits)
    with Cons.prems(1) obtain ecs1 where new: "map_of mcs (mp_Id p) = None"
      and ecs1: "assign_exchanges_loop p names (ecj_Exchanges j) ecs = Inr ecs1"
      and rest: "transform_params_loop validJSON unmarshal ens names ps ecs1 (mput (mp_Id p) (param_config p) mcs) errs
        = Inr (ecs', mcs', errs')" by (auto simp: Let_def split: if_splits)
    let ?mcs = "mput (mp_Id p) (param_config p) mcs"
    have "exchange_configs_ok (fst ` set ?mcs) (snd ` set names) ecs"
      using Cons.prems(2) by (rule exchange_configs_ok_mono) auto
    from assign_exchanges_loop_ok [OF ecs1 this] have
      ok1: "exchange_configs_ok (fst ` set ?mcs) (snd ` set names) ecs1" "map fst ecs1 = map fst ecs" by auto
    have mok: "market_configs_ok ?mcs"
      using Cons.prems(3) MarketParam_Validate_None [OF j(1)] by (auto simp: market_configs_ok_def)
    note IH = Cons.IH [OF rest ok1(1) mok]
    then have fresh: "mp_Id q \<noteq> mp_Id p \<and> map_of mcs (mp_Id q) = None"
      if "q \<in> set ps" "usable_param validJSON unmarshal ens names q" for q
      using that by (auto split: if_splits)
    then have "find (\<lambda>q. mp_Id q = mp_Id p) (filter (usable_param validJSON unmarshal ens names) ps) = None"
      by (auto simp: find_None_iff)
    moreover have "mp_Id p \<notin> mp_Id ` {q \<in> set ps. usable_param validJSON unmarshal ens names q}"
      using fresh by fastforce
    ultimately show ?thesis using IH ok1(2) new True fresh by (auto split: option.splits)
  next
    case False
    then obtain err where "transform_params_loop validJSON unmarshal ens names ps ecs mcs (mput (mp_Id p) err errs)
        = Inr (ecs', mcs', errs')"
      using Cons.prems(1) by (auto simp: usable_param_def Let_def split: option.splits if_splits)
    from Cons.IH [OF this Cons.prems(2,3)] False show ?thesis by simp
  qed
qed simp

section \<open>The parameters of an update\<close>

definition adjust_markets :: "MutableExchangeMarketConfig \<Rightarrow> MarketId set" where
  "adjust_markets c = (\<Union>x \<in> set (memc_MarketToMarketConfig c). set_option (mc_AdjustByMarket (snd x)))"

lemma markets_on_exchange_keys:
  "fst ` set (markets_on_exchange c) = fst ` set (memc_MarketToMarketConfig c) \<union> adjust_markets c"
  "gomap_ok (markets_on_exchange c)"
proof -
  let ?f = "\<lambda>(marketId, mc) m. let m' = mput marketId () m in
         case mc_AdjustByMarket mc of None \<Rightarrow> m' | Some adjustBy \<Rightarrow> mput adjustBy () m'"
  have "fst ` set (fold ?f xs m) = fst ` set m \<union> fst ` set xs \<union>
      (\<Union>x \<in> set xs. set_option (mc_AdjustByMarket (snd x))) \<and> (gomap_ok m \<longrightarrow> gomap_ok (fold ?f xs m))" for xs m
  proof (induction xs arbitrary: m)
    case (Cons x xs)
    then show ?case by (cases x; cases "mc_AdjustByMarket (snd x)") (auto simp: Let_def)
  qed simp
  from this [of "memc_MarketToMarketConfig c" "[]"]
  show "fst ` set (markets_on_exchange c) = fst ` set (memc_MarketToMarketConfig c) \<union> adjust_markets c"
    "gomap_ok (markets_on_exchange c)"
    by (simp_all add: markets_on_exchange_def adjust_markets_def)
qed

lemma copy_market_configs_eq:
  "copy_market_configs mcs ms =
    (if set ms \<subseteq> fst ` set mcs then Inr (map (\<lambda>m. the (map_of mcs m)) ms) else Inl NilDereference)"
proof (induction ms)
  case (Cons m ms)
  then show ?case using map_of_None_iff_key [of mcs m] by (cases "map_of mcs m") simp_all
qed simp

lemma update_parameters:
  assumes mcs: "market_configs_ok mcs" and c: "exchange_config_ok (fst ` set mcs) as e c"
  shows "if adjust_markets c \<subseteq> fst ` set mcs
    then \<exists>up. getUpdateParametersForExchange c mcs = Inr up \<and> up_ExchangeConfig up = c \<and>
      markets_known c (up_MarketConfigs up)
    else getUpdateParametersForExchange c mcs = Inl NilDereference"
proof (cases "adjust_markets c \<subseteq> fst ` set mcs")
  case True
  define ks where "ks = map fst (markets_on_exchange c)"
  let ?cs = "map (\<lambda>m. the (map_of mcs m)) ks" let ?cfgs = "sort_key mmc_Id ?cs"
  have keys: "set ks = fst ` set (memc_MarketToMarketConfig c) \<union> adjust_markets c" "distinct ks"
    by (simp_all add: ks_def markets_on_exchange_keys)
  have sub: "set ks \<subseteq> fst ` set mcs" using True c keys(1) by (simp add: exchange_config_ok_def)
  have entry: "\<exists>k. map_of mcs m = Some k \<and> mmc_Id k = m \<and> mmc_Pair k \<noteq> '''' \<and> mmc_MinExchanges k \<noteq> 0"
    if "m \<in> set ks" for m
  proof -
    from sub that have "map_of mcs m \<noteq> None" by (auto simp: map_of_None_iff_key)
    then show ?thesis using mcs by (auto simp: market_configs_ok_def)
  qed
  have "mmc_Id (the (map_of mcs m)) = m" if "m \<in> set ks" for m using entry [OF that] by auto
  then have ids: "map mmc_Id ?cs = ks" unfolding map_map by (intro map_idI) simp
  have dist: "distinct (map mmc_Id ?cfgs)"
  proof -
    have "mset (map mmc_Id ?cfgs) = mset (map mmc_Id ?cs)" by (simp only: mset_map mset_sort)
    then show ?thesis using keys(2) ids by (metis mset_eq_imp_distinct_iff)
  qed
  have look: "map_of (build_map mmc_Id (\<lambda>c. c) ?cfgs) m = map_of mcs m" if "m \<in> set ks" for m
  proof -
    from entry [OF that] obtain k where k: "map_of mcs m = Some k" "mmc_Id k = m" by blast
    then have "k \<in> set ?cfgs" using that by force
    from build_map_distinct [OF dist this, of "\<lambda>c. c"] k show ?thesis by simp
  qed
  have "markets_known c ?cfgs"
    unfolding markets_known_def
  proof (intro ballI conjI allI impI)
    fix x assume x: "x \<in> set (memc_MarketToMarketConfig c)"
    then have "fst x \<in> set ks" using keys(1) by blast
    with look entry show "\<exists>k. map_of (build_map mmc_Id (\<lambda>c. c) ?cfgs) (fst x) = Some k \<and>
        mmc_Pair k \<noteq> '''' \<and> mmc_MinExchanges k \<noteq> 0" by metis
    fix a assume "mc_AdjustByMarket (snd x) = Some a"
    with x keys(1) have "a \<in> set ks" by (force simp: adjust_markets_def)
    then show "a \<in> mmc_Id ` set ?cfgs" using ids by (metis list.set_map set_sort)
  qed
  moreover have "memc_ok c" using c by (simp add: exchange_config_ok_def)
  ultimately show ?thesis
    using True sub by (simp add: getUpdateParametersForExchange_def copy_market_configs_eq flip: ks_def)
next
  case False
  then show ?thesis
    by (simp add: getUpdateParametersForExchange_def copy_market_configs_eq markets_on_exchange_keys)
qed

section \<open>All updaters hold the current configuration\<close>

definition updaters_synced ::
    "('r \<Rightarrow> MarketId list) \<Rightarrow> ExchangeId \<Rightarrow> MutableExchangeMarketConfig \<Rightarrow> 'r UpdatersForExchange \<Rightarrow> bool" where
  "updaters_synced content e c ufe \<longleftrightarrow>
     (\<exists>f p cf ce. ufe_PriceFetcher ufe = Some f \<and> ufe_PriceEncoder ufe = Some p \<and>
        fetcher_GetExchangeId f = e \<and> fetcher_ok content f \<and> fetcher_config f = Some cf \<and>
        encoder_GetExchangeId p = e \<and> encoder_ok p \<and> encoder_config p = Some ce \<and> memc_ok ce \<and>
        MutableExchangeMarketConfig_Equal cf c \<and> MutableExchangeMarketConfig_Equal ce c)"

definition configs_synced :: "('r \<Rightarrow> MarketId list) \<Rightarrow> 'r PricefeedMutableMarketConfigs \<Rightarrow> bool" where
  "configs_synced content s \<longleftrightarrow>
     gomap_ok (pm_mutableExchangeToConfigs s) \<and> gomap_ok (pm_mutableExchangeConfigUpdaters s) \<and>
     fst ` set (pm_mutableExchangeConfigUpdaters s) = fst ` set (pm_mutableExchangeToConfigs s) \<and>
     (\<forall>e c. map_of (pm_mutableExchangeToConfigs s) e = Some c \<longrightarrow> memc_Id c = e \<and> memc_ok c) \<and>
     (\<forall>e c ufe. map_of (pm_mutableExchangeToConfigs s) e = Some c \<and>
        map_of (pm_mutableExchangeConfigUpdaters s) e = Some ufe \<longrightarrow> updaters_synced content e c ufe)"

lemma Equal_trans:
  assumes "memc_ok a" and "memc_ok b" and "memc_ok c"
    and "MutableExchangeMarketConfig_Equal a b" and "MutableExchangeMarketConfig_Equal b c"
  shows "MutableExchangeMarketConfig_Equal a c"
  using assms by (simp add: MutableExchangeMarketConfig_Equal_iff)

lemma Equal_refl: "memc_ok a \<Longrightarrow> MutableExchangeMarketConfig_Equal a a"
  by (simp add: MutableExchangeMarketConfig_Equal_iff)

lemma fetcher_ok_config: "fetcher_ok content f \<Longrightarrow> fetcher_config f = Some c \<Longrightarrow> memc_ok c"
  by (auto simp: fetcher_ok_def fetcher_config_def)

text \<open>The updates of a list of updaters, when every adjust-by market has a configuration.\<close>

definition update_right ::
    "exchange_configs \<Rightarrow> exchange_configs \<Rightarrow> (ExchangeId, UpdateParameters) gomap \<Rightarrow> ExchangeId \<Rightarrow> bool" where
  "update_right previous new ups e \<longleftrightarrow> (\<forall>pc c. map_of previous e = Some pc \<longrightarrow> map_of new e = Some c \<longrightarrow>
      (case map_of ups e of
         None \<Rightarrow> MutableExchangeMarketConfig_Equal pc c
       | Some up \<Rightarrow> \<not> MutableExchangeMarketConfig_Equal pc c \<and> up_ExchangeConfig up = c \<and>
           markets_known c (up_MarketConfigs up)))"

lemma compute_updates_ok:
  assumes "market_configs_ok mcs" and "exchange_configs_ok (fst ` set mcs) (fst ` set mcs) new"
    and "\<forall>x \<in> set us. fst x \<in> fst ` set previous \<and> fst x \<in> fst ` set new"
    and "gomap_ok us"
  shows "\<exists>ups. compute_updates previous new mcs us = Inr ups \<and>
    (\<forall>e \<in> fst ` set us. update_right previous new ups e) \<and> fst ` set ups \<subseteq> fst ` set us"
  using assms(3,4)
proof (induction us)
  case (Cons x us)
  obtain e u where x: "x = (e, u)" by (cases x)
  from Cons obtain ups where IH: "compute_updates previous new mcs us = Inr ups"
    "\<forall>e \<in> fst ` set us. update_right previous new ups e" "fst ` set ups \<subseteq> fst ` set us" by auto
  from Cons.prems obtain pc c where pc: "map_of previous e = Some pc" and c: "map_of new e = Some c"
    by (cases "map_of previous e"; cases "map_of new e") (auto simp: x map_of_None_iff_key)
  have e: "e \<notin> fst ` set us" using Cons.prems(2) by (simp add: x)
  then have ne: "map_of ups e = None" using IH(3) by (auto simp: map_of_None_iff_key)
  have cok: "exchange_config_ok (fst ` set mcs) (fst ` set mcs) e c"
    using assms(2) c by (simp add: exchange_configs_ok_def)
  then have "adjust_markets c \<subseteq> fst ` set mcs" by (auto simp: exchange_config_ok_def adjust_markets_def)
  with update_parameters [OF assms(1) cok] obtain up where
    up: "getUpdateParametersForExchange c mcs = Inr up" "up_ExchangeConfig up = c" "markets_known c (up_MarketConfigs up)"
    by auto
  show ?case
  proof (cases "MutableExchangeMarketConfig_Equal pc c")
    case True
    then have "update_right previous new ups e" using pc c ne by (simp add: update_right_def)
    then show ?thesis using True IH pc c by (auto simp: x)
  next
    case False
    then have "update_right previous new ((e, up) # ups) e" using pc c up by (simp add: update_right_def)
    moreover have "update_right previous new ((e, up) # ups) y" if "y \<in> fst ` set us" for y
    proof -
      have "y \<noteq> e" using that e by blast
      moreover have "update_right previous new ups y" using IH(2) that by blast
      ultimately show ?thesis by (simp add: update_right_def)
    qed
    ultimately show ?thesis using False IH(1,3) pc c up(1) by (auto simp: x)
  qed
qed simp

text \<open>One exchange: after the update both updaters hold the new configuration.\<close>

lemma send_one_ok:
  assumes laws: "ring_laws R content" and sync: "updaters_synced content e pc ufe"
    and ids: "memc_Id c = e" "memc_ok c" and known: "markets_known c (up_MarketConfigs up)"
    and up: "up_ExchangeConfig up = c"
  shows "\<exists>p' f'. send_encoder_update up (ufe_PriceEncoder ufe) = Inr (None, Some p') \<and>
    send_fetcher_update R up (ufe_PriceFetcher ufe) = Inr (None, Some f') \<and>
    updaters_synced content e c \<lparr>ufe_PriceFetcher = Some f', ufe_PriceEncoder = Some p'\<rparr>"
proof -
  from sync obtain f p where fp: "ufe_PriceFetcher ufe = Some f" "ufe_PriceEncoder ufe = Some p"
    "fetcher_GetExchangeId f = e" "encoder_GetExchangeId p = e" by (auto simp: updaters_synced_def)
  from encoder.update_known [of c p "up_MarketConfigs up"] ids known fp(4) obtain p' where
    p': "encoder_UpdateMutableExchangeConfig p c (up_MarketConfigs up) = Inr p'" "encoder_ok p'"
      "encoder_GetExchangeId p' = e" "encoder_config p' = Some c" by auto
  have valid: "MutableExchangeMarketConfig_Validate c (up_MarketConfigs up) = None"
    using known by (simp add: MutableExchangeMarketConfig_Validate_None)
  from fetcher_update_spec [OF laws, of c f "up_MarketConfigs up"] ids fp(3) valid obtain f' where
    f': "fetcher_UpdateMutableExchangeConfig R f c (up_MarketConfigs up) = Inr (Inr f')"
      "fetcher_config f' = Some c" "fetcher_GetExchangeId f' = e" "fetcher_ok content f'" by auto
  show ?thesis
    using fp p' f' up ids Equal_refl [OF ids(2)]
    by (auto simp: send_encoder_update_def send_fetcher_update_def updaters_synced_def)
qed

lemma updaters_synced_Equal:
  assumes "updaters_synced content e pc ufe" and "MutableExchangeMarketConfig_Equal pc c" "memc_ok pc" "memc_ok c"
  shows "updaters_synced content e c ufe"
proof -
  from assms(1) obtain f p cf ce where *: "ufe_PriceFetcher ufe = Some f" "ufe_PriceEncoder ufe = Some p"
    "fetcher_GetExchangeId f = e" "fetcher_ok content f" "fetcher_config f = Some cf"
    "encoder_GetExchangeId p = e" "encoder_ok p" "encoder_config p = Some ce" "memc_ok ce"
    "MutableExchangeMarketConfig_Equal cf pc" "MutableExchangeMarketConfig_Equal ce pc"
    by (auto simp: updaters_synced_def)
  have "MutableExchangeMarketConfig_Equal cf c" "MutableExchangeMarketConfig_Equal ce c"
    using * assms fetcher_ok_config [OF *(4,5)] Equal_trans by blast+
  with * show ?thesis by (auto simp: updaters_synced_def)
qed

lemma send_updates_ok:
  assumes laws: "ring_laws R content"
    and sync: "\<forall>x \<in> set us. \<exists>pc c. map_of previous (fst x) = Some pc \<and> map_of new (fst x) = Some c \<and>
      updaters_synced content (fst x) pc (snd x) \<and> memc_ok pc \<and> memc_ok c \<and> memc_Id c = fst x \<and>
      update_right previous new ups (fst x)"
  shows "\<exists>us'. send_updates R ups us = Inr ([], us') \<and> map fst us' = map fst us \<and>
    (\<forall>x \<in> set us'. \<exists>c. map_of new (fst x) = Some c \<and> updaters_synced content (fst x) c (snd x))"
  using sync
proof (induction us)
  case (Cons x us)
  obtain e ufe where x: "x = (e, ufe)" by (cases x)
  from Cons obtain us' where IH: "send_updates R ups us = Inr ([], us')" "map fst us' = map fst us"
    "\<forall>x \<in> set us'. \<exists>c. map_of new (fst x) = Some c \<and> updaters_synced content (fst x) c (snd x)" by auto
  from Cons.prems obtain pc c where c: "map_of previous e = Some pc" "map_of new e = Some c"
    "updaters_synced content e pc ufe" "memc_ok pc" "memc_ok c" "memc_Id c = e" "update_right previous new ups e"
    by (auto simp: x)
  show ?case
  proof (cases "map_of ups e")
    case None
    then have "updaters_synced content e c ufe"
      using c updaters_synced_Equal by (auto simp: update_right_def)
    then show ?thesis using None IH c(2) by (auto simp: x)
  next
    case (Some up)
    then have "up_ExchangeConfig up = c" "markets_known c (up_MarketConfigs up)"
      using c by (auto simp: update_right_def)
    from send_one_ok [OF laws c(3,6,5) this(2,1)] obtain p' f' where
      "send_encoder_update up (ufe_PriceEncoder ufe) = Inr (None, Some p')"
      "send_fetcher_update R up (ufe_PriceFetcher ufe) = Inr (None, Some f')"
      "updaters_synced content e c \<lparr>ufe_PriceFetcher = Some f', ufe_PriceEncoder = Some p'\<rparr>" by blast
    then show ?thesis using Some IH c(2) by (auto simp: x)
  qed
qed simp

lemma transform_ok:
  assumes "ValidateAndTransformParams validJSON unmarshal s (Some params) = Inr (ecs, mcs, errs)"
  shows "exchange_configs_ok (fst ` set mcs) (mp_Id ` set params) ecs" "market_configs_ok mcs"
    "fst ` set ecs = fst ` set (pm_mutableExchangeToConfigs s)"
proof -
  let ?ens = "map fst (pm_mutableExchangeToConfigs s)" and ?names = "build_map mp_Pair mp_Id params"
  let ?init = "build_map (\<lambda>e. e) empty_exchange_config ?ens"
  have run: "transform_params_loop validJSON unmarshal ?ens ?names params ?init [] [] = Inr (ecs, mcs, errs)"
    using assms by (simp add: ValidateAndTransformParams_def Let_def)
  have "exchange_config_ok {} (snd ` set ?names) e c" if "map_of ?init e = Some c" for e c
    using build_map_SomeD [OF that] by (auto simp: exchange_config_ok_def empty_exchange_config_def)
  then have init: "exchange_configs_ok (fst ` set []) (snd ` set ?names) ?init"
    by (simp add: exchange_configs_ok_def)
  have "market_configs_ok []" by (simp add: market_configs_ok_def)
  from transform_params_loop_ok [OF run init this] have
    ok: "exchange_configs_ok (fst ` set mcs) (snd ` set ?names) ecs" "market_configs_ok mcs" "map fst ecs = map fst ?init"
    by auto
  have "snd ` set ?names \<subseteq> mp_Id ` set params"
    using map_of_is_SomeI [of ?names] build_map_SomeD [of mp_Pair mp_Id params] by fastforce
  then have "exchange_config_ok (fst ` set mcs) (mp_Id ` set params) e c"
    if "exchange_config_ok (fst ` set mcs) (snd ` set ?names) e c" for e c
    using that unfolding exchange_config_ok_def by (meson subset_trans)
  then show "exchange_configs_ok (fst ` set mcs) (mp_Id ` set params) ecs"
    using ok(1) unfolding exchange_configs_ok_def by blast
  show "market_configs_ok mcs" by (rule ok(2))
  have "fst ` set ecs = fst ` set ?init" using ok(3) by (metis list.set_map)
  then show "fst ` set ecs = fst ` set (pm_mutableExchangeToConfigs s)" by simp
qed

text \<open>Every adjust-by market of the new configuration has a configuration of its own.\<close>

definition adjust_markets_known :: "exchange_configs \<Rightarrow> market_configs \<Rightarrow> bool" where
  "adjust_markets_known ecs mcs \<longleftrightarrow> (\<forall>x \<in> set ecs. adjust_markets (snd x) \<subseteq> fst ` set mcs)"

lemma exchange_configs_ok_known:
  assumes "exchange_configs_ok ms as ecs" and "adjust_markets_known ecs mcs"
  shows "exchange_configs_ok ms (fst ` set mcs) ecs"
  unfolding exchange_configs_ok_def
proof (intro conjI allI impI)
  fix e c assume c: "map_of ecs e = Some c"
  then have "exchange_config_ok ms as e c" using assms(1) by (simp add: exchange_configs_ok_def)
  moreover have "adjust_markets c \<subseteq> fst ` set mcs"
    using bspec [OF assms(2) [unfolded adjust_markets_known_def] map_of_SomeD [OF c]] by simp
  ultimately show "exchange_config_ok ms (fst ` set mcs) e c"
    unfolding exchange_config_ok_def adjust_markets_def by blast
qed (use assms(1) in \<open>simp add: exchange_configs_ok_def\<close>)

lemma send_updates_unchanged:
  assumes "send_updates R ups us = Inr (errs, us')" and "map_of ups e = None"
  shows "map_of us' e = map_of us e"
  using assms(1)
proof (induction us arbitrary: errs us')
  case (Cons x us)
  obtain e' ufe where x: "x = (e', ufe)" by (cases x)
  show ?case
  proof (cases "e' = e")
    case True
    with Cons.prems assms(2) show ?thesis by (auto simp: x)
  next
    case False
    from Cons.prems obtain ufe' errs2 us2 where "send_updates R ups us = Inr (errs2, us2)" "us' = (e', ufe') # us2"
      by (auto simp: x)
    then show ?thesis using False Cons.IH by (auto simp: x)
  qed
qed simp

lemma check_updaters_ok:
  assumes "configs_synced content s" and "e \<in> fst ` set (pm_mutableExchangeToConfigs s)"
  shows "check_updaters (pm_mutableExchangeToConfigs s) (pm_mutableExchangeConfigUpdaters s) e = None"
    and "\<exists>pc ufe. map_of (pm_mutableExchangeToConfigs s) e = Some pc \<and>
      map_of (pm_mutableExchangeConfigUpdaters s) e = Some ufe \<and> updaters_synced content e pc ufe \<and> memc_ok pc"
proof -
  have u: "e \<in> fst ` set (pm_mutableExchangeConfigUpdaters s)" using assms by (simp add: configs_synced_def)
  obtain pc ufe where pc: "map_of (pm_mutableExchangeToConfigs s) e = Some pc"
    "map_of (pm_mutableExchangeConfigUpdaters s) e = Some ufe"
    using map_of_None_iff_key [of "pm_mutableExchangeToConfigs s" e] assms(2)
      map_of_None_iff_key [of "pm_mutableExchangeConfigUpdaters s" e] u by (meson option.exhaust)
  then have sync: "updaters_synced content e pc ufe" "memc_ok pc" using assms(1) by (simp_all add: configs_synced_def)
  then show "check_updaters (pm_mutableExchangeToConfigs s) (pm_mutableExchangeConfigUpdaters s) e = None"
    using pc by (auto simp: UpdatersForExchange_Validate_def updaters_synced_def)
  show "\<exists>pc ufe. map_of (pm_mutableExchangeToConfigs s) e = Some pc \<and>
      map_of (pm_mutableExchangeConfigUpdaters s) e = Some ufe \<and> updaters_synced content e pc ufe \<and> memc_ok pc"
    using pc sync by blast
qed

lemma UpdateMarkets_result:
  assumes laws: "ring_laws R content" and sync: "configs_synced content s" and ready: "pm_updatersMissing s = 0"
    and tr: "ValidateAndTransformParams validJSON unmarshal s (Some params) = Inr (ecs, mcs, errs)"
    and known: "adjust_markets_known ecs mcs"
  shows "\<exists>s'. UpdateMarkets R validJSON unmarshal s (Some params) = Some (Inr ((errs, None), s')) \<and>
    configs_synced content s' \<and> pm_mutableExchangeToConfigs s' = ecs \<and> pm_mutableMarketToConfigs s' = mcs \<and>
    pm_updatersMissing s' = 0 \<and>
    (\<forall>e pc c. map_of (pm_mutableExchangeToConfigs s) e = Some pc \<and> map_of ecs e = Some c \<and>
       MutableExchangeMarketConfig_Equal pc c \<longrightarrow>
       map_of (pm_mutableExchangeConfigUpdaters s') e = map_of (pm_mutableExchangeConfigUpdaters s) e)"
proof -
  let ?prev = "pm_mutableExchangeToConfigs s" and ?us = "pm_mutableExchangeConfigUpdaters s"
  note ok = transform_ok [OF tr]
  have ecs: "exchange_configs_ok (fst ` set mcs) (fst ` set mcs) ecs"
    using exchange_configs_ok_known [OF ok(1) known] .
  have keys: "fst ` set ?us = fst ` set ?prev" "gomap_ok ?us" using sync by (simp_all add: configs_synced_def)
  have chk: "checkAll (check_updaters ?prev ?us) (map fst ecs) = None"
    unfolding checkAll_None_iff using check_updaters_ok(1) [OF sync] ok(3) by auto
  have "\<forall>x \<in> set ?us. fst x \<in> fst ` set ?prev \<and> fst x \<in> fst ` set ecs" using keys(1) ok(3) by auto
  from compute_updates_ok [OF ok(2) ecs this keys(2)] obtain ups where
    ups: "compute_updates ?prev ecs mcs ?us = Inr ups" "\<forall>e \<in> fst ` set ?us. update_right ?prev ecs ups e" by blast
  have "\<forall>x \<in> set ?us. \<exists>pc c. map_of ?prev (fst x) = Some pc \<and> map_of ecs (fst x) = Some c \<and>
      updaters_synced content (fst x) pc (snd x) \<and> memc_ok pc \<and> memc_ok c \<and> memc_Id c = fst x \<and>
      update_right ?prev ecs ups (fst x)"
  proof
    fix x assume x: "x \<in> set ?us"
    then have e: "fst x \<in> fst ` set ?prev" "fst x \<in> fst ` set ecs" using keys(1) ok(3) by auto
    obtain c where c: "map_of ecs (fst x) = Some c"
      using map_of_None_iff_key [of ecs "fst x"] e(2) by (meson option.exhaust)
    then have "exchange_config_ok (fst ` set mcs) (fst ` set mcs) (fst x) c"
      using ecs by (simp add: exchange_configs_ok_def)
    moreover have "map_of ?us (fst x) = Some (snd x)" using x keys(2) by (intro map_of_is_SomeI) simp_all
    moreover have "update_right ?prev ecs ups (fst x)" using ups(2) x by blast
    ultimately show "\<exists>pc c. map_of ?prev (fst x) = Some pc \<and> map_of ecs (fst x) = Some c \<and>
      updaters_synced content (fst x) pc (snd x) \<and> memc_ok pc \<and> memc_ok c \<and> memc_Id c = fst x \<and>
      update_right ?prev ecs ups (fst x)"
      using check_updaters_ok(2) [OF sync e(1)] c by (auto simp: exchange_config_ok_def)
  qed
  from send_updates_ok [OF laws this] obtain us' where
    us': "send_updates R ups ?us = Inr ([], us')" "map fst us' = map fst ?us"
      "\<forall>x \<in> set us'. \<exists>c. map_of ecs (fst x) = Some c \<and> updaters_synced content (fst x) c (snd x)" by blast
  let ?s = "s\<lparr>pm_mutableExchangeToConfigs := ecs, pm_mutableMarketToConfigs := mcs,
    pm_mutableExchangeConfigUpdaters := us'\<rparr>"
  have "UpdateMarkets R validJSON unmarshal s (Some params) = Some (Inr ((errs, None), ?s))"
    using ready tr chk ups(1) us'(1) by (simp add: UpdateMarkets_def)
  moreover have "configs_synced content ?s"
    unfolding configs_synced_def
  proof (intro conjI allI impI)
    show "gomap_ok (pm_mutableExchangeToConfigs ?s)" using ecs by (simp add: exchange_configs_ok_def)
    show "gomap_ok (pm_mutableExchangeConfigUpdaters ?s)" using us'(2) keys(2) by simp
    have "fst ` set us' = fst ` set ?us" using us'(2) by (metis list.set_map)
    then show "fst ` set (pm_mutableExchangeConfigUpdaters ?s) = fst ` set (pm_mutableExchangeToConfigs ?s)"
      using keys(1) ok(3) by simp
  next
    fix e c assume "map_of (pm_mutableExchangeToConfigs ?s) e = Some c"
    then show "memc_Id c = e" "memc_ok c" using ecs by (auto simp: exchange_configs_ok_def exchange_config_ok_def)
  next
    fix e c ufe assume "map_of (pm_mutableExchangeToConfigs ?s) e = Some c \<and>
      map_of (pm_mutableExchangeConfigUpdaters ?s) e = Some ufe"
    then have c: "map_of ecs e = Some c" and "(e, ufe) \<in> set us'" by (simp_all add: map_of_SomeD)
    from bspec [OF us'(3) this(2)] c show "updaters_synced content e c ufe" by simp
  qed
  moreover have "map_of us' e = map_of ?us e"
    if "map_of ?prev e = Some pc" "map_of ecs e = Some c" "MutableExchangeMarketConfig_Equal pc c" for e pc c
  proof (rule send_updates_unchanged [OF us'(1)])
    have "e \<in> fst ` set ?us" using keys(1) that(1) by (force dest: map_of_SomeD)
    then have "update_right ?prev ecs ups e" using ups(2) by blast
    then show "map_of ups e = None" using that by (cases "map_of ups e") (simp_all add: update_right_def)
  qed
  ultimately show ?thesis using ready by auto
qed

section \<open>Properties\<close>

text \<open>
  Parsing the market parameters. The market configurations are exactly those of the usable
  parameters (which are pairwise different), every exchange that was known keeps one configuration,
  and a configuration of an exchange only names markets that have a market configuration.
\<close>

theorem ValidateAndTransformParams_spec:
  assumes "ValidateAndTransformParams validJSON unmarshal s (Some params) = Inr (ecs, mcs, errs)"
  defines "usable \<equiv> filter (usable_param validJSON unmarshal (map fst (pm_mutableExchangeToConfigs s))
      (build_map mp_Pair mp_Id params)) params"
  shows "distinct (map mp_Id usable) \<and>
    (\<forall>m. map_of mcs m = map_option param_config (find (\<lambda>p. mp_Id p = m) usable)) \<and>
    fst ` set ecs = fst ` set (pm_mutableExchangeToConfigs s) \<and>
    (\<forall>e c. map_of ecs e = Some c \<longrightarrow> memc_Id c = e \<and> memc_ok c \<and>
       fst ` set (memc_MarketToMarketConfig c) \<subseteq> mp_Id ` set usable \<and> adjust_markets c \<subseteq> mp_Id ` set params)"
proof -
  let ?ens = "map fst (pm_mutableExchangeToConfigs s)" and ?names = "build_map mp_Pair mp_Id params"
  let ?init = "build_map (\<lambda>e. e) empty_exchange_config ?ens"
  have run: "transform_params_loop validJSON unmarshal ?ens ?names params ?init [] [] = Inr (ecs, mcs, errs)"
    using assms(1) by (simp add: ValidateAndTransformParams_def Let_def)
  have init: "exchange_configs_ok (fst ` set []) (snd ` set ?names) ?init" "market_configs_ok []"
    using build_map_SomeD [of "\<lambda>e. e" empty_exchange_config ?ens]
    by (fastforce simp: exchange_configs_ok_def exchange_config_ok_def empty_exchange_config_def market_configs_ok_def)+
  note loop = transform_params_loop_ok [OF run init]
  have mcs: "map_of mcs m = map_option param_config (find (\<lambda>p. mp_Id p = m) usable)" for m
    using loop by (simp add: usable_def split: option.splits)
  have sub: "fst ` set mcs \<subseteq> mp_Id ` set usable"
  proof
    fix m assume "m \<in> fst ` set mcs"
    then have "map_of mcs m \<noteq> None" by (simp add: map_of_None_iff_key)
    then obtain p where "find (\<lambda>p. mp_Id p = m) usable = Some p" using mcs by auto
    then show "m \<in> mp_Id ` set usable" by (auto dest: find_SomeD)
  qed
  have "exchange_config_ok (mp_Id ` set usable) (mp_Id ` set params) e c" if "map_of ecs e = Some c" for e c
  proof (rule exchange_config_ok_mono [OF _ sub])
    show "exchange_config_ok (fst ` set mcs) (mp_Id ` set params) e c"
      using transform_ok(1) [OF assms(1)] that by (simp add: exchange_configs_ok_def)
  qed
  then have "memc_Id c = e \<and> memc_ok c \<and> fst ` set (memc_MarketToMarketConfig c) \<subseteq> mp_Id ` set usable \<and>
      adjust_markets c \<subseteq> mp_Id ` set params" if "map_of ecs e = Some c" for e c
    using that by (simp add: exchange_config_ok_def adjust_markets_def UN_subset_iff)
  then show ?thesis using loop mcs transform_ok(3) [OF assms(1)] by (simp add: usable_def)
qed


text \<open>
  Stale updaters. A change of the exponents or of the minimum number of exchanges alone leaves
  the configuration of an exchange equal, and then its fetcher and encoder are not told: they keep
  the market configurations they had although the new ones are in force.
\<close>

theorem UpdateMarkets_stale:
  assumes "ring_laws R content" and "configs_synced content s" and "pm_updatersMissing s = 0"
    and "ValidateAndTransformParams validJSON unmarshal s (Some params) = Inr (ecs, mcs, errs)"
    and "adjust_markets_known ecs mcs"
    and "map_of (pm_mutableExchangeToConfigs s) e = Some pc" and "map_of ecs e = Some c"
    and "MutableExchangeMarketConfig_Equal pc c"
  shows "\<exists>s'. UpdateMarkets R validJSON unmarshal s (Some params) = Some (Inr ((errs, None), s')) \<and>
    pm_mutableMarketToConfigs s' = mcs \<and>
    map_of (pm_mutableExchangeConfigUpdaters s') e = map_of (pm_mutableExchangeConfigUpdaters s) e"
  using UpdateMarkets_result [OF assms(1-5)] assms(6-8) by blast

lemma compute_updates_error:
  assumes "compute_updates previous new mcs us = Inr ups" and "(e, ufe) \<in> set us"
    and "map_of previous e = Some pc" and "map_of new e = Some c" and "\<not> MutableExchangeMarketConfig_Equal pc c"
  shows "\<exists>up. getUpdateParametersForExchange c mcs = Inr up"
  using assms
proof (induction us arbitrary: ups)
  case (Cons x us)
  obtain e' ufe' where x: "x = (e', ufe')" by (cases x)
  from Cons.prems(1) obtain ups' where rest: "compute_updates previous new mcs us = Inr ups'"
    by (auto simp: x split: option.splits)
  show ?case
  proof (cases "(e, ufe) \<in> set us")
    case True
    from Cons.IH [OF rest this Cons.prems(3-5)] show ?thesis .
  next
    case False
    then have "e' = e" using Cons.prems(2) by (auto simp: x)
    then show ?thesis using Cons.prems by (auto simp: x)
  qed
qed simp

lemma copy_market_configs_Inl: "copy_market_configs mcs ms = Inl pn \<Longrightarrow> pn = NilDereference"
  by (induction ms) (auto split: option.splits)

lemma compute_updates_Inl: "compute_updates previous new mcs us = Inl pn \<Longrightarrow> pn = NilDereference"
  by (induction us)
    (auto simp: getUpdateParametersForExchange_def dest!: copy_market_configs_Inl split: option.splits if_splits)

text \<open>
  A parameter can take the daemon down. If the changed configuration of an exchange adjusts
  by a market whose own parameter was not usable (so that it has no market configuration), then
  \<open>UpdateMarkets\<close> does not report an error for that parameter: it dereferences nil.
\<close>

theorem UpdateMarkets_adjust_panic:
  assumes "configs_synced content s" and "pm_updatersMissing s = 0"
    and "ValidateAndTransformParams validJSON unmarshal s (Some params) = Inr (ecs, mcs, errs)"
    and "map_of (pm_mutableExchangeToConfigs s) e = Some pc" and "map_of ecs e = Some c"
    and "\<not> MutableExchangeMarketConfig_Equal pc c" and "\<not> adjust_markets c \<subseteq> fst ` set mcs"
  shows "UpdateMarkets R validJSON unmarshal s (Some params) = Some (Inl NilDereference)"
proof -
  let ?prev = "pm_mutableExchangeToConfigs s" and ?us = "pm_mutableExchangeConfigUpdaters s"
  note ok = transform_ok [OF assms(3)]
  have chk: "checkAll (check_updaters ?prev ?us) (map fst ecs) = None"
    unfolding checkAll_None_iff using check_updaters_ok(1) [OF assms(1)] ok(3) by auto
  have "exchange_config_ok (fst ` set mcs) (mp_Id ` set params) e c"
    using ok(1) assms(5) by (simp add: exchange_configs_ok_def)
  from update_parameters [OF ok(2) this] assms(7)
  have bad: "getUpdateParametersForExchange c mcs = Inl NilDereference" by simp
  have "e \<in> fst ` set ?prev" using assms(4) by (force dest: map_of_SomeD)
  then have "e \<in> fst ` set ?us" using assms(1) by (simp add: configs_synced_def)
  then obtain ufe where "(e, ufe) \<in> set ?us" by auto
  then have "compute_updates ?prev ecs mcs ?us \<noteq> Inr ups" for ups
    using compute_updates_error [of ?prev ecs mcs ?us ups e ufe pc c] assms(4-6) bad by auto
  then have "compute_updates ?prev ecs mcs ?us = Inl NilDereference"
    using compute_updates_Inl by (metis sum.exhaust)
  then show ?thesis using assms(2,3) chk by (simp add: UpdateMarkets_def)
qed

section \<open>A concrete configuration\<close>

definition demo_json :: "string \<Rightarrow> ExchangeConfigJson option" where
  "demo_json s = map_option (\<lambda>(ticker, adjust). \<lparr>ecj_Exchanges = [\<lparr>emcj_ExchangeName = ''Okx'',
       emcj_Ticker = ticker, emcj_AdjustByMarket = adjust, emcj_Invert = False\<rparr>]\<rparr>)
     (map_of [(''btc'', ''BTC-USD'', ''''), (''eth'', ''ETH-USDT'', ''USDT-USD''), (''usdt'', ''USDT-USD'', '''')] s)"

definition demo_market_param :: "MarketId \<Rightarrow> string \<Rightarrow> int32 \<Rightarrow> uint32 \<Rightarrow> string \<Rightarrow> MarketParam" where
  "demo_market_param m name exponent ppm json = \<lparr>mp_Id = m, mp_Pair = name, mp_Exponent = exponent,
     mp_MinExchanges = 1, mp_MinPriceChangePpm = ppm, mp_ExchangeConfigJson = json, mp_QueryData = ''0a''\<rparr>"

definition demo_configs :: "MarketId list PricefeedMutableMarketConfigs" where
  "demo_configs = \<lparr>pm_mutableExchangeToConfigs = [(''Okx'', demo_memc)],
     pm_mutableMarketToConfigs = map (\<lambda>c. (mmc_Id c, c)) demo_mmcs,
     pm_mutableExchangeConfigUpdaters =
       [(''Okx'', \<lparr>ufe_PriceFetcher = Some demo_fetcher, ufe_PriceEncoder = Some demo_encoder\<rparr>)],
     pm_updatersMissing = 0\<rparr>"

lemma demo_configs_synced: "configs_synced (\<lambda>r. r) demo_configs"
proof -
  have "fetcher_GetExchangeId demo_fetcher = ''Okx''" "fetcher_config demo_fetcher = Some demo_memc"
    "memc_Id demo_memc = ''Okx''"
    by code_simp+
  then show ?thesis
    using demo_fetcher_ok demo_encoder_ok demo_memc_ok Equal_refl [OF demo_memc_ok]
    by (simp add: configs_synced_def demo_configs_def updaters_synced_def encoder_GetExchangeId_def)
qed

definition demo_two :: "uint32 \<Rightarrow> MarketParam list" where
  "demo_two ppm = [demo_market_param 3 ''ETH-USD'' (-6) 100 ''eth'', demo_market_param 9 ''USDT-USD'' (-6) ppm ''usdt'']"

definition demo_memc2 :: MutableExchangeMarketConfig where
  "demo_memc2 = \<lparr>memc_Id = ''Okx'', memc_MarketToMarketConfig =
     [(3, \<lparr>mc_Ticker = ''ETH-USDT'', mc_AdjustByMarket = Some 9, mc_Invert = False\<rparr>),
      (9, \<lparr>mc_Ticker = ''USDT-USD'', mc_AdjustByMarket = None, mc_Invert = False\<rparr>)]\<rparr>"

definition demo_mcs2 :: market_configs where
  "demo_mcs2 = map (\<lambda>p. (mp_Id p, param_config p)) (demo_two 100)"

lemma demo_transform2:
  "ValidateAndTransformParams (\<lambda>_. True) demo_json demo_configs (Some (demo_two 100)) =
     Inr ([(''Okx'', demo_memc2)], demo_mcs2, [])"
  by code_simp

theorem ValidateAndTransformParams_spec_witness:
  "map_of demo_mcs2 7 = None \<and> map_of demo_mcs2 9 \<noteq> None"
proof -
  have "find (\<lambda>p. mp_Id p = 7) (filter (usable_param (\<lambda>_. True) demo_json (map fst (pm_mutableExchangeToConfigs demo_configs))
      (build_map mp_Pair mp_Id (demo_two 100))) (demo_two 100)) = None"
    "find (\<lambda>p. mp_Id p = 9) (filter (usable_param (\<lambda>_. True) demo_json (map fst (pm_mutableExchangeToConfigs demo_configs))
      (build_map mp_Pair mp_Id (demo_two 100))) (demo_two 100)) \<noteq> None"
    by code_simp+
  then show ?thesis using ValidateAndTransformParams_spec [OF demo_transform2] by simp
qed


definition demo_three :: "MarketParam list" where
  "demo_three = [demo_market_param 7 ''BTC-USD'' (-2) 100 ''btc'', demo_market_param 3 ''ETH-USD'' (-3) 100 ''eth'',
     demo_market_param 9 ''USDT-USD'' (-6) 100 ''usdt'']"

theorem UpdateMarkets_stale_witness:
  "\<exists>s'. UpdateMarkets list_ring (\<lambda>_. True) demo_json demo_configs (Some demo_three) = Some (Inr (([], None), s')) \<and>
     map_option mmc_Exponent (map_of (pm_mutableMarketToConfigs s') 7) = Some (-2) \<and>
     map_of (pm_mutableExchangeConfigUpdaters s') ''Okx'' = map_of (pm_mutableExchangeConfigUpdaters demo_configs) ''Okx''"
proof -
  let ?mcs = "map (\<lambda>p. (mp_Id p, param_config p)) demo_three"
  have ready: "pm_updatersMissing demo_configs = 0" by code_simp
  have tr: "ValidateAndTransformParams (\<lambda>_. True) demo_json demo_configs (Some demo_three) =
     Inr ([(''Okx'', demo_memc)], ?mcs, [])" by code_simp
  have known: "adjust_markets_known [(''Okx'', demo_memc)] ?mcs"
    by (simp add: adjust_markets_known_def adjust_markets_def demo_memc_def demo_three_def demo_market_param_def)
  have "map_of (pm_mutableExchangeToConfigs demo_configs) ''Okx'' = Some demo_memc" by code_simp
  from UpdateMarkets_stale [OF list_ring_laws demo_configs_synced ready tr known this _ Equal_refl [OF demo_memc_ok]]
  show ?thesis by (auto simp: demo_three_def demo_market_param_def)
qed

theorem UpdateMarkets_adjust_panic_witness:
  "UpdateMarkets list_ring (\<lambda>_. True) demo_json demo_configs (Some (demo_two 0)) = Some (Inl NilDereference)"
proof -
  let ?c = "\<lparr>memc_Id = ''Okx'', memc_MarketToMarketConfig =
     [(3, \<lparr>mc_Ticker = ''ETH-USDT'', mc_AdjustByMarket = Some 9, mc_Invert = False\<rparr>)]\<rparr> :: MutableExchangeMarketConfig"
  let ?mcs = "[(3, param_config (demo_market_param 3 ''ETH-USD'' (-6) 100 ''eth''))] :: market_configs"
  have "pm_updatersMissing demo_configs = 0" by code_simp
  moreover have "ValidateAndTransformParams (\<lambda>_. True) demo_json demo_configs (Some (demo_two 0)) =
     Inr ([(''Okx'', ?c)], ?mcs, [(9, ErrInvalidMarketParam ErrMinPriceChangePpm)])" by code_simp
  moreover have "map_of (pm_mutableExchangeToConfigs demo_configs) ''Okx'' = Some demo_memc" by code_simp
  moreover have "map_of [(''Okx'', ?c)] ''Okx'' = Some ?c" by simp
  moreover have "\<not> MutableExchangeMarketConfig_Equal demo_memc ?c" by code_simp
  moreover have "\<not> adjust_markets ?c \<subseteq> fst ` set ?mcs" by (simp add: adjust_markets_def)
  ultimately show ?thesis by (rule UpdateMarkets_adjust_panic [OF demo_configs_synced])
qed

end
