(* ===== verification/HealthCheck.thy ===== *)
theory HealthCheck
  imports Prelude
begin

text \<open>
  Health monitoring of the daemons: \<open>types/health_checkable.go\<close> (what a service reports about
  itself), \<open>server/types/health_checker.go\<close> (the poller of one service) and
  \<open>server/types/health_monitor.go\<close> (the registry of pollers).

  The clock is an argument: every \<open>Now()\<close> of the source is a parameter of the definition. A
  \<open>time.Timer\<close> is armed with a deadline or idle; when it fires it becomes idle and starts a poll.
  The locks make every method of the mutable states one step; a poll is several such steps, and
  \<open>checker_step\<close> interleaves them with the timer and with \<open>Stop\<close>.
\<close>

section \<open>Health of a service\<close>

datatype service_error = ErrInitializing string | ErrReported string

record timestampWithError =
  twe_timestamp :: gotime
  twe_err :: "service_error option"

definition timestampWithError_Update ::
    "timestampWithError \<Rightarrow> gotime \<Rightarrow> service_error option \<Rightarrow> timestampWithError" where
  "timestampWithError_Update u timestamp err = u\<lparr>twe_timestamp := timestamp, twe_err := err\<rparr>"

record timeBoundedHealthCheckable =
  tb_lastSuccessfulUpdate :: gotime
  tb_lastFailedUpdate :: timestampWithError
  tb_serviceName :: string

definition MaxAcceptableUpdateDelay :: duration where
  "MaxAcceptableUpdateDelay = 5 * 60 * 10 ^ 9"

definition service_ReportSuccess :: "timeBoundedHealthCheckable \<Rightarrow> gotime \<Rightarrow> timeBoundedHealthCheckable" where
  "service_ReportSuccess h now = h\<lparr>tb_lastSuccessfulUpdate := now\<rparr>"

definition service_ReportFailure ::
    "timeBoundedHealthCheckable \<Rightarrow> gotime \<Rightarrow> service_error \<Rightarrow> timeBoundedHealthCheckable" where
  "service_ReportFailure h now err =
     h\<lparr>tb_lastFailedUpdate := timestampWithError_Update (tb_lastFailedUpdate h) now (Some err)\<rparr>"

definition NewTimeBoundedHealthCheckable :: "string \<Rightarrow> gotime \<Rightarrow> timeBoundedHealthCheckable" where
  "NewTimeBoundedHealthCheckable serviceName now =
     service_ReportFailure
       \<lparr>tb_lastSuccessfulUpdate = zero_time,
        tb_lastFailedUpdate = \<lparr>twe_timestamp = zero_time, twe_err = None\<rparr>,
        tb_serviceName = serviceName\<rparr>
       now (ErrInitializing serviceName)"

definition ServiceName :: "timeBoundedHealthCheckable \<Rightarrow> string" where
  "ServiceName hc = tb_serviceName hc"

datatype health_error =
    ErrNoSuccessfulUpdate gotime "service_error option"
  | ErrLastUpdateFailed gotime "service_error option" gotime

text \<open>The error \<open>HealthCheck\<close> returns, and whether it logs that the last success is too old.\<close>

definition HealthCheck :: "timeBoundedHealthCheckable \<Rightarrow> gotime \<Rightarrow> health_error option \<times> bool" where
  "HealthCheck h now =
     (let failed = tb_lastFailedUpdate h in
      if IsZero (tb_lastSuccessfulUpdate h)
        then (Some (ErrNoSuccessfulUpdate (twe_timestamp failed) (twe_err failed)), False)
      else if time_After (twe_timestamp failed) (tb_lastSuccessfulUpdate h)
        then (Some (ErrLastUpdateFailed (twe_timestamp failed) (twe_err failed) (tb_lastSuccessfulUpdate h)), False)
      else (None, time_Sub now (tb_lastSuccessfulUpdate h) > MaxAcceptableUpdateDelay))"

section \<open>The poller of one service\<close>

record errorStreak =
  es_startOfStreak :: gotime
  es_mostRecentError :: "health_error option"

definition UpdateLastError :: "errorStreak \<Rightarrow> gotime \<Rightarrow> health_error \<Rightarrow> errorStreak" where
  "UpdateLastError u timestamp err =
     (let u' = (if IsZero (es_startOfStreak u) then u\<lparr>es_startOfStreak := timestamp\<rparr> else u)
      in u'\<lparr>es_mostRecentError := Some err\<rparr>)"

definition errorStreak_Reset :: "errorStreak \<Rightarrow> errorStreak" where
  "errorStreak_Reset u = u\<lparr>es_startOfStreak := zero_time, es_mostRecentError := None\<rparr>"

definition errorStreak_IsUnset :: "errorStreak \<Rightarrow> bool" where
  "errorStreak_IsUnset u \<longleftrightarrow> IsZero (es_startOfStreak u) \<and> es_mostRecentError u = None"

datatype timer = TimerArmed gotime | TimerIdle

record healthCheckerMutableState =
  hcs_lastSuccessTimestamp :: gotime
  hcs_mostRecentErrorStreak :: errorStreak
  hcs_timer :: "timer option"
  hcs_stopped :: bool

definition hcs_ReportSuccess :: "healthCheckerMutableState \<Rightarrow> gotime \<Rightarrow> healthCheckerMutableState" where
  "hcs_ReportSuccess u now =
     u\<lparr>hcs_lastSuccessTimestamp := now,
       hcs_mostRecentErrorStreak := errorStreak_Reset (hcs_mostRecentErrorStreak u)\<rparr>"

definition hcs_ReportFailure ::
    "healthCheckerMutableState \<Rightarrow> gotime \<Rightarrow> health_error \<Rightarrow> healthCheckerMutableState \<times> duration" where
  "hcs_ReportFailure u now err =
     (let u' = u\<lparr>hcs_mostRecentErrorStreak := UpdateLastError (hcs_mostRecentErrorStreak u) now err\<rparr>
      in (u', time_Sub now (es_startOfStreak (hcs_mostRecentErrorStreak u'))))"

definition SchedulePoll ::
    "healthCheckerMutableState \<Rightarrow> gotime \<Rightarrow> duration \<Rightarrow> go_panic + healthCheckerMutableState" where
  "SchedulePoll u now nextPollDelay =
     (if hcs_stopped u then Inr u
      else case hcs_timer u of
        None \<Rightarrow> Inl NilDereference
      | Some _ \<Rightarrow> Inr (u\<lparr>hcs_timer := Some (TimerArmed (time_Add now nextPollDelay))\<rparr>))"

definition InitializePolling :: "healthCheckerMutableState \<Rightarrow> gotime \<Rightarrow> duration \<Rightarrow> healthCheckerMutableState" where
  "InitializePolling u now firstPollDelay =
     (if hcs_timer u \<noteq> None then u
      else u\<lparr>hcs_timer := Some (TimerArmed (time_Add now firstPollDelay))\<rparr>)"

definition hcs_Stop :: "healthCheckerMutableState \<Rightarrow> go_panic + healthCheckerMutableState" where
  "hcs_Stop u =
     (if hcs_stopped u then Inr u
      else case hcs_timer u of
        None \<Rightarrow> Inl NilDereference
      | Some _ \<Rightarrow> Inr (u\<lparr>hcs_timer := Some TimerIdle, hcs_stopped := True\<rparr>))"

text \<open>The callbacks \<open>RegisterService\<close> installs; the first one panics when it is called.\<close>

datatype unhealthyCallback = PanicServiceNotResponding string | LogErrorServiceNotResponding string

fun run_callback :: "unhealthyCallback \<Rightarrow> health_error \<Rightarrow> go_panic option" where
  "run_callback (PanicServiceNotResponding serviceName) err = Some (PanicServiceUnhealthy serviceName)"
| "run_callback (LogErrorServiceNotResponding serviceName) err = None"

record healthChecker =
  hc_mutableState :: healthCheckerMutableState
  hc_pollFrequency :: duration
  hc_maxUnhealthyDuration :: duration
  hc_unhealthyCallback :: unhealthyCallback

text \<open>
  A poll up to the scheduling of the next one: the new state and the error the callback is called
  with. \<open>err\<close> is the answer of the service's \<open>HealthCheck\<close>.
\<close>

definition poll_report :: "healthChecker \<Rightarrow> gotime \<Rightarrow> health_error option \<Rightarrow> healthChecker \<times> health_error option" where
  "poll_report hc now err =
     (case err of
        None \<Rightarrow> (hc\<lparr>hc_mutableState := hcs_ReportSuccess (hc_mutableState hc) now\<rparr>, None)
      | Some e \<Rightarrow>
          let (st, streakDuration) = hcs_ReportFailure (hc_mutableState hc) now e
          in (hc\<lparr>hc_mutableState := st\<rparr>,
              if streakDuration \<ge> hc_maxUnhealthyDuration hc then Some e else None))"

definition poll_schedule :: "healthChecker \<Rightarrow> gotime \<Rightarrow> go_panic + healthChecker" where
  "poll_schedule hc now =
     bindE (SchedulePoll (hc_mutableState hc) now (hc_pollFrequency hc))
       (\<lambda>st. Inr (hc\<lparr>hc_mutableState := st\<rparr>))"

definition Poll :: "healthChecker \<Rightarrow> gotime \<Rightarrow> health_error option \<Rightarrow> go_panic + healthChecker \<times> health_error option" where
  "Poll hc now err =
     (let (hc', called) = poll_report hc now err in
      bindE (case called of
               None \<Rightarrow> Inr ()
             | Some e \<Rightarrow> (case run_callback (hc_unhealthyCallback hc') e of Some p \<Rightarrow> Inl p | None \<Rightarrow> Inr ()))
        (\<lambda>_. bindE (poll_schedule hc' now) (\<lambda>hc''. Inr (hc'', called))))"

definition checker_Stop :: "healthChecker \<Rightarrow> go_panic + healthChecker" where
  "checker_Stop hc = bindE (hcs_Stop (hc_mutableState hc)) (\<lambda>st. Inr (hc\<lparr>hc_mutableState := st\<rparr>))"

definition StartNewHealthChecker ::
    "gotime \<Rightarrow> duration \<Rightarrow> unhealthyCallback \<Rightarrow> duration \<Rightarrow> duration \<Rightarrow> healthChecker" where
  "StartNewHealthChecker now pollFrequency callback maxUnhealthyDuration startupGracePeriod =
     (let checker = \<lparr>hc_mutableState =
            \<lparr>hcs_lastSuccessTimestamp = zero_time,
             hcs_mostRecentErrorStreak = \<lparr>es_startOfStreak = zero_time, es_mostRecentError = None\<rparr>,
             hcs_timer = None, hcs_stopped = False\<rparr>,
            hc_pollFrequency = pollFrequency, hc_maxUnhealthyDuration = maxUnhealthyDuration,
            hc_unhealthyCallback = callback\<rparr>
      in checker\<lparr>hc_mutableState := InitializePolling (hc_mutableState checker) now startupGracePeriod\<rparr>)"

section \<open>The registry\<close>

definition HealthCheckPollFrequency :: duration where
  "HealthCheckPollFrequency = 5 * 10 ^ 9"

record healthMonitorMutableState =
  hms_serviceToHealthChecker :: "(string, healthChecker) gomap"
  hms_stopped :: bool
  hms_disabled :: bool

record HealthMonitor =
  hm_mutableState :: healthMonitorMutableState
  hm_startupGracePeriod :: duration
  hm_pollingFrequency :: duration
  hm_enablePanics :: bool

datatype monitor_error =
    ErrServiceAlreadyRegistered string
  | ErrMaxUnhealthyDurationNotPositive string duration

definition newHealthMonitorMutableState :: healthMonitorMutableState where
  "newHealthMonitorMutableState =
     \<lparr>hms_serviceToHealthChecker = [], hms_stopped = False, hms_disabled = False\<rparr>"

definition NewHealthMonitor :: "duration \<Rightarrow> duration \<Rightarrow> bool \<Rightarrow> HealthMonitor" where
  "NewHealthMonitor startupGracePeriod pollingFrequency enablePanics =
     \<lparr>hm_mutableState = newHealthMonitorMutableState, hm_startupGracePeriod = startupGracePeriod,
      hm_pollingFrequency = pollingFrequency, hm_enablePanics = enablePanics\<rparr>"

definition DisableForTesting :: "HealthMonitor \<Rightarrow> HealthMonitor" where
  "DisableForTesting hm = hm\<lparr>hm_mutableState := (hm_mutableState hm)\<lparr>hms_disabled := True\<rparr>\<rparr>"

fun stop_checkers :: "(string, healthChecker) gomap \<Rightarrow> go_panic + (string, healthChecker) gomap" where
  "stop_checkers [] = Inr []"
| "stop_checkers ((name, checker) # rest) =
     bindE (checker_Stop checker) (\<lambda>checker'.
       bindE (stop_checkers rest) (\<lambda>rest'. Inr ((name, checker') # rest')))"

definition hms_Stop :: "healthMonitorMutableState \<Rightarrow> go_panic + healthMonitorMutableState" where
  "hms_Stop ms =
     (if hms_stopped ms then Inr ms
      else bindE (stop_checkers (hms_serviceToHealthChecker ms))
             (\<lambda>checkers. Inr (ms\<lparr>hms_serviceToHealthChecker := checkers, hms_stopped := True\<rparr>)))"

definition monitor_Stop :: "HealthMonitor \<Rightarrow> go_panic + HealthMonitor" where
  "monitor_Stop hm = bindE (hms_Stop (hm_mutableState hm)) (\<lambda>ms. Inr (hm\<lparr>hm_mutableState := ms\<rparr>))"

text \<open>
  The results of a registration: the error, whether the service itself is stopped (it is, if it
  can be, when the monitor has been stopped before), and the new state. The new poller is only
  created where the code calls its creator.
\<close>

definition RegisterHealthChecker ::
    "healthMonitorMutableState \<Rightarrow> string \<Rightarrow> (unit \<Rightarrow> healthChecker) \<Rightarrow>
     (monitor_error option \<times> bool) \<times> healthMonitorMutableState" where
  "RegisterHealthChecker ms serviceName lazyHealthCheckerCreator =
     (if hms_disabled ms then ((None, False), ms)
      else if hms_stopped ms then ((None, True), ms)
      else if map_of (hms_serviceToHealthChecker ms) serviceName \<noteq> None
        then ((Some (ErrServiceAlreadyRegistered serviceName), False), ms)
      else ((None, False),
            ms\<lparr>hms_serviceToHealthChecker :=
                 mput serviceName (lazyHealthCheckerCreator ()) (hms_serviceToHealthChecker ms)\<rparr>))"

definition RegisterServiceWithCallback ::
    "HealthMonitor \<Rightarrow> gotime \<Rightarrow> string \<Rightarrow> duration \<Rightarrow> unhealthyCallback \<Rightarrow>
     (monitor_error option \<times> bool) \<times> HealthMonitor" where
  "RegisterServiceWithCallback hm now serviceName maxUnhealthyDuration callback =
     (if maxUnhealthyDuration \<le> 0
      then ((Some (ErrMaxUnhealthyDurationNotPositive serviceName maxUnhealthyDuration), False), hm)
      else
        let (r, ms) = RegisterHealthChecker (hm_mutableState hm) serviceName
              (\<lambda>_. StartNewHealthChecker now (hm_pollingFrequency hm) callback maxUnhealthyDuration
                     (hm_startupGracePeriod hm))
        in (r, hm\<lparr>hm_mutableState := ms\<rparr>))"

definition RegisterService ::
    "HealthMonitor \<Rightarrow> gotime \<Rightarrow> string \<Rightarrow> duration \<Rightarrow> (monitor_error option \<times> bool) \<times> HealthMonitor" where
  "RegisterService hm now serviceName maxDaemonUnhealthyDuration =
     RegisterServiceWithCallback hm now serviceName maxDaemonUnhealthyDuration
       (if hm_enablePanics hm then PanicServiceNotResponding serviceName
        else LogErrorServiceNotResponding serviceName)"

lemmas health_defs =
  service_ReportSuccess_def service_ReportFailure_def timestampWithError_Update_def
  NewTimeBoundedHealthCheckable_def HealthCheck_def

lemmas poller_defs =
  Poll_def poll_report_def poll_schedule_def SchedulePoll_def hcs_ReportSuccess_def hcs_ReportFailure_def
  UpdateLastError_def errorStreak_Reset_def checker_Stop_def hcs_Stop_def InitializePolling_def

section \<open>The interface of a health-checked service\<close>

type_synonym report = "gotime \<times> service_error option"

fun report_all :: "('s \<Rightarrow> gotime \<Rightarrow> 's) \<Rightarrow> ('s \<Rightarrow> gotime \<Rightarrow> service_error \<Rightarrow> 's) \<Rightarrow> report list \<Rightarrow> 's \<Rightarrow> 's" where
  "report_all succeed fail [] s = s"
| "report_all succeed fail ((t, None) # rs) s = report_all succeed fail rs (succeed s t)"
| "report_all succeed fail ((t, Some e) # rs) s = report_all succeed fail rs (fail s t e)"

lemma report_all_append:
  "report_all succeed fail (rs @ [(t, e)]) s =
     (case e of None \<Rightarrow> succeed (report_all succeed fail rs s) t
      | Some x \<Rightarrow> fail (report_all succeed fail rs s) t x)"
  by (induction succeed fail rs s rule: report_all.induct) (simp_all split: option.splits)

text \<open>
  What the poller relies on: with a clock that advances, a service is healthy after it reports a
  success and unhealthy after it reports a failure. \<open>latest\<close> is the time of the latest report.
\<close>

locale health_checkable =
  fixes check :: "'s \<Rightarrow> health_error option"
    and succeed :: "'s \<Rightarrow> gotime \<Rightarrow> 's"
    and fail :: "'s \<Rightarrow> gotime \<Rightarrow> service_error \<Rightarrow> 's"
    and latest :: "'s \<Rightarrow> gotime"
  assumes healthy_after_success: "0 < t \<Longrightarrow> latest s < t \<Longrightarrow> check (succeed s t) = None"
    and unhealthy_after_failure: "latest s < t \<Longrightarrow> check (fail s t e) \<noteq> None"
    and latest_success: "latest s < t \<Longrightarrow> latest (succeed s t) = t"
    and latest_failure: "latest s < t \<Longrightarrow> latest (fail s t e) = t"
begin

lemma latest_report_all:
  "sorted_wrt (<) (latest s # map fst rs) \<Longrightarrow> latest (report_all succeed fail rs s) = last (latest s # map fst rs)"
proof (induction rs arbitrary: s)
  case (Cons r rs)
  obtain t e where r: "r = (t, e)" by (cases r)
  have "latest s < t" using Cons.prems by (simp add: r)
  then show ?case
    using Cons.IH [of "succeed s t"] Cons.IH [of "fail s t (the e)"] Cons.prems
    by (cases e) (simp_all add: r latest_success latest_failure)
qed simp

lemma healthy_iff_last_report:
  assumes "sorted_wrt (<) (latest s # map fst rs)" and "0 \<le> latest s" and "check s \<noteq> None"
  shows "check (report_all succeed fail rs s) = None \<longleftrightarrow> rs \<noteq> [] \<and> snd (last rs) = None"
proof (cases rs rule: rev_exhaust)
  case Nil
  then show ?thesis using assms(3) by simp
next
  case (snoc xs r)
  obtain t e where r: "r = (t, e)" by (cases r)
  have sorted: "sorted_wrt (<) (latest s # map fst xs)" and lt: "\<forall>x \<in> set (latest s # map fst xs). x < t"
    using assms(1) by (auto simp: snoc r sorted_wrt_append)
  have "last (latest s # map fst xs) < t" using lt last_in_set by blast
  then have "latest (report_all succeed fail xs s) < t" using latest_report_all [OF sorted] by simp
  moreover have "0 < t" using lt assms(2) by auto
  ultimately show ?thesis
    by (cases e) (use healthy_after_success unhealthy_after_failure in \<open>auto simp: snoc r report_all_append\<close>)
qed

end

interpretation service: health_checkable "\<lambda>h. fst (HealthCheck h now)" service_ReportSuccess service_ReportFailure
    "\<lambda>h. max (tb_lastSuccessfulUpdate h) (twe_timestamp (tb_lastFailedUpdate h))" for now
  by unfold_locales (auto simp: health_defs go_defs Let_def)

abbreviation service_history :: "report list \<Rightarrow> timeBoundedHealthCheckable \<Rightarrow> timeBoundedHealthCheckable" where
  "service_history \<equiv> report_all service_ReportSuccess service_ReportFailure"

text \<open>
  The health of a service. With an advancing clock \<open>HealthCheck\<close> returns no error exactly if
  the last report of the service was a success; how long ago that was makes no difference.
\<close>

theorem HealthCheck_last_report:
  assumes "0 < t0" and "sorted_wrt (<) (t0 # map fst rs)"
  shows "fst (HealthCheck (service_history rs (NewTimeBoundedHealthCheckable name t0)) now) = None \<longleftrightarrow>
    rs \<noteq> [] \<and> snd (last rs) = None"
  using assms by (intro service.healthy_iff_last_report) (simp_all add: health_defs go_defs Let_def)

theorem HealthCheck_last_report_witness:
  "fst (HealthCheck (service_history [(2, None), (5, Some (ErrReported ''x'')), (7, None)]
      (NewTimeBoundedHealthCheckable ''price-daemon'' 1)) (10 ^ 15)) = None"
  using HealthCheck_last_report [of 1 "[(2, None), (5, Some (ErrReported ''x'')), (7, None)]" "''price-daemon''" "10 ^ 15"]
  by simp

section \<open>Error streaks\<close>

text \<open>A sequence of polls of a checker whose callback logs; the errors its callback is called with.\<close>

fun polls :: "(gotime \<times> health_error option) list \<Rightarrow> healthChecker \<Rightarrow> go_panic + healthChecker \<times> health_error option list" where
  "polls [] hc = Inr (hc, [])"
| "polls ((now, err) # es) hc =
     bindE (Poll hc now err) (\<lambda>(hc', called).
       bindE (polls es hc') (\<lambda>(hc'', calleds). Inr (hc'', called # calleds)))"

text \<open>The unbroken run of failed polls at the end of a history, and the time it began.\<close>

definition failing_since :: "(gotime \<times> health_error option) list \<Rightarrow> gotime option" where
  "failing_since es =
     (let run = takeWhile (\<lambda>(t, err). err \<noteq> None) (rev es) in if run = [] then None else Some (fst (last run)))"

lemma failing_since_Nil [simp]: "failing_since [] = None"
  by (simp add: failing_since_def)

lemma failing_since_ok [simp]: "failing_since (es @ [(t, None)]) = None"
  by (simp add: failing_since_def)

lemma failing_since_fail [simp]:
  "failing_since (es @ [(t, Some e)]) = Some (case failing_since es of None \<Rightarrow> t | Some s \<Rightarrow> s)"
  by (simp add: failing_since_def Let_def)

definition checker_tracks :: "(gotime \<times> health_error option) list \<Rightarrow> healthChecker \<Rightarrow> bool" where
  "checker_tracks es hc \<longleftrightarrow>
     (let streak = hcs_mostRecentErrorStreak (hc_mutableState hc) in
      es_startOfStreak streak = (case failing_since es of None \<Rightarrow> 0 | Some t \<Rightarrow> t) \<and>
      es_mostRecentError streak = (if es = [] then None else snd (last es)))"

lemma poll_tracks:
  assumes "checker_tracks es hc" and "t \<noteq> 0" and "\<forall>x \<in> set es. fst x \<noteq> 0"
  shows "checker_tracks (es @ [(t, err)]) (fst (poll_report hc t err))"
    and "snd (poll_report hc t err) =
      (if err \<noteq> None \<and> time_Sub t (the (failing_since (es @ [(t, err)]))) \<ge> hc_maxUnhealthyDuration hc
       then err else None)"
proof -
  have nz: "s \<noteq> 0" if "failing_since es = Some s" for s
  proof -
    have "s \<in> fst ` set es"
      using that last_in_set set_takeWhileD
      by (fastforce simp: failing_since_def Let_def split: if_splits)
    then show ?thesis using assms(3) by auto
  qed
  show "checker_tracks (es @ [(t, err)]) (fst (poll_report hc t err))"
    and "snd (poll_report hc t err) =
      (if err \<noteq> None \<and> time_Sub t (the (failing_since (es @ [(t, err)]))) \<ge> hc_maxUnhealthyDuration hc
       then err else None)"
    using assms(1,2) nz
    by (cases err; cases "failing_since es"; simp add: checker_tracks_def poller_defs go_defs Let_def)+
qed

definition callback_due :: "duration \<Rightarrow> (gotime \<times> health_error option) list \<Rightarrow> health_error option" where
  "callback_due maxUnhealthy es =
     (case failing_since es of
        None \<Rightarrow> None
      | Some t \<Rightarrow> if time_Sub (fst (last es)) t \<ge> maxUnhealthy then snd (last es) else None)"

definition same_setup :: "healthChecker \<Rightarrow> healthChecker \<Rightarrow> bool" where
  "same_setup hc hc' \<longleftrightarrow> hc_maxUnhealthyDuration hc' = hc_maxUnhealthyDuration hc \<and>
     hc_unhealthyCallback hc' = hc_unhealthyCallback hc \<and>
     (hcs_timer (hc_mutableState hc) \<noteq> None \<longrightarrow> hcs_timer (hc_mutableState hc') \<noteq> None)"

lemma Poll_step:
  fixes err :: "health_error option"
  assumes "checker_tracks es hc" and "t \<noteq> 0" and "\<forall>x \<in> set es. fst x \<noteq> 0"
    and "hcs_timer (hc_mutableState hc) \<noteq> None"
  defines "due \<equiv> callback_due (hc_maxUnhealthyDuration hc) (es @ [(t, err)])"
  shows "case (hc_unhealthyCallback hc, due) of
      (PanicServiceNotResponding name, Some e) \<Rightarrow> Poll hc t err = Inl (PanicServiceUnhealthy name)
    | _ \<Rightarrow> (\<exists>hc'. Poll hc t err = Inr (hc', due) \<and> checker_tracks (es @ [(t, err)]) hc' \<and> same_setup hc hc')"
proof -
  obtain hc1 called where r: "poll_report hc t err = (hc1, called)" by (cases "poll_report hc t err")
  have "called = (if err \<noteq> None \<and> time_Sub t (the (failing_since (es @ [(t, err)]))) \<ge> hc_maxUnhealthyDuration hc
      then err else None)"
    using poll_tracks(2) [OF assms(1-3), of err] by (simp add: r)
  then have called: "called = due" by (cases err) (simp_all add: due_def callback_due_def)
  have tracks: "checker_tracks (es @ [(t, err)]) hc1" using poll_tracks(1) [OF assms(1-3), of err] by (simp add: r)
  have kept: "same_setup hc hc1" "hc_pollFrequency hc1 = hc_pollFrequency hc"
    using r by (auto simp: same_setup_def poller_defs Let_def split: option.splits)
  then obtain hc2 where hc2: "poll_schedule hc1 t = Inr hc2" "same_setup hc hc2" "checker_tracks (es @ [(t, err)]) hc2"
    using tracks assms(4)
    by (cases "hcs_stopped (hc_mutableState hc1)")
      (auto simp: same_setup_def checker_tracks_def poll_schedule_def SchedulePoll_def split: option.splits)
  have cb: "hc_unhealthyCallback hc1 = hc_unhealthyCallback hc" using kept(1) by (simp add: same_setup_def)
  show ?thesis
    using hc2 cb
    by (cases "hc_unhealthyCallback hc"; cases due) (simp_all add: Poll_def r called)
qed

lemma polls_callbacks:
  assumes "checker_tracks past hc" and "\<forall>x \<in> set (past @ es). fst x \<noteq> 0" and "hcs_timer (hc_mutableState hc) \<noteq> None"
  defines "dues \<equiv> map (\<lambda>i. callback_due (hc_maxUnhealthyDuration hc) (past @ take (Suc i) es)) [0..<length es]"
  shows "case hc_unhealthyCallback hc of
      PanicServiceNotResponding name \<Rightarrow>
        if \<exists>d \<in> set dues. d \<noteq> None then polls es hc = Inl (PanicServiceUnhealthy name)
        else \<exists>hc'. polls es hc = Inr (hc', dues)
    | LogErrorServiceNotResponding name \<Rightarrow> (\<exists>hc'. polls es hc = Inr (hc', dues))"
  using assms(1-3) unfolding dues_def
proof (induction es arbitrary: past hc)
  case Nil
  then show ?case by (simp split: unhealthyCallback.splits)
next
  case (Cons x es)
  obtain t err where x: "x = (t, err)" by (cases x)
  let ?due = "callback_due (hc_maxUnhealthyDuration hc) (past @ [(t, err)])"
  let ?rest = "\<lambda>mx. map (\<lambda>i. callback_due mx ((past @ [(t, err)]) @ take (Suc i) es)) [0..<length es]"
  have shift: "map (\<lambda>i. callback_due mx (past @ take (Suc i) (x # es))) [0..<length (x # es)] =
      callback_due mx (past @ [(t, err)]) # ?rest mx" for mx
    by (simp add: x upt_conv_Cons map_Suc_upt [symmetric] del: upt_Suc)
  have "t \<noteq> 0" "\<forall>x \<in> set past. fst x \<noteq> 0" using Cons.prems(2) by (auto simp: x)
  note step = Poll_step [OF Cons.prems(1) this Cons.prems(3), of err]
  show ?case
  proof (cases "\<exists>name e. hc_unhealthyCallback hc = PanicServiceNotResponding name \<and> ?due = Some e")
    case True
    then show ?thesis using step unfolding shift by (auto simp: x)
  next
    case False
    with step obtain hc' where hc': "Poll hc t err = Inr (hc', ?due)" "checker_tracks (past @ [(t, err)]) hc'"
      "same_setup hc hc'" by (auto split: unhealthyCallback.splits option.splits)
    have "hcs_timer (hc_mutableState hc') \<noteq> None" "hc_maxUnhealthyDuration hc' = hc_maxUnhealthyDuration hc"
      "hc_unhealthyCallback hc' = hc_unhealthyCallback hc"
      using hc'(3) Cons.prems(3) by (simp_all add: same_setup_def)
    with Cons.IH [OF hc'(2) _ this(1)] Cons.prems(2) False show ?thesis
      unfolding shift by (auto simp: x hc'(1) split: unhealthyCallback.splits if_splits)
  qed
qed

text \<open>
  C28: the callback of a service. Over any sequence of polls of a new checker, the callback is due
  exactly at the polls that fail and whose unbroken run of failures began at least
  \<open>maxUnhealthyDuration\<close> earlier. A logging callback is called at exactly those polls; the
  panicking one brings the daemon down if there is such a poll, and no poll panics otherwise.
\<close>

theorem polls_unhealthy_callback:
  fixes maxUnhealthy :: duration
  assumes "\<forall>x \<in> set es. fst x \<noteq> 0"
  defines "dues \<equiv> map (\<lambda>i. callback_due maxUnhealthy (take (Suc i) es)) [0..<length es]"
  shows "(\<exists>hc'. polls es (StartNewHealthChecker now freq (LogErrorServiceNotResponding name) maxUnhealthy grace)
       = Inr (hc', dues)) \<and>
    (if \<exists>d \<in> set dues. d \<noteq> None
     then polls es (StartNewHealthChecker now freq (PanicServiceNotResponding name) maxUnhealthy grace)
       = Inl (PanicServiceUnhealthy name)
     else \<exists>hc'. polls es (StartNewHealthChecker now freq (PanicServiceNotResponding name) maxUnhealthy grace)
       = Inr (hc', dues))"
proof -
  have new: "checker_tracks [] (StartNewHealthChecker now freq cb maxUnhealthy grace)"
    "hcs_timer (hc_mutableState (StartNewHealthChecker now freq cb maxUnhealthy grace)) \<noteq> None"
    "hc_unhealthyCallback (StartNewHealthChecker now freq cb maxUnhealthy grace) = cb"
    "hc_maxUnhealthyDuration (StartNewHealthChecker now freq cb maxUnhealthy grace) = maxUnhealthy" for cb
    by (simp_all add: StartNewHealthChecker_def checker_tracks_def InitializePolling_def go_defs)
  have nz: "\<forall>x \<in> set ([] @ es). fst x \<noteq> 0" using assms(1) by simp
  show ?thesis
    using polls_callbacks [OF new(1) [of "LogErrorServiceNotResponding name"] nz new(2)]
      polls_callbacks [OF new(1) [of "PanicServiceNotResponding name"] nz new(2)]
    unfolding new append_Nil dues_def by simp
qed

theorem polls_unhealthy_callback_witness:
  "polls [(10, Some (ErrNoSuccessfulUpdate 1 None)), (20, None), (30, Some (ErrNoSuccessfulUpdate 2 None)),
      (40, Some (ErrNoSuccessfulUpdate 3 None))]
     (StartNewHealthChecker 1 5 (PanicServiceNotResponding ''price-daemon'') 10 1) =
   Inl (PanicServiceUnhealthy ''price-daemon'')"
proof -
  let ?es = "[(10, Some (ErrNoSuccessfulUpdate 1 None)), (20, None), (30, Some (ErrNoSuccessfulUpdate 2 None)),
      (40, Some (ErrNoSuccessfulUpdate 3 None))]"
  have "\<exists>d \<in> set (map (\<lambda>i. callback_due 10 (take (Suc i) ?es)) [0..<length ?es]). d \<noteq> None" by code_simp
  then show ?thesis
    using polls_unhealthy_callback [where es = ?es and maxUnhealthy = 10 and now = 1 and freq = 5 and
        name = "''price-daemon''" and grace = 1] by simp
qed

section \<open>Interleaving of polls, timer and Stop\<close>

datatype poll_phase = PollStarted | PollReported

record checker_run =
  cr_checker :: healthChecker
  cr_now :: gotime
  cr_polls :: "poll_phase list"
  cr_stopCalled :: bool
  cr_startedAfterStop :: nat

abbreviation cr_timer :: "checker_run \<Rightarrow> timer option" where
  "cr_timer s \<equiv> hcs_timer (hc_mutableState (cr_checker s))"

definition new_run :: "healthChecker \<Rightarrow> gotime \<Rightarrow> checker_run" where
  "new_run hc now = \<lparr>cr_checker = hc, cr_now = now, cr_polls = [], cr_stopCalled = False, cr_startedAfterStop = 0\<rparr>"

text \<open>
  One step: the clock advances; the timer fires and starts a poll; a poll in flight takes the
  answer of the service; a poll in flight schedules the next one and ends; somebody calls \<open>Stop\<close>.
  A callback that panics ends the run, so a report is a step only if it does not panic.
\<close>

inductive checker_step :: "checker_run \<Rightarrow> checker_run \<Rightarrow> bool" where
  tick: "cr_now s \<le> t \<Longrightarrow> checker_step s (s\<lparr>cr_now := t\<rparr>)"
| fire: "cr_timer s = Some (TimerArmed t) \<Longrightarrow> t \<le> cr_now s \<Longrightarrow>
    checker_step s (s\<lparr>cr_checker := (cr_checker s)\<lparr>hc_mutableState :=
        (hc_mutableState (cr_checker s))\<lparr>hcs_timer := Some TimerIdle\<rparr>\<rparr>,
      cr_polls := cr_polls s @ [PollStarted],
      cr_startedAfterStop := cr_startedAfterStop s + (if cr_stopCalled s then 1 else 0)\<rparr>)"
| report: "i < length (cr_polls s) \<Longrightarrow> cr_polls s ! i = PollStarted \<Longrightarrow>
    poll_report (cr_checker s) (cr_now s) err = (hc, called) \<Longrightarrow>
    called = None \<or> run_callback (hc_unhealthyCallback hc) (the called) = None \<Longrightarrow>
    checker_step s (s\<lparr>cr_checker := hc, cr_polls := (cr_polls s)[i := PollReported]\<rparr>)"
| schedule: "cr_polls s = ps @ PollReported # ps' \<Longrightarrow> poll_schedule (cr_checker s) (cr_now s) = Inr hc \<Longrightarrow>
    checker_step s (s\<lparr>cr_checker := hc, cr_polls := ps @ ps'\<rparr>)"
| stop: "checker_Stop (cr_checker s) = Inr hc \<Longrightarrow> checker_step s (s\<lparr>cr_checker := hc, cr_stopCalled := True\<rparr>)"

inductive checker_reachable :: "checker_run \<Rightarrow> checker_run \<Rightarrow> bool" for s0 where
  start: "checker_reachable s0 s0"
| step: "checker_reachable s0 s \<Longrightarrow> checker_step s s' \<Longrightarrow> checker_reachable s0 s'"

definition timer_armed :: "timer option \<Rightarrow> nat" where
  "timer_armed t = (case t of Some (TimerArmed _) \<Rightarrow> 1 | _ \<Rightarrow> 0)"

lemma timer_armed_simps [simp]:
  "timer_armed (Some (TimerArmed d)) = 1" "timer_armed (Some TimerIdle) = 0" "timer_armed None = 0"
  by (simp_all add: timer_armed_def)

definition run_ok :: "checker_run \<Rightarrow> bool" where
  "run_ok s \<longleftrightarrow> cr_timer s \<noteq> None \<and> hcs_stopped (hc_mutableState (cr_checker s)) = cr_stopCalled s \<and>
     cr_startedAfterStop s = 0 \<and> length (cr_polls s) \<le> 1 \<and>
     (if cr_stopCalled s then timer_armed (cr_timer s) = 0
      else timer_armed (cr_timer s) + length (cr_polls s) = 1)"

lemma poll_report_keeps:
  "poll_report hc now err = (hc', called) \<Longrightarrow>
     hcs_timer (hc_mutableState hc') = hcs_timer (hc_mutableState hc) \<and>
     hcs_stopped (hc_mutableState hc') = hcs_stopped (hc_mutableState hc)"
  by (auto simp: poller_defs Let_def split: option.splits)

lemma checker_step_ok: "checker_step s s' \<Longrightarrow> run_ok s \<Longrightarrow> run_ok s'"
proof (induction rule: checker_step.induct)
  case (report i s err hc called)
  then show ?case using poll_report_keeps [OF report(3)] by (simp add: run_ok_def)
next
  case (schedule s ps ps' hc)
  then show ?case by (auto simp: run_ok_def poll_schedule_def SchedulePoll_def split: if_splits option.splits)
next
  case (stop s hc)
  then show ?case by (auto simp: run_ok_def checker_Stop_def hcs_Stop_def split: if_splits option.splits)
qed (auto simp: run_ok_def split: if_splits)

lemma checker_reachable_ok: "checker_reachable s0 s \<Longrightarrow> run_ok s0 \<Longrightarrow> run_ok s"
  by (induction rule: checker_reachable.induct) (auto intro: checker_step_ok)

text \<open>
  In every interleaving of the timer, the polls and \<open>Stop\<close>, the polls of a checker never
  overlap; until it is stopped it always has exactly one poll in flight or scheduled (so it never
  stops polling); after \<open>Stop\<close> no poll starts, and neither \<open>Stop\<close> nor the scheduling of a poll
  dereferences a nil timer.
\<close>

theorem checker_polls_invariant:
  assumes "checker_reachable (new_run (StartNewHealthChecker t0 freq cb maxUnhealthy grace) t0) s"
  shows "length (cr_polls s) \<le> 1 \<and> cr_startedAfterStop s = 0 \<and>
    (\<not> cr_stopCalled s \<longrightarrow> timer_armed (cr_timer s) + length (cr_polls s) = 1) \<and>
    (cr_stopCalled s \<longrightarrow> timer_armed (cr_timer s) = 0) \<and>
    (\<exists>hc. checker_Stop (cr_checker s) = Inr hc) \<and> (\<exists>hc. poll_schedule (cr_checker s) (cr_now s) = Inr hc)"
proof -
  have "run_ok (new_run (StartNewHealthChecker t0 freq cb maxUnhealthy grace) t0)"
    by (simp add: run_ok_def new_run_def StartNewHealthChecker_def InitializePolling_def)
  from checker_reachable_ok [OF assms this] show ?thesis
    by (auto simp: run_ok_def checker_Stop_def hcs_Stop_def poll_schedule_def SchedulePoll_def split: if_splits)
qed

theorem checker_polls_invariant_witness:
  "\<exists>s. checker_reachable (new_run (StartNewHealthChecker 1 5 (LogErrorServiceNotResponding ''d'') 10 2) 1) s \<and>
     cr_stopCalled s \<and> length (cr_polls s) = 1 \<and> timer_armed (cr_timer s) = 0"
proof -
  let ?s0 = "new_run (StartNewHealthChecker 1 5 (LogErrorServiceNotResponding ''d'') 10 2) 1"
  let ?s1 = "?s0\<lparr>cr_now := 4\<rparr>"
  let ?hc = "(cr_checker ?s1)\<lparr>hc_mutableState := (hc_mutableState (cr_checker ?s1))\<lparr>hcs_timer := Some TimerIdle\<rparr>\<rparr>"
  let ?s2 = "?s1\<lparr>cr_checker := ?hc, cr_polls := [PollStarted]\<rparr>"
  let ?s3 = "?s2\<lparr>cr_checker := ?hc\<lparr>hc_mutableState := (hc_mutableState ?hc)\<lparr>hcs_stopped := True\<rparr>\<rparr>, cr_stopCalled := True\<rparr>"
  have "checker_step ?s0 ?s1" by (rule checker_step.tick) (simp add: new_run_def)
  moreover have "checker_step ?s1 ?s2"
    using checker_step.fire [of ?s1 3]
    by (simp add: new_run_def StartNewHealthChecker_def InitializePolling_def go_defs)
  moreover have "checker_step ?s2 ?s3"
    using checker_step.stop [of ?s2 "?hc\<lparr>hc_mutableState := (hc_mutableState ?hc)\<lparr>hcs_stopped := True\<rparr>\<rparr>"]
    by (simp add: new_run_def StartNewHealthChecker_def InitializePolling_def go_defs checker_Stop_def hcs_Stop_def)
  ultimately have "checker_reachable ?s0 ?s3"
    by (meson checker_reachable.start checker_reachable.step)
  from checker_polls_invariant [OF this] this show ?thesis
    by (intro exI [of _ ?s3]) (simp add: new_run_def)
qed

section \<open>The registry\<close>

definition monitor_ok :: "HealthMonitor \<Rightarrow> bool" where
  "monitor_ok hm \<longleftrightarrow> gomap_ok (hms_serviceToHealthChecker (hm_mutableState hm)) \<and>
     (\<forall>x \<in> set (hms_serviceToHealthChecker (hm_mutableState hm)).
        hcs_timer (hc_mutableState (snd x)) \<noteq> None \<and> hc_maxUnhealthyDuration (snd x) > 0 \<and>
        (hms_stopped (hm_mutableState hm) \<longrightarrow> hcs_stopped (hc_mutableState (snd x)) ))"

datatype monitor_op = OpRegister gotime string duration | OpStop | OpDisable

fun apply_monitor_op :: "monitor_op \<Rightarrow> HealthMonitor \<Rightarrow> go_panic + HealthMonitor" where
  "apply_monitor_op (OpRegister now name maxUnhealthy) hm = Inr (snd (RegisterService hm now name maxUnhealthy))"
| "apply_monitor_op OpStop hm = monitor_Stop hm"
| "apply_monitor_op OpDisable hm = Inr (DisableForTesting hm)"

fun monitor_run :: "monitor_op list \<Rightarrow> HealthMonitor \<Rightarrow> go_panic + HealthMonitor" where
  "monitor_run [] hm = Inr hm"
| "monitor_run (op # ops) hm = bindE (apply_monitor_op op hm) (monitor_run ops)"

lemma stop_checkers_ok:
  assumes "\<forall>x \<in> set cs. hcs_timer (hc_mutableState (snd x)) \<noteq> None \<and> hc_maxUnhealthyDuration (snd x) > 0"
  shows "\<exists>cs'. stop_checkers cs = Inr cs' \<and> map fst cs' = map fst cs \<and>
    (\<forall>x \<in> set cs'. hcs_timer (hc_mutableState (snd x)) \<noteq> None \<and> hc_maxUnhealthyDuration (snd x) > 0 \<and>
       hcs_stopped (hc_mutableState (snd x)))"
  using assms by (induction cs rule: stop_checkers.induct) (auto simp: checker_Stop_def hcs_Stop_def)

lemma monitor_Stop_ok:
  assumes "monitor_ok hm"
  shows "\<exists>hm'. monitor_Stop hm = Inr hm' \<and> monitor_ok hm' \<and> hms_stopped (hm_mutableState hm')"
proof (cases "hms_stopped (hm_mutableState hm)")
  case True
  then show ?thesis using assms by (simp add: monitor_Stop_def hms_Stop_def)
next
  case False
  from assms stop_checkers_ok [of "hms_serviceToHealthChecker (hm_mutableState hm)"] obtain cs' where
    "stop_checkers (hms_serviceToHealthChecker (hm_mutableState hm)) = Inr cs'"
    "map fst cs' = map fst (hms_serviceToHealthChecker (hm_mutableState hm))"
    "\<forall>x \<in> set cs'. hcs_timer (hc_mutableState (snd x)) \<noteq> None \<and> hc_maxUnhealthyDuration (snd x) > 0 \<and>
       hcs_stopped (hc_mutableState (snd x))" by (auto simp: monitor_ok_def)
  then show ?thesis using False assms by (simp add: monitor_Stop_def hms_Stop_def monitor_ok_def)
qed

lemma RegisterService_ok:
  assumes "monitor_ok hm"
  shows "monitor_ok (snd (RegisterService hm now name maxUnhealthy))"
proof -
  have "monitor_ok (snd (RegisterServiceWithCallback hm now name maxUnhealthy cb))" for cb
    using assms set_mput_subset
    by (fastforce simp: RegisterServiceWithCallback_def RegisterHealthChecker_def monitor_ok_def Let_def
        StartNewHealthChecker_def InitializePolling_def)
  then show ?thesis by (simp add: RegisterService_def)
qed

lemma monitor_op_ok:
  assumes "monitor_ok hm"
  shows "\<exists>hm'. apply_monitor_op op hm = Inr hm' \<and> monitor_ok hm'"
proof (cases op)
  case OpStop
  then show ?thesis using monitor_Stop_ok [OF assms] by auto
next
  case OpDisable
  then show ?thesis using assms by (simp add: DisableForTesting_def monitor_ok_def)
qed (simp add: RegisterService_ok [OF assms])

lemma monitor_run_ok: "monitor_ok hm \<Longrightarrow> \<exists>hm'. monitor_run ops hm = Inr hm' \<and> monitor_ok hm'"
proof (induction ops arbitrary: hm)
  case (Cons op ops)
  from monitor_op_ok [OF Cons.prems] Cons.IH show ?case by (metis bindE.simps(2) monitor_run.simps(2))
qed simp

lemma monitor_run_append: "monitor_run (ops @ ops') hm = bindE (monitor_run ops hm) (monitor_run ops')"
proof (induction ops arbitrary: hm)
  case (Cons op ops)
  show ?case by (cases "apply_monitor_op op hm") (simp_all add: Cons.IH)
qed simp

text \<open>
  Shutting the monitor down. No sequence of registrations, stops and disablings panics; after a
  \<open>Stop\<close> all its checkers are stopped and stay stopped, whatever is called next, and a service that
  tries to register is told so by being stopped itself rather than by an error.
\<close>

theorem monitor_stop_is_final:
  "\<exists>hm. monitor_run (ops @ OpStop # ops') (NewHealthMonitor grace freq panics) = Inr hm \<and>
     (\<forall>x \<in> set (hms_serviceToHealthChecker (hm_mutableState hm)). hcs_stopped (hc_mutableState (snd x))) \<and>
     (\<forall>now name mx. 0 < mx \<longrightarrow>
        RegisterService hm now name mx = ((None, \<not> hms_disabled (hm_mutableState hm)), hm))"
proof -
  have new: "monitor_ok (NewHealthMonitor grace freq panics)"
    by (simp add: monitor_ok_def NewHealthMonitor_def newHealthMonitorMutableState_def)
  have keep: "hms_stopped (hm_mutableState hm')"
    if "monitor_run ops hm = Inr hm'" "hms_stopped (hm_mutableState hm)" for ops hm hm'
    using that
  proof (induction ops arbitrary: hm)
    case (Cons op ops)
    then obtain hm1 where hm1: "apply_monitor_op op hm = Inr hm1" "monitor_run ops hm1 = Inr hm'" by auto
    have "hms_stopped (hm_mutableState hm1)"
      using hm1(1) Cons.prems(2)
      by (cases op) (auto simp: RegisterService_def RegisterServiceWithCallback_def RegisterHealthChecker_def
          monitor_Stop_def hms_Stop_def DisableForTesting_def Let_def split: if_splits)
    then show ?case using Cons.IH hm1(2) by blast
  qed simp
  from monitor_run_ok [OF new] obtain hm1 where hm1: "monitor_run ops (NewHealthMonitor grace freq panics) = Inr hm1"
    "monitor_ok hm1" by blast
  from monitor_Stop_ok [OF hm1(2)] obtain hm2 where hm2: "monitor_Stop hm1 = Inr hm2" "monitor_ok hm2"
    "hms_stopped (hm_mutableState hm2)" by blast
  from monitor_run_ok [OF hm2(2)] obtain hm where hm: "monitor_run ops' hm2 = Inr hm" "monitor_ok hm" by blast
  have st: "hms_stopped (hm_mutableState hm)" using keep [OF hm(1) hm2(3)] .
  have "monitor_run (ops @ OpStop # ops') (NewHealthMonitor grace freq panics) = Inr hm"
    using hm1(1) hm2(1) hm(1) by (simp add: monitor_run_append)
  then show ?thesis
    using hm(2) st by (auto simp: monitor_ok_def RegisterService_def RegisterServiceWithCallback_def
        RegisterHealthChecker_def Let_def)
qed

theorem monitor_stop_is_final_witness:
  "\<exists>hm. monitor_run [OpRegister 1 ''a'' 10, OpStop, OpRegister 2 ''b'' 10] (NewHealthMonitor 5 5 True) = Inr hm \<and>
     RegisterService hm 3 ''c'' 10 = ((None, \<not> hms_disabled (hm_mutableState hm)), hm)"
  using monitor_stop_is_final [of "[OpRegister 1 ''a'' 10]" "[OpRegister 2 ''b'' 10]" 5 5 True] by auto

end
