(* ===== verification/GoStrings.thy ===== *)
theory GoStrings
  imports Prelude "HOL-Library.Sublist"
begin

text \<open>
  The functions of Go's \<open>strings\<close> and \<open>strconv\<close> packages that the reporter and the bridge client use,
  and the parsing of the endpoint lists of the environment (\<open>utils/eth_rpc.go\<close>). Strings are lists
  of bytes; case conversion and white space are those of ASCII text.
\<close>

definition to_lower :: "char \<Rightarrow> char" where
  "to_lower c = (let n = of_char c :: nat in if 65 \<le> n \<and> n \<le> 90 then char_of (n + 32) else c)"

definition strings_ToLower :: "string \<Rightarrow> string" where
  "strings_ToLower s = map to_lower s"

fun strings_HasPrefix :: "string \<Rightarrow> string \<Rightarrow> bool" where
  "strings_HasPrefix s [] = True"
| "strings_HasPrefix [] (p # ps) = False"
| "strings_HasPrefix (c # cs) (p # ps) = (c = p \<and> strings_HasPrefix cs ps)"

fun strings_Contains :: "string \<Rightarrow> string \<Rightarrow> bool" where
  "strings_Contains [] sub = (sub = [])"
| "strings_Contains (c # cs) sub = (strings_HasPrefix (c # cs) sub \<or> strings_Contains cs sub)"

definition strings_EqualFold :: "string \<Rightarrow> string \<Rightarrow> bool" where
  "strings_EqualFold s t \<longleftrightarrow> strings_ToLower s = strings_ToLower t"

definition is_space :: "char \<Rightarrow> bool" where
  "is_space c = (let n = of_char c :: nat in n = 32 \<or> (9 \<le> n \<and> n \<le> 13))"

definition strings_TrimSpace :: "string \<Rightarrow> string" where
  "strings_TrimSpace s = rev (dropWhile is_space (rev (dropWhile is_space s)))"

fun strings_Split :: "char \<Rightarrow> string \<Rightarrow> string list" where
  "strings_Split sep [] = [[]]"
| "strings_Split sep (c # s) =
     (if c = sep then [] # strings_Split sep s
      else case strings_Split sep s of (p # ps) \<Rightarrow> (c # p) # ps | [] \<Rightarrow> [[c]])"

lemma strings_HasPrefix_iff: "strings_HasPrefix s p \<longleftrightarrow> (\<exists>t. s = p @ t)"
  by (induction s p rule: strings_HasPrefix.induct) auto

lemma strings_Contains_iff: "strings_Contains s sub \<longleftrightarrow> (\<exists>a b. s = a @ sub @ b)"
proof (induction s)
  case (Cons c cs)
  have "(\<exists>a b. c # cs = a @ sub @ b) \<longleftrightarrow> (\<exists>b. c # cs = sub @ b) \<or> (\<exists>a b. cs = a @ sub @ b)"
    by (metis append_Cons append_Nil neq_Nil_conv list.inject)
  then show ?case using Cons.IH by (simp add: strings_HasPrefix_iff)
qed simp

lemma strings_Split_ne: "strings_Split sep s \<noteq> []"
  by (induction s) (auto split: list.splits)

section \<open>Lists of endpoints\<close>

datatype endpoints_error = ErrEmptyEndpoint | ErrEndpointsNotSet string

fun endpoints_loop :: "string list \<Rightarrow> string list \<Rightarrow> endpoints_error + string list" where
  "endpoints_loop [] endpoints = Inr endpoints"
| "endpoints_loop (part # rest) endpoints =
     (let endpoint = strings_TrimSpace part in
      if endpoint = '''' then Inl ErrEmptyEndpoint
      else endpoints_loop rest (endpoints @ [endpoint]))"

definition ParseEndpointList :: "string \<Rightarrow> endpoints_error + string list" where
  "ParseEndpointList value = endpoints_loop (strings_Split (CHR '','') value) []"

definition EnvBridgeChainRPCNodes :: string where
  "EnvBridgeChainRPCNodes = ''BRIDGE_CHAIN_RPC_NODES''"

definition EnvETHMainnetRPCNodes :: string where
  "EnvETHMainnetRPCNodes = ''ETH_MAINNET_RPC_NODES''"

text \<open>\<open>getenv\<close> is the environment of the process; an unset variable reads as the empty string.\<close>

definition BridgeChainRPCNodesFromEnv :: "(string \<Rightarrow> string) \<Rightarrow> endpoints_error + string list" where
  "BridgeChainRPCNodesFromEnv getenv =
     (let value = strings_TrimSpace (getenv EnvBridgeChainRPCNodes) in
      if value = '''' then Inl (ErrEndpointsNotSet EnvBridgeChainRPCNodes)
      else ParseEndpointList value)"

definition ETHMainnetRPCNodesFromEnv :: "(string \<Rightarrow> string) \<Rightarrow> endpoints_error + string list" where
  "ETHMainnetRPCNodesFromEnv getenv =
     (let value = strings_TrimSpace (getenv EnvETHMainnetRPCNodes) in
      if value = '''' then Inl (ErrEndpointsNotSet EnvETHMainnetRPCNodes)
      else ParseEndpointList value)"

lemma endpoints_loop_eq:
  "endpoints_loop parts acc =
     (if \<exists>p \<in> set parts. strings_TrimSpace p = '''' then Inl ErrEmptyEndpoint
      else Inr (acc @ map strings_TrimSpace parts))"
  by (induction parts acc rule: endpoints_loop.induct) (auto simp: Let_def)

lemma ParseEndpointList_ok:
  assumes "ParseEndpointList value = Inr es"
  shows "es \<noteq> []" and "'''' \<notin> set es"
  using assms strings_Split_ne by (force simp: ParseEndpointList_def endpoints_loop_eq split: if_splits)+

fun join_comma :: "string list \<Rightarrow> string" where
  "join_comma [] = []"
| "join_comma [s] = s"
| "join_comma (s # t # ts) = s @ CHR '','' # join_comma (t # ts)"

lemma strings_Split_no_sep: "sep \<notin> set s \<Longrightarrow> strings_Split sep s = [s]"
  by (induction s) auto

lemma strings_Split_append: "sep \<notin> set s \<Longrightarrow> strings_Split sep (s @ sep # t) = s # strings_Split sep t"
  by (induction s) auto

lemma strings_Split_join:
  assumes "es \<noteq> []" and "\<forall>e \<in> set es. CHR '','' \<notin> set e"
  shows "strings_Split (CHR '','') (join_comma es) = es"
  using assms by (induction es rule: join_comma.induct) (simp_all add: strings_Split_no_sep strings_Split_append)

lemma strings_TrimSpace_id:
  assumes "s = [] \<or> (\<not> is_space (hd s) \<and> \<not> is_space (last s))"
  shows "strings_TrimSpace s = s"
proof (cases "s = []")
  case False
  then have "dropWhile is_space s = s" using assms by (cases s) auto
  moreover have "dropWhile is_space (rev s) = rev s" using False assms by (cases "rev s") (auto simp: last_rev [symmetric])
  ultimately show ?thesis by (simp add: strings_TrimSpace_def)
qed (simp add: strings_TrimSpace_def)

lemma ParseEndpointList_join:
  assumes "es \<noteq> []" and "\<forall>e \<in> set es. e \<noteq> '''' \<and> CHR '','' \<notin> set e \<and> \<not> is_space (hd e) \<and> \<not> is_space (last e)"
  shows "ParseEndpointList (join_comma es) = Inr es"
proof -
  have "map strings_TrimSpace es = es" using assms(2) by (intro map_idI) (simp add: strings_TrimSpace_id)
  moreover have "strings_TrimSpace e \<noteq> ''''" if "e \<in> set es" for e
    using that assms(2) strings_TrimSpace_id [of e] by auto
  ultimately show ?thesis
    using strings_Split_join [OF assms(1)] assms(2) by (auto simp: ParseEndpointList_def endpoints_loop_eq)
qed

text \<open>
  The endpoint list of the environment. A list of trimmed, comma-free endpoints is read back
  as it was written, and whatever is read has at least one endpoint and no empty one.
\<close>

theorem ParseEndpointList_roundtrip:
  "(es \<noteq> [] \<and> (\<forall>e \<in> set es. e \<noteq> '''' \<and> CHR '','' \<notin> set e \<and> \<not> is_space (hd e) \<and> \<not> is_space (last e)) \<longrightarrow>
      ParseEndpointList (join_comma es) = Inr es) \<and>
   (\<forall>value es'. ParseEndpointList value = Inr es' \<longrightarrow> es' \<noteq> [] \<and> '''' \<notin> set es')"
  using ParseEndpointList_join ParseEndpointList_ok by blast

theorem ParseEndpointList_roundtrip_witness:
  "ParseEndpointList (join_comma [''https://a'', ''https://b'']) = Inr [''https://a'', ''https://b'']"
proof -
  have "\<forall>e \<in> set [''https://a'', ''https://b'']. e \<noteq> '''' \<and> CHR '','' \<notin> set e \<and> \<not> is_space (hd e) \<and> \<not> is_space (last e)"
    by code_simp
  then show ?thesis using ParseEndpointList_roundtrip [of "[''https://a'', ''https://b'']"] by simp
qed

section \<open>Recognising errors by their text\<close>

lemma strings_Contains_mono: "strings_Contains s sub \<Longrightarrow> strings_Contains (a @ s @ b) sub"
  unfolding strings_Contains_iff by (metis append.assoc)

end
