(* ===== verification/Floats.thy ===== *)
theory Floats
  imports GoStrings Prices
begin

text \<open>
  The numbers of Go's \<open>strconv\<close>, \<open>math/big\<close> and \<open>fmt\<close> that the daemons read from exchanges and write to
  strings: rounding of rationals to a number of bits, \<open>float64\<close> values, \<open>strconv.ParseFloat\<close>,
  \<open>big.Float\<close> with \<open>SetString\<close>, \<open>Mul\<close>, \<open>Quo\<close> and \<open>Uint64\<close>, \<open>strconv.FormatFloat\<close> with the shortest
  representation, and the verb \<open>%f\<close>. A negative zero is not told apart from zero.
\<close>

section \<open>Rounding\<close>

definition pow2 :: "int \<Rightarrow> rat" where
  "pow2 k = (if k \<ge> 0 then 2 ^ nat k else 1 / 2 ^ nat (- k))"

fun nbits :: "nat \<Rightarrow> nat" where
  "nbits n = (if n = 0 then 0 else Suc (nbits (n div 2)))"

declare nbits.simps [simp del]

definition float_exp :: "rat \<Rightarrow> int" where
  "float_exp x =
     (let (p, q) = quotient_of x; k = int (nbits (nat p)) - int (nbits (nat q))
      in if pow2 k \<le> x then k else k - 1)"

definition round_half_even :: "rat \<Rightarrow> int" where
  "round_half_even x =
     (let f = \<lfloor>x\<rfloor>; d = x - of_int f in
      if d < 1 / 2 then f else if d > 1 / 2 then f + 1 else if even f then f else f + 1)"

text \<open>The nearest number with a mantissa of \<open>p\<close> bits, ties to even.\<close>

definition round_prec :: "nat \<Rightarrow> rat \<Rightarrow> rat" where
  "round_prec p x =
     (if x = 0 then 0
      else let a = \<bar>x\<bar>; u = pow2 (float_exp a - (int p - 1)); m = of_int (round_half_even (a / u)) * u
           in if x < 0 then - m else m)"

definition float_round :: "rat \<Rightarrow> rat" where
  "float_round = round_prec 53"

datatype float64 = FFin rat | FInf bool | FNaN

text \<open>With the range of \<open>float64\<close>: multiples of \<open>2 ^ (-1074)\<close> below \<open>2 ^ 1024\<close>.\<close>

definition float64_round :: "rat \<Rightarrow> float64" where
  "float64_round x =
     (if x = 0 then FFin 0
      else let a = \<bar>x\<bar>; u = pow2 (max (float_exp a - 52) (- 1074)); m = of_int (round_half_even (a / u)) * u
           in if m \<ge> pow2 1024 then FInf (x < 0) else FFin (if x < 0 then - m else m))"

definition rpow :: "rat \<Rightarrow> int \<Rightarrow> rat" where
  "rpow b k = (if k \<ge> 0 then b ^ nat k else 1 / b ^ nat (- k))"

section \<open>\<open>strconv.ParseFloat\<close>\<close>

definition digit_value :: "char \<Rightarrow> nat option" where
  "digit_value c =
     (let n = (of_char c :: nat) in
      if 48 \<le> n \<and> n \<le> 57 then Some (n - 48)
      else if 97 \<le> n \<and> n \<le> 122 then Some (n - 87)
      else if 65 \<le> n \<and> n \<le> 90 then Some (n - 55)
      else None)"

definition base_digit :: "nat \<Rightarrow> char \<Rightarrow> nat option" where
  "base_digit b c = (case digit_value c of Some d \<Rightarrow> if d < b then Some d else None | None \<Rightarrow> None)"

text \<open>Underscores separate digits; a base prefix counts as a digit. The state is the kind of the last character.\<close>

datatype saw = SawStart | SawDigit | SawUnderscore | SawOther

fun underscore_loop :: "bool \<Rightarrow> saw \<Rightarrow> string \<Rightarrow> bool" where
  "underscore_loop hex saw [] = (saw \<noteq> SawUnderscore)"
| "underscore_loop hex saw (c # s) =
     (if base_digit (if hex then 16 else 10) c \<noteq> None then underscore_loop hex SawDigit s
      else if c = CHR ''_'' then saw = SawDigit \<and> underscore_loop hex SawUnderscore s
      else saw \<noteq> SawUnderscore \<and> underscore_loop hex SawOther s)"

definition trim_sign :: "string \<Rightarrow> bool \<times> string" where
  "trim_sign s = (case s of c # s' \<Rightarrow> if c = CHR ''-'' then (True, s') else if c = CHR ''+'' then (False, s') else (False, s)
                          | [] \<Rightarrow> (False, []))"

definition base_prefix :: "string \<Rightarrow> nat option" where
  "base_prefix s =
     (if length s \<ge> 2 \<and> s ! 0 = CHR ''0'' then
        (let c = to_lower (s ! 1) in
         if c = CHR ''b'' then Some 2 else if c = CHR ''o'' then Some 8 else if c = CHR ''x'' then Some 16 else None)
      else None)"

definition underscoreOK :: "string \<Rightarrow> bool" where
  "underscoreOK s0 =
     (let s = snd (trim_sign s0) in
      case base_prefix s of
        Some b \<Rightarrow> underscore_loop (b = 16) SawDigit (drop 2 s)
      | None \<Rightarrow> underscore_loop False SawStart s)"

text \<open>The mantissa, the number of its digits and of those after the point, and the rest.\<close>

fun read_mantissa :: "nat \<Rightarrow> bool \<Rightarrow> nat \<Rightarrow> nat \<Rightarrow> nat \<Rightarrow> string \<Rightarrow> nat \<times> nat \<times> nat \<times> string" where
  "read_mantissa b sawdot m nd nf [] = (m, nd, nf, [])"
| "read_mantissa b sawdot m nd nf (c # s) =
     (if c = CHR ''_'' then read_mantissa b sawdot m nd nf s
      else if c = CHR ''.'' then if sawdot then (m, nd, nf, c # s) else read_mantissa b True m nd nf s
      else case base_digit b c of
             Some d \<Rightarrow> read_mantissa b sawdot (b * m + d) (Suc nd) (if sawdot then Suc nf else nf) s
           | None \<Rightarrow> (m, nd, nf, c # s))"

text \<open>The digits of the exponent stop counting at five, which is beyond the range of \<open>float64\<close>.\<close>

fun read_exponent :: "nat \<Rightarrow> string \<Rightarrow> nat \<times> string" where
  "read_exponent e [] = (e, [])"
| "read_exponent e (c # s) =
     (if c = CHR ''_'' then read_exponent e s
      else case base_digit 10 c of
             Some d \<Rightarrow> read_exponent (if e < 10000 then 10 * e + d else e) s
           | None \<Rightarrow> (e, c # s))"

definition exponent_part :: "string \<Rightarrow> (int \<times> string) option" where
  "exponent_part s0 =
     (let (neg, s) = trim_sign s0 in
      case s of
        [] \<Rightarrow> None
      | c # _ \<Rightarrow>
          if base_digit 10 c = None then None
          else let (e, r) = read_exponent 0 s in Some (if neg then - int e else int e, r))"

text \<open>A number that takes up the whole string.\<close>

definition readFloat :: "string \<Rightarrow> rat option" where
  "readFloat s0 =
     (let (neg, s1) = trim_sign s0;
          hex = (base_prefix s1 = Some 16 \<and> length s1 > 2);
          b = (if hex then 16 else 10);
          (m, nd, nf, r) = read_mantissa b False 0 0 0 (if hex then drop 2 s1 else s1);
          expo = (case r of
              c # r' \<Rightarrow> if to_lower c = (if hex then CHR ''p'' else CHR ''e'') then exponent_part r'
                        else if hex then None else Some (0, r)
            | [] \<Rightarrow> if hex then None else Some (0, []))
      in if nd = 0 then None
         else case expo of
                None \<Rightarrow> None
              | Some (e, rest) \<Rightarrow>
                  if rest \<noteq> [] then None
                  else if CHR ''_'' \<in> set s0 \<and> \<not> underscoreOK s0 then None
                  else let v = of_nat m * rpow (of_nat b) (- int nf) * rpow (if hex then 2 else 10) e
                       in Some (if neg then - v else v))"

definition ParseFloat :: "string \<Rightarrow> float64 option" where
  "ParseFloat s =
     (let (neg, t) = trim_sign s; l = strings_ToLower t in
      if l = ''inf'' \<or> l = ''infinity'' then Some (FInf neg)
      else if strings_ToLower s = ''nan'' then Some FNaN
      else case readFloat s of
             None \<Rightarrow> None
           | Some v \<Rightarrow> (case float64_round v of FFin r \<Rightarrow> Some (FFin r) | _ \<Rightarrow> None))"

section \<open>\<open>big.Float\<close>\<close>

text \<open>
  A value with its precision. \<open>bf_round\<close> rounds to a precision within the range of exponents, 32-bit
  integers: beyond it a value becomes infinite or zero.
\<close>

datatype bigval = BFin rat | BInf bool

record bigfloat =
  bf_prec :: nat
  bf_val :: bigval

definition bf_round :: "nat \<Rightarrow> rat \<Rightarrow> bigval" where
  "bf_round p x =
     (let y = round_prec p x in
      if y = 0 then BFin 0
      else let e = float_exp \<bar>y\<bar> + 1 in
        if e > 2 ^ 31 - 1 then BInf (y < 0) else if e < - (2 ^ 31) then BFin 0 else BFin y)"

text \<open>\<open>pow5\<close>: a power of five to 128 bits, by repeated squaring of a factor of 192 bits.\<close>

function pow5_loop :: "rat \<Rightarrow> rat \<Rightarrow> nat \<Rightarrow> rat" where
  "pow5_loop z f n =
     (if n = 0 then z
      else pow5_loop (if odd n then round_prec 128 (z * f) else z) (round_prec 192 (f * f)) (n div 2))"
  by pat_completeness auto
termination
  by (relation "measure (\<lambda>(z, f, n). n)") auto

declare pow5_loop.simps [simp del]

definition pow5 :: "nat \<Rightarrow> rat" where
  "pow5 n = (if n \<le> 27 then 5 ^ n else pow5_loop (5 ^ 27) 5 (n - 27))"

text \<open>
  \<open>nat.scan\<close>: the mantissa, the number of digits, the position of the point, whether an underscore is
  misplaced, and the rest.
\<close>

fun nat_scan ::
    "nat \<Rightarrow> bool \<Rightarrow> saw \<Rightarrow> bool \<Rightarrow> nat \<Rightarrow> nat option \<Rightarrow> nat \<Rightarrow> string \<Rightarrow>
     nat \<times> nat \<times> nat option \<times> bool \<times> string" where
  "nat_scan b fracOk prev invalSep cnt dp m [] = (m, cnt, dp, invalSep \<or> prev = SawUnderscore, [])"
| "nat_scan b fracOk prev invalSep cnt dp m (c # s) =
     (if c = CHR ''.'' \<and> fracOk then
        nat_scan b False SawOther (invalSep \<or> prev = SawUnderscore) cnt (Some cnt) m s
      else if c = CHR ''_'' then nat_scan b fracOk SawUnderscore (invalSep \<or> prev \<noteq> SawDigit) cnt dp m s
      else case base_digit b c of
             Some d \<Rightarrow> nat_scan b fracOk SawDigit invalSep (Suc cnt) dp (b * m + d) s
           | None \<Rightarrow> (m, cnt, dp, invalSep \<or> prev = SawUnderscore, c # s))"

text \<open>\<open>scanExponent\<close>: the base of the exponent, its value, and the rest.\<close>

fun exp_digits :: "saw \<Rightarrow> bool \<Rightarrow> bool \<Rightarrow> int \<Rightarrow> string \<Rightarrow> (int \<times> bool \<times> bool \<times> string)" where
  "exp_digits prev invalSep hasDigits e [] = (e, hasDigits, invalSep \<or> prev = SawUnderscore, [])"
| "exp_digits prev invalSep hasDigits e (c # s) =
     (case base_digit 10 c of
        Some d \<Rightarrow> exp_digits SawDigit invalSep True (10 * e + int d) s
      | None \<Rightarrow>
          if c = CHR ''_'' then exp_digits SawUnderscore (invalSep \<or> prev \<noteq> SawDigit) hasDigits e s
          else (e, hasDigits, invalSep \<or> prev = SawUnderscore, c # s))"

definition scanExponent :: "string \<Rightarrow> (nat \<times> int \<times> string) option" where
  "scanExponent s0 =
     (case s0 of
        [] \<Rightarrow> Some (10, 0, [])
      | c # s \<Rightarrow>
          if to_lower c \<noteq> CHR ''e'' \<and> to_lower c \<noteq> CHR ''p'' then Some (10, 0, s0)
          else
            let (neg, t) = trim_sign s;
                (e, hasDigits, invalSep, rest) = exp_digits SawOther False False 0 t;
                x = (if neg then - e else e)
            in if \<not> hasDigits \<or> x < - (2 ^ 63) \<or> x \<ge> 2 ^ 63 \<or> invalSep then None
               else Some (if to_lower c = CHR ''e'' then 10 else 2, x, rest))"

text \<open>
  \<open>Float.SetString\<close> on a new number, whose precision becomes 64 bits: the mantissa is exact, the powers of
  two in the radix point and the exponent are exact, the powers of five are applied with one rounding.
\<close>

definition radix_bits :: "nat \<Rightarrow> int" where
  "radix_bits b = (if b = 8 then 3 else if b = 16 then 4 else 1)"

definition bf_apply :: "nat \<Rightarrow> int \<Rightarrow> int \<Rightarrow> bigval option" where
  "bf_apply m exp2 exp5 =
     (if m = 0 then Some (BFin 0)
      else if int (nbits m) + exp2 < - (2 ^ 31) \<or> int (nbits m) + exp2 > 2 ^ 31 - 1 then None
      else
        let x = of_nat m * pow2 exp2 in
        Some (if exp5 = 0 then bf_round 64 x
              else if exp5 < 0 then bf_round 64 (x / pow5 (nat (- exp5)))
              else bf_round 64 (x * pow5 (nat exp5))))"

definition bf_neg :: "bigval \<Rightarrow> bigval" where
  "bf_neg v = (case v of BFin x \<Rightarrow> BFin (- x) | BInf s \<Rightarrow> BInf (\<not> s))"

definition float_scan :: "string \<Rightarrow> bigval option" where
  "float_scan s0 =
     (let (neg, s1) = trim_sign s0;
          (b, prev, s2) = (case base_prefix s1 of Some p \<Rightarrow> (p, SawDigit, drop 2 s1) | None \<Rightarrow> (10, SawOther, s1));
          (m, cnt, dp, invalSep, r) = nat_scan b True prev False 0 None 0 s2
      in if cnt = 0 \<or> invalSep then None
         else case scanExponent r of
                None \<Rightarrow> None
              | Some (ebase, e, rest) \<Rightarrow>
                  if rest \<noteq> [] then None
                  else
                    let fcount = (case dp of Some d \<Rightarrow> int d - int cnt | None \<Rightarrow> 0);
                        exp2 = radix_bits b * fcount + e;
                        exp5 = (if b = 10 then fcount else 0) + (if ebase = 10 then e else 0)
                    in map_option (\<lambda>v. if neg then bf_neg v else v) (bf_apply m exp2 exp5))"

definition bf_SetString :: "string \<Rightarrow> bigfloat option" where
  "bf_SetString s =
     (if s = ''Inf'' \<or> s = ''inf'' \<or> s = ''+Inf'' \<or> s = ''+inf'' then Some \<lparr>bf_prec = 64, bf_val = BInf False\<rparr>
      else if s = ''-Inf'' \<or> s = ''-inf'' then Some \<lparr>bf_prec = 64, bf_val = BInf True\<rparr>
      else map_option (\<lambda>v. \<lparr>bf_prec = 64, bf_val = v\<rparr>) (float_scan s))"

text \<open>\<open>SetInt\<close> on a new number, and \<open>Mul\<close> and \<open>Quo\<close> into one, by a finite number that is not zero.\<close>

definition bf_SetInt :: "int \<Rightarrow> bigfloat" where
  "bf_SetInt x = \<lparr>bf_prec = max (nbits (nat \<bar>x\<bar>)) 64, bf_val = BFin (of_int x)\<rparr>"

definition bf_apply2 :: "(rat \<Rightarrow> rat \<Rightarrow> rat) \<Rightarrow> bigfloat \<Rightarrow> bigfloat \<Rightarrow> bigfloat" where
  "bf_apply2 f x y =
     (let p = max (bf_prec x) (bf_prec y) in
      \<lparr>bf_prec = p,
       bf_val = (case (bf_val x, bf_val y) of
           (BFin a, BFin b) \<Rightarrow> bf_round p (f a b)
         | (BInf s, BFin b) \<Rightarrow> BInf (s \<noteq> (b < 0))
         | (_, BInf s) \<Rightarrow> BInf s)\<rparr>)"

abbreviation bf_Mul :: "bigfloat \<Rightarrow> bigfloat \<Rightarrow> bigfloat" where "bf_Mul \<equiv> bf_apply2 (*)"
abbreviation bf_Quo :: "bigfloat \<Rightarrow> bigfloat \<Rightarrow> bigfloat" where "bf_Quo \<equiv> bf_apply2 (/)"

fun bf_less :: "bigval \<Rightarrow> bigval \<Rightarrow> bool" where
  "bf_less (BFin x) (BFin y) = (x < y)"
| "bf_less (BInf s) (BFin y) = s"
| "bf_less (BFin x) (BInf s) = (\<not> s)"
| "bf_less (BInf s) (BInf t) = (s \<and> \<not> t)"

fun bf_Uint64 :: "bigval \<Rightarrow> uint64" where
  "bf_Uint64 (BFin x) = (if x \<le> 0 then 0 else word_of_int (min \<lfloor>x\<rfloor> (2 ^ 64 - 1)))"
| "bf_Uint64 (BInf s) = (if s then 0 else - 1)"

section \<open>Formatting\<close>

text \<open>The digits of \<open>n / 10 ^ k\<close>.\<close>

definition fixed_digits :: "nat \<Rightarrow> nat \<Rightarrow> string" where
  "fixed_digits k n =
     (if k = 0 then decimal_digits n
      else let f = decimal_digits (n mod 10 ^ k)
           in decimal_digits (n div 10 ^ k) @ CHR ''.'' # replicate (k - length f) (CHR ''0'') @ f)"

definition sprintf_percent_f :: "float64 \<Rightarrow> string" where
  "sprintf_percent_f x =
     (case x of
        FFin r \<Rightarrow> (if r < 0 then ''-'' else []) @ fixed_digits 6 (nat (round_half_even (\<bar>r\<bar> * 10 ^ 6)))
      | FInf s \<Rightarrow> if s then ''-Inf'' else ''+Inf''
      | FNaN \<Rightarrow> ''NaN'')"

text \<open>
  \<open>FormatFloat\<close> with the format \<open>f\<close> and the precision \<open>-1\<close>: the fewest digits that read back as the same number,
  and of those the nearest to it. \<open>log10_ceil\<close> is the number of digits before the point.
\<close>

definition log10_ceil :: "rat \<Rightarrow> int" where
  "log10_ceil a =
     (if a \<ge> 1 then int (length (decimal_digits (nat \<lfloor>a\<rfloor>)))
      else 1 - int (length (decimal_digits (nat (\<lceil>1 / a\<rceil> - 1)))))"

definition digits_candidates :: "rat \<Rightarrow> int \<Rightarrow> nat list" where
  "digits_candidates a k =
     (let y = a * rpow 10 k; lo = nat \<lfloor>y\<rfloor>; ok = (\<lambda>c. float64_round (of_nat c * rpow 10 (- k)) = FFin a);
          cs = filter ok [lo, Suc lo]
      in if y - of_nat lo \<le> 1 / 2 then cs else rev cs)"

fun strip_zeros :: "nat \<Rightarrow> nat \<Rightarrow> nat \<times> nat" where
  "strip_zeros c 0 = (c, 0)"
| "strip_zeros c (Suc k) = (if c mod 10 = 0 then strip_zeros (c div 10) k else (c, Suc k))"

definition shortest :: "rat \<Rightarrow> nat \<times> nat" where
  "shortest a =
     (let l = log10_ceil a in
      case find (\<lambda>n. digits_candidates a (int n - l) \<noteq> []) [1..<1200] of
        None \<Rightarrow> (0, 0)
      | Some n \<Rightarrow>
          let c = hd (digits_candidates a (int n - l)); k = int n - l in
          if k \<le> 0 then (c * 10 ^ nat (- k), 0) else strip_zeros c (nat k))"

definition FormatFloat :: "rat \<Rightarrow> string" where
  "FormatFloat x =
     (if x = 0 then ''0''
      else let (c, k) = shortest \<bar>x\<bar> in (if x < 0 then ''-'' else []) @ fixed_digits k c)"

section \<open>Rounding errors\<close>

lemma pow2_pos: "0 < pow2 k"
  by (simp add: pow2_def)

lemma pow2_add: "pow2 (a + b) = pow2 a * pow2 b"
proof -
  have nat_pow: "(2 :: rat) ^ nat (x + y) = 2 ^ nat x * 2 ^ nat y" if "x \<ge> 0" "y \<ge> 0" for x y
    using that by (simp add: nat_add_distrib power_add)
  consider "a \<ge> 0" "b \<ge> 0" | "a < 0" "b < 0" | "a \<ge> 0" "b < 0" "a + b \<ge> 0" | "a \<ge> 0" "b < 0" "a + b < 0"
    | "a < 0" "b \<ge> 0" "a + b \<ge> 0" | "a < 0" "b \<ge> 0" "a + b < 0" by linarith
  then show ?thesis
  proof cases
    case 1 then show ?thesis using nat_pow [of a b] by (simp add: pow2_def)
  next
    case 2 then show ?thesis using nat_pow [of "- a" "- b"] by (simp add: pow2_def add.commute)
  next
    case 3 then show ?thesis using nat_pow [of "a + b" "- b"] by (simp add: pow2_def)
  next
    case 4 then show ?thesis using nat_pow [of a "- (a + b)"] by (simp add: pow2_def)
  next
    case 5 then show ?thesis using nat_pow [of "a + b" "- a"] by (simp add: pow2_def)
  next
    case 6 then show ?thesis using nat_pow [of b "- (a + b)"] by (simp add: pow2_def)
  qed
qed

lemma nbits_bounds: "n < 2 ^ nbits n \<and> (n > 0 \<longrightarrow> 2 ^ (nbits n - 1) \<le> n)"
proof (induction n rule: nbits.induct)
  case (1 n)
  show ?case
  proof (cases "n = 0")
    case False
    have IH: "n div 2 < 2 ^ nbits (n div 2)" "n div 2 > 0 \<longrightarrow> 2 ^ (nbits (n div 2) - 1) \<le> n div 2"
      using 1 [OF False] by auto
    have bits: "nbits n = Suc (nbits (n div 2))" using False by (subst nbits.simps) simp
    have "n < 2 ^ nbits n" using IH(1) unfolding bits by simp
    moreover have "2 ^ (nbits n - 1) \<le> n"
    proof (cases "n div 2 = 0")
      case True
      then have "nbits (n div 2) = 0" by (subst nbits.simps) simp
      then show ?thesis using False bits by simp
    next
      case pos: False
      then have "nbits (n div 2) > 0" by (subst nbits.simps) simp
      then have "(2 :: nat) ^ nbits (n div 2) = 2 * 2 ^ (nbits (n div 2) - 1)" by (cases "nbits (n div 2)") simp_all
      moreover have "2 * 2 ^ (nbits (n div 2) - 1) \<le> 2 * (n div 2)" using IH(2) pos by simp
      ultimately show ?thesis unfolding bits by simp
    qed
    ultimately show ?thesis by simp
  qed (simp add: nbits.simps)
qed

lemma pow2_float_exp:
  assumes "0 < x"
  shows "pow2 (float_exp x) \<le> x"
proof -
  obtain p q where pq: "quotient_of x = (p, q)" by (cases "quotient_of x")
  have q: "0 < q" using quotient_of_denom_pos [OF pq] .
  have x: "x = of_int p / of_int q" using quotient_of_div [OF pq] .
  have p: "0 < p" using assms q unfolding x by (simp add: zero_less_divide_iff)
  let ?a = "nbits (nat p)" let ?b = "nbits (nat q)"
  let ?k = "int ?a - int ?b"
  show ?thesis
  proof (cases "pow2 ?k \<le> x")
    case True
    then show ?thesis by (simp add: float_exp_def pq)
  next
    case False
    have a: "?a > 0" using p by (subst nbits.simps) simp
    have "(2 :: nat) ^ (?a - 1) \<le> nat p" using nbits_bounds [of "nat p"] p by (simp only: zero_less_nat_eq)
    moreover have "nat q < 2 ^ ?b" using nbits_bounds [of "nat q"] by simp
    ultimately have "rat_of_nat (2 ^ (?a - 1)) \<le> rat_of_nat (nat p)" "rat_of_nat (nat q) \<le> rat_of_nat (2 ^ ?b)"
      by (simp_all only: of_nat_le_iff less_imp_le)
    then have bounds: "(2 :: rat) ^ (?a - 1) \<le> of_int p" "of_int q \<le> (2 :: rat) ^ ?b"
      using p q by (simp_all add: of_nat_nat)
    have "pow2 (?k - 1) = pow2 (int (?a - 1)) * pow2 (- int ?b)"
      unfolding pow2_add [symmetric] using a by (intro arg_cong [of _ _ pow2]) (simp add: of_nat_diff)
    also have "\<dots> = 2 ^ (?a - 1) / 2 ^ ?b" by (simp add: pow2_def)
    also have "\<dots> \<le> of_int p / of_int q"
      using bounds q p by (intro frac_le) simp_all
    finally have "pow2 (?k - 1) \<le> x" unfolding x .
    then show ?thesis using False by (simp add: float_exp_def pq)
  qed
qed

lemma round_half_even_near: "\<bar>of_int (round_half_even x) - x\<bar> \<le> 1 / 2"
  unfolding round_half_even_def Let_def by (auto simp: abs_if) linarith+

lemma round_prec_0 [simp]: "round_prec p 0 = 0"
  by (simp add: round_prec_def)

lemma round_prec_near: "2 ^ p * \<bar>round_prec p x - x\<bar> \<le> \<bar>x\<bar>"
proof (cases "x = 0")
  case False
  define u where "u = pow2 (float_exp \<bar>x\<bar> - (int p - 1))"
  define m where "m = of_int (round_half_even (\<bar>x\<bar> / u)) * u"
  have u: "0 < u" by (simp add: u_def pow2_pos)
  have "pow2 (float_exp \<bar>x\<bar>) * 2 = u * 2 ^ p"
    using pow2_add [of "float_exp \<bar>x\<bar> - (int p - 1)" "int p"] pow2_add [of "float_exp \<bar>x\<bar>" 1]
    by (simp add: u_def pow2_def)
  then have ux: "u * 2 ^ p \<le> 2 * \<bar>x\<bar>" using pow2_float_exp [of "\<bar>x\<bar>"] False by simp
  have "\<bar>m - \<bar>x\<bar>\<bar> = \<bar>of_int (round_half_even (\<bar>x\<bar> / u)) - \<bar>x\<bar> / u\<bar> * u"
    using u by (simp add: m_def abs_mult field_simps flip: abs_mult)
  also have "\<dots> \<le> 1 / 2 * u" using round_half_even_near u by (intro mult_right_mono) simp_all
  finally have m: "\<bar>m - \<bar>x\<bar>\<bar> \<le> u / 2" by simp
  have "\<bar>round_prec p x - x\<bar> = \<bar>m - \<bar>x\<bar>\<bar>"
    using False by (auto simp: round_prec_def Let_def m_def u_def)
  then have "2 ^ p * \<bar>round_prec p x - x\<bar> \<le> 2 ^ p * (u / 2)"
    using m by (intro mult_left_mono) simp_all
  also have "\<dots> = u * 2 ^ p / 2" by simp
  also have "\<dots> \<le> \<bar>x\<bar>" using ux by linarith
  finally show ?thesis .
qed simp

lemma float_round_near: "2 ^ 53 * \<bar>float_round x - x\<bar> \<le> \<bar>x\<bar>"
  using round_prec_near [of 53 x] by (simp add: float_round_def)

lemma float_round_0 [simp]: "float_round 0 = 0"
  by (simp add: float_round_def)

lemma pow2_mono: "a \<le> b \<Longrightarrow> pow2 a \<le> pow2 b"
proof -
  assume "a \<le> b"
  then have "pow2 b = pow2 a * 2 ^ nat (b - a)" using pow2_add [of a "b - a"] by (simp add: pow2_def)
  moreover have "pow2 a * 1 \<le> pow2 a * 2 ^ nat (b - a)"
    using pow2_pos [of a] by (intro mult_left_mono) simp_all
  ultimately show ?thesis by simp
qed

lemma pow2_less_cancel: "pow2 a < pow2 b \<Longrightarrow> a < b"
  using pow2_mono [of b a] by (cases "a < b") auto

lemma pow2_int [simp]: "pow2 (int n) = 2 ^ n"
  by (simp add: pow2_def)

lemma pow2_neg_int [simp]: "pow2 (- int n) = 1 / 2 ^ n"
  by (auto simp: pow2_def)

lemma float_exp_upper:
  assumes "0 < x"
  shows "x < pow2 (float_exp x + 1)"
proof -
  obtain p q where pq: "quotient_of x = (p, q)" by (cases "quotient_of x")
  have q: "0 < q" using quotient_of_denom_pos [OF pq] .
  have x: "x = of_int p / of_int q" using quotient_of_div [OF pq] .
  have p: "0 < p" using assms q unfolding x by (simp add: zero_less_divide_iff)
  let ?a = "nbits (nat p)" let ?b = "nbits (nat q)"
  let ?k = "int ?a - int ?b"
  show ?thesis
  proof (cases "pow2 ?k \<le> x")
    case True
    have b: "?b > 0" using q by (subst nbits.simps) simp
    have "(2 :: nat) ^ (?b - 1) \<le> nat q" using nbits_bounds [of "nat q"] q by (simp only: zero_less_nat_eq)
    moreover have "nat p < 2 ^ ?a" using nbits_bounds [of "nat p"] by simp
    ultimately have "rat_of_nat (2 ^ (?b - 1)) \<le> rat_of_nat (nat q)" "rat_of_nat (nat p) < rat_of_nat (2 ^ ?a)"
      by (simp_all only: of_nat_le_iff of_nat_less_iff)
    then have bounds: "(2 :: rat) ^ (?b - 1) \<le> of_int q" "of_int p < (2 :: rat) ^ ?a"
      using p q by (simp_all add: of_nat_nat)
    have "x \<le> of_int p / 2 ^ (?b - 1)" unfolding x using bounds(1) p q by (intro divide_left_mono) simp_all
    also have "\<dots> < 2 ^ ?a / 2 ^ (?b - 1)" using bounds by (intro divide_strict_right_mono) simp_all
    also have "\<dots> = pow2 (int ?a) * pow2 (- int (?b - 1))" by simp
    also have "\<dots> = pow2 (?k + 1)"
      unfolding pow2_add [symmetric] using b by (intro arg_cong [of _ _ pow2]) (simp add: of_nat_diff)
    finally show ?thesis using True by (simp add: float_exp_def pq)
  next
    case False
    then show ?thesis by (simp add: float_exp_def pq)
  qed
qed

lemma float_exp_bounds:
  assumes "pow2 a \<le> x" and "x < pow2 b"
  shows "a \<le> float_exp x \<and> float_exp x < b"
proof -
  have x: "0 < x" using assms(1) pow2_pos [of a] by linarith
  have "a < float_exp x + 1" using assms(1) float_exp_upper [OF x] by (intro pow2_less_cancel) linarith
  moreover have "float_exp x < b" using assms(2) pow2_float_exp [OF x] by (intro pow2_less_cancel) linarith
  ultimately show ?thesis by simp
qed

lemma round_half_even_int [simp]: "round_half_even (of_int n) = n"
  by (simp add: round_half_even_def)

lemma round_prec_exact:
  assumes "n < 2 ^ p"
  shows "round_prec p (of_nat n) = of_nat n"
proof (cases "n = 0")
  case False
  have lt: "(of_nat n :: rat) < pow2 (int p)" using assms by simp
  have le: "pow2 (float_exp (of_nat n)) \<le> of_nat n" using pow2_float_exp [of "of_nat n"] False by simp
  from le_less_trans [OF le lt] have "pow2 (float_exp (of_nat n)) < pow2 (int p)" .
  then have e: "float_exp (of_nat n) < int p" by (rule pow2_less_cancel)
  define j where "j = nat (int p - 1 - float_exp (of_nat n))"
  have u: "pow2 (float_exp (of_nat n) - (int p - 1)) = 1 / 2 ^ j"
    using pow2_neg_int [of j] e by (simp add: j_def)
  have "of_nat n / (1 / 2 ^ j) = (of_int (int n * 2 ^ j) :: rat)" by simp
  then show ?thesis using False by (simp only: round_prec_def u Let_def abs_of_nat round_half_even_int) simp
qed simp

text \<open>Powers of five below \<open>2 ^ 128\<close> are exact.\<close>

lemma round_pow5: "n \<le> 55 \<Longrightarrow> round_prec 128 (5 ^ n) = 5 ^ n" "n \<le> 82 \<Longrightarrow> round_prec 192 (5 ^ n) = 5 ^ n"
proof -
  show "round_prec 128 (5 ^ n) = 5 ^ n" if "n \<le> 55"
  proof -
    have "(5 :: nat) ^ n \<le> 5 ^ 55" using that by (intro power_increasing) simp_all
    then have "(5 :: nat) ^ n < 2 ^ 128" by (rule le_less_trans) simp
    from round_prec_exact [OF this] show ?thesis by simp
  qed
  show "round_prec 192 (5 ^ n) = 5 ^ n" if "n \<le> 82"
  proof -
    have "(5 :: nat) ^ n \<le> 5 ^ 82" using that by (intro power_increasing) simp_all
    then have "(5 :: nat) ^ n < 2 ^ 192" by (rule le_less_trans) simp
    from round_prec_exact [OF this] show ?thesis by simp
  qed
qed

lemma pow5_loop_exact: "a + b * n \<le> 55 \<Longrightarrow> b * n \<le> 41 \<Longrightarrow> pow5_loop (5 ^ a) (5 ^ b) n = 5 ^ (a + b * n)"
proof (induction n arbitrary: a b rule: less_induct)
  case (less n)
  show ?case
  proof (cases "n = 0")
    case False
    have b: "b + b \<le> 82" using less.prems(2) False by (cases n) auto
    have f: "round_prec 192 (5 ^ b * 5 ^ b) = 5 ^ (b + b)" using round_pow5(2) [OF b] by (simp add: power_add)
    have ab: "a + b \<le> 55" using less.prems(1) False by (cases n) auto
    have z: "(if odd n then round_prec 128 (5 ^ a * 5 ^ b) else 5 ^ a) = 5 ^ (a + b * (n mod 2))"
      using round_pow5(1) [OF ab] by (simp add: power_add odd_iff_mod_2_eq_one even_iff_mod_2_eq_zero)
    have split: "b * (n mod 2) + (b + b) * (n div 2) = b * n"
    proof -
      have "b * n = b * (2 * (n div 2) + n mod 2)" by simp
      also have "\<dots> = b * (n mod 2) + (b + b) * (n div 2)" by (simp only: algebra_simps)
      finally show ?thesis by simp
    qed
    have "pow5_loop (5 ^ (a + b * (n mod 2))) (5 ^ (b + b)) (n div 2) = 5 ^ (a + b * (n mod 2) + (b + b) * (n div 2))"
      using less.prems split False by (intro less.IH) auto
    also have "a + b * (n mod 2) + (b + b) * (n div 2) = a + b * n" using split by simp
    finally show ?thesis using False by (subst pow5_loop.simps) (simp only: z f if_False)
  qed (simp add: pow5_loop.simps)
qed

lemma pow5_exact: "n \<le> 55 \<Longrightarrow> pow5 n = 5 ^ n"
  using pow5_loop_exact [of 27 1 "n - 27"] by (simp add: pow5_def)

lemma bf_round_in_range:
  assumes "1 \<le> p" and "pow2 (- 1000) \<le> x" and "x < pow2 1000"
  shows "bf_round p x = BFin (round_prec p x)"
proof -
  have x: "0 < x" using assms(2) pow2_pos [of "- 1000"] by linarith
  have "(2 :: rat) ^ 1 \<le> 2 ^ p" using assms(1) by (intro power_increasing) simp_all
  then have "2 * \<bar>round_prec p x - x\<bar> \<le> 2 ^ p * \<bar>round_prec p x - x\<bar>" by (intro mult_right_mono) simp_all
  then have near: "2 * \<bar>round_prec p x - x\<bar> \<le> x" using round_prec_near [of p x] x by simp
  have half: "pow2 (- 1000) = 2 * pow2 (- 1001)" "pow2 1001 = 2 * pow2 1000" by (simp_all add: pow2_def)
  have lo: "pow2 (- 1001) \<le> round_prec p x" using near assms(2) half(1) by (simp add: abs_if split: if_splits)
  have hi: "round_prec p x < pow2 1001" using near assms(3) x half(2) by (simp add: abs_if split: if_splits)
  have y: "0 < round_prec p x" using lo pow2_pos [of "- 1001"] by linarith
  then show ?thesis using float_exp_bounds [OF lo hi] by (simp add: bf_round_def Let_def)
qed

section \<open>Reading decimal fractions\<close>

definition digit_string :: "string \<Rightarrow> bool" where
  "digit_string ds = (\<forall>c \<in> set ds. base_digit 10 c \<noteq> None)"

definition digits_value :: "nat \<Rightarrow> string \<Rightarrow> nat" where
  "digits_value m ds = foldl (\<lambda>m c. 10 * m + the (base_digit 10 c)) m ds"

lemma base_digit_dot [simp]: "base_digit b (CHR ''.'') = None" "base_digit b (CHR ''_'') = None"
  by (simp_all add: base_digit_def digit_value_def)

lemma base_digit_of [simp]: "d < 10 \<Longrightarrow> base_digit 10 (char_of (48 + d)) = Some d"
  by (simp add: base_digit_def digit_value_def)

lemma digit_not_special:
  assumes "base_digit 10 c = Some d"
  shows "c \<noteq> CHR ''.'' \<and> c \<noteq> CHR ''_'' \<and> c \<noteq> CHR ''-'' \<and> c \<noteq> CHR ''+'' \<and> c \<noteq> CHR ''I'' \<and> c \<noteq> CHR ''i'' \<and>
    to_lower c \<notin> {CHR ''b'', CHR ''o'', CHR ''x'', CHR ''i'', CHR ''n''}"
proof -
  have "\<not> (65 \<le> (of_char c :: nat) \<and> (of_char c :: nat) \<le> 90)"
    using assms by (auto simp: base_digit_def digit_value_def Let_def split: if_splits)
  then have "to_lower c = c" by (auto simp: to_lower_def Let_def)
  moreover have "c \<notin> set ''._-+boxinI''" using assms by (auto simp: base_digit_def digit_value_def)
  ultimately show ?thesis by simp
qed

lemma nat_scan_digits:
  "digit_string ds \<Longrightarrow> nat_scan 10 fo prev inval cnt dp m (ds @ r) =
     nat_scan 10 fo (if ds = [] then prev else SawDigit) inval (cnt + length ds) dp (digits_value m ds) r"
proof (induction ds arbitrary: prev cnt m)
  case (Cons c ds)
  obtain d where d: "base_digit 10 c = Some d" using Cons.prems by (auto simp: digit_string_def)
  have "nat_scan 10 fo SawDigit inval (Suc cnt) dp (10 * m + d) (ds @ r) =
      nat_scan 10 fo (if ds = [] then SawDigit else SawDigit) inval (Suc cnt + length ds) dp (digits_value (10 * m + d) ds) r"
    using Cons.prems by (intro Cons.IH) (simp add: digit_string_def)
  then show ?case using digit_not_special [OF d] d by (simp add: digits_value_def)
qed (simp add: digits_value_def)

lemma read_mantissa_digits:
  "digit_string ds \<Longrightarrow> read_mantissa 10 sd m nd nf (ds @ r) =
     read_mantissa 10 sd (digits_value m ds) (nd + length ds) (if sd then nf + length ds else nf) r"
proof (induction ds arbitrary: m nd nf)
  case (Cons c ds)
  obtain d where d: "base_digit 10 c = Some d" using Cons.prems by (auto simp: digit_string_def)
  have "read_mantissa 10 sd (10 * m + d) (Suc nd) (if sd then Suc nf else nf) (ds @ r) =
      read_mantissa 10 sd (digits_value (10 * m + d) ds) (Suc nd + length ds)
        (if sd then (if sd then Suc nf else nf) + length ds else (if sd then Suc nf else nf)) r"
    using Cons.prems by (intro Cons.IH) (simp add: digit_string_def)
  then show ?case using digit_not_special [OF d] d by (simp add: digits_value_def)
qed (simp add: digits_value_def)

lemma digits_value_append: "digits_value m (xs @ ys) = digits_value (digits_value m xs) ys"
  by (simp add: digits_value_def)

lemma digit_string_append [simp]: "digit_string (xs @ ys) \<longleftrightarrow> digit_string xs \<and> digit_string ys"
  by (auto simp: digit_string_def)

lemma digits_value_zeros: "digits_value m (replicate j (CHR ''0'')) = m * 10 ^ j \<and> digit_string (replicate j (CHR ''0''))"
  by (induction j arbitrary: m) (simp_all add: digits_value_def digit_string_def base_digit_def digit_value_def algebra_simps)

lemma digits_value_decimal:
  "digits_value m (decimal_digits n) = m * 10 ^ length (decimal_digits n) + n \<and> digit_string (decimal_digits n)"
proof (induction n arbitrary: m rule: decimal_digits.induct)
  case (1 n)
  show ?case
  proof (cases "n < 10")
    case True
    then show ?thesis by (subst (1 2 3) decimal_digits.simps) (simp add: digits_value_def digit_string_def)
  next
    case False
    then have D: "decimal_digits n = decimal_digits (n div 10) @ [char_of (48 + n mod 10)]"
      by (subst decimal_digits.simps) simp
    have "digits_value m (decimal_digits n) = 10 * digits_value m (decimal_digits (n div 10)) + n mod 10"
      unfolding D by (simp add: digits_value_def)
    also have "\<dots> = 10 * (m * 10 ^ length (decimal_digits (n div 10)) + n div 10) + n mod 10"
      using 1 False by simp
    also have "\<dots> = m * 10 ^ length (decimal_digits n) + n" unfolding D by (simp add: algebra_simps)
    finally show ?thesis using 1 False unfolding D by (simp add: digit_string_def)
  qed
qed

lemma decimal_digits_length: "n < 10 ^ k \<Longrightarrow> 0 < k \<Longrightarrow> length (decimal_digits n) \<le> k"
proof (induction n arbitrary: k rule: decimal_digits.induct)
  case (1 n)
  show ?case
  proof (cases "n < 10")
    case True
    then show ?thesis using 1 by (subst decimal_digits.simps) simp
  next
    case False
    then obtain j where k: "k = Suc j" "0 < j" using 1(2) by (cases k; cases "k - 1") auto
    have "length (decimal_digits (n div 10)) \<le> j" using 1 False k by (intro 1) (simp_all add: less_mult_imp_div_less mult.commute)
    then show ?thesis using False k by (subst decimal_digits.simps) simp
  qed
qed

text \<open>A fraction in fixed notation: the digits before the point, and those after it.\<close>

lemma fixed_digits_shape:
  obtains ds fs where "fixed_digits k n = ds @ (if k = 0 then [] else CHR ''.'' # fs)" and "ds \<noteq> []"
    and "digit_string ds" and "digit_string fs" and "k \<noteq> 0 \<Longrightarrow> length fs = k"
    and "k \<noteq> 0 \<Longrightarrow> digits_value (digits_value 0 ds) fs = n" and "k = 0 \<Longrightarrow> digits_value 0 ds = n"
proof (cases "k = 0")
  case True
  then show thesis
    using that [of "decimal_digits n" "[]"] digits_value_decimal [of 0 n] decimal_digits_nonempty [of n]
    by (simp add: fixed_digits_def digit_string_def)
next
  case False
  let ?f = "decimal_digits (n mod 10 ^ k)" let ?ds = "decimal_digits (n div 10 ^ k)"
  let ?fs = "replicate (k - length ?f) (CHR ''0'') @ ?f"
  have len: "length ?f \<le> k" using False by (intro decimal_digits_length) simp_all
  have "digits_value (n div 10 ^ k) ?fs = n div 10 ^ k * 10 ^ (k - length ?f) * 10 ^ length ?f + n mod 10 ^ k"
    by (simp add: digits_value_append digits_value_zeros digits_value_decimal)
  also have "\<dots> = n div 10 ^ k * 10 ^ k + n mod 10 ^ k" using len by (simp add: mult.assoc flip: power_add)
  also have "\<dots> = n" by (rule div_mult_mod_eq)
  finally have val: "digits_value (n div 10 ^ k) ?fs = n" .
  show thesis
    using that [of ?ds ?fs] False len val digits_value_decimal [of 0 "n div 10 ^ k"] decimal_digits_nonempty [of "n div 10 ^ k"]
    by (simp add: fixed_digits_def Let_def digits_value_decimal digits_value_zeros)
qed

text \<open>Such a fraction has no sign, no base prefix, no underscore and is no name of a special value.\<close>

lemma fixed_digits_plain:
  "trim_sign (fixed_digits k n) = (False, fixed_digits k n)" "base_prefix (fixed_digits k n) = None"
  "CHR ''_'' \<notin> set (fixed_digits k n)" "strings_ToLower (fixed_digits k n) \<notin> {''inf'', ''infinity'', ''nan''}"
  "fixed_digits k n \<notin> {''Inf'', ''inf'', ''+Inf'', ''+inf'', ''-Inf'', ''-inf''}"
proof -
  obtain ds fs where s: "fixed_digits k n = ds @ (if k = 0 then [] else CHR ''.'' # fs)" "ds \<noteq> []"
    "digit_string ds" "digit_string fs" by (rule fixed_digits_shape [of k n])
  obtain c cs where ds: "ds = c # cs" using s(2) by (cases ds) auto
  obtain d where c: "base_digit 10 c = Some d" using s(3) by (auto simp: ds digit_string_def)
  note cs = digit_not_special [OF c]
  show "trim_sign (fixed_digits k n) = (False, fixed_digits k n)" using cs by (simp add: s(1) ds trim_sign_def)
  show "CHR ''_'' \<notin> set (fixed_digits k n)"
    using s(3, 4) unfolding s(1) by (auto simp: digit_string_def)
  show "base_prefix (fixed_digits k n) = None"
  proof (cases cs)
    case Nil
    then show ?thesis by (auto simp: s(1) ds base_prefix_def to_lower_def)
  next
    case (Cons c2 cs')
    then obtain d2 where "base_digit 10 c2 = Some d2" using s(3) by (auto simp: ds digit_string_def)
    then show ?thesis using digit_not_special [of c2 d2] by (auto simp: s(1) ds Cons base_prefix_def Let_def)
  qed
  show "strings_ToLower (fixed_digits k n) \<notin> {''inf'', ''infinity'', ''nan''}"
    using cs by (auto simp: s(1) ds strings_ToLower_def)
  show "fixed_digits k n \<notin> {''Inf'', ''inf'', ''+Inf'', ''+inf'', ''-Inf'', ''-inf''}"
    using cs by (auto simp: s(1) ds)
qed

lemma nbits_le:
  assumes "n < 2 ^ b"
  shows "nbits n \<le> b"
proof (cases "n = 0")
  case False
  then have "(2 :: nat) ^ (nbits n - 1) < 2 ^ b" using nbits_bounds [of n] assms by (metis bot_nat_0.not_eq_extremum le_less_trans)
  then have "nbits n - 1 < b" by simp
  then show ?thesis by simp
qed (simp add: nbits.simps)

lemma pow10_less: "(10 :: nat) ^ 100 < 2 ^ 333"
  by simp

lemma fraction_range:
  assumes "0 < n" and "n < 10 ^ 100" and "k \<le> 55"
  shows "pow2 (- 200) \<le> of_nat n / 10 ^ k" and "of_nat n / 10 ^ k < pow2 333"
proof -
  have "(1 :: rat) / 10 ^ 55 \<le> 1 / 10 ^ k" using assms(3) by (intro divide_left_mono power_increasing) simp_all
  also have "\<dots> \<le> of_nat n / 10 ^ k" using assms(1) by (intro divide_right_mono) simp_all
  finally have "(1 :: rat) / 10 ^ 55 \<le> of_nat n / 10 ^ k" .
  moreover have "pow2 (- 200) \<le> 1 / 10 ^ 55" by (simp add: pow2_def)
  ultimately show "pow2 (- 200) \<le> of_nat n / 10 ^ k" by linarith
  have "n < 2 ^ 333" using assms(2) pow10_less by (rule less_trans)
  then have "(of_nat n :: rat) < 2 ^ 333" by simp
  moreover have "(of_nat n :: rat) / 10 ^ k \<le> of_nat n / 1" by (intro divide_left_mono) simp_all
  ultimately show "of_nat n / 10 ^ k < pow2 333" by (simp add: pow2_def)
qed

lemma bf_SetString_fixed:
  assumes n: "0 < n" "n < 10 ^ 100" and k: "k \<le> 55"
  shows "bf_SetString (fixed_digits k n) = Some \<lparr>bf_prec = 64, bf_val = BFin (round_prec 64 (of_nat n / 10 ^ k))\<rparr>"
proof -
  obtain ds fs where s: "fixed_digits k n = ds @ (if k = 0 then [] else CHR ''.'' # fs)" "ds \<noteq> []"
    "digit_string ds" "digit_string fs" "k \<noteq> 0 \<Longrightarrow> length fs = k"
    "k \<noteq> 0 \<Longrightarrow> digits_value (digits_value 0 ds) fs = n" "k = 0 \<Longrightarrow> digits_value 0 ds = n"
    using fixed_digits_shape [of k n] by blast
  have scan: "nat_scan 10 True SawOther False 0 None 0 (fixed_digits k n) =
      (n, length ds + k, if k = 0 then None else Some (length ds), False, [])"
  proof (cases "k = 0")
    case True
    then show ?thesis unfolding s(1) using s(2,7) nat_scan_digits [OF s(3), of True SawOther False 0 None 0 "[]"] by simp
  next
    case False
    then show ?thesis unfolding s(1)
      using s(2,5,6) nat_scan_digits [OF s(3), of True SawOther False 0 None 0 "CHR ''.'' # fs"]
        nat_scan_digits [OF s(4), of False SawOther False "length ds" "Some (length ds)" "digits_value 0 ds" "[]"]
      by auto
  qed
  have "n < 2 ^ 333" using n(2) pow10_less by (rule less_trans)
  then have nb: "nbits n \<le> 333" by (rule nbits_le)
  let ?e = "if k = 0 then 0 else - int k"
  have "(of_nat n * pow2 (- int k)) / 5 ^ k = of_nat n / (2 ^ k * 5 ^ k :: rat)" by simp
  also have "(2 :: rat) ^ k * 5 ^ k = 10 ^ k" by (simp flip: power_mult_distrib)
  finally have x: "(of_nat n * pow2 (- int k)) / 5 ^ k = of_nat n / (10 ^ k :: rat)" .
  have "pow2 (- 1000) \<le> pow2 (- 200)" "pow2 333 \<le> pow2 1000" by (intro pow2_mono; simp)+
  then have r: "bf_round 64 (of_nat n / 10 ^ k) = BFin (round_prec 64 (of_nat n / 10 ^ k))"
    using fraction_range [OF n k] by (intro bf_round_in_range) simp_all
  have app: "bf_apply n ?e ?e = Some (BFin (round_prec 64 (of_nat n / 10 ^ k)))"
  proof (cases "k = 0")
    case True
    then show ?thesis using n nb r pow2_int [of 0] by (simp add: bf_apply_def)
  next
    case False
    then show ?thesis using n nb r k x by (simp add: bf_apply_def pow5_exact del: pow2_neg_int)
  qed
  have "float_scan (fixed_digits k n) = Some (BFin (round_prec 64 (of_nat n / 10 ^ k)))"
    using scan app s(2) by (auto simp: float_scan_def fixed_digits_plain Let_def scanExponent_def radix_bits_def)
  then show ?thesis using fixed_digits_plain(5) [of k n] by (simp add: bf_SetString_def)
qed

lemma round_prec_half:
  assumes "0 < x" and "1 \<le> p"
  shows "x / 2 \<le> round_prec p x \<and> round_prec p x \<le> 3 / 2 * x"
proof -
  have "(2 :: rat) ^ 1 \<le> 2 ^ p" using assms(2) by (intro power_increasing) simp_all
  then have "2 * \<bar>round_prec p x - x\<bar> \<le> 2 ^ p * \<bar>round_prec p x - x\<bar>" by (intro mult_right_mono) simp_all
  then have "2 * \<bar>round_prec p x - x\<bar> \<le> x" using round_prec_near [of p x] assms(1) by simp
  then show ?thesis by (simp add: abs_if split: if_splits)
qed

lemma round_prec_pos: "0 < x \<Longrightarrow> 1 \<le> p \<Longrightarrow> 0 < round_prec p x"
  using round_prec_half [of x p] by linarith

lemma float64_round_normal:
  assumes "pow2 (- 1022) \<le> x" and "x < pow2 1000"
  shows "float64_round x = FFin (round_prec 53 x)"
proof -
  have x: "0 < x" using assms(1) pow2_pos [of "- 1022"] by linarith
  have e: "- 1022 \<le> float_exp x" using float_exp_bounds [OF assms] by simp
  have m: "of_int (round_half_even (x / pow2 (float_exp x - 52))) * pow2 (float_exp x - 52) = round_prec 53 x"
    using x by (simp add: round_prec_def Let_def)
  have "pow2 1024 = pow2 24 * pow2 1000" using pow2_add [of 24 1000] by simp
  moreover have "(3 / 2) * pow2 1000 < pow2 24 * pow2 1000" using pow2_pos [of 1000]
    by (intro mult_strict_right_mono) (simp_all add: pow2_def)
  moreover have "round_prec 53 x < 3 / 2 * pow2 1000" using round_prec_half [OF x, of 53] assms(2) by simp
  ultimately have "round_prec 53 x < pow2 1024" by linarith
  moreover have "max (float_exp x - 52) (- 1074) = float_exp x - 52" using e by simp
  ultimately show ?thesis using x m by (simp add: float64_round_def Let_def)
qed

lemma readFloat_fixed: "readFloat (fixed_digits k n) = Some (of_nat n / 10 ^ k)"
proof -
  obtain ds fs where s: "fixed_digits k n = ds @ (if k = 0 then [] else CHR ''.'' # fs)" "ds \<noteq> []"
    "digit_string ds" "digit_string fs" "k \<noteq> 0 \<Longrightarrow> length fs = k"
    "k \<noteq> 0 \<Longrightarrow> digits_value (digits_value 0 ds) fs = n" "k = 0 \<Longrightarrow> digits_value 0 ds = n"
    using fixed_digits_shape [of k n] by blast
  have mant: "read_mantissa 10 False 0 0 0 (fixed_digits k n) = (n, length ds + k, k, [])"
  proof (cases "k = 0")
    case True
    then show ?thesis unfolding s(1) using s(7) read_mantissa_digits [OF s(3), of False 0 0 0 "[]"] by simp
  next
    case False
    then show ?thesis unfolding s(1)
      using s(5,6) read_mantissa_digits [OF s(3), of False 0 0 0 "CHR ''.'' # fs"]
        read_mantissa_digits [OF s(4), of True "digits_value 0 ds" "length ds" 0 "[]"]
      by simp
  qed
  have "rpow 10 (- int k) = 1 / 10 ^ k" by (auto simp: rpow_def)
  then show ?thesis using mant s(2) fixed_digits_plain [of k n] by (simp add: readFloat_def rpow_def [of _ 0])
qed

lemma ParseFloat_fixed:
  assumes "0 < n" "n < 10 ^ 100" "k \<le> 55"
  shows "\<exists>x > 0. ParseFloat (fixed_digits k n) = Some (FFin x)"
proof -
  have "pow2 (- 1022) \<le> pow2 (- 200)" "pow2 333 \<le> pow2 1000" by (intro pow2_mono; simp)+
  then have "float64_round (of_nat n / 10 ^ k) = FFin (round_prec 53 (of_nat n / 10 ^ k))"
    using fraction_range [OF assms] by (intro float64_round_normal) linarith+
  moreover have "0 < round_prec 53 (of_nat n / 10 ^ k)"
    using assms(1) by (intro round_prec_pos) simp_all
  ultimately show ?thesis using fixed_digits_plain [of k n] by (simp add: ParseFloat_def readFloat_fixed)
qed

text \<open>A rounding given by its result.\<close>

lemma round_half_even_is: "\<bar>x - of_int n\<bar> < 1 / 2 \<Longrightarrow> round_half_even x = n"
proof -
  assume "\<bar>x - of_int n\<bar> < 1 / 2"
  moreover have "\<bar>of_int (round_half_even x) - x\<bar> \<le> 1 / 2" by (rule round_half_even_near)
  ultimately have "\<bar>(of_int (round_half_even x) :: rat) - of_int n\<bar> < 1" by linarith
  then have "\<bar>(of_int (round_half_even x - n) :: rat)\<bar> < 1" by simp
  then have "\<bar>round_half_even x - n\<bar> < 1" by linarith
  then show ?thesis by linarith
qed

lemma round_prec_is:
  assumes "pow2 e \<le> x" and "x < pow2 (e + 1)" and "\<bar>x / pow2 (e - (int p - 1)) - of_int n\<bar> < 1 / 2"
  shows "round_prec p x = of_int n * pow2 (e - (int p - 1))"
proof -
  have x: "0 < x" using assms(1) pow2_pos [of e] by linarith
  have "float_exp x = e" using float_exp_bounds [OF assms(1,2)] by simp
  then show ?thesis using x round_half_even_is [OF assms(3)] by (simp add: round_prec_def Let_def)
qed

end
