(* ===== verification/Sources.thy ===== *)
theory Sources
  imports Floats QueryHandler
begin

text \<open>
  The price functions of the exchanges: \<open>lib/convert.go\<close>, \<open>pricefeed/client/sources/util.go\<close>,
  \<open>exchange_error.go\<close> and one file per exchange under \<open>pricefeed/client/sources\<close>.

  The body of an answer is a JSON document, or the error of reading one; the decoding of documents into the
  structs of the source follows \<open>encoding/json\<close> on objects without repeated names. The validator of structs
  (\<open>go-playground/validator\<close>) is a parameter: it is called with the fields of a struct and their tags, and
  \<open>validator_laws\<close> states what its documentation says of the tags that occur.
\<close>

section \<open>\<open>lib/convert.go\<close>\<close>

datatype ticker_error =
    ErrValidation string
  | ErrNotANumber string
  | ErrNoValues
  | ErrOverflowsUint64
  | ErrUnderflowsUint64
  | ErrResolver lib_error
  | ErrNoListing string
  | ErrNotAFloat64 string
  | ErrTickerFormat string
  | ErrQuoteCurrency string
  | ErrRateNotFound string
  | ErrRateParse string
  | ErrZeroRate string

definition BigFloatMaxUint64 :: bigval where "BigFloatMaxUint64 = BFin (2 ^ 64 - 1)"
definition BigFloat0 :: bigval where "BigFloat0 = BFin 0"

definition ConvertBigFloatToUint64 :: "bigfloat \<Rightarrow> ticker_error + uint64" where
  "ConvertBigFloatToUint64 value =
     (if bf_less BigFloatMaxUint64 (bf_val value) then Inl ErrOverflowsUint64
      else if bf_less (bf_val value) BigFloat0 then Inl ErrUnderflowsUint64
      else Inr (bf_Uint64 (bf_val value)))"

fun ConvertBigFloatSliceToUint64Slice :: "bigfloat list \<Rightarrow> ticker_error + uint64 list" where
  "ConvertBigFloatSliceToUint64Slice [] = Inr []"
| "ConvertBigFloatSliceToUint64Slice (value # values) =
     bindE (ConvertBigFloatToUint64 value)
       (\<lambda>u. bindE (ConvertBigFloatSliceToUint64Slice values) (\<lambda>us. Inr (u # us)))"

fun ConvertStringSliceToBigFloatSlice :: "string list \<Rightarrow> ticker_error + bigfloat list" where
  "ConvertStringSliceToBigFloatSlice [] = Inr []"
| "ConvertStringSliceToBigFloatSlice (value # values) =
     (case bf_SetString value of
        None \<Rightarrow> Inl (ErrNotANumber value)
      | Some bigValue \<Rightarrow> bindE (ConvertStringSliceToBigFloatSlice values) (\<lambda>bs. Inr (bigValue # bs)))"

section \<open>\<open>sources/util.go\<close>\<close>

definition validatePositiveNumericString :: "string \<Rightarrow> bool" where
  "validatePositiveNumericString s =
     (case ParseFloat s of
        None \<Rightarrow> False
      | Some (FFin x) \<Rightarrow> x > 0
      | Some (FInf neg) \<Rightarrow> \<not> neg
      | Some FNaN \<Rightarrow> False)"

text \<open>The tags of the structs: \<open>required\<close>, \<open>positive-float-string\<close>, \<open>gt=0\<close>, \<open>len=n\<close>, \<open>dive,positive-float-string\<close>.\<close>

datatype vtag = Required | PositiveFloatString | GtZero | Len nat | DivePositiveFloatString
datatype fvalue = VText string | VNumber rat | VTexts "string list"

fun tag_holds :: "vtag \<Rightarrow> fvalue \<Rightarrow> bool" where
  "tag_holds Required (VText s) = (s \<noteq> [])"
| "tag_holds Required (VNumber x) = (x \<noteq> 0)"
| "tag_holds PositiveFloatString (VText s) = validatePositiveNumericString s"
| "tag_holds GtZero (VNumber x) = (x > 0)"
| "tag_holds (Len n) (VTexts ss) = (length ss = n)"
| "tag_holds DivePositiveFloatString (VTexts ss) = (\<forall>s \<in> set ss. validatePositiveNumericString s)"
| "tag_holds _ _ = False"

type_synonym struct_fields = "(vtag list \<times> fvalue) list"
type_synonym validator = "struct_fields \<Rightarrow> string option"

definition fields_valid :: "struct_fields \<Rightarrow> bool" where
  "fields_valid fs = (\<forall>(tags, v) \<in> set fs. \<forall>t \<in> set tags. tag_holds t v)"

definition validator_laws :: "validator \<Rightarrow> bool" where
  "validator_laws V = (\<forall>fs. V fs = None \<longleftrightarrow> fields_valid fs)"

text \<open>\<open>newValidator\<close> is what creating a validator and registering the custom tag gives.\<close>

definition GetApiResponseValidator :: "string + validator \<Rightarrow> validator option \<Rightarrow> string + validator" where
  "GetApiResponseValidator newValidator apiResponseValidator =
     (case apiResponseValidator of
        Some v \<Rightarrow> Inr v
      | None \<Rightarrow>
          (case newValidator of
             Inl err \<Rightarrow> Inl (''API response validation internal error ('' @ err @ '')'')
           | Inr v \<Rightarrow> Inr v))"

definition GetOnlyTickerAndExponent :: "(string, int32) gomap \<Rightarrow> string \<Rightarrow> string + string \<times> int32" where
  "GetOnlyTickerAndExponent tickerToExponent exchange =
     (case tickerToExponent of
        [(ticker, exponent)] \<Rightarrow> Inr (ticker, exponent)
      | _ \<Rightarrow> Inl (''invalid market price exponent map for '' @ exchange @ '' price function of length: '' @
                  decimal_digits (length tickerToExponent) @ '', expected length 1''))"

definition reverseShiftFloatWithPow10 :: "bigfloat \<Rightarrow> bigfloat \<Rightarrow> int32 \<Rightarrow> bigfloat" where
  "reverseShiftFloatWithPow10 val pow10 exponent =
     (if exponent = 0 then val
      else if sint exponent > 0 then bf_Quo val pow10
      else bf_Mul val pow10)"

definition reverseShiftBigFloatSlice :: "bigfloat list \<Rightarrow> int32 \<Rightarrow> bigfloat list" where
  "reverseShiftBigFloatSlice values exponent =
     (let pow10 = bf_SetInt (BigPow10 (ucast (AbsInt32 exponent)))
      in map (\<lambda>val. reverseShiftFloatWithPow10 val pow10 exponent) values)"

definition GetUint64MedianFromReverseShiftedBigFloatValues ::
    "bigfloat list \<Rightarrow> int32 \<Rightarrow> (uint64 list \<Rightarrow> lib_error + uint64) \<Rightarrow> ticker_error + uint64" where
  "GetUint64MedianFromReverseShiftedBigFloatValues bigFloatSlice exponent resolver =
     (if length bigFloatSlice = 0 then Inl ErrNoValues
      else bindE (ConvertBigFloatSliceToUint64Slice (reverseShiftBigFloatSlice bigFloatSlice exponent))
             (\<lambda>uint64Slice. case resolver uint64Slice of Inl err \<Rightarrow> Inl (ErrResolver err) | Inr m \<Rightarrow> Inr m))"

text \<open>The interface \<open>Ticker\<close>, with the tagged fields of the struct that implements it.\<close>

record 't Ticker =
  GetPair :: "'t \<Rightarrow> string"
  GetAskPrice :: "'t \<Rightarrow> go_panic + string"
  GetBidPrice :: "'t \<Rightarrow> go_panic + string"
  GetLastPrice :: "'t \<Rightarrow> go_panic + string"
  ticker_fields :: "'t \<Rightarrow> struct_fields"

type_synonym prices_result = "(string, uint64) gomap \<times> (string, ticker_error) gomap"

definition ticker_price ::
    "validator \<Rightarrow> ('t, 'x) Ticker_scheme \<Rightarrow> (uint64 list \<Rightarrow> lib_error + uint64) \<Rightarrow> int32 \<Rightarrow> 't \<Rightarrow>
     go_panic + ticker_error + uint64" where
  "ticker_price V T resolver exponent ticker =
     (case V (ticker_fields T ticker) of
        Some err \<Rightarrow> Inr (Inl (ErrValidation err))
      | None \<Rightarrow>
          bindE (GetAskPrice T ticker) (\<lambda>ask. bindE (GetBidPrice T ticker) (\<lambda>bid. bindE (GetLastPrice T ticker) (\<lambda>lst.
            Inr (bindE (ConvertStringSliceToBigFloatSlice [ask, bid, lst])
              (\<lambda>bigFloatSlice. GetUint64MedianFromReverseShiftedBigFloatValues bigFloatSlice exponent resolver))))))"

fun median_tickers_loop ::
    "validator \<Rightarrow> ('t, 'x) Ticker_scheme \<Rightarrow> (uint64 list \<Rightarrow> lib_error + uint64) \<Rightarrow> (string, int32) gomap \<Rightarrow>
     't list \<Rightarrow> prices_result \<Rightarrow> go_panic + prices_result" where
  "median_tickers_loop V T resolver tickerToExponent [] (tickerToPrice, unavailable) =
     Inr (tickerToPrice, unavailable)"
| "median_tickers_loop V T resolver tickerToExponent (ticker # rest) (tickerToPrice, unavailable) =
     (let tickerPair = GetPair T ticker in
      case map_of tickerToExponent tickerPair of
        None \<Rightarrow> median_tickers_loop V T resolver tickerToExponent rest (tickerToPrice, unavailable)
      | Some exponent \<Rightarrow>
          bindE (ticker_price V T resolver exponent ticker)
            (\<lambda>r. median_tickers_loop V T resolver tickerToExponent rest
                   (case r of
                      Inl err \<Rightarrow> (tickerToPrice, mput tickerPair err unavailable)
                    | Inr medianPrice \<Rightarrow> (mput tickerPair medianPrice tickerToPrice, unavailable))))"

fun missing_tickers_loop :: "(string, int32) gomap \<Rightarrow> prices_result \<Rightarrow> prices_result" where
  "missing_tickers_loop [] (tickerToPrice, unavailable) = (tickerToPrice, unavailable)"
| "missing_tickers_loop ((ticker, e) # rest) (tickerToPrice, unavailable) =
     missing_tickers_loop rest
       (if map_of tickerToPrice ticker = None \<and> map_of unavailable ticker = None
        then (tickerToPrice, mput ticker (ErrNoListing ticker) unavailable)
        else (tickerToPrice, unavailable))"

definition GetMedianPricesFromTickers ::
    "string + validator \<Rightarrow> validator option \<Rightarrow> ('t, 'x) Ticker_scheme \<Rightarrow> 't list \<Rightarrow> (string, int32) gomap \<Rightarrow>
     (uint64 list \<Rightarrow> lib_error + uint64) \<Rightarrow> go_panic + string + prices_result" where
  "GetMedianPricesFromTickers newValidator apiResponseValidator T tickers tickerToExponent resolver =
     (case GetApiResponseValidator newValidator apiResponseValidator of
        Inl err \<Rightarrow> Inr (Inl (''Error creating API response validator ('' @ err @ '')''))
      | Inr V \<Rightarrow>
          bindE (median_tickers_loop V T resolver tickerToExponent tickers ([], []))
            (\<lambda>r. Inr (Inr (missing_tickers_loop tickerToExponent r))))"

definition ConvertFloat64ToString :: "rat \<Rightarrow> string" where
  "ConvertFloat64ToString num = FormatFloat num"

section \<open>\<open>sources/exchange_error.go\<close>\<close>

record ExchangeError =
  ee_exchangeId :: ExchangeId
  ee_err :: string

definition NewExchangeError :: "ExchangeId \<Rightarrow> string \<Rightarrow> ExchangeError" where
  "NewExchangeError exchangeId msg = \<lparr>ee_exchangeId = exchangeId, ee_err = msg\<rparr>"

definition ExchangeError_GetExchangeId :: "ExchangeError \<Rightarrow> ExchangeId" where
  "ExchangeError_GetExchangeId e = ee_exchangeId e"

definition ExchangeError_Error :: "ExchangeError \<Rightarrow> string" where
  "ExchangeError_Error e = ee_exchangeId e @ '' exchange error: '' @ ee_err e"

section \<open>What the tickers of an answer give\<close>

text \<open>
  What the price functions rely on of a type of tickers: the accessors of a ticker that passed the
  validation do not panic.
\<close>

definition outcomes ::
    "validator \<Rightarrow> ('t, 'x) Ticker_scheme \<Rightarrow> (uint64 list \<Rightarrow> lib_error + uint64) \<Rightarrow> string \<Rightarrow> int32 \<Rightarrow> 't list \<Rightarrow>
     (go_panic + ticker_error + uint64) set" where
  "outcomes V T resolver k e ts = ticker_price V T resolver e ` {t \<in> set ts. GetPair T t = k}"

lemma outcomes_Nil [simp]: "outcomes V T resolver k e [] = {}"
  by (simp add: outcomes_def)

lemma outcomes_Cons: "outcomes V T resolver k e (t # ts) =
    (if GetPair T t = k then insert (ticker_price V T resolver e t) (outcomes V T resolver k e ts)
     else outcomes V T resolver k e ts)"
  by (auto simp: outcomes_def)

text \<open>An entry of a map after outcomes of one kind have been written to it.\<close>

definition written :: "('o \<Rightarrow> 'r) \<Rightarrow> 'r set \<Rightarrow> 'o option \<Rightarrow> 'o option \<Rightarrow> bool" where
  "written con rs before after =
     ((\<forall>x. after = Some x \<longrightarrow> before = Some x \<or> con x \<in> rs) \<and>
      (after = None \<longleftrightarrow> before = None \<and> (\<forall>x. con x \<notin> rs)))"

lemma written_none [simp]: "written con {} b a \<longleftrightarrow> b = a"
  by (cases a; cases b) (auto simp: written_def)

lemma written_insert: "written con rs (Some x) a \<Longrightarrow> written con (insert (con x) rs) b a"
  by (cases a) (auto simp: written_def)

lemma written_other: "(\<And>x. con x \<noteq> r) \<Longrightarrow> written con (insert r rs) b a = written con rs b a"
  by (auto simp: written_def)

abbreviation price_outcome :: "uint64 \<Rightarrow> go_panic + ticker_error + uint64" where "price_outcome p \<equiv> Inr (Inr p)"
abbreviation error_outcome :: "ticker_error \<Rightarrow> go_panic + ticker_error + uint64" where "error_outcome e \<equiv> Inr (Inl e)"

locale ticker_interface =
  fixes T :: "('t, 'x) Ticker_scheme"
  assumes valid_accessors: "fields_valid (ticker_fields T t) \<Longrightarrow>
    \<exists>ask bid lst. GetAskPrice T t = Inr ask \<and> GetBidPrice T t = Inr bid \<and> GetLastPrice T t = Inr lst"
begin

lemma ticker_price_no_panic:
  assumes "validator_laws V"
  obtains r where "ticker_price V T resolver e t = Inr r"
proof (cases "V (ticker_fields T t)")
  case None
  then have "fields_valid (ticker_fields T t)" using assms by (simp add: validator_laws_def)
  then show thesis using valid_accessors [of t] that None by (auto simp: ticker_price_def)
next
  case (Some err)
  then show thesis using that by (simp add: ticker_price_def)
qed

lemma median_tickers_loop_run:
  assumes "validator_laws V"
  shows "\<exists>P' U'. median_tickers_loop V T resolver exps ts (P, U) = Inr (P', U') \<and>
    (\<forall>k. map_of exps k = None \<longrightarrow> map_of P' k = map_of P k \<and> map_of U' k = map_of U k) \<and>
    (\<forall>k e. map_of exps k = Some e \<longrightarrow>
       written price_outcome (outcomes V T resolver k e ts) (map_of P k) (map_of P' k) \<and>
       written error_outcome (outcomes V T resolver k e ts) (map_of U k) (map_of U' k))"
proof (induction ts arbitrary: P U)
  case (Cons t ts)
  let ?pair = "GetPair T t"
  show ?case
  proof (cases "map_of exps ?pair")
    case None
    have "outcomes V T resolver k e (t # ts) = outcomes V T resolver k e ts" if "map_of exps k = Some e" for k e
      using that None by (auto simp: outcomes_Cons)
    then show ?thesis using Cons.IH [of P U] None by (simp cong: conj_cong)
  next
    case (Some e)
    obtain r where r: "ticker_price V T resolver e t = Inr r" using ticker_price_no_panic [OF assms] .
    show ?thesis
    proof (cases r)
      case (Inl err)
      obtain P' U' where IH: "median_tickers_loop V T resolver exps ts (P, mput ?pair err U) = Inr (P', U')"
        and other: "\<And>k. map_of exps k = None \<Longrightarrow> map_of P' k = map_of P k \<and> map_of U' k = map_of (mput ?pair err U) k"
        and own: "\<And>k e. map_of exps k = Some e \<Longrightarrow>
          written price_outcome (outcomes V T resolver k e ts) (map_of P k) (map_of P' k) \<and>
          written error_outcome (outcomes V T resolver k e ts) (map_of (mput ?pair err U) k) (map_of U' k)"
        using Cons.IH [of P "mput ?pair err U"] by blast
      have "map_of P' k = map_of P k \<and> map_of U' k = map_of U k" if "map_of exps k = None" for k
        using other [OF that] that Some by auto
      moreover have "written price_outcome (outcomes V T resolver k e' (t # ts)) (map_of P k) (map_of P' k) \<and>
          written error_outcome (outcomes V T resolver k e' (t # ts)) (map_of U k) (map_of U' k)"
        if "map_of exps k = Some e'" for k e'
        using own [OF that] that Some r Inl by (auto simp: outcomes_Cons written_other intro: written_insert)
      ultimately show ?thesis using IH Some r Inl by auto
    next
      case (Inr p)
      obtain P' U' where IH: "median_tickers_loop V T resolver exps ts (mput ?pair p P, U) = Inr (P', U')"
        and other: "\<And>k. map_of exps k = None \<Longrightarrow> map_of P' k = map_of (mput ?pair p P) k \<and> map_of U' k = map_of U k"
        and own: "\<And>k e. map_of exps k = Some e \<Longrightarrow>
          written price_outcome (outcomes V T resolver k e ts) (map_of (mput ?pair p P) k) (map_of P' k) \<and>
          written error_outcome (outcomes V T resolver k e ts) (map_of U k) (map_of U' k)"
        using Cons.IH [of "mput ?pair p P" U] by blast
      have "map_of P' k = map_of P k \<and> map_of U' k = map_of U k" if "map_of exps k = None" for k
        using other [OF that] that Some by auto
      moreover have "written price_outcome (outcomes V T resolver k e' (t # ts)) (map_of P k) (map_of P' k) \<and>
          written error_outcome (outcomes V T resolver k e' (t # ts)) (map_of U k) (map_of U' k)"
        if "map_of exps k = Some e'" for k e'
        using own [OF that] that Some r Inr by (auto simp: outcomes_Cons written_other intro: written_insert)
      ultimately show ?thesis using IH Some r Inr by auto
    qed
  qed
qed simp

lemma missing_tickers_loop_run:
  "missing_tickers_loop m (P, U) = (P', U') \<Longrightarrow>
   P' = P \<and> (\<forall>k. map_of U' k =
     (if map_of U k = None \<and> map_of P k = None \<and> k \<in> fst ` set m then Some (ErrNoListing k) else map_of U k))"
proof (induction m arbitrary: U)
  case (Cons a m)
  obtain k e where a: "a = (k, e)" by (cases a)
  show ?case
    using Cons.prems Cons.IH [of "if map_of P k = None \<and> map_of U k = None then mput k (ErrNoListing k) U else U"]
    by (auto simp: a fun_upd_def split: if_splits)
qed simp

text \<open>The prices and the errors of an answer, for every requested ticker.\<close>

lemma prices_spec:
  assumes V: "validator_laws V" and env: "GetApiResponseValidator nv cached = Inr V"
  shows "\<exists>P U. GetMedianPricesFromTickers nv cached T ts exps resolver = Inr (Inr (P, U)) \<and>
    (\<forall>k. map_of exps k = None \<longrightarrow> map_of P k = None \<and> map_of U k = None) \<and>
    (\<forall>k e. map_of exps k = Some e \<longrightarrow> (let os = outcomes V T resolver k e ts in
       (\<forall>p. map_of P k = Some p \<longrightarrow> price_outcome p \<in> os) \<and>
       (map_of P k = None \<longleftrightarrow> (\<forall>p. price_outcome p \<notin> os)) \<and>
       (map_of U k = None \<longleftrightarrow> (\<exists>p. price_outcome p \<in> os) \<and> (\<forall>err. error_outcome err \<notin> os)) \<and>
       (os = {} \<longrightarrow> map_of U k = Some (ErrNoListing k))))"
proof -
  obtain P1 U1 where loop: "median_tickers_loop V T resolver exps ts ([], []) = Inr (P1, U1)"
    and other: "\<And>k. map_of exps k = None \<Longrightarrow> map_of P1 k = None \<and> map_of U1 k = None"
    and own: "\<And>k e. map_of exps k = Some e \<Longrightarrow>
       written price_outcome (outcomes V T resolver k e ts) None (map_of P1 k) \<and>
       written error_outcome (outcomes V T resolver k e ts) None (map_of U1 k)"
    using median_tickers_loop_run [OF V, of resolver exps ts "[]" "[]"] by auto
  obtain P U where miss: "missing_tickers_loop exps (P1, U1) = (P, U)" by fastforce
  note PU = missing_tickers_loop_run [OF miss]
  have "GetMedianPricesFromTickers nv cached T ts exps resolver = Inr (Inr (P, U))"
    using env loop miss by (simp add: GetMedianPricesFromTickers_def)
  moreover have "map_of P k = None \<and> map_of U k = None" if "map_of exps k = None" for k
    using other [OF that] PU that by (auto simp: map_of_eq_None_iff)
  moreover have "let os = outcomes V T resolver k e ts in
       (\<forall>p. map_of P k = Some p \<longrightarrow> price_outcome p \<in> os) \<and>
       (map_of P k = None \<longleftrightarrow> (\<forall>p. price_outcome p \<notin> os)) \<and>
       (map_of U k = None \<longleftrightarrow> (\<exists>p. price_outcome p \<in> os) \<and> (\<forall>err. error_outcome err \<notin> os)) \<and>
       (os = {} \<longrightarrow> map_of U k = Some (ErrNoListing k))" if "map_of exps k = Some e" for k e
  proof -
    have mem: "k \<in> fst ` set exps" using map_of_SomeD [OF that] by force
    show ?thesis using own [OF that] PU mem by (auto simp: written_def Let_def)
  qed
  ultimately show ?thesis by blast
qed

end

section \<open>The error of a converted price\<close>

lemma near_le_double: "2 ^ 64 * \<bar>a - b\<bar> \<le> b \<Longrightarrow> \<bar>a\<bar> \<le> 2 * b" for a b :: rat
  by (simp add: abs_if split: if_splits)

lemma near_add: "2 ^ 64 * \<bar>z - a\<bar> \<le> 2 * b \<Longrightarrow> 2 ^ 64 * \<bar>a - b\<bar> \<le> b \<Longrightarrow> 2 ^ 62 * \<bar>z - b\<bar> \<le> b" for z a b :: rat
  by (simp add: abs_if split: if_splits)

lemma round_twice:
  assumes "0 \<le> x" and "0 < c" and "64 \<le> p"
  shows "2 ^ 62 * \<bar>round_prec p (round_prec 64 x * c) - x * c\<bar> \<le> x * c"
proof -
  let ?y = "round_prec 64 x" let ?z = "round_prec p (?y * c)"
  have y: "2 ^ 64 * \<bar>?y - x\<bar> \<le> x" using round_prec_near [of 64 x] assms(1) by simp
  have yc: "2 ^ 64 * \<bar>?y * c - x * c\<bar> \<le> x * c"
  proof -
    have "\<bar>?y * c - x * c\<bar> = \<bar>?y - x\<bar> * c" using assms(2) by (simp add: abs_mult flip: left_diff_distrib)
    then show ?thesis using mult_right_mono [OF y, of c] assms(2) by (simp add: mult.assoc)
  qed
  have "(2 :: rat) ^ 64 \<le> 2 ^ p" using assms(3) by (intro power_increasing) simp_all
  then have "2 ^ 64 * \<bar>?z - ?y * c\<bar> \<le> 2 ^ p * \<bar>?z - ?y * c\<bar>" by (intro mult_right_mono) simp_all
  then have z: "2 ^ 64 * \<bar>?z - ?y * c\<bar> \<le> \<bar>?y * c\<bar>" using round_prec_near [of p "?y * c"] by linarith
  also have "\<bar>?y * c\<bar> \<le> 2 * (x * c)" using yc by (rule near_le_double)
  finally show ?thesis using yc by (rule near_add)
qed

text \<open>The value of \<open>n / 10 ^ k\<close> in units of \<open>10 ^ e\<close>.\<close>

definition in_units :: "nat \<Rightarrow> nat \<Rightarrow> int32 \<Rightarrow> rat" where
  "in_units n k e = of_nat n / 10 ^ k * rpow 10 (- sint e)"

abbreviation shifted :: "bigfloat \<Rightarrow> int32 \<Rightarrow> bigfloat" where
  "shifted b e \<equiv> reverseShiftFloatWithPow10 b (bf_SetInt (BigPow10 (ucast (AbsInt32 e)))) e"

lemma pow10_of_exponent: "BigPow10 (ucast (AbsInt32 e)) = 10 ^ nat \<bar>sint e\<bar>"
proof -
  have "uint (ucast (AbsInt32 e) :: uint64) = uint (AbsInt32 e)"
    using unsigned_less [of "AbsInt32 e", where ?'a = int] by (simp add: unsigned_ucast_eq take_bit_int_eq_self)
  then show ?thesis by (simp add: BigPow10_def bigPow10Helper_correct uint_AbsInt32 flip: nat_uint_eq)
qed

lemma between_inverse:
  fixes P B :: rat
  assumes "1 \<le> P" "P \<le> B"
  shows "1 / B \<le> P" "1 / B \<le> 1 / P" "1 / P \<le> B"
proof -
  have "1 / B \<le> 1" using assms by (simp add: divide_le_eq)
  then show "1 / B \<le> P" using assms(1) by (rule order_trans)
  show "1 / B \<le> 1 / P" using assms by (intro divide_left_mono) simp_all
  have "1 / P \<le> 1" using assms by (simp add: divide_le_eq)
  then show "1 / P \<le> B" using assms by linarith
qed

lemma rpow10_bounds:
  assumes "\<bar>k\<bar> \<le> 100"
  shows "pow2 (- 333) \<le> rpow 10 k \<and> rpow 10 k \<le> pow2 333"
proof -
  define P where "P = (10 :: rat) ^ nat \<bar>k\<bar>"
  have "P \<le> 10 ^ 100" using assms unfolding P_def by (intro power_increasing) simp_all
  also have "\<dots> \<le> pow2 333" by (simp add: pow2_def)
  finally have hi: "P \<le> pow2 333" .
  have lo: "1 \<le> P" by (simp add: P_def)
  have "rpow 10 k = P \<or> rpow 10 k = 1 / P" by (auto simp: rpow_def P_def)
  moreover have "pow2 (- 333) = 1 / pow2 333" by (simp add: pow2_def)
  ultimately show ?thesis using between_inverse [OF lo hi] hi by auto
qed

text \<open>The shifted value is the listed one up to two roundings, and in the range of \<open>big.Float\<close>.\<close>

lemma shifted_value:
  assumes n: "0 < n" "n < 10 ^ 100" and k: "k \<le> 55" and e: "\<bar>sint e\<bar> \<le> 100"
  defines "x \<equiv> of_nat n / 10 ^ k"
  obtains z where "bf_val (shifted \<lparr>bf_prec = 64, bf_val = BFin (round_prec 64 x)\<rparr> e) = BFin z" and "0 < z"
    and "2 ^ 62 * \<bar>z - in_units n k e\<bar> \<le> in_units n k e"
proof -
  define c where "c = rpow 10 (- sint e)"
  define y where "y = round_prec 64 x"
  have v: "in_units n k e = x * c" by (simp add: in_units_def x_def c_def)
  have x: "0 < x" using n by (simp add: x_def)
  have c: "pow2 (- 333) \<le> c" "c \<le> pow2 333" using rpow10_bounds [of "- sint e"] e by (simp_all add: c_def)
  have c0: "0 < c" using c(1) pow2_pos [of "- 333"] by linarith
  have y0: "0 < y" using x by (simp add: y_def round_prec_pos)
  show thesis
  proof (cases "e = 0")
    case True
    then have "c = 1" by (simp add: c_def rpow_def)
    moreover have "2 ^ 62 * \<bar>y - x\<bar> \<le> 2 ^ 64 * \<bar>y - x\<bar>" by (intro mult_right_mono) simp_all
    ultimately have "2 ^ 62 * \<bar>y - in_units n k e\<bar> \<le> in_units n k e"
      using round_prec_near [of 64 x] x v by (simp add: y_def)
    then show thesis using that [of y] True y0 by (simp add: reverseShiftFloatWithPow10_def y_def)
  next
    case False
    define q where "q = nat \<bar>sint e\<bar>"
    define p where "p = max 64 (max (nbits (nat (10 ^ q))) 64)"
    have pow: "BigPow10 (ucast (AbsInt32 e)) = 10 ^ q" by (simp add: pow10_of_exponent q_def)
    have p: "64 \<le> p" by (simp add: p_def)
    have bounds: "pow2 (- 200) \<le> x" "x < pow2 333" using fraction_range [OF n k] by (simp_all add: x_def)
    have half: "x / 2 \<le> y" "y \<le> 3 / 2 * x" using round_prec_half [OF x, of 64] by (simp_all add: y_def)
    have yb: "pow2 (- 201) \<le> y" "y < pow2 334"
      using half bounds by (simp_all add: pow2_def)
    have "pow2 (- 534) = pow2 (- 201) * pow2 (- 333)" "pow2 334 * pow2 333 = pow2 667"
      by (simp_all flip: pow2_add)
    moreover have "pow2 (- 201) * pow2 (- 333) \<le> y * c" using yb c y0 pow2_pos [of "- 333"] by (intro mult_mono) simp_all
    moreover have "y * c < pow2 334 * pow2 333"
      using yb(2) c c0 y0 pow2_pos [of 333] by (intro mult_less_le_imp_less) simp_all
    moreover have "pow2 (- 1000) \<le> pow2 (- 534)" "pow2 667 \<le> pow2 1000" by (intro pow2_mono; simp)+
    ultimately have r: "bf_round p (y * c) = BFin (round_prec p (y * c))"
      using p by (intro bf_round_in_range) linarith+
    have pw: "y / 10 ^ q = y * c" if "sint e > 0" using that by (simp add: c_def rpow_def q_def)
    have pw': "y * 10 ^ q = y * c" if "\<not> sint e > 0" using that by (simp add: c_def rpow_def q_def)
    have "bf_val (shifted \<lparr>bf_prec = 64, bf_val = BFin y\<rparr> e) = BFin (round_prec p (y * c))"
      unfolding reverseShiftFloatWithPow10_def pow using False r pw pw' by (auto simp: bf_apply2_def bf_SetInt_def Let_def p_def)
    moreover have "0 < round_prec p (y * c)" using y0 c0 p by (intro round_prec_pos) simp_all
    moreover have "2 ^ 62 * \<bar>round_prec p (y * c) - in_units n k e\<bar> \<le> in_units n k e"
      unfolding v y_def using round_twice [of x c p] x c0 p by simp
    ultimately show thesis using that by (simp add: y_def)
  qed
qed

lemma near_bounds: "2 ^ 62 * \<bar>z - v\<bar> \<le> v \<Longrightarrow> (1 - 1 / 2 ^ 62) * v \<le> z \<and> z \<le> (1 + 1 / 2 ^ 62) * v" for z v :: rat
  by (simp add: abs_if field_simps split: if_splits)

lemma convert_listed:
  assumes n: "0 < n" "n < 10 ^ 100" and k: "k \<le> 55" and e: "\<bar>sint e\<bar> \<le> 100" and v: "in_units n k e \<le> 2 ^ 63"
  shows "\<exists>u. ConvertBigFloatToUint64 (shifted \<lparr>bf_prec = 64, bf_val = BFin (round_prec 64 (of_nat n / 10 ^ k))\<rparr> e) = Inr u \<and>
    (1 - 1 / 2 ^ 62) * in_units n k e - 1 < of_nat (unat u) \<and> of_nat (unat u) \<le> (1 + 1 / 2 ^ 62) * in_units n k e"
proof -
  obtain z where z: "bf_val (shifted \<lparr>bf_prec = 64, bf_val = BFin (round_prec 64 (of_nat n / 10 ^ k))\<rparr> e) = BFin z"
    "0 < z" "2 ^ 62 * \<bar>z - in_units n k e\<bar> \<le> in_units n k e"
    using shifted_value [OF n k e] .
  have zb: "(1 - 1 / 2 ^ 62) * in_units n k e \<le> z" "z \<le> (1 + 1 / 2 ^ 62) * in_units n k e"
    using near_bounds [OF z(3)] by simp_all
  have "(1 + 1 / 2 ^ 62) * in_units n k e \<le> (1 + 1 / 2 ^ 62) * 2 ^ 63" using v by (intro mult_left_mono) simp_all
  then have max: "z \<le> 2 ^ 64 - 1" using zb(2) by simp
  have fl: "0 \<le> \<lfloor>z\<rfloor>" "\<lfloor>z\<rfloor> \<le> 2 ^ 64 - 1" using z(2) max by (simp_all add: floor_le_iff)
  let ?u = "word_of_int \<lfloor>z\<rfloor> :: uint64"
  have u: "(of_nat (unat ?u) :: rat) = of_int \<lfloor>z\<rfloor>"
    using fl by (simp add: unsigned_of_int take_bit_int_eq_self)
  have "ConvertBigFloatToUint64 (shifted \<lparr>bf_prec = 64, bf_val = BFin (round_prec 64 (of_nat n / 10 ^ k))\<rparr> e) = Inr ?u"
    using z max fl by (simp add: ConvertBigFloatToUint64_def BigFloatMaxUint64_def BigFloat0_def min_def)
  moreover have "(1 - 1 / 2 ^ 62) * in_units n k e - 1 < of_nat (unat ?u)" unfolding u using zb(1) by linarith
  moreover have "of_nat (unat ?u) \<le> (1 + 1 / 2 ^ 62) * in_units n k e"
    unfolding u using of_int_floor_le zb(2) by (rule order_trans)
  ultimately show ?thesis by blast
qed

text \<open>Three listed prices, and the median of what they convert to.\<close>

lemma convert_three:
  assumes "\<forall>n \<in> {a, b, c}. 0 < n \<and> n < 10 ^ 100 \<and> in_units n k e \<le> 2 ^ 63" and "k \<le> 55" and "\<bar>sint e\<bar> \<le> 100"
  obtains us where
    "bindE (ConvertStringSliceToBigFloatSlice [fixed_digits k a, fixed_digits k b, fixed_digits k c])
       (\<lambda>bs. GetUint64MedianFromReverseShiftedBigFloatValues bs e resolver) =
     (case resolver us of Inl err \<Rightarrow> Inl (ErrResolver err) | Inr m \<Rightarrow> Inr m)"
    and "length us = 3"
    and "\<forall>u \<in> set us. \<exists>n \<in> {a, b, c}. (1 - 1 / 2 ^ 62) * in_units n k e - 1 < of_nat (unat u) \<and>
       of_nat (unat u) \<le> (1 + 1 / 2 ^ 62) * in_units n k e"
proof -
  let ?bf = "\<lambda>n. \<lparr>bf_prec = 64, bf_val = BFin (round_prec 64 (of_nat n / 10 ^ k))\<rparr>"
  let ?near = "\<lambda>n u. (1 - 1 / 2 ^ 62) * in_units n k e - 1 < of_nat (unat u) \<and> of_nat (unat u) \<le> (1 + 1 / 2 ^ 62) * in_units n k e"
  have set: "bf_SetString (fixed_digits k n) = Some (?bf n)" if "n \<in> {a, b, c}" for n
    using bf_SetString_fixed [of n k] assms(1) that assms(2) by blast
  have conv: "\<exists>u. ConvertBigFloatToUint64 (shifted (?bf n) e) = Inr u \<and> ?near n u" if "n \<in> {a, b, c}" for n
    using convert_listed [of n k e] assms that by blast
  obtain ua where ua: "ConvertBigFloatToUint64 (shifted (?bf a) e) = Inr ua" "?near a ua" using conv [of a] by blast
  obtain ub where ub: "ConvertBigFloatToUint64 (shifted (?bf b) e) = Inr ub" "?near b ub" using conv [of b] by blast
  obtain uc where uc: "ConvertBigFloatToUint64 (shifted (?bf c) e) = Inr uc" "?near c uc" using conv [of c] by blast
  show thesis
  proof (rule that [of "[ua, ub, uc]"])
    show "bindE (ConvertStringSliceToBigFloatSlice [fixed_digits k a, fixed_digits k b, fixed_digits k c])
       (\<lambda>bs. GetUint64MedianFromReverseShiftedBigFloatValues bs e resolver) =
     (case resolver [ua, ub, uc] of Inl err \<Rightarrow> Inl (ErrResolver err) | Inr m \<Rightarrow> Inr m)"
      using set ua(1) ub(1) uc(1)
      by (simp add: GetUint64MedianFromReverseShiftedBigFloatValues_def reverseShiftBigFloatSlice_def Let_def)
    show "\<forall>u \<in> set [ua, ub, uc]. \<exists>n \<in> {a, b, c}. ?near n u" using ua(2) ub(2) uc(2) by simp
  qed simp
qed

end
