(* ===== verification/Exchanges.thy ===== *)
theory Exchanges
  imports Sources
begin

text \<open>
  One price function per exchange (\<open>pricefeed/client/sources/<exchange>\<close>), and the static query details. \<open>env\<close> stands
  for the validator of the API answers: the cached one, and what creating a new one gives.
\<close>

section \<open>Decoding JSON\<close>

text \<open>
  A JSON document, numbers as they are written. \<open>encoding/json\<close> sets the field of a struct whose name is the key, or
  equals it up to case; it skips unknown keys, leaves a field as it is for \<open>null\<close>, and reports the first value that
  does not fit the type of its field.
\<close>

datatype json =
    JNull
  | JBool bool
  | JNum string
  | JStr string
  | JArr "json list"
  | JObj "(string \<times> json) list"

fun json_kind :: "json \<Rightarrow> string" where
  "json_kind JNull = ''null''"
| "json_kind (JBool b) = ''bool''"
| "json_kind (JNum s) = ''number''"
| "json_kind (JStr s) = ''string''"
| "json_kind (JArr js) = ''array''"
| "json_kind (JObj ms) = ''object''"

definition cannot_unmarshal :: "json \<Rightarrow> string \<Rightarrow> string" where
  "cannot_unmarshal j ty = ''json: cannot unmarshal '' @ json_kind j @ '' into Go value of type '' @ ty"

type_synonym 'a decoder = "'a \<Rightarrow> json \<Rightarrow> string + 'a"

definition decode_string :: "string decoder" where
  "decode_string cur j =
     (case j of JNull \<Rightarrow> Inr cur | JStr s \<Rightarrow> Inr s | _ \<Rightarrow> Inl (cannot_unmarshal j ''string''))"

definition decode_float64 :: "rat decoder" where
  "decode_float64 cur j =
     (case j of
        JNull \<Rightarrow> Inr cur
      | JNum s \<Rightarrow> (case ParseFloat s of Some (FFin x) \<Rightarrow> Inr x | _ \<Rightarrow> Inl (cannot_unmarshal j ''float64''))
      | _ \<Rightarrow> Inl (cannot_unmarshal j ''float64''))"

definition decode_uint32 :: "uint32 decoder" where
  "decode_uint32 cur j =
     (case j of
        JNull \<Rightarrow> Inr cur
      | JNum s \<Rightarrow>
          (case parse_digits s of
             Some n \<Rightarrow> if n < 2 ^ 32 then Inr (word_of_int n) else Inl (cannot_unmarshal j ''uint32'')
           | None \<Rightarrow> Inl (cannot_unmarshal j ''uint32''))
      | _ \<Rightarrow> Inl (cannot_unmarshal j ''uint32''))"

fun decode_elements :: "'a decoder \<Rightarrow> 'a \<Rightarrow> json list \<Rightarrow> string + 'a list" where
  "decode_elements dec zero [] = Inr []"
| "decode_elements dec zero (j # js) =
     bindE (dec zero j) (\<lambda>x. bindE (decode_elements dec zero js) (\<lambda>xs. Inr (x # xs)))"

definition decode_slice :: "'a decoder \<Rightarrow> 'a \<Rightarrow> 'a list decoder" where
  "decode_slice dec zero cur j =
     (case j of JNull \<Rightarrow> Inr [] | JArr js \<Rightarrow> decode_elements dec zero js | _ \<Rightarrow> Inl (cannot_unmarshal j ''slice''))"

fun decode_entries :: "'a decoder \<Rightarrow> 'a \<Rightarrow> (string \<times> json) list \<Rightarrow> (string, 'a) gomap \<Rightarrow> string + (string, 'a) gomap" where
  "decode_entries dec zero [] m = Inr m"
| "decode_entries dec zero ((k, j) # ms) m = bindE (dec zero j) (\<lambda>x. decode_entries dec zero ms (mput k x m))"

definition decode_map :: "'a decoder \<Rightarrow> 'a \<Rightarrow> (string, 'a) gomap decoder" where
  "decode_map dec zero cur j =
     (case j of JNull \<Rightarrow> Inr [] | JObj ms \<Rightarrow> decode_entries dec zero ms cur | _ \<Rightarrow> Inl (cannot_unmarshal j ''map''))"

definition field_decoder :: "(string \<times> 'r decoder) list \<Rightarrow> string \<Rightarrow> 'r decoder option" where
  "field_decoder fds key =
     (case map_of fds key of
        Some d \<Rightarrow> Some d
      | None \<Rightarrow> map_option snd (find (\<lambda>fd. strings_EqualFold (fst fd) key) fds))"

fun decode_members :: "(string \<times> 'r decoder) list \<Rightarrow> 'r \<Rightarrow> (string \<times> json) list \<Rightarrow> string + 'r" where
  "decode_members fds r [] = Inr r"
| "decode_members fds r ((k, j) # ms) =
     (case field_decoder fds k of
        None \<Rightarrow> decode_members fds r ms
      | Some d \<Rightarrow> bindE (d r j) (\<lambda>r'. decode_members fds r' ms))"

definition decode_struct :: "(string \<times> 'r decoder) list \<Rightarrow> 'r decoder" where
  "decode_struct fds r j =
     (case j of JNull \<Rightarrow> Inr r | JObj ms \<Rightarrow> decode_members fds r ms | _ \<Rightarrow> Inl (cannot_unmarshal j ''struct''))"

definition on_field :: "('r \<Rightarrow> 'a) \<Rightarrow> (('a \<Rightarrow> 'a) \<Rightarrow> 'r \<Rightarrow> 'r) \<Rightarrow> 'a decoder \<Rightarrow> 'r decoder" where
  "on_field get upd dec r j = bindE (dec (get r) j) (\<lambda>x. Inr (upd (\<lambda>_. x) r))"

text \<open>An \<open>interface{}\<close> takes any document whose numbers are in the range of \<open>float64\<close>.\<close>

fun json_in_range :: "json \<Rightarrow> bool" where
  "json_in_range (JNum s) = (case ParseFloat s of Some (FFin x) \<Rightarrow> True | _ \<Rightarrow> False)"
| "json_in_range (JArr js) = (\<forall>j \<in> set js. json_in_range j)"
| "json_in_range (JObj ms) = (\<forall>kv \<in> set ms. json_in_range (snd kv))"
| "json_in_range _ = True"

definition decode_any :: "json decoder" where
  "decode_any cur j = (if json_in_range j then Inr j else Inl (cannot_unmarshal j ''float64''))"

text \<open>A body is a document, or the error of the decoder.\<close>

type_synonym body = "string + json"

definition json_Decode :: "'a decoder \<Rightarrow> 'a \<Rightarrow> body \<Rightarrow> string + 'a" where
  "json_Decode dec zero b = bindE b (dec zero)"

section \<open>Tickers\<close>

text \<open>
  The tickers of most exchanges have the same fields, all of them strings, under different names in the
  document: \<open>required\<close> for the pair, \<open>required,positive-float-string\<close> for the prices.
\<close>

record string_ticker =
  st_Pair :: string
  st_AskPrice :: string
  st_BidPrice :: string
  st_LastPrice :: string

definition empty_ticker :: string_ticker where
  "empty_ticker = \<lparr>st_Pair = [], st_AskPrice = [], st_BidPrice = [], st_LastPrice = []\<rparr>"

definition string_Ticker :: "string_ticker Ticker" where
  "string_Ticker =
     \<lparr>GetPair = st_Pair, GetAskPrice = (\<lambda>t. Inr (st_AskPrice t)), GetBidPrice = (\<lambda>t. Inr (st_BidPrice t)),
      GetLastPrice = (\<lambda>t. Inr (st_LastPrice t)),
      ticker_fields = (\<lambda>t. [([Required], VText (st_Pair t)),
        ([Required, PositiveFloatString], VText (st_AskPrice t)),
        ([Required, PositiveFloatString], VText (st_BidPrice t)),
        ([Required, PositiveFloatString], VText (st_LastPrice t))])\<rparr>"

definition string_ticker_decoder :: "string \<Rightarrow> string \<Rightarrow> string \<Rightarrow> string \<Rightarrow> string_ticker decoder" where
  "string_ticker_decoder pair ask bid lst =
     decode_struct [(pair, on_field st_Pair st_Pair_update decode_string),
       (ask, on_field st_AskPrice st_AskPrice_update decode_string),
       (bid, on_field st_BidPrice st_BidPrice_update decode_string),
       (lst, on_field st_LastPrice st_LastPrice_update decode_string)]"

type_synonym env = "(string + validator) \<times> validator option"
type_synonym exchange_price_function =
  "body \<Rightarrow> (string, int32) gomap \<Rightarrow> (uint64 list \<Rightarrow> lib_error + uint64) \<Rightarrow> go_panic + string + prices_result"

definition median_prices :: "env \<Rightarrow> ('t, 'x) Ticker_scheme \<Rightarrow> 't list \<Rightarrow> (string, int32) gomap \<Rightarrow>
    (uint64 list \<Rightarrow> lib_error + uint64) \<Rightarrow> go_panic + string + prices_result" where
  "median_prices env = GetMedianPricesFromTickers (fst env) (snd env)"

section \<open>Exchanges that answer with a list of tickers\<close>

definition BinanceTicker :: "string_ticker decoder" where
  "BinanceTicker = string_ticker_decoder ''symbol'' ''askPrice'' ''bidPrice'' ''lastPrice''"

definition BinancePriceFunction :: "env \<Rightarrow> exchange_price_function" where
  "BinancePriceFunction env response tickerToExponent resolver =
     (case json_Decode (decode_slice BinanceTicker empty_ticker) [] response of
        Inl err \<Rightarrow> Inr (Inl err)
      | Inr binanceTickers \<Rightarrow> median_prices env string_Ticker binanceTickers tickerToExponent resolver)"

definition BitstampTicker :: "string_ticker decoder" where
  "BitstampTicker = string_ticker_decoder ''pair'' ''ask'' ''bid'' ''last''"

definition BitstampPriceFunction :: "env \<Rightarrow> exchange_price_function" where
  "BitstampPriceFunction env response tickerToExponent resolver =
     (case json_Decode (decode_slice BitstampTicker empty_ticker) [] response of
        Inl err \<Rightarrow> Inr (Inl err)
      | Inr bitstampTickers \<Rightarrow> median_prices env string_Ticker bitstampTickers tickerToExponent resolver)"

definition GateTicker :: "string_ticker decoder" where
  "GateTicker = string_ticker_decoder ''currency_pair'' ''lowest_ask'' ''highest_bid'' ''last''"

definition GatePriceFunction :: "env \<Rightarrow> exchange_price_function" where
  "GatePriceFunction env response tickerToExponent resolver =
     (case json_Decode (decode_slice GateTicker empty_ticker) [] response of
        Inl err \<Rightarrow> Inr (Inl err)
      | Inr gateTickers \<Rightarrow> median_prices env string_Ticker gateTickers tickerToExponent resolver)"

definition MexcTicker :: "string_ticker decoder" where
  "MexcTicker = string_ticker_decoder ''symbol'' ''askPrice'' ''bidPrice'' ''lastPrice''"

definition MexcPriceFunction :: "env \<Rightarrow> exchange_price_function" where
  "MexcPriceFunction env response tickerToExponent resolver =
     (case json_Decode (decode_slice MexcTicker empty_ticker) [] response of
        Inl err \<Rightarrow> Inr (Inl err)
      | Inr tickers \<Rightarrow> median_prices env string_Ticker tickers tickerToExponent resolver)"

section \<open>Exchanges that wrap the tickers\<close>

record BybitResponseBody =
  bybit_RetCode :: uint32
  bybit_Tickers :: "string_ticker list"

definition BybitTicker :: "string_ticker decoder" where
  "BybitTicker = string_ticker_decoder ''symbol'' ''ask1Price'' ''bid1Price'' ''lastPrice''"

definition decode_BybitResponseBody :: "BybitResponseBody decoder" where
  "decode_BybitResponseBody =
     decode_struct [(''retCode'', on_field bybit_RetCode bybit_RetCode_update decode_uint32),
       (''result'', decode_struct
          [(''list'', on_field bybit_Tickers bybit_Tickers_update (decode_slice BybitTicker empty_ticker))])]"

definition BybitPriceFunction :: "env \<Rightarrow> exchange_price_function" where
  "BybitPriceFunction env response tickerToExponent resolver =
     (case json_Decode decode_BybitResponseBody \<lparr>bybit_RetCode = 0, bybit_Tickers = []\<rparr> response of
        Inl err \<Rightarrow> Inr (Inl err)
      | Inr body \<Rightarrow>
          if bybit_RetCode body \<noteq> 0 then Inr (Inl ''response code is not 0'')
          else median_prices env string_Ticker (bybit_Tickers body) tickerToExponent resolver)"

record CryptoComResponseBody =
  cryptocom_Code :: uint32
  cryptocom_Tickers :: "string_ticker list"

definition CryptoComTicker :: "string_ticker decoder" where
  "CryptoComTicker = string_ticker_decoder ''i'' ''k'' ''b'' ''a''"

definition decode_CryptoComResponseBody :: "CryptoComResponseBody decoder" where
  "decode_CryptoComResponseBody =
     decode_struct [(''code'', on_field cryptocom_Code cryptocom_Code_update decode_uint32),
       (''result'', decode_struct
          [(''data'', on_field cryptocom_Tickers cryptocom_Tickers_update (decode_slice CryptoComTicker empty_ticker))])]"

definition CryptoComPriceFunction :: "env \<Rightarrow> exchange_price_function" where
  "CryptoComPriceFunction env response tickerToExponent resolver =
     (case json_Decode decode_CryptoComResponseBody \<lparr>cryptocom_Code = 0, cryptocom_Tickers = []\<rparr> response of
        Inl err \<Rightarrow> Inr (Inl err)
      | Inr body \<Rightarrow>
          if cryptocom_Code body \<noteq> 0 then Inr (Inl ''response code is not 0'')
          else median_prices env string_Ticker (cryptocom_Tickers body) tickerToExponent resolver)"

record KucoinResponseBody =
  kucoin_Code :: string
  kucoin_Tickers :: "string_ticker list"

definition KucoinTicker :: "string_ticker decoder" where
  "KucoinTicker = string_ticker_decoder ''symbol'' ''sell'' ''buy'' ''last''"

definition decode_KucoinResponseBody :: "KucoinResponseBody decoder" where
  "decode_KucoinResponseBody =
     decode_struct [(''code'', on_field kucoin_Code kucoin_Code_update decode_string),
       (''data'', decode_struct
          [(''ticker'', on_field kucoin_Tickers kucoin_Tickers_update (decode_slice KucoinTicker empty_ticker))])]"

definition KucoinPriceFunction :: "env \<Rightarrow> exchange_price_function" where
  "KucoinPriceFunction env response tickerToExponent resolver =
     (case json_Decode decode_KucoinResponseBody \<lparr>kucoin_Code = [], kucoin_Tickers = []\<rparr> response of
        Inl err \<Rightarrow> Inr (Inl err)
      | Inr body \<Rightarrow>
          if kucoin_Code body \<noteq> ''200000'' then Inr (Inl ''kucoin response code is not \"200000\"'')
          else median_prices env string_Ticker (kucoin_Tickers body) tickerToExponent resolver)"

record OkxResponseBody =
  okx_Code :: string
  okx_Tickers :: "string_ticker list"

definition OkxTicker :: "string_ticker decoder" where
  "OkxTicker = string_ticker_decoder ''instId'' ''askPx'' ''bidPx'' ''last''"

definition decode_OkxResponseBody :: "OkxResponseBody decoder" where
  "decode_OkxResponseBody =
     decode_struct [(''code'', on_field okx_Code okx_Code_update decode_string),
       (''data'', on_field okx_Tickers okx_Tickers_update (decode_slice OkxTicker empty_ticker))]"

definition OkxPriceFunction :: "env \<Rightarrow> exchange_price_function" where
  "OkxPriceFunction env response marketPriceExponent resolver =
     (case json_Decode decode_OkxResponseBody \<lparr>okx_Code = [], okx_Tickers = []\<rparr> response of
        Inl err \<Rightarrow> Inr (Inl err)
      | Inr body \<Rightarrow>
          if okx_Code body \<noteq> ''0'' then Inr (Inl ''okx response code is not \"0\"'')
          else median_prices env string_Ticker (okx_Tickers body) marketPriceExponent resolver)"

section \<open>Huobi: prices as numbers\<close>

record HuobiTicker =
  ht_Pair :: string
  ht_AskPrice :: rat
  ht_BidPrice :: rat
  ht_LastPrice :: rat

record HuobiResponseBody =
  huobi_Status :: string
  huobi_Tickers :: "HuobiTicker list"

definition Huobi_Ticker :: "HuobiTicker Ticker" where
  "Huobi_Ticker =
     \<lparr>GetPair = ht_Pair, GetAskPrice = (\<lambda>t. Inr (ConvertFloat64ToString (ht_AskPrice t))),
      GetBidPrice = (\<lambda>t. Inr (ConvertFloat64ToString (ht_BidPrice t))),
      GetLastPrice = (\<lambda>t. Inr (ConvertFloat64ToString (ht_LastPrice t))),
      ticker_fields = (\<lambda>t. [([Required], VText (ht_Pair t)), ([Required, GtZero], VNumber (ht_AskPrice t)),
        ([Required, GtZero], VNumber (ht_BidPrice t)), ([Required, GtZero], VNumber (ht_LastPrice t))])\<rparr>"

definition decode_HuobiTicker :: "HuobiTicker decoder" where
  "decode_HuobiTicker =
     decode_struct [(''symbol'', on_field ht_Pair ht_Pair_update decode_string),
       (''ask'', on_field ht_AskPrice ht_AskPrice_update decode_float64),
       (''bid'', on_field ht_BidPrice ht_BidPrice_update decode_float64),
       (''close'', on_field ht_LastPrice ht_LastPrice_update decode_float64)]"

definition decode_HuobiResponseBody :: "HuobiResponseBody decoder" where
  "decode_HuobiResponseBody =
     decode_struct [(''status'', on_field huobi_Status huobi_Status_update decode_string),
       (''data'', on_field huobi_Tickers huobi_Tickers_update
          (decode_slice decode_HuobiTicker \<lparr>ht_Pair = [], ht_AskPrice = 0, ht_BidPrice = 0, ht_LastPrice = 0\<rparr>))]"

definition HuobiPriceFunction :: "env \<Rightarrow> exchange_price_function" where
  "HuobiPriceFunction env response tickerToExponent resolver =
     (case json_Decode decode_HuobiResponseBody \<lparr>huobi_Status = [], huobi_Tickers = []\<rparr> response of
        Inl err \<Rightarrow> Inr (Inl err)
      | Inr body \<Rightarrow>
          if huobi_Status body \<noteq> ''ok'' then Inr (Inl ''huobi response status is not \"ok\"'')
          else median_prices env Huobi_Ticker (huobi_Tickers body) tickerToExponent resolver)"

section \<open>Kraken: lists of price statistics\<close>

record KrakenTickerResult =
  ktr_pair :: string
  ktr_AskPriceStats :: "string list"
  ktr_BidPriceStats :: "string list"
  ktr_ClosePriceStats :: "string list"

record KrakenResponseBody =
  kraken_Errors :: "string list"
  kraken_Tickers :: "(string, KrakenTickerResult) gomap"

definition index0 :: "string list \<Rightarrow> go_panic + string" where
  "index0 xs = (case xs of [] \<Rightarrow> Inl PanicIndexOutOfRange | x # _ \<Rightarrow> Inr x)"

definition WithPair :: "KrakenTickerResult \<Rightarrow> string \<Rightarrow> KrakenTickerResult" where
  "WithPair ktr pair = ktr\<lparr>ktr_pair := pair\<rparr>"

definition Kraken_Ticker :: "KrakenTickerResult Ticker" where
  "Kraken_Ticker =
     \<lparr>GetPair = ktr_pair, GetAskPrice = (\<lambda>t. index0 (ktr_AskPriceStats t)),
      GetBidPrice = (\<lambda>t. index0 (ktr_BidPriceStats t)), GetLastPrice = (\<lambda>t. index0 (ktr_ClosePriceStats t)),
      ticker_fields = (\<lambda>t. [([Len 3, DivePositiveFloatString], VTexts (ktr_AskPriceStats t)),
        ([Len 3, DivePositiveFloatString], VTexts (ktr_BidPriceStats t)),
        ([Len 2, DivePositiveFloatString], VTexts (ktr_ClosePriceStats t))])\<rparr>"

definition decode_KrakenTickerResult :: "KrakenTickerResult decoder" where
  "decode_KrakenTickerResult =
     decode_struct [(''a'', on_field ktr_AskPriceStats ktr_AskPriceStats_update (decode_slice decode_string [])),
       (''b'', on_field ktr_BidPriceStats ktr_BidPriceStats_update (decode_slice decode_string [])),
       (''c'', on_field ktr_ClosePriceStats ktr_ClosePriceStats_update (decode_slice decode_string []))]"

definition decode_KrakenResponseBody :: "KrakenResponseBody decoder" where
  "decode_KrakenResponseBody =
     decode_struct [(''error'', on_field kraken_Errors kraken_Errors_update (decode_slice decode_string [])),
       (''result'', on_field kraken_Tickers kraken_Tickers_update
          (decode_map decode_KrakenTickerResult
             \<lparr>ktr_pair = [], ktr_AskPriceStats = [], ktr_BidPriceStats = [], ktr_ClosePriceStats = []\<rparr>))]"

definition KrakenPriceFunction :: "env \<Rightarrow> exchange_price_function" where
  "KrakenPriceFunction env response tickerToExponent resolver =
     (case json_Decode decode_KrakenResponseBody \<lparr>kraken_Errors = [], kraken_Tickers = []\<rparr> response of
        Inl err \<Rightarrow> Inr (Inl err)
      | Inr body \<Rightarrow>
          if length (kraken_Errors body) > 0
          then Inr (Inl (''kraken API call error: '' @ strings_Join (kraken_Errors body) '', ''))
          else median_prices env Kraken_Ticker (map (\<lambda>(pair, ticker). WithPair ticker pair) (kraken_Tickers body))
                 tickerToExponent resolver)"

section \<open>Coinbase Pro: one ticker without its name\<close>

definition EXCHANGE_ID_COINBASE_PRO :: ExchangeId where "EXCHANGE_ID_COINBASE_PRO = ''CoinbasePro''"

definition CoinbaseProTicker :: "string_ticker decoder" where
  "CoinbaseProTicker = string_ticker_decoder ''Pair'' ''ask'' ''bid'' ''price''"

definition CoinbaseProPriceFunction :: "env \<Rightarrow> exchange_price_function" where
  "CoinbaseProPriceFunction env response tickerToExponent resolver =
     (case GetOnlyTickerAndExponent tickerToExponent EXCHANGE_ID_COINBASE_PRO of
        Inl err \<Rightarrow> Inr (Inl err)
      | Inr (ticker, _) \<Rightarrow>
          (case json_Decode CoinbaseProTicker empty_ticker response of
             Inl err \<Rightarrow> Inr (Inl err)
           | Inr coinbaseProTicker \<Rightarrow>
               median_prices env string_Ticker [coinbaseProTicker\<lparr>st_Pair := ticker\<rparr>] tickerToExponent resolver))"

section \<open>Tickers with one price and no tags: Coinbase rates and the fixed test exchange\<close>

record price_ticker =
  prt_Pair :: string
  prt_Price :: string

definition price_Ticker :: "price_ticker Ticker" where
  "price_Ticker =
     \<lparr>GetPair = prt_Pair, GetAskPrice = (\<lambda>t. Inr (prt_Price t)), GetBidPrice = (\<lambda>t. Inr (prt_Price t)),
      GetLastPrice = (\<lambda>t. Inr (prt_Price t)), ticker_fields = (\<lambda>t. [])\<rparr>"

record CoinbaseRatesData =
  crd_Currency :: string
  crd_Rates :: "(string, string) gomap"

definition decode_CoinbaseRatesResponse :: "CoinbaseRatesData decoder" where
  "decode_CoinbaseRatesResponse =
     decode_struct [(''data'', decode_struct
       [(''currency'', on_field crd_Currency crd_Currency_update decode_string),
        (''rates'', on_field crd_Rates crd_Rates_update (decode_map decode_string []))])]"

text \<open>\<open>1.0 / rate\<close> for a rate that is not zero.\<close>

definition float64_inverse :: "float64 \<Rightarrow> float64" where
  "float64_inverse x = (case x of FFin r \<Rightarrow> float64_round (1 / r) | FInf s \<Rightarrow> FFin 0 | FNaN \<Rightarrow> FNaN)"

definition rates_ticker :: "CoinbaseRatesData \<Rightarrow> string \<Rightarrow> ticker_error + price_ticker" where
  "rates_ticker ratesData ticker =
     (case strings_Split (CHR ''-'') ticker of
        [baseCurrency, quoteCurrency] \<Rightarrow>
          if quoteCurrency \<noteq> ''USD'' then Inl (ErrQuoteCurrency quoteCurrency)
          else (case map_of (crd_Rates ratesData) baseCurrency of
            None \<Rightarrow> Inl (ErrRateNotFound baseCurrency)
          | Some rateStr \<Rightarrow>
              (case ParseFloat rateStr of
                 None \<Rightarrow> Inl (ErrRateParse baseCurrency)
               | Some rate \<Rightarrow>
                   if rate = FFin 0 then Inl (ErrZeroRate baseCurrency)
                   else Inr \<lparr>prt_Pair = ticker, prt_Price = sprintf_percent_f (float64_inverse rate)\<rparr>))
      | _ \<Rightarrow> Inl (ErrTickerFormat ticker))"

fun rates_loop ::
    "CoinbaseRatesData \<Rightarrow> (string, int32) gomap \<Rightarrow> price_ticker list \<Rightarrow> (string, ticker_error) gomap \<Rightarrow>
     price_ticker list \<times> (string, ticker_error) gomap" where
  "rates_loop ratesData [] tickers unavailable = (tickers, unavailable)"
| "rates_loop ratesData ((ticker, e) # rest) tickers unavailable =
     (case rates_ticker ratesData ticker of
        Inl err \<Rightarrow> rates_loop ratesData rest tickers (mput ticker err unavailable)
      | Inr t \<Rightarrow> rates_loop ratesData rest (tickers @ [t]) unavailable)"

fun merge_unavailable :: "(string, ticker_error) gomap \<Rightarrow> (string, ticker_error) gomap \<Rightarrow> (string, ticker_error) gomap" where
  "merge_unavailable [] unavailable = unavailable"
| "merge_unavailable ((ticker, err) # rest) unavailable =
     merge_unavailable rest
       (if map_of unavailable ticker = None then mput ticker err unavailable else unavailable)"

definition CoinbaseRatesPriceFunction :: "env \<Rightarrow> exchange_price_function" where
  "CoinbaseRatesPriceFunction env response tickerToExponent resolver =
     (case json_Decode decode_CoinbaseRatesResponse \<lparr>crd_Currency = [], crd_Rates = []\<rparr> response of
        Inl err \<Rightarrow> Inr (Inl (''failed to decode Coinbase rates response: '' @ err))
      | Inr ratesData \<Rightarrow>
          let (tickers, unavailable) = rates_loop ratesData tickerToExponent [] [] in
          bindE (median_prices env price_Ticker tickers tickerToExponent resolver)
            (\<lambda>r. Inr (bindE r
               (\<lambda>(tickerToPrice, unavailableFromHelper). Inr (tickerToPrice, merge_unavailable unavailableFromHelper unavailable)))))"

definition BTC_USD_PRICE :: rat where "BTC_USD_PRICE = 50000"
definition ETH_USD_PRICE :: rat where "ETH_USD_PRICE = 4000"
definition SOL_USD_PRICE :: rat where "SOL_USD_PRICE = 100"

definition FixedExchangePriceFunction :: "env \<Rightarrow> exchange_price_function" where
  "FixedExchangePriceFunction env response tickerToExponent resolver =
     median_prices env price_Ticker
       [\<lparr>prt_Pair = ''BTC-USD'', prt_Price = sprintf_percent_f (FFin BTC_USD_PRICE)\<rparr>,
        \<lparr>prt_Pair = ''ETH-USD'', prt_Price = sprintf_percent_f (FFin ETH_USD_PRICE)\<rparr>,
        \<lparr>prt_Pair = ''SOL-USD'', prt_Price = sprintf_percent_f (FFin SOL_USD_PRICE)\<rparr>]
       tickerToExponent resolver"

section \<open>Bitfinex: raw arrays\<close>

definition PairIndex :: nat where "PairIndex = 0"
definition BidPriceIndex :: nat where "BidPriceIndex = 1"
definition AskPriceIndex :: nat where "AskPriceIndex = 3"
definition LastPriceIndex :: nat where "LastPriceIndex = 7"
definition BitfinexResponseLength :: nat where "BitfinexResponseLength = 11"

text \<open>The type assertions \<open>.(string)\<close> and \<open>.(float64)\<close>.\<close>

definition as_string :: "json \<Rightarrow> string option" where
  "as_string j = (case j of JStr s \<Rightarrow> Some s | _ \<Rightarrow> None)"

definition as_float64 :: "json \<Rightarrow> rat option" where
  "as_float64 j =
     (case j of JNum s \<Rightarrow> (case ParseFloat s of Some (FFin x) \<Rightarrow> Some x | _ \<Rightarrow> None) | _ \<Rightarrow> None)"

definition raw_ticker :: "json list \<Rightarrow> (string \<times> (ticker_error + string_ticker)) option" where
  "raw_ticker rawTicker =
     (if length rawTicker \<noteq> BitfinexResponseLength then None
      else case as_string (rawTicker ! PairIndex) of
             None \<Rightarrow> None
           | Some pair \<Rightarrow> Some (pair,
               case as_float64 (rawTicker ! BidPriceIndex) of
                 None \<Rightarrow> Inl (ErrNotAFloat64 ''bid'')
               | Some bidPrice \<Rightarrow>
                   (case as_float64 (rawTicker ! AskPriceIndex) of
                      None \<Rightarrow> Inl (ErrNotAFloat64 ''ask'')
                    | Some askPrice \<Rightarrow>
                        (case as_float64 (rawTicker ! LastPriceIndex) of
                           None \<Rightarrow> Inl (ErrNotAFloat64 ''last'')
                         | Some lastPrice \<Rightarrow>
                             Inr \<lparr>st_Pair = pair, st_AskPrice = ConvertFloat64ToString askPrice,
                                  st_BidPrice = ConvertFloat64ToString bidPrice,
                                  st_LastPrice = ConvertFloat64ToString lastPrice\<rparr>))))"

fun bitfinex_loop ::
    "json list list \<Rightarrow> string_ticker list \<Rightarrow> (string, ticker_error) gomap \<Rightarrow>
     string_ticker list \<times> (string, ticker_error) gomap" where
  "bitfinex_loop [] tickers invalidRaw = (tickers, invalidRaw)"
| "bitfinex_loop (raw # rest) tickers invalidRaw =
     (case raw_ticker raw of
        None \<Rightarrow> bitfinex_loop rest tickers invalidRaw
      | Some (pair, Inl err) \<Rightarrow> bitfinex_loop rest tickers (mput pair err invalidRaw)
      | Some (pair, Inr t) \<Rightarrow> bitfinex_loop rest (tickers @ [t]) invalidRaw)"

text \<open>Writing to the map that is nil after an error panics.\<close>

definition mark_invalid ::
    "(string, int32) gomap \<Rightarrow> (string, ticker_error) gomap \<Rightarrow> string + prices_result \<Rightarrow> go_panic + string + prices_result" where
  "mark_invalid tickerToExponent invalidRaw r =
     (let requested = filter (\<lambda>(ticker, err). map_of tickerToExponent ticker \<noteq> None) invalidRaw in
      case r of
        Inl err \<Rightarrow> if requested \<noteq> [] then Inl PanicNilMapWrite else Inr (Inl err)
      | Inr (tickerToPrice, unavailable) \<Rightarrow>
          Inr (Inr (tickerToPrice, fold (\<lambda>(ticker, err). mput ticker err) requested unavailable)))"

definition BitfinexPriceFunction :: "env \<Rightarrow> exchange_price_function" where
  "BitfinexPriceFunction env response tickerToExponent resolver =
     (case json_Decode (decode_slice (decode_slice decode_any JNull) []) [] response of
        Inl err \<Rightarrow> Inr (Inl err)
      | Inr rawResponse \<Rightarrow>
          let (bitfinexTickers, invalidRawTickers) = bitfinex_loop rawResponse [] [] in
          bindE (median_prices env string_Ticker bitfinexTickers tickerToExponent resolver)
            (mark_invalid tickerToExponent invalidRawTickers))"

section \<open>Query details\<close>

text \<open>The static query details of the exchanges, each with its price function.\<close>

type_synonym exchange_details = "ExchangeQueryDetails \<times> (env \<Rightarrow> exchange_price_function)"

definition BinanceDetails :: exchange_details where
  "BinanceDetails = (\<lparr>eqd_Exchange = ''Binance'', eqd_Url = ''https://data-api.binance.vision/api/v3/ticker/24hr'', eqd_IsMultiMarket = True\<rparr>,
     BinancePriceFunction)"

definition BinanceUSDetails :: exchange_details where
  "BinanceUSDetails = (\<lparr>eqd_Exchange = ''BinanceUS'', eqd_Url = ''https://api.binance.us/api/v3/ticker/24hr'', eqd_IsMultiMarket = True\<rparr>,
     BinancePriceFunction)"

definition BitfinexDetails :: exchange_details where
  "BitfinexDetails = (\<lparr>eqd_Exchange = ''Bitfinex'', eqd_Url = ''https://api-pub.bitfinex.com/v2/tickers?symbols=ALL'', eqd_IsMultiMarket = True\<rparr>,
     BitfinexPriceFunction)"

definition BitstampDetails :: exchange_details where
  "BitstampDetails = (\<lparr>eqd_Exchange = ''Bitstamp'', eqd_Url = ''https://www.bitstamp.net/api/v2/ticker/'', eqd_IsMultiMarket = True\<rparr>,
     BitstampPriceFunction)"

definition BybitDetails :: exchange_details where
  "BybitDetails = (\<lparr>eqd_Exchange = ''Bybit'', eqd_Url = ''https://api.bybit.com/v5/market/tickers?category=spot'', eqd_IsMultiMarket = True\<rparr>,
     BybitPriceFunction)"

definition CoinbaseProDetails :: exchange_details where
  "CoinbaseProDetails = (\<lparr>eqd_Exchange = ''CoinbasePro'', eqd_Url = ''https://api.pro.coinbase.com/products/$/ticker'', eqd_IsMultiMarket = False\<rparr>,
     CoinbaseProPriceFunction)"

definition CoinbaseRatesDetails :: exchange_details where
  "CoinbaseRatesDetails = (\<lparr>eqd_Exchange = ''CoinbaseRates'', eqd_Url = ''https://api.coinbase.com/v2/exchange-rates'', eqd_IsMultiMarket = False\<rparr>,
     CoinbaseRatesPriceFunction)"

definition CryptoComDetails :: exchange_details where
  "CryptoComDetails = (\<lparr>eqd_Exchange = ''CryptoCom'', eqd_Url = ''https://api.crypto.com/v2/public/get-ticker'', eqd_IsMultiMarket = True\<rparr>,
     CryptoComPriceFunction)"

definition GateDetails :: exchange_details where
  "GateDetails = (\<lparr>eqd_Exchange = ''Gate'', eqd_Url = ''https://api.gateio.ws/api/v4/spot/tickers'', eqd_IsMultiMarket = True\<rparr>,
     GatePriceFunction)"

definition HuobiDetails :: exchange_details where
  "HuobiDetails = (\<lparr>eqd_Exchange = ''Huobi'', eqd_Url = ''https://api.huobi.pro/market/tickers'', eqd_IsMultiMarket = True\<rparr>,
     HuobiPriceFunction)"

definition KrakenDetails :: exchange_details where
  "KrakenDetails = (\<lparr>eqd_Exchange = ''Kraken'', eqd_Url = ''https://api.kraken.com/0/public/Ticker'', eqd_IsMultiMarket = True\<rparr>,
     KrakenPriceFunction)"

definition KucoinDetails :: exchange_details where
  "KucoinDetails = (\<lparr>eqd_Exchange = ''Kucoin'', eqd_Url = ''https://api.kucoin.com/api/v1/market/allTickers'', eqd_IsMultiMarket = True\<rparr>,
     KucoinPriceFunction)"

definition MexcDetails :: exchange_details where
  "MexcDetails = (\<lparr>eqd_Exchange = ''Mexc'', eqd_Url = ''https://api.mexc.com/api/v3/ticker/24hr'', eqd_IsMultiMarket = True\<rparr>,
     MexcPriceFunction)"

definition OkxDetails :: exchange_details where
  "OkxDetails = (\<lparr>eqd_Exchange = ''Okx'', eqd_Url = ''https://www.okx.com/api/v5/market/tickers?instType=SPOT'', eqd_IsMultiMarket = True\<rparr>,
     OkxPriceFunction)"

definition TestFixedPriceExchangeDetails :: exchange_details where
  "TestFixedPriceExchangeDetails = (\<lparr>eqd_Exchange = ''TestFixedPriceExchange'', eqd_Url = ''https://jsonplaceholder.typicode.com/users'', eqd_IsMultiMarket = False\<rparr>,
     FixedExchangePriceFunction)"

section \<open>The tickers satisfy the contract of the interface\<close>

interpretation string_tickers: ticker_interface string_Ticker
  by unfold_locales (simp add: string_Ticker_def)

interpretation huobi_tickers: ticker_interface Huobi_Ticker
  by unfold_locales (simp add: Huobi_Ticker_def)

interpretation price_tickers: ticker_interface price_Ticker
  by unfold_locales (simp add: price_Ticker_def)

lemma index0_nonempty: "0 < length xs \<Longrightarrow> \<exists>x. index0 xs = Inr x"
  by (cases xs) (simp_all add: index0_def)

interpretation kraken_tickers: ticker_interface Kraken_Ticker
proof unfold_locales
  fix t :: KrakenTickerResult
  assume "fields_valid (ticker_fields Kraken_Ticker t)"
  then have "length (ktr_AskPriceStats t) = 3" "length (ktr_BidPriceStats t) = 3" "length (ktr_ClosePriceStats t) = 2"
    by (simp_all add: Kraken_Ticker_def fields_valid_def)
  then have "0 < length (ktr_AskPriceStats t)" "0 < length (ktr_BidPriceStats t)" "0 < length (ktr_ClosePriceStats t)"
    by simp_all
  then show "\<exists>ask bid lst. GetAskPrice Kraken_Ticker t = Inr ask \<and> GetBidPrice Kraken_Ticker t = Inr bid \<and>
      GetLastPrice Kraken_Ticker t = Inr lst"
    using index0_nonempty by (simp add: Kraken_Ticker_def)
qed

section \<open>Answers name the requested tickers\<close>

definition price_functions :: "env \<Rightarrow> exchange_price_function list" where
  "price_functions env =
     [BinancePriceFunction env, BitstampPriceFunction env, GatePriceFunction env, MexcPriceFunction env,
      BybitPriceFunction env, CryptoComPriceFunction env, KucoinPriceFunction env, OkxPriceFunction env,
      HuobiPriceFunction env, KrakenPriceFunction env, CoinbaseProPriceFunction env,
      CoinbaseRatesPriceFunction env, FixedExchangePriceFunction env, BitfinexPriceFunction env]"

text \<open>No panic, and if there is no error, exactly the requested tickers have a price or are unavailable.\<close>

definition answers :: "(string, int32) gomap \<Rightarrow> go_panic + string + prices_result \<Rightarrow> bool" where
  "answers exps r =
     (\<exists>x. r = Inr x \<and> (\<forall>P U. x = Inr (P, U) \<longrightarrow>
        (\<forall>k. map_of P k \<noteq> None \<or> map_of U k \<noteq> None \<longleftrightarrow> map_of exps k \<noteq> None)))"

lemma answers_error [simp]: "answers exps (Inr (Inl err))"
  by (simp add: answers_def)

context ticker_interface
begin

lemma median_prices_spec:
  assumes "validator_laws V" and "GetApiResponseValidator (fst env) (snd env) = Inr V"
  shows "\<exists>P U. median_prices env T ts exps resolver = Inr (Inr (P, U)) \<and>
    (\<forall>k. map_of P k \<noteq> None \<or> map_of U k \<noteq> None \<longleftrightarrow> map_of exps k \<noteq> None)"
proof -
  obtain P U where PU: "median_prices env T ts exps resolver = Inr (Inr (P, U))"
    and other: "\<And>k. map_of exps k = None \<Longrightarrow> map_of P k = None \<and> map_of U k = None"
    and own: "\<And>k e. map_of exps k = Some e \<Longrightarrow> (let os = outcomes V T resolver k e ts in
       (map_of P k = None \<longleftrightarrow> (\<forall>p. price_outcome p \<notin> os)) \<and>
       (map_of U k = None \<longleftrightarrow> (\<exists>p. price_outcome p \<in> os) \<and> (\<forall>err. error_outcome err \<notin> os)))"
    using prices_spec [OF assms, of ts exps resolver] unfolding median_prices_def Let_def by blast
  have "map_of P k \<noteq> None \<or> map_of U k \<noteq> None \<longleftrightarrow> map_of exps k \<noteq> None" for k
    using other [of k] own [of k] by (cases "map_of exps k") (auto simp: Let_def)
  then show ?thesis using PU by blast
qed

lemma median_prices_answers:
  assumes "validator_laws V" and "GetApiResponseValidator (fst env) (snd env) = Inr V"
  shows "answers exps (median_prices env T ts exps resolver)"
  using median_prices_spec [OF assms, of ts exps resolver] by (auto simp: answers_def)

end

lemma map_of_merge_unavailable:
  "map_of (merge_unavailable m u) k = (case map_of u k of Some e \<Rightarrow> Some e | None \<Rightarrow> map_of m k)"
  by (induction m u rule: merge_unavailable.induct) (auto split: option.splits)

lemma rates_loop_requested:
  "rates_loop ratesData m ts u = (ts', u') \<Longrightarrow> map_of u' k \<noteq> None \<Longrightarrow> map_of u k \<noteq> None \<or> map_of m k \<noteq> None"
proof (induction ratesData m ts u arbitrary: ts' u' rule: rates_loop.induct)
  case (2 ratesData ticker e rest tickers unavailable)
  then show ?case by (cases "rates_ticker ratesData ticker") (fastforce split: if_splits)+
qed auto

lemma map_of_fold_mput:
  "map_of (fold (\<lambda>(ticker, err). mput ticker err) m u) k \<noteq> None \<longleftrightarrow> map_of u k \<noteq> None \<or> k \<in> fst ` set m"
  by (induction m arbitrary: u) (auto simp: fun_upd_def split: if_splits)

lemma CoinbaseRates_answers:
  assumes "validator_laws V" and "GetApiResponseValidator (fst env) (snd env) = Inr V"
  shows "answers exps (CoinbaseRatesPriceFunction env response exps resolver)"
proof (cases "json_Decode decode_CoinbaseRatesResponse \<lparr>crd_Currency = [], crd_Rates = []\<rparr> response")
  case (Inr d)
  obtain ts u where ts: "rates_loop d exps [] [] = (ts, u)" by fastforce
  obtain P U where PU: "median_prices env price_Ticker ts exps resolver = Inr (Inr (P, U))"
    "\<And>k. map_of P k \<noteq> None \<or> map_of U k \<noteq> None \<longleftrightarrow> map_of exps k \<noteq> None"
    using price_tickers.median_prices_spec [OF assms, of ts exps resolver] by blast
  have "map_of u k \<noteq> None \<Longrightarrow> map_of exps k \<noteq> None" for k using rates_loop_requested [OF ts, of k] by simp
  then have "map_of P k \<noteq> None \<or> map_of (merge_unavailable U u) k \<noteq> None \<longleftrightarrow> map_of exps k \<noteq> None" for k
    using PU(2) [of k] by (auto simp: map_of_merge_unavailable split: option.splits)
  then show ?thesis using Inr ts PU(1) by (auto simp: CoinbaseRatesPriceFunction_def answers_def)
qed (simp add: CoinbaseRatesPriceFunction_def)

lemma Bitfinex_answers:
  assumes "validator_laws V" and "GetApiResponseValidator (fst env) (snd env) = Inr V"
  shows "answers exps (BitfinexPriceFunction env response exps resolver)"
proof (cases "json_Decode (decode_slice (decode_slice decode_any JNull) []) [] response")
  case (Inr raw)
  obtain ts inv where ts: "bitfinex_loop raw [] [] = (ts, inv)" by fastforce
  obtain P U where PU: "median_prices env string_Ticker ts exps resolver = Inr (Inr (P, U))"
    "\<And>k. map_of P k \<noteq> None \<or> map_of U k \<noteq> None \<longleftrightarrow> map_of exps k \<noteq> None"
    using string_tickers.median_prices_spec [OF assms, of ts exps resolver] by blast
  let ?req = "filter (\<lambda>(ticker, err). map_of exps ticker \<noteq> None) inv"
  have req: "k \<in> fst ` set ?req \<Longrightarrow> map_of exps k \<noteq> None" for k by auto
  have "map_of P k \<noteq> None \<or> map_of (fold (\<lambda>(ticker, err). mput ticker err) ?req U) k \<noteq> None \<longleftrightarrow> map_of exps k \<noteq> None" for k
    using PU(2) [of k] req [of k] unfolding map_of_fold_mput by blast
  then show ?thesis using Inr ts PU(1) by (simp add: BitfinexPriceFunction_def answers_def mark_invalid_def)
qed (simp add: BitfinexPriceFunction_def)

lemmas wrapped_functions =
  BinancePriceFunction_def BitstampPriceFunction_def GatePriceFunction_def MexcPriceFunction_def BybitPriceFunction_def
  CryptoComPriceFunction_def KucoinPriceFunction_def OkxPriceFunction_def HuobiPriceFunction_def
  KrakenPriceFunction_def CoinbaseProPriceFunction_def FixedExchangePriceFunction_def

lemma price_functions_answered:
  assumes "validator_laws V" and "GetApiResponseValidator (fst env) (snd env) = Inr V" and "f \<in> set (price_functions env)"
  shows "answers exps (f response exps resolver)"
proof -
  note simple = string_tickers.median_prices_answers [OF assms(1,2)] huobi_tickers.median_prices_answers [OF assms(1,2)]
    price_tickers.median_prices_answers [OF assms(1,2)] kraken_tickers.median_prices_answers [OF assms(1,2)]
  consider "f = CoinbaseRatesPriceFunction env" | "f = BitfinexPriceFunction env"
    | "f \<in> {BinancePriceFunction env, BitstampPriceFunction env, GatePriceFunction env, MexcPriceFunction env,
        BybitPriceFunction env, CryptoComPriceFunction env, KucoinPriceFunction env, OkxPriceFunction env,
        HuobiPriceFunction env, KrakenPriceFunction env, CoinbaseProPriceFunction env, FixedExchangePriceFunction env}"
    using assms(3) by (auto simp: price_functions_def)
  then show ?thesis
  proof cases
    case 1
    then show ?thesis using CoinbaseRates_answers [OF assms(1,2)] by simp
  next
    case 2
    then show ?thesis using Bitfinex_answers [OF assms(1,2)] by simp
  next
    case 3
    then show ?thesis by (auto simp: wrapped_functions simple split: sum.split prod.split)
  qed
qed

text \<open>
  C31: what a price function answers. Whatever an exchange sends, no price function panics; and if it reports no error for the
  whole answer, every requested ticker has a price or is marked unavailable, and no other ticker is mentioned.
\<close>

theorem price_functions_answer:
  assumes "validator_laws V" and "GetApiResponseValidator (fst env) (snd env) = Inr V" and "f \<in> set (price_functions env)"
  shows "answers exps (f response exps resolver)"
  using assms by (rule price_functions_answered)

text \<open>The tickers of a query and their market ids have the same keys.\<close>

lemma query_tickers_loop_keys:
  "query_tickers_loop cfg exps ids tm = Inr tm' \<Longrightarrow>
   (\<And>k. map_of (tm_tickerToPriceExponent tm) k = None \<longleftrightarrow> map_of (tm_tickerToMarketId tm) k = None) \<Longrightarrow>
   map_of (tm_tickerToPriceExponent tm') k = None \<longleftrightarrow> map_of (tm_tickerToMarketId tm') k = None"
proof (induction cfg exps ids tm arbitrary: tm' rule: query_tickers_loop.induct)
  case (2 cfg exps m rest tm)
  obtain c where c: "map_of (memc_MarketToMarketConfig cfg) m = Some c"
    using "2.prems"(1) by (auto split: option.splits)
  obtain x where x: "map_of exps m = Some x" using "2.prems"(1) c by (auto split: option.splits)
  show ?case using "2.prems" by (intro "2.IH" [OF c x]) (auto simp: c x)
qed auto

lemma query_prices_loop_known:
  "(\<And>k. map_of P k \<noteq> None \<Longrightarrow> map_of ids k \<noteq> None) \<Longrightarrow> \<exists>mpts. query_prices_loop ids now P acc = Inr mpts"
proof (induction P arbitrary: acc)
  case (Cons a P)
  obtain k p where a: "a = (k, p)" by (cases a)
  obtain m where m: "map_of ids k = Some m" using Cons.prems [of k] a by auto
  have "map_of ids k' \<noteq> None" if "map_of P k' \<noteq> None" for k'
    using Cons.prems [of k'] that a by (cases "k' = k") (auto simp: m)
  then show ?case using Cons.IH by (simp add: a m)
qed simp

lemma query_unavailable_loop_known:
  "(\<And>k. map_of U k \<noteq> None \<Longrightarrow> map_of ids k \<noteq> None) \<Longrightarrow> \<exists>r. query_unavailable_loop ids U acc = Inr r"
proof (induction U arbitrary: acc)
  case (Cons a U)
  obtain k p where a: "a = (k, p)" by (cases a)
  obtain m where m: "map_of ids k = Some m" using Cons.prems [of k] a by auto
  have "map_of ids k' \<noteq> None" if "map_of U k' \<noteq> None" for k'
    using Cons.prems [of k'] that a by (cases "k' = k") (auto simp: m)
  then show ?case using Cons.IH by (simp add: a m)
qed simp

text \<open>A price function that answers, as the query handler calls it.\<close>

definition no_panic :: "exchange_price_function \<Rightarrow> (body, ticker_error) price_function" where
  "no_panic f b exps resolver = (case f b exps resolver of Inr r \<Rightarrow> r | Inl _ \<Rightarrow> Inl ''panic'')"

text \<open>
  The query handler and the price functions fit together. A query of an exchange with its price function never meets a ticker
  it did not ask for: it fails only if the configuration lacks a market, the request fails, or the answer as a whole is
  refused.
\<close>

theorem Query_knows_all_tickers:
  assumes "validator_laws V" and "GetApiResponseValidator (fst env) (snd env) = Inr V" and "f \<in> set (price_functions env)"
  shows "Query get (no_panic f) now details cfg ids exps \<noteq> Inl (ErrNoMarketIdForTicker ticker)"
proof
  assume q: "Query get (no_panic f) now details cfg ids exps = Inl (ErrNoMarketIdForTicker ticker)"
  have loop: "query_tickers_loop cfg exps ids tm \<noteq> Inl (ErrNoMarketIdForTicker ticker)" for tm
    by (induction cfg exps ids tm rule: query_tickers_loop.induct) (auto split: option.splits)
  obtain tm where tm: "query_tickers_loop cfg exps ids
      \<lparr>tm_tickers = [], tm_tickerToPriceExponent = [], tm_tickerToMarketId = []\<rparr> = Inr tm"
    using q loop by (auto simp: Query_def split: if_splits)
  have keys: "map_of (tm_tickerToPriceExponent tm) k = None \<longleftrightarrow> map_of (tm_tickerToMarketId tm) k = None" for k
    using query_tickers_loop_keys [OF tm] by simp
  obtain b P U where r: "no_panic f b (tm_tickerToPriceExponent tm) Median_uint64 = Inr (P, U)"
    and bad: "bindE (query_prices_loop (tm_tickerToMarketId tm) now P [])
       (\<lambda>mpts. bindE (query_unavailable_loop (tm_tickerToMarketId tm) U []) (\<lambda>u. Inr (mpts, u))) =
       Inl (ErrNoMarketIdForTicker ticker)"
    using q tm by (auto simp: Query_def split: if_splits sum.splits prod.splits)
  have "answers (tm_tickerToPriceExponent tm) (f b (tm_tickerToPriceExponent tm) Median_uint64)"
    by (rule price_functions_answered [OF assms])
  then have known: "map_of P k \<noteq> None \<or> map_of U k \<noteq> None \<Longrightarrow> map_of (tm_tickerToMarketId tm) k \<noteq> None" for k
    using r keys [of k] by (auto simp: answers_def no_panic_def split: sum.splits)
  show False
    using bad query_prices_loop_known [of P "tm_tickerToMarketId tm" now "[]"] known
      query_unavailable_loop_known [of U "tm_tickerToMarketId tm" "[]"] by fastforce
qed

section \<open>Prices within the listed ones\<close>

definition listing :: "string \<Rightarrow> nat \<Rightarrow> nat \<Rightarrow> nat \<Rightarrow> nat \<Rightarrow> string_ticker" where
  "listing pair k ask bid lst =
     \<lparr>st_Pair = pair, st_AskPrice = fixed_digits k ask, st_BidPrice = fixed_digits k bid, st_LastPrice = fixed_digits k lst\<rparr>"

lemma listing_valid:
  assumes "\<forall>n \<in> {a, b, c}. 0 < n \<and> n < 10 ^ 100" and "k \<le> 55" and "pair \<noteq> []"
  shows "fields_valid (ticker_fields string_Ticker (listing pair k a b c))"
proof -
  have pos: "validatePositiveNumericString (fixed_digits k n)" if "n \<in> {a, b, c}" for n
  proof -
    have "0 < n" "n < 10 ^ 100" using assms(1) that by auto
    from ParseFloat_fixed [OF this assms(2)] show ?thesis by (auto simp: validatePositiveNumericString_def)
  qed
  have ne: "fixed_digits k n \<noteq> []" for n by (simp add: fixed_digits_def decimal_digits_nonempty Let_def)
  show ?thesis using pos ne assms(3) by (simp add: fields_valid_def string_Ticker_def listing_def)
qed

lemma listing_price:
  assumes "validator_laws V" and "pair \<noteq> []" and "k \<le> 55" and "\<bar>sint e\<bar> \<le> 100"
    and "\<forall>n \<in> {a, b, c}. 0 < n \<and> n < 10 ^ 100 \<and> in_units n k e \<le> 2 ^ 63"
    and "\<forall>n \<in> {a, b, c}. lo \<le> in_units n k e \<and> in_units n k e \<le> hi"
  shows "\<exists>p. ticker_price V string_Ticker Median_uint64 e (listing pair k a b c) = price_outcome p \<and>
    (1 - 1 / 2 ^ 62) * lo - 1 < of_nat (unat p) \<and> of_nat (unat p) \<le> (1 + 1 / 2 ^ 62) * hi"
proof -
  have valid: "V (ticker_fields string_Ticker (listing pair k a b c)) = None"
    using assms(1) listing_valid [of a b c k pair] assms(2,3,5) by (auto simp: validator_laws_def)
  obtain us where us: "bindE (ConvertStringSliceToBigFloatSlice [fixed_digits k a, fixed_digits k b, fixed_digits k c])
       (\<lambda>bs. GetUint64MedianFromReverseShiftedBigFloatValues bs e Median_uint64) =
     (case Median_uint64 us of Inl err \<Rightarrow> Inl (ErrResolver err) | Inr m \<Rightarrow> Inr m)" "length us = 3"
    "\<forall>u \<in> set us. \<exists>n \<in> {a, b, c}. (1 - 1 / 2 ^ 62) * in_units n k e - 1 < of_nat (unat u) \<and>
       of_nat (unat u) \<le> (1 + 1 / 2 ^ 62) * in_units n k e"
    using convert_three [OF assms(5,3,4)] by blast
  have ne: "us \<noteq> []" using us(2) by auto
  obtain p where p: "Median_uint64 us = Inr p" using medianResolver.resolver_total [OF ne] by blast
  let ?lo = "Min (set us)" let ?hi = "Max (set us)"
  have "?lo \<le> p \<and> p \<le> ?hi" using ne by (intro medianResolver.resolver_bounds [OF p ne]) auto
  then have le: "unat ?lo \<le> unat p" "unat p \<le> unat ?hi" by (simp_all add: word_le_nat_alt)
  have near: "(1 - 1 / 2 ^ 62) * lo - 1 < of_nat (unat u) \<and> of_nat (unat u) \<le> (1 + 1 / 2 ^ 62) * hi"
    if "u \<in> set us" for u
  proof -
    from bspec [OF us(3) that] obtain n where n: "n \<in> {a, b, c}"
      "(1 - 1 / 2 ^ 62) * in_units n k e - 1 < of_nat (unat u)"
      "of_nat (unat u) \<le> (1 + 1 / 2 ^ 62) * in_units n k e" by (elim bexE conjE)
    have "(1 - 1 / 2 ^ 62) * lo \<le> (1 - 1 / 2 ^ 62) * in_units n k e" using assms(6) n(1) by (intro mult_left_mono) auto
    then have "(1 - 1 / 2 ^ 62) * lo - 1 \<le> (1 - 1 / 2 ^ 62) * in_units n k e - 1" by (rule diff_right_mono)
    moreover have "(1 + 1 / 2 ^ 62) * in_units n k e \<le> (1 + 1 / 2 ^ 62) * hi" using assms(6) n(1) by (intro mult_left_mono) auto
    ultimately show ?thesis using n(2,3) by (meson le_less_trans order_trans)
  qed
  have mem: "?lo \<in> set us" "?hi \<in> set us" using ne by simp_all
  have "(1 - 1 / 2 ^ 62) * lo - 1 < of_nat (unat p)"
    using near [OF mem(1)] le(1) by (meson less_le_trans of_nat_mono)
  moreover have "of_nat (unat p) \<le> (1 + 1 / 2 ^ 62) * hi"
    using near [OF mem(2)] le(2) by (meson order_trans of_nat_mono)
  moreover have "ticker_price V string_Ticker Median_uint64 e (listing pair k a b c) = price_outcome p"
    using valid us(1) p by (simp add: ticker_price_def string_Ticker_def listing_def del: ConvertStringSliceToBigFloatSlice.simps)
  ultimately show ?thesis by blast
qed

text \<open>
  C14: an exchange's price lies within the listed ones. Take a ticker that is listed once, with its ask, bid and last price as
  decimal fractions that fit into 63 bits in units of the market's exponent. Then the ticker gets a price, and the price is between
  the lowest and the highest of the three, up to one unit and a relative error of \<open>2 ^ -62\<close>.
\<close>

theorem exchange_price_bounds:
  assumes "validator_laws V" and "GetApiResponseValidator nv cached = Inr V"
    and "{t \<in> set ts. st_Pair t = pair} = {listing pair k a b c}" and "map_of exps pair = Some e"
    and "pair \<noteq> []" and "k \<le> 55" and "\<bar>sint e\<bar> \<le> 100"
    and "\<forall>n \<in> {a, b, c}. 0 < n \<and> n < 10 ^ 100 \<and> in_units n k e \<le> 2 ^ 63"
    and "\<forall>n \<in> {a, b, c}. lo \<le> in_units n k e \<and> in_units n k e \<le> hi"
  shows "\<exists>P U p. GetMedianPricesFromTickers nv cached string_Ticker ts exps Median_uint64 = Inr (Inr (P, U)) \<and>
    map_of P pair = Some p \<and> map_of U pair = None \<and>
    (1 - 1 / 2 ^ 62) * lo - 1 < of_nat (unat p) \<and> of_nat (unat p) \<le> (1 + 1 / 2 ^ 62) * hi"
proof -
  obtain p where p: "ticker_price V string_Ticker Median_uint64 e (listing pair k a b c) = price_outcome p"
    and near: "(1 - 1 / 2 ^ 62) * lo - 1 < of_nat (unat p)" "of_nat (unat p) \<le> (1 + 1 / 2 ^ 62) * hi"
    using listing_price [OF assms(1,5-9)] by (elim exE conjE)
  have os: "outcomes V string_Ticker Median_uint64 pair e ts = {price_outcome p}"
    using assms(3) p by (simp add: outcomes_def string_Ticker_def)
  obtain P U where "GetMedianPricesFromTickers nv cached string_Ticker ts exps Median_uint64 = Inr (Inr (P, U))"
    and "map_of P pair = Some p" and "map_of U pair = None"
    using string_tickers.prices_spec [OF assms(1,2), of ts exps Median_uint64] assms(4) os
    by (auto simp: Let_def dest!: spec [of _ pair])
  then show ?thesis using near by blast
qed

text \<open>
  An exact price may come out one unit low. The decimal fraction is first rounded to 64 bits, multiplied with another rounding,
  and then truncated: a listed price of \<open>0.53\<close> becomes 52 in units of a hundredth.
\<close>

theorem listed_price_off_by_one:
  "in_units 53 2 (- 2) = 53 \<and>
   bindE (ConvertStringSliceToBigFloatSlice [''0.53'', ''0.53'', ''0.53''])
     (\<lambda>bs. GetUint64MedianFromReverseShiftedBigFloatValues bs (- 2) Median_uint64) = Inr 52"
proof
  show "in_units 53 2 (- 2) = 53" by (simp add: in_units_def rpow_def)
  let ?y = "9776774359066062356 / 2 ^ 64 :: rat" let ?z = "15276209936040722431 / 2 ^ 58 :: rat"
  have "fixed_digits 2 53 = ''0.53''" by code_simp
  then have set: "bf_SetString ''0.53'' = Some \<lparr>bf_prec = 64, bf_val = BFin (round_prec 64 (53 / 100))\<rparr>"
    using bf_SetString_fixed [of 53 2] by simp
  have y: "round_prec 64 (53 / 100) = ?y"
    using round_prec_is [of "- 1" "53 / 100" 64 9776774359066062356] by (simp add: pow2_def)
  have z: "round_prec 64 (?y * 100) = ?z"
    using round_prec_is [of 5 "?y * 100" 64 15276209936040722431] by (simp add: pow2_def)
  have "bf_round 64 (?y * 100) = BFin ?z"
    unfolding z [symmetric] by (rule bf_round_in_range) (simp_all add: pow2_def)
  moreover have "nbits 100 \<le> 64" by (rule nbits_le) simp
  ultimately have "bf_val (shifted \<lparr>bf_prec = 64, bf_val = BFin ?y\<rparr> (- 2)) = BFin ?z"
    by (simp add: reverseShiftFloatWithPow10_def pow10_of_exponent bf_SetInt_def bf_apply2_def max_def)
  moreover have "\<lfloor>?z\<rfloor> = 52" by (rule floor_unique) simp_all
  ultimately have conv: "ConvertBigFloatToUint64 (shifted \<lparr>bf_prec = 64, bf_val = BFin ?y\<rparr> (- 2)) = Inr 52"
    by (simp add: ConvertBigFloatToUint64_def BigFloatMaxUint64_def BigFloat0_def)
  have "Median_uint64 [52, 52, 52] = Inr (52 :: uint64)"
  proof -
    obtain v where v: "Median_uint64 [52, 52, 52] = Inr v" using medianResolver.resolver_total [of "[52, 52, 52]"] by auto
    have "52 \<le> v \<and> v \<le> 52" by (rule medianResolver.resolver_bounds [OF v]) auto
    then show ?thesis using v by (auto intro: antisym)
  qed
  then show "bindE (ConvertStringSliceToBigFloatSlice [''0.53'', ''0.53'', ''0.53''])
     (\<lambda>bs. GetUint64MedianFromReverseShiftedBigFloatValues bs (- 2) Median_uint64) = Inr 52"
    using set y conv by (simp add: GetUint64MedianFromReverseShiftedBigFloatValues_def reverseShiftBigFloatSlice_def Let_def)
qed

text \<open>
  Binance prices of quoted tickers. Binance lists its pairs without quotation marks, and the client compares them as they are.
  So a market whose configured ticker has quotation marks never gets a price from Binance: every answer marks it as not listed.
\<close>

theorem binance_quoted_ticker:
  assumes "validator_laws V" and "GetApiResponseValidator (fst env) (snd env) = Inr V"
    and "json_Decode (decode_slice BinanceTicker empty_ticker) [] response = Inr ts"
    and "\<forall>t \<in> set ts. CHR 0x22 \<notin> set (st_Pair t)" and "CHR 0x22 \<in> set ticker" and "map_of exps ticker = Some e"
  shows "\<exists>P U. BinancePriceFunction env response exps resolver = Inr (Inr (P, U)) \<and>
    map_of P ticker = None \<and> map_of U ticker = Some (ErrNoListing ticker)"
proof -
  have "outcomes V string_Ticker resolver ticker e ts = {}"
    using assms(4,5) by (auto simp: outcomes_def string_Ticker_def)
  then show ?thesis
    using string_tickers.prices_spec [OF assms(1,2), of ts exps resolver] assms(3,6)
    by (auto simp: BinancePriceFunction_def median_prices_def Let_def)
qed

section \<open>Witnesses\<close>

definition demo_validator :: validator where
  "demo_validator fs = (if fields_valid fs then None else Some ''invalid'')"

definition demo_env :: env where
  "demo_env = (Inr demo_validator, None)"

lemma demo_env_laws: "validator_laws demo_validator" "GetApiResponseValidator (fst demo_env) (snd demo_env) = Inr demo_validator"
  by (simp_all add: validator_laws_def demo_validator_def demo_env_def GetApiResponseValidator_def)

theorem price_functions_answer_witness:
  "answers [(''XBTUSD'', - 5)] (KrakenPriceFunction demo_env
     (Inr (JObj [(''result'', JObj [(''XBTUSD'', JObj [(''a'', JArr [])])])])) [(''XBTUSD'', - 5)] Median_uint64)"
  by (rule price_functions_answer [OF demo_env_laws]) (simp add: price_functions_def)

theorem Query_knows_all_tickers_witness:
  "Query (\<lambda>url. Inr \<lparr>resp_StatusCode = 200, resp_Body = Inr (JArr [JObj [(''pair'', JStr ''BTC/USD'')]])\<rparr>)
     (no_panic (BitstampPriceFunction demo_env)) 0
     \<lparr>eqd_Exchange = ''Bitstamp'', eqd_Url = ''https://www.bitstamp.net/api/v2/ticker/'', eqd_IsMultiMarket = True\<rparr>
     \<lparr>memc_Id = ''Bitstamp'', memc_MarketToMarketConfig = [(0, \<lparr>mc_Ticker = ''ETH/USD'', mc_AdjustByMarket = None, mc_Invert = False\<rparr>)]\<rparr>
     [0] [(0, - 5)] \<noteq> Inl (ErrNoMarketIdForTicker ''BTC/USD'')"
  by (rule Query_knows_all_tickers [OF demo_env_laws]) (simp add: price_functions_def)

theorem exchange_price_bounds_witness:
  "\<exists>P U p. GetMedianPricesFromTickers (Inr demo_validator) None string_Ticker
       [listing ''ETHUSDT'' 2 178025 178024 178029, listing ''BTCUSDT'' 2 1 1 1] [(''ETHUSDT'', - 5)] Median_uint64 = Inr (Inr (P, U)) \<and>
    map_of P ''ETHUSDT'' = Some p \<and> map_of U ''ETHUSDT'' = None \<and>
    (1 - 1 / 2 ^ 62) * 178024000 - 1 < (of_nat (unat p) :: rat) \<and> of_nat (unat p) \<le> (1 + 1 / 2 ^ 62) * (178029000 :: rat)"
  by (rule exchange_price_bounds [OF demo_env_laws(1), where e = "- 5" and a = 178025 and b = 178024 and c = 178029 and k = 2])
    (auto simp: demo_env_laws(2) [unfolded demo_env_def, simplified] listing_def in_units_def rpow_def)

theorem binance_quoted_ticker_witness:
  "\<exists>P U. BinancePriceFunction demo_env (Inr (JArr [JObj [(''symbol'', JStr ''BTCUSDT''), (''askPrice'', JStr ''30000'')]]))
      [(CHR 0x22 # ''BTCUSDT'' @ [CHR 0x22], - 5)] Median_uint64 = Inr (Inr (P, U)) \<and>
    map_of P (CHR 0x22 # ''BTCUSDT'' @ [CHR 0x22]) = None \<and>
    map_of U (CHR 0x22 # ''BTCUSDT'' @ [CHR 0x22]) = Some (ErrNoListing (CHR 0x22 # ''BTCUSDT'' @ [CHR 0x22]))"
proof (rule binance_quoted_ticker [OF demo_env_laws])
  show "json_Decode (decode_slice BinanceTicker empty_ticker) []
      (Inr (JArr [JObj [(''symbol'', JStr ''BTCUSDT''), (''askPrice'', JStr ''30000'')]])) =
    Inr [\<lparr>st_Pair = ''BTCUSDT'', st_AskPrice = ''30000'', st_BidPrice = [], st_LastPrice = []\<rparr>]"
    by code_simp
qed simp_all

end
