(* ===== verification/FloatFormat.thy ===== *)
theory FloatFormat
  imports Floats
begin

text \<open>
  The arithmetic of \<open>float64\<close> with infinities and NaN, and what the custom queries rely on: rounding is
  exact on the numbers that \<open>float64\<close> can represent, it is monotone, its error is bounded, and
  \<open>strconv.FormatFloat\<close> with the shortest representation always finds digits that read back as the same
  number.
\<close>

section \<open>Arithmetic\<close>

fun f64_neg :: "float64 \<Rightarrow> float64" where
  "f64_neg (FFin x) = FFin (- x)"
| "f64_neg (FInf s) = FInf (\<not> s)"
| "f64_neg FNaN = FNaN"

fun f64_add :: "float64 \<Rightarrow> float64 \<Rightarrow> float64" where
  "f64_add (FFin x) (FFin y) = float64_round (x + y)"
| "f64_add (FInf s) (FFin y) = FInf s"
| "f64_add (FFin x) (FInf t) = FInf t"
| "f64_add (FInf s) (FInf t) = (if s = t then FInf s else FNaN)"
| "f64_add FNaN y = FNaN"
| "f64_add x FNaN = FNaN"

definition f64_sub :: "float64 \<Rightarrow> float64 \<Rightarrow> float64" where
  "f64_sub x y = f64_add x (f64_neg y)"

fun f64_mul :: "float64 \<Rightarrow> float64 \<Rightarrow> float64" where
  "f64_mul (FFin x) (FFin y) = float64_round (x * y)"
| "f64_mul (FInf s) (FFin y) = (if y = 0 then FNaN else FInf (s \<noteq> (y < 0)))"
| "f64_mul (FFin x) (FInf t) = (if x = 0 then FNaN else FInf (t \<noteq> (x < 0)))"
| "f64_mul (FInf s) (FInf t) = FInf (s \<noteq> t)"
| "f64_mul FNaN y = FNaN"
| "f64_mul x FNaN = FNaN"

text \<open>A division by zero is one by positive zero.\<close>

fun f64_div :: "float64 \<Rightarrow> float64 \<Rightarrow> float64" where
  "f64_div (FFin x) (FFin y) = (if y = 0 then if x = 0 then FNaN else FInf (x < 0) else float64_round (x / y))"
| "f64_div (FInf s) (FFin y) = FInf (s \<noteq> (y < 0))"
| "f64_div (FFin x) (FInf t) = FFin 0"
| "f64_div (FInf s) (FInf t) = FNaN"
| "f64_div FNaN y = FNaN"
| "f64_div x FNaN = FNaN"

text \<open>Every comparison with NaN is false.\<close>

fun f64_less :: "float64 \<Rightarrow> float64 \<Rightarrow> bool" where
  "f64_less (FFin x) (FFin y) = (x < y)"
| "f64_less (FInf s) (FFin y) = s"
| "f64_less (FFin x) (FInf t) = (\<not> t)"
| "f64_less (FInf s) (FInf t) = (s \<and> \<not> t)"
| "f64_less FNaN y = False"
| "f64_less x FNaN = False"

fun f64_le :: "float64 \<Rightarrow> float64 \<Rightarrow> bool" where
  "f64_le FNaN y = False"
| "f64_le x FNaN = False"
| "f64_le x y = (\<not> f64_less y x)"

definition math_IsNaN :: "float64 \<Rightarrow> bool" where
  "math_IsNaN x \<longleftrightarrow> x = FNaN"

definition math_IsInf0 :: "float64 \<Rightarrow> bool" where
  "math_IsInf0 x \<longleftrightarrow> (\<exists>s \<in> {True, False}. x = FInf s)"

fun float_value :: "float64 \<Rightarrow> rat" where
  "float_value (FFin x) = x"
| "float_value (FInf s) = 0"
| "float_value FNaN = 0"

text \<open>The numbers of type \<open>float64\<close>.\<close>

definition is_float64 :: "rat \<Rightarrow> bool" where
  "is_float64 x \<longleftrightarrow> float64_round x = FFin x"

section \<open>Representable numbers\<close>

abbreviation ulp_exp :: "rat \<Rightarrow> int" where
  "ulp_exp x \<equiv> max (float_exp x - 52) (- 1074)"

lemma pow2_divide: "pow2 (a - b) = pow2 a / pow2 b"
  using pow2_add [of "a - b" b] pow2_pos [of b] by (simp add: field_simps)

lemma pow2_multiple: "a \<le> b \<Longrightarrow> \<exists>j :: nat. pow2 b = 2 ^ j * pow2 a"
  using pow2_add [of "b - a" a] pow2_int [of "nat (b - a)"] by (intro exI [of _ "nat (b - a)"]) simp

lemma round_mult_exact:
  assumes "pow2 k > 0" and "x = of_int m * pow2 k"
  shows "of_int (round_half_even (x / pow2 k)) * pow2 k = x"
  using assms by simp

lemma grid_coarsen:
  assumes "x = of_int m * pow2 b" and "a \<le> b"
  obtains m' where "x = of_int m' * pow2 a"
proof -
  from pow2_multiple [OF assms(2)] obtain j where "pow2 b = 2 ^ j * pow2 a" ..
  then have "x = of_int (m * 2 ^ j) * pow2 a" using assms(1) by simp
  then show thesis by (rule that)
qed

lemma float64_round_exact:
  assumes "0 < x" and "x < pow2 1024" and "x = of_int m * pow2 k" and "ulp_exp x \<le> k"
  shows "float64_round x = FFin x"
proof -
  obtain m' where "x = of_int m' * pow2 (ulp_exp x)" using grid_coarsen [OF assms(3,4)] .
  then have "of_int (round_half_even (x / pow2 (ulp_exp x))) * pow2 (ulp_exp x) = x"
    using pow2_pos by (intro round_mult_exact) simp_all
  then show ?thesis using assms(1,2) by (simp add: float64_round_def Let_def)
qed

lemma float64_round_neg:
  "float64_round (- x) = f64_neg (float64_round x)"
  by (auto simp: float64_round_def Let_def)

lemma is_float64_0 [simp]: "is_float64 0"
  by (simp add: is_float64_def float64_round_def)

lemma is_float64_neg [simp]: "is_float64 (- x) \<longleftrightarrow> is_float64 x"
proof -
  have "is_float64 (- x)" if "is_float64 x" for x
    using that by (simp add: is_float64_def float64_round_neg)
  from this [of x] this [of "- x"] show ?thesis by auto
qed

lemma is_float64_abs [simp]: "is_float64 \<bar>x\<bar> \<longleftrightarrow> is_float64 x"
  by (simp add: abs_if)

text \<open>What a positive number of the type looks like.\<close>

lemma is_float64_posD:
  assumes "is_float64 x" and "0 < x"
  obtains m where "x = of_int m * pow2 (ulp_exp x)" and "x < pow2 1024"
proof -
  from assms have "of_int (round_half_even (x / pow2 (ulp_exp x))) * pow2 (ulp_exp x) = x" "x < pow2 1024"
    by (auto simp: is_float64_def float64_round_def Let_def split: if_splits)
  then show thesis by (intro that [of "round_half_even (x / pow2 (ulp_exp x))"]) simp_all
qed

lemma float64_round_pos:
  assumes "0 < x"
  defines "m \<equiv> of_int (round_half_even (x / pow2 (ulp_exp x))) * pow2 (ulp_exp x)"
  shows "float64_round x = (if pow2 1024 \<le> m then FInf False else FFin m)" and "0 \<le> m"
proof -
  show "float64_round x = (if pow2 1024 \<le> m then FInf False else FFin m)"
    using assms(1) by (simp add: float64_round_def Let_def m_def)
  have "0 \<le> x / pow2 (ulp_exp x)" using assms(1) pow2_pos [of "ulp_exp x"] by simp
  then have "0 \<le> \<lfloor>x / pow2 (ulp_exp x)\<rfloor>" by simp
  then have "0 \<le> round_half_even (x / pow2 (ulp_exp x))" by (auto simp: round_half_even_def Let_def)
  then show "0 \<le> m" using pow2_pos [of "ulp_exp x"] by (simp add: m_def)
qed

lemma float64_round_grid:
  assumes "float64_round x = FFin y"
  obtains m where "y = of_int m * pow2 (- 1074)"
proof -
  have pos: "\<exists>m. y = of_int m * pow2 (- 1074)" if "0 < x" "float64_round x = FFin y" for x y
  proof -
    from float64_round_pos [OF that(1)] that(2)
    have "y = of_int (round_half_even (x / pow2 (ulp_exp x))) * pow2 (ulp_exp x)" by (simp split: if_splits)
    from grid_coarsen [OF this, of "- 1074"] show ?thesis by auto
  qed
  consider "x = 0" | "0 < x" | "x < 0" by linarith
  then show thesis
  proof cases
    case 1
    then show ?thesis using assms that [of 0] by (simp add: float64_round_def)
  next
    case 2
    then show ?thesis using pos assms that by blast
  next
    case 3
    then obtain m where "- y = of_int m * pow2 (- 1074)"
      using pos [of "- x" "- y"] assms by (auto simp: float64_round_neg)
    then have "y = of_int (- m) * pow2 (- 1074)" by (simp add: eq_neg_iff_add_eq_0 neg_eq_iff_add_eq_0)
    then show ?thesis by (rule that)
  qed
qed

section \<open>Rounding is monotone\<close>

lemma round_half_even_ge: "of_int k \<le> y \<Longrightarrow> k \<le> round_half_even y"
  unfolding round_half_even_def Let_def by (auto simp: le_floor_iff intro: order_trans [of k "\<lfloor>y\<rfloor>"])

lemma round_half_even_le:
  assumes "y \<le> of_int k"
  shows "round_half_even y \<le> k"
proof (cases "y = of_int k")
  case False
  then have "\<lfloor>y\<rfloor> < k" using assms by (simp add: floor_less_iff)
  then show ?thesis by (auto simp: round_half_even_def Let_def)
qed simp

lemma float64_round_between:
  assumes "0 < x" and "float64_round x = FFin y"
  shows "of_int k * pow2 (ulp_exp x) \<le> x \<Longrightarrow> of_int k * pow2 (ulp_exp x) \<le> y"
    and "x \<le> of_int k * pow2 (ulp_exp x) \<Longrightarrow> y \<le> of_int k * pow2 (ulp_exp x)"
proof -
  let ?u = "pow2 (ulp_exp x)"
  have y: "y = of_int (round_half_even (x / ?u)) * ?u" using float64_round_pos [OF assms(1)] assms(2) by (simp split: if_splits)
  show "of_int k * ?u \<le> x \<Longrightarrow> of_int k * ?u \<le> y"
    unfolding y using pow2_pos [of "ulp_exp x"] by (intro mult_right_mono) (simp_all add: round_half_even_ge pos_le_divide_eq)
  show "x \<le> of_int k * ?u \<Longrightarrow> y \<le> of_int k * ?u"
    unfolding y using pow2_pos [of "ulp_exp x"] by (intro mult_right_mono) (simp_all add: round_half_even_le pos_divide_le_eq)
qed

lemma pow2_on_grid: "ulp_exp x \<le> b \<Longrightarrow> \<exists>k. pow2 b = of_int k * pow2 (ulp_exp x)"
  using pow2_multiple [of "ulp_exp x" b] by (metis of_int_numeral of_int_power)

lemma float_exp_pow2 [simp]: "float_exp (pow2 b) = b"
proof -
  have "pow2 b < pow2 (b + 1)" using pow2_pos [of b] by (simp add: pow2_add pow2_def [of 1])
  then show ?thesis using float_exp_bounds [of b "pow2 b" "b + 1"] by simp
qed

text \<open>What rounding returns is a number of the type.\<close>

lemma float64_round_is_pos:
  assumes x: "0 < x" and r: "float64_round x = FFin y"
  shows "is_float64 y"
proof (cases "y = 0")
  case False
  let ?E = "ulp_exp x" let ?B = "max (float_exp x + 1) ?E"
  have y: "y = of_int (round_half_even (x / pow2 ?E)) * pow2 ?E" "y < pow2 1024" and "0 \<le> y"
    using float64_round_pos [OF x] r by (auto split: if_splits)
  have "0 < y" using False \<open>0 \<le> y\<close> by linarith
  note y = y this
  have "x \<le> pow2 ?B" using float_exp_upper [OF x] pow2_mono [of "float_exp x + 1" ?B] by linarith
  moreover obtain k where k: "pow2 ?B = of_int k * pow2 ?E" using pow2_on_grid [of x ?B] by auto
  ultimately have le: "y \<le> pow2 ?B" using float64_round_between(2) [OF x r, of k] by simp
  show ?thesis
  proof (cases "y = pow2 ?B")
    case True
    then have "float_exp y = ?B" by (simp only: float_exp_pow2)
    then have "ulp_exp y \<le> ?B" by simp
    moreover have "y = of_int 1 * pow2 ?B" using True by simp
    ultimately show ?thesis unfolding is_float64_def using y(2,3) by (intro float64_round_exact)
  next
    case lt: False
    have "pow2 (float_exp y) < pow2 ?B" using pow2_float_exp [OF y(3)] le lt by simp
    then have "float_exp y < ?B" by (rule pow2_less_cancel)
    then have "ulp_exp y \<le> ?E" by simp
    then show ?thesis unfolding is_float64_def using float64_round_exact [OF y(3,2,1)] by simp
  qed
qed simp

lemma float64_round_is:
  assumes "float64_round x = FFin y"
  shows "is_float64 y"
proof -
  consider "x = 0" | "0 < x" | "x < 0" by linarith
  then show ?thesis
  proof cases
    case 1
    then show ?thesis using assms by (simp add: float64_round_def)
  next
    case 3
    then have "is_float64 (- y)" using float64_round_is_pos [of "- x" "- y"] assms by (simp add: float64_round_neg)
    then show ?thesis by simp
  qed (rule float64_round_is_pos [OF _ assms])
qed

lemma float_exp_mono:
  assumes "0 < x" and "x \<le> y"
  shows "float_exp x \<le> float_exp y"
proof -
  have "pow2 (float_exp x) \<le> x" using assms(1) by (rule pow2_float_exp)
  also have "x \<le> y" by (rule assms(2))
  also have "y < pow2 (float_exp y + 1)" using assms by (intro float_exp_upper) simp
  finally show ?thesis using pow2_less_cancel by fastforce
qed

lemma float64_round_le:
  assumes "is_float64 g" and "0 < x" and "x \<le> g" and "float64_round x = FFin y"
  shows "y \<le> g"
proof -
  obtain m where m: "g = of_int m * pow2 (ulp_exp g)" using is_float64_posD [OF assms(1)] assms(2,3) by auto
  have "ulp_exp x \<le> ulp_exp g" using float_exp_mono [OF assms(2,3)] by simp
  with m obtain k where "g = of_int k * pow2 (ulp_exp x)" by (rule grid_coarsen)
  then show ?thesis using float64_round_between(2) [OF assms(2,4), of k] assms(3) by simp
qed

lemma float64_round_ge:
  assumes "is_float64 g" and "0 < g" and "g \<le> x" and "float64_round x = FFin y"
  shows "g \<le> y"
proof -
  have x: "0 < x" using assms(2,3) by simp
  obtain m where m: "g = of_int m * pow2 (ulp_exp g)" using is_float64_posD [OF assms(1,2)] by auto
  show ?thesis
  proof (cases "float_exp g = float_exp x")
    case True
    then show ?thesis using float64_round_between(1) [OF x assms(4), of m] m assms(3) by simp
  next
    case False
    then have lt: "float_exp g < float_exp x" using float_exp_mono [OF assms(2,3)] by simp
    have "(0 :: rat) < of_int m" using m assms(2) pow2_pos [of "ulp_exp g"] by (metis zero_less_mult_pos2)
    then have "0 < m" by simp
    then have "1 * pow2 (ulp_exp g) \<le> of_int m * pow2 (ulp_exp g)" using pow2_pos [of "ulp_exp g"]
      by (intro mult_right_mono) simp_all
    also have "\<dots> = g" using m by (rule sym)
    finally have "pow2 (- 1074) \<le> g" using pow2_mono [of "- 1074" "ulp_exp g"] by simp
    then have "- 1074 \<le> float_exp g" using float_exp_bounds [of "- 1074" g "float_exp g + 1"] float_exp_upper [OF assms(2)] by simp
    then obtain k where k: "pow2 (float_exp x) = of_int k * pow2 (ulp_exp x)" using pow2_on_grid [of x "float_exp x"] lt by auto
    have "g < pow2 (float_exp g + 1)" using assms(2) by (rule float_exp_upper)
    also have "\<dots> \<le> pow2 (float_exp x)" using lt by (intro pow2_mono) simp
    also have "\<dots> \<le> y" using float64_round_between(1) [OF x assms(4), of k] pow2_float_exp [OF x] k by simp
    finally show ?thesis by simp
  qed
qed

text \<open>A rounding bounded above by a number of the type does not overflow.\<close>

lemma float64_round_finite:
  assumes "is_float64 g" and "0 < x" and "x \<le> g"
  obtains y where "float64_round x = FFin y" and "0 \<le> y" and "y \<le> g"
proof -
  obtain m where m: "g = of_int m * pow2 (ulp_exp g)" "g < pow2 1024" using is_float64_posD [OF assms(1)] assms(2,3) by auto
  have "ulp_exp x \<le> ulp_exp g" using float_exp_mono [OF assms(2,3)] by simp
  with m(1) obtain k where k: "g = of_int k * pow2 (ulp_exp x)" by (rule grid_coarsen)
  let ?y = "of_int (round_half_even (x / pow2 (ulp_exp x))) * pow2 (ulp_exp x)"
  have "?y \<le> g" unfolding k using assms(3) pow2_pos [of "ulp_exp x"]
    by (intro mult_right_mono) (simp_all add: k round_half_even_le pos_divide_le_eq)
  then have "float64_round x = FFin ?y" using float64_round_pos(1) [OF assms(2)] m(2) by simp
  with \<open>?y \<le> g\<close> show thesis using float64_round_pos(2) [OF assms(2)] by (intro that)
qed

section \<open>The error of rounding\<close>

lemma float64_round_error_pos:
  assumes x: "0 < x" and r: "float64_round x = FFin y"
  shows "2 ^ 53 * \<bar>y - x\<bar> \<le> x + pow2 (- 1022)"
    and "x = of_int m * pow2 (- 1074) \<Longrightarrow> 2 ^ 53 * \<bar>y - x\<bar> \<le> x"
proof -
  let ?u = "pow2 (ulp_exp x)"
  have u: "0 < ?u" by (rule pow2_pos)
  have y: "y = of_int (round_half_even (x / ?u)) * ?u" using float64_round_pos [OF x] r by (simp split: if_splits)
  have "\<bar>y - x\<bar> = \<bar>of_int (round_half_even (x / ?u)) - x / ?u\<bar> * ?u"
    unfolding y using u by (simp add: abs_mult field_simps flip: abs_mult)
  also have "\<dots> \<le> 1 / 2 * ?u" using round_half_even_near u by (intro mult_right_mono) simp_all
  finally have near: "2 ^ 53 * \<bar>y - x\<bar> \<le> 2 ^ 52 * ?u" by simp
  have "2 ^ 52 * ?u = pow2 (52 + ulp_exp x)" by (simp only: pow2_add) (simp add: pow2_def)
  also have "52 + ulp_exp x = (if - 1022 \<le> float_exp x then float_exp x else - 1022)" by simp
  finally have split: "2 ^ 52 * ?u = (if - 1022 \<le> float_exp x then pow2 (float_exp x) else pow2 (- 1022))"
    by (simp split: if_splits)
  show "2 ^ 53 * \<bar>y - x\<bar> \<le> x + pow2 (- 1022)"
    using near split pow2_float_exp [OF x] pow2_pos [of "- 1022"] x by (simp split: if_splits)
  assume m: "x = of_int m * pow2 (- 1074)"
  show "2 ^ 53 * \<bar>y - x\<bar> \<le> x"
  proof (cases "- 1022 \<le> float_exp x")
    case True
    then show ?thesis using near split pow2_float_exp [OF x] by simp
  next
    case False
    then have "?u = pow2 (- 1074)" by (simp add: max_def)
    then have "y = x" unfolding y using m pow2_pos [of "- 1074"] by simp
    then show ?thesis using x by simp
  qed
qed

section \<open>\<open>FormatFloat\<close> reads back\<close>

lemma rpow_powi: "rpow b k = b powi k"
  by (simp add: rpow_def power_int_def inverse_eq_divide power_one_over)

lemma pow2_powi: "pow2 k = 2 powi k"
  by (simp add: pow2_def power_int_def inverse_eq_divide power_one_over)

lemma decimal_digits_bounds:
  "n < 10 ^ length (decimal_digits n) \<and> (0 < n \<longrightarrow> 10 ^ (length (decimal_digits n) - 1) \<le> n)"
proof (induction n rule: decimal_digits.induct)
  case (1 n)
  show ?case
  proof (cases "n < 10")
    case True
    then show ?thesis by (subst (1 2) decimal_digits.simps) simp
  next
    case False
    let ?l = "length (decimal_digits (n div 10))"
    have l: "length (decimal_digits n) = Suc ?l" using False by (subst decimal_digits.simps) simp
    have l0: "0 < ?l" using decimal_digits_nonempty [of "n div 10"] by simp
    have IH: "n div 10 < 10 ^ ?l" "10 ^ (?l - 1) \<le> n div 10" using 1 [OF False] False by auto
    have "n < 10 * 10 ^ ?l" using IH(1) by (simp add: div_less_iff_less_mult mult.commute)
    moreover have "10 * 10 ^ (?l - 1) \<le> n" using IH(2) by (simp add: less_eq_div_iff_mult_less_eq mult.commute)
    then have "10 ^ ?l \<le> n" using l0 by (cases ?l) simp_all
    ultimately show ?thesis by (simp add: l)
  qed
qed

lemma log10_ceil_bounds:
  assumes a: "0 < a"
  shows "10 powi (log10_ceil a - 1) \<le> a" and "a < 10 powi log10_ceil a"
proof -
  have "10 powi (log10_ceil a - 1) \<le> a \<and> a < 10 powi log10_ceil a"
  proof (cases "1 \<le> a")
    case True
    let ?n = "nat \<lfloor>a\<rfloor>" let ?l = "length (decimal_digits (nat \<lfloor>a\<rfloor>))"
    have n: "0 < ?n" "of_nat ?n \<le> a" "a < of_nat ?n + 1" using True floor_correct [of a] by (simp_all add: of_nat_nat)
    have l0: "0 < ?l" using decimal_digits_nonempty by simp
    have "rat_of_nat (10 ^ (?l - 1)) \<le> rat_of_nat ?n" "rat_of_nat (Suc ?n) \<le> rat_of_nat (10 ^ ?l)"
      unfolding of_nat_le_iff using decimal_digits_bounds [of ?n] n(1) by (blast intro: Suc_leI)+
    then have "(10 :: rat) ^ (?l - 1) \<le> a" "a < 10 ^ ?l" using n(2,3) unfolding of_nat_power of_nat_numeral of_nat_Suc by linarith+
    moreover have "log10_ceil a = int ?l" using True by (simp only: log10_ceil_def if_True)
    moreover have "int ?l - 1 = int (?l - 1)" using l0 by (metis of_nat_diff Suc_leI One_nat_def of_nat_1)
    ultimately show ?thesis by (simp only: power_int_of_nat)
  next
    case False
    let ?n = "nat (\<lceil>1 / a\<rceil> - 1)" let ?l = "length (decimal_digits (nat (\<lceil>1 / a\<rceil> - 1)))"
    have inv: "1 < 1 / a" using False a by (simp add: field_simps)
    then have c: "2 \<le> \<lceil>1 / a\<rceil>" by linarith
    then have n: "0 < ?n" "of_nat ?n < 1 / a" "1 / a \<le> of_nat ?n + 1" by (simp_all add: of_nat_nat) linarith+
    have l0: "0 < ?l" using decimal_digits_nonempty by simp
    have "rat_of_nat (10 ^ (?l - 1)) \<le> rat_of_nat ?n" "rat_of_nat (Suc ?n) \<le> rat_of_nat (10 ^ ?l)"
      unfolding of_nat_le_iff using decimal_digits_bounds [of ?n] n(1) by (blast intro: Suc_leI)+
    then have b: "(10 :: rat) ^ (?l - 1) < 1 / a" "1 / a \<le> 10 ^ ?l" using n(2,3) unfolding of_nat_power of_nat_numeral of_nat_Suc by linarith+
    then have "a < 1 / 10 ^ (?l - 1)" "1 / 10 ^ ?l \<le> a" using a by (simp_all add: field_simps)
    moreover have "int (?l - 1) = int ?l - 1" using l0 by (metis of_nat_diff Suc_leI One_nat_def of_nat_1)
    then have "log10_ceil a = - int (?l - 1)" "log10_ceil a - 1 = - int ?l"
      using False by (simp_all add: log10_ceil_def)
    ultimately show ?thesis by (simp only: power_int_minus power_int_of_nat inverse_eq_divide)
  qed
  then show "10 powi (log10_ceil a - 1) \<le> a" "a < 10 powi log10_ceil a" by auto
qed

lemma digits_candidates_ok:
  "c \<in> set (digits_candidates a k) \<Longrightarrow> float64_round (of_nat c * 10 powi (- k)) = FFin a"
  by (auto simp: digits_candidates_def Let_def rpow_powi split: if_splits)

lemma digits_candidates_exact:
  assumes "a * 10 powi k = of_nat c" and "is_float64 a"
  shows "digits_candidates a k \<noteq> []"
proof -
  have "a = a * (10 powi k * 10 powi (- k))" by (simp add: power_int_minus)
  also have "\<dots> = of_nat c * 10 powi (- k)" using assms(1) by simp
  finally have "float64_round (of_nat c * 10 powi (- k)) = FFin a" using assms(2) by (simp add: is_float64_def)
  then show ?thesis using assms(1) by (auto simp: digits_candidates_def Let_def rpow_powi)
qed

lemma strip_zeros_value:
  "strip_zeros c k = (c', k') \<Longrightarrow> rat_of_nat c' / 10 ^ k' = of_nat c / 10 ^ k \<and> k' \<le> k"
proof (induction c k rule: strip_zeros.induct)
  case (2 c k)
  show ?case
  proof (cases "c mod 10 = 0")
    case True
    then have "c = 10 * (c div 10)" by auto
    then have "rat_of_nat c = 10 * of_nat (c div 10)" by (metis of_nat_mult of_nat_numeral)
    then show ?thesis using 2 True by auto
  next
    case False
    then show ?thesis using 2 by simp
  qed
qed simp

lemma powi10_less_cancel: "(10 :: rat) powi a < 10 powi b \<Longrightarrow> a < b"
  by (metis linorder_not_less numeral_One numeral_le_iff one_le_numeral power_int_increasing)

lemma pow2_le_powi10: "0 \<le> j \<Longrightarrow> pow2 j \<le> 10 powi j"
  by (simp add: pow2_powi power_int_def power_mono)

lemma powi10_le_pow2:
  assumes "j < 0"
  shows "10 powi j \<le> pow2 j"
proof -
  have "pow2 (- j) \<le> 10 powi (- j)" using assms by (intro pow2_le_powi10) simp
  then have "inverse (10 powi (- j)) \<le> inverse (pow2 (- j))" using pow2_pos by (rule le_imp_inverse_le)
  then show ?thesis by (simp add: pow2_powi power_int_minus)
qed

text \<open>Some number of digits below 1200 represents the number exactly.\<close>

lemma shortest_exists:
  assumes f: "is_float64 a" and a: "0 < a"
  shows "\<exists>n. 1 \<le> n \<and> n < 1200 \<and> digits_candidates a (int n - log10_ceil a) \<noteq> []"
proof -
  define E where "E = ulp_exp a"
  have E: "float_exp a + 1 \<le> E + 53" "- 1074 \<le> E" by (simp_all add: E_def)
  let ?l = "log10_ceil a"
  obtain m where m: "a = of_int m * pow2 E" "a < pow2 1024" using is_float64_posD [OF f a] by (auto simp: E_def)
  have "(0 :: rat) < of_int m" using m(1) a pow2_pos [of E] by (metis zero_less_mult_pos2)
  then have m1: "1 \<le> m" by simp
  have "1 * pow2 E \<le> of_int m * pow2 E" using m1 pow2_pos [of E] by (intro mult_right_mono) simp_all
  then have lo: "pow2 E \<le> a" using m(1) by simp
  have "a < pow2 (float_exp a + 1)" using a by (rule float_exp_upper)
  also have "\<dots> \<le> pow2 (E + 53)" using E(1) by (rule pow2_mono)
  finally have hi: "a < pow2 (E + 53)" .
  note l = log10_ceil_bounds [OF a]
  show ?thesis
  proof (cases "0 \<le> E")
    case True
    have "(1 :: rat) \<le> pow2 E" using pow2_mono [OF True] by (simp add: pow2_def)
    then have "(10 :: rat) powi 0 < 10 powi ?l" using lo l(2) by simp
    then have l1: "1 \<le> ?l" using powi10_less_cancel [of 0 ?l] by simp
    have "pow2 1024 \<le> 10 powi 1024" by (rule pow2_le_powi10) simp
    with order_le_less_trans [OF l(1) m(2)] have "10 powi (?l - 1) < (10 :: rat) powi 1024" by (rule order_less_le_trans)
    then have "?l - 1 < 1024" by (rule powi10_less_cancel)
    then have l2: "?l \<le> 1024" by simp
    have "pow2 E = 2 ^ nat E" using True by (simp only: pow2_def if_True)
    then have "a = of_nat (nat m * 2 ^ nat E)" using m(1) m1 by simp
    then have "a * 10 powi 0 = of_nat (nat m * 2 ^ nat E)" by (simp only: power_int_0_right mult_1_right)
    then have "digits_candidates a 0 \<noteq> []" using f by (rule digits_candidates_exact)
    moreover have "1 \<le> nat ?l" "nat ?l < 1200" "int (nat ?l) - ?l = 0" using l1 l2 by linarith+
    ultimately show ?thesis by metis
  next
    case False
    let ?n = "?l - E" let ?K = "nat (- E)"
    have "(10 :: rat) powi E \<le> pow2 E" using False by (intro powi10_le_pow2) simp
    then have "(10 :: rat) powi E < 10 powi ?l" using lo l(2) by linarith
    then have n1: "1 \<le> ?n" using powi10_less_cancel [of E ?l] by simp
    have n2: "?n < 1200"
    proof (rule ccontr)
      assume "\<not> ?n < 1200"
      then have "(10 :: rat) powi (1199 + E) \<le> 10 powi (?l - 1)" by (intro power_int_increasing) simp_all
      also have "\<dots> \<le> a" by (rule l(1))
      also have "a < pow2 (E + 53)" by (rule hi)
      also have "\<dots> \<le> pow2 (1199 + E)" by (intro pow2_mono) simp
      also have "\<dots> \<le> 10 powi (1199 + E)" using E(2) by (intro pow2_le_powi10) simp
      finally show False by simp
    qed
    have K: "E = - int ?K" using False by simp
    have "(10 :: rat) ^ ?K = 2 ^ ?K * 5 ^ ?K" by (simp flip: power_mult_distrib)
    then have "pow2 E * 10 ^ ?K = 5 ^ ?K" by (subst K) (simp only: pow2_neg_int, simp)
    then have "a * 10 powi int ?K = of_int m * 5 ^ ?K" using m(1) by (simp only: power_int_of_nat mult.assoc)
    also have "\<dots> = of_nat (nat m * 5 ^ ?K)" using m1 by simp
    finally have "digits_candidates a (int ?K) \<noteq> []" by (rule digits_candidates_exact [OF _ f])
    moreover have "int (nat ?n) - ?l = int ?K" "1 \<le> nat ?n" "nat ?n < 1200" using n1 n2 False by linarith+
    ultimately show ?thesis by metis
  qed
qed

lemma shortest_ok:
  assumes f: "is_float64 a" and a: "0 < a" and s: "shortest a = (c, k)"
  shows "float64_round (of_nat c / 10 ^ k) = FFin a" and "k < 3000"
proof -
  let ?l = "log10_ceil a"
  let ?P = "\<lambda>n. digits_candidates a (int n - ?l) \<noteq> []"
  from shortest_exists [OF f a] have "find ?P [1..<1200] \<noteq> None" by (auto simp: find_None_iff)
  then obtain n where n: "find ?P [1..<1200] = Some n" by blast
  then have cand: "?P n" "n < 1200" by (auto dest!: find_SomeD)
  let ?c = "hd (digits_candidates a (int n - ?l))" let ?k = "int n - ?l"
  have ok: "float64_round (of_nat ?c * 10 powi (- ?k)) = FFin a" using cand(1) by (intro digits_candidates_ok) simp
  have val: "of_nat c / 10 ^ k = rat_of_nat ?c * 10 powi (- ?k) \<and> k \<le> nat ?k"
  proof (cases "?k \<le> 0")
    case True
    then have "c = ?c * 10 ^ nat (- ?k)" "k = 0" using s unfolding shortest_def Let_def n by simp_all
    then show ?thesis using True power_int_of_nat [of "10 :: rat" "nat (- ?k)"] by simp
  next
    case False
    then have "strip_zeros ?c (nat ?k) = (c, k)" using s unfolding shortest_def Let_def n by simp
    from strip_zeros_value [OF this] show ?thesis
      using False power_int_of_nat [of "10 :: rat" "nat ?k"] unfolding power_int_minus by (simp add: divide_inverse)
  qed
  then show "float64_round (of_nat c / 10 ^ k) = FFin a" using ok by simp
  obtain m where m: "a = of_int m * pow2 (ulp_exp a)" using is_float64_posD [OF f a] .
  have "(0 :: rat) < of_int m" using m a pow2_pos [of "ulp_exp a"] by (metis zero_less_mult_pos2)
  then have "1 * pow2 (ulp_exp a) \<le> of_int m * pow2 (ulp_exp a)" using pow2_pos [of "ulp_exp a"]
    by (intro mult_right_mono) simp_all
  then have "pow2 (- 1074) \<le> a" using pow2_mono [of "- 1074" "ulp_exp a"] m by simp
  moreover have "10 powi (- 1074) \<le> pow2 (- 1074)" by (rule powi10_le_pow2) simp
  ultimately have "(10 :: rat) powi (- 1074) < 10 powi ?l" using log10_ceil_bounds(2) [OF a] by linarith
  then have "- 1074 < ?l" by (rule powi10_less_cancel)
  then show "k < 3000" using val cand(2) by linarith
qed

text \<open>The shortest digits of a number of the type read back as that number.\<close>

lemma FormatFloat_digits:
  assumes "is_float64 x" and "x \<noteq> 0"
  obtains c k where "FormatFloat x = (if x < 0 then ''-'' else []) @ fixed_digits k c"
    and "float64_round (of_nat c / 10 ^ k) = FFin \<bar>x\<bar>" and "k < 3000" and "0 < c"
proof -
  obtain c k where s: "shortest \<bar>x\<bar> = (c, k)" by (cases "shortest \<bar>x\<bar>")
  have ok: "float64_round (of_nat c / 10 ^ k) = FFin \<bar>x\<bar>" "k < 3000" using shortest_ok [OF _ _ s] assms by simp_all
  then have "0 < c" using assms(2) by (intro gr0I) (simp add: float64_round_def)
  then show thesis using ok assms(2) s by (intro that [of k c]) (simp_all add: FormatFloat_def)
qed

end
