(* ===== verification/AbiNumbers.thy ===== *)
theory AbiNumbers
  imports FloatFormat
begin

text \<open>
  The encoding of the value of a custom query (\<open>custom_query/convert_num.go\<close>): the numeric types of the
  Ethereum ABI, the conversion of a \<open>float64\<close> to a scaled integer through its shortest decimal
  representation, the check of the range, two's complement, the padded hexadecimal text, and the median
  of the collected values with its limit on their spread.
\<close>

section \<open>Reading a rational\<close>

text \<open>\<open>big.Rat.SetString\<close> on a text without a slash: the limits on the exponents are those of the library.\<close>

definition rat_apply :: "nat \<Rightarrow> int \<Rightarrow> int \<Rightarrow> rat option" where
  "rat_apply m exp2 exp5 =
     (if m = 0 then Some 0
      else if \<bar>exp5\<bar> > 10 ^ 6 \<or> \<bar>exp2\<bar> > 10 ^ 7 then None
      else Some (of_nat m * rpow 5 exp5 * rpow 2 exp2))"

definition rat_SetString :: "string \<Rightarrow> rat option" where
  "rat_SetString s0 =
     (let (neg, s1) = trim_sign s0;
          (b, prev, s2) = (case base_prefix s1 of Some p \<Rightarrow> (p, SawDigit, drop 2 s1) | None \<Rightarrow> (10, SawOther, s1));
          (m, cnt, dp, invalSep, r) = nat_scan b True prev False 0 None 0 s2
      in if cnt = 0 \<or> invalSep then None
         else case scanExponent r of
                None \<Rightarrow> None
              | Some (ebase, e, rest) \<Rightarrow>
                  if rest \<noteq> [] then None
                  else
                    let fcount = (case dp of Some d \<Rightarrow> int d - int cnt | None \<Rightarrow> 0);
                        exp2 = radix_bits b * fcount + e;
                        exp5 = (if b = 10 then fcount else 0) + (if ebase = 10 then e else 0)
                    in map_option (\<lambda>v. if neg then - v else v) (rat_apply m exp2 exp5))"

definition format_float64 :: "float64 \<Rightarrow> string" where
  "format_float64 x =
     (case x of FFin r \<Rightarrow> FormatFloat r | FInf s \<Rightarrow> if s then ''-Inf'' else ''+Inf'' | FNaN \<Rightarrow> ''NaN'')"

section \<open>The types of the ABI\<close>

datatype abi_error =
    ErrUnsupportedAbiType string
  | ErrBitSizeSyntax string
  | ErrDecimalsSyntax string
  | ErrBitSize int
  | ErrToRational string
  | ErrValueOverflow int
  | ErrNegativeUnsigned
  | ErrMedianEmpty
  | ErrNonFinite float64
  | ErrNonPositive float64
  | ErrSpread float64

record abiTypeInfo =
  ti_category :: string
  ti_bitSize :: int
  ti_decimals :: int
  ti_signed :: bool

text \<open>\<open>strconv.Atoi\<close> of a text of digits.\<close>

definition atoi_digits :: "string \<Rightarrow> int option" where
  "atoi_digits s = (if digits_value 0 s < 2 ^ 63 then Some (int (digits_value 0 s)) else None)"

definition some_digits :: "string \<Rightarrow> bool" where
  "some_digits s \<longleftrightarrow> s \<noteq> [] \<and> (\<forall>c \<in> set s. base_digit 10 c \<noteq> None)"

text \<open>The submatches of \<open>^(u?)int(\d+)$\<close> and of \<open>^(u?)fixed(\d+)x(\d+)$\<close>.\<close>

definition opt_u :: "string \<Rightarrow> bool \<times> string" where
  "opt_u s = (case s of c # t \<Rightarrow> if c = CHR ''u'' then (True, t) else (False, s) | [] \<Rightarrow> (False, []))"

definition intPattern :: "string \<Rightarrow> (bool \<times> string) option" where
  "intPattern s =
     (let (u, t) = opt_u s in
      if strings_HasPrefix t ''int'' \<and> some_digits (drop 3 t) then Some (u, drop 3 t) else None)"

definition fixedPattern :: "string \<Rightarrow> (bool \<times> string \<times> string) option" where
  "fixedPattern s =
     (let (u, t) = opt_u s; r = drop 5 t; m = takeWhile (\<lambda>c. c \<noteq> CHR ''x'') r; n = drop (Suc (length m)) r in
      if strings_HasPrefix t ''fixed'' \<and> length m < length r \<and> some_digits m \<and> some_digits n
      then Some (u, m, n) else None)"

definition check_bitSize :: "abiTypeInfo \<Rightarrow> abi_error + abiTypeInfo" where
  "check_bitSize info =
     (if ti_bitSize info \<le> 0 \<or> ti_bitSize info > 256 \<or> ti_bitSize info mod 8 \<noteq> 0
      then Inl (ErrBitSize (ti_bitSize info)) else Inr info)"

definition parseAbiType :: "string \<Rightarrow> abi_error + abiTypeInfo" where
  "parseAbiType abiType =
     (case intPattern abiType of
        Some (u, bits) \<Rightarrow>
          (case atoi_digits bits of
             None \<Rightarrow> Inl (ErrBitSizeSyntax bits)
           | Some b \<Rightarrow> check_bitSize \<lparr>ti_category = (if u then ''uint'' else ''int''), ti_bitSize = b,
                          ti_decimals = 0, ti_signed = (\<not> u)\<rparr>)
      | None \<Rightarrow>
          (case fixedPattern abiType of
             Some (u, bits, decs) \<Rightarrow>
               (case atoi_digits bits of
                  None \<Rightarrow> Inl (ErrBitSizeSyntax bits)
                | Some b \<Rightarrow>
                    (case atoi_digits decs of
                       None \<Rightarrow> Inl (ErrDecimalsSyntax decs)
                     | Some d \<Rightarrow> check_bitSize \<lparr>ti_category = (if u then ''ufixed'' else ''fixed''),
                                    ti_bitSize = b, ti_decimals = d, ti_signed = (\<not> u)\<rparr>))
           | None \<Rightarrow> Inl (ErrUnsupportedAbiType abiType)))"

section \<open>The encoder\<close>

definition floatToScaledRat :: "float64 \<Rightarrow> int \<Rightarrow> abi_error + rat" where
  "floatToScaledRat x decimals =
     (let valueStr = format_float64 x in
      case rat_SetString valueStr of
        None \<Rightarrow> Inl (ErrToRational valueStr)
      | Some r \<Rightarrow> Inr (if decimals > 0 then r * 10 ^ nat decimals else r))"

definition validateRange :: "int \<Rightarrow> abiTypeInfo \<Rightarrow> abi_error option" where
  "validateRange v ti =
     (if ti_signed ti then
        let maxPositive = 2 ^ nat (ti_bitSize ti - 1) - 1; maxNegative = - (2 ^ nat (ti_bitSize ti - 1)) in
        if v > maxPositive \<or> v < maxNegative then Some (ErrValueOverflow v) else None
      else if v < 0 then Some ErrNegativeUnsigned
      else if v > 2 ^ nat (ti_bitSize ti) - 1 then Some (ErrValueOverflow v)
      else None)"

text \<open>\<open>big.Int.Bytes\<close>: the big-endian bytes, without leading zeros. A slice that starts below zero panics.\<close>

fun big_Bytes :: "nat \<Rightarrow> nat list" where
  "big_Bytes n = (if n = 0 then [] else big_Bytes (n div 256) @ [n mod 256])"

declare big_Bytes.simps [simp del]

definition intToHex :: "int \<Rightarrow> int \<Rightarrow> go_panic + string" where
  "intToHex v byteSize =
     (let bs = big_Bytes (nat \<bar>v\<bar>) in
      if byteSize < int (length bs) then Inl PanicIndexOutOfRange
      else Inr (hex_EncodeToString (replicate (nat byteSize - length bs) 0 @ bs)))"

definition AbiNumberEncoder :: "float64 \<Rightarrow> string \<Rightarrow> go_panic + abi_error + string" where
  "AbiNumberEncoder x abiType =
     (case parseAbiType abiType of
        Inl e \<Rightarrow> Inr (Inl e)
      | Inr typeInfo \<Rightarrow>
          (case floatToScaledRat x (ti_decimals typeInfo) of
             Inl e \<Rightarrow> Inr (Inl e)
           | Inr r \<Rightarrow>
               let intVal = \<lfloor>r\<rfloor> in
               case validateRange intVal typeInfo of
                 Some e \<Rightarrow> Inr (Inl e)
               | None \<Rightarrow>
                   let intVal' = (if ti_signed typeInfo \<and> intVal < 0
                                  then intVal + 2 ^ nat (ti_bitSize typeInfo) else intVal) in
                   map_sum id Inr (intToHex intVal' (ti_bitSize typeInfo div 8))))"

section \<open>The median\<close>

definition check_value :: "float64 \<Rightarrow> abi_error option" where
  "check_value v =
     (if math_IsNaN v \<or> math_IsInf0 v then Some (ErrNonFinite v)
      else if f64_le v (FFin 0) then Some (ErrNonPositive v)
      else None)"

definition spread_percent :: "rat list \<Rightarrow> float64" where
  "spread_percent vs =
     (let minValue = FFin (vs ! 0); maxValue = FFin (vs ! (length vs - 1)); difference = f64_sub maxValue minValue
      in f64_mul (f64_div difference minValue) (FFin 100))"

definition sorted_median :: "rat list \<Rightarrow> float64" where
  "sorted_median vs =
     (let middle = length vs div 2 in
      if length vs mod 2 = 1 then FFin (vs ! middle)
      else f64_div (f64_add (FFin (vs ! (middle - 1))) (FFin (vs ! middle))) (FFin 2))"

definition MedianInHex :: "float64 list \<Rightarrow> string \<Rightarrow> float64 \<Rightarrow> go_panic + abi_error + string" where
  "MedianInHex values responseType maxSpreadPercent =
     (if values = [] then Inr (Inl ErrMedianEmpty)
      else case checkAll check_value values of
             Some e \<Rightarrow> Inr (Inl e)
           | None \<Rightarrow>
               if length values = 1 then AbiNumberEncoder (values ! 0) responseType
               else
                 let vs = sort (map float_value values) in
                 if f64_less maxSpreadPercent (spread_percent vs) then Inr (Inl (ErrSpread (spread_percent vs)))
                 else AbiNumberEncoder (sorted_median vs) responseType)"

section \<open>Correctness of the encoder\<close>

lemma rat_SetString_fixed:
  assumes k: "k \<le> 1000000"
  shows "rat_SetString (fixed_digits k n) = Some (of_nat n / 10 ^ k)"
    and "rat_SetString (''-'' @ fixed_digits k n) = Some (- (of_nat n / 10 ^ k))"
proof -
  obtain ds fs where s: "fixed_digits k n = ds @ (if k = 0 then [] else CHR ''.'' # fs)" "ds \<noteq> []"
    "digit_string ds" "digit_string fs" "k \<noteq> 0 \<Longrightarrow> length fs = k"
    "k \<noteq> 0 \<Longrightarrow> digits_value (digits_value 0 ds) fs = n" "k = 0 \<Longrightarrow> digits_value 0 ds = n"
    using fixed_digits_shape [of k n] by blast
  have scan: "nat_scan 10 True SawOther False 0 None 0 (fixed_digits k n) =
      (n, length ds + k, if k = 0 then None else Some (length ds), False, [])"
  proof (cases "k = 0")
    case True
    then show ?thesis unfolding s(1) using s(2,7) nat_scan_digits [OF s(3), of True SawOther False 0 None 0 "[]"] by simp
  next
    case False
    then show ?thesis unfolding s(1)
      using s(2,5,6) nat_scan_digits [OF s(3), of True SawOther False 0 None 0 "CHR ''.'' # fs"]
        nat_scan_digits [OF s(4), of False SawOther False "length ds" "Some (length ds)" "digits_value 0 ds" "[]"]
      by auto
  qed
  have "rpow 5 (- int k) * rpow 2 (- int k) = 1 / 10 ^ k"
    by (auto simp: rpow_def simp flip: power_mult_distrib)
  then have app: "rat_apply n (if k = 0 then 0 else - int k) (if k = 0 then 0 else - int k) = Some (of_nat n / 10 ^ k)"
    using k by (auto simp: rat_apply_def rpow_def [of _ 0] mult.assoc)
  have plain: "trim_sign (fixed_digits k n) = (False, fixed_digits k n)" "base_prefix (fixed_digits k n) = None"
    by (rule fixed_digits_plain)+
  show "rat_SetString (fixed_digits k n) = Some (of_nat n / 10 ^ k)"
    using scan app s(2) by (auto simp: rat_SetString_def plain Let_def scanExponent_def radix_bits_def)
  show "rat_SetString (''-'' @ fixed_digits k n) = Some (- (of_nat n / 10 ^ k))"
    using scan app s(2) by (auto simp: rat_SetString_def plain trim_sign_def [of "CHR ''-'' # _"] Let_def scanExponent_def radix_bits_def)
qed

lemma rat_SetString_not_finite: "rat_SetString ''NaN'' = None" "rat_SetString ''-Inf'' = None" "rat_SetString ''+Inf'' = None"
  by code_simp+

text \<open>The decimal number read from the text of a \<open>float64\<close> rounds to it.\<close>

lemma floatToScaledRat_FFin:
  assumes "is_float64 x"
  obtains d where "float64_round d = FFin x" and "\<And>decimals. 0 \<le> decimals \<Longrightarrow> floatToScaledRat (FFin x) decimals = Inr (d * 10 ^ nat decimals)"
proof (cases "x = 0")
  case True
  have "rat_SetString ''0'' = Some 0" by code_simp
  then show thesis using True
    by (intro that [of 0]) (simp_all add: floatToScaledRat_def format_float64_def FormatFloat_def float64_round_def)
next
  case False
  obtain c k where ck: "FormatFloat x = (if x < 0 then ''-'' else []) @ fixed_digits k c"
    "float64_round (of_nat c / 10 ^ k) = FFin \<bar>x\<bar>" "k < 3000"
    using FormatFloat_digits [OF assms False] by metis
  let ?d = "if x < 0 then - (of_nat c / 10 ^ k) else of_nat c / 10 ^ k"
  have "rat_SetString (FormatFloat x) = Some ?d" using ck(3) rat_SetString_fixed [of k c] by (simp add: ck(1))
  moreover have "float64_round ?d = FFin x" using ck(2) by (simp add: float64_round_neg)
  ultimately show thesis
    by (intro that [of ?d]) (simp_all add: floatToScaledRat_def format_float64_def)
qed

lemma floatToScaledRat_not_finite: "\<exists>e. floatToScaledRat (FInf s) decimals = Inl e" "\<exists>e. floatToScaledRat FNaN decimals = Inl e"
  by (simp_all add: floatToScaledRat_def format_float64_def rat_SetString_not_finite)

section \<open>The bytes\<close>

lemma be_value_snoc [simp]: "be_value (bs @ [b]) = 256 * be_value bs + int b"
  by (simp add: be_value_def)

lemma be_value_zeros: "be_value (replicate j 0 @ bs) = be_value bs"
  by (induction j) (simp_all add: be_value_def)

lemma big_Bytes_value: "be_value (big_Bytes n) = int n \<and> (\<forall>b \<in> set (big_Bytes n). b < 256)"
proof (induction n rule: big_Bytes.induct)
  case (1 n)
  show ?case
  proof (cases "n = 0")
    case False
    have "int n = 256 * int (n div 256) + int (n mod 256)" by (simp add: zdiv_int zmod_int)
    moreover have "big_Bytes n = big_Bytes (n div 256) @ [n mod 256]" using False by (subst big_Bytes.simps) simp
    ultimately show ?thesis using 1 [OF False] by auto
  qed (simp add: big_Bytes.simps be_value_def)
qed

lemma big_Bytes_length: "n < 256 ^ k \<Longrightarrow> length (big_Bytes n) \<le> k"
proof (induction n arbitrary: k rule: big_Bytes.induct)
  case (1 n)
  show ?case
  proof (cases "n = 0")
    case False
    then obtain j where k: "k = Suc j" using 1(2) by (cases k) auto
    have "n div 256 < 256 ^ j" using 1(2) by (simp add: k less_mult_imp_div_less mult.commute)
    then show ?thesis using 1(1) False by (subst big_Bytes.simps) (simp add: k)
  qed (simp add: big_Bytes.simps)
qed

lemma hex_length [simp]: "length (hex_EncodeToString bs) = 2 * length bs"
  by (induction bs) (simp_all add: hex_EncodeToString_def)

lemma intToHex_ok:
  assumes "0 \<le> v" and "v < 256 ^ n"
  obtains s bs where "intToHex v (int n) = Inr s" and "length s = 2 * n" and "hex_DecodeString s = Inr bs"
    and "be_value bs = v"
proof -
  have "int (nat v) < int (256 ^ n)" using assms by simp
  then have len: "length (big_Bytes (nat v)) \<le> n" by (intro big_Bytes_length) linarith
  let ?bs = "replicate (n - length (big_Bytes (nat v))) 0 @ big_Bytes (nat v)"
  have "hex_DecodeString (hex_EncodeToString ?bs) = Inr ?bs"
    using big_Bytes_value [of "nat v"] by (intro hex_roundtrip) auto
  then show thesis using assms(1) len big_Bytes_value [of "nat v"]
    by (intro that [of "hex_EncodeToString ?bs" ?bs]) (simp_all add: intToHex_def Let_def be_value_zeros)
qed

section \<open>What the encoder returns\<close>

lemma check_bitSize_Inr: "check_bitSize info = Inr ti \<longleftrightarrow> ti = info \<and> 0 < ti_bitSize ti \<and> ti_bitSize ti \<le> 256 \<and> 8 dvd ti_bitSize ti"
  by (auto simp: check_bitSize_def mod_eq_0_iff_dvd)

lemma parseAbiType_Inr:
  assumes "parseAbiType t = Inr ti"
  shows "0 < ti_bitSize ti" "ti_bitSize ti \<le> 256" "8 dvd ti_bitSize ti" "0 \<le> ti_decimals ti"
  using assms by (auto simp: parseAbiType_def check_bitSize_Inr atoi_digits_def split: option.splits if_splits)

text \<open>The integers of a type, and the integer a list of bytes stands for.\<close>

definition abi_range :: "abiTypeInfo \<Rightarrow> int \<Rightarrow> bool" where
  "abi_range ti v \<longleftrightarrow>
     (if ti_signed ti then - (2 ^ nat (ti_bitSize ti - 1)) \<le> v \<and> v < 2 ^ nat (ti_bitSize ti - 1)
      else 0 \<le> v \<and> v < 2 ^ nat (ti_bitSize ti))"

definition abi_value :: "abiTypeInfo \<Rightarrow> nat list \<Rightarrow> int" where
  "abi_value ti bs =
     (if ti_signed ti \<and> 2 ^ nat (ti_bitSize ti - 1) \<le> be_value bs then be_value bs - 2 ^ nat (ti_bitSize ti)
      else be_value bs)"

lemma validateRange_iff: "validateRange v ti = None \<longleftrightarrow> abi_range ti v"
  by (auto simp: validateRange_def abi_range_def Let_def)

lemma AbiNumberEncoder_finite:
  assumes f: "is_float64 x" and t: "parseAbiType t = Inr ti"
  obtains d where "float64_round d = FFin x"
    and "abi_range ti \<lfloor>d * 10 ^ nat (ti_decimals ti)\<rfloor> \<Longrightarrow>
      \<exists>s bs. AbiNumberEncoder (FFin x) t = Inr (Inr s) \<and> int (length s) * 4 = ti_bitSize ti \<and>
        hex_DecodeString s = Inr bs \<and> abi_value ti bs = \<lfloor>d * 10 ^ nat (ti_decimals ti)\<rfloor>"
    and "\<not> abi_range ti \<lfloor>d * 10 ^ nat (ti_decimals ti)\<rfloor> \<Longrightarrow> \<exists>e. AbiNumberEncoder (FFin x) t = Inr (Inl e)"
proof -
  note ti = parseAbiType_Inr [OF t]
  obtain d where d: "float64_round d = FFin x"
    "\<And>decimals. 0 \<le> decimals \<Longrightarrow> floatToScaledRat (FFin x) decimals = Inr (d * 10 ^ nat decimals)"
    using floatToScaledRat_FFin [OF f] by blast
  let ?v = "\<lfloor>d * 10 ^ nat (ti_decimals ti)\<rfloor>"
  let ?w = "if ti_signed ti \<and> ?v < 0 then ?v + 2 ^ nat (ti_bitSize ti) else ?v"
  define B where "B = nat (ti_bitSize ti)"
  have enc: "AbiNumberEncoder (FFin x) t =
      (case validateRange ?v ti of Some e \<Rightarrow> Inr (Inl e) | None \<Rightarrow> map_sum id Inr (intToHex ?w (ti_bitSize ti div 8)))"
    by (simp only: AbiNumberEncoder_def t d(2) [OF ti(4)] sum.case Let_def)
  show thesis
  proof (rule that [OF d(1)])
    assume "\<not> abi_range ti ?v"
    then show "\<exists>e. AbiNumberEncoder (FFin x) t = Inr (Inl e)" using validateRange_iff [of ?v ti] by (auto simp: enc)
  next
    assume r: "abi_range ti ?v"
    obtain n where n: "ti_bitSize ti = 8 * int n" using ti(1,3) by (metis dvdE int_nat_eq nat_0_le zero_less_mult_pos less_imp_le zero_less_numeral)
    have pow: "(2 :: int) ^ nat (ti_bitSize ti) = 256 ^ n" using power_mult [of "2 :: int" 8 n] by (simp add: n nat_mult_distrib)
    have half: "(2 :: int) ^ nat (ti_bitSize ti) = 2 * 2 ^ nat (ti_bitSize ti - 1)"
      using ti(1) power_Suc [of "2 :: int" "nat (ti_bitSize ti - 1)"] by (metis Suc_nat_eq_nat_zadd1 diff_add_cancel zle_diff1_eq add.commute)
    have w: "0 \<le> ?w" "?w < 256 ^ n"
      using r half unfolding pow [symmetric] by (auto simp: abi_range_def split: if_splits)
    obtain s bs where s: "intToHex ?w (int n) = Inr s" "length s = 2 * n" "hex_DecodeString s = Inr bs" "be_value bs = ?w"
      using intToHex_ok [OF w] .
    have "abi_value ti bs = ?v"
      using r half unfolding abi_value_def s(4) by (auto simp: abi_range_def)
    moreover have "AbiNumberEncoder (FFin x) t = Inr (Inr s)"
      using validateRange_iff [of ?v ti] r s(1) n by (simp add: enc)
    ultimately show "\<exists>s bs. AbiNumberEncoder (FFin x) t = Inr (Inr s) \<and> int (length s) * 4 = ti_bitSize ti \<and>
        hex_DecodeString s = Inr bs \<and> abi_value ti bs = ?v"
      using s(2,3) n by auto
  qed
qed

lemma AbiNumberEncoder_error:
  assumes "\<And>decimals. \<exists>e. floatToScaledRat x decimals = Inl e"
  shows "\<exists>e. AbiNumberEncoder x t = Inr (Inl e)"
proof (cases "parseAbiType t")
  case (Inr ti)
  then show ?thesis using assms [of "ti_decimals ti"] by (auto simp: AbiNumberEncoder_def)
qed (simp add: AbiNumberEncoder_def)

lemma AbiNumberEncoder_not_finite: "\<exists>e. AbiNumberEncoder (FInf b) t = Inr (Inl e)" "\<exists>e. AbiNumberEncoder FNaN t = Inr (Inl e)"
  by (intro AbiNumberEncoder_error floatToScaledRat_not_finite)+

lemma AbiNumberEncoder_no_type: "parseAbiType t = Inl e \<Longrightarrow> AbiNumberEncoder x t = Inr (Inl e)"
  by (simp add: AbiNumberEncoder_def)

lemma AbiNumberEncoder_total:
  assumes "\<forall>r. x = FFin r \<longrightarrow> is_float64 r"
  shows "\<exists>r. AbiNumberEncoder x t = Inr r"
proof (cases "parseAbiType t")
  case (Inr ti)
  show ?thesis
  proof (cases x)
    case (FFin r)
    then show ?thesis using assms AbiNumberEncoder_finite [OF _ Inr, of r] by metis
  qed (use AbiNumberEncoder_not_finite in blast)+
qed (simp add: AbiNumberEncoder_no_type)

text \<open>
  C7: for every value and every text of a type: the encoder never panics; it succeeds exactly for a finite
  value and a known type with the scaled value in the range of the type; and then the text has two
  digits per byte of the type and decodes, in two's complement, to the scaled value rounded down, where
  the value is scaled through a decimal number that rounds to it.
\<close>

theorem AbiNumberEncoder_spec:
  assumes "\<forall>r. x = FFin r \<longrightarrow> is_float64 r"
  shows "\<exists>d. (\<forall>r. x = FFin r \<longrightarrow> float64_round d = FFin r) \<and>
    (case AbiNumberEncoder x t of
       Inl p \<Rightarrow> False
     | Inr (Inl e) \<Rightarrow> \<forall>ti r. parseAbiType t = Inr ti \<and> x = FFin r \<longrightarrow> \<not> abi_range ti \<lfloor>d * 10 ^ nat (ti_decimals ti)\<rfloor>
     | Inr (Inr s) \<Rightarrow> \<exists>ti bs. parseAbiType t = Inr ti \<and> (\<exists>r. x = FFin r) \<and> int (length s) * 4 = ti_bitSize ti \<and>
         hex_DecodeString s = Inr bs \<and> abi_value ti bs = \<lfloor>d * 10 ^ nat (ti_decimals ti)\<rfloor>)"
proof (cases "parseAbiType t")
  case (Inl e)
  obtain d where "\<forall>r. x = FFin r \<longrightarrow> float64_round d = FFin r"
    using assms unfolding is_float64_def by (cases x) auto
  then show ?thesis using AbiNumberEncoder_no_type [OF Inl] Inl by (intro exI [of _ d]) simp
next
  case t: (Inr ti)
  show ?thesis
  proof (cases x)
    case (FFin r)
    then have f: "is_float64 r" using assms by simp
    obtain d where "float64_round d = FFin r"
      "abi_range ti \<lfloor>d * 10 ^ nat (ti_decimals ti)\<rfloor> \<Longrightarrow>
        \<exists>s bs. AbiNumberEncoder (FFin r) t = Inr (Inr s) \<and> int (length s) * 4 = ti_bitSize ti \<and>
          hex_DecodeString s = Inr bs \<and> abi_value ti bs = \<lfloor>d * 10 ^ nat (ti_decimals ti)\<rfloor>"
      "\<not> abi_range ti \<lfloor>d * 10 ^ nat (ti_decimals ti)\<rfloor> \<Longrightarrow> \<exists>e. AbiNumberEncoder (FFin r) t = Inr (Inl e)"
      using AbiNumberEncoder_finite [OF f t] by blast
    then show ?thesis using FFin t
      by (intro exI [of _ d]) (cases "abi_range ti \<lfloor>d * 10 ^ nat (ti_decimals ti)\<rfloor>"; auto)
  next
    case (FInf b)
    then show ?thesis using AbiNumberEncoder_not_finite(1) [of b t] by auto
  next
    case FNaN
    then show ?thesis using AbiNumberEncoder_not_finite(2) [of t] by auto
  qed
qed

section \<open>The median of two middle values\<close>

lemma float64_round_overflow:
  assumes "pow2 1024 \<le> x"
  shows "float64_round x = FInf False"
proof -
  have x: "0 < x" using assms pow2_pos [of 1024] by linarith
  have e: "1024 \<le> float_exp x" using float_exp_mono [OF pow2_pos assms] by simp
  obtain k where k: "pow2 (float_exp x) = of_int k * pow2 (ulp_exp x)" using pow2_on_grid [of x "float_exp x"] e by auto
  have "of_int k * pow2 (ulp_exp x) \<le> x" using pow2_float_exp [OF x] k by simp
  then have "of_int k \<le> x / pow2 (ulp_exp x)" by (simp add: pos_le_divide_eq pow2_pos)
  then have "k \<le> round_half_even (x / pow2 (ulp_exp x))" by (rule round_half_even_ge)
  then have "of_int k * pow2 (ulp_exp x) \<le> of_int (round_half_even (x / pow2 (ulp_exp x))) * pow2 (ulp_exp x)"
    using pow2_pos [of "ulp_exp x"] by (intro mult_right_mono) simp_all
  moreover have "pow2 1024 \<le> of_int k * pow2 (ulp_exp x)" using k pow2_mono [OF e] by simp
  ultimately show ?thesis using float64_round_pos(1) [OF x] by simp
qed

lemma is_float64_double:
  assumes "is_float64 a" and a: "0 < a" and "2 * a < pow2 1024"
  shows "is_float64 (2 * a)"
proof -
  obtain m where m: "a = of_int m * pow2 (ulp_exp a)" using is_float64_posD [OF assms(1,2)] .
  have "pow2 (float_exp a + 1) = 2 * pow2 (float_exp a)" "pow2 (float_exp a + 2) = 2 * pow2 (float_exp a + 1)"
    using pow2_add [of "float_exp a" 1] pow2_add [of "float_exp a" 2] by (simp_all add: pow2_def [of 1] pow2_def [of 2])
  then have "pow2 (float_exp a + 1) \<le> 2 * a" "2 * a < pow2 (float_exp a + 2)"
    using pow2_float_exp [OF a] float_exp_upper [OF a] by linarith+
  from float_exp_bounds [OF this] have e: "float_exp (2 * a) = float_exp a + 1" by linarith
  have eq: "2 * a = of_int m * pow2 (ulp_exp a + 1)" using m by (simp add: pow2_add pow2_def [of 1])
  have "ulp_exp (2 * a) \<le> ulp_exp a + 1" unfolding e by linarith
  moreover have "0 < 2 * a" using a by simp
  ultimately show ?thesis using float64_round_exact [OF _ assms(3) eq] by (simp only: is_float64_def)
qed

lemma middle_of_two:
  assumes "is_float64 a" and "is_float64 b" and "0 < a" and "a \<le> b"
  shows "f64_div (f64_add (FFin a) (FFin b)) (FFin 2) = FInf False \<or>
    (\<exists>m. f64_div (f64_add (FFin a) (FFin b)) (FFin 2) = FFin m \<and> a \<le> m \<and> m \<le> b \<and> is_float64 m)"
proof (cases "float64_round (a + b)")
  case (FFin y)
  have s: "0 < a + b" using assms by linarith
  have small: "a + b < pow2 1024" using float64_round_overflow [of "a + b"] FFin by fastforce
  have y1: "y < pow2 1024" using float64_round_pos(1) [OF s] FFin by (simp split: if_splits)
  have "2 * a \<le> y"
    using small assms by (intro float64_round_ge [OF is_float64_double _ _ FFin]) simp_all
  moreover have "y \<le> 2 * b"
  proof (cases "2 * b < pow2 1024")
    case True
    then show ?thesis using assms s by (intro float64_round_le [OF is_float64_double _ _ FFin]) simp_all
  qed (use y1 in simp)
  ultimately have half: "a \<le> y / 2" "y / 2 \<le> b" "0 < y / 2" using assms(3) by simp_all
  obtain m where m: "float64_round (y / 2) = FFin m" "m \<le> b" using float64_round_finite [OF assms(2) half(3,2)] .
  have "a \<le> m" by (rule float64_round_ge [OF assms(1,3) half(1) m(1)])
  then show ?thesis using FFin m float64_round_is [OF m(1)] by simp
next
  case (FInf s)
  moreover have "\<not> s" using float64_round_pos(1) [of "a + b"] FInf assms(3,4) by (simp split: if_splits)
  ultimately show ?thesis by simp
next
  case FNaN
  then show ?thesis using float64_round_pos(1) [of "a + b"] assms(3,4) by (simp split: if_splits)
qed

lemma sorted_median_between:
  assumes "vs \<noteq> []" and "sorted vs" and "\<forall>x \<in> set vs. 0 < x \<and> is_float64 x"
  shows "sorted_median vs = FInf False \<or>
    (\<exists>m. sorted_median vs = FFin m \<and> vs ! ((length vs - 1) div 2) \<le> m \<and> m \<le> vs ! (length vs div 2) \<and> is_float64 m)"
proof (cases "length vs mod 2 = 1")
  case True
  then have "length vs div 2 = (length vs - 1) div 2" "length vs div 2 < length vs" using assms(1) by (presburger, simp)
  then show ?thesis using True assms(3) by (simp add: sorted_median_def Let_def)
next
  case False
  let ?k = "length vs div 2"
  have k: "?k < length vs" "?k - 1 = (length vs - 1) div 2" "?k - 1 < length vs" using False assms(1) by (simp, presburger, simp add: less_imp_diff_less)
  have "vs ! (?k - 1) \<le> vs ! ?k" using assms(2) k(1) by (intro sorted_nth_mono) simp_all
  then show ?thesis
    using middle_of_two [of "vs ! (?k - 1)" "vs ! ?k"] assms(3) k False by (simp add: sorted_median_def Let_def)
qed

section \<open>The spread\<close>

lemma float64_value_grid:
  assumes "is_float64 x"
  obtains m where "x = of_int m * pow2 (- 1074)"
  using assms float64_round_grid [of x x] by (auto simp: is_float64_def)

text \<open>One rounding loses at most a part in \<open>2 ^ 53\<close>, and half of the least number near zero.\<close>

lemma float64_round_loss:
  assumes "0 \<le> x" and "float64_round x = FFin y"
  shows "x * (1 - 1 / 2 ^ 53) - pow2 (- 1075) \<le> y"
proof (cases "x = 0")
  case False
  then have x: "0 < x" using assms(1) by simp
  have "2 ^ 53 * \<bar>y - x\<bar> \<le> x + 2 ^ 53 * pow2 (- 1075)"
    using float64_round_error_pos(1) [OF x assms(2)] pow2_add [of 53 "- 1075"] by (simp add: pow2_def [of 53])
  then show ?thesis by (simp add: abs_if algebra_simps split: if_splits)
qed (use assms pow2_pos [of "- 1075"] in \<open>simp add: float64_round_def\<close>)

lemma spread_percent_bound:
  assumes lo: "is_float64 lo" "0 < lo" and hi: "is_float64 hi" "lo \<le> hi"
    and acc: "\<not> f64_less (FFin p) (f64_mul (f64_div (f64_sub (FFin hi) (FFin lo)) (FFin lo)) (FFin 100))"
  shows "(hi - lo) / lo * 100 * (1 - 1 / 2 ^ 53) ^ 3 \<le> p + pow2 (- 1000)"
proof -
  define c :: rat where "c = 1 - 1 / 2 ^ 53"
  let ?t = "pow2 (- 1075)"
  have "pow2 (- 1000) = pow2 75 * ?t" using pow2_add [of 75 "- 1075"] by simp
  moreover have "101 * ?t \<le> pow2 75 * ?t" using pow2_pos [of "- 1075"] by (intro mult_right_mono) (simp_all add: pow2_def [of 75])
  ultimately have tiny: "0 < ?t" "101 * ?t \<le> pow2 (- 1000)" by (simp_all only: pow2_pos)
  obtain m n where g: "hi = of_int m * pow2 (- 1074)" "lo = of_int n * pow2 (- 1074)"
    using float64_value_grid [OF hi(1)] float64_value_grid [OF lo(1)] by metis
  obtain d where d: "float64_round (hi - lo) = FFin d" "0 \<le> d" "(hi - lo) * c \<le> d"
  proof (cases "hi = lo")
    case True
    then show thesis by (intro that [of 0]) (simp_all add: float64_round_def)
  next
    case False
    then have pos: "0 < hi - lo" "hi - lo \<le> hi" using lo(2) hi(2) by simp_all
    obtain d where d: "float64_round (hi - lo) = FFin d" "0 \<le> d" using float64_round_finite [OF hi(1) pos] by blast
    have "hi - lo = of_int (m - n) * pow2 (- 1074)" using g by (simp add: left_diff_distrib)
    then have "2 ^ 53 * \<bar>d - (hi - lo)\<bar> \<le> hi - lo" by (rule float64_round_error_pos(2) [OF pos(1) d(1)])
    then show thesis using d by (intro that [of d]) (simp_all add: c_def abs_if algebra_simps split: if_splits)
  qed
  have c: "0 \<le> c" "c \<le> 1" by (simp_all add: c_def)
  have sub: "f64_sub (FFin hi) (FFin lo) = FFin d" using d(1) by (simp add: f64_sub_def)
  have q0: "0 \<le> d / lo" using d(2) lo(2) by simp
  obtain q where q: "float64_round (d / lo) = FFin q" and q1: "0 \<le> q"
  proof (cases "d / lo = 0")
    case True
    then show thesis using that [of 0] by (simp add: float64_round_def)
  next
    case False
    then have pos: "0 < d / lo" using q0 by linarith
    show thesis
      using acc lo(2) float64_round_pos [OF pos] that by (simp add: sub split: if_splits)
  qed
  have acc': "\<not> f64_less (FFin p) (float64_round (q * 100))" using acc lo(2) by (simp add: sub q)
  obtain s where s: "float64_round (q * 100) = FFin s"
  proof (cases "q = 0")
    case False
    then show thesis using acc' float64_round_pos(1) [of "q * 100"] q1 that by (simp split: if_splits)
  qed (use that [of 0] in \<open>simp add: float64_round_def\<close>)
  have p: "s \<le> p" using acc' by (simp add: s)
  have "d / lo * c - ?t \<le> q" unfolding c_def by (rule float64_round_loss [OF q0 q])
  moreover have "q * 100 * c - ?t \<le> s" unfolding c_def using q1 by (intro float64_round_loss [OF _ s]) simp
  moreover have "(d / lo * c - ?t) * (100 * c) \<le> q * (100 * c)" using c calculation(1) by (intro mult_right_mono) simp_all
  ultimately have "(d / lo * c - ?t) * (100 * c) \<le> s + ?t" by (simp only: mult.assoc)
  then have "d / lo * 100 * c ^ 2 \<le> s + ?t + 100 * (?t * c)"
    by (simp only: power2_eq_square) (simp only: algebra_simps)
  also have "\<dots> \<le> s + 101 * ?t" using mult_left_le [of c ?t] c tiny(1) by simp
  finally have "d / lo * (100 * c ^ 2) \<le> p + pow2 (- 1000)" using tiny p unfolding mult.assoc by linarith
  moreover have "(hi - lo) * c / lo * (100 * c ^ 2) \<le> d / lo * (100 * c ^ 2)"
    using d(3) lo(2) c by (intro mult_right_mono divide_right_mono) simp_all
  ultimately have "(hi - lo) * c / lo * (100 * c ^ 2) \<le> p + pow2 (- 1000)" by linarith
  moreover have "(hi - lo) * c / lo * (100 * c ^ 2) = (hi - lo) / lo * 100 * c ^ 3"
    by (simp add: power3_eq_cube power2_eq_square ac_simps)
  ultimately show ?thesis by (simp only: c_def)
qed

section \<open>What the median returns\<close>

lemma check_value_None: "check_value v = None \<longleftrightarrow> (\<exists>x > 0. v = FFin x)"
  by (cases v) (auto simp: check_value_def math_IsNaN_def math_IsInf0_def)

lemma positive_values:
  assumes "checkAll check_value vs = None"
  obtains xs where "vs = map FFin xs" and "\<forall>x \<in> set xs. 0 < x"
proof -
  have "\<exists>xs. vs = map FFin xs \<and> (\<forall>x \<in> set xs. 0 < x)"
    using assms unfolding checkAll_None_iff check_value_None
  proof (induction vs)
    case (Cons v vs)
    then obtain xs x where "vs = map FFin xs" "\<forall>x \<in> set xs. 0 < x" "v = FFin x" "0 < x" by auto
    then show ?case by (intro exI [of _ "x # xs"]) simp
  qed simp
  then show thesis using that by blast
qed

lemma checkAll_positive: "\<forall>x \<in> set xs. 0 < x \<Longrightarrow> checkAll check_value (map FFin xs) = None"
  by (auto simp: checkAll_None_iff check_value_None)

lemma float_value_map [simp]: "map (float_value \<circ> FFin) xs = xs"
  by (simp add: comp_def)

text \<open>For positive numbers the median, its spread and the check of it depend on the sorted values.\<close>

lemma MedianInHex_positive:
  assumes "xs \<noteq> []" and "\<forall>x \<in> set xs. 0 < x"
  shows "MedianInHex (map FFin xs) t p =
    (if length xs \<noteq> 1 \<and> f64_less p (spread_percent (sort xs)) then Inr (Inl (ErrSpread (spread_percent (sort xs))))
     else AbiNumberEncoder (sorted_median (sort xs)) t)"
proof (cases "length xs = 1")
  case True
  then obtain x where "xs = [x]" by (cases xs) auto
  then show ?thesis using assms checkAll_positive [of xs] by (simp add: MedianInHex_def sorted_median_def)
next
  case False
  then show ?thesis using assms checkAll_positive [of xs] by (simp add: MedianInHex_def)
qed

text \<open>
  The middle of a list: between the elements at \<open>(n - 1) div 2\<close> and \<open>n div 2\<close> of its sorted form.
\<close>

definition middle_of :: "rat \<Rightarrow> rat list \<Rightarrow> bool" where
  "middle_of m xs \<longleftrightarrow> sort xs ! ((length xs - 1) div 2) \<le> m \<and> m \<le> sort xs ! (length xs div 2)"

lemma sort_Nil_iff [simp]: "sort xs = [] \<longleftrightarrow> xs = []"
  by (metis set_sort set_empty)

lemma sort_ends:
  fixes xs :: "rat list"
  assumes "xs \<noteq> []"
  shows "sort xs ! 0 = Min (set xs)" and "sort xs ! (length xs - 1) = Max (set xs)"
proof -
  have len: "0 < length (sort xs)" "length xs - 1 < length (sort xs)" using assms by simp_all
  have "sort xs ! 0 \<in> set xs" "sort xs ! (length xs - 1) \<in> set xs"
    using nth_mem [OF len(1)] nth_mem [OF len(2)] by simp_all
  moreover have "sort xs ! 0 \<le> x \<and> x \<le> sort xs ! (length xs - 1)" if "x \<in> set xs" for x
  proof -
    have "x \<in> set (sort xs)" using that by simp
    then obtain i where "i < length xs" "x = sort xs ! i" unfolding in_set_conv_nth by auto
    then show ?thesis by (auto intro!: sorted_nth_mono)
  qed
  ultimately show "sort xs ! 0 = Min (set xs)" "sort xs ! (length xs - 1) = Max (set xs)"
    by (auto intro!: Min_eqI [symmetric] Max_eqI [symmetric])
qed

text \<open>
  A value that \<open>MedianInHex\<close> returns encodes a middle of the values, all of which are positive, and the
  values agree within the limit on the spread, up to the errors of three roundings.
\<close>

theorem MedianInHex_sound:
  assumes "\<forall>x. FFin x \<in> set values \<longrightarrow> is_float64 x" and "MedianInHex values t p = Inr (Inr s)"
  shows "\<exists>xs ti m d bs. values = map FFin xs \<and> xs \<noteq> [] \<and> (\<forall>x \<in> set xs. 0 < x) \<and> parseAbiType t = Inr ti \<and>
    middle_of m xs \<and> float64_round d = FFin m \<and> int (length s) * 4 = ti_bitSize ti \<and>
    hex_DecodeString s = Inr bs \<and> abi_value ti bs = \<lfloor>d * 10 ^ nat (ti_decimals ti)\<rfloor> \<and>
    (\<forall>r. p = FFin r \<and> 1 < length xs \<longrightarrow>
       (Max (set xs) - Min (set xs)) / Min (set xs) * 100 * (1 - 1 / 2 ^ 53) ^ 3 \<le> r + pow2 (- 1000))"
proof -
  have ne: "values \<noteq> []" and "checkAll check_value values = None"
    using assms(2) by (auto simp: MedianInHex_def split: if_splits option.splits)
  from positive_values [OF this(2)] obtain xs where xs: "values = map FFin xs" "\<forall>x \<in> set xs. 0 < x" .
  have ne': "xs \<noteq> []" using ne xs(1) by simp
  have fl: "\<forall>x \<in> set xs. is_float64 x" using assms(1) xs(1) by auto
  let ?vs = "sort xs"
  have enc: "AbiNumberEncoder (sorted_median ?vs) t = Inr (Inr s)"
    and sp: "length xs = 1 \<or> \<not> f64_less p (spread_percent ?vs)"
    using assms(2) MedianInHex_positive [OF ne' xs(2), of t p] xs(1) by (auto split: if_splits)
  have "sorted_median ?vs \<noteq> FInf False" using enc AbiNumberEncoder_not_finite(1) [of False t] by auto
  then obtain m where m: "sorted_median ?vs = FFin m" "middle_of m xs" "is_float64 m"
    using sorted_median_between [of ?vs] ne' xs(2) fl by (auto simp: middle_of_def)
  obtain ti where ti: "parseAbiType t = Inr ti" using enc by (cases "parseAbiType t") (auto simp: AbiNumberEncoder_no_type)
  obtain d bs where d: "float64_round d = FFin m" "int (length s) * 4 = ti_bitSize ti" "hex_DecodeString s = Inr bs"
    "abi_value ti bs = \<lfloor>d * 10 ^ nat (ti_decimals ti)\<rfloor>"
    using AbiNumberEncoder_finite [OF m(3) ti] enc unfolding m(1) by (metis Inl_Inr_False sum.inject(2))
  have spread: "(Max (set xs) - Min (set xs)) / Min (set xs) * 100 * (1 - 1 / 2 ^ 53) ^ 3 \<le> r + pow2 (- 1000)"
    if "p = FFin r" "1 < length xs" for r
  proof (rule spread_percent_bound)
    show "is_float64 (Min (set xs))" "0 < Min (set xs)" "is_float64 (Max (set xs))" "Min (set xs) \<le> Max (set xs)"
      using ne' xs(2) fl Min_in [of "set xs"] Max_in [of "set xs"] by (auto intro: Min_le)
    show "\<not> f64_less (FFin r) (f64_mul (f64_div (f64_sub (FFin (Max (set xs))) (FFin (Min (set xs)))) (FFin (Min (set xs)))) (FFin 100))"
      using sp that sort_ends [OF ne'] by (simp add: spread_percent_def Let_def)
  qed
  show ?thesis
    using xs ne' ti m(2) d spread
    by (intro exI [of _ xs] exI [of _ ti] exI [of _ m] exI [of _ d] exI [of _ bs]) blast
qed

lemma MedianInHex_order:
  assumes "mset xs = mset ys" and "\<forall>x \<in> set xs. 0 < x"
  shows "MedianInHex (map FFin xs) t p = MedianInHex (map FFin ys) t p"
proof (cases "xs = []")
  case True
  then show ?thesis using assms(1) by simp
next
  case False
  moreover have "set xs = set ys" "length xs = length ys" "sort xs = sort ys" "ys \<noteq> []"
    using assms(1) False mset_eq_setD mset_eq_length properties_for_sort [of "sort ys" xs] by auto
  ultimately show ?thesis using assms(2) by (simp add: MedianInHex_positive)
qed

lemma MedianInHex_no_panic:
  assumes "\<forall>x. FFin x \<in> set values \<longrightarrow> is_float64 x"
  shows "\<exists>r. MedianInHex values t p = Inr r"
proof (cases "values = [] \<or> checkAll check_value values \<noteq> None")
  case False
  then obtain xs where xs: "values = map FFin xs" "\<forall>x \<in> set xs. 0 < x" using positive_values by blast
  then have ne: "xs \<noteq> []" using False by simp
  have "sorted_median (sort xs) = FInf False \<or> (\<exists>m. sorted_median (sort xs) = FFin m \<and> is_float64 m)"
    using sorted_median_between [of "sort xs"] ne xs assms by auto
  then have "\<forall>r. sorted_median (sort xs) = FFin r \<longrightarrow> is_float64 r" by auto
  then have "\<exists>r. AbiNumberEncoder (sorted_median (sort xs)) t = Inr r" by (rule AbiNumberEncoder_total)
  then show ?thesis using MedianInHex_positive [OF ne xs(2), of t p] xs(1) by auto
qed (auto simp: MedianInHex_def)

section \<open>Applications\<close>

lemma is_float64_nat:
  assumes "0 < n" "n < 2 ^ 53"
  shows "is_float64 (of_nat n)"
proof -
  have x: "0 < rat_of_nat n" using assms(1) by simp
  have lt: "rat_of_nat n < pow2 53" using assms(2) by (simp add: pow2_def)
  have "pow2 0 \<le> rat_of_nat n" using assms(1) by (simp add: pow2_def)
  from float_exp_bounds [OF this lt] have e: "ulp_exp (rat_of_nat n) \<le> 0" by simp
  have "pow2 53 \<le> pow2 1024" by (rule pow2_mono) simp
  then show ?thesis unfolding is_float64_def using x lt e
    by (intro float64_round_exact [where m = "int n" and k = 0]) (simp_all add: pow2_def [of 0])
qed

lemma is_float64_100: "is_float64 100" "is_float64 101" "is_float64 1"
  using is_float64_nat [of 100] is_float64_nat [of 101] is_float64_nat [of 1] by simp_all

lemma float64_round_source:
  assumes "float64_round d = FFin x" and "0 < x"
  shows "0 < d" and "d \<le> 2 * x + 1"
proof -
  show d: "0 < d"
  proof (rule ccontr)
    assume "\<not> 0 < d"
    then consider "d = 0" | "0 < - d" by linarith
    then show False
    proof cases
      case 2
      have "float64_round (- d) = FFin (- x)" using assms(1) by (simp add: float64_round_neg)
      with float64_round_pos [OF 2] assms(2) show False by (simp split: if_splits)
    qed (use assms in \<open>simp add: float64_round_def\<close>)
  qed
  have "d * (1 - 1 / 2 ^ 53) - pow2 (- 1075) \<le> x" by (rule float64_round_loss [OF _ assms(1)]) (use d in simp)
  moreover have "d * (1 / 2) \<le> d * (1 - 1 / 2 ^ 53)" using d by (intro mult_left_mono) simp_all
  moreover have "pow2 (- 1075) \<le> pow2 (- 1)" by (rule pow2_mono) simp
  ultimately show "d \<le> 2 * x + 1" by (simp add: pow2_def [of "- 1"])
qed

lemma parse_uint256:
  "parseAbiType ''uint256'' = Inr \<lparr>ti_category = ''uint'', ti_bitSize = 256, ti_decimals = 0, ti_signed = False\<rparr>"
  by (simp add: parseAbiType_def intPattern_def opt_u_def some_digits_def base_digit_def digit_value_def
      atoi_digits_def digits_value_def check_bitSize_def)

lemma encode_100: "\<exists>s. AbiNumberEncoder (FFin 100) ''uint256'' = Inr (Inr s)"
proof -
  let ?ti = "\<lparr>ti_category = ''uint'', ti_bitSize = 256, ti_decimals = 0, ti_signed = False\<rparr>"
  obtain d where d: "float64_round d = FFin 100"
    and ok: "abi_range ?ti \<lfloor>d * 10 ^ nat (ti_decimals ?ti)\<rfloor> \<Longrightarrow> \<exists>s bs. AbiNumberEncoder (FFin 100) ''uint256'' = Inr (Inr s) \<and>
      int (length s) * 4 = ti_bitSize ?ti \<and> hex_DecodeString s = Inr bs \<and> abi_value ?ti bs = \<lfloor>d * 10 ^ nat (ti_decimals ?ti)\<rfloor>"
    using AbiNumberEncoder_finite [OF is_float64_100(1) parse_uint256] by metis
  have "0 \<le> \<lfloor>d\<rfloor>" "\<lfloor>d\<rfloor> \<le> 201" using float64_round_source [OF d] by simp_all
  then have "abi_range ?ti \<lfloor>d * 10 ^ nat (ti_decimals ?ti)\<rfloor>" by (simp add: abi_range_def)
  from ok [OF this] show ?thesis by blast
qed

lemma median_100: "MedianInHex [FFin 101, FFin 100, FFin 100] ''uint256'' (FFin 100) = AbiNumberEncoder (FFin 100) ''uint256''"
proof -
  have s: "sort [101, 100, 100 :: rat] = [100, 100, 101]" by simp
  have one: "float64_round 1 = FFin 1" using is_float64_100(3) by (simp add: is_float64_def)
  obtain q where q: "float64_round (1 / 100) = FFin q" "0 \<le> q" "q \<le> 1"
    using float64_round_finite [OF is_float64_100(3), of "1 / 100"] by auto
  have "\<not> f64_less (FFin 100) (float64_round (q * 100))"
  proof (cases "q = 0")
    case False
    then show ?thesis using q float64_round_finite [OF is_float64_100(1), of "q * 100"] by fastforce
  qed (simp add: float64_round_def)
  then have "\<not> f64_less (FFin 100) (spread_percent [100, 100, 101])"
    using q one by (simp add: spread_percent_def f64_sub_def)
  moreover have "sorted_median [100, 100, 101] = FFin 100" by (simp add: sorted_median_def)
  ultimately show ?thesis using MedianInHex_positive [of "[101, 100, 100]" "''uint256''" "FFin 100"] unfolding s by simp
qed

theorem AbiNumberEncoder_spec_witness:
  "\<exists>d. float64_round d = FFin 100 \<and>
    (case AbiNumberEncoder (FFin 100) ''uint256'' of
       Inr (Inr s) \<Rightarrow> length s = 64 \<and> (\<exists>bs. hex_DecodeString s = Inr bs \<and> be_value bs = \<lfloor>d\<rfloor>) | _ \<Rightarrow> False)"
proof -
  have "\<forall>r. FFin 100 = FFin r \<longrightarrow> is_float64 r" using is_float64_100(1) by simp
  from AbiNumberEncoder_spec [OF this, of "''uint256''"] encode_100 parse_uint256 show ?thesis
    by (auto simp: abi_value_def)
qed

theorem MedianInHex_sound_witness:
  "\<exists>s m d bs. MedianInHex [FFin 101, FFin 100, FFin 100] ''uint256'' (FFin 100) = Inr (Inr s) \<and>
    middle_of m [101, 100, 100] \<and> float64_round d = FFin m \<and> hex_DecodeString s = Inr bs \<and> be_value bs = \<lfloor>d\<rfloor>"
proof -
  obtain s where s: "MedianInHex [FFin 101, FFin 100, FFin 100] ''uint256'' (FFin 100) = Inr (Inr s)"
    using encode_100 median_100 by auto
  have "\<forall>x. FFin x \<in> set [FFin 101, FFin 100, FFin 100] \<longrightarrow> is_float64 x" using is_float64_100 by auto
  note sound = MedianInHex_sound [OF this s]
  obtain xs ti m d bs where
    r: "[FFin 101, FFin 100, FFin 100] = map FFin xs" "parseAbiType ''uint256'' = Inr ti" "middle_of m xs"
    "float64_round d = FFin m" "hex_DecodeString s = Inr bs" "abi_value ti bs = \<lfloor>d * 10 ^ nat (ti_decimals ti)\<rfloor>"
    using sound by (elim exE conjE) (rule that)
  have "middle_of m [101, 100, 100]" using r(1,3) by (auto simp: Cons_eq_map_conv)
  moreover have "ti_signed ti = False" "ti_decimals ti = 0" using r(2) unfolding parse_uint256 by auto
  then have "be_value bs = \<lfloor>d\<rfloor>" using r(6) by (simp add: abi_value_def)
  ultimately show ?thesis using s r(4,5) by blast
qed

end
