(* ===== verification/GoMath.thy ===== *)
theory GoMath
  imports AbiNumbers
begin

text \<open>
  What the handlers of custom queries use of \<open>math\<close> and \<open>math/big\<close>: \<open>Ldexp\<close>, \<open>Pow\<close> and \<open>Pow10\<close> with base ten,
  a quotient of big numbers as \<open>float64\<close>, and \<open>sort.Float64s\<close>; and how exact the results are.
\<close>

section \<open>Powers\<close>

definition ldexp :: "float64 \<Rightarrow> int \<Rightarrow> float64" where
  "ldexp x e = (case x of FFin r \<Rightarrow> float64_round (r * pow2 e) | _ \<Rightarrow> x)"

text \<open>\<open>math.Pow(10, y)\<close> for an integer \<open>y\<close>: \<open>10 = 5/8 * 2 ^ 4\<close>, and the mantissas stay within \<open>[1/2, 1)\<close>.\<close>

function pow_loop :: "nat \<Rightarrow> rat \<Rightarrow> int \<Rightarrow> rat \<Rightarrow> int \<Rightarrow> rat \<times> int" where
  "pow_loop i a1 ae x1 xe =
     (if i = 0 then (a1, ae)
      else if xe < - (2 ^ 12) \<or> 2 ^ 12 < xe then (a1, ae + xe)
      else
        let (b1, be) = (if odd i then (float_round (a1 * x1), ae + xe) else (a1, ae));
            x2 = float_round (x1 * x1)
        in if x2 < 1 / 2 then pow_loop (i div 2) b1 be (x2 + x2) (2 * xe - 1) else pow_loop (i div 2) b1 be x2 (2 * xe))"
  by pat_completeness auto
termination
  by (relation "measure (\<lambda>(i, a1, ae, x1, xe). i)") auto

declare pow_loop.simps [simp del]

definition math_Pow_10 :: "int \<Rightarrow> float64" where
  "math_Pow_10 y =
     (if y = 0 then FFin 1
      else if y = 1 then FFin 10
      else
        let (a1, ae) = pow_loop (nat \<bar>y\<bar>) 1 0 (5 / 8) 4 in
        if y < 0 then ldexp (f64_div (FFin 1) (FFin a1)) (- ae) else ldexp (FFin a1) ae)"

text \<open>\<open>math.Pow10\<close> multiplies or divides two entries of its tables.\<close>

definition math_Pow10 :: "int \<Rightarrow> float64" where
  "math_Pow10 n =
     (if 0 \<le> n \<and> n \<le> 308 then
        f64_mul (float64_round (10 ^ (32 * (nat n div 32)))) (float64_round (10 ^ (nat n mod 32)))
      else if - 323 \<le> n \<and> n \<le> 0 then
        f64_div (float64_round (1 / 10 ^ (32 * (nat (- n) div 32)))) (float64_round (10 ^ (nat (- n) mod 32)))
      else if n > 0 then FInf False else FFin 0)"

section \<open>Big numbers\<close>

text \<open>\<open>big.Int.Exp\<close> with base ten and no modulus gives 1 for an exponent that is not positive.\<close>

definition big_Exp10 :: "int \<Rightarrow> int" where
  "big_Exp10 y = (if y \<le> 0 then 1 else 10 ^ nat y)"

definition bf_Float64 :: "bigval \<Rightarrow> float64" where
  "bf_Float64 v = (case v of BFin x \<Rightarrow> float64_round x | BInf s \<Rightarrow> FInf s)"

text \<open>The quotient of two integers as the handlers compute it: two numbers of enough bits, a rounded quotient, a \<open>float64\<close>.\<close>

definition big_quotient :: "int \<Rightarrow> int \<Rightarrow> float64" where
  "big_quotient v d = bf_Float64 (bf_val (bf_Quo (bf_SetInt v) (bf_SetInt d)))"

section \<open>Accuracy\<close>

text \<open>\<open>y\<close> is \<open>x\<close> up to one part in \<open>2 ^ k\<close>.\<close>

definition near :: "nat \<Rightarrow> rat \<Rightarrow> rat \<Rightarrow> bool" where
  "near k x y \<longleftrightarrow> 2 ^ k * \<bar>y - x\<bar> \<le> \<bar>x\<bar>"

lemma near_refl [simp]: "near k x x"
  by (simp add: near_def)

lemma near_pos: "near k x y \<Longrightarrow> 1 \<le> k \<Longrightarrow> 0 < x \<Longrightarrow> x / 2 \<le> y \<and> y \<le> 2 * x"
proof -
  assume a: "near k x y" "1 \<le> k" "0 < x"
  have "(2 :: rat) ^ 1 \<le> 2 ^ k" using a(2) by (intro power_increasing) simp_all
  then have "2 * \<bar>y - x\<bar> \<le> 2 ^ k * \<bar>y - x\<bar>" by (intro mult_right_mono) simp_all
  then have "2 * \<bar>y - x\<bar> \<le> x" using a by (simp add: near_def)
  then show ?thesis using a(3) by (simp add: abs_if split: if_splits)
qed

text \<open>Two roundings of which the second is to \<open>k + 1\<close> bits and the first to one bit more, at least.\<close>

lemma near_trans:
  assumes "near (k + 1) x y" and "near (k + 2) y z" and "2 \<le> k"
  shows "near k x z"
proof -
  let ?p = "(2 :: rat) ^ k"
  have p: "4 \<le> ?p" using power_increasing [of 2 k "2 :: rat"] assms(3) by simp
  have a: "2 * ?p * \<bar>y - x\<bar> \<le> \<bar>x\<bar>" "4 * ?p * \<bar>z - y\<bar> \<le> \<bar>y\<bar>" using assms(1,2) by (simp_all add: near_def)
  have "8 * \<bar>y - x\<bar> \<le> 2 * ?p * \<bar>y - x\<bar>" using p by (intro mult_right_mono) simp_all
  then have "8 * \<bar>y - x\<bar> \<le> \<bar>x\<bar>" using a(1) by (rule order_trans)
  then have "\<bar>y\<bar> \<le> 2 * \<bar>x\<bar>" by (simp add: abs_if split: if_splits)
  then have "2 * ?p * \<bar>z - y\<bar> \<le> \<bar>x\<bar>" using a(2) by linarith
  moreover have "2 * ?p * \<bar>z - x\<bar> \<le> 2 * ?p * (\<bar>z - y\<bar> + \<bar>y - x\<bar>)" using p by (intro mult_left_mono) linarith+
  ultimately have "2 * ?p * \<bar>z - x\<bar> \<le> 2 * \<bar>x\<bar>" using a(1) by (simp add: distrib_left)
  then show ?thesis by (simp add: near_def)
qed

lemma near_mono:
  assumes "near m x y" and "k \<le> m"
  shows "near k x y"
proof -
  have "(2 :: rat) ^ k \<le> 2 ^ m" using assms(2) by (intro power_increasing) simp_all
  then have "2 ^ k * \<bar>y - x\<bar> \<le> 2 ^ m * \<bar>y - x\<bar>" by (intro mult_right_mono) simp_all
  then show ?thesis using assms(1) by (simp add: near_def)
qed

lemma near_scale: "near k x y \<Longrightarrow> near k (x * c) (y * c)"
proof -
  assume "near k x y"
  then have "\<bar>c\<bar> * (2 ^ k * \<bar>y - x\<bar>) \<le> \<bar>c\<bar> * \<bar>x\<bar>" unfolding near_def by (rule mult_left_mono) simp
  then have "2 ^ k * (\<bar>y - x\<bar> * \<bar>c\<bar>) \<le> \<bar>x\<bar> * \<bar>c\<bar>" by (simp add: ac_simps)
  then show ?thesis unfolding near_def abs_mult [symmetric] left_diff_distrib .
qed

lemma round_prec_close: "near p x (round_prec p x)"
  using Floats.round_prec_near [of p x] by (simp add: near_def)

lemma float64_round_near:
  assumes "pow2 (- 1022) \<le> x" and "x < pow2 1000"
  obtains y where "float64_round x = FFin y" and "near 53 x y" and "0 < y"
proof -
  have x: "0 < x" using assms(1) pow2_pos [of "- 1022"] by linarith
  have "0 < round_prec 53 x" using near_pos [OF round_prec_close [of 53 x]] x by simp
  then show ?thesis using that float64_round_normal [OF assms] round_prec_close by blast
qed

lemma double_rounding:
  assumes lo: "pow2 (- 900) \<le> x" and hi: "x < pow2 900" and p: "64 \<le> p"
  obtains z where "float64_round (round_prec p x) = FFin z" and "near 52 x z" and "0 < z"
proof -
  let ?y = "round_prec p x"
  have x: "0 < x" using lo pow2_pos [of "- 900"] by linarith
  have n1: "near p x ?y" by (rule round_prec_close)
  have y: "x / 2 \<le> ?y" "?y \<le> 2 * x" using near_pos [OF n1 _ x] p by simp_all
  have "pow2 (- 1022) \<le> pow2 (- 900) / 2" "2 * pow2 900 \<le> pow2 1000" by (simp_all add: pow2_def)
  then have y': "pow2 (- 1022) \<le> ?y" "?y < pow2 1000" using lo hi y by linarith+
  obtain z where z: "float64_round ?y = FFin z" "near 53 ?y z" "0 < z" by (rule float64_round_near [OF y'])
  have "near 52 x z"
  proof -
    have "2 ^ 64 * \<bar>?y - x\<bar> \<le> x" using near_mono [OF n1 p] x by (simp add: near_def)
    moreover have "2 ^ 53 * \<bar>z - ?y\<bar> \<le> ?y" using z(2) y x by (simp add: near_def)
    ultimately show ?thesis using x by (simp add: near_def abs_if split: if_splits)
  qed
  then show ?thesis using that z by simp
qed

lemma big_quotient_near:
  assumes "1 \<le> v" "v < 2 ^ 900" and "1 \<le> d" "d < 2 ^ 900"
  obtains y where "big_quotient v d = FFin y" and "near 52 (of_int v / of_int d) y" and "0 < y"
proof -
  let ?x = "of_int v / of_int d :: rat"
  have b: "of_int v < (2 :: rat) ^ 900" "of_int d < (2 :: rat) ^ 900" "1 \<le> (of_int v :: rat)" "1 \<le> (of_int d :: rat)"
    using assms of_int_less_iff [of v "2 ^ 900", where ?'a = rat] of_int_less_iff [of d "2 ^ 900", where ?'a = rat]
    by simp_all
  have lo: "pow2 (- 900) \<le> ?x"
  proof -
    have "pow2 (- 900) * of_int d \<le> pow2 (- 900) * 2 ^ 900" using b(2) pow2_pos [of "- 900"] by (intro mult_left_mono) simp_all
    then have "pow2 (- 900) * of_int d \<le> 1" by (simp add: pow2_def)
    then have "pow2 (- 900) * of_int d \<le> of_int v" using b(3) by linarith
    then show ?thesis using b(4) by (simp add: le_divide_eq)
  qed
  have hi: "?x < pow2 900"
  proof -
    have "of_int v < (2 :: rat) ^ 900 * of_int d" using b mult_left_mono [of 1 "of_int d" "2 ^ 900 :: rat"] by simp
    then show ?thesis using b(4) by (simp add: divide_less_eq pow2_def)
  qed
  define p where "p = max (max (nbits (nat \<bar>v\<bar>)) 64) (max (nbits (nat \<bar>d\<bar>)) 64)"
  have p: "64 \<le> p" by (simp add: p_def)
  let ?y = "round_prec p ?x"
  have wide: "pow2 (- 1000) \<le> ?x" "?x < pow2 1000"
    using order_trans [OF pow2_mono lo] order_less_le_trans [OF hi pow2_mono] by simp_all
  have "bf_val (bf_Quo (bf_SetInt v) (bf_SetInt d)) = BFin ?y"
    using bf_round_in_range [of p, OF _ wide] p
    by (simp add: bf_apply2_def bf_SetInt_def Let_def p_def [symmetric])
  then have q: "big_quotient v d = float64_round ?y" by (simp add: big_quotient_def bf_Float64_def)
  obtain z where "float64_round ?y = FFin z" "near 52 ?x z" "0 < z" by (rule double_rounding [OF lo hi p])
  then show ?thesis using that q by simp
qed

section \<open>The power of the exponents in use\<close>

text \<open>\<open>math.Pow(10, -6)\<close> is the \<open>float64\<close> nearest to a millionth.\<close>

lemma float_round_parts:
  "float_round (25 / 64) = 25 / 64" "float_round (25 / 32) = 25 / 32" "float_round (625 / 1024) = 625 / 1024"
  "float_round (15625 / 32768) = 15625 / 32768" "float_round (390625 / 1048576) = 390625 / 1048576"
  unfolding float_round_def
  using round_prec_is [of "- 2" "25 / 64" 53 7036874417766400] round_prec_is [of "- 1" "25 / 32" 53 7036874417766400]
    round_prec_is [of "- 1" "625 / 1024" 53 5497558138880000] round_prec_is [of "- 2" "15625 / 32768" 53 8589934592000000]
    round_prec_is [of "- 2" "390625 / 1048576" 53 6710886400000000]
  by (simp_all add: pow2_def)

lemma pow_loop_6: "pow_loop 6 1 0 (5 / 8) 4 = (15625 / 32768, 21)"
  by (simp add: pow_loop.simps float_round_parts Let_def)

lemma math_Pow_10_m6: "math_Pow_10 (- 6) = FFin (4722366482869645 / 4722366482869645213696)"
proof -
  let ?a = "32768 / 15625 :: rat" and ?b = "4722366482869645 / 2251799813685248 :: rat"
  have "float64_round ?a = FFin ?b"
    using float64_round_normal [of ?a] round_prec_is [of 1 ?a 53 4722366482869645] by (simp add: pow2_def)
  moreover have "float64_round (?b * pow2 (- 21)) = FFin (4722366482869645 / 4722366482869645213696)"
    using float64_round_normal [of "?b * pow2 (- 21)"] round_prec_is [of "- 20" "?b * pow2 (- 21)" 53 4722366482869645]
    by (simp add: pow2_def)
  ultimately show ?thesis by (simp add: math_Pow_10_def pow_loop_6 ldexp_def)
qed

end
