(* ===== verification/StaticMarkets.thy ===== *)
theory StaticMarkets
  imports MarketConfig
begin

text \<open>
  The static table of market parameters (\<open>constants/static_market_params_config.go\<close>) with its ids
  (\<open>exchange_common/market_id.go\<close>). The texts are those of the source, whose pairs and query data are in quotes and
  whose JSON is escaped, for the template of the TOML file.
\<close>

section \<open>Ids\<close>

definition BTCUSD_ID :: uint32 where "BTCUSD_ID = 0"
definition ETHUSD_ID :: uint32 where "ETHUSD_ID = 1"
definition TRBUSD_ID :: uint32 where "TRBUSD_ID = 69"
definition USDCUSD_ID :: uint32 where "USDCUSD_ID = 100"
definition USDTUSD_ID :: uint32 where "USDTUSD_ID = 5"
definition SAGAUSD_ID :: uint32 where "SAGAUSD_ID = 6"
definition ATOMUSD_ID :: uint32 where "ATOMUSD_ID = 7"
definition STETHUSD_ID :: uint32 where "STETHUSD_ID = 8"
definition USDEUSD_ID :: uint32 where "USDEUSD_ID = 9"

lemmas market_ids = BTCUSD_ID_def ETHUSD_ID_def TRBUSD_ID_def USDCUSD_ID_def USDTUSD_ID_def SAGAUSD_ID_def ATOMUSD_ID_def STETHUSD_ID_def USDEUSD_ID_def

section \<open>Parameters\<close>

text \<open>The JSON of the exchanges, in which the quotes are escaped; a ticker in quotes is escaped twice.\<close>

definition quoted :: "string \<Rightarrow> string" where
  "quoted s = [CHR 0x5C, CHR 0x22] @ s @ [CHR 0x5C, CHR 0x22]"

definition quoted2 :: "string \<Rightarrow> string" where
  "quoted2 s = [CHR 0x5C, CHR 0x5C, CHR 0x5C, CHR 0x22] @ s @ [CHR 0x5C, CHR 0x5C, CHR 0x5C, CHR 0x22]"

fun exchange_entries :: "(string \<times> string) list \<Rightarrow> string" where
  "exchange_entries [] = []"
| "exchange_entries ((n, t) # es) =
     ''{'' @ quoted ''exchangeName'' @ '':'' @ quoted n @ '','' @ quoted ''ticker'' @ '':'' @ quoted t @ ''}'' @
     (if es = [] then [] else '','' @ exchange_entries es)"

definition exchanges_json :: "(string \<times> string) list \<Rightarrow> string" where
  "exchanges_json es = ''{'' @ quoted ''exchanges'' @ '':['' @ exchange_entries es @ '']}''"

definition static_BTCUSD :: MarketParam where
  "static_BTCUSD = \<lparr>mp_Id = BTCUSD_ID, mp_Pair = ''\"BTC-USD\"'', mp_Exponent = -5, mp_MinExchanges = 3,
     mp_MinPriceChangePpm = 1000,
     mp_ExchangeConfigJson =
       exchanges_json [(''Binance'', quoted2 ''BTCUSDT''), (''BinanceUS'', quoted2 ''BTCUSD''),
         (''Bitfinex'', ''tBTCUSD''), (''Bitstamp'', ''BTC/USD''), (''CryptoCom'', ''BTC_USD''),
         (''Kraken'', ''XXBTZUSD''), (''Okx'', ''BTC-USDT'')],
     mp_QueryData =
       ''\"00000000000000000000000000000000000000000000000000000000000000400000000000000000000000000000000'' @
       ''000000000000000000000000000000080000000000000000000000000000000000000000000000000000000000000000'' @
       ''953706F74507269636500000000000000000000000000000000000000000000000000000000000000000000000000000'' @
       ''0000000000000000000000000000000C0000000000000000000000000000000000000000000000000000000000000004'' @
       ''000000000000000000000000000000000000000000000000000000000000000800000000000000000000000000000000'' @
       ''000000000000000000000000000000003627463000000000000000000000000000000000000000000000000000000000'' @
       ''000000000000000000000000000000000000000000000000000000000000000037573640000000000000000000000000'' @
       ''000000000000000000000000000000000\"''\<rparr>"

definition static_ETHUSD :: MarketParam where
  "static_ETHUSD = \<lparr>mp_Id = ETHUSD_ID, mp_Pair = ''\"ETH-USD\"'', mp_Exponent = -6, mp_MinExchanges = 3,
     mp_MinPriceChangePpm = 1000,
     mp_ExchangeConfigJson =
       exchanges_json [(''Binance'', quoted2 ''ETHUSDT''), (''BinanceUS'', quoted2 ''ETHUSD''),
         (''Bitfinex'', ''tETHUSD''), (''Bitstamp'', ''ETH/USD''), (''CryptoCom'', ''ETH_USD''),
         (''Kraken'', ''XETHZUSD''), (''Okx'', ''ETH-USDT'')],
     mp_QueryData =
       ''\"00000000000000000000000000000000000000000000000000000000000000400000000000000000000000000000000'' @
       ''000000000000000000000000000000080000000000000000000000000000000000000000000000000000000000000000'' @
       ''953706F74507269636500000000000000000000000000000000000000000000000000000000000000000000000000000'' @
       ''0000000000000000000000000000000C0000000000000000000000000000000000000000000000000000000000000004'' @
       ''000000000000000000000000000000000000000000000000000000000000000800000000000000000000000000000000'' @
       ''000000000000000000000000000000003657468000000000000000000000000000000000000000000000000000000000'' @
       ''000000000000000000000000000000000000000000000000000000000000000037573640000000000000000000000000'' @
       ''000000000000000000000000000000000\"''\<rparr>"

definition static_TRBUSD :: MarketParam where
  "static_TRBUSD = \<lparr>mp_Id = TRBUSD_ID, mp_Pair = ''\"TRB-USD\"'', mp_Exponent = -6, mp_MinExchanges = 3,
     mp_MinPriceChangePpm = 1000,
     mp_ExchangeConfigJson =
       exchanges_json [(''Binance'', quoted2 ''TRBUSDT''), (''CryptoCom'', ''TRB_USD''), (''Okx'', ''TRB-USDT''),
         (''CoinbaseRates'', ''TRB-USD'')],
     mp_QueryData =
       ''\"00000000000000000000000000000000000000000000000000000000000000400000000000000000000000000000000'' @
       ''000000000000000000000000000000080000000000000000000000000000000000000000000000000000000000000000'' @
       ''953706F74507269636500000000000000000000000000000000000000000000000000000000000000000000000000000'' @
       ''0000000000000000000000000000000C0000000000000000000000000000000000000000000000000000000000000004'' @
       ''000000000000000000000000000000000000000000000000000000000000000800000000000000000000000000000000'' @
       ''000000000000000000000000000000003747262000000000000000000000000000000000000000000000000000000000'' @
       ''000000000000000000000000000000000000000000000000000000000000000037573640000000000000000000000000'' @
       ''000000000000000000000000000000000\"''\<rparr>"

definition static_USDCUSD :: MarketParam where
  "static_USDCUSD = \<lparr>mp_Id = USDCUSD_ID, mp_Pair = ''\"USDC-USD\"'', mp_Exponent = -6, mp_MinExchanges = 2,
     mp_MinPriceChangePpm = 1000,
     mp_ExchangeConfigJson =
       exchanges_json [(''Binance'', quoted2 ''USDCUSDT''), (''Okx'', ''USDC-USDT''), (''Huobi'', ''usdcusdt''),
         (''Bitstamp'', ''USDC/USD''), (''Gate'', ''USDC_USDT''), (''Kraken'', ''USDCUSD''),
         (''Kucoin'', ''USDC-USDT''), (''Mexc'', ''USDCUSDT'')],
     mp_QueryData =
       ''\"00000000000000000000000000000000000000000000000000000000000000400000000000000000000000000000000'' @
       ''000000000000000000000000000000080000000000000000000000000000000000000000000000000000000000000000'' @
       ''953706f74507269636500000000000000000000000000000000000000000000000000000000000000000000000000000'' @
       ''0000000000000000000000000000000c0000000000000000000000000000000000000000000000000000000000000004'' @
       ''000000000000000000000000000000000000000000000000000000000000000800000000000000000000000000000000'' @
       ''000000000000000000000000000000004757364630000000000000000000000000000000000000000000000000000000'' @
       ''000000000000000000000000000000000000000000000000000000000000000037573640000000000000000000000000'' @
       ''000000000000000000000000000000000\"''\<rparr>"

definition static_USDTUSD :: MarketParam where
  "static_USDTUSD = \<lparr>mp_Id = USDTUSD_ID, mp_Pair = ''\"USDT-USD\"'', mp_Exponent = -6, mp_MinExchanges = 2,
     mp_MinPriceChangePpm = 1000,
     mp_ExchangeConfigJson =
       exchanges_json [(''BinanceUS'', quoted2 ''USDTUSD''), (''Bitstamp'', ''USDT/USD''),
         (''CryptoCom'', ''USDT_USD''), (''Kraken'', ''USDTZUSD''), (''Okx'', ''USDT-USD'')],
     mp_QueryData =
       ''\"00000000000000000000000000000000000000000000000000000000000000400000000000000000000000000000000'' @
       ''000000000000000000000000000000080000000000000000000000000000000000000000000000000000000000000000'' @
       ''953706f74507269636500000000000000000000000000000000000000000000000000000000000000000000000000000'' @
       ''0000000000000000000000000000000c0000000000000000000000000000000000000000000000000000000000000004'' @
       ''000000000000000000000000000000000000000000000000000000000000000800000000000000000000000000000000'' @
       ''000000000000000000000000000000004757364740000000000000000000000000000000000000000000000000000000'' @
       ''000000000000000000000000000000000000000000000000000000000000000037573640000000000000000000000000'' @
       ''000000000000000000000000000000000\"''\<rparr>"

definition static_ATOMUSD :: MarketParam where
  "static_ATOMUSD = \<lparr>mp_Id = ATOMUSD_ID, mp_Pair = ''\"ATOM-USD\"'', mp_Exponent = -6, mp_MinExchanges = 3,
     mp_MinPriceChangePpm = 1000,
     mp_ExchangeConfigJson =
       exchanges_json [(''BinanceUS'', quoted2 ''ATOMUSD''), (''Kraken'', ''ATOMUSD''),
         (''CryptoCom'', ''ATOM_USD''), (''Okx'', ''ATOM-USD''), (''CoinbaseRates'', ''ATOM-USD'')],
     mp_QueryData =
       ''\"00000000000000000000000000000000000000000000000000000000000000400000000000000000000000000000000'' @
       ''000000000000000000000000000000080000000000000000000000000000000000000000000000000000000000000000'' @
       ''953706f74507269636500000000000000000000000000000000000000000000000000000000000000000000000000000'' @
       ''0000000000000000000000000000000c0000000000000000000000000000000000000000000000000000000000000004'' @
       ''000000000000000000000000000000000000000000000000000000000000000800000000000000000000000000000000'' @
       ''00000000000000000000000000000000461746f6d0000000000000000000000000000000000000000000000000000000'' @
       ''000000000000000000000000000000000000000000000000000000000000000037573640000000000000000000000000'' @
       ''000000000000000000000000000000000\"''\<rparr>"

definition static_STETHUSD :: MarketParam where
  "static_STETHUSD = \<lparr>mp_Id = STETHUSD_ID, mp_Pair = ''\"STETH-USD\"'', mp_Exponent = -6, mp_MinExchanges = 1,
     mp_MinPriceChangePpm = 1000,
     mp_ExchangeConfigJson =
       exchanges_json [(''Huobi'', ''stethusdt''), (''Okx'', ''STETH-USD''), (''Gate'', ''STETH_USDT'')],
     mp_QueryData =
       ''\"00000000000000000000000000000000000000000000000000000000000000400000000000000000000000000000000'' @
       ''000000000000000000000000000000080000000000000000000000000000000000000000000000000000000000000000'' @
       ''953706f74507269636500000000000000000000000000000000000000000000000000000000000000000000000000000'' @
       ''0000000000000000000000000000000c0000000000000000000000000000000000000000000000000000000000000004'' @
       ''000000000000000000000000000000000000000000000000000000000000000800000000000000000000000000000000'' @
       ''000000000000000000000000000000005737465746800000000000000000000000000000000000000000000000000000'' @
       ''000000000000000000000000000000000000000000000000000000000000000037573640000000000000000000000000'' @
       ''000000000000000000000000000000000\"''\<rparr>"

definition static_USDEUSD :: MarketParam where
  "static_USDEUSD = \<lparr>mp_Id = USDEUSD_ID, mp_Pair = ''\"USDE-USD\"'', mp_Exponent = -6, mp_MinExchanges = 1,
     mp_MinPriceChangePpm = 1000,
     mp_ExchangeConfigJson =
       exchanges_json [(''Kraken'', ''USDEUSDT''), (''Gate'', ''USDE_USDT''), (''Kucoin'', ''USDE-USDT''),
         (''Binance'', ''USDEUSDT'')],
     mp_QueryData =
       ''\"00000000000000000000000000000000000000000000000000000000000000400000000000000000000000000000000'' @
       ''000000000000000000000000000000080000000000000000000000000000000000000000000000000000000000000000'' @
       ''953706f74507269636500000000000000000000000000000000000000000000000000000000000000000000000000000'' @
       ''0000000000000000000000000000000c0000000000000000000000000000000000000000000000000000000000000004'' @
       ''000000000000000000000000000000000000000000000000000000000000000800000000000000000000000000000000'' @
       ''000000000000000000000000000000004757364650000000000000000000000000000000000000000000000000000000'' @
       ''000000000000000000000000000000000000000000000000000000000000000037573640000000000000000000000000'' @
       ''000000000000000000000000000000000\"''\<rparr>"

definition StaticMarketParamsConfig :: "(uint32, MarketParam) gomap" where
  "StaticMarketParamsConfig =
     [(BTCUSD_ID, static_BTCUSD),
      (ETHUSD_ID, static_ETHUSD),
      (TRBUSD_ID, static_TRBUSD),
      (USDCUSD_ID, static_USDCUSD),
      (USDTUSD_ID, static_USDTUSD),
      (ATOMUSD_ID, static_ATOMUSD),
      (STETHUSD_ID, static_STETHUSD),
      (USDEUSD_ID, static_USDEUSD)]"

lemmas static_defs = static_BTCUSD_def static_ETHUSD_def static_TRBUSD_def static_USDCUSD_def static_USDTUSD_def static_ATOMUSD_def static_STETHUSD_def static_USDEUSD_def

lemma static_fields [simp]:
  "mp_Id static_BTCUSD = BTCUSD_ID" "mp_Exponent static_BTCUSD = -5" "mp_MinExchanges static_BTCUSD = 3"
  "mp_Id static_ETHUSD = ETHUSD_ID" "mp_Exponent static_ETHUSD = -6" "mp_MinExchanges static_ETHUSD = 3"
  "mp_Id static_TRBUSD = TRBUSD_ID" "mp_Exponent static_TRBUSD = -6" "mp_MinExchanges static_TRBUSD = 3"
  "mp_Id static_USDCUSD = USDCUSD_ID" "mp_Exponent static_USDCUSD = -6" "mp_MinExchanges static_USDCUSD = 2"
  "mp_Id static_USDTUSD = USDTUSD_ID" "mp_Exponent static_USDTUSD = -6" "mp_MinExchanges static_USDTUSD = 2"
  "mp_Id static_ATOMUSD = ATOMUSD_ID" "mp_Exponent static_ATOMUSD = -6" "mp_MinExchanges static_ATOMUSD = 3"
  "mp_Id static_STETHUSD = STETHUSD_ID" "mp_Exponent static_STETHUSD = -6" "mp_MinExchanges static_STETHUSD = 1"
  "mp_Id static_USDEUSD = USDEUSD_ID" "mp_Exponent static_USDEUSD = -6" "mp_MinExchanges static_USDEUSD = 1"
  by (simp_all add: static_defs)

text \<open>Every entry is under its own id, and its exponent and its least number of exchanges are in a small range.\<close>

lemma static_lookup:
  "map_of StaticMarketParamsConfig BTCUSD_ID = Some static_BTCUSD"
  "map_of StaticMarketParamsConfig ETHUSD_ID = Some static_ETHUSD"
  "map_of StaticMarketParamsConfig TRBUSD_ID = Some static_TRBUSD"
  "map_of StaticMarketParamsConfig USDCUSD_ID = Some static_USDCUSD"
  "map_of StaticMarketParamsConfig USDTUSD_ID = Some static_USDTUSD"
  "map_of StaticMarketParamsConfig ATOMUSD_ID = Some static_ATOMUSD"
  "map_of StaticMarketParamsConfig STETHUSD_ID = Some static_STETHUSD"
  "map_of StaticMarketParamsConfig USDEUSD_ID = Some static_USDEUSD"
  by (simp_all add: StaticMarketParamsConfig_def market_ids)

lemma StaticMarketParamsConfig_ok:
  assumes "map_of StaticMarketParamsConfig i = Some p"
  shows "mp_Id p = i" and "mp_Exponent p = - 5 \<or> mp_Exponent p = - 6" and "mp_MinExchanges p \<in> {1, 2, 3}"
proof -
  have "(i, p) \<in> set StaticMarketParamsConfig" using assms by (rule map_of_SomeD)
  then show "mp_Id p = i" "mp_Exponent p = - 5 \<or> mp_Exponent p = - 6" "mp_MinExchanges p \<in> {1, 2, 3}"
    by (auto simp: StaticMarketParamsConfig_def static_fields)
qed

end
