(* ===== verification/BridgeCaches.thy ===== *)
theory BridgeCaches
  imports Prices
begin

text \<open>
  The queues between the token bridge client and the reporter: \<open>server/types/token_bridge/types.go\<close>
  (deposits to report), \<open>server/types/token_bridge_tips/types.go\<close> (tipped deposits to look up), the
  handlers that serve them (\<open>server/tokenbridgefeed.go\<close>, \<open>server/tokenbridgetips.go\<close>,
  \<open>server/token_bridge\<close>, \<open>server/token_bridge_tips\<close>), and what the reporter does with a deposit:
  \<open>reporter/client/deposits.go\<close> and the deposit part of \<open>reporter/client/broadcast_message.go\<close>.

  Both queues are first-in first-out (locale \<open>fifo\<close>). Byte slices are lists of natural numbers.
\<close>

type_synonym bytes = "nat list"

section \<open>Pending deposit reports\<close>

record DepositReport =
  dr_QueryData :: bytes
  dr_Value :: bytes

record DepositReports =
  drs_Reports :: "DepositReport list"

datatype cache_error = ErrNoPendingDeposits

definition NewDepositReports :: DepositReports where
  "NewDepositReports = \<lparr>drs_Reports = []\<rparr>"

definition GetReports :: "DepositReports \<Rightarrow> DepositReport list" where
  "GetReports d = drs_Reports d"

definition AddReport :: "DepositReports \<Rightarrow> DepositReport \<Rightarrow> DepositReports" where
  "AddReport d report = d\<lparr>drs_Reports := drs_Reports d @ [report]\<rparr>"

fun remove_first :: "('a \<Rightarrow> bool) \<Rightarrow> 'a list \<Rightarrow> 'a list" where
  "remove_first P [] = []"
| "remove_first P (x # xs) = (if P x then xs else x # remove_first P xs)"

definition RemoveReport :: "DepositReports \<Rightarrow> DepositReport \<Rightarrow> DepositReports" where
  "RemoveReport d report =
     d\<lparr>drs_Reports := remove_first
         (\<lambda>r. dr_QueryData r = dr_QueryData report \<and> dr_Value r = dr_Value report) (drs_Reports d)\<rparr>"

definition RemoveOldestReport :: "DepositReports \<Rightarrow> DepositReports" where
  "RemoveOldestReport d =
     (if length (drs_Reports d) = 0 then d else d\<lparr>drs_Reports := drop 1 (drs_Reports d)\<rparr>)"

definition GetOldestReport :: "DepositReports \<Rightarrow> cache_error + DepositReport" where
  "GetOldestReport d =
     (case drs_Reports d of [] \<Rightarrow> Inl ErrNoPendingDeposits | oldest # _ \<Rightarrow> Inr oldest)"

section \<open>Pending tips\<close>

record QueryData =
  qd_QueryData :: bytes

record DepositTips =
  dts_Tips :: "QueryData list"

definition NewDepositTips :: DepositTips where
  "NewDepositTips = \<lparr>dts_Tips = []\<rparr>"

definition GetTips :: "DepositTips \<Rightarrow> QueryData list" where
  "GetTips d = dts_Tips d"

definition AddTip :: "DepositTips \<Rightarrow> QueryData \<Rightarrow> DepositTips" where
  "AddTip d tip = d\<lparr>dts_Tips := dts_Tips d @ [tip]\<rparr>"

definition RemoveTip :: "DepositTips \<Rightarrow> QueryData \<Rightarrow> DepositTips" where
  "RemoveTip d tip = d\<lparr>dts_Tips := remove_first (\<lambda>t. qd_QueryData t = qd_QueryData tip) (dts_Tips d)\<rparr>"

definition RemoveOldestTip :: "DepositTips \<Rightarrow> DepositTips" where
  "RemoveOldestTip d = (if length (dts_Tips d) = 0 then d else d\<lparr>dts_Tips := drop 1 (dts_Tips d)\<rparr>)"

definition GetOldestTip :: "DepositTips \<Rightarrow> cache_error + QueryData" where
  "GetOldestTip d = (case dts_Tips d of [] \<Rightarrow> Inl ErrNoPendingDeposits | oldest # _ \<Rightarrow> Inr oldest)"

section \<open>The handlers\<close>

text \<open>The shared server panics without a cache; the stand-alone servers are created with one.\<close>

definition GetPendingDepositReport :: "DepositReports option \<Rightarrow> go_panic + cache_error + bytes \<times> bytes" where
  "GetPendingDepositReport tokenDepositsCache =
     (case tokenDepositsCache of
        None \<Rightarrow> Inl PanicNotInitialized
      | Some d \<Rightarrow>
          (case GetOldestReport d of
             Inl err \<Rightarrow> Inr (Inl err)
           | Inr report \<Rightarrow> Inr (Inr (dr_QueryData report, dr_Value report))))"

definition GetPendingDepositTip :: "DepositTips option \<Rightarrow> go_panic + cache_error + bytes" where
  "GetPendingDepositTip tokenBridgeTipsCache =
     (case tokenBridgeTipsCache of
        None \<Rightarrow> Inl PanicNotInitialized
      | Some d \<Rightarrow>
          (case GetOldestTip d of Inl err \<Rightarrow> Inr (Inl err) | Inr tip \<Rightarrow> Inr (Inr (qd_QueryData tip))))"

definition tokenBridgeServer_GetPendingDepositReport :: "DepositReports \<Rightarrow> cache_error + bytes \<times> bytes" where
  "tokenBridgeServer_GetPendingDepositReport pendingDeposits =
     bindE (GetOldestReport pendingDeposits) (\<lambda>deposits. Inr (dr_QueryData deposits, dr_Value deposits))"

definition tokenBridgeTipServer_GetTokenBridgeTip :: "DepositTips \<Rightarrow> cache_error + bytes" where
  "tokenBridgeTipServer_GetTokenBridgeTip tips =
     bindE (GetOldestTip tips) (\<lambda>tip. Inr (qd_QueryData tip))"

definition deposits :: "DepositReports \<Rightarrow> cache_error + bytes \<times> string" where
  "deposits d =
     (case GetOldestReport d of
        Inl err \<Rightarrow> Inl ErrNoPendingDeposits
      | Inr oldestDeposit \<Rightarrow> Inr (dr_QueryData oldestDeposit, hex_EncodeToString (dr_Value oldestDeposit)))"

section \<open>First in, first out\<close>

locale fifo =
  fixes content :: "'q \<Rightarrow> 'a list"
    and empty :: 'q
    and add :: "'q \<Rightarrow> 'a \<Rightarrow> 'q"
    and remove_oldest :: "'q \<Rightarrow> 'q"
    and oldest :: "'q \<Rightarrow> cache_error + 'a"
  assumes content_empty: "content empty = []"
    and content_add: "content (add q x) = content q @ [x]"
    and content_remove: "content (remove_oldest q) = tl (content q)"
    and oldest_eq: "oldest q = (case content q of [] \<Rightarrow> Inl ErrNoPendingDeposits | x # _ \<Rightarrow> Inr x)"
begin

lemma content_add_all: "content (foldl add q xs) = content q @ xs"
  by (induction xs arbitrary: q) (simp_all add: content_add)

lemma content_remove_n: "content ((remove_oldest ^^ n) q) = drop n (content q)"
  by (induction n) (simp_all add: content_remove drop_Suc tl_drop)

lemma oldest_in_order:
  assumes "n < length xs"
  shows "oldest ((remove_oldest ^^ n) (foldl add empty xs)) = Inr (xs ! n)"
  using assms by (simp add: oldest_eq content_remove_n content_add_all content_empty Cons_nth_drop_Suc [symmetric])

lemma oldest_none_iff: "oldest q = Inl ErrNoPendingDeposits \<longleftrightarrow> content q = []"
  by (simp add: oldest_eq split: list.splits)

end

interpretation reports: fifo drs_Reports NewDepositReports AddReport RemoveOldestReport GetOldestReport
  by unfold_locales
    (auto simp: NewDepositReports_def AddReport_def RemoveOldestReport_def GetOldestReport_def drop_Suc
      split: list.splits)

interpretation tips: fifo dts_Tips NewDepositTips AddTip RemoveOldestTip GetOldestTip
  by unfold_locales
    (auto simp: NewDepositTips_def AddTip_def RemoveOldestTip_def GetOldestTip_def drop_Suc split: list.splits)

section \<open>Reporting deposits\<close>

text \<open>
  The messages the daemon sends: their creator and what they are about. Amounts are in the denomination \<open>loya\<close>.
\<close>

datatype sdk_msg =
    MsgSubmitValue string bytes string
  | MsgWithdrawTip string string
  | MsgWithdrawTipToBalance string
  | MsgUndelegate string string int
  | MsgWithdrawTokens string string int

record TxChannelInfo =
  tci_Msg :: sdk_msg
  tci_isBridge :: bool
  tci_NumRetries :: nat
  tci_QueryMetaId :: uint64

definition bridgeDepositMaxRetries :: nat where
  "bridgeDepositMaxRetries = 10"

text \<open>
  The part of the reporter that deposits go through: the deposits queue, the transaction channel
  and whether it is closed. \<open>rb_sent\<close> lists the messages that reached the chain.
\<close>

record reporter_bridge =
  rb_cache :: DepositReports
  rb_txChan :: "TxChannelInfo list"
  rb_txClosed :: bool
  rb_sent :: "sdk_msg list"

text \<open>Whether the message was queued: not if the channel is closed or the context ends first.\<close>

definition trySend :: "bool \<Rightarrow> reporter_bridge \<Rightarrow> TxChannelInfo \<Rightarrow> bool \<times> reporter_bridge" where
  "trySend ctxDone c info =
     (if rb_txClosed c then (False, c)
      else if ctxDone then (False, c)
      else (True, c\<lparr>rb_txChan := rb_txChan c @ [info]\<rparr>))"

definition closeTxChan :: "reporter_bridge \<Rightarrow> reporter_bridge" where
  "closeTxChan c = (if rb_txClosed c then c else c\<lparr>rb_txClosed := True\<rparr>)"

datatype deposit_error = ErrQueueContext | ErrQueueClosed

definition GenerateDepositMessages ::
    "bool \<Rightarrow> string \<Rightarrow> reporter_bridge \<Rightarrow> deposit_error option \<times> reporter_bridge" where
  "GenerateDepositMessages ctxDone accAddr c =
     (case deposits (rb_cache c) of
        Inl err \<Rightarrow> (None, c)
      | Inr (depositQuerydata, value) \<Rightarrow>
          (case trySend ctxDone c
                  \<lparr>tci_Msg = MsgSubmitValue accAddr depositQuerydata value, tci_isBridge = True,
                   tci_NumRetries = bridgeDepositMaxRetries, tci_QueryMetaId = 0\<rparr> of
             (True, c') \<Rightarrow> (None, c')
           | (False, c') \<Rightarrow> (Some (if ctxDone then ErrQueueContext else ErrQueueClosed), c')))"

text \<open>\<open>outcome\<close> is what \<open>sendTx\<close> returns: an error, or the code of the transaction.\<close>

definition HandleBridgeDepositTxInChannel ::
    "bool \<Rightarrow> string + uint32 \<Rightarrow> TxChannelInfo \<Rightarrow> reporter_bridge \<Rightarrow> reporter_bridge" where
  "HandleBridgeDepositTxInChannel ctxDone outcome data c =
     (case outcome of
        Inl err \<Rightarrow>
          if tci_NumRetries data = 0 then c\<lparr>rb_cache := RemoveOldestReport (rb_cache c)\<rparr>
          else snd (trySend ctxDone c (data\<lparr>tci_NumRetries := tci_NumRetries data - 1\<rparr>))
      | Inr code \<Rightarrow>
          let c' = c\<lparr>rb_sent := rb_sent c @ [tci_Msg data]\<rparr> in
          (case tci_Msg data of
             MsgSubmitValue _ _ _ \<Rightarrow> c'\<lparr>rb_cache := RemoveOldestReport (rb_cache c')\<rparr>
           | _ \<Rightarrow> c'))"

definition isBridgeDepositReportMsg :: "sdk_msg \<Rightarrow> bool" where
  "isBridgeDepositReportMsg msg = (case msg of MsgSubmitValue _ _ _ \<Rightarrow> True | _ \<Rightarrow> False)"

text \<open>
  The goroutine \<open>BroadcastTxMsgToChain\<close> starts for a message it takes from the channel. Several of
  them run at once and finish in any order.
\<close>

definition broadcast_one :: "bool \<Rightarrow> string + uint32 \<Rightarrow> TxChannelInfo \<Rightarrow> reporter_bridge \<Rightarrow> reporter_bridge" where
  "broadcast_one ctxDone outcome txInfo c =
     (if tci_isBridge txInfo \<and> isBridgeDepositReportMsg (tci_Msg txInfo)
      then HandleBridgeDepositTxInChannel ctxDone outcome txInfo c
      else case outcome of Inl err \<Rightarrow> c | Inr code \<Rightarrow> c\<lparr>rb_sent := rb_sent c @ [tci_Msg txInfo]\<rparr>)"

definition receive :: "reporter_bridge \<Rightarrow> (TxChannelInfo \<times> reporter_bridge) option" where
  "receive c = (case rb_txChan c of [] \<Rightarrow> None | x # xs \<Rightarrow> Some (x, c\<lparr>rb_txChan := xs\<rparr>))"

fun broadcast_outcomes :: "(string + uint32) list \<Rightarrow> reporter_bridge \<Rightarrow> reporter_bridge" where
  "broadcast_outcomes [] c = c"
| "broadcast_outcomes (outcome # rest) c =
     (case receive c of
        None \<Rightarrow> c
      | Some (txInfo, c') \<Rightarrow> broadcast_outcomes rest (broadcast_one False outcome txInfo c'))"

lemmas bridge_report_defs =
  GenerateDepositMessages_def deposits_def GetOldestReport_def trySend_def HandleBridgeDepositTxInChannel_def
  broadcast_one_def receive_def isBridgeDepositReportMsg_def RemoveOldestReport_def

abbreviation deposit_msg :: "string \<Rightarrow> DepositReport \<Rightarrow> sdk_msg" where
  "deposit_msg accAddr r \<equiv> MsgSubmitValue accAddr (dr_QueryData r) (hex_EncodeToString (dr_Value r))"

lemma retries_one_by_one:
  assumes "drs_Reports (rb_cache c) = r # rs" and "\<not> rb_txClosed c"
    and "rb_txChan c = [\<lparr>tci_Msg = deposit_msg accAddr r, tci_isBridge = True, tci_NumRetries = k, tci_QueryMetaId = 0\<rparr>]"
    and "length errs \<le> k"
  shows "broadcast_outcomes (map Inl errs @ [Inr code]) c =
    c\<lparr>rb_cache := (rb_cache c)\<lparr>drs_Reports := rs\<rparr>, rb_txChan := [], rb_sent := rb_sent c @ [deposit_msg accAddr r]\<rparr>"
  using assms
proof (induction errs arbitrary: k c)
  case Nil
  then show ?case by (simp add: bridge_report_defs)
next
  case (Cons e errs)
  then obtain k' where k: "k = Suc k'" by (cases k) auto
  let ?c = "c\<lparr>rb_txChan := [\<lparr>tci_Msg = deposit_msg accAddr r, tci_isBridge = True, tci_NumRetries = k', tci_QueryMetaId = 0\<rparr>]\<rparr>"
  have "broadcast_outcomes (map Inl (e # errs) @ [Inr code]) c = broadcast_outcomes (map Inl errs @ [Inr code]) ?c"
    using Cons.prems by (simp add: bridge_report_defs k)
  then show ?case using Cons.IH [of ?c k'] Cons.prems by (simp add: k)
qed

text \<open>
  One deposit at a time. If the transaction channel is empty when the reporter queues the
  oldest deposit, and the broadcast fails at most ten times before it goes through, then exactly
  this deposit is sent, exactly once, and exactly it leaves the queue.
\<close>

theorem deposit_reported_once:
  assumes "drs_Reports (rb_cache c) = r # rs" and "rb_txChan c = []" and "\<not> rb_txClosed c"
    and "length errs \<le> bridgeDepositMaxRetries"
  shows "\<exists>c1. GenerateDepositMessages False accAddr c = (None, c1) \<and>
    broadcast_outcomes (map Inl errs @ [Inr code]) c1 =
      c\<lparr>rb_cache := (rb_cache c)\<lparr>drs_Reports := rs\<rparr>, rb_sent := rb_sent c @ [deposit_msg accAddr r]\<rparr>"
proof -
  let ?c1 = "c\<lparr>rb_txChan := [\<lparr>tci_Msg = deposit_msg accAddr r, tci_isBridge = True,
    tci_NumRetries = bridgeDepositMaxRetries, tci_QueryMetaId = 0\<rparr>]\<rparr>"
  have "GenerateDepositMessages False accAddr c = (None, ?c1)" using assms(1-3) by (simp add: bridge_report_defs)
  moreover have "broadcast_outcomes (map Inl errs @ [Inr code]) ?c1 =
      c\<lparr>rb_cache := (rb_cache c)\<lparr>drs_Reports := rs\<rparr>, rb_sent := rb_sent c @ [deposit_msg accAddr r]\<rparr>"
    using retries_one_by_one [of ?c1 r rs accAddr bridgeDepositMaxRetries errs code] assms by simp
  ultimately show ?thesis by blast
qed

text \<open>
  C36: a deposit can be lost. The reporter queues the oldest deposit every ten seconds, whether or
  not it is already on its way, and every finished transaction removes the oldest deposit rather
  than its own: if a deposit is queued twice before it is done, the next one leaves the queue
  although it was never sent.
\<close>

theorem deposit_lost:
  assumes "drs_Reports (rb_cache c) = r1 # r2 # rs" and "rb_txChan c = []" and "\<not> rb_txClosed c"
  shows "let c1 = snd (GenerateDepositMessages False accAddr c);
             c2 = snd (GenerateDepositMessages False accAddr c1);
             c3 = broadcast_outcomes [Inr 0, Inr 0] c2
         in drs_Reports (rb_cache c3) = rs \<and> rb_txChan c3 = [] \<and>
            rb_sent c3 = rb_sent c @ [deposit_msg accAddr r1, deposit_msg accAddr r1]"
  using assms by (simp add: bridge_report_defs Let_def)

definition demo_bridge :: reporter_bridge where
  "demo_bridge = \<lparr>rb_cache = \<lparr>drs_Reports = [\<lparr>dr_QueryData = [1], dr_Value = [10]\<rparr>, \<lparr>dr_QueryData = [2], dr_Value = [20]\<rparr>]\<rparr>,
     rb_txChan = [], rb_txClosed = False, rb_sent = []\<rparr>"

theorem deposit_reported_once_witness:
  "\<exists>c1. GenerateDepositMessages False ''tellor1'' demo_bridge = (None, c1) \<and>
     rb_sent (broadcast_outcomes [Inl ''timeout'', Inr 0] c1) = [MsgSubmitValue ''tellor1'' [1] ''0a'']"
proof -
  have "hex_EncodeToString [10] = ''0a''" by code_simp
  moreover have "length [''timeout''] \<le> bridgeDepositMaxRetries" by code_simp
  ultimately show ?thesis
    using deposit_reported_once [of demo_bridge "\<lparr>dr_QueryData = [1], dr_Value = [10]\<rparr>"
        "[\<lparr>dr_QueryData = [2], dr_Value = [20]\<rparr>]" "[''timeout'']" "''tellor1''" 0]
    by (auto simp: demo_bridge_def)
qed

theorem deposit_lost_witness:
  "drs_Reports (rb_cache (broadcast_outcomes [Inr 0, Inr 0] (snd (GenerateDepositMessages False ''t''
      (snd (GenerateDepositMessages False ''t'' demo_bridge)))))) = []"
  using deposit_lost [of demo_bridge "\<lparr>dr_QueryData = [1], dr_Value = [10]\<rparr>" "\<lparr>dr_QueryData = [2], dr_Value = [20]\<rparr>" "[]" "''t''"]
  by (simp add: demo_bridge_def Let_def)

end
