(* ===== verification/ContractReader.thy ===== *)
theory ContractReader
  imports AbiNumbers BridgeCaches
begin

text \<open>
  Calls to contracts (\<open>custom_query/contracts/contract_reader/reader.go\<close>): the encoding of a call, the retries on
  every client of a chain, and the health flags of the clients. Keccak, the ABI packer, the address parser, the
  connections and the calls are parameters; calls, the state of the context and the sleeps are numbered by the
  attempt. Logging and metrics are left out.
\<close>

section \<open>Encoding a call\<close>

fun strings_Index :: "string \<Rightarrow> string \<Rightarrow> nat option" where
  "strings_Index [] sub = (if sub = [] then Some 0 else None)"
| "strings_Index (c # s) sub =
     (if strings_HasPrefix (c # s) sub then Some 0 else map_option Suc (strings_Index s sub))"

definition strings_TrimPrefix :: "string \<Rightarrow> string \<Rightarrow> string" where
  "strings_TrimPrefix s p = (if strings_HasPrefix s p then drop (length p) s else s)"

datatype abi_argument =
    ArgInt int
  | ArgAddress bytes
  | ArgBool bool
  | ArgBytes32 bytes
  | ArgString string
  | ArgBytes bytes

datatype read_error =
    ErrSignature string
  | ErrParamType string
  | ErrArgument nat string
  | ErrPackArguments string
  | ErrContextDone
  | ErrEmptyResponse
  | ErrAllEndpoints "string option"

record abi_library =
  al_keccak :: "bytes \<Rightarrow> bytes"
  al_NewType :: "string \<Rightarrow> bool"
  al_IsHexAddress :: "string \<Rightarrow> bool"
  al_HexToAddress :: "string \<Rightarrow> bytes"
  al_Pack :: "string list \<Rightarrow> abi_argument list \<Rightarrow> string + bytes"

text \<open>\<open>big.Int.SetString\<close> in base ten.\<close>

definition big_SetString10 :: "string \<Rightarrow> int option" where
  "big_SetString10 s = (let (neg, t) = trim_sign s in map_option (\<lambda>v. if neg then - v else v) (parse_digits t))"

definition string_bytes :: "string \<Rightarrow> bytes" where
  "string_bytes s = map of_char s"

text \<open>\<open>copy\<close> into an array of 32 bytes.\<close>

definition to_bytes32 :: "bytes \<Rightarrow> bytes" where
  "to_bytes32 bs = take 32 (bs @ replicate 32 0)"

definition parseArgument :: "abi_library \<Rightarrow> string \<Rightarrow> string \<Rightarrow> string + abi_argument" where
  "parseArgument L arg paramType =
     (if strings_HasPrefix paramType ''uint'' then
        (case big_SetString10 arg of None \<Rightarrow> Inl ''invalid uint value'' | Some v \<Rightarrow> Inr (ArgInt v))
      else if strings_HasPrefix paramType ''int'' then
        (case big_SetString10 arg of None \<Rightarrow> Inl ''invalid int value'' | Some v \<Rightarrow> Inr (ArgInt v))
      else if paramType = ''address'' then
        (if \<not> al_IsHexAddress L arg then Inl ''invalid address'' else Inr (ArgAddress (al_HexToAddress L arg)))
      else if paramType = ''bool'' then Inr (ArgBool (arg = ''true'' \<or> arg = ''1''))
      else if paramType = ''bytes32'' then
        (case hex_DecodeString (strings_TrimPrefix arg ''0x'') of
           Inl e \<Rightarrow> Inl ''invalid bytes32 value'' | Inr bs \<Rightarrow> Inr (ArgBytes32 (to_bytes32 bs)))
      else if paramType = ''string'' then Inr (ArgString arg)
      else if strings_HasPrefix paramType ''bytes'' then
        (case hex_DecodeString (strings_TrimPrefix arg ''0x'') of
           Inl e \<Rightarrow> Inl ''encoding/hex'' | Inr bs \<Rightarrow> Inr (ArgBytes bs))
      else Inl ''unsupported parameter type'')"

text \<open>An argument without a type of its own indexes the list of types out of range.\<close>

fun parse_arguments ::
    "abi_library \<Rightarrow> string list \<Rightarrow> nat \<Rightarrow> string list \<Rightarrow> go_panic + read_error + abi_argument list" where
  "parse_arguments L paramTypes i [] = Inr (Inr [])"
| "parse_arguments L paramTypes i (arg # args) =
     (if length paramTypes \<le> i then Inl PanicIndexOutOfRange
      else case parseArgument L arg (paramTypes ! i) of
             Inl e \<Rightarrow> Inr (Inl (ErrArgument i e))
           | Inr v \<Rightarrow>
               bindE (parse_arguments L paramTypes (Suc i) args) (\<lambda>r. Inr (map_sum id (\<lambda>vs. v # vs) r)))"

definition encodeFunctionCall ::
    "abi_library \<Rightarrow> string \<Rightarrow> string list \<Rightarrow> go_panic + read_error + bytes \<times> bytes" where
  "encodeFunctionCall L functionSig args =
     (case strings_Index functionSig ''('' of
        None \<Rightarrow> Inr (Inl (ErrSignature functionSig))
      | Some parenIndex \<Rightarrow>
          let funcPart = (case strings_Index functionSig '' returns'' of
                            Some idx \<Rightarrow> take idx functionSig | None \<Rightarrow> functionSig);
              methodID = take 4 (al_keccak L (string_bytes funcPart))
          in if args = [] then Inr (Inr (methodID, []))
             else case strings_Index funcPart '')'' of
                    None \<Rightarrow> Inr (Inr (methodID, []))
                  | Some closeParenIndex \<Rightarrow>
                      if closeParenIndex \<le> parenIndex + 1 then Inr (Inr (methodID, []))
                      else
                        let paramString = drop (parenIndex + 1) (take closeParenIndex funcPart);
                            paramTypes = map strings_TrimSpace (strings_Split (CHR '','') paramString)
                        in case find (\<lambda>t. \<not> al_NewType L t) paramTypes of
                             Some t \<Rightarrow> Inr (Inl (ErrParamType t))
                           | None \<Rightarrow>
                               bindE (parse_arguments L paramTypes 0 args) (\<lambda>r. case r of
                                   Inl e \<Rightarrow> Inr (Inl e)
                                 | Inr vs \<Rightarrow> (case al_Pack L paramTypes vs of
                                       Inl e \<Rightarrow> Inr (Inl (ErrPackArguments e))
                                     | Inr encodedArgs \<Rightarrow> Inr (Inr (methodID, encodedArgs)))))"

section \<open>Clients\<close>

record ethClient =
  ec_url :: string
  ec_healthy :: bool

record contractReader =
  cr_clients :: "ethClient list"
  cr_timeoutMs :: int
  cr_maxRetries :: nat

definition contract_NewReader ::
    "(string \<Rightarrow> bool) \<Rightarrow> string list \<Rightarrow> int \<Rightarrow> int \<Rightarrow> string + contractReader" where
  "contract_NewReader dial urls timeoutMs maxRetries =
     (if urls = [] then Inl ''no RPC endpoints provided''
      else
        let clients = map (\<lambda>url. \<lparr>ec_url = url, ec_healthy = True\<rparr>) (filter dial urls) in
        if clients = [] then Inl ''failed to connect to any RPC endpoint''
        else Inr \<lparr>cr_clients = clients, cr_timeoutMs = (if timeoutMs \<le> 0 then 700 else timeoutMs),
                  cr_maxRetries = (if maxRetries \<le> 0 then 1 else nat maxRetries)\<rparr>)"

text \<open>The positions of the clients that are tried.\<close>

definition getHealthyClients :: "contractReader \<Rightarrow> nat list" where
  "getHealthyClients r =
     (let healthy = filter (\<lambda>i. ec_healthy (cr_clients r ! i)) [0..<length (cr_clients r)] in
      if healthy = [] then [0..<length (cr_clients r)] else healthy)"

definition markClientUnhealthy :: "nat \<Rightarrow> contractReader \<Rightarrow> contractReader" where
  "markClientUnhealthy i r = r\<lparr>cr_clients := (cr_clients r)[i := (cr_clients r ! i)\<lparr>ec_healthy := False\<rparr>]\<rparr>"

section \<open>Reading\<close>

record call_env =
  ce_done :: "nat \<Rightarrow> bool"
  ce_call :: "nat \<Rightarrow> string \<Rightarrow> string + bytes"
  ce_sleepDone :: "nat \<Rightarrow> bool"

datatype client_outcome = Answered "read_error + bytes" | Exhausted string nat

text \<open>The attempts on one client: \<open>k\<close> retries are left, \<open>n\<close> is the number of the attempt.\<close>

fun try_client :: "call_env \<Rightarrow> string \<Rightarrow> nat \<Rightarrow> nat \<Rightarrow> client_outcome" where
  "try_client E url k n =
     (if ce_done E n then Answered (Inl ErrContextDone)
      else case ce_call E n url of
             Inr result \<Rightarrow> Answered (if result = [] then Inl ErrEmptyResponse else Inr result)
           | Inl err \<Rightarrow>
               (case k of
                  0 \<Rightarrow> Exhausted err (Suc n)
                | Suc k' \<Rightarrow> if ce_sleepDone E n then Answered (Inl ErrContextDone) else try_client E url k' (Suc n)))"

declare try_client.simps [simp del]

fun clients_loop ::
    "call_env \<Rightarrow> nat list \<Rightarrow> contractReader \<Rightarrow> string option \<Rightarrow> nat \<Rightarrow> (read_error + bytes) \<times> contractReader" where
  "clients_loop E [] r lastErr n = (Inl (ErrAllEndpoints lastErr), r)"
| "clients_loop E (i # is) r lastErr n =
     (case try_client E (ec_url (cr_clients r ! i)) (cr_maxRetries r) n of
        Answered res \<Rightarrow> (res, r)
      | Exhausted err n' \<Rightarrow> clients_loop E is (markClientUnhealthy i r) (Some err) n')"

text \<open>\<open>E\<close> gives the outcomes of the calls for the address and the encoded data.\<close>

definition ReadContract ::
    "abi_library \<Rightarrow> (bytes \<Rightarrow> bytes \<Rightarrow> call_env) \<Rightarrow> contractReader \<Rightarrow> string \<Rightarrow> string \<Rightarrow> string list \<Rightarrow>
     go_panic + (read_error + bytes) \<times> contractReader" where
  "ReadContract L E r address functionSig args =
     bindE (encodeFunctionCall L functionSig args) (\<lambda>enc. case enc of
         Inl e \<Rightarrow> Inr (Inl e, r)
       | Inr (methodID, inputData) \<Rightarrow>
           Inr (clients_loop (E (al_HexToAddress L address) (methodID @ inputData)) (getHealthyClients r) r None 0))"

section \<open>The clients of a reader\<close>

text \<open>The addresses and the settings of a reader stay; a client that is not healthy never becomes so again.\<close>

definition reader_le :: "contractReader \<Rightarrow> contractReader \<Rightarrow> bool" where
  "reader_le r r' \<longleftrightarrow> map ec_url (cr_clients r') = map ec_url (cr_clients r) \<and>
     cr_timeoutMs r' = cr_timeoutMs r \<and> cr_maxRetries r' = cr_maxRetries r \<and>
     (\<forall>i < length (cr_clients r). ec_healthy (cr_clients r' ! i) \<longrightarrow> ec_healthy (cr_clients r ! i))"

lemma reader_le_refl [simp]: "reader_le r r"
  by (simp add: reader_le_def)

lemma reader_le_length: "reader_le r r' \<Longrightarrow> length (cr_clients r') = length (cr_clients r)"
  unfolding reader_le_def by (metis length_map)

lemma reader_le_trans: "reader_le r r' \<Longrightarrow> reader_le r' r'' \<Longrightarrow> reader_le r r''"
  using reader_le_length [of r r'] by (auto simp: reader_le_def)

lemma markClientUnhealthy_le: "reader_le r (markClientUnhealthy i r)"
proof (cases "i < length (cr_clients r)")
  case True
  have "map ec_url ((cr_clients r)[i := (cr_clients r ! i)\<lparr>ec_healthy := False\<rparr>]) = map ec_url (cr_clients r)"
    using True by (simp add: map_update list_update_same_conv)
  then show ?thesis using True by (auto simp: reader_le_def markClientUnhealthy_def nth_list_update)
qed (simp add: reader_le_def markClientUnhealthy_def list_update_beyond)

lemma clients_loop_le: "reader_le r (snd (clients_loop E is r le n))"
proof (induction "is" arbitrary: r le n)
  case (Cons i "is")
  then show ?case using markClientUnhealthy_le reader_le_trans by (fastforce split: client_outcome.splits)
qed simp

lemma ReadContract_cases:
  assumes "ReadContract L E r a f args = Inr (res, r')"
  obtains e where "res = Inl e" and "r' = r"
  | d where "(res, r') = clients_loop (E (al_HexToAddress L a) d) (getHealthyClients r) r None 0"
proof -
  obtain enc where enc: "encodeFunctionCall L f args = Inr enc" using assms by (auto simp: ReadContract_def)
  show thesis
  proof (cases enc)
    case (Inl e)
    then show thesis using assms enc that(1) [of e] by (auto simp: ReadContract_def)
  next
    case (Inr md)
    then show thesis using assms enc that(2) [of "fst md @ snd md"] by (cases md) (simp add: ReadContract_def)
  qed
qed

lemma ReadContract_le:
  assumes "ReadContract L E r a f args = Inr (res, r')"
  shows "reader_le r r'"
  using assms by (rule ReadContract_cases) (use clients_loop_le in \<open>simp, metis snd_conv\<close>)

lemma url_same: "reader_le r r' \<Longrightarrow> i < length (cr_clients r) \<Longrightarrow> ec_url (cr_clients r' ! i) = ec_url (cr_clients r ! i)"
  unfolding reader_le_def by (metis length_map nth_map)

lemma getHealthyClients_range: "i \<in> set (getHealthyClients r) \<Longrightarrow> i < length (cr_clients r)"
  by (auto simp: getHealthyClients_def Let_def split: if_splits)

lemma getHealthyClients_healthy:
  "\<exists>j < length (cr_clients r). ec_healthy (cr_clients r ! j) \<Longrightarrow>
     set (getHealthyClients r) = {i. i < length (cr_clients r) \<and> ec_healthy (cr_clients r ! i)}"
  by (auto simp: getHealthyClients_def Let_def filter_empty_conv)

section \<open>The order of the attempts\<close>

text \<open>
  While the context lives, the attempts on a client are its calls up to the first answer; the reference
  description lists the client of every attempt.
\<close>

definition never_done :: "call_env \<Rightarrow> bool" where
  "never_done E \<longleftrightarrow> (\<forall>n. \<not> ce_done E n \<and> \<not> ce_sleepDone E n)"

definition answer_of :: "bytes \<Rightarrow> read_error + bytes" where
  "answer_of result = (if result = [] then Inl ErrEmptyResponse else Inr result)"

definition answers :: "call_env \<Rightarrow> string \<Rightarrow> nat \<Rightarrow> bool" where
  "answers E url n \<longleftrightarrow> (\<exists>result. ce_call E n url = Inr result)"

lemma try_client_spec:
  assumes "never_done E"
  shows "try_client E url k n =
    (case find (answers E url) [n..<n + Suc k] of
       Some m \<Rightarrow> Answered (answer_of (projr (ce_call E m url)))
     | None \<Rightarrow> Exhausted (projl (ce_call E (n + k) url)) (n + Suc k))"
proof (induction k arbitrary: n)
  case 0
  then show ?case using assms
    by (subst try_client.simps) (auto simp: never_done_def answers_def answer_of_def split: sum.splits)
next
  case (Suc k)
  have find: "find P [n..<n + Suc (Suc k)] = (if P n then Some n else find P [Suc n..<Suc n + Suc k])" for P
    by (subst upt_rec) simp
  show ?case
  proof (cases "ce_call E n url")
    case (Inl err)
    then have "\<not> answers E url n" by (simp add: answers_def)
    then show ?thesis using assms Inl unfolding find
      by (subst try_client.simps) (simp add: never_done_def Suc.IH del: upt_Suc split: option.split)
  next
    case (Inr result)
    then show ?thesis using assms unfolding find
      by (subst try_client.simps) (simp add: never_done_def answers_def answer_of_def)
  qed
qed

definition plan :: "nat \<Rightarrow> nat list \<Rightarrow> nat list" where
  "plan k is = concat (map (replicate (Suc k)) is)"

lemma plan_Cons: "plan k (i # is) = replicate (Suc k) i @ plan k is"
  by (simp add: plan_def)

lemma plan_length [simp]: "length (plan k is) = Suc k * length is"
  by (induction "is") (simp_all add: plan_def)

definition mark_all :: "nat list \<Rightarrow> contractReader \<Rightarrow> contractReader" where
  "mark_all is r = fold markClientUnhealthy is r"

lemma mark_all_le: "reader_le r (mark_all is r)"
proof (induction "is" arbitrary: r)
  case (Cons i "is")
  then show ?case using markClientUnhealthy_le reader_le_trans by (simp add: mark_all_def) blast
qed (simp add: mark_all_def)

text \<open>The url of the attempt \<open>m\<close> of a plan that starts at attempt \<open>n\<close>.\<close>

definition plan_answers :: "call_env \<Rightarrow> contractReader \<Rightarrow> nat list \<Rightarrow> nat \<Rightarrow> nat \<Rightarrow> bool" where
  "plan_answers E r p n j \<longleftrightarrow> answers E (ec_url (cr_clients r ! (p ! j))) (n + j)"

lemma find_cong_upt: "(\<And>j. j < m \<Longrightarrow> P j = Q j) \<Longrightarrow> find P [0..<m] = find Q [0..<m]"
  by (intro find_cong) simp_all

lemma find_append: "find P (xs @ ys) = (case find P xs of None \<Rightarrow> find P ys | Some x \<Rightarrow> Some x)"
  by (induction xs) auto

lemma find_map_upt: "find P [n..<n + m] = map_option (\<lambda>j. n + j) (find (\<lambda>j. P (n + j)) [0..<m])"
  by (induction m) (auto simp: find_append split: option.splits)

lemma upt_split: "[0..<a + b] = [0..<a] @ map (\<lambda>j. a + j) [0..<b]"
  by (induction b) simp_all

lemma find_map: "find P (map f xs) = map_option f (find (P \<circ> f) xs)"
  by (induction xs) auto

lemma clients_loop_spec:
  assumes "never_done E" and "\<forall>i \<in> set is. i < length (cr_clients r)"
  shows "clients_loop E is r le n =
    (let k = cr_maxRetries r; p = plan k is in
     case find (plan_answers E r p n) [0..<length p] of
       Some j \<Rightarrow> (answer_of (projr (ce_call E (n + j) (ec_url (cr_clients r ! (p ! j))))),
                 mark_all (take (j div Suc k) is) r)
     | None \<Rightarrow> (Inl (ErrAllEndpoints (if is = [] then le
                  else Some (projl (ce_call E (n + length p - 1) (ec_url (cr_clients r ! last is)))))),
               mark_all is r))"
  using assms(2)
proof (induction "is" arbitrary: r le n)
  case Nil
  then show ?case by (simp add: plan_def mark_all_def)
next
  case (Cons i "is")
  let ?k = "cr_maxRetries r" let ?url = "ec_url (cr_clients r ! i)" let ?p = "plan ?k is"
  let ?r = "markClientUnhealthy i r"
  have le: "reader_le r ?r" by (rule markClientUnhealthy_le)
  have k: "cr_maxRetries ?r = ?k" using le by (simp add: reader_le_def)
  have urls: "ec_url (cr_clients ?r ! x) = ec_url (cr_clients r ! x)" if "x \<in> set is" for x
    using Cons.prems that by (intro url_same [OF le]) simp
  have pset: "?p ! j \<in> set is" if "j < length ?p" for j
    using nth_mem [OF that] by (auto simp: plan_def)
  have first: "find (plan_answers E r (plan ?k (i # is)) n) [0..<Suc ?k] = find (\<lambda>j. answers E ?url (n + j)) [0..<Suc ?k]"
    by (intro find_cong_upt) (simp add: plan_answers_def plan_Cons nth_append del: replicate_Suc)
  have shift: "plan_answers E r (plan ?k (i # is)) n (Suc ?k + j) = plan_answers E ?r ?p (n + Suc ?k) j" if "j < length ?p" for j
    using urls [OF pset [OF that]] by (simp add: plan_answers_def plan_Cons nth_append ac_simps del: replicate_Suc)
  have rest: "find (\<lambda>j. plan_answers E r (plan ?k (i # is)) n (Suc ?k + j)) [0..<length ?p] =
      find (plan_answers E ?r ?p (n + Suc ?k)) [0..<length ?p]"
    using shift by (intro find_cong_upt)
  have all: "find (plan_answers E r (plan ?k (i # is)) n) [0..<length (plan ?k (i # is))] =
      (case find (\<lambda>j. answers E ?url (n + j)) [0..<Suc ?k] of
         Some j \<Rightarrow> Some j
       | None \<Rightarrow> map_option (\<lambda>j. Suc ?k + j) (find (plan_answers E ?r ?p (n + Suc ?k)) [0..<length ?p]))"
  proof -
    have "length (plan ?k (i # is)) = Suc ?k + length ?p" by simp
    then show ?thesis by (simp only: upt_split find_append first find_map comp_def rest)
  qed
  have tried: "try_client E ?url ?k n =
      (case find (\<lambda>j. answers E ?url (n + j)) [0..<Suc ?k] of
         Some j \<Rightarrow> Answered (answer_of (projr (ce_call E (n + j) ?url)))
       | None \<Rightarrow> Exhausted (projl (ce_call E (n + ?k) ?url)) (n + Suc ?k))"
    unfolding try_client_spec [OF assms(1)] find_map_upt by (simp split: option.splits)
  show ?case
  proof (cases "find (\<lambda>j. answers E ?url (n + j)) [0..<Suc ?k]")
    case (Some j)
    then have "j < Suc ?k" using find_SomeD [OF Some] by auto
    then have "plan ?k (i # is) ! j = i" "j div Suc ?k = 0" by (simp_all add: plan_Cons nth_append del: replicate_Suc)
    then show ?thesis unfolding clients_loop.simps Let_def tried all Some by (simp add: mark_all_def)
  next
    case None
    have IH: "clients_loop E is ?r (Some (projl (ce_call E (n + ?k) ?url))) (n + Suc ?k) =
      (case find (plan_answers E ?r ?p (n + Suc ?k)) [0..<length ?p] of
         Some j \<Rightarrow> (answer_of (projr (ce_call E (n + Suc ?k + j) (ec_url (cr_clients ?r ! (?p ! j))))),
                   mark_all (take (j div Suc ?k) is) ?r)
       | None \<Rightarrow> (Inl (ErrAllEndpoints (if is = [] then Some (projl (ce_call E (n + ?k) ?url))
                    else Some (projl (ce_call E (n + Suc ?k + length ?p - 1) (ec_url (cr_clients ?r ! last is)))))),
                 mark_all is ?r))"
    proof -
      have "\<forall>i \<in> set is. i < length (cr_clients ?r)" using Cons.prems reader_le_length [OF le] by simp
      from Cons.IH [OF this, of "Some (projl (ce_call E (n + ?k) ?url))" "n + Suc ?k"] show ?thesis
        unfolding k Let_def .
    qed
    show ?thesis
    proof (cases "find (plan_answers E ?r ?p (n + Suc ?k)) [0..<length ?p]")
      case (Some j)
      then have j: "j < length ?p" using find_SomeD [OF Some] by auto
      have "plan ?k (i # is) ! (Suc ?k + j) = ?p ! j" "(Suc ?k + j) div Suc ?k = Suc (j div Suc ?k)"
        by (simp_all only: plan_Cons nth_append length_replicate div_add_self1) simp_all
      then show ?thesis unfolding clients_loop.simps Let_def tried all None Some option.case client_outcome.case IH option.map
        using urls [OF pset [OF j]] by (simp add: mark_all_def add.assoc)
    next
      case none: None
      show ?thesis unfolding clients_loop.simps Let_def tried all None none option.case client_outcome.case IH option.map
        using urls [of "last is"] by (auto simp: mark_all_def plan_def add.assoc)
    qed
  qed
qed

section \<open>What a read does\<close>

text \<open>
  C11: while the context lives, a read makes the attempts of its plan in order, every client that is tried getting
  one attempt more than it has retries, and returns the first answer; the clients it gave up on are marked.
  The plan holds the healthy clients, or all of them if none is healthy.
\<close>

theorem ReadContract_first_answer:
  assumes "encodeFunctionCall L f args = Inr (Inr (m, d))" and "never_done (E (al_HexToAddress L a) (m @ d))"
  shows "ReadContract L E r a f args = Inr
    (let call = ce_call (E (al_HexToAddress L a) (m @ d)); k = cr_maxRetries r; is = getHealthyClients r; p = plan k is;
         url = (\<lambda>j. ec_url (cr_clients r ! (p ! j)))
     in case find (\<lambda>j. \<exists>result. call j (url j) = Inr result) [0..<length p] of
          Some j \<Rightarrow> (answer_of (projr (call j (url j))), mark_all (take (j div Suc k) is) r)
        | None \<Rightarrow> (Inl (ErrAllEndpoints (if is = [] then None
             else Some (projl (call (length p - 1) (ec_url (cr_clients r ! last is)))))), mark_all is r))"
proof -
  have "\<forall>i \<in> set (getHealthyClients r). i < length (cr_clients r)" using getHealthyClients_range by blast
  from clients_loop_spec [OF assms(2) this, of None 0] show ?thesis
    unfolding Let_def plan_answers_def answers_def add_0 ReadContract_def assms(1) bindE.simps sum.case prod.case by simp
qed

text \<open>A sequence of reads.\<close>

record read_request =
  rq_env :: "bytes \<Rightarrow> bytes \<Rightarrow> call_env"
  rq_address :: string
  rq_sig :: string
  rq_args :: "string list"

fun run_reads ::
    "abi_library \<Rightarrow> read_request list \<Rightarrow> contractReader \<Rightarrow> go_panic + (read_error + bytes) list \<times> contractReader" where
  "run_reads L [] r = Inr ([], r)"
| "run_reads L (q # qs) r =
     bindE (ReadContract L (rq_env q) r (rq_address q) (rq_sig q) (rq_args q)) (\<lambda>(res, r').
       bindE (run_reads L qs r') (\<lambda>(rs, r''). Inr (res # rs, r'')))"

text \<open>Environments that differ in the answers of one url only.\<close>

definition agree_except :: "string \<Rightarrow> call_env \<Rightarrow> call_env \<Rightarrow> bool" where
  "agree_except url E E' \<longleftrightarrow> ce_done E' = ce_done E \<and> ce_sleepDone E' = ce_sleepDone E \<and>
     (\<forall>n u. u \<noteq> url \<longrightarrow> ce_call E' n u = ce_call E n u)"

definition requests_agree :: "string \<Rightarrow> read_request \<Rightarrow> read_request \<Rightarrow> bool" where
  "requests_agree url q q' \<longleftrightarrow> rq_address q' = rq_address q \<and> rq_sig q' = rq_sig q \<and> rq_args q' = rq_args q \<and>
     (\<forall>a d. agree_except url (rq_env q a d) (rq_env q' a d))"

lemma try_client_agree: "agree_except url E E' \<Longrightarrow> u \<noteq> url \<Longrightarrow> try_client E' u k n = try_client E u k n"
proof (induction k arbitrary: n)
  case 0
  then show ?case by (subst (1 2) try_client.simps) (simp add: agree_except_def split: sum.split)
next
  case (Suc k)
  then show ?case by (subst (1 2) try_client.simps) (simp add: agree_except_def split: sum.split)
qed

lemma clients_loop_agree:
  assumes "agree_except url E E'" and "\<forall>i \<in> set is. i < length (cr_clients r) \<and> ec_url (cr_clients r ! i) \<noteq> url"
  shows "clients_loop E' is r le n = clients_loop E is r le n"
  using assms(2)
proof (induction "is" arbitrary: r le n)
  case (Cons i "is")
  have le: "reader_le r (markClientUnhealthy i r)" by (rule markClientUnhealthy_le)
  have "\<forall>j \<in> set is. j < length (cr_clients (markClientUnhealthy i r)) \<and> ec_url (cr_clients (markClientUnhealthy i r) ! j) \<noteq> url"
    using Cons.prems reader_le_length [OF le] url_same [OF le] by auto
  then show ?case using Cons try_client_agree [OF assms(1)] by (simp split: client_outcome.split)
qed simp

definition some_healthy :: "contractReader \<Rightarrow> bool" where
  "some_healthy r \<longleftrightarrow> (\<exists>j < length (cr_clients r). ec_healthy (cr_clients r ! j))"

lemma some_healthy_le: "reader_le r r' \<Longrightarrow> some_healthy r' \<Longrightarrow> some_healthy r"
  using reader_le_length [of r r'] by (auto simp: some_healthy_def reader_le_def)

lemma ReadContract_agree:
  assumes "requests_agree (ec_url (cr_clients r ! i)) q q'" and "i < length (cr_clients r)"
    and "\<not> ec_healthy (cr_clients r ! i)" and "some_healthy r" and "distinct (map ec_url (cr_clients r))"
  shows "ReadContract L (rq_env q') r (rq_address q') (rq_sig q') (rq_args q') =
    ReadContract L (rq_env q) r (rq_address q) (rq_sig q) (rq_args q)"
proof -
  have "ec_url (cr_clients r ! j) \<noteq> ec_url (cr_clients r ! i)" if "j \<in> set (getHealthyClients r)" for j
  proof -
    have "j < length (cr_clients r)" "j \<noteq> i"
      using that getHealthyClients_healthy [of r] assms(3,4) by (auto simp: some_healthy_def)
    then show ?thesis using nth_eq_iff_index_eq [OF assms(5), of j i] assms(2) by simp
  qed
  then have "\<forall>j \<in> set (getHealthyClients r). j < length (cr_clients r) \<and> ec_url (cr_clients r ! j) \<noteq> ec_url (cr_clients r ! i)"
    using getHealthyClients_range by blast
  from clients_loop_agree [OF _ this] assms(1) show ?thesis
    by (auto simp: ReadContract_def requests_agree_def split: sum.split prod.split intro!: arg_cong2 [of _ _ _ _ bindE])
qed

lemma run_reads_le: "run_reads L qs r = Inr (rs, r') \<Longrightarrow> reader_le r r'"
proof (induction qs arbitrary: r rs)
  case (Cons q qs)
  from Cons.prems obtain res r1 rs1 where
    "ReadContract L (rq_env q) r (rq_address q) (rq_sig q) (rq_args q) = Inr (res, r1)" "run_reads L qs r1 = Inr (rs1, r')"
    by auto
  then show ?case using Cons.IH ReadContract_le reader_le_trans by blast
qed simp

text \<open>
  A client that was given up on is never used again while another client is healthy: whatever it would answer,
  a sequence of reads that leaves some client healthy has the same results. Only when every client has been
  given up on is it called again.
\<close>

theorem unhealthy_client_ignored:
  assumes "i < length (cr_clients r)" and "\<not> ec_healthy (cr_clients r ! i)" and "distinct (map ec_url (cr_clients r))"
    and "list_all2 (requests_agree (ec_url (cr_clients r ! i))) qs qs'"
    and "run_reads L qs r = Inr (rs, r')" and "some_healthy r'"
  shows "run_reads L qs' r = Inr (rs, r')"
  using assms
proof (induction qs arbitrary: r rs qs')
  case (Cons q qs)
  from Cons.prems(5) obtain res r1 rs1 where
    step: "ReadContract L (rq_env q) r (rq_address q) (rq_sig q) (rq_args q) = Inr (res, r1)"
    and rest: "run_reads L qs r1 = Inr (rs1, r')" and rs: "rs = res # rs1" by auto
  obtain q' qs1 where qs': "qs' = q' # qs1" "requests_agree (ec_url (cr_clients r ! i)) q q'"
    "list_all2 (requests_agree (ec_url (cr_clients r ! i))) qs qs1" using Cons.prems(4) by (auto simp: list_all2_Cons1)
  have le: "reader_le r r1" by (rule ReadContract_le [OF step])
  have h1: "some_healthy r1" by (rule some_healthy_le [OF run_reads_le [OF rest] Cons.prems(6)])
  have "ReadContract L (rq_env q') r (rq_address q') (rq_sig q') (rq_args q') = Inr (res, r1)"
    using ReadContract_agree [OF qs'(2) Cons.prems(1,2) some_healthy_le [OF le h1] Cons.prems(3)] step by simp
  moreover have "run_reads L qs1 r1 = Inr (rs1, r')"
  proof (rule Cons.IH)
    show "i < length (cr_clients r1)" using Cons.prems(1) reader_le_length [OF le] by simp
    show "\<not> ec_healthy (cr_clients r1 ! i)" using le Cons.prems(1,2) by (auto simp: reader_le_def)
    show "distinct (map ec_url (cr_clients r1))" using le Cons.prems(3) by (simp add: reader_le_def)
    show "list_all2 (requests_agree (ec_url (cr_clients r1 ! i))) qs qs1"
      using qs'(3) url_same [OF le Cons.prems(1)] by simp
  qed (rule rest, rule Cons.prems(6))
  ultimately show ?case by (simp add: qs'(1) rs)
qed simp

section \<open>Applications\<close>

definition demo_library :: abi_library where
  "demo_library = \<lparr>al_keccak = (\<lambda>bs. bs), al_NewType = (\<lambda>t. t = ''uint256''), al_IsHexAddress = (\<lambda>s. True),
     al_HexToAddress = (\<lambda>s. []), al_Pack = (\<lambda>ts vs. Inr [])\<rparr>"

definition demo_clients :: "bool \<Rightarrow> contractReader" where
  "demo_clients h = \<lparr>cr_clients = [\<lparr>ec_url = ''a'', ec_healthy = h\<rparr>, \<lparr>ec_url = ''b'', ec_healthy = True\<rparr>],
     cr_timeoutMs = 700, cr_maxRetries = 1\<rparr>"

definition demo_calls :: "string \<Rightarrow> bytes \<Rightarrow> bytes \<Rightarrow> call_env" where
  "demo_calls up a d = \<lparr>ce_done = (\<lambda>n. False), ce_call = (\<lambda>n url. if url = up then Inr [7] else Inl ''down''),
     ce_sleepDone = (\<lambda>n. False)\<rparr>"

lemma demo_encode: "encodeFunctionCall demo_library ''rate() returns (uint256)'' [] = Inr (Inr (map of_char ''rate'', []))"
  by (simp add: encodeFunctionCall_def demo_library_def string_bytes_def)

theorem ReadContract_first_answer_witness:
  "ReadContract demo_library (demo_calls ''b'') (demo_clients True) ''0x'' ''rate() returns (uint256)'' [] =
     Inr (Inr [7], demo_clients False)"
proof -
  have "never_done (demo_calls ''b'' (al_HexToAddress demo_library ''0x'') (map of_char ''rate'' @ []))"
    by (simp add: never_done_def demo_calls_def)
  from ReadContract_first_answer [where E = "demo_calls ''b''" and L = demo_library and a = "''0x''", OF demo_encode this, of "demo_clients True"]
  show ?thesis
    by (simp add: demo_calls_def demo_clients_def getHealthyClients_def plan_def mark_all_def
        markClientUnhealthy_def answer_of_def upt_rec)
qed

theorem unhealthy_client_ignored_witness:
  "run_reads demo_library [\<lparr>rq_env = \<lambda>a d. (demo_calls ''b'' a d)\<lparr>ce_call := \<lambda>n url. if url = ''b'' then Inr [7] else if url = ''a'' then Inr [8] else Inl ''down''\<rparr>,
       rq_address = ''0x'', rq_sig = ''rate() returns (uint256)'', rq_args = []\<rparr>] (demo_clients False) =
     Inr ([Inr [7]], demo_clients False)"
proof -
  let ?q = "\<lambda>E. \<lparr>rq_env = E, rq_address = ''0x'', rq_sig = ''rate() returns (uint256)'', rq_args = []\<rparr>"
  let ?E = "\<lambda>a d. (demo_calls ''b'' a d)\<lparr>ce_call := \<lambda>n url. if url = ''b'' then Inr [7] else if url = ''a'' then Inr [8] else Inl ''down''\<rparr>"
  have run: "run_reads demo_library [?q (demo_calls ''b'')] (demo_clients False) = Inr ([Inr [7]], demo_clients False)"
    by (simp add: ReadContract_def demo_encode demo_calls_def demo_clients_def getHealthyClients_def try_client.simps upt_rec)
  show ?thesis
  proof (rule unhealthy_client_ignored)
    show "0 < length (cr_clients (demo_clients False))" "\<not> ec_healthy (cr_clients (demo_clients False) ! 0)"
      "distinct (map ec_url (cr_clients (demo_clients False)))" by (simp_all add: demo_clients_def)
    show "list_all2 (requests_agree (ec_url (cr_clients (demo_clients False) ! 0))) [?q (demo_calls ''b'')] [?q ?E]"
      by (simp add: requests_agree_def agree_except_def demo_calls_def demo_clients_def)
    show "some_healthy (demo_clients False)"
      unfolding some_healthy_def by (rule exI [of _ 1]) (simp add: demo_clients_def)
  qed (rule run)
qed

end
