(* ===== verification/ContractHandlers.thy ===== *)
theory ContractHandlers
  imports GoMath StaticMarkets ContractReader ServerPrices
begin

text \<open>
  The handlers of contract endpoints (\<open>custom_query/contracts/contract_handlers\<close>): each reads a rate from a contract
  and multiplies it by the cached median of a market, or takes a value in 18 decimals as it is. The times of the clock
  are those at the start of the handler, in the check of the data's age, and when the cache is read. Output is left out.
\<close>

section \<open>Helpers\<close>

record handler_clock =
  hc_fetchedAt :: gotime
  hc_checkedAt :: gotime
  hc_now :: gotime

datatype handler_error =
    HContract read_error
  | HDataAge duration
  | HResultLength nat
  | HNoMarketParam uint32
  | HNoPrice uint32

text \<open>The age of data that is too old.\<close>

definition checkDataAge :: "gotime \<Rightarrow> gotime \<Rightarrow> duration \<Rightarrow> duration option" where
  "checkDataAge now dataTime maxDataAge =
     (if maxDataAge \<le> 0 then None
      else let age = time_Sub now dataTime in if age > maxDataAge then Some age else None)"

definition read_fresh ::
    "abi_library \<Rightarrow> (bytes \<Rightarrow> bytes \<Rightarrow> call_env) \<Rightarrow> contractReader \<Rightarrow> handler_clock \<Rightarrow> duration \<Rightarrow>
     string \<Rightarrow> string \<Rightarrow> string list \<Rightarrow> go_panic + (handler_error + bytes) \<times> contractReader" where
  "read_fresh L E r clk maxDataAge address functionSig args =
     bindE (ReadContract L E r address functionSig args) (\<lambda>(res, r').
       Inr (case res of
              Inl e \<Rightarrow> Inl (HContract e)
            | Inr result \<Rightarrow> (case checkDataAge (hc_checkedAt clk) (hc_fetchedAt clk) maxDataAge of
                  Some age \<Rightarrow> Inl (HDataAge age) | None \<Rightarrow> Inr result), r'))"

definition handle_result ::
    "(bytes \<Rightarrow> handler_error + float64) \<Rightarrow> go_panic + (handler_error + bytes) \<times> contractReader \<Rightarrow>
     go_panic + (handler_error + float64) \<times> contractReader" where
  "handle_result f m = bindE m (\<lambda>(res, r). Inr (bindE res f, r))"

definition cached_price :: "uint32 \<Rightarrow> MarketToExchangePrices \<Rightarrow> gotime \<Rightarrow> handler_error + MarketParam \<times> uint64" where
  "cached_price marketId priceCache now =
     (case map_of StaticMarketParamsConfig marketId of
        None \<Rightarrow> Inl (HNoMarketParam marketId)
      | Some marketParam \<Rightarrow>
          (case map_of (GetValidMedianPrices priceCache [marketParam] now) marketId of
             None \<Rightarrow> Inl (HNoPrice marketId) | Some price \<Rightarrow> Inr (marketParam, price)))"

text \<open>The rate has 18 decimals, the price as many as the exponent says.\<close>

definition rate_times_price :: "uint32 \<Rightarrow> MarketToExchangePrices \<Rightarrow> gotime \<Rightarrow> bytes \<Rightarrow> handler_error + float64" where
  "rate_times_price marketId priceCache now result =
     bindE (cached_price marketId priceCache now) (\<lambda>(marketParam, price).
       let v = be_value result * uint price;
           totalDecimals = 18 + - mp_Exponent marketParam
       in Inr (big_quotient v (big_Exp10 (sint totalDecimals))))"

definition value_in_usd_wei :: "bytes \<Rightarrow> float64" where
  "value_in_usd_wei bs = big_quotient (be_value bs) (big_Exp10 18)"

section \<open>The handlers\<close>

definition KING_CONTRACT where "KING_CONTRACT = ''0x8F08B70456eb22f6109F57b8fafE862ED28E6040''"
definition RETH_CONTRACT where "RETH_CONTRACT = ''0xae78736Cd615f374D3085123A210448E74Fc6393''"
definition SUSDS_CONTRACT where "SUSDS_CONTRACT = ''0xa3931d71877C0E7a3148CB7Eb4463524FEc27fbD''"
definition WSTETH_CONTRACT where "WSTETH_CONTRACT = ''0x7f39C581F595B53c5cb19bD0b3f8dA6c935E2Ca0''"
definition YIELDFI_YUSD_CONTRACT where "YIELDFI_YUSD_CONTRACT = ''0x19Ebd191f7A24ECE672ba13A302212b5eF7F35cb''"
definition YIELDFI_VYUSD_CONTRACT where "YIELDFI_VYUSD_CONTRACT = ''0x2e3c5e514eef46727de1fe44618027a9b70d92fc''"
definition SUSDE_CONTRACT where "SUSDE_CONTRACT = ''0x9D39A5DE30e57443BfF2A8307A4256c8797A3497''"
definition YIELDFI_YETH_CONTRACT where "YIELDFI_YETH_CONTRACT = ''0x8464f6ecae1ea58ec816c13f964030eab8ec123a''"
definition SFRXUSD_CONTRACT where "SFRXUSD_CONTRACT = ''0xcf62F905562626CfcDD2261162a51fd02Fc9c5b6''"

definition one_token :: "string list" where
  "one_token = [''1000000000000000000'']"

type_synonym contract_handler =
  "abi_library \<Rightarrow> (bytes \<Rightarrow> bytes \<Rightarrow> call_env) \<Rightarrow> contractReader \<Rightarrow> MarketToExchangePrices \<Rightarrow> handler_clock \<Rightarrow> duration \<Rightarrow>
   go_panic + (handler_error + float64) \<times> contractReader"

definition KingHandler_FetchValue :: contract_handler where
  "KingHandler_FetchValue L E r priceCache clk maxDataAge =
     handle_result (\<lambda>result.
       if length result < 64 then Inl (HResultLength (length result))
       else Inr (value_in_usd_wei (drop 32 (take 64 result))))
     (read_fresh L E r clk maxDataAge KING_CONTRACT ''fairValueOf(uint256)'' one_token)"

definition RocketPoolETHHandler_FetchValue :: contract_handler where
  "RocketPoolETHHandler_FetchValue L E r priceCache clk maxDataAge =
     handle_result (rate_times_price ETHUSD_ID priceCache (hc_now clk))
     (read_fresh L E r clk maxDataAge RETH_CONTRACT ''getExchangeRate() returns (uint256)'' [])"

definition SUSDEUSD_FetchValue :: contract_handler where
  "SUSDEUSD_FetchValue L E r priceCache clk maxDataAge =
     handle_result (rate_times_price USDEUSD_ID priceCache (hc_now clk))
     (read_fresh L E r clk maxDataAge SUSDE_CONTRACT ''convertToAssets(uint256) returns (uint256)'' one_token)"

definition SUSDSHandler_FetchValue :: contract_handler where
  "SUSDSHandler_FetchValue L E r priceCache clk maxDataAge =
     handle_result (\<lambda>result. Inr (value_in_usd_wei result))
     (read_fresh L E r clk maxDataAge SUSDS_CONTRACT ''convertToAssets(uint256) returns (uint256)'' one_token)"

definition WSTETHHandler_FetchValue :: contract_handler where
  "WSTETHHandler_FetchValue L E r priceCache clk maxDataAge =
     handle_result (\<lambda>result.
       bindE (cached_price STETHUSD_ID priceCache (hc_now clk)) (\<lambda>(stEthUsdMarketParam, stEthusdPrice).
         let v = be_value result * uint stEthusdPrice div big_Exp10 18;
             scaleFactor = math_Pow_10 (sint (mp_Exponent stEthUsdMarketParam))
         in Inr (f64_mul (FFin (of_nat (float64_of_uint64 (word_of_int v)))) scaleFactor)))
     (read_fresh L E r clk maxDataAge WSTETH_CONTRACT ''getStETHByWstETH(uint256) returns (uint256)'' one_token)"

definition YieldFiYeth_FetchValue :: contract_handler where
  "YieldFiYeth_FetchValue L E r priceCache clk maxDataAge =
     handle_result (rate_times_price ETHUSD_ID priceCache (hc_now clk))
     (read_fresh L E r clk maxDataAge YIELDFI_YETH_CONTRACT ''exchangeRate() returns (uint256)'' [])"

definition YieldFiYusd_FetchValue :: contract_handler where
  "YieldFiYusd_FetchValue L E r priceCache clk maxDataAge =
     handle_result (rate_times_price USDCUSD_ID priceCache (hc_now clk))
     (read_fresh L E r clk maxDataAge YIELDFI_YUSD_CONTRACT ''exchangeRateScaled() returns (uint256)'' [])"

definition YieldFiVyusd_FetchValue :: contract_handler where
  "YieldFiVyusd_FetchValue L E r priceCache clk maxDataAge =
     handle_result (rate_times_price USDCUSD_ID priceCache (hc_now clk))
     (read_fresh L E r clk maxDataAge YIELDFI_VYUSD_CONTRACT ''exchangeRateScaled() returns (uint256)'' [])"

definition contract_HandlerRegistry :: "(string, contract_handler) gomap" where
  "contract_HandlerRegistry =
     [(''wsteth_handler'', WSTETHHandler_FetchValue),
      (''susds_handler'', SUSDSHandler_FetchValue),
      (''reth_handler'', RocketPoolETHHandler_FetchValue),
      (''king_handler'', KingHandler_FetchValue),
      (''yieldfi_yeth_handler'', YieldFiYeth_FetchValue),
      (''yieldfi_yusd_handler'', YieldFiYusd_FetchValue),
      (''yieldfi_vyusd_handler'', YieldFiVyusd_FetchValue),
      (''susdeusd_handler'', SUSDEUSD_FetchValue)]"

definition contract_GetHandler :: "string \<Rightarrow> string + contract_handler" where
  "contract_GetHandler name =
     (case map_of contract_HandlerRegistry name of
        None \<Rightarrow> Inl (''unknown contract handler: '' @ name) | Some h \<Rightarrow> Inr h)"

section \<open>Calls of the handlers do not panic\<close>

lemmas contract_handler_defs =
  KingHandler_FetchValue_def RocketPoolETHHandler_FetchValue_def SUSDEUSD_FetchValue_def SUSDSHandler_FetchValue_def
  WSTETHHandler_FetchValue_def YieldFiYeth_FetchValue_def YieldFiYusd_FetchValue_def YieldFiVyusd_FetchValue_def

text \<open>An encoding that succeeds in finding a type for each argument is not a panic.\<close>

lemma one_uint256_fits: "\<exists>x. parse_arguments L [''uint256''] 0 one_token = Inr x"
  by (auto simp: one_token_def parseArgument_def split: option.split)

lemma encode_no_args: "\<exists>x. encodeFunctionCall L sig [] = Inr x"
  by (simp add: encodeFunctionCall_def Let_def split: option.split)

lemma encode_uint256:
  "\<exists>x. encodeFunctionCall L ''convertToAssets(uint256) returns (uint256)'' one_token = Inr x"
  "\<exists>x. encodeFunctionCall L ''getStETHByWstETH(uint256) returns (uint256)'' one_token = Inr x"
  "\<exists>x. encodeFunctionCall L ''fairValueOf(uint256)'' one_token = Inr x"
proof -
  have ne: "one_token \<noteq> []" by (simp add: one_token_def)
  obtain x where x: "parse_arguments L [''uint256''] 0 one_token = Inr x" using one_uint256_fits by blast
  have trim: "strings_TrimSpace ''uint256'' = ''uint256''" by (simp add: strings_TrimSpace_def is_space_def)
  show "\<exists>x. encodeFunctionCall L ''convertToAssets(uint256) returns (uint256)'' one_token = Inr x"
    "\<exists>x. encodeFunctionCall L ''getStETHByWstETH(uint256) returns (uint256)'' one_token = Inr x"
    "\<exists>x. encodeFunctionCall L ''fairValueOf(uint256)'' one_token = Inr x"
    using x by (simp_all add: encodeFunctionCall_def ne trim split: sum.split)
qed

lemma ReadContract_no_panic:
  assumes "\<exists>x. encodeFunctionCall L sig args = Inr x"
  obtains res r' where "ReadContract L E r a sig args = Inr (res, r')"
proof -
  obtain x where "encodeFunctionCall L sig args = Inr x" using assms by blast
  then have "\<exists>p. ReadContract L E r a sig args = Inr p" by (cases x) (auto simp: ReadContract_def)
  then show ?thesis using that by auto
qed

lemma handler_no_panic:
  assumes "\<exists>x. encodeFunctionCall L sig args = Inr x"
  shows "\<exists>res r'. handle_result f (read_fresh L E r clk maxDataAge a sig args) = Inr (res, r')"
proof -
  obtain res r' where "ReadContract L E r a sig args = Inr (res, r')" by (rule ReadContract_no_panic [OF assms])
  then show ?thesis by (simp add: handle_result_def read_fresh_def)
qed

text \<open>
  No handler of the registry panics, whatever the ABI library, the endpoints, the cache and the clock do: each hands
  the encoder as many arguments as its signature has types.
\<close>

theorem contract_handlers_no_panic:
  "contract_GetHandler name = Inr h \<Longrightarrow> \<exists>res r'. h L E r priceCache clk maxDataAge = Inr (res, r')"
proof -
  assume "contract_GetHandler name = Inr h"
  then have "h \<in> set (map snd contract_HandlerRegistry)"
    by (force simp: contract_GetHandler_def split: option.splits dest: map_of_SomeD)
  then show ?thesis
    by (auto simp: contract_HandlerRegistry_def contract_handler_defs intro!: handler_no_panic encode_no_args encode_uint256)
qed

section \<open>The values\<close>

lemma be_value_bounds:
  "\<forall>b \<in> set bs. b < 256 \<Longrightarrow> 0 \<le> be_value bs \<and> be_value bs < 256 ^ length bs"
proof (induction bs rule: rev_induct)
  case (snoc b bs)
  then have "int b < 256" "0 \<le> be_value bs" "be_value bs + 1 \<le> 256 ^ length bs" by simp_all
  then show ?case by simp
qed (simp add: be_value_def)

lemma be_value_word:
  assumes "\<forall>b \<in> set bs. b < 256" and "length bs \<le> 32"
  shows "0 \<le> be_value bs" and "be_value bs < 2 ^ 256"
proof -
  have "be_value bs < 256 ^ length bs" "0 \<le> be_value bs" using be_value_bounds [OF assms(1)] by simp_all
  moreover have "(256 :: int) ^ length bs \<le> 256 ^ 32" using assms(2) by (intro power_increasing) simp_all
  ultimately show "0 \<le> be_value bs" "be_value bs < 2 ^ 256" by simp_all
qed

text \<open>The markets by whose median a handler multiplies a rate, and the call that gives the rate.\<close>

definition rate_handlers :: "(contract_handler \<times> string \<times> string \<times> string list \<times> uint32) list" where
  "rate_handlers =
     [(RocketPoolETHHandler_FetchValue, RETH_CONTRACT, ''getExchangeRate() returns (uint256)'', [], ETHUSD_ID),
      (SUSDEUSD_FetchValue, SUSDE_CONTRACT, ''convertToAssets(uint256) returns (uint256)'', one_token, USDEUSD_ID),
      (YieldFiYeth_FetchValue, YIELDFI_YETH_CONTRACT, ''exchangeRate() returns (uint256)'', [], ETHUSD_ID),
      (YieldFiYusd_FetchValue, YIELDFI_YUSD_CONTRACT, ''exchangeRateScaled() returns (uint256)'', [], USDCUSD_ID),
      (YieldFiVyusd_FetchValue, YIELDFI_VYUSD_CONTRACT, ''exchangeRateScaled() returns (uint256)'', [], USDCUSD_ID)]"

lemma rate_handler_result:
  assumes "(h, address, sig, args, market) \<in> set rate_handlers"
  shows "h L E r priceCache clk maxDataAge = handle_result (rate_times_price market priceCache (hc_now clk))
    (read_fresh L E r clk maxDataAge address sig args)"
    and "\<exists>p. map_of StaticMarketParamsConfig market = Some p \<and> mp_Exponent p = - 6"
  using assms by (auto simp: rate_handlers_def contract_handler_defs static_lookup)

lemma rate_times_price_near:
  assumes "cached_price market priceCache now = Inr (p, price)" and "mp_Exponent p = - 6" and "0 < price"
    and "\<forall>b \<in> set result. b < 256" "length result \<le> 32" "0 < be_value result"
  obtains y where "rate_times_price market priceCache now result = Inr (FFin y)"
    and "near 52 (of_int (be_value result) * of_int (uint price) / 10 ^ 24) y" and "0 < y"
proof -
  let ?v = "be_value result * uint price"
  have price: "1 \<le> uint price" "uint price < 2 ^ 64"
    using assms(3) uint_lt2p [of price] by (simp_all add: word_less_def)
  have "be_value result * uint price \<le> 2 ^ 256 * 2 ^ 64"
    using be_value_word(2) [OF assms(4,5)] price(2) assms(6) by (intro mult_mono) simp_all
  also have "\<dots> < (2 :: int) ^ 900" by simp
  finally have v: "?v < 2 ^ 900" .
  have "1 * 1 \<le> ?v" using price(1) assms(6) by (intro mult_mono) simp_all
  then have v1: "1 \<le> ?v" by simp
  obtain y where y: "big_quotient ?v (10 ^ 24) = FFin y" "near 52 (of_int ?v / of_int (10 ^ 24)) y" "0 < y"
    by (rule big_quotient_near [OF v1 v, of "10 ^ 24"]) simp_all
  have "rate_times_price market priceCache now result = Inr (big_quotient ?v (10 ^ 24))"
    by (simp add: rate_times_price_def assms(1,2) big_Exp10_def)
  then show ?thesis using that y by simp
qed


text \<open>
  The handler of wstETH cuts the product down to an integer of 64 bits before it scales it: the value is that of the
  lowest 64 bits of the product's whole part, up to one part in \<open>2 ^ 50\<close>.
\<close>

lemma near_one_sided: "near k x y \<Longrightarrow> 1 \<le> k \<Longrightarrow> 0 < x \<Longrightarrow> 0 < y"
  using near_pos [of k x y] by linarith

theorem wsteth_truncates:
  assumes "ReadContract L E r WSTETH_CONTRACT ''getStETHByWstETH(uint256) returns (uint256)'' one_token = Inr (Inr result, r')"
    and "checkDataAge (hc_checkedAt clk) (hc_fetchedAt clk) maxDataAge = None"
    and "cached_price STETHUSD_ID priceCache (hc_now clk) = Inr (p, price)"
    and "v = be_value result * uint price div 10 ^ 18" and "0 < v mod 2 ^ 64"
  shows "\<exists>y. WSTETHHandler_FetchValue L E r priceCache clk maxDataAge = Inr (Inr (FFin y), r') \<and> 0 < y \<and>
    near 50 (of_int (v mod 2 ^ 64) / 10 ^ 6) y"
proof -
  define w where "w = (word_of_int v :: uint64)"
  have uw: "uint w = v mod 2 ^ 64" by (simp add: w_def uint_word_of_int)
  define a where "a = (of_nat (float64_of_uint64 w) :: rat)"
  define c where "c = (4722366482869645 / 4722366482869645213696 :: rat)"
  have p: "mp_Exponent p = - 6" using assms(3) by (auto simp: cached_price_def static_lookup split: option.splits)
  have pos: "1 \<le> (of_int (uint w) :: rat)" "(of_int (uint w) :: rat) < 2 ^ 64"
    using assms(5) uw uint_lt2p [of w] of_int_less_iff [of "uint w" "2 ^ 64", where ?'a = rat] by simp_all
  have "2 ^ 53 * \<bar>int (float64_of_uint64 w) - uint w\<bar> \<le> uint w" by (rule float64_near)
  then have "of_int (2 ^ 53 * \<bar>int (float64_of_uint64 w) - uint w\<bar>) \<le> (of_int (uint w) :: rat)"
    unfolding of_int_le_iff .
  then have na: "near 53 (of_int (uint w)) a" using pos by (simp add: near_def a_def)
  have a: "1 / 2 \<le> a" "a \<le> 2 ^ 65" using near_pos [OF na] pos by simp_all
  have nc: "near 53 (1 / 10 ^ 6) c" by (simp add: near_def c_def)
  have "near 52 (of_int (uint w) * (1 / 10 ^ 6)) (of_int (uint w) * c)"
    using near_mono [OF near_scale [OF nc, of "of_int (uint w)"], of 52] by (simp add: mult.commute)
  moreover have "near 53 (of_int (uint w) * c) (a * c)" by (rule near_scale [OF na])
  ultimately have nac: "near 51 (of_int (uint w) * (1 / 10 ^ 6)) (a * c)" using near_trans [of 51] by simp
  have c: "1 / 10 ^ 7 \<le> c" "c \<le> 1" by (simp_all add: c_def)
  have "1 / 2 * (1 / 10 ^ 7) \<le> a * c" using a(1) c(1) by (intro mult_mono) simp_all
  moreover have "pow2 (- 1022) \<le> 1 / 2 * (1 / 10 ^ 7)" by (simp add: pow2_def)
  ultimately have lo: "pow2 (- 1022) \<le> a * c" by (rule order_trans [rotated])
  have "a * c \<le> 2 ^ 65 * 1" using a c by (intro mult_mono) simp_all
  also have "\<dots> < pow2 1000" by (simp add: pow2_def)
  finally have hi: "a * c < pow2 1000" .
  obtain y where y: "float64_round (a * c) = FFin y" "near 53 (a * c) y" "0 < y" by (rule float64_round_near [OF lo hi])
  have "near 50 (of_int (uint w) * (1 / 10 ^ 6)) y"
    using near_trans [of 50, OF _ near_mono [OF y(2)]] nac by simp
  moreover have "WSTETHHandler_FetchValue L E r priceCache clk maxDataAge = Inr (Inr (float64_round (a * c)), r')"
    using assms(1,2,3) unfolding assms(4) by (simp add: WSTETHHandler_FetchValue_def handle_result_def read_fresh_def big_Exp10_def p math_Pow_10_m6
        a_def c_def w_def assms(4))
  ultimately show ?thesis using y uw by (intro exI [of _ y]) simp
qed

section \<open>Applications\<close>

definition demo_prices :: MarketToExchangePrices where
  "demo_prices = \<lparr>mte_marketToExchangePrices =
     [(9, \<lparr>etp_marketId = 9, etp_exchangeToPriceTimestamp = [(''Kraken'', \<lparr>pt_LastUpdateTime = 5, pt_Price = 1000000\<rparr>)]\<rparr>),
      (8, \<lparr>etp_marketId = 8, etp_exchangeToPriceTimestamp = [(''Okx'', \<lparr>pt_LastUpdateTime = 5, pt_Price = 2000000\<rparr>)]\<rparr>)],
     mte_maxPriceAge = 10\<rparr>"

definition demo_clock :: handler_clock where
  "demo_clock = \<lparr>hc_fetchedAt = 5, hc_checkedAt = 6, hc_now = 6\<rparr>"

lemma demo_cached:
  "cached_price USDEUSD_ID demo_prices 6 = Inr (static_USDEUSD, 1000000)"
  "cached_price STETHUSD_ID demo_prices 6 = Inr (static_STETHUSD, 2000000)"
  unfolding cached_price_def static_lookup option.case
  by (simp_all add: demo_prices_def GetValidMedianPrices_def market_ids
      ExchangeToPrice_GetValidPrices_def getValidPricesAndLatestUpdate_def PriceTimestamp_GetValidPrice_def
      Median_def go_defs cache_defs)

definition demo_rate :: bytes where
  "demo_rate = [13, 224, 182, 179, 167, 100, 0, 0]"

lemma demo_rate_value: "be_value demo_rate = 10 ^ 18"
  by (simp add: demo_rate_def be_value_def)

definition rate_calls :: "bytes \<Rightarrow> bytes \<Rightarrow> call_env" where
  "rate_calls a d = \<lparr>ce_done = (\<lambda>n. False), ce_call = (\<lambda>n url. if url = ''a'' then Inr demo_rate else Inl ''down''),
     ce_sleepDone = (\<lambda>n. False)\<rparr>"

lemma demo_read:
  assumes "\<exists>x. encodeFunctionCall demo_library sig args = Inr (Inr x)"
  shows "ReadContract demo_library rate_calls (demo_clients True) a sig args = Inr (Inr demo_rate, demo_clients True)"
proof -
  have "getHealthyClients (demo_clients True) = [0, 1]" by (simp add: getHealthyClients_def demo_clients_def upt_rec)
  moreover have "try_client (rate_calls b d) ''a'' k 0 = Answered (Inr demo_rate)" for b d k
    by (subst try_client.simps) (simp add: rate_calls_def demo_rate_def)
  ultimately show ?thesis using assms by (auto simp: ReadContract_def demo_clients_def)
qed

lemma demo_encodes:
  "\<exists>x. encodeFunctionCall demo_library ''convertToAssets(uint256) returns (uint256)'' one_token = Inr (Inr x)"
  "\<exists>x. encodeFunctionCall demo_library ''getStETHByWstETH(uint256) returns (uint256)'' one_token = Inr (Inr x)"
  by (simp_all add: encodeFunctionCall_def one_token_def demo_library_def strings_TrimSpace_def is_space_def
      parseArgument_def big_SetString10_def trim_sign_def parse_digits_def digit_of_char_def)

theorem contract_handlers_no_panic_witness:
  "\<exists>res r'. KingHandler_FetchValue demo_library rate_calls (demo_clients True) demo_prices demo_clock 0 = Inr (res, r')"
  by (rule contract_handlers_no_panic [of "''king_handler''"])
    (simp add: contract_GetHandler_def contract_HandlerRegistry_def)


theorem wsteth_truncates_witness:
  "\<exists>y. WSTETHHandler_FetchValue demo_library rate_calls (demo_clients True) demo_prices demo_clock 10 =
     Inr (Inr (FFin y), demo_clients True) \<and> 0 < y \<and> near 50 2 y"
  using wsteth_truncates [OF demo_read [OF demo_encodes(2)], of demo_clock 10 demo_prices static_STETHUSD 2000000 2000000]
  by (simp add: demo_rate_value demo_cached demo_clock_def checkDataAge_def time_Sub_def maxDuration_int64_def
      minDuration_int64_def)

end
