(* ===== verification/RpcReader.thy ===== *)
theory RpcReader
  imports Exchanges ContractReader GoMath "HOL-Library.List_Lexorder" "HOL-Library.Char_ord"
begin

text \<open>
  Fetching JSON documents for custom queries (\<open>custom_query/rpc/rpc_reader\<close>): the retries of a fetch, the extraction
  of a value by a path, the key of the cache, and the cache in front of the fetches with its coalescing of identical
  requests. HTTP is a parameter, its outcomes are numbered by the attempt. Logging and metrics are left out.
\<close>

section \<open>Readers\<close>

record rpcReader =
  rr_baseURL :: string
  rr_method :: string
  rr_timeoutMs :: int
  rr_maxRetries :: nat
  rr_Headers :: "(string, string) gomap"
  rr_ResponsePath :: "string list"
  rr_Query :: string
  rr_Params :: "(string, string) gomap option"

definition cloneStringMap :: "(string, string) gomap \<Rightarrow> (string, string) gomap option" where
  "cloneStringMap m = (if m = [] then None else Some m)"

definition rpc_NewReader ::
    "string \<Rightarrow> string \<Rightarrow> string \<Rightarrow> (string, string) gomap \<Rightarrow> string list \<Rightarrow> int \<Rightarrow> (string, string) gomap \<Rightarrow> int \<Rightarrow>
     string + rpcReader" where
  "rpc_NewReader url method query headers responsePath timeoutMs params maxRetries =
     (if url = [] then Inl ''no RPC endpoint provided''
      else Inr \<lparr>rr_baseURL = url, rr_method = method, rr_timeoutMs = (if timeoutMs \<le> 0 then 1000 else timeoutMs),
                rr_maxRetries = (if maxRetries \<le> 0 then 1 else nat maxRetries), rr_Headers = headers,
                rr_ResponsePath = responsePath, rr_Query = query, rr_Params = cloneStringMap params\<rparr>)"

text \<open>A parameter that is not set, or a nil map, reads as the empty string.\<close>

definition param :: "rpcReader \<Rightarrow> string \<Rightarrow> string" where
  "param r k = (case rr_Params r of Some m \<Rightarrow> (case map_of m k of Some v \<Rightarrow> v | None \<Rightarrow> []) | None \<Rightarrow> [])"

section \<open>One fetch\<close>

text \<open>What a failed request tells: its text, whether it is a missed deadline, whether it is a network timeout.\<close>

record fetch_error =
  fe_text :: string
  fe_deadline :: bool
  fe_timeout :: bool

datatype http_result =
    NoRequest fetch_error
  | NoResponse fetch_error
  | Response nat "fetch_error + body"

definition wrap_error :: "string \<Rightarrow> fetch_error \<Rightarrow> fetch_error" where
  "wrap_error s e = e\<lparr>fe_text := s @ fe_text e\<rparr>"

definition attemptFetch :: "http_result \<Rightarrow> fetch_error + body" where
  "attemptFetch h =
     (case h of
        NoRequest e \<Rightarrow> Inl (wrap_error ''failed to create request: '' e)
      | NoResponse e \<Rightarrow> Inl (wrap_error ''request failed: '' e)
      | Response status b \<Rightarrow>
          if status \<noteq> 200 then
            Inl \<lparr>fe_text = ''received non-OK response code: '' @ decimal_digits status, fe_deadline = False, fe_timeout = False\<rparr>
          else (case b of Inl e \<Rightarrow> Inl (wrap_error ''error reading response body: '' e) | Inr doc \<Rightarrow> Inr doc))"

definition isTransientRPCError :: "fetch_error \<Rightarrow> bool" where
  "isTransientRPCError e =
     (if fe_deadline e then False
      else if fe_timeout e then False
      else if strings_Contains (fe_text e) ''context deadline exceeded'' \<or>
              strings_Contains (fe_text e) ''Client.Timeout exceeded'' \<or> strings_Contains (fe_text e) ''timeout'' then False
      else strings_Contains (fe_text e) ''connection reset'' \<or> strings_Contains (fe_text e) ''429'' \<or>
           strings_Contains (fe_text e) ''502'' \<or> strings_Contains (fe_text e) ''503'' \<or> strings_Contains (fe_text e) ''504'')"

definition hasRetryBudget :: "gotime option \<Rightarrow> gotime \<Rightarrow> bool" where
  "hasRetryBudget deadline now =
     (case deadline of None \<Rightarrow> True | Some d \<Rightarrow> time_Sub d now \<ge> 900000000)"

record fetch_env =
  en_done :: "nat \<Rightarrow> bool"
  en_http :: "nat \<Rightarrow> http_result"
  en_sleepDone :: "nat \<Rightarrow> bool"
  en_deadline :: "gotime option"
  en_now :: "nat \<Rightarrow> gotime"

datatype rpc_error = RpcContextDone | RpcAllFailed fetch_error

text \<open>Attempt \<open>n\<close>, with \<open>k\<close> retries left.\<close>

fun fetch_loop :: "fetch_env \<Rightarrow> nat \<Rightarrow> nat \<Rightarrow> rpc_error + body" where
  "fetch_loop E k n =
     (if en_done E n then Inl RpcContextDone
      else if n > 0 \<and> en_sleepDone E n then Inl RpcContextDone
      else case attemptFetch (en_http E n) of
             Inr doc \<Rightarrow> Inr doc
           | Inl err \<Rightarrow>
               if k = 0 \<or> \<not> isTransientRPCError err \<or> \<not> hasRetryBudget (en_deadline E) (en_now E n)
               then Inl (RpcAllFailed err)
               else fetch_loop E (k - 1) (Suc n))"

declare fetch_loop.simps [simp del]

definition fetchWithRetry :: "fetch_env \<Rightarrow> rpcReader \<Rightarrow> rpc_error + body" where
  "fetchWithRetry E r = fetch_loop E (rr_maxRetries r) 0"

text \<open>An attempt is started, and a failed attempt is followed by another one.\<close>

definition started :: "fetch_env \<Rightarrow> nat \<Rightarrow> bool" where
  "started E i \<longleftrightarrow> \<not> en_done E i \<and> (i > 0 \<longrightarrow> \<not> en_sleepDone E i)"

definition retried :: "fetch_env \<Rightarrow> nat \<Rightarrow> bool" where
  "retried E i \<longleftrightarrow>
     (case attemptFetch (en_http E i) of
        Inl err \<Rightarrow> isTransientRPCError err \<and> hasRetryBudget (en_deadline E) (en_now E i)
      | Inr _ \<Rightarrow> False)"

lemma fetch_loop_step:
  "fetch_loop E k n = Inr doc \<longleftrightarrow>
     started E n \<and> (attemptFetch (en_http E n) = Inr doc \<or> k > 0 \<and> retried E n \<and> fetch_loop E (k - 1) (Suc n) = Inr doc)"
  by (subst fetch_loop.simps) (auto simp: started_def retried_def split: sum.splits)

lemma retried_no_answer: "retried E n \<Longrightarrow> attemptFetch (en_http E n) \<noteq> Inr doc"
  by (auto simp: retried_def)

lemma less_Suc_all: "(\<forall>i < Suc m. P (n + i)) \<longleftrightarrow> P n \<and> (\<forall>i < m. P (Suc n + i))"
  by (simp add: All_less_Suc2)

lemma le_Suc_all: "(\<forall>i \<le> Suc m. P (n + i)) \<longleftrightarrow> P n \<and> (\<forall>i \<le> m. P (Suc n + i))"
  using less_Suc_all [of "Suc m" P n] unfolding less_Suc_eq_le .

lemma ex_le_Suc_iff: "(\<exists>m \<le> Suc k. P m) \<longleftrightarrow> P 0 \<or> (\<exists>m \<le> k. P (Suc m))"
  using Ex_less_Suc2 [of "Suc k" P] unfolding less_Suc_eq_le .

lemma fetch_loop_answer:
  "fetch_loop E k n = Inr doc \<longleftrightarrow>
     (\<exists>m \<le> k. attemptFetch (en_http E (n + m)) = Inr doc \<and> (\<forall>i \<le> m. started E (n + i)) \<and> (\<forall>i < m. retried E (n + i)))"
  (is "_ \<longleftrightarrow> (\<exists>m \<le> k. ?P n m)")
proof (induction k arbitrary: n)
  case 0
  then show ?case unfolding fetch_loop_step [of E 0 n] by auto
next
  case (Suc k)
  have shift: "?P n (Suc m) \<longleftrightarrow> started E n \<and> retried E n \<and> ?P (Suc n) m" for m
    unfolding le_Suc_all [of m "started E" n] less_Suc_all [of m "retried E" n] add_Suc_shift by (rule iffI) simp_all
  have "(\<exists>m \<le> Suc k. ?P n m) \<longleftrightarrow> ?P n 0 \<or> (\<exists>m \<le> k. ?P n (Suc m))"
    by (rule ex_le_Suc_iff)
  also have "\<dots> \<longleftrightarrow> started E n \<and> attemptFetch (en_http E n) = Inr doc \<or>
      started E n \<and> retried E n \<and> (\<exists>m \<le> k. ?P (Suc n) m)"
    unfolding shift by auto
  finally show ?case unfolding fetch_loop_step [of E "Suc k"] using Suc.IH [of "Suc n"] by auto
qed

text \<open>
  A fetch answers with a document exactly if one of the first \<open>maxRetries + 1\<close> attempts returns it, the context lets all
  attempts up to it start, and each attempt before it fails with an error worth a retry while time is left.
\<close>

theorem fetchWithRetry_answer:
  "fetchWithRetry E r = Inr doc \<longleftrightarrow>
     (\<exists>m \<le> rr_maxRetries r. attemptFetch (en_http E m) = Inr doc \<and> (\<forall>i \<le> m. started E i) \<and> (\<forall>i < m. retried E i))"
  unfolding fetchWithRetry_def using fetch_loop_answer [of E "rr_maxRetries r" 0 doc] by simp

definition busy_then_ok :: fetch_env where
  "busy_then_ok = \<lparr>en_done = (\<lambda>_. False), en_http = (\<lambda>i. if i = 0 then Response 503 (Inr (Inr JNull)) else Response 200 (Inr (Inr (JNum ''7'')))),
     en_sleepDone = (\<lambda>_. False), en_deadline = None, en_now = (\<lambda>_. 0)\<rparr>"

lemma busy_first: "retried busy_then_ok 0"
  by code_simp

theorem fetchWithRetry_answer_witness:
  "\<exists>r. rpc_NewReader ''u'' ''GET'' [] [] [] 0 [] 0 = Inr r \<and> fetchWithRetry busy_then_ok r = Inr (Inr (JNum ''7''))"
proof (rule exI, rule conjI)
  let ?r = "\<lparr>rr_baseURL = ''u'', rr_method = ''GET'', rr_timeoutMs = 1000, rr_maxRetries = 1, rr_Headers = [],
     rr_ResponsePath = [], rr_Query = [], rr_Params = None\<rparr>"
  show "rpc_NewReader ''u'' ''GET'' [] [] [] 0 [] 0 = Inr ?r" by (simp add: rpc_NewReader_def cloneStringMap_def)
  show "fetchWithRetry busy_then_ok ?r = Inr (Inr (JNum ''7''))"
    unfolding fetchWithRetry_answer
    by (rule exI [of _ 1]) (use busy_first in \<open>simp add: started_def attemptFetch_def busy_then_ok_def\<close>)
qed

section \<open>Scanning numbers\<close>

text \<open>
  \<open>fmt.Sscanf\<close> with the verbs \<open>%d\<close> and \<open>%f\<close>: white space in front is skipped, a line break there is an error, and
  what follows the longest token is ignored.
\<close>

definition skip_space :: "string \<Rightarrow> string option" where
  "skip_space s =
     (let t = dropWhile (\<lambda>c. is_space c \<and> c \<noteq> CHR 0x0A) s in
      case t of [] \<Rightarrow> None | c # _ \<Rightarrow> if c = CHR 0x0A then None else Some t)"

definition accept :: "string \<Rightarrow> string \<times> string \<Rightarrow> (string \<times> string) option" where
  "accept cs p = (case snd p of c # s \<Rightarrow> if c \<in> set cs then Some (fst p @ [c], s) else None | [] \<Rightarrow> None)"

definition accept_opt :: "string \<Rightarrow> string \<times> string \<Rightarrow> string \<times> string" where
  "accept_opt cs p = (case accept cs p of Some q \<Rightarrow> q | None \<Rightarrow> p)"

definition accept_all :: "string \<Rightarrow> string \<times> string \<Rightarrow> string \<times> string" where
  "accept_all cs p = (fst p @ takeWhile (\<lambda>c. c \<in> set cs) (snd p), dropWhile (\<lambda>c. c \<in> set cs) (snd p))"

text \<open>A sequence of classes: the text so far, and whether all of them were there.\<close>

fun accept_seq :: "string list \<Rightarrow> string \<times> string \<Rightarrow> (string \<times> string) \<times> bool" where
  "accept_seq [] p = (p, True)"
| "accept_seq (cs # css) p = (case accept cs p of Some q \<Rightarrow> accept_seq css q | None \<Rightarrow> (p, False))"

definition floatToken :: "string \<Rightarrow> string" where
  "floatToken s =
     (let (p1, nan) = accept_seq [''nN'', ''aA'', ''nN''] ([], s) in
      if nan then fst p1
      else
        let (p3, inf) = accept_seq [''iI'', ''nN'', ''fF''] (accept_opt ''+-'' p1) in
        if inf then fst p3
        else
          let (p4, hex) = accept_seq [''0'', ''xX''] p3;
              digits = (if hex then ''0123456789aAbBcCdDeEfF_'' else ''0123456789_'');
              p5 = accept_all digits p4;
              p6 = (case accept ''.'' p5 of Some q \<Rightarrow> accept_all digits q | None \<Rightarrow> p5);
              p7 = (case accept (if hex then ''pP'' else ''eEpP'') p6 of
                      Some q \<Rightarrow> accept_all ''0123456789_'' (accept_opt ''+-'' q) | None \<Rightarrow> p6)
          in fst p7)"

definition atoi :: "string \<Rightarrow> int option" where
  "atoi s =
     (let (neg, t) = trim_sign s in
      case parse_digits t of
        None \<Rightarrow> None
      | Some v \<Rightarrow> let x = (if neg then - v else v) in if - (2 ^ 63) \<le> x \<and> x < 2 ^ 63 then Some x else None)"

text \<open>A decimal number may have a binary exponent after a \<open>p\<close>.\<close>

definition convertFloat :: "string \<Rightarrow> float64 option" where
  "convertFloat str =
     (if CHR ''p'' \<in> set str \<and> CHR ''x'' \<notin> set str \<and> CHR ''X'' \<notin> set str then
        let m = takeWhile (\<lambda>c. c \<noteq> CHR ''p'') str; e = drop (Suc (length m)) str in
        case (ParseFloat m, atoi e) of (Some x, Some k) \<Rightarrow> Some (ldexp x k) | _ \<Rightarrow> None
      else ParseFloat str)"

definition Sscanf_f :: "string \<Rightarrow> float64 option" where
  "Sscanf_f s = (case skip_space s of None \<Rightarrow> None | Some t \<Rightarrow> convertFloat (floatToken t))"

definition Sscanf_d :: "string \<Rightarrow> int option" where
  "Sscanf_d s =
     (case skip_space s of
        None \<Rightarrow> None
      | Some t \<Rightarrow> atoi (fst (accept_all ''0123456789'' (accept_opt ''+-'' ([], t)))))"

text \<open>Only the longest token at the start counts: what follows it is dropped, grouped digits as well.\<close>

lemma Sscanf_f_prefix:
  "Sscanf_f ''1,234.5'' = ParseFloat ''1''" "Sscanf_f ''12USD'' = ParseFloat ''12''" "Sscanf_f ''USD'' = ParseFloat []"
  by (simp_all add: Sscanf_f_def skip_space_def floatToken_def accept_def accept_opt_def accept_all_def convertFloat_def
      is_space_def)

section \<open>Extraction by a path\<close>

datatype extract_error =
    ExtractUnmarshal string
  | ExtractNull nat string
  | ExtractKey nat string
  | ExtractIndexSyntax string
  | ExtractIndexRange int
  | ExtractKind nat string

text \<open>The last of several members with the same name counts.\<close>

definition json_get :: "(string \<times> json) list \<Rightarrow> string \<Rightarrow> json option" where
  "json_get ms k = map_of (rev ms) k"

fun extract_path :: "nat \<Rightarrow> json \<Rightarrow> string list \<Rightarrow> extract_error + json" where
  "extract_path i current [] = Inr current"
| "extract_path i current (key # path) =
     (case current of
        JNull \<Rightarrow> Inl (ExtractNull i key)
      | JObj ms \<Rightarrow> (case json_get ms key of None \<Rightarrow> Inl (ExtractKey i key) | Some j \<Rightarrow> extract_path (Suc i) j path)
      | JArr js \<Rightarrow>
          (case Sscanf_d key of
             None \<Rightarrow> Inl (ExtractIndexSyntax key)
           | Some index \<Rightarrow>
               if index < 0 \<or> index \<ge> int (length js) then Inl (ExtractIndexRange index)
               else extract_path (Suc i) (js ! nat index) path)
      | _ \<Rightarrow> Inl (ExtractKind i key))"

definition ExtractValueFromJSON :: "body \<Rightarrow> string list \<Rightarrow> extract_error + json" where
  "ExtractValueFromJSON data path =
     (case json_Decode decode_any JNull data of
        Inl e \<Rightarrow> Inl (ExtractUnmarshal e)
      | Inr result \<Rightarrow> extract_path 0 result path)"

section \<open>The key of the cache\<close>

definition newline :: string where
  "newline = [CHR 0x0A]"

definition cacheKey :: "rpcReader \<Rightarrow> string" where
  "cacheKey r =
     rr_method r @ newline @ rr_baseURL r @ newline @ rr_Query r @ newline @
     concat (map (\<lambda>k. k @ ''='' @ the (map_of (rr_Headers r) k) @ newline) (sort (map fst (rr_Headers r))))"

lemma map_of_concat_key: "map_of (rr_Headers r) = map_of (rr_Headers r') \<Longrightarrow> distinct (map fst (rr_Headers r)) \<Longrightarrow>
    distinct (map fst (rr_Headers r')) \<Longrightarrow> sort (map fst (rr_Headers r)) = sort (map fst (rr_Headers r'))"
  by (rule sorted_distinct_set_unique) (simp_all flip: dom_map_of_conv_image_fst)

text \<open>The order in which Go walks over the headers does not matter for the key.\<close>

lemma cacheKey_order:
  assumes "map_of (rr_Headers r) = map_of (rr_Headers r')" and "gomap_ok (rr_Headers r)" "gomap_ok (rr_Headers r')"
    and "rr_method r = rr_method r'" "rr_baseURL r = rr_baseURL r'" "rr_Query r = rr_Query r'"
  shows "cacheKey r = cacheKey r'"
  using map_of_concat_key [of r r'] assms by (simp add: cacheKey_def)

text \<open>A query with a line break in it shares its key with another request.\<close>

definition plain_reader :: "string \<Rightarrow> (string, string) gomap \<Rightarrow> rpcReader" where
  "plain_reader q hs = \<lparr>rr_baseURL = ''u'', rr_method = ''POST'', rr_timeoutMs = 1, rr_maxRetries = 1, rr_Headers = hs,
     rr_ResponsePath = [], rr_Query = q, rr_Params = None\<rparr>"

lemma cacheKey_collision:
  "cacheKey (plain_reader (''q'' @ newline @ ''a=b'') []) = cacheKey (plain_reader ''q'' [(''a'', ''b'')])"
  by (simp add: cacheKey_def plain_reader_def newline_def)

section \<open>The cache\<close>

text \<open>\<open>time.ParseDuration\<close> of the setting is a parameter: \<open>None\<close> is a text it rejects.\<close>

definition defaultCacheTTL :: duration where
  "defaultCacheTTL = 3 * 10 ^ 9"

definition cacheTTLFromEnv :: "(string \<Rightarrow> duration option) \<Rightarrow> string \<Rightarrow> duration" where
  "cacheTTLFromEnv parseDuration env =
     (let v = strings_TrimSpace env in
      if v = [] then defaultCacheTTL
      else case parseDuration v of None \<Rightarrow> defaultCacheTTL | Some d \<Rightarrow> if d < 0 then defaultCacheTTL else d)"

record responseCache =
  rc_ttl :: duration
  rc_items :: "(string, body \<times> gotime) gomap"

definition newResponseCache :: "duration \<Rightarrow> responseCache" where
  "newResponseCache ttl = \<lparr>rc_ttl = ttl, rc_items = []\<rparr>"

definition cache_enabled :: "responseCache \<Rightarrow> bool" where
  "cache_enabled c \<longleftrightarrow> rc_ttl c > 0"

definition cache_get :: "responseCache \<Rightarrow> gotime \<Rightarrow> string \<Rightarrow> body option" where
  "cache_get c now key =
     (case map_of (rc_items c) key of
        None \<Rightarrow> None
      | Some (b, fetchedAt) \<Rightarrow> if time_Sub now fetchedAt > rc_ttl c then None else Some b)"

definition cache_set :: "responseCache \<Rightarrow> gotime \<Rightarrow> string \<Rightarrow> body \<Rightarrow> responseCache" where
  "cache_set c now key b = c\<lparr>rc_items := mput key (b, now) (rc_items c)\<rparr>"

text \<open>
  One caller of \<open>FetchJSON\<close> alone: \<open>t1\<close> and \<open>t2\<close> are the times of the two lookups, \<open>t3\<close> the end of the fetch.
\<close>

definition FetchJSON ::
    "gotime \<Rightarrow> gotime \<Rightarrow> gotime \<Rightarrow> (rpc_error + body) \<Rightarrow> rpcReader \<Rightarrow> responseCache \<Rightarrow> (rpc_error + body) \<times> responseCache" where
  "FetchJSON t1 t2 t3 fetched r c =
     (if \<not> cache_enabled c then (fetched, c)
      else
        let key = cacheKey r in
        case cache_get c t1 key of
          Some b \<Rightarrow> (Inr b, c)
        | None \<Rightarrow>
            (case cache_get c t2 key of
               Some b \<Rightarrow> (Inr b, c)
             | None \<Rightarrow> (case fetched of Inl e \<Rightarrow> (Inl e, c) | Inr b \<Rightarrow> (Inr b, cache_set c t3 key b))))"

section \<open>Concurrent callers\<close>

text \<open>
  The callers share the cache and the flights: a flight is a fetch for a key that is under way, with the callers that
  wait for it. \<open>cc_upstream\<close> and \<open>cc_delivered\<close> record what happened: the answers of the exchanges with their time, and
  the bodies that callers got, with the time of the call. The end of a fetch is one step: the entry of the cache is
  set and the callers are released within a few instructions.
\<close>

record calls =
  cc_now :: gotime
  cc_cache :: responseCache
  cc_waiting :: "(string \<times> gotime) multiset"
  cc_flights :: "(string, gotime list) gomap"
  cc_upstream :: "(string \<times> body \<times> gotime) list"
  cc_delivered :: "(string \<times> body \<times> gotime) list"

definition initial_calls :: "duration \<Rightarrow> gotime \<Rightarrow> calls" where
  "initial_calls ttl now = \<lparr>cc_now = now, cc_cache = newResponseCache ttl, cc_waiting = {#}, cc_flights = [],
     cc_upstream = [], cc_delivered = []\<rparr>"

inductive call_step :: "calls \<Rightarrow> calls \<Rightarrow> bool" where
  tick: "0 \<le> d \<Longrightarrow> call_step s (s\<lparr>cc_now := cc_now s + d\<rparr>)"
| hit: "cache_get (cc_cache s) (cc_now s) key = Some b \<Longrightarrow>
    call_step s (s\<lparr>cc_delivered := (key, b, cc_now s) # cc_delivered s\<rparr>)"
| miss: "cache_get (cc_cache s) (cc_now s) key = None \<Longrightarrow>
    call_step s (s\<lparr>cc_waiting := add_mset (key, cc_now s) (cc_waiting s)\<rparr>)"
| join: "(key, t) \<in># cc_waiting s \<Longrightarrow> map_of (cc_flights s) key = Some ts \<Longrightarrow>
    call_step s (s\<lparr>cc_waiting := cc_waiting s - {#(key, t)#}, cc_flights := mput key (t # ts) (cc_flights s)\<rparr>)"
| recheck: "(key, t) \<in># cc_waiting s \<Longrightarrow> map_of (cc_flights s) key = None \<Longrightarrow>
    cache_get (cc_cache s) (cc_now s) key = Some b \<Longrightarrow>
    call_step s (s\<lparr>cc_waiting := cc_waiting s - {#(key, t)#}, cc_delivered := (key, b, t) # cc_delivered s\<rparr>)"
| lead: "(key, t) \<in># cc_waiting s \<Longrightarrow> map_of (cc_flights s) key = None \<Longrightarrow>
    cache_get (cc_cache s) (cc_now s) key = None \<Longrightarrow>
    call_step s (s\<lparr>cc_waiting := cc_waiting s - {#(key, t)#}, cc_flights := mput key [t] (cc_flights s)\<rparr>)"
| answer: "map_of (cc_flights s) key = Some ts \<Longrightarrow>
    call_step s (s\<lparr>cc_cache := cache_set (cc_cache s) (cc_now s) key b, cc_flights := AList.delete key (cc_flights s),
      cc_upstream := (key, b, cc_now s) # cc_upstream s,
      cc_delivered := map (\<lambda>t. (key, b, t)) ts @ cc_delivered s\<rparr>)"
| failure: "map_of (cc_flights s) key = Some ts \<Longrightarrow>
    call_step s (s\<lparr>cc_flights := AList.delete key (cc_flights s)\<rparr>)"

inductive_cases call_stepE: "call_step s s'"

section \<open>What the cache guarantees\<close>

lemma map_of_delete_if: "map_of (AList.delete k m) k' = (if k' = k then None else map_of m k')"
  by (simp add: delete_conv')

definition times_of :: "string \<Rightarrow> calls \<Rightarrow> gotime list" where
  "times_of key s = map (snd \<circ> snd) (filter (\<lambda>(k, _). k = key) (cc_upstream s))"

text \<open>Successive answers for a key, the latest first, are further apart than \<open>ttl\<close>.\<close>

fun spaced :: "duration \<Rightarrow> gotime list \<Rightarrow> bool" where
  "spaced ttl [] = True"
| "spaced ttl [t] = True"
| "spaced ttl (t # u # ts) = (u + ttl < t \<and> spaced ttl (u # ts))"

definition items_ok :: "calls \<Rightarrow> bool" where
  "items_ok s \<longleftrightarrow> (\<forall>key.
     (map_of (rc_items (cc_cache s)) key = None \<longrightarrow> times_of key s = []) \<and>
     (\<forall>b t. map_of (rc_items (cc_cache s)) key = Some (b, t) \<longrightarrow>
        t \<le> cc_now s \<and> (key, b, t) \<in> set (cc_upstream s) \<and> (\<exists>ts. times_of key s = t # ts)))"

definition waiting_ok :: "calls \<Rightarrow> bool" where
  "waiting_ok s \<longleftrightarrow> (\<forall>key t. (key, t) \<in># cc_waiting s \<longrightarrow> t \<le> cc_now s)"

definition flights_ok :: "duration \<Rightarrow> calls \<Rightarrow> bool" where
  "flights_ok ttl s \<longleftrightarrow> (\<forall>key ts. map_of (cc_flights s) key = Some ts \<longrightarrow>
     (\<forall>t \<in> set ts. t \<le> cc_now s) \<and> (\<forall>u rest. times_of key s = u # rest \<longrightarrow> u + ttl < cc_now s))"

definition delivered_ok :: "duration \<Rightarrow> calls \<Rightarrow> bool" where
  "delivered_ok ttl s \<longleftrightarrow> (\<forall>key b t. (key, b, t) \<in> set (cc_delivered s) \<longrightarrow>
     (\<exists>u. (key, b, u) \<in> set (cc_upstream s) \<and> t - ttl \<le> u \<and> u \<le> cc_now s))"

definition cache_inv :: "duration \<Rightarrow> calls \<Rightarrow> bool" where
  "cache_inv ttl s \<longleftrightarrow> rc_ttl (cc_cache s) = ttl \<and> gomap_ok (cc_flights s) \<and> (\<forall>key. spaced ttl (times_of key s)) \<and>
     items_ok s \<and> waiting_ok s \<and> flights_ok ttl s \<and> delivered_ok ttl s"

lemma time_Sub_gt: "0 \<le> ttl \<Longrightarrow> ttl < maxDuration_int64 \<Longrightarrow> time_Sub a b > ttl \<longleftrightarrow> a - b > ttl"
  by (auto simp: time_Sub_def maxDuration_int64_def minDuration_int64_def)

lemma cache_get_Some:
  assumes "cache_inv ttl s" and "cache_get (cc_cache s) (cc_now s) key = Some b" and "0 \<le> ttl" "ttl < maxDuration_int64"
  shows "\<exists>u. (key, b, u) \<in> set (cc_upstream s) \<and> cc_now s - ttl \<le> u \<and> u \<le> cc_now s"
proof -
  have inv: "rc_ttl (cc_cache s) = ttl" "items_ok s" using assms(1) by (simp_all add: cache_inv_def)
  obtain t where t: "map_of (rc_items (cc_cache s)) key = Some (b, t)" "\<not> time_Sub (cc_now s) t > ttl"
    using assms(2) inv(1) by (auto simp: cache_get_def split: option.splits if_splits)
  then have "t \<le> cc_now s \<and> (key, b, t) \<in> set (cc_upstream s)" using inv(2) by (auto simp: items_ok_def)
  then show ?thesis using t(2) time_Sub_gt [OF assms(3,4)] by (intro exI [of _ t]) auto
qed

lemma cache_get_None:
  assumes "cache_inv ttl s" and "cache_get (cc_cache s) (cc_now s) key = None" and "0 \<le> ttl" "ttl < maxDuration_int64"
    and "times_of key s = u # rest"
  shows "u + ttl < cc_now s"
proof -
  have inv: "rc_ttl (cc_cache s) = ttl" "items_ok s" using assms(1) by (simp_all add: cache_inv_def)
  obtain b t where t: "map_of (rc_items (cc_cache s)) key = Some (b, t)"
    using inv(2) assms(5) by (cases "map_of (rc_items (cc_cache s)) key") (auto simp: items_ok_def)
  then have "time_Sub (cc_now s) t > ttl" using assms(2) inv(1) by (auto simp: cache_get_def split: if_splits)
  moreover have "\<exists>ts. times_of key s = t # ts" using inv(2) t by (simp add: items_ok_def)
  then have "t = u" using assms(5) by simp
  ultimately show ?thesis using time_Sub_gt [OF assms(3,4)] by auto
qed

text \<open>A delivery of what is fresh, to callers whose calls are no later than now.\<close>

lemma delivered_ok_add:
  assumes "delivered_ok ttl s" and "cc_upstream s' = cc_upstream s" and "cc_now s' = cc_now s"
    and "cc_delivered s' = (key, b, t) # cc_delivered s"
    and "\<exists>u. (key, b, u) \<in> set (cc_upstream s) \<and> t - ttl \<le> u \<and> u \<le> cc_now s"
  shows "delivered_ok ttl s'"
  using assms by (auto simp: delivered_ok_def)

lemma waiting_ok_remove: "waiting_ok s \<Longrightarrow> cc_waiting s' = cc_waiting s - M \<Longrightarrow> cc_now s' = cc_now s \<Longrightarrow> waiting_ok s'"
  by (auto simp: waiting_ok_def dest: in_diffD)

lemma same_upstream:
  "cc_upstream s' = cc_upstream s \<Longrightarrow> times_of key s' = times_of key s"
  by (simp add: times_of_def)

lemma items_ok_same:
  "items_ok s \<Longrightarrow> cc_upstream s' = cc_upstream s \<Longrightarrow> cc_cache s' = cc_cache s \<Longrightarrow> cc_now s \<le> cc_now s' \<Longrightarrow> items_ok s'"
  by (fastforce simp: items_ok_def same_upstream [of s' s])

lemma flights_ok_put:
  assumes "flights_ok ttl s" and "cc_flights s' = mput key ts (cc_flights s)" and "cc_upstream s' = cc_upstream s"
    and "cc_now s' = cc_now s" and "\<forall>t \<in> set ts. t \<le> cc_now s"
    and "\<And>u rest. times_of key s = u # rest \<Longrightarrow> u + ttl < cc_now s"
  shows "flights_ok ttl s'"
  using assms by (auto simp: flights_ok_def same_upstream [OF assms(3)] split: if_splits)

lemma times_of_answer:
  "cc_upstream s' = (key, b, n) # cc_upstream s \<Longrightarrow> times_of k s' = (if k = key then n # times_of k s else times_of k s)"
  by (simp add: times_of_def)

lemma items_ok_answer:
  assumes "items_ok s" and "rc_items (cc_cache s') = mput key (b, cc_now s) (rc_items (cc_cache s))"
    and up: "cc_upstream s' = (key, b, cc_now s) # cc_upstream s" and "cc_now s' = cc_now s"
  shows "items_ok s'"
  using assms by (auto simp: items_ok_def times_of_answer [OF up])

lemma flights_ok_answer:
  assumes "flights_ok ttl s" and "cc_flights s' = AList.delete key (cc_flights s)"
    and up: "cc_upstream s' = (key, b, cc_now s) # cc_upstream s" and "cc_now s' = cc_now s"
  shows "flights_ok ttl s'"
  using assms by (auto simp: flights_ok_def times_of_answer [OF up] map_of_delete_if split: if_splits)

lemma delivered_ok_answer:
  assumes "delivered_ok ttl s" and "cc_delivered s' = map (\<lambda>t. (key, b, t)) ts @ cc_delivered s"
    and "cc_upstream s' = (key, b, cc_now s) # cc_upstream s" and "cc_now s' = cc_now s"
    and "\<forall>t \<in> set ts. t \<le> cc_now s" and "0 \<le> ttl"
  shows "delivered_ok ttl s'"
  unfolding delivered_ok_def
proof (intro allI impI)
  fix k' b' t
  assume "(k', b', t) \<in> set (cc_delivered s')"
  then consider "k' = key" "b' = b" "t \<in> set ts" | "(k', b', t) \<in> set (cc_delivered s)"
    using assms(2) by auto
  then show "\<exists>u. (k', b', u) \<in> set (cc_upstream s') \<and> t - ttl \<le> u \<and> u \<le> cc_now s'"
  proof cases
    case 1
    then have "t \<le> cc_now s" using assms(5) by simp
    then show ?thesis using 1 assms(3,4,6) by (intro exI [of _ "cc_now s"]) simp
  next
    case 2
    then show ?thesis using assms(1,3,4) by (fastforce simp: delivered_ok_def)
  qed
qed

lemma call_step_inv:
  assumes "call_step s s'" and inv: "cache_inv ttl s" and ttl: "0 \<le> ttl" "ttl < maxDuration_int64"
  shows "cache_inv ttl s'"
proof -
  have parts: "rc_ttl (cc_cache s) = ttl" "gomap_ok (cc_flights s)" "\<forall>key. spaced ttl (times_of key s)" "items_ok s"
    "waiting_ok s" "flights_ok ttl s" "delivered_ok ttl s" using inv by (simp_all add: cache_inv_def)
  from assms(1) show ?thesis
  proof cases
    case (tick d)
    have "flights_ok ttl s'" using parts(6) tick by (fastforce simp: flights_ok_def times_of_def)
    moreover have "delivered_ok ttl s'" using parts(7) tick by (fastforce simp: delivered_ok_def)
    moreover have "waiting_ok s'" using parts(5) tick by (fastforce simp: waiting_ok_def)
    moreover have "items_ok s'" by (rule items_ok_same [OF parts(4)]) (use tick in simp_all)
    ultimately show ?thesis using parts(1-3) tick by (simp add: cache_inv_def times_of_def)
  next
    case (hit key b)
    have "delivered_ok ttl s'"
      by (rule delivered_ok_add [OF parts(7)]) (use hit cache_get_Some [OF inv _ ttl] in simp_all)
    then show ?thesis using parts hit
      by (simp add: cache_inv_def times_of_def items_ok_def flights_ok_def waiting_ok_def)
  next
    case (miss key)
    then show ?thesis using parts
      by (simp add: cache_inv_def times_of_def items_ok_def flights_ok_def waiting_ok_def delivered_ok_def)
  next
    case (join key t ts)
    have t: "t \<le> cc_now s" using parts(5) join by (simp add: waiting_ok_def)
    have "flights_ok ttl s'"
      by (rule flights_ok_put [OF parts(6)]) (use join t parts(6) in \<open>auto simp: flights_ok_def\<close>)
    moreover have "waiting_ok s'" by (rule waiting_ok_remove [OF parts(5)]) (use join in simp_all)
    ultimately show ?thesis using parts join
      by (simp add: cache_inv_def times_of_def items_ok_def delivered_ok_def)
  next
    case (recheck key t b)
    have t: "t \<le> cc_now s" using parts(5) recheck by (simp add: waiting_ok_def)
    have "delivered_ok ttl s'"
      by (rule delivered_ok_add [OF parts(7)]) (use recheck cache_get_Some [OF inv _ ttl, of key b] t in force)+
    moreover have "waiting_ok s'" by (rule waiting_ok_remove [OF parts(5)]) (use recheck in simp_all)
    ultimately show ?thesis using parts recheck
      by (simp add: cache_inv_def times_of_def items_ok_def flights_ok_def)
  next
    case (lead key t)
    have t: "t \<le> cc_now s" using parts(5) lead by (simp add: waiting_ok_def)
    have "flights_ok ttl s'"
      by (rule flights_ok_put [OF parts(6)]) (use lead t cache_get_None [OF inv _ ttl] in auto)
    moreover have "waiting_ok s'" by (rule waiting_ok_remove [OF parts(5)]) (use lead in simp_all)
    ultimately show ?thesis using parts lead
      by (simp add: cache_inv_def times_of_def items_ok_def delivered_ok_def)
  next
    case (answer key ts b)
    have eqs: "rc_items (cc_cache s') = mput key (b, cc_now s) (rc_items (cc_cache s))" "cc_now s' = cc_now s"
      "cc_upstream s' = (key, b, cc_now s) # cc_upstream s" "cc_flights s' = AList.delete key (cc_flights s)"
      "cc_delivered s' = map (\<lambda>t. (key, b, t)) ts @ cc_delivered s" "cc_waiting s' = cc_waiting s"
      "rc_ttl (cc_cache s') = rc_ttl (cc_cache s)"
      using answer(1) by (simp_all add: cache_set_def)
    have fl: "\<forall>t \<in> set ts. t \<le> cc_now s" "\<And>u rest. times_of key s = u # rest \<Longrightarrow> u + ttl < cc_now s"
      using parts(6) answer(2) by (auto simp: flights_ok_def)
    have "spaced ttl (times_of k s')" for k
      using spec [OF parts(3), of k] spec [OF parts(3), of key] fl(2)
      unfolding times_of_answer [OF eqs(3)] by (cases "times_of key s") simp_all
    moreover have "items_ok s'" by (rule items_ok_answer [OF parts(4) eqs(1,3,2)])
    moreover have "flights_ok ttl s'" by (rule flights_ok_answer [OF parts(6) eqs(4,3,2)])
    moreover have "delivered_ok ttl s'" by (rule delivered_ok_answer [OF parts(7) eqs(5,3,2) fl(1) ttl(1)])
    moreover have "waiting_ok s'" using parts(5) by (simp add: waiting_ok_def eqs)
    ultimately show ?thesis using parts(1,2) by (simp add: cache_inv_def eqs distinct_delete)
  next
    case (failure key ts)
    have "flights_ok ttl s'" using parts(6) failure by (auto simp: flights_ok_def times_of_def map_of_delete_if)
    then show ?thesis using parts failure
      by (simp add: cache_inv_def times_of_def items_ok_def waiting_ok_def delivered_ok_def distinct_delete)
  qed
qed

lemma cache_inv_reachable:
  assumes "call_step\<^sup>*\<^sup>* (initial_calls ttl t0) s" and "0 \<le> ttl" "ttl < maxDuration_int64"
  shows "cache_inv ttl s"
  using assms(1)
proof (induction rule: rtranclp_induct)
  case base
  show ?case
    by (simp add: cache_inv_def initial_calls_def newResponseCache_def items_ok_def waiting_ok_def flights_ok_def
        delivered_ok_def times_of_def)
next
  case (step s s')
  then show ?case using call_step_inv [OF step(2) _ assms(2,3)] by simp
qed



text \<open>A caller alone goes through these steps.\<close>

definition calls_of :: "gotime \<Rightarrow> responseCache \<Rightarrow> (string \<times> body \<times> gotime) list \<Rightarrow> (string \<times> body \<times> gotime) list \<Rightarrow> calls" where
  "calls_of now c up del = \<lparr>cc_now = now, cc_cache = c, cc_waiting = {#}, cc_flights = [], cc_upstream = up, cc_delivered = del\<rparr>"

lemma FetchJSON_steps:
  assumes "cache_enabled c" and "FetchJSON t1 t2 t3 fetched r c = (res, c')" and "t1 \<le> t2" "t2 \<le> t3"
  shows "\<exists>now up' del'. call_step\<^sup>*\<^sup>* (calls_of t1 c up del) (calls_of now c' up' del') \<and>
    (\<forall>b. res = Inr b \<longrightarrow> del' = (cacheKey r, b, t1) # del)"
proof -
  let ?k = "cacheKey r" let ?s = "calls_of t1 c up del"
  have tick: "call_step (s\<lparr>cc_now := a\<rparr>) (s\<lparr>cc_now := b\<rparr>)" if "a \<le> b" for s a b
    using call_step.tick [of "b - a" "s\<lparr>cc_now := a\<rparr>"] that by simp
  show ?thesis
  proof (cases "cache_get c t1 ?k")
    case (Some b)
    then have "call_step ?s (calls_of t1 c up ((?k, b, t1) # del))"
      using call_step.hit [of ?s ?k b] by (simp add: calls_of_def)
    then show ?thesis using assms(1,2) Some by (auto simp: FetchJSON_def intro: r_into_rtranclp)
  next
    case None
    let ?w = "?s\<lparr>cc_waiting := {#(?k, t1)#}\<rparr>"
    have miss: "call_step ?s ?w" using call_step.miss [of ?s ?k] None by (simp add: calls_of_def)
    have wait: "call_step\<^sup>*\<^sup>* ?s (?w\<lparr>cc_now := t2\<rparr>)"
      using miss tick [OF assms(3), of ?w] by (simp add: calls_of_def)
    show ?thesis
    proof (cases "cache_get c t2 ?k")
      case (Some b)
      then have "call_step (?w\<lparr>cc_now := t2\<rparr>) (calls_of t2 c up ((?k, b, t1) # del))"
        using call_step.recheck [of ?k t1 "?w\<lparr>cc_now := t2\<rparr>" b] by (simp add: calls_of_def)
      then show ?thesis using wait assms(1,2) None Some by (auto simp: FetchJSON_def intro: rtranclp.rtrancl_into_rtrancl)
    next
      case none: None
      let ?f = "(calls_of t2 c up del)\<lparr>cc_flights := [(?k, [t1])]\<rparr>"
      have lead: "call_step (?w\<lparr>cc_now := t2\<rparr>) ?f"
        using call_step.lead [of ?k t1 "?w\<lparr>cc_now := t2\<rparr>"] none by (simp add: calls_of_def)
      have fly: "call_step\<^sup>*\<^sup>* ?s (?f\<lparr>cc_now := t3\<rparr>)"
        using wait lead tick [OF assms(4), of ?f] by (simp add: calls_of_def)
      show ?thesis
      proof (cases fetched)
        case (Inl e)
        have "call_step (?f\<lparr>cc_now := t3\<rparr>) (calls_of t3 c up del)"
          using call_step.failure [of "?f\<lparr>cc_now := t3\<rparr>" ?k "[t1]"] by (simp add: calls_of_def)
        then show ?thesis using fly assms(1,2) None none Inl by (auto simp: FetchJSON_def intro: rtranclp.rtrancl_into_rtrancl)
      next
        case (Inr b)
        have "call_step (?f\<lparr>cc_now := t3\<rparr>) (calls_of t3 (cache_set c t3 ?k b) ((?k, b, t3) # up) ((?k, b, t1) # del))"
          using call_step.answer [of "?f\<lparr>cc_now := t3\<rparr>" ?k "[t1]" b] by (simp add: calls_of_def)
        then show ?thesis using fly assms(1,2) None none Inr by (auto simp: FetchJSON_def intro: rtranclp.rtrancl_into_rtrancl)
      qed
    qed
  qed
qed

end
