(* ===== verification/FloatMedian.thy ===== *)
theory FloatMedian
  imports GoMath "HOL-Library.Product_Lexorder"
begin

text \<open>
  Medians of \<open>float64\<close> values: \<open>sort.Float64s\<close>, and the three functions of the custom queries that take a median
  (\<open>medianFloat64\<close> of the Curve handler, \<open>CalculateMedian\<close> of the parallel fetcher, \<open>calculateMedian\<close> of the SUSN
  handler). The locale states what they have in common with the median of \<open>MedianInHex\<close>.
\<close>

section \<open>Sorting\<close>

text \<open>NaN is before all numbers.\<close>

definition f64_rank :: "float64 \<Rightarrow> nat \<times> rat" where
  "f64_rank x = (case x of FNaN \<Rightarrow> (0, 0) | FInf True \<Rightarrow> (1, 0) | FFin r \<Rightarrow> (2, r) | FInf False \<Rightarrow> (3, 0))"

definition sort_Float64s :: "float64 list \<Rightarrow> float64 list" where
  "sort_Float64s xs = sort_key f64_rank xs"

lemma f64_rank_inj: "inj_on f64_rank A"
  by (auto simp: inj_on_def f64_rank_def split: float64.splits bool.splits)

lemma sort_Float64s_order: "mset xs = mset ys \<Longrightarrow> sort_Float64s xs = sort_Float64s ys"
  unfolding sort_Float64s_def
  by (rule sort_key_inj_key_eq) (simp_all add: f64_rank_inj)

lemma sort_Float64s_Nil [simp]: "sort_Float64s xs = [] \<longleftrightarrow> xs = []"
  by (metis mset_sort mset_zero_iff sort_Float64s_def)

lemma sort_Float64s_finite [simp]: "sort_Float64s (map FFin xs) = map FFin (sort xs)"
  unfolding sort_Float64s_def
proof (rule sort_key_inj_key_eq)
  have "sorted (map (\<lambda>r. (2 :: nat, r)) (sort xs))" by (simp add: sorted_map sorted_wrt_map)
  then show "sorted (map f64_rank (map FFin (sort xs)))" by (simp add: f64_rank_def comp_def)
qed (simp_all add: f64_rank_inj)

lemma length_sort_Float64s [simp]: "length (sort_Float64s xs) = length xs"
  by (simp add: sort_Float64s_def)

section \<open>The functions\<close>

definition medianFloat64 :: "float64 list \<Rightarrow> go_panic + float64" where
  "medianFloat64 samples =
     (let s = sort_Float64s samples; mid = length s div 2 in
      if length s mod 2 = 1 then Inr (s ! mid)
      else if mid = 0 then Inl PanicIndexOutOfRange
      else Inr (f64_div (f64_add (s ! (mid - 1)) (s ! mid)) (FFin 2)))"

definition CalculateMedian :: "float64 list \<Rightarrow> float64" where
  "CalculateMedian prices =
     (if length prices = 0 then FFin 0
      else if length prices = 1 then prices ! 0
      else
        let s = sort_Float64s prices; n = length s in
        if n mod 2 = 0 then f64_div (f64_add (s ! (n div 2 - 1)) (s ! (n div 2))) (FFin 2) else s ! (n div 2))"

definition susn_calculateMedian :: "float64 list \<Rightarrow> float64" where
  "susn_calculateMedian prices =
     (if length prices = 0 then FFin 0
      else if length prices = 1 then prices ! 0
      else
        let s = sort_Float64s prices; n = length s in
        if n mod 2 = 0 then f64_div (f64_add (s ! (n div 2 - 1)) (s ! (n div 2))) (FFin 2) else s ! (n div 2))"

section \<open>Their contract\<close>

locale float_median =
  fixes med :: "float64 list \<Rightarrow> float64"
  assumes order: "mset xs = mset ys \<Longrightarrow> med xs = med ys"
    and finite_values: "vs \<noteq> [] \<Longrightarrow> med (map FFin vs) = sorted_median (sort vs)"
begin

text \<open>The median of positive numbers is one of their middle values, or between the two; the sum may be out of range.\<close>

lemma between:
  assumes "xs \<noteq> []" and "\<forall>x \<in> set xs. 0 < x \<and> is_float64 x"
  shows "med (map FFin xs) = FInf False \<or> (\<exists>m. med (map FFin xs) = FFin m \<and> middle_of m xs \<and> is_float64 m)"
  using sorted_median_between [of "sort xs"] assms by (auto simp: finite_values middle_of_def)

lemma in_range:
  assumes "xs \<noteq> []" and "\<forall>x \<in> set xs. 0 < x \<and> is_float64 x" and "med (map FFin xs) = FFin m"
  shows "Min (set xs) \<le> m" and "m \<le> Max (set xs)"
proof -
  have m: "middle_of m xs" using between [OF assms(1,2)] assms(3) by auto
  have "0 < length xs" using assms(1) by simp
  then have "(length xs - 1) div 2 < length (sort xs)" "length xs div 2 < length (sort xs)" by (auto, presburger)
  then have "sort xs ! ((length xs - 1) div 2) \<in> set xs" "sort xs ! (length xs div 2) \<in> set xs"
    by (metis nth_mem set_sort)+
  then show "Min (set xs) \<le> m" "m \<le> Max (set xs)"
    using m by (auto simp: middle_of_def intro: order_trans [OF Min_le] order_trans [OF _ Max_ge])
qed

lemma positive:
  assumes "xs \<noteq> []" and "\<forall>x \<in> set xs. 0 < x \<and> is_float64 x" and "med (map FFin xs) = FFin m"
  shows "0 < m"
proof -
  have "Min (set xs) \<in> set xs" using assms(1) by simp
  then have "0 < Min (set xs)" using assms(2) by blast
  then show ?thesis using in_range(1) [OF assms] by simp
qed

end

lemma singleton_sort: "length xs = 1 \<Longrightarrow> sort_Float64s xs = xs"
  by (cases xs) (simp_all add: sort_Float64s_def)

lemma CalculateMedian_sorted:
  "CalculateMedian prices = (let s = sort_Float64s prices; n = length s in
     if n = 0 then FFin 0
     else if n mod 2 = 0 then f64_div (f64_add (s ! (n div 2 - 1)) (s ! (n div 2))) (FFin 2) else s ! (n div 2))"
  by (auto simp: CalculateMedian_def Let_def singleton_sort)

lemma susn_calculateMedian_eq: "susn_calculateMedian = CalculateMedian"
  by (simp add: fun_eq_iff susn_calculateMedian_def CalculateMedian_def)

interpretation calculate: float_median CalculateMedian
proof
  show "CalculateMedian xs = CalculateMedian ys" if "mset xs = mset ys" for xs ys
    using sort_Float64s_order [OF that] by (simp add: CalculateMedian_sorted)
  show "CalculateMedian (map FFin xs) = sorted_median (sort xs)" if "xs \<noteq> []" for xs
  proof -
    have "0 < length xs" using that by simp
    then have "length xs div 2 < length xs" "length xs div 2 - 1 < length xs" by (auto simp: less_imp_diff_less)
    then show ?thesis using that by (simp add: CalculateMedian_sorted sorted_median_def Let_def mod2_eq_if)
  qed
qed

interpretation susn: float_median susn_calculateMedian
  unfolding susn_calculateMedian_eq by (rule calculate.float_median_axioms)

lemma medianFloat64_eq: "xs \<noteq> [] \<Longrightarrow> medianFloat64 xs = Inr (CalculateMedian xs)"
  by (cases "length xs = 1") (auto simp: medianFloat64_def CalculateMedian_sorted Let_def mod2_eq_if neq_Nil_conv)

interpretation samples: float_median "\<lambda>xs. projr (if xs = [] then Inr (FFin 0) else medianFloat64 xs)"
proof
  show "projr (if xs = [] then Inr (FFin 0) else medianFloat64 xs) = projr (if ys = [] then Inr (FFin 0) else medianFloat64 ys)"
    if "mset xs = mset ys" for xs ys
    using calculate.order [OF that] that by (auto simp: medianFloat64_eq)
  show "projr (if map FFin xs = [] then Inr (FFin 0) else medianFloat64 (map FFin xs)) = sorted_median (sort xs)"
    if "xs \<noteq> []" for xs
    using calculate.finite_values [OF that] that by (simp add: medianFloat64_eq)
qed

end
