(* ===== verification/RpcHandlers.thy ===== *)
theory RpcHandlers
  imports ContractHandlers RpcReader FloatMedian
begin

text \<open>
  The handlers of JSON endpoints (\<open>custom_query/rpc/rpc_handler\<close>). \<open>fetched\<close> is what \<open>FetchJSON\<close> of the reader
  gives. Parameters are \<open>time.Parse\<close> and, for the Curve handler, further GET requests. A number of a JSON document
  that is decoded into an \<open>any\<close> is a \<open>float64\<close>.
\<close>

section \<open>Errors\<close>

datatype rpc_handler_error =
    RFetch rpc_error
  | RDataAge duration
  | RExtract extract_error
  | RJson string
  | RKind string
  | RParse string
  | RInvertZero
  | RPrice handler_error
  | RParams string
  | RPool string

section \<open>The age of the data\<close>

definition rpc_checkDataAge :: "gotime \<Rightarrow> gotime \<Rightarrow> duration \<Rightarrow> duration option" where
  "rpc_checkDataAge now dataTime maxDataAge =
     (if maxDataAge \<le> 0 then None
      else let age = time_Sub now dataTime in if age > maxDataAge then Some age else None)"

type_synonym time_parser = "string \<Rightarrow> string \<Rightarrow> gotime option"

definition RFC3339 :: string where
  "RFC3339 = ''2006-01-02T15:04:05Z07:00''"

definition RFC3339Nano :: string where
  "RFC3339Nano = ''2006-01-02T15:04:05.999999999Z07:00''"

text \<open>The conversion of a \<open>float64\<close> to \<open>int64\<close>, out of range as on amd64; \<open>time.Unix\<close>.\<close>

definition f64_to_int64 :: "rat \<Rightarrow> int" where
  "f64_to_int64 x =
     (let t = (if x \<ge> 0 then \<lfloor>x\<rfloor> else - \<lfloor>- x\<rfloor>) in if - (2 ^ 63) \<le> t \<and> t < 2 ^ 63 then t else - (2 ^ 63))"

definition time_Unix :: "int \<Rightarrow> gotime" where
  "time_Unix secs = signed_take_bit 63 (secs + 62135596800) * 10 ^ 9"

definition json_float :: "string \<Rightarrow> rat" where
  "json_float s = (case ParseFloat s of Some (FFin x) \<Rightarrow> x | _ \<Rightarrow> 0)"

definition parseUnixTimestamp :: "json \<Rightarrow> int \<Rightarrow> string + gotime" where
  "parseUnixTimestamp v divisor =
     (case v of
        JNum s \<Rightarrow> Inr (time_Unix (f64_to_int64 (json_float s) sdiv divisor))
      | JStr s \<Rightarrow> (case atoi (strings_TrimSpace s) of
            None \<Rightarrow> Inl ''parse unix timestamp string'' | Some n \<Rightarrow> Inr (time_Unix (n sdiv divisor)))
      | _ \<Rightarrow> Inl (''unexpected timestamp type '' @ json_kind v))"

definition anyToString :: "json \<Rightarrow> string + string" where
  "anyToString v = (case v of JStr s \<Rightarrow> Inr (strings_TrimSpace s) | _ \<Rightarrow> Inl (''expected string timestamp, got '' @ json_kind v))"

definition parseRFC3339 :: "time_parser \<Rightarrow> json \<Rightarrow> string + gotime" where
  "parseRFC3339 parse v =
     bindE (anyToString v) (\<lambda>s.
       case parse RFC3339Nano s of
         Some t \<Rightarrow> Inr t
       | None \<Rightarrow> (case parse RFC3339 s of Some t \<Rightarrow> Inr t | None \<Rightarrow> Inl ''parse RFC3339 timestamp''))"

fun dot_path :: "json \<Rightarrow> string list \<Rightarrow> string + json" where
  "dot_path cur [] = Inr cur"
| "dot_path cur (p # parts) =
     (case cur of
        JObj m \<Rightarrow> (case json_get m p of None \<Rightarrow> Inl ''key not found'' | Some j \<Rightarrow> dot_path j parts)
      | _ \<Rightarrow> Inl (''expected object, got '' @ json_kind cur))"

definition parseTimestampParam :: "time_parser \<Rightarrow> json \<Rightarrow> string \<Rightarrow> string \<Rightarrow> string + gotime" where
  "parseTimestampParam parse data dotPath format =
     (if dotPath = [] then Inl ''timestamp_path is empty''
      else bindE (dot_path data (strings_Split (CHR ''.'') dotPath)) (\<lambda>cur.
        if strings_ToLower format = ''unix'' then parseUnixTimestamp cur 1
        else if strings_ToLower format = ''unix_ms'' then parseUnixTimestamp cur 1000
        else if format = [] then parseRFC3339 parse cur
        else bindE (anyToString cur) (\<lambda>s.
          case parse format s of Some t \<Rightarrow> Inr t | None \<Rightarrow> Inl ''parse timestamp'')))"

section \<open>The price of the quote\<close>

definition usd_price :: "uint32 \<Rightarrow> MarketToExchangePrices \<Rightarrow> gotime \<Rightarrow> rpc_handler_error + float64" where
  "usd_price usdViaID priceCache now =
     (case cached_price usdViaID priceCache now of
        Inl e \<Rightarrow> Inl (RPrice e)
      | Inr (usdViaParam, usdPriceRaw) \<Rightarrow>
          Inr (f64_mul (FFin (of_nat (float64_of_uint64 usdPriceRaw))) (math_Pow10 (sint (mp_Exponent usdViaParam)))))"

section \<open>The generic handler\<close>

text \<open>A document that is a map, for \<open>map[string]any\<close>.\<close>

definition decode_any_map :: "body \<Rightarrow> string + json" where
  "decode_any_map b =
     bindE (json_Decode decode_any JNull b) (\<lambda>j.
       case j of JObj m \<Rightarrow> Inr j | JNull \<Rightarrow> Inr (JObj []) | _ \<Rightarrow> Inl (cannot_unmarshal j ''map[string]interface {}''))"

definition data_time :: "time_parser \<Rightarrow> rpcReader \<Rightarrow> body \<Rightarrow> gotime \<Rightarrow> gotime" where
  "data_time parse r resp fetchedAt =
     (let tsPath = param r ''timestamp_path'' in
      if tsPath = [] then fetchedAt
      else case decode_any_map resp of
             Inl e \<Rightarrow> fetchedAt
           | Inr raw \<Rightarrow>
               (case parseTimestampParam parse raw tsPath (param r ''timestamp_format'') of
                  Inl e \<Rightarrow> fetchedAt | Inr t \<Rightarrow> t))"

definition json_value :: "json \<Rightarrow> rpc_handler_error + float64" where
  "json_value current =
     (case current of
        JNum s \<Rightarrow> Inr (FFin (json_float s))
      | JStr s \<Rightarrow> (case Sscanf_f s of None \<Rightarrow> Inl (RParse s) | Some x \<Rightarrow> Inr x)
      | _ \<Rightarrow> Inl (RKind (json_kind current)))"

definition GenericHandler_FetchValue ::
    "time_parser \<Rightarrow> (rpc_error + body) \<Rightarrow> rpcReader \<Rightarrow> bool \<Rightarrow> uint32 \<Rightarrow> MarketToExchangePrices \<Rightarrow> handler_clock \<Rightarrow>
     duration \<Rightarrow> rpc_handler_error + float64" where
  "GenericHandler_FetchValue parse fetched r invert usdViaID priceCache clk maxDataAge =
     (case fetched of
        Inl e \<Rightarrow> Inl (RFetch e)
      | Inr resp \<Rightarrow>
          (case rpc_checkDataAge (hc_checkedAt clk) (data_time parse r resp (hc_fetchedAt clk)) maxDataAge of
             Some age \<Rightarrow> Inl (RDataAge age)
           | None \<Rightarrow>
               (case ExtractValueFromJSON resp (rr_ResponsePath r) of
                  Inl e \<Rightarrow> Inl (RExtract e)
                | Inr current \<Rightarrow>
                    bindE (json_value current) (\<lambda>v.
                    bindE (if \<not> invert then Inr v else if v = FFin 0 then Inl RInvertZero else Inr (f64_div (FFin 1) v)) (\<lambda>v.
                    if usdViaID = 0 then Inr v
                    else bindE (usd_price usdViaID priceCache (hc_now clk)) (\<lambda>usdPrice. Inr (f64_mul v usdPrice)))))))"

section \<open>The Curve factory handler\<close>

definition decode_bool :: "bool decoder" where
  "decode_bool cur j = (case j of JNull \<Rightarrow> Inr cur | JBool b \<Rightarrow> Inr b | _ \<Rightarrow> Inl (cannot_unmarshal j ''bool''))"

text \<open>A pointer is allocated by the first value that is not \<open>null\<close>.\<close>

definition decode_pointer :: "'a decoder \<Rightarrow> 'a \<Rightarrow> 'a option decoder" where
  "decode_pointer dec zero cur j =
     (case j of
        JNull \<Rightarrow> Inr None
      | _ \<Rightarrow> bindE (dec (case cur of None \<Rightarrow> zero | Some r \<Rightarrow> r) j) (\<lambda>r. Inr (Some r)))"

record curveCoin =
  cc_Address :: string
  cc_USDPrice :: rat
  cc_Symbol :: string

record curvePool =
  cp_Address :: string
  cp_Coins :: "curveCoin list"

record curvePoolsEnvelope =
  ce_Success :: bool
  ce_Data :: "curvePool list option"

record curveV1USD =
  cv_UsdPrice :: rat
  cv_Address :: string

definition decode_curveCoin :: "curveCoin decoder" where
  "decode_curveCoin =
     decode_struct [(''address'', on_field cc_Address cc_Address_update decode_string),
       (''usdPrice'', on_field cc_USDPrice cc_USDPrice_update decode_float64),
       (''symbol'', on_field cc_Symbol cc_Symbol_update decode_string)]"

definition decode_curvePool :: "curvePool decoder" where
  "decode_curvePool =
     decode_struct [(''address'', on_field cp_Address cp_Address_update decode_string),
       (''coins'', on_field cp_Coins cp_Coins_update
          (decode_slice decode_curveCoin \<lparr>cc_Address = [], cc_USDPrice = 0, cc_Symbol = []\<rparr>))]"

definition decode_curvePoolsEnvelope :: "curvePoolsEnvelope decoder" where
  "decode_curvePoolsEnvelope =
     decode_struct [(''success'', on_field ce_Success ce_Success_update decode_bool),
       (''data'', on_field ce_Data ce_Data_update
          (decode_pointer (decode_struct [(''poolData'', decode_slice decode_curvePool \<lparr>cp_Address = [], cp_Coins = []\<rparr>)]) []))]"

definition decode_curveV1USD :: "curveV1USD option decoder" where
  "decode_curveV1USD =
     decode_struct [(''data'', decode_pointer
       (decode_struct [(''usd_price'', on_field cv_UsdPrice cv_UsdPrice_update decode_float64),
          (''address'', on_field cv_Address cv_Address_update decode_string)])
       \<lparr>cv_UsdPrice = 0, cv_Address = []\<rparr>)]"

definition normalised :: "string \<Rightarrow> string" where
  "normalised s = strings_ToLower (strings_TrimSpace s)"

definition parseExcludedPoolSet :: "string \<Rightarrow> string list" where
  "parseExcludedPoolSet s = filter (\<lambda>p. p \<noteq> []) (map normalised (strings_Split (CHR '','') s))"

text \<open>The first coin of a pool that is the target and has a positive price; numbers of the document are finite.\<close>

definition pool_price :: "string \<Rightarrow> string list \<Rightarrow> curvePool \<Rightarrow> rat option" where
  "pool_price targetAddrLower excludePools pool =
     (if normalised (cp_Address pool) \<in> set excludePools then None
      else map_option cc_USDPrice
             (find (\<lambda>coin. normalised (cc_Address coin) = targetAddrLower \<and> cc_USDPrice coin > 0) (cp_Coins pool)))"

definition collectCurveUSDPricesFromGetPoolsJSON :: "body \<Rightarrow> string \<Rightarrow> string list \<Rightarrow> string + rat list" where
  "collectCurveUSDPricesFromGetPoolsJSON b targetAddrLower excludePools =
     bindE (json_Decode decode_curvePoolsEnvelope \<lparr>ce_Success = False, ce_Data = None\<rparr> b) (\<lambda>env.
       case ce_Data env of
         None \<Rightarrow> Inl ''success=false or missing data''
       | Some poolData \<Rightarrow>
           if \<not> ce_Success env then Inl ''success=false or missing data''
           else Inr (List.map_filter (pool_price targetAddrLower excludePools) poolData))"

definition curveFactoryV1URL :: "rpcReader \<Rightarrow> string \<Rightarrow> string" where
  "curveFactoryV1URL r targetLower =
     (let u = strings_TrimSpace (param r ''v1_usd_price_url'') in
      if u \<noteq> [] then u else ''https://prices.curve.finance/v1/usd_price/ethereum/'' @ targetLower)"

definition curveFactoryPriceFromV1USD ::
    "(string \<Rightarrow> string + body) \<Rightarrow> rpcReader \<Rightarrow> string \<Rightarrow> rpc_handler_error + float64" where
  "curveFactoryPriceFromV1USD httpGet r targetAddrLower =
     (case httpGet (curveFactoryV1URL r targetAddrLower) of
        Inl e \<Rightarrow> Inl (RPool e)
      | Inr b \<Rightarrow>
          (case json_Decode decode_curveV1USD None b of
             Inl e \<Rightarrow> Inl (RJson e)
           | Inr None \<Rightarrow> Inl (RPool ''v1 missing data'')
           | Inr (Some v1) \<Rightarrow>
               if normalised (cv_Address v1) \<noteq> targetAddrLower then Inl (RPool ''v1 address mismatch'')
               else if cv_UsdPrice v1 \<le> 0 then Inl (RPool ''v1 invalid usd_price'')
               else Inr (FFin (cv_UsdPrice v1))))"

definition CurveFactoryPriceHandler_FetchValue ::
    "(string \<Rightarrow> string + body) \<Rightarrow> (rpc_error + body) \<Rightarrow> rpcReader \<Rightarrow> handler_clock \<Rightarrow> duration \<Rightarrow>
     go_panic + rpc_handler_error + float64" where
  "CurveFactoryPriceHandler_FetchValue httpGet fetched r clk maxDataAge =
     (let target = normalised (param r ''target_token'');
          exclude = parseExcludedPoolSet (param r ''exclude_pools'');
          mergeURL = strings_TrimSpace (param r ''merge_get_pools_url'')
      in
      if rr_Params r = None then Inr (Inl (RParams ''reader params are required''))
      else if target = [] then Inr (Inl (RParams ''target_token param is required''))
      else case fetched of
        Inl e \<Rightarrow> Inr (Inl (RFetch e))
      | Inr b \<Rightarrow>
          (case rpc_checkDataAge (hc_checkedAt clk) (hc_fetchedAt clk) maxDataAge of
             Some age \<Rightarrow> Inr (Inl (RDataAge age))
           | None \<Rightarrow>
               (case collectCurveUSDPricesFromGetPoolsJSON b target exclude of
                  Inl e \<Rightarrow> Inr (Inl (RJson e))
                | Inr primary \<Rightarrow>
                    let more = (if mergeURL = [] then []
                                else case httpGet mergeURL of
                                       Inl e \<Rightarrow> []
                                     | Inr extra \<Rightarrow>
                                         (case collectCurveUSDPricesFromGetPoolsJSON extra target exclude of
                                            Inl e \<Rightarrow> [] | Inr m \<Rightarrow> m));
                        samples = primary @ more
                    in if samples = [] then Inr (curveFactoryPriceFromV1USD httpGet r target)
                       else map_sum id Inr (medianFloat64 (map FFin samples)))))"

section \<open>The subgraph handler\<close>

definition decode_int64 :: "int decoder" where
  "decode_int64 cur j =
     (case j of
        JNull \<Rightarrow> Inr cur
      | JNum s \<Rightarrow> (case atoi s of Some n \<Rightarrow> Inr n | None \<Rightarrow> Inl (cannot_unmarshal j ''int64''))
      | _ \<Rightarrow> Inl (cannot_unmarshal j ''int64''))"

record subgraphPoolGQL =
  sp_Token0 :: "string option"
  sp_Token1 :: "string option"
  sp_Token0Price :: string
  sp_Token1Price :: string

record subgraphData =
  sd_Pool :: "subgraphPoolGQL option"
  sd_Meta :: "int option"

record subgraphPoolGQLTop =
  sg_Errors :: "string list"
  sg_Data :: "subgraphData option"

text \<open>A reference to a token is its id, the metadata is the timestamp of its block.\<close>

definition decode_subgraphPoolGQL :: "subgraphPoolGQL decoder" where
  "decode_subgraphPoolGQL =
     decode_struct
       [(''token0'', on_field sp_Token0 sp_Token0_update (decode_pointer (decode_struct [(''id'', decode_string)]) [])),
        (''token1'', on_field sp_Token1 sp_Token1_update (decode_pointer (decode_struct [(''id'', decode_string)]) [])),
        (''token0Price'', on_field sp_Token0Price sp_Token0Price_update decode_string),
        (''token1Price'', on_field sp_Token1Price sp_Token1Price_update decode_string)]"

definition decode_subgraphPoolGQLTop :: "subgraphPoolGQLTop decoder" where
  "decode_subgraphPoolGQLTop =
     decode_struct
       [(''errors'', on_field sg_Errors sg_Errors_update (decode_slice (decode_struct [(''message'', decode_string)]) [])),
        (''data'', on_field sg_Data sg_Data_update
           (decode_pointer (decode_struct
              [(''pool'', on_field sd_Pool sd_Pool_update (decode_pointer decode_subgraphPoolGQL
                  \<lparr>sp_Token0 = None, sp_Token1 = None, sp_Token0Price = [], sp_Token1Price = []\<rparr>)),
               (''_meta'', on_field sd_Meta sd_Meta_update
                  (decode_pointer (decode_struct [(''block'', decode_struct [(''timestamp'', decode_int64)])]) 0))])
              \<lparr>sd_Pool = None, sd_Meta = None\<rparr>))]"

definition parseSubgraphPrice :: "string \<Rightarrow> rpc_handler_error + float64" where
  "parseSubgraphPrice s0 =
     (let s = strings_TrimSpace s0 in
      if s = [] then Inl (RParse s)
      else case Sscanf_f s of None \<Rightarrow> Inl (RParse s) | Some v \<Rightarrow> Inr v)"

text \<open>The price of a pool for a target and a quote, both normalised.\<close>

definition subgraph_pool_price :: "string \<Rightarrow> string \<Rightarrow> subgraphPoolGQL \<Rightarrow> rpc_handler_error + float64" where
  "subgraph_pool_price target quote p =
     (case (sp_Token0 p, sp_Token1 p) of
        (Some id0, Some id1) \<Rightarrow>
          let t0 = normalised id0; t1 = normalised id1 in
          if t0 = target \<and> t1 = quote then parseSubgraphPrice (sp_Token1Price p)
          else if t0 = quote \<and> t1 = target then parseSubgraphPrice (sp_Token0Price p)
          else Inl (RPool ''pool tokens do not match'')
      | _ \<Rightarrow> Inl (RPool ''missing token0/token1''))"

definition SubgraphUniswapPoolPairHandler_FetchValue ::
    "(rpc_error + body) \<Rightarrow> rpcReader \<Rightarrow> bool \<Rightarrow> uint32 \<Rightarrow> MarketToExchangePrices \<Rightarrow> handler_clock \<Rightarrow> duration \<Rightarrow>
     rpc_handler_error + float64" where
  "SubgraphUniswapPoolPairHandler_FetchValue fetched r invert usdViaID priceCache clk maxDataAge =
     (let target = normalised (param r ''target_token''); quote = normalised (param r ''quote_token'') in
      if usdViaID = 0 then Inl (RParams ''usd_via_id is required'')
      else if rr_Params r = None then Inl (RParams ''reader params are required'')
      else if target = [] \<or> quote = [] then Inl (RParams ''target_token and quote_token params are required'')
      else if target = quote then Inl (RParams ''target_token and quote_token must differ'')
      else case fetched of
        Inl e \<Rightarrow> Inl (RFetch e)
      | Inr b \<Rightarrow>
          (case json_Decode decode_subgraphPoolGQLTop \<lparr>sg_Errors = [], sg_Data = None\<rparr> b of
             Inl e \<Rightarrow> Inl (RJson e)
           | Inr gql \<Rightarrow>
               if sg_Errors gql \<noteq> [] then Inl (RPool (sg_Errors gql ! 0))
               else case sg_Data gql of
                 None \<Rightarrow> Inl (RPool ''empty data.pool'')
               | Some data \<Rightarrow>
                   (case sd_Pool data of
                      None \<Rightarrow> Inl (RPool ''empty data.pool'')
                    | Some p \<Rightarrow>
                        (case (case sd_Meta data of
                                 Some ts \<Rightarrow> if ts > 0 then rpc_checkDataAge (hc_checkedAt clk) (time_Unix ts) maxDataAge else None
                               | None \<Rightarrow> None) of
                           Some age \<Rightarrow> Inl (RDataAge age)
                         | None \<Rightarrow>
                             bindE (subgraph_pool_price target quote p) (\<lambda>priceInQuote.
                             if f64_le priceInQuote (FFin 0) \<or> math_IsNaN priceInQuote \<or> math_IsInf0 priceInQuote
                             then Inl (RPool ''non-positive price'')
                             else
                               bindE (if \<not> invert then Inr priceInQuote
                                      else if priceInQuote = FFin 0 then Inl RInvertZero
                                      else Inr (f64_div (FFin 1) priceInQuote)) (\<lambda>priceInQuote.
                               bindE (usd_price usdViaID priceCache (hc_now clk)) (\<lambda>usdPrice.
                               Inr (f64_mul priceInQuote usdPrice))))))))"

section \<open>The Osmosis handler\<close>

definition STATOM_ADDRESS :: string where
  "STATOM_ADDRESS = ''ibc/C140AFD542AE77BD7DCC83F13FDD8C5E5BB8C4929785E6EC2F4C636F98F17901''"

definition ATOM_ADDRESS :: string where
  "ATOM_ADDRESS = ''ibc/27394FB092D2ECCD56123C74F36E4C1F926001CEADA9CA97EA622B25F41E5EB2''"

definition osmosisPairParams :: "rpcReader \<Rightarrow> rpc_handler_error + string \<times> string" where
  "osmosisPairParams r =
     (let targetToken = strings_TrimSpace (param r ''target_token''); quoteToken = strings_TrimSpace (param r ''quote_token'') in
      if targetToken = [] \<and> quoteToken = [] then Inr (STATOM_ADDRESS, ATOM_ADDRESS)
      else if targetToken = [] \<or> quoteToken = [] then Inl (RParams ''osmosis pool requires both target_token and quote_token'')
      else if strings_EqualFold targetToken quoteToken then Inl (RParams ''osmosis pool target_token and quote_token must differ'')
      else Inr (targetToken, quoteToken))"

definition json_text :: "json option \<Rightarrow> string option" where
  "json_text j = (case j of Some (JStr s) \<Rightarrow> Some s | _ \<Rightarrow> None)"

definition sqrt_price :: "json \<Rightarrow> rpc_handler_error + float64" where
  "sqrt_price j =
     (case j of
        JNum s \<Rightarrow> Inr (FFin (json_float s))
      | JStr s \<Rightarrow> (case ParseFloat s of None \<Rightarrow> Inl (RParse s) | Some x \<Rightarrow> Inr x)
      | _ \<Rightarrow> Inl (RKind (json_kind j)))"

definition osmosisConcentratedLiquidityPrice ::
    "(string \<times> json) list \<Rightarrow> string \<Rightarrow> string \<Rightarrow> rpc_handler_error + float64" where
  "osmosisConcentratedLiquidityPrice data targetToken quoteToken =
     (case json_get data ''current_sqrt_price'' of
        None \<Rightarrow> Inl (RPool ''current_sqrt_price not found in JSON'')
      | Some currentSqrtPrice \<Rightarrow>
          (case (json_text (json_get data ''token0''), json_text (json_get data ''token1'')) of
             (None, _) \<Rightarrow> Inl (RPool ''token0 not found in JSON'')
           | (Some _, None) \<Rightarrow> Inl (RPool ''token1 not found in JSON'')
           | (Some token0, Some token1) \<Rightarrow>
               bindE (sqrt_price currentSqrtPrice) (\<lambda>sqrtPrice.
                 let price = f64_mul sqrtPrice sqrtPrice in
                 if strings_EqualFold token0 targetToken \<and> strings_EqualFold token1 quoteToken then Inr price
                 else if strings_EqualFold token0 quoteToken \<and> strings_EqualFold token1 targetToken then
                   if price = FFin 0 then Inl RInvertZero else Inr (f64_div (FFin 1) price)
                 else Inl (RPool ''osmosis pool tokens do not match''))))"

record osmosisWeightedAsset =
  wa_amount :: float64
  wa_weight :: float64

definition osmosisDecimalString :: "json option \<Rightarrow> rpc_handler_error + float64" where
  "osmosisDecimalString v =
     (case v of
        Some (JNum s) \<Rightarrow> Inr (FFin (json_float s))
      | Some (JStr s) \<Rightarrow> (case bf_SetString (strings_TrimSpace s) of
            None \<Rightarrow> Inl (RParse s) | Some f \<Rightarrow> Inr (bf_Float64 (bf_val f)))
      | _ \<Rightarrow> Inl (RKind ''decimal''))"

fun osmosisWeightedPoolAsset :: "json list \<Rightarrow> string \<Rightarrow> rpc_handler_error + osmosisWeightedAsset option" where
  "osmosisWeightedPoolAsset [] denom = Inr None"
| "osmosisWeightedPoolAsset (rawAsset # assets) denom =
     (case rawAsset of
        JObj asset \<Rightarrow>
          (case json_get asset ''token'' of
             Some (JObj token) \<Rightarrow>
               (case json_text (json_get token ''denom'') of
                  None \<Rightarrow> Inl (RPool ''pool asset token missing denom'')
                | Some tokenDenom \<Rightarrow>
                    if \<not> strings_EqualFold tokenDenom denom then osmosisWeightedPoolAsset assets denom
                    else bindE (osmosisDecimalString (json_get token ''amount'')) (\<lambda>amount.
                         bindE (osmosisDecimalString (json_get asset ''weight'')) (\<lambda>weight.
                         Inr (Some \<lparr>wa_amount = amount, wa_weight = weight\<rparr>))))
           | _ \<Rightarrow> Inl (RPool ''pool asset missing token object''))
      | _ \<Rightarrow> Inl (RPool ''expected pool asset object''))"

definition osmosisOptionalDecimals :: "rpcReader \<Rightarrow> string \<Rightarrow> rpc_handler_error + int" where
  "osmosisOptionalDecimals r key =
     (let s = strings_TrimSpace (param r key) in
      if s = [] then Inr 0 else case atoi s of None \<Rightarrow> Inl (RParams (key @ '' must be an integer'')) | Some d \<Rightarrow> Inr d)"

definition weighted_price :: "osmosisWeightedAsset \<Rightarrow> osmosisWeightedAsset \<Rightarrow> int \<Rightarrow> int \<Rightarrow> rpc_handler_error + float64" where
  "weighted_price target quote targetDecimals quoteDecimals =
     (let targetAmount = f64_div (wa_amount target) (math_Pow10 targetDecimals);
          quoteAmount = f64_div (wa_amount quote) (math_Pow10 quoteDecimals)
      in if f64_le targetAmount (FFin 0) \<or> f64_le quoteAmount (FFin 0) \<or>
            f64_le (wa_weight target) (FFin 0) \<or> f64_le (wa_weight quote) (FFin 0)
         then Inl (RPool ''osmosis weighted pool has non-positive amount or weight'')
         else Inr (f64_div (f64_div quoteAmount (wa_weight quote)) (f64_div targetAmount (wa_weight target))))"

definition osmosisWeightedPoolPrice ::
    "(string \<times> json) list \<Rightarrow> string \<Rightarrow> string \<Rightarrow> rpcReader \<Rightarrow> rpc_handler_error + float64" where
  "osmosisWeightedPoolPrice data targetToken quoteToken r =
     (case json_get data ''pool_assets'' of
        Some (JArr assets) \<Rightarrow>
          bindE (osmosisWeightedPoolAsset assets targetToken) (\<lambda>t.
          bindE (osmosisWeightedPoolAsset assets quoteToken) (\<lambda>q.
            case (t, q) of
              (Some target, Some quote) \<Rightarrow>
                bindE (osmosisOptionalDecimals r ''target_decimals'') (\<lambda>targetDecimals.
                bindE (osmosisOptionalDecimals r ''quote_decimals'') (\<lambda>quoteDecimals.
                weighted_price target quote targetDecimals quoteDecimals))
            | _ \<Rightarrow> Inl (RPool ''osmosis weighted pool does not contain target and quote'')))
      | _ \<Rightarrow> Inl (RPool ''pool_assets not found in JSON''))"

definition osmosisPriceInQuote ::
    "(string \<times> json) list \<Rightarrow> string \<Rightarrow> string \<Rightarrow> rpcReader \<Rightarrow> rpc_handler_error + float64" where
  "osmosisPriceInQuote data targetToken quoteToken r =
     (if json_get data ''current_sqrt_price'' \<noteq> None then osmosisConcentratedLiquidityPrice data targetToken quoteToken
      else if json_get data ''pool_assets'' \<noteq> None then osmosisWeightedPoolPrice data targetToken quoteToken r
      else Inl (RPool ''unsupported osmosis pool type''))"

text \<open>The time of the last update of the liquidity, if there is a text that can be parsed.\<close>

definition liquidity_time :: "time_parser \<Rightarrow> (string \<times> json) list \<Rightarrow> gotime option" where
  "liquidity_time parse data =
     (case json_text (json_get data ''last_liquidity_update'') of
        None \<Rightarrow> None
      | Some tsStr \<Rightarrow>
          if tsStr = [] then None
          else case parse RFC3339Nano tsStr of Some t \<Rightarrow> Some t | None \<Rightarrow> parse RFC3339 tsStr)"

definition OsmosisPoolPriceHandler_FetchValue ::
    "time_parser \<Rightarrow> (rpc_error + body) \<Rightarrow> rpcReader \<Rightarrow> bool \<Rightarrow> uint32 \<Rightarrow> MarketToExchangePrices \<Rightarrow> handler_clock \<Rightarrow>
     duration \<Rightarrow> rpc_handler_error + float64" where
  "OsmosisPoolPriceHandler_FetchValue parse fetched r invert usdViaID priceCache clk maxDataAge =
     (case fetched of
        Inl e \<Rightarrow> Inl (RFetch e)
      | Inr resp \<Rightarrow>
          (case ExtractValueFromJSON resp (rr_ResponsePath r) of
             Inl e \<Rightarrow> Inl (RExtract e)
           | Inr (JObj data) \<Rightarrow>
               (case (case liquidity_time parse data of
                        Some t \<Rightarrow> rpc_checkDataAge (hc_checkedAt clk) t maxDataAge | None \<Rightarrow> None) of
                  Some age \<Rightarrow> Inl (RDataAge age)
                | None \<Rightarrow>
                    bindE (osmosisPairParams r) (\<lambda>(targetToken, quoteToken).
                    bindE (osmosisPriceInQuote data targetToken quoteToken r) (\<lambda>currentPrice.
                    bindE (if \<not> invert then Inr currentPrice
                           else if currentPrice = FFin 0 then Inl RInvertZero
                           else Inr (f64_div (FFin 1) currentPrice)) (\<lambda>currentPrice.
                    bindE (usd_price usdViaID priceCache (hc_now clk)) (\<lambda>usdPrice.
                    Inr (f64_mul usdPrice currentPrice))))))
           | Inr current \<Rightarrow> Inl (RKind (json_kind current))))"

section \<open>The registry\<close>

type_synonym rpc_handler =
  "time_parser \<Rightarrow> (string \<Rightarrow> string + body) \<Rightarrow> (rpc_error + body) \<Rightarrow> rpcReader \<Rightarrow> bool \<Rightarrow> uint32 \<Rightarrow> MarketToExchangePrices \<Rightarrow>
   handler_clock \<Rightarrow> duration \<Rightarrow> go_panic + rpc_handler_error + float64"

definition rpc_HandlerRegistry :: "(string, rpc_handler) gomap" where
  "rpc_HandlerRegistry =
     [(''generic'', \<lambda>parse httpGet fetched r invert usdViaID priceCache clk maxDataAge.
         Inr (GenericHandler_FetchValue parse fetched r invert usdViaID priceCache clk maxDataAge)),
      (''osmosis_pool_price_handler'', \<lambda>parse httpGet fetched r invert usdViaID priceCache clk maxDataAge.
         Inr (OsmosisPoolPriceHandler_FetchValue parse fetched r invert usdViaID priceCache clk maxDataAge)),
      (''curve_factory_price'', \<lambda>parse httpGet fetched r invert usdViaID priceCache clk maxDataAge.
         CurveFactoryPriceHandler_FetchValue httpGet fetched r clk maxDataAge),
      (''curve_susde_factory_price'', \<lambda>parse httpGet fetched r invert usdViaID priceCache clk maxDataAge.
         CurveFactoryPriceHandler_FetchValue httpGet fetched r clk maxDataAge),
      (''subgraph_uniswap_pool_pair_usd'', \<lambda>parse httpGet fetched r invert usdViaID priceCache clk maxDataAge.
         Inr (SubgraphUniswapPoolPairHandler_FetchValue fetched r invert usdViaID priceCache clk maxDataAge))]"

definition rpc_GetHandler :: "string \<Rightarrow> string + rpc_handler" where
  "rpc_GetHandler name =
     (case map_of rpc_HandlerRegistry name of
        None \<Rightarrow> Inl (''unknown RPC handler: '' @ name) | Some h \<Rightarrow> Inr h)"

section \<open>No panics\<close>

lemma curve_no_panic: "\<exists>x. CurveFactoryPriceHandler_FetchValue httpGet fetched r clk maxDataAge = Inr x"
  by (auto simp: CurveFactoryPriceHandler_FetchValue_def Let_def medianFloat64_eq split: sum.split option.split)

theorem rpc_handlers_no_panic:
  "rpc_GetHandler name = Inr h \<Longrightarrow>
     \<exists>res. h parse httpGet fetched r invert usdViaID priceCache clk maxDataAge = Inr res"
  using curve_no_panic
  by (auto simp: rpc_GetHandler_def rpc_HandlerRegistry_def split: option.splits if_splits)

section \<open>Prices of the quote\<close>

lemma math_Pow10_near:
  assumes "mp_Exponent p = - 5 \<or> mp_Exponent p = - 6"
  obtains c where "math_Pow10 (sint (mp_Exponent p)) = FFin c" and "near 53 (10 powi sint (mp_Exponent p)) c"
    and "1 / 10 ^ 7 \<le> c" and "c \<le> 1"
proof -
  have exact: "float64_round 1 = FFin 1" "float64_round (10 ^ 5) = FFin (10 ^ 5)" "float64_round (10 ^ 6) = FFin (10 ^ 6)"
    using is_float64_nat [of 1] is_float64_nat [of "10 ^ 5"] is_float64_nat [of "10 ^ 6"] by (simp_all add: is_float64_def)
  have "\<exists>c. math_Pow10 (- int k) = FFin c \<and> near 53 (10 powi (- int k)) c \<and> 1 / 10 ^ 7 \<le> c \<and> c \<le> 1"
    if k: "k = 5 \<or> k = 6" for k
  proof -
    have e: "math_Pow10 (- int k) = float64_round (1 / 10 ^ k)" using k exact by (auto simp: math_Pow10_def)
    have "pow2 (- 1022) \<le> 1 / 10 ^ k" "1 / 10 ^ k < pow2 1000" using k by (auto simp: pow2_def)
    then obtain c where c: "float64_round (1 / 10 ^ k) = FFin c" "near 53 (1 / 10 ^ k) c" "0 < c"
      by (rule float64_round_near)
    have "(1 :: rat) / 10 ^ k / 2 \<le> c" "c \<le> 2 * (1 / 10 ^ k)" using near_pos [OF c(2)] by simp_all
    then show ?thesis using c k e by (intro exI [of _ c]) (auto simp: power_int_minus inverse_eq_divide)
  qed
  from this [of 5] this [of 6] assms that show ?thesis by fastforce
qed

text \<open>The conversion of a cached price to a \<open>float64\<close>.\<close>

lemma usd_price_near:
  assumes "cached_price usdViaID priceCache now = Inr (p, raw)" and "0 < raw"
  obtains u where "usd_price usdViaID priceCache now = Inr (FFin u)"
    and "near 50 (of_int (uint raw) * 10 powi sint (mp_Exponent p)) u" and "1 / 10 ^ 8 \<le> u" and "u \<le> 2 ^ 66"
proof -
  define a where "a = (of_nat (float64_of_uint64 raw) :: rat)"
  have "map_of StaticMarketParamsConfig usdViaID = Some p"
    using assms(1) by (auto simp: cached_price_def split: option.splits)
  then obtain c where c: "math_Pow10 (sint (mp_Exponent p)) = FFin c" "near 53 (10 powi sint (mp_Exponent p)) c"
    "1 / 10 ^ 7 \<le> c" "c \<le> 1" using math_Pow10_near StaticMarketParamsConfig_ok(2) by metis
  have "1 \<le> uint raw" using assms(2) by (simp add: word_less_def)
  then have pos: "1 \<le> (of_int (uint raw) :: rat)" "(of_int (uint raw) :: rat) < 2 ^ 64"
    using uint_lt2p [of raw] of_int_less_iff [of "uint raw" "2 ^ 64", where ?'a = rat]
      of_int_le_iff [of 1 "uint raw", where ?'a = rat]
    by simp_all
  have "2 ^ 53 * \<bar>int (float64_of_uint64 raw) - uint raw\<bar> \<le> uint raw" by (rule float64_near)
  then have "of_int (2 ^ 53 * \<bar>int (float64_of_uint64 raw) - uint raw\<bar>) \<le> (of_int (uint raw) :: rat)"
    unfolding of_int_le_iff .
  then have na: "near 53 (of_int (uint raw)) a" using pos by (simp add: near_def a_def)
  have a: "1 / 2 \<le> a" "a \<le> 2 ^ 65" using near_pos [OF na] pos by simp_all
  have "1 \<le> a"
  proof -
    have "float64_of_uint64 raw \<noteq> 0" using a(1) by (auto simp: a_def)
    then show ?thesis by (simp add: a_def)
  qed
  have "near 52 (of_int (uint raw) * 10 powi sint (mp_Exponent p)) (of_int (uint raw) * c)"
    using near_mono [OF near_scale [OF c(2), of "of_int (uint raw)"], of 52] by (simp add: mult.commute)
  moreover have "near 53 (of_int (uint raw) * c) (a * c)" by (rule near_scale [OF na])
  ultimately have nac: "near 51 (of_int (uint raw) * 10 powi sint (mp_Exponent p)) (a * c)" using near_trans [of 51] by simp
  have low: "1 * (1 / 10 ^ 7) \<le> a * c" using \<open>1 \<le> a\<close> c(3) by (intro mult_mono) simp_all
  have up: "a * c \<le> 2 ^ 65 * 1" using a c(3,4) by (intro mult_mono) simp_all
  have "pow2 (- 1022) \<le> 1 / 10 ^ 7" "2 ^ 65 < pow2 1000" by (simp_all add: pow2_def)
  then have "pow2 (- 1022) \<le> a * c" "a * c < pow2 1000" using low up by linarith+
  then obtain u where u: "float64_round (a * c) = FFin u" "near 53 (a * c) u" "0 < u" by (rule float64_round_near)
  have "a * c / 2 \<le> u" "u \<le> 2 * (a * c)" using near_pos [OF u(2)] low by simp_all
  then have "1 / 10 ^ 8 \<le> u" "u \<le> 2 ^ 66" using low up by simp_all
  moreover have "near 50 (of_int (uint raw) * 10 powi sint (mp_Exponent p)) u"
    using near_trans [of 50, OF _ near_mono [OF u(2)]] nac by simp
  moreover have "usd_price usdViaID priceCache now = Inr (FFin u)"
    using u(1) by (simp add: usd_price_def assms(1) c(1) a_def)
  ultimately show ?thesis using that by blast
qed

text \<open>
  The generic handler with a market for its quote: a finite value of ordinary size is multiplied by the cached median of
  the market, scaled by the market's exponent, up to one part in \<open>2 ^ 49\<close>.
\<close>

theorem generic_value_in_usd:
  assumes "ExtractValueFromJSON resp (rr_ResponsePath r) = Inr j" and "json_value j = Inr (FFin x)"
    and "pow2 (- 900) \<le> x" "x < pow2 900"
    and "rpc_checkDataAge (hc_checkedAt clk) (data_time parse r resp (hc_fetchedAt clk)) maxDataAge = None"
    and "usdViaID \<noteq> 0" and "cached_price usdViaID priceCache (hc_now clk) = Inr (p, raw)" and "0 < raw"
  shows "\<exists>y. GenericHandler_FetchValue parse (Inr resp) r False usdViaID priceCache clk maxDataAge = Inr (FFin y) \<and>
    0 < y \<and> near 49 (x * (of_int (uint raw) * 10 powi sint (mp_Exponent p))) y"
proof -
  obtain u where u: "usd_price usdViaID priceCache (hc_now clk) = Inr (FFin u)"
    "near 50 (of_int (uint raw) * 10 powi sint (mp_Exponent p)) u" "1 / 10 ^ 8 \<le> u" "u \<le> 2 ^ 66"
    by (rule usd_price_near [OF assms(7,8)])
  have x: "0 < x" using assms(3) pow2_pos [of "- 900"] by linarith
  have "pow2 (- 900) * (1 / 10 ^ 8) \<le> x * u" using assms(3) u(3) x by (intro mult_mono) simp_all
  moreover have "pow2 (- 1022) \<le> pow2 (- 900) * (1 / 10 ^ 8)" by (simp add: pow2_def)
  ultimately have lo: "pow2 (- 1022) \<le> x * u" by (rule order_trans [rotated])
  have "x * u \<le> pow2 900 * 2 ^ 66" using assms(4) u(3,4) x by (intro mult_mono) simp_all
  also have "\<dots> < pow2 1000" by (simp add: pow2_def)
  finally obtain y where y: "float64_round (x * u) = FFin y" "near 53 (x * u) y" "0 < y" by (rule float64_round_near [OF lo])
  have "near 50 (x * (of_int (uint raw) * 10 powi sint (mp_Exponent p))) (x * u)"
    using near_scale [OF u(2), of x] by (simp add: mult.commute)
  then have "near 49 (x * (of_int (uint raw) * 10 powi sint (mp_Exponent p))) y"
    using near_trans [of 49, OF _ near_mono [OF y(2)]] by simp
  then show ?thesis using y assms(1,2,5,6) u(1) by (simp add: GenericHandler_FetchValue_def)
qed

text \<open>
  The identifier of BTC-USD is 0, which the generic handler takes for no quote at all: the result does not depend on the
  price of bitcoin.
\<close>

theorem generic_btc_quote_ignored:
  "GenericHandler_FetchValue parse fetched r invert BTCUSD_ID priceCache clk maxDataAge =
   GenericHandler_FetchValue parse fetched r invert BTCUSD_ID priceCache' clk maxDataAge"
  by (simp add: GenericHandler_FetchValue_def BTCUSD_ID_def split: sum.split option.split)

section \<open>The two sides of a pool\<close>

definition swap_tokens :: "subgraphPoolGQL \<Rightarrow> subgraphPoolGQL" where
  "swap_tokens p = \<lparr>sp_Token0 = sp_Token1 p, sp_Token1 = sp_Token0 p, sp_Token0Price = sp_Token1Price p,
     sp_Token1Price = sp_Token0Price p\<rparr>"

lemma subgraph_orientation:
  "target \<noteq> quote \<Longrightarrow> subgraph_pool_price target quote (swap_tokens p) = subgraph_pool_price target quote p"
  by (auto simp: subgraph_pool_price_def swap_tokens_def Let_def split: option.split)

section \<open>The samples of the Curve handler\<close>

lemma field_decoder_in: "field_decoder fds k = Some d \<Longrightarrow> \<exists>k'. (k', d) \<in> set fds"
proof (cases "map_of fds k")
  case None
  assume "field_decoder fds k = Some d"
  then obtain fd where "find (\<lambda>fd. strings_EqualFold (fst fd) k) fds = Some fd" "snd fd = d"
    using None by (auto simp: field_decoder_def)
  then have "fd \<in> set fds" by (auto simp: find_Some_iff in_set_conv_nth)
  then show ?thesis using \<open>snd fd = d\<close> by (metis prod.collapse)
qed (auto simp: field_decoder_def dest: map_of_SomeD)

text \<open>A decoder keeps a property of what it fills in.\<close>

definition keeps :: "('r \<Rightarrow> bool) \<Rightarrow> 'r decoder \<Rightarrow> bool" where
  "keeps P d \<longleftrightarrow> (\<forall>r j r'. P r \<longrightarrow> d r j = Inr r' \<longrightarrow> P r')"

lemma keepsD: "keeps P d \<Longrightarrow> P r \<Longrightarrow> d r j = Inr r' \<Longrightarrow> P r'"
  by (auto simp: keeps_def)

lemma decode_members_keeps:
  "\<forall>kd \<in> set fds. keeps P (snd kd) \<Longrightarrow> P r \<Longrightarrow> decode_members fds r ms = Inr r' \<Longrightarrow> P r'"
proof (induction fds r ms rule: decode_members.induct)
  case (2 fds r k j ms)
  show ?case
  proof (cases "field_decoder fds k")
    case None
    then show ?thesis using 2 by simp
  next
    case (Some d)
    then have "keeps P d" using 2(3) field_decoder_in [OF Some] by fastforce
    moreover obtain r1 where "d r j = Inr r1" "decode_members fds r1 ms = Inr r'" using 2(5) Some by auto
    ultimately show ?thesis using 2(2) [OF Some 2(3)] keepsD 2(4) by metis
  qed
qed simp

lemma decode_struct_keeps: "\<forall>kd \<in> set fds. keeps P (snd kd) \<Longrightarrow> keeps P (decode_struct fds)"
  unfolding keeps_def [of P "decode_struct fds"]
  using decode_members_keeps [of fds P] by (auto simp: decode_struct_def split: json.splits)

lemma decode_pointer_keeps:
  "keeps P dec \<Longrightarrow> P zero \<Longrightarrow> keeps (\<lambda>x. \<forall>y. x = Some y \<longrightarrow> P y) (decode_pointer dec zero)"
  unfolding keeps_def [of "\<lambda>x. \<forall>y. x = Some y \<longrightarrow> P y"]
  by (auto simp: decode_pointer_def dest: keepsD split: json.splits option.splits)

lemma decode_elements_all:
  assumes "keeps P dec" and "P zero"
  shows "decode_elements dec zero js = Inr xs \<Longrightarrow> \<forall>x \<in> set xs. P x"
  using assms by (induction js arbitrary: xs) (auto dest: keepsD)

lemma decode_slice_keeps:
  assumes "keeps P dec" and "P zero"
  shows "keeps (\<lambda>xs. \<forall>x \<in> set xs. P x) (decode_slice dec zero)"
  using decode_elements_all [OF assms] by (auto simp: keeps_def decode_slice_def split: json.splits)

lemma on_field_keeps:
  assumes "keeps Q dec" and "\<And>r. P r \<Longrightarrow> Q (get r)" and "\<And>r x. P r \<Longrightarrow> Q x \<Longrightarrow> P (upd (\<lambda>_. x) r)"
  shows "keeps P (on_field get upd dec)"
  unfolding keeps_def on_field_def bindE_Inr_iff using assms(2,3) keepsD [OF assms(1)] by blast

lemma keeps_True [simp]: "keeps (\<lambda>_. True) dec"
  by (simp add: keeps_def)

text \<open>A number of a document is a \<open>float64\<close>, so are the prices of the coins.\<close>

lemma ParseFloat_is: "ParseFloat s = Some (FFin x) \<Longrightarrow> is_float64 x"
  using float64_round_is by (auto simp: ParseFloat_def Let_def split: prod.splits if_splits option.splits float64.splits)

lemma decode_float64_keeps: "keeps is_float64 decode_float64"
  by (auto simp: keeps_def decode_float64_def dest: ParseFloat_is split: json.splits option.splits float64.splits)

definition float_coin :: "curveCoin \<Rightarrow> bool" where
  "float_coin coin \<longleftrightarrow> is_float64 (cc_USDPrice coin)"

definition float_pool :: "curvePool \<Rightarrow> bool" where
  "float_pool pool \<longleftrightarrow> (\<forall>coin \<in> set (cp_Coins pool). float_coin coin)"

lemma decode_curveCoin_keeps: "keeps float_coin decode_curveCoin"
  unfolding decode_curveCoin_def
  by (rule decode_struct_keeps)
    (auto simp: float_coin_def intro!: on_field_keeps [of "\<lambda>_. True"] on_field_keeps [OF decode_float64_keeps])

lemma decode_curvePool_keeps: "keeps float_pool decode_curvePool"
  unfolding decode_curvePool_def
  by (rule decode_struct_keeps)
    (auto simp: float_pool_def float_coin_def
      intro!: on_field_keeps [of "\<lambda>_. True"] on_field_keeps [OF decode_slice_keeps [OF decode_curveCoin_keeps]])

definition zero_envelope :: curvePoolsEnvelope where
  "zero_envelope = \<lparr>ce_Success = False, ce_Data = None\<rparr>"

lemma decode_curvePoolsEnvelope_keeps:
  "keeps (\<lambda>env. \<forall>ps. ce_Data env = Some ps \<longrightarrow> (\<forall>p \<in> set ps. float_pool p)) decode_curvePoolsEnvelope"
proof -
  let ?zero = "\<lparr>cp_Address = [], cp_Coins = []\<rparr>"
  have "float_pool ?zero" by (simp add: float_pool_def)
  then have "keeps (\<lambda>ps. \<forall>p \<in> set ps. float_pool p) (decode_struct [(''poolData'', decode_slice decode_curvePool ?zero)])"
    by (intro decode_struct_keeps) (simp add: decode_slice_keeps [OF decode_curvePool_keeps])
  then have "keeps (\<lambda>d. \<forall>ps. d = Some ps \<longrightarrow> (\<forall>p \<in> set ps. float_pool p))
      (decode_pointer (decode_struct [(''poolData'', decode_slice decode_curvePool ?zero)]) [])"
    by (rule decode_pointer_keeps) simp
  note field = on_field_keeps [OF this]
  show ?thesis
    unfolding decode_curvePoolsEnvelope_def
    by (rule decode_struct_keeps) (auto intro!: field on_field_keeps [of "\<lambda>_. True"])
qed

text \<open>A sample of a document: the positive price of the target in a pool that is not excluded.\<close>

definition curve_sample :: "body \<Rightarrow> string \<Rightarrow> string list \<Rightarrow> rat \<Rightarrow> bool" where
  "curve_sample b target exclude x \<longleftrightarrow>
     (\<exists>env ps. json_Decode decode_curvePoolsEnvelope zero_envelope b = Inr env \<and> ce_Success env \<and> ce_Data env = Some ps \<and>
       (\<exists>pool \<in> set ps. normalised (cp_Address pool) \<notin> set exclude \<and>
         (\<exists>coin \<in> set (cp_Coins pool). normalised (cc_Address coin) = target \<and> cc_USDPrice coin = x))) \<and> 0 < x"

lemma map_filter_D: "x \<in> set (List.map_filter f xs) \<Longrightarrow> \<exists>y \<in> set xs. f y = Some x"
  by (auto simp: List.map_filter_def)

lemma collect_samples:
  assumes "collectCurveUSDPricesFromGetPoolsJSON b target exclude = Inr xs" and "x \<in> set xs"
  shows "curve_sample b target exclude x" and "is_float64 x"
proof -
  obtain env ps where env: "json_Decode decode_curvePoolsEnvelope zero_envelope b = Inr env" "ce_Success env"
    "ce_Data env = Some ps" "xs = List.map_filter (pool_price target exclude) ps"
    using assms(1) by (auto simp: collectCurveUSDPricesFromGetPoolsJSON_def zero_envelope_def split: option.splits if_splits)
  then obtain pool where pool: "pool \<in> set ps" "pool_price target exclude pool = Some x"
    using map_filter_D assms(2) by metis
  then obtain coin where coin: "normalised (cp_Address pool) \<notin> set exclude" "x = cc_USDPrice coin"
    "find (\<lambda>coin. normalised (cc_Address coin) = target \<and> cc_USDPrice coin > 0) (cp_Coins pool) = Some coin"
    by (auto simp: pool_price_def split: if_splits)
  then have c: "coin \<in> set (cp_Coins pool)" "normalised (cc_Address coin) = target" "0 < cc_USDPrice coin"
    by (auto simp: find_Some_iff)
  then show "curve_sample b target exclude x" using env pool coin by (auto simp: curve_sample_def)
  obtain j where "decode_curvePoolsEnvelope zero_envelope j = Inr env" using env(1) by (auto simp: json_Decode_def)
  then have "\<forall>p \<in> set ps. float_pool p"
    using keepsD [OF decode_curvePoolsEnvelope_keeps, of zero_envelope j env] env(3) by (simp add: zero_envelope_def)
  then show "is_float64 x" using pool(1) c(1) coin(2) by (auto simp: float_pool_def float_coin_def)
qed

text \<open>
  A value of the Curve handler that is taken from the pools is a middle one (or between the two in the middle, when their
  sum is in range) of samples of the document and of the document to be merged: positive prices of the target, none of
  them of an excluded pool.
\<close>

theorem curve_price_sound:
  assumes "CurveFactoryPriceHandler_FetchValue httpGet (Inr b) r clk maxDataAge = Inr (Inr v)"
    and "target = normalised (param r ''target_token'')" "exclude = parseExcludedPoolSet (param r ''exclude_pools'')"
    and "collectCurveUSDPricesFromGetPoolsJSON b target exclude = Inr primary" and "primary \<noteq> []"
  shows "\<exists>samples. set primary \<subseteq> set samples \<and>
    (\<forall>x \<in> set samples. curve_sample b target exclude x \<or>
       (\<exists>extra. httpGet (strings_TrimSpace (param r ''merge_get_pools_url'')) = Inr extra \<and> curve_sample extra target exclude x)) \<and>
    (v = FInf False \<or> (\<exists>m. v = FFin m \<and> middle_of m samples))"
proof -
  let ?url = "strings_TrimSpace (param r ''merge_get_pools_url'')"
  define more where "more = (if ?url = [] then [] else case httpGet ?url of Inl e \<Rightarrow> []
    | Inr extra \<Rightarrow> (case collectCurveUSDPricesFromGetPoolsJSON extra target exclude of Inl e \<Rightarrow> [] | Inr m \<Rightarrow> m))"
  have more: "is_float64 x \<and> (\<exists>extra. httpGet ?url = Inr extra \<and> curve_sample extra target exclude x)" if "x \<in> set more" for x
  proof -
    from that obtain extra where e: "httpGet ?url = Inr extra"
      by (cases "httpGet ?url") (auto simp: more_def split: if_splits)
    from that obtain m where "collectCurveUSDPricesFromGetPoolsJSON extra target exclude = Inr m" "x \<in> set m"
      by (cases "collectCurveUSDPricesFromGetPoolsJSON extra target exclude") (auto simp: more_def e split: if_splits)
    with e show ?thesis using collect_samples by blast
  qed
  let ?s = "primary @ more"
  have fl: "\<forall>x \<in> set ?s. 0 < x \<and> is_float64 x"
    using more collect_samples [OF assms(4)] by (auto simp: curve_sample_def)
  have "map_sum id Inr (medianFloat64 (map FFin ?s)) = Inr (Inr v :: rpc_handler_error + float64)"
    using assms(1,4,5) unfolding more_def assms(2,3)
    by (auto simp: CurveFactoryPriceHandler_FetchValue_def Let_def split: if_splits option.splits)
  then have "v = CalculateMedian (map FFin ?s)" using assms(5) by (simp add: medianFloat64_eq)
  then have "v = FInf False \<or> (\<exists>m. v = FFin m \<and> middle_of m ?s)"
    using calculate.between [OF _ fl] assms(5) by auto
  then show ?thesis using more collect_samples(1) [OF assms(4)] by (intro exI [of _ ?s]) auto
qed

section \<open>Applications\<close>

definition demo_reader :: "(string, string) gomap \<Rightarrow> string list \<Rightarrow> rpcReader" where
  "demo_reader ps path = \<lparr>rr_baseURL = ''u'', rr_method = ''GET'', rr_timeoutMs = 1000, rr_maxRetries = 1, rr_Headers = [],
     rr_ResponsePath = path, rr_Query = [], rr_Params = Some ps\<rparr>"

theorem rpc_handlers_no_panic_witness:
  "\<exists>res. CurveFactoryPriceHandler_FetchValue (\<lambda>u. Inl ''down'') (Inr (Inr JNull)) (demo_reader [] []) demo_clock 0 = Inr res"
  using rpc_handlers_no_panic [of "''curve_factory_price''" "\<lambda>parse httpGet fetched r invert usdViaID priceCache clk maxDataAge.
         CurveFactoryPriceHandler_FetchValue httpGet fetched r clk maxDataAge" "\<lambda>_ _. None" "\<lambda>u. Inl ''down''"
      "Inr (Inr JNull)" "demo_reader [] []" False 0 demo_prices demo_clock 0]
  by (simp add: rpc_GetHandler_def rpc_HandlerRegistry_def)

lemma ParseFloat_1: "ParseFloat ''1'' = Some (FFin 1)"
proof -
  have "readFloat ''1'' = Some 1" by code_simp
  moreover have "strings_ToLower ''1'' = ''1''" by code_simp
  ultimately show ?thesis using is_float64_100(3) by (simp add: ParseFloat_def is_float64_def trim_sign_def)
qed

theorem generic_value_in_usd_witness:
  "\<exists>y. GenericHandler_FetchValue (\<lambda>_ _. None) (Inr (Inr (JObj [(''price'', JNum ''1'')]))) (demo_reader [] [''price'']) False
     USDEUSD_ID demo_prices demo_clock 10 = Inr (FFin y) \<and> 0 < y \<and> near 49 1 y"
proof -
  let ?r = "demo_reader [] [''price'']" and ?b = "Inr (JObj [(''price'', JNum ''1'')]) :: body"
  have "ExtractValueFromJSON ?b (rr_ResponsePath ?r) = Inr (JNum ''1'')"
    by (simp add: ExtractValueFromJSON_def json_Decode_def decode_any_def ParseFloat_1 demo_reader_def json_get_def)
  moreover have "json_value (JNum ''1'') = Inr (FFin 1)" by (simp add: json_value_def json_float_def ParseFloat_1)
  moreover have "pow2 (- 900) \<le> 1" "1 < pow2 900" by (simp_all add: pow2_def)
  moreover have "rpc_checkDataAge (hc_checkedAt demo_clock) (data_time (\<lambda>_ _. None) ?r ?b (hc_fetchedAt demo_clock)) 10 = None"
    by (simp add: demo_clock_def data_time_def param_def demo_reader_def rpc_checkDataAge_def time_Sub_def
        maxDuration_int64_def minDuration_int64_def)
  moreover have "USDEUSD_ID \<noteq> 0" by (simp add: USDEUSD_ID_def)
  moreover have "cached_price USDEUSD_ID demo_prices (hc_now demo_clock) = Inr (static_USDEUSD, 1000000)"
    by (simp add: demo_clock_def demo_cached)
  ultimately show ?thesis
    using generic_value_in_usd [of ?b ?r "JNum ''1''" 1 demo_clock "\<lambda>_ _. None" 10 USDEUSD_ID demo_prices static_USDEUSD 1000000]
    by (simp add: power_int_minus)
qed

definition demo_pools :: body where
  "demo_pools = Inr (JObj [(''success'', JBool True), (''data'', JObj [(''poolData'', JArr
     [JObj [(''address'', JStr ''p''), (''coins'', JArr [JObj [(''address'', JStr ''t''), (''usdPrice'', JNum ''1'')]])],
      JObj [(''address'', JStr ''bad''), (''coins'', JArr [JObj [(''address'', JStr ''t''), (''usdPrice'', JNum ''7'')]])]])])])"

lemma ParseFloat_7: "ParseFloat ''7'' = Some (FFin 7)"
proof -
  have "readFloat ''7'' = Some 7" "strings_ToLower ''7'' = ''7''" by code_simp+
  then show ?thesis using is_float64_nat [of 7] by (simp add: ParseFloat_def is_float64_def trim_sign_def)
qed

lemma demo_pools_samples: "collectCurveUSDPricesFromGetPoolsJSON demo_pools ''t'' [''bad''] = Inr [1]"
proof -
  have n: "normalised ''t'' = ''t''" "normalised ''bad'' = ''bad''" "normalised ''p'' = ''p''" by code_simp+
  show ?thesis
    by (simp add: collectCurveUSDPricesFromGetPoolsJSON_def demo_pools_def json_Decode_def decode_curvePoolsEnvelope_def
        decode_struct_def field_decoder_def on_field_def decode_bool_def decode_pointer_def decode_slice_def
        decode_curvePool_def decode_curveCoin_def decode_string_def decode_float64_def ParseFloat_1 ParseFloat_7
        List.map_filter_def pool_price_def n)
qed

theorem curve_price_sound_witness:
  "\<exists>v. CurveFactoryPriceHandler_FetchValue (\<lambda>u. Inl ''down'') (Inr demo_pools)
      (demo_reader [(''target_token'', ''T''), (''exclude_pools'', ''bad'')] []) demo_clock 10 = Inr (Inr v) \<and>
    (\<exists>samples. 1 \<in> set samples \<and> (v = FInf False \<or> (\<exists>m. v = FFin m \<and> middle_of m samples)))"
proof -
  let ?r = "demo_reader [(''target_token'', ''T''), (''exclude_pools'', ''bad'')] []"
  have p: "normalised (param ?r ''target_token'') = ''t''" "parseExcludedPoolSet (param ?r ''exclude_pools'') = [''bad'']"
    "strings_TrimSpace (param ?r ''merge_get_pools_url'') = []" by code_simp+
  have params: "rr_Params ?r = Some [(''target_token'', ''T''), (''exclude_pools'', ''bad'')]" by (simp add: demo_reader_def)
  have run: "CurveFactoryPriceHandler_FetchValue (\<lambda>u. Inl ''down'') (Inr demo_pools) ?r demo_clock 10 =
      Inr (Inr (CalculateMedian [FFin 1]))"
    by (simp add: CurveFactoryPriceHandler_FetchValue_def Let_def p params demo_pools_samples medianFloat64_eq demo_clock_def
        rpc_checkDataAge_def time_Sub_def maxDuration_int64_def minDuration_int64_def)
  from curve_price_sound [OF run p(1) [symmetric] p(2) [symmetric] demo_pools_samples] run show ?thesis by auto
qed

end
