(* ===== verification/CombinedHandlers.thy ===== *)
theory CombinedHandlers
  imports RpcHandlers
begin

text \<open>
  The handlers that combine a contract with JSON endpoints (\<open>custom_query/combined/combined_handler\<close>): the parallel
  fetcher, as a step relation over its goroutines and the waiting handler, and the handlers of SUSN and sFRXUSD over
  what the fetcher has when they read it. Output is left out.
\<close>

section \<open>The parallel fetcher\<close>

text \<open>The bytes of a contract, or those of a JSON document.\<close>

datatype fetched_bytes = ContractBytes bytes | JsonBytes body

record parallelFetcher =
  pf_results :: "(string, fetched_bytes) gomap"
  pf_errors :: "(string, string) gomap"
  pf_pending :: int
  pf_complete :: nat

definition NewParallelFetcher :: parallelFetcher where
  "NewParallelFetcher = \<lparr>pf_results = [], pf_errors = [], pf_pending = 0, pf_complete = 0\<rparr>"

definition GetResult :: "parallelFetcher \<Rightarrow> string \<Rightarrow> string + fetched_bytes" where
  "GetResult p key =
     (case map_of (pf_errors p) key of
        Some err \<Rightarrow> Inl err
      | None \<Rightarrow> (case map_of (pf_results p) key of
          None \<Rightarrow> Inl (''no result found for key: '' @ key) | Some result \<Rightarrow> Inr result))"

text \<open>
  The goroutine of a key: it fetches, stores its result or error, counts itself off, and sends to the channel of 16
  places. The handler starts goroutines, then waits: until no one is pending, or the context ends.
\<close>

datatype fetch_phase = Fetching | StoredResult | CountedOff | Gone
datatype wait_state = NotWaiting | WaitingFor int | AllFetched | GaveUp

record fetch_run =
  fr_fetcher :: parallelFetcher
  fr_phase :: "(string, fetch_phase) gomap"
  fr_wait :: wait_state

definition initial_run :: fetch_run where
  "initial_run = \<lparr>fr_fetcher = NewParallelFetcher, fr_phase = [], fr_wait = NotWaiting\<rparr>"

definition store :: "string \<Rightarrow> string + fetched_bytes \<Rightarrow> parallelFetcher \<Rightarrow> parallelFetcher" where
  "store key outcome p =
     (case outcome of
        Inl err \<Rightarrow> p\<lparr>pf_errors := mput key err (pf_errors p)\<rparr>
      | Inr result \<Rightarrow> p\<lparr>pf_results := mput key result (pf_results p)\<rparr>)"

definition await :: "int \<Rightarrow> wait_state" where
  "await pending = (if pending > 0 then WaitingFor pending else AllFetched)"

inductive fetch_step :: "fetch_run \<Rightarrow> fetch_run \<Rightarrow> bool" where
  start: "fr_wait s = NotWaiting \<Longrightarrow> map_of (fr_phase s) key = None \<Longrightarrow>
    fetch_step s (s\<lparr>fr_fetcher := (fr_fetcher s)\<lparr>pf_pending := pf_pending (fr_fetcher s) + 1\<rparr>,
      fr_phase := mput key Fetching (fr_phase s)\<rparr>)"
| stored: "map_of (fr_phase s) key = Some Fetching \<Longrightarrow>
    fetch_step s (s\<lparr>fr_fetcher := store key outcome (fr_fetcher s), fr_phase := mput key StoredResult (fr_phase s)\<rparr>)"
| markDone: "map_of (fr_phase s) key = Some StoredResult \<Longrightarrow>
    fetch_step s (s\<lparr>fr_fetcher := (fr_fetcher s)\<lparr>pf_pending := pf_pending (fr_fetcher s) - 1\<rparr>,
      fr_phase := mput key CountedOff (fr_phase s)\<rparr>)"
| send: "map_of (fr_phase s) key = Some CountedOff \<Longrightarrow> pf_complete (fr_fetcher s) < 16 \<Longrightarrow>
    fetch_step s (s\<lparr>fr_fetcher := (fr_fetcher s)\<lparr>pf_complete := pf_complete (fr_fetcher s) + 1\<rparr>,
      fr_phase := mput key Gone (fr_phase s)\<rparr>)"
| wait: "fr_wait s = NotWaiting \<Longrightarrow> fetch_step s (s\<lparr>fr_wait := await (pf_pending (fr_fetcher s))\<rparr>)"
| receive: "fr_wait s = WaitingFor n \<Longrightarrow> pf_complete (fr_fetcher s) > 0 \<Longrightarrow>
    fetch_step s (s\<lparr>fr_fetcher := (fr_fetcher s)\<lparr>pf_complete := pf_complete (fr_fetcher s) - 1\<rparr>,
      fr_wait := await (pf_pending (fr_fetcher s))\<rparr>)"
| expired: "fr_wait s = WaitingFor n \<Longrightarrow> fetch_step s (s\<lparr>fr_wait := GaveUp\<rparr>)"

inductive_cases fetch_stepE: "fetch_step s s'"

section \<open>A wait that ends has all results\<close>

definition phase_stored :: "fetch_phase option \<Rightarrow> bool" where
  "phase_stored ph \<longleftrightarrow> ph \<in> {Some StoredResult, Some CountedOff, Some Gone}"

definition counts_in :: "fetch_phase \<Rightarrow> bool" where
  "counts_in ph \<longleftrightarrow> ph = Fetching \<or> ph = StoredResult"

definition in_flight :: "fetch_run \<Rightarrow> nat" where
  "in_flight s = length (filter (counts_in \<circ> snd) (fr_phase s))"

definition has_outcome :: "parallelFetcher \<Rightarrow> string \<Rightarrow> bool" where
  "has_outcome p key \<longleftrightarrow> map_of (pf_errors p) key \<noteq> None \<or> map_of (pf_results p) key \<noteq> None"

definition fetch_inv :: "fetch_run \<Rightarrow> bool" where
  "fetch_inv s \<longleftrightarrow> gomap_ok (fr_phase s) \<and> pf_pending (fr_fetcher s) = int (in_flight s) \<and>
     (\<forall>key. phase_stored (map_of (fr_phase s) key) \<longrightarrow> has_outcome (fr_fetcher s) key) \<and>
     (fr_wait s = AllFetched \<longrightarrow> in_flight s = 0)"

lemma in_flight_put:
  "gomap_ok m \<Longrightarrow> length (filter (P \<circ> snd) (mput k v m)) + (case map_of m k of Some w \<Rightarrow> if P w then 1 else 0 | None \<Rightarrow> 0) =
     length (filter (P \<circ> snd) m) + (if P v then 1 else (0 :: nat))"
proof (induction m)
  case (Cons kw m)
  obtain k' w where kw: "kw = (k', w)" by (cases kw)
  show ?case
  proof (cases "k' = k")
    case True
    then have "map_of m k = None" using Cons.prems kw by (auto simp: map_of_eq_None_iff)
    then show ?thesis using True kw by simp
  next
    case False
    then show ?thesis using Cons kw by (auto split: option.splits)
  qed
qed simp

lemma in_flight_move:
  assumes "gomap_ok (fr_phase s)" and "map_of (fr_phase s) key = Some w" and "fr_phase s' = mput key v (fr_phase s)"
  shows "in_flight s' + (if counts_in w then 1 else 0) = in_flight s + (if counts_in v then 1 else 0)"
  using in_flight_put [OF assms(1), of counts_in key v] assms(2,3) by (simp add: in_flight_def)

lemma await_AllFetched: "await n = AllFetched \<longleftrightarrow> n \<le> 0"
  by (simp add: await_def)

lemma has_outcome_store: "has_outcome (store key out p) k \<longleftrightarrow> k = key \<or> has_outcome p k"
  by (auto simp: has_outcome_def store_def split: sum.splits)

lemma pf_pending_store [simp]: "pf_pending (store key out p) = pf_pending p"
  by (simp add: store_def split: sum.split)

lemma has_outcome_counters [simp]:
  "has_outcome (p\<lparr>pf_pending := n\<rparr>) k = has_outcome p k" "has_outcome (p\<lparr>pf_complete := m\<rparr>) k = has_outcome p k"
  by (simp_all add: has_outcome_def)

lemma fetch_step_inv:
  assumes "fetch_step s s'" and inv: "fetch_inv s"
  shows "fetch_inv s'"
proof -
  have parts: "gomap_ok (fr_phase s)" "pf_pending (fr_fetcher s) = int (in_flight s)"
    "\<And>key. phase_stored (map_of (fr_phase s) key) \<Longrightarrow> has_outcome (fr_fetcher s) key"
    "fr_wait s = AllFetched \<Longrightarrow> in_flight s = 0" using inv by (simp_all add: fetch_inv_def)
  note ok = parts(1) distinct_update [OF parts(1)]
  from assms(1) show ?thesis
  proof cases
    case (start key)
    then have "in_flight s' = in_flight s + 1"
      using in_flight_put [OF parts(1), of counts_in key Fetching] by (simp add: in_flight_def counts_in_def)
    then show ?thesis using start parts ok by (auto simp: fetch_inv_def phase_stored_def)
  next
    case (stored key outcome)
    then have "in_flight s' = in_flight s"
      using in_flight_move [OF parts(1) stored(2), of s' StoredResult] by (simp add: counts_in_def)
    then show ?thesis using stored parts ok by (auto simp: fetch_inv_def has_outcome_store split: if_splits)
  next
    case (markDone key)
    then have "in_flight s' + 1 = in_flight s"
      using in_flight_move [OF parts(1) markDone(2), of s' CountedOff] by (simp add: counts_in_def)
    then show ?thesis using markDone parts ok by (auto simp: fetch_inv_def phase_stored_def split: if_splits)
  next
    case (send key)
    then have "in_flight s' = in_flight s"
      using in_flight_move [OF parts(1) send(2), of s' Gone] by (simp add: counts_in_def)
    then show ?thesis using send parts ok by (auto simp: fetch_inv_def phase_stored_def split: if_splits)
  next
    case wait
    then show ?thesis using parts by (auto simp: fetch_inv_def in_flight_def await_AllFetched)
  next
    case (receive n)
    then show ?thesis using parts by (auto simp: fetch_inv_def in_flight_def await_AllFetched)
  next
    case (expired n)
    then show ?thesis using parts by (auto simp: fetch_inv_def in_flight_def)
  qed
qed

lemma fetch_inv_reachable: "fetch_step\<^sup>*\<^sup>* initial_run s \<Longrightarrow> fetch_inv s"
proof (induction rule: rtranclp_induct)
  case base
  show ?case by (simp add: fetch_inv_def initial_run_def NewParallelFetcher_def in_flight_def phase_stored_def)
next
  case (step s s')
  then show ?case by (auto intro: fetch_step_inv)
qed

text \<open>
  However the goroutines and the handler interleave: when the wait ends because no fetch is pending, every fetch that was
  started has left its result or its error for the handler to read, none is missing; and the count of pending fetches is
  never negative.
\<close>

theorem wait_has_all_results:
  assumes "fetch_step\<^sup>*\<^sup>* initial_run s"
  shows "0 \<le> pf_pending (fr_fetcher s) \<and>
    (fr_wait s = AllFetched \<longrightarrow> (\<forall>key \<in> set (map fst (fr_phase s)). has_outcome (fr_fetcher s) key))"
proof -
  have inv: "fetch_inv s" by (rule fetch_inv_reachable [OF assms])
  have "has_outcome (fr_fetcher s) key" if "fr_wait s = AllFetched" "(key, ph) \<in> set (fr_phase s)" for key ph
  proof -
    have "filter (counts_in \<circ> snd) (fr_phase s) = []" using inv that(1) by (simp add: fetch_inv_def in_flight_def)
    then have "\<not> counts_in ph" using that(2) by (auto simp: filter_empty_conv)
    then have "phase_stored (Some ph)" by (cases ph) (simp_all add: counts_in_def phase_stored_def)
    moreover have "map_of (fr_phase s) key = Some ph" using inv that(2) by (simp add: fetch_inv_def)
    ultimately show ?thesis using inv by (simp add: fetch_inv_def)
  qed
  then show ?thesis using inv by (auto simp: fetch_inv_def)
qed

text \<open>
  No wake-up is lost: while the handler waits, it has a message to receive, or some goroutine has a step to do that leads
  to one. The context is not needed for it to go on.
\<close>

definition wait_inv :: "fetch_run \<Rightarrow> bool" where
  "wait_inv s \<longleftrightarrow> (\<forall>n. fr_wait s = WaitingFor n \<longrightarrow>
     pf_complete (fr_fetcher s) > 0 \<or> (\<exists>key ph. map_of (fr_phase s) key = Some ph \<and> ph \<noteq> Gone))"

lemma await_WaitingFor: "await k = WaitingFor n \<longleftrightarrow> k = n \<and> n > 0"
  by (auto simp: await_def)

lemma in_flight_someone:
  assumes "fetch_inv s" and "pf_pending (fr_fetcher s) > 0"
  shows "\<exists>key ph. map_of (fr_phase s) key = Some ph \<and> ph \<noteq> Gone"
proof -
  have "filter (counts_in \<circ> snd) (fr_phase s) \<noteq> []" using assms by (auto simp: fetch_inv_def in_flight_def)
  then obtain key ph where kp: "(key, ph) \<in> set (fr_phase s)" "counts_in ph" by (auto simp: filter_empty_conv)
  then have "map_of (fr_phase s) key = Some ph" using assms(1) by (simp add: fetch_inv_def)
  then show ?thesis using kp(2) by (auto simp: counts_in_def)
qed

lemma wait_step_inv:
  assumes "fetch_step s s'" and inv: "fetch_inv s" and w: "wait_inv s"
  shows "wait_inv s'"
  using assms(1)
proof cases
  case (stored key outcome)
  have "map_of (fr_phase s') key = Some StoredResult" using stored by simp
  then show ?thesis unfolding wait_inv_def by (metis fetch_phase.distinct(9))
next
  case (markDone key)
  have "map_of (fr_phase s') key = Some CountedOff" using markDone by simp
  then show ?thesis unfolding wait_inv_def by (metis fetch_phase.distinct(11))
next
  case wait
  then show ?thesis using in_flight_someone [OF inv] by (auto simp: wait_inv_def await_WaitingFor)
next
  case (receive n)
  then show ?thesis using in_flight_someone [OF inv] by (auto simp: wait_inv_def await_WaitingFor)
qed (auto simp: wait_inv_def)

lemma wait_inv_reachable: "fetch_step\<^sup>*\<^sup>* initial_run s \<Longrightarrow> wait_inv s"
proof (induction rule: rtranclp_induct)
  case base
  show ?case by (simp add: wait_inv_def initial_run_def)
next
  case (step s s')
  then show ?case by (auto intro: wait_step_inv fetch_inv_reachable)
qed

text \<open>
  C9: no wake-up is lost: in every state of the parallel fetcher that can be reached, while the handler waits for results,
  there is a step to do that does not give up. The handler need not wait for the context to end.
\<close>

theorem wait_progress:
  assumes "fetch_step\<^sup>*\<^sup>* initial_run s" and "fr_wait s = WaitingFor n"
  shows "\<exists>s'. fetch_step s s' \<and> fr_wait s' \<noteq> GaveUp"
proof (cases "pf_complete (fr_fetcher s) > 0")
  case True
  have n: "await k \<noteq> GaveUp" for k by (simp add: await_def)
  show ?thesis by (intro exI conjI, rule fetch_step.receive [OF assms(2) True]) (simp add: n)
next
  case False
  then obtain key ph where "map_of (fr_phase s) key = Some ph" "ph \<noteq> Gone"
    using wait_inv_reachable [OF assms(1)] assms(2) by (auto simp: wait_inv_def)
  then consider "map_of (fr_phase s) key = Some Fetching" | "map_of (fr_phase s) key = Some StoredResult"
    | "map_of (fr_phase s) key = Some CountedOff" by (cases ph) auto
  then show ?thesis
  proof cases
    case 1
    show ?thesis by (intro exI conjI, rule fetch_step.stored [OF 1]) (simp add: assms(2))
  next
    case 2
    show ?thesis by (intro exI conjI, rule fetch_step.markDone [OF 2]) (simp add: assms(2))
  next
    case 3
    show ?thesis by (intro exI conjI, rule fetch_step.send [OF 3]) (use False assms(2) in simp_all)
  qed
qed

text \<open>One fetch, that ends before the handler waits, and one that ends while it waits.\<close>

definition demo_done :: fetch_run where
  "demo_done = \<lparr>fr_fetcher = \<lparr>pf_results = [(''rate'', ContractBytes [])], pf_errors = [], pf_pending = 0, pf_complete = 0\<rparr>,
     fr_phase = [(''rate'', CountedOff)], fr_wait = AllFetched\<rparr>"

lemma demo_done_reachable: "fetch_step\<^sup>*\<^sup>* initial_run demo_done"
proof -
  define s1 where "s1 = initial_run\<lparr>fr_fetcher := NewParallelFetcher\<lparr>pf_pending := 1\<rparr>, fr_phase := [(''rate'', Fetching)]\<rparr>"
  define s2 where "s2 = s1\<lparr>fr_fetcher := store ''rate'' (Inr (ContractBytes [])) (fr_fetcher s1),
    fr_phase := [(''rate'', StoredResult)]\<rparr>"
  define s3 where "s3 = s2\<lparr>fr_fetcher := (fr_fetcher s2)\<lparr>pf_pending := 0\<rparr>, fr_phase := [(''rate'', CountedOff)]\<rparr>"
  note run = s1_def s2_def s3_def initial_run_def NewParallelFetcher_def store_def demo_done_def await_def
  have "fetch_step initial_run s1" using fetch_step.start [of initial_run "''rate''"] by (simp add: run)
  moreover have "fetch_step s1 s2"
    using fetch_step.stored [of s1 "''rate''" "Inr (ContractBytes [])"] by (simp add: run)
  moreover have "fetch_step s2 s3" using fetch_step.markDone [of s2 "''rate''"] by (simp add: run)
  moreover have "fetch_step s3 demo_done" using fetch_step.wait [of s3] by (simp add: run)
  ultimately show ?thesis by (meson converse_rtranclp_into_rtranclp rtranclp.rtrancl_refl)
qed

definition demo_waiting :: fetch_run where
  "demo_waiting = initial_run\<lparr>fr_fetcher := NewParallelFetcher\<lparr>pf_pending := 1\<rparr>, fr_phase := [(''rate'', Fetching)],
     fr_wait := WaitingFor 1\<rparr>"

lemma demo_waiting_reachable: "fetch_step\<^sup>*\<^sup>* initial_run demo_waiting"
proof -
  define s1 where "s1 = initial_run\<lparr>fr_fetcher := NewParallelFetcher\<lparr>pf_pending := 1\<rparr>, fr_phase := [(''rate'', Fetching)]\<rparr>"
  have "fetch_step initial_run s1"
    using fetch_step.start [of initial_run "''rate''"] by (simp add: s1_def initial_run_def NewParallelFetcher_def)
  moreover have "fetch_step s1 demo_waiting"
    using fetch_step.wait [of s1] by (simp add: s1_def demo_waiting_def initial_run_def NewParallelFetcher_def await_def)
  ultimately show ?thesis by (meson converse_rtranclp_into_rtranclp rtranclp.rtrancl_refl)
qed

theorem wait_progress_witness: "\<exists>s'. fetch_step demo_waiting s' \<and> fr_wait s' \<noteq> GaveUp"
  by (rule wait_progress [OF demo_waiting_reachable, of 1]) (simp add: demo_waiting_def)

theorem wait_has_all_results_witness:
  "(0 \<le> pf_pending (fr_fetcher demo_done) \<and>
     (fr_wait demo_done = AllFetched \<longrightarrow>
        (\<forall>key \<in> set (map fst (fr_phase demo_done)). has_outcome (fr_fetcher demo_done) key))) \<and>
   fr_wait demo_done = AllFetched \<and> map fst (fr_phase demo_done) = [''rate'']"
  by (intro conjI wait_has_all_results [OF demo_done_reachable, THEN conjunct1]
      wait_has_all_results [OF demo_done_reachable, THEN conjunct2]) (simp_all add: demo_done_def)

section \<open>What the handlers share\<close>

definition combined_checkDataAge :: "gotime \<Rightarrow> gotime \<Rightarrow> duration \<Rightarrow> duration option" where
  "combined_checkDataAge now dataTime maxDataAge =
     (if maxDataAge \<le> 0 then None
      else let age = time_Sub now dataTime in if age > maxDataAge then Some age else None)"

definition STAKED_USN_CONTRACT :: string where
  "STAKED_USN_CONTRACT = ''0xe24a3dc889621612422a64e6388927901608b91d''"

datatype combined_error =
    CNoContractReader
  | CNoRpcReaders
  | CDataAge duration
  | CConversion string
  | CZeroRate
  | CInsufficient nat int
  | CSpread float64
  | CMedian float64

text \<open>The bytes of a key: a handler asks with the key of a contract, or with that of a document.\<close>

definition GetContractBytes :: "parallelFetcher \<Rightarrow> string \<Rightarrow> string + bytes" where
  "GetContractBytes p key =
     bindE (GetResult p key) (\<lambda>r. case r of ContractBytes b \<Rightarrow> Inr b | JsonBytes d \<Rightarrow> Inl ''document'')"

definition GetDocument :: "parallelFetcher \<Rightarrow> string \<Rightarrow> string + body" where
  "GetDocument p key =
     bindE (GetResult p key) (\<lambda>r. case r of JsonBytes d \<Rightarrow> Inr d | ContractBytes b \<Rightarrow> Inl ''contract'')"

text \<open>The loop over the prices for the least and the greatest.\<close>

fun min_max :: "float64 list \<Rightarrow> float64 \<Rightarrow> float64 \<Rightarrow> float64 \<times> float64" where
  "min_max [] minPrice maxPrice = (minPrice, maxPrice)"
| "min_max (p # ps) minPrice maxPrice =
     min_max ps (if f64_less p minPrice then p else minPrice) (if f64_less maxPrice p then p else maxPrice)"

definition price_spread :: "float64 \<Rightarrow> float64 \<Rightarrow> float64" where
  "price_spread minPrice maxPrice = f64_mul (f64_div (f64_sub maxPrice minPrice) minPrice) (FFin 100)"

section \<open>SUSN\<close>

fun susn_path :: "json \<Rightarrow> string list \<Rightarrow> string + json" where
  "susn_path current [] = Inr current"
| "susn_path current (key # path) =
     (case current of
        JObj m \<Rightarrow> (case json_get m key of None \<Rightarrow> Inl ''key not found'' | Some j \<Rightarrow> susn_path j path)
      | _ \<Rightarrow> Inl ''unexpected type'')"

definition susn_extractPrice :: "body \<Rightarrow> string list \<Rightarrow> string + float64" where
  "susn_extractPrice data path =
     bindE (json_Decode decode_any JNull data) (\<lambda>result.
     bindE (susn_path result path) (\<lambda>current.
       case current of
         JNum s \<Rightarrow> Inr (FFin (json_float s))
       | JStr s \<Rightarrow> (case Sscanf_f s of None \<Rightarrow> Inl ''failed to parse price string'' | Some f \<Rightarrow> Inr f)
       | _ \<Rightarrow> Inl ''unexpected price type''))"

text \<open>The price of a source, if it can be fetched and extracted.\<close>

definition susn_price :: "parallelFetcher \<Rightarrow> string \<times> rpcReader \<Rightarrow> float64 option" where
  "susn_price p nr =
     (case GetDocument p (''price_'' @ fst nr) of
        Inl e \<Rightarrow> None
      | Inr priceBytes \<Rightarrow>
          (case susn_extractPrice priceBytes (rr_ResponsePath (snd nr)) of Inl e \<Rightarrow> None | Inr price \<Rightarrow> Some price))"

text \<open>From the prices on: \<open>prices[0]\<close> of no prices panics.\<close>

definition susn_combine :: "float64 \<Rightarrow> float64 list \<Rightarrow> int \<Rightarrow> float64 \<Rightarrow> go_panic + combined_error + float64" where
  "susn_combine conversionRate prices minResponses maxSpreadPercent =
     (if int (length prices) < minResponses then Inr (Inl (CInsufficient (length prices) minResponses))
      else if prices = [] then Inl PanicIndexOutOfRange
      else
        let (minPrice, maxPrice) = min_max prices (prices ! 0) (prices ! 0) in
        if f64_less (FFin 0) minPrice \<and> f64_less maxSpreadPercent (price_spread minPrice maxPrice)
        then Inr (Inl (CSpread (price_spread minPrice maxPrice)))
        else Inr (Inr (f64_mul conversionRate (susn_calculateMedian prices))))"

definition SUSNPriceHandler_FetchValue ::
    "(string, contractReader) gomap \<Rightarrow> (string, rpcReader) gomap \<Rightarrow> parallelFetcher \<Rightarrow> handler_clock \<Rightarrow> int \<Rightarrow> float64 \<Rightarrow>
     duration \<Rightarrow> go_panic + combined_error + float64" where
  "SUSNPriceHandler_FetchValue contractReaders rpcReaders p clk minResponses maxSpreadPercent maxDataAge =
     (if map_of contractReaders ''ethereum'' = None then Inr (Inl CNoContractReader)
      else if rpcReaders = [] then Inr (Inl CNoRpcReaders)
      else case combined_checkDataAge (hc_checkedAt clk) (hc_fetchedAt clk) maxDataAge of
        Some age \<Rightarrow> Inr (Inl (CDataAge age))
      | None \<Rightarrow>
          (case GetContractBytes p ''conversion_rate'' of
             Inl e \<Rightarrow> Inr (Inl (CConversion e))
           | Inr conversionBytes \<Rightarrow>
               susn_combine (big_quotient (be_value conversionBytes) (big_Exp10 18))
                 (List.map_filter (susn_price p) rpcReaders) minResponses maxSpreadPercent))"

section \<open>sFRXUSD\<close>

definition coingecko_price :: "body \<Rightarrow> rat option" where
  "coingecko_price b =
     (case json_Decode (decode_map (decode_map decode_float64 0) []) [] b of
        Inl e \<Rightarrow> None
      | Inr cgResponse \<Rightarrow> (case map_of cgResponse ''frax'' of None \<Rightarrow> None | Some fraxData \<Rightarrow> map_of fraxData ''usd''))"

text \<open>The documents of Curve and CoinPaprika have one number that is read.\<close>

definition decode_curve_usd :: "rat decoder" where
  "decode_curve_usd = decode_struct [(''data'', decode_struct [(''usd_price'', decode_float64)])]"

definition decode_coinpaprika_usd :: "rat decoder" where
  "decode_coinpaprika_usd =
     decode_struct [(''quotes'', decode_struct [(''USD'', decode_struct [(''price'', decode_float64)])])]"

definition positive_price :: "rat decoder \<Rightarrow> body \<Rightarrow> rat option" where
  "positive_price dec b = (case json_Decode dec 0 b of Inl e \<Rightarrow> None | Inr x \<Rightarrow> if x > 0 then Some x else None)"

definition frx_price :: "parallelFetcher \<Rightarrow> string \<Rightarrow> (body \<Rightarrow> rat option) \<Rightarrow> float64 list" where
  "frx_price p key parse =
     (case GetDocument p key of
        Inl e \<Rightarrow> []
      | Inr result \<Rightarrow> (case parse result of None \<Rightarrow> [] | Some price \<Rightarrow> [FFin price]))"

definition frx_combine :: "float64 \<Rightarrow> float64 list \<Rightarrow> int \<Rightarrow> float64 \<Rightarrow> go_panic + combined_error + float64" where
  "frx_combine fundamentalRate frxPrices minResponses maxSpreadPercent =
     (if int (length frxPrices) < minResponses then Inr (Inl (CInsufficient (length frxPrices) minResponses))
      else if frxPrices = [] then Inl PanicIndexOutOfRange
      else
        let (minPrice, maxPrice) = min_max frxPrices (frxPrices ! 0) (frxPrices ! 0);
            spreadPercent = price_spread minPrice maxPrice
        in if f64_less maxSpreadPercent spreadPercent then Inr (Inl (CSpread spreadPercent))
           else
             let medianFrxUsdPrice = CalculateMedian frxPrices in
             if f64_le medianFrxUsdPrice (FFin 0) then Inr (Inl (CMedian medianFrxUsdPrice))
             else Inr (Inr (f64_mul fundamentalRate medianFrxUsdPrice)))"

text \<open>
  A source without a reader is never fetched, so its key has no result. A negative zero of CoinGecko is read as zero.
\<close>

definition SFRXUSDPriceHandler_FetchValue ::
    "(string, contractReader) gomap \<Rightarrow> parallelFetcher \<Rightarrow> handler_clock \<Rightarrow> int \<Rightarrow> float64 \<Rightarrow> duration \<Rightarrow>
     go_panic + combined_error + float64" where
  "SFRXUSDPriceHandler_FetchValue contractReaders p clk minResponses maxSpreadPercent maxDataAge =
     (if map_of contractReaders ''ethereum'' = None then Inr (Inl CNoContractReader)
      else case combined_checkDataAge (hc_checkedAt clk) (hc_fetchedAt clk) maxDataAge of
        Some age \<Rightarrow> Inr (Inl (CDataAge age))
      | None \<Rightarrow>
          (case GetContractBytes p ''price_per_share'' of
             Inl e \<Rightarrow> Inr (Inl (CConversion e))
           | Inr pricePerShareBytes \<Rightarrow>
               if be_value pricePerShareBytes = 0 then Inr (Inl CZeroRate)
               else
                 frx_combine (big_quotient (be_value pricePerShareBytes) (big_Exp10 18))
                   (frx_price p ''frx_coingecko'' coingecko_price @
                    frx_price p ''frx_curve'' (positive_price decode_curve_usd) @
                    frx_price p ''frx_coinpaprika'' (positive_price decode_coinpaprika_usd))
                   minResponses maxSpreadPercent))"

section \<open>The registry\<close>

datatype combined_handler_kind = SUSNPriceHandler | SFRXUSDPriceHandler

definition combined_HandlerRegistry :: "(string, combined_handler_kind) gomap" where
  "combined_HandlerRegistry = [(''sfrxusd_price'', SFRXUSDPriceHandler), (''susn_price'', SUSNPriceHandler)]"

definition combined_GetHandler :: "string \<Rightarrow> combined_handler_kind option" where
  "combined_GetHandler name = map_of combined_HandlerRegistry name"

section \<open>What the handlers accept\<close>

lemma min_max_finite:
  "min_max (map FFin xs) (FFin a) (FFin b) = (FFin (fold min xs a), FFin (fold max xs b))"
  by (induction xs arbitrary: a b) (simp_all add: min_def max_def, (metis linorder_not_less order_le_less)?)

lemma min_max_set:
  assumes "xs \<noteq> []"
  shows "min_max (map FFin xs) (map FFin xs ! 0) (map FFin xs ! 0) = (FFin (Min (set xs)), FFin (Max (set xs)))"
proof -
  obtain y ys where "xs = y # ys" using assms by (auto simp: neq_Nil_conv)
  then show ?thesis using Min.set_eq_fold [of y ys] Max.set_eq_fold [of y ys] by (simp add: min_max_finite)
qed

lemma susn_combine_finite:
  assumes "xs \<noteq> []" and "minResponses \<le> int (length xs)"
  shows "susn_combine rate (map FFin xs) minResponses sp =
    (let spread = price_spread (FFin (Min (set xs))) (FFin (Max (set xs))) in
     if 0 < Min (set xs) \<and> f64_less sp spread then Inr (Inl (CSpread spread))
     else Inr (Inr (f64_mul rate (susn_calculateMedian (map FFin xs)))))"
  using assms min_max_set [OF assms(1)] by (simp add: susn_combine_def Let_def)

lemma frx_combine_finite:
  assumes "xs \<noteq> []" and "minResponses \<le> int (length xs)"
  shows "frx_combine rate (map FFin xs) minResponses sp =
    (let spread = price_spread (FFin (Min (set xs))) (FFin (Max (set xs))); med = CalculateMedian (map FFin xs) in
     if f64_less sp spread then Inr (Inl (CSpread spread))
     else if f64_le med (FFin 0) then Inr (Inl (CMedian med)) else Inr (Inr (f64_mul rate med)))"
  using assms min_max_set [OF assms(1)] by (simp add: frx_combine_def Let_def)

text \<open>For positive prices, what is accepted is the rate times a value within the range of the prices, which is narrow.\<close>

definition agreed_price :: "float64 \<Rightarrow> float64 \<Rightarrow> rat list \<Rightarrow> float64 \<Rightarrow> bool" where
  "agreed_price rate sp xs v \<longleftrightarrow>
     (\<exists>med. v = f64_mul rate med \<and> (med = FInf False \<or> (\<exists>m. med = FFin m \<and> Min (set xs) \<le> m \<and> m \<le> Max (set xs)))) \<and>
     (\<forall>r. sp = FFin r \<longrightarrow>
       (Max (set xs) - Min (set xs)) / Min (set xs) * 100 * (1 - 1 / 2 ^ 53) ^ 3 \<le> r + pow2 (- 1000))"

lemma agreed_price_intro:
  assumes "xs \<noteq> []" and pos: "\<forall>x \<in> set xs. 0 < x \<and> is_float64 x"
    and acc: "\<not> f64_less sp (price_spread (FFin (Min (set xs))) (FFin (Max (set xs))))"
  shows "agreed_price rate sp xs (f64_mul rate (CalculateMedian (map FFin xs)))"
proof -
  have ends: "is_float64 (Min (set xs))" "0 < Min (set xs)" "is_float64 (Max (set xs))" "Min (set xs) \<le> Max (set xs)"
    using assms(1) pos Min_in [of "set xs"] Max_in [of "set xs"] by (auto intro: Min_le)
  show ?thesis
    using calculate.between [OF assms(1) pos] calculate.in_range [OF assms(1) pos]
      spread_percent_bound [OF ends] acc unfolding agreed_price_def price_spread_def by blast
qed

definition positive_floats :: "float64 list \<Rightarrow> bool" where
  "positive_floats ps \<longleftrightarrow> (\<forall>p \<in> set ps. \<exists>x. p = FFin x \<and> 0 < x \<and> is_float64 x)"

lemma positive_floatsE:
  assumes "positive_floats ps"
  obtains xs where "ps = map FFin xs" and "\<forall>x \<in> set xs. 0 < x \<and> is_float64 x"
proof -
  let ?val = "\<lambda>p. case p of FFin x \<Rightarrow> x | _ \<Rightarrow> 0"
  have "ps = map FFin (map ?val ps)" using assms by (auto simp: positive_floats_def comp_def intro!: map_idI [symmetric])
  moreover have "\<forall>x \<in> set (map ?val ps). 0 < x \<and> is_float64 x" using assms by (auto simp: positive_floats_def)
  ultimately show thesis using that by blast
qed

lemma combine_sound:
  assumes "positive_floats ps" and "0 < minResponses"
    and "susn_combine rate ps minResponses sp = Inr (Inr v) \<or> frx_combine rate ps minResponses sp = Inr (Inr v)"
  obtains xs where "ps = map FFin xs" and "minResponses \<le> int (length xs)" and "agreed_price rate sp xs v"
proof -
  obtain xs where xs: "ps = map FFin xs" "\<forall>x \<in> set xs. 0 < x \<and> is_float64 x" using positive_floatsE [OF assms(1)] .
  have enough: "minResponses \<le> int (length xs)"
    using assms(3) xs(1) by (auto simp: susn_combine_def frx_combine_def split: if_splits)
  then have ne: "xs \<noteq> []" using assms(2) by auto
  then have "0 < Min (set xs)" using xs(2) by simp
  then have "\<not> f64_less sp (price_spread (FFin (Min (set xs))) (FFin (Max (set xs))))"
    and "v = f64_mul rate (CalculateMedian (map FFin xs))"
    using assms(3) unfolding xs(1) susn_combine_finite [OF ne enough] frx_combine_finite [OF ne enough]
    by (auto simp: Let_def susn_calculateMedian_eq split: if_splits)
  then show thesis using that [OF xs(1) enough] agreed_price_intro [OF ne xs(2)] by blast
qed

text \<open>The prices the handlers combine.\<close>

definition susn_prices :: "parallelFetcher \<Rightarrow> (string, rpcReader) gomap \<Rightarrow> float64 list" where
  "susn_prices p rpcReaders = List.map_filter (susn_price p) rpcReaders"

definition frx_prices :: "parallelFetcher \<Rightarrow> float64 list" where
  "frx_prices p =
     frx_price p ''frx_coingecko'' coingecko_price @ frx_price p ''frx_curve'' (positive_price decode_curve_usd) @
     frx_price p ''frx_coinpaprika'' (positive_price decode_coinpaprika_usd)"

definition contract_rate :: "bytes \<Rightarrow> float64" where
  "contract_rate b = big_quotient (be_value b) (big_Exp10 18)"

lemma susn_FetchValue_Inr:
  assumes "SUSNPriceHandler_FetchValue crs rrs p clk n sp age = Inr (Inr v)"
  obtains b where "GetContractBytes p ''conversion_rate'' = Inr b"
    and "susn_combine (contract_rate b) (susn_prices p rrs) n sp = Inr (Inr v)"
  using assms by (auto simp: SUSNPriceHandler_FetchValue_def susn_prices_def contract_rate_def
      split: if_splits option.splits sum.splits)

lemma frx_FetchValue_Inr:
  assumes "SFRXUSDPriceHandler_FetchValue crs p clk n sp age = Inr (Inr v)"
  obtains b where "GetContractBytes p ''price_per_share'' = Inr b" and "be_value b \<noteq> 0"
    and "frx_combine (contract_rate b) (frx_prices p) n sp = Inr (Inr v)"
  using assms by (auto simp: SFRXUSDPriceHandler_FetchValue_def frx_prices_def contract_rate_def
      split: if_splits option.splits sum.splits)


text \<open>The order in which the sources are visited, that of a Go map, does not matter when their prices are numbers.\<close>

theorem susn_order_irrelevant:
  assumes "mset rpcReaders = mset rpcReaders'" and "\<forall>x \<in> set (susn_prices p rpcReaders). \<exists>r. x = FFin r"
  shows "SUSNPriceHandler_FetchValue crs rpcReaders p clk n sp age = SUSNPriceHandler_FetchValue crs rpcReaders' p clk n sp age"
proof -
  have filter: "mset (susn_prices p rrs) = image_mset the (filter_mset (\<lambda>q. q \<noteq> None) (image_mset (susn_price p) (mset rrs)))" for rrs
    by (induction rrs) (auto simp: susn_prices_def List.map_filter_def)
  let ?val = "\<lambda>p. case p of FFin x \<Rightarrow> x | _ \<Rightarrow> 0"
  have same: "mset (susn_prices p rpcReaders) = mset (susn_prices p rpcReaders')" using assms(1) by (simp add: filter)
  then have fin': "\<forall>x \<in> set (susn_prices p rpcReaders'). \<exists>r. x = FFin r" using assms(2) by (metis mset_eq_setD)
  define xs where "xs = map ?val (susn_prices p rpcReaders)"
  define ys where "ys = map ?val (susn_prices p rpcReaders')"
  have xs: "susn_prices p rpcReaders = map FFin xs"
    using assms(2) by (auto simp: xs_def comp_def intro!: map_idI [symmetric])
  have ys: "susn_prices p rpcReaders' = map FFin ys" using fin' by (auto simp: ys_def comp_def intro!: map_idI [symmetric])
  have "mset xs = mset ys" unfolding xs_def ys_def using same by simp
  then have eq: "xs = [] \<longleftrightarrow> ys = []" "length xs = length ys" "set xs = set ys"
    and med: "susn_calculateMedian (map FFin xs) = susn_calculateMedian (map FFin ys)"
    by (auto dest: mset_eq_length mset_eq_setD intro!: susn.order)
  have "susn_combine rate (map FFin xs) n sp = susn_combine rate (map FFin ys) n sp" for rate
  proof (cases "xs \<noteq> [] \<and> n \<le> int (length xs)")
    case True
    then show ?thesis using susn_combine_finite [of xs n rate sp] susn_combine_finite [of ys n rate sp] eq med by (simp add: Let_def)
  next
    case False
    then show ?thesis using eq by (auto simp: susn_combine_def)
  qed
  moreover have "rpcReaders = [] \<longleftrightarrow> rpcReaders' = []" using assms(1) by (metis mset_zero_iff)
  ultimately show ?thesis
    using xs ys by (simp add: SUSNPriceHandler_FetchValue_def susn_prices_def cong: sum.case_cong option.case_cong)
qed

text \<open>A price that is not positive.\<close>

definition f64_below_0 :: "float64 \<Rightarrow> bool" where
  "f64_below_0 x = (case x of FFin r \<Rightarrow> r \<le> 0 | FInf s \<Rightarrow> s | FNaN \<Rightarrow> True)"

lemma float64_round_below_0: "x \<le> 0 \<Longrightarrow> f64_below_0 (float64_round x)"
  using float64_round_pos [of "- x"] float64_round_neg [of "- x"]
  by (cases "x = 0") (simp_all add: f64_below_0_def float64_round_def [of 0])

lemma float64_round_above_0: "0 \<le> x \<Longrightarrow> f64_below_0 (f64_neg (float64_round x))"
  using float64_round_below_0 [of "- x"] by (simp add: float64_round_neg)

lemma negative_spread:
  assumes "lo < 0" and "lo \<le> hi"
  shows "f64_below_0 (price_spread (FFin lo) (FFin hi))"
proof -
  have "f64_below_0 (f64_neg (float64_round (hi - lo)))" using assms(2) by (simp add: float64_round_above_0)
  then have div: "f64_below_0 (f64_div (float64_round (hi - lo)) (FFin lo))"
    using assms(1) by (cases "float64_round (hi - lo)")
      (auto simp: f64_below_0_def divide_nonneg_neg intro!: float64_round_below_0 [unfolded f64_below_0_def])
  have "f64_below_0 (f64_mul x (FFin 100))" if "f64_below_0 x" for x
    using that float64_round_below_0 [of "r * 100" for r] by (cases x) (auto simp: f64_below_0_def)
  then show ?thesis using div by (simp add: price_spread_def f64_sub_def float64_round_def [of 0])
qed

text \<open>
  One price that is not positive switches the check of the spread off: SUSN skips the check unless the least price is
  positive, and sFRXUSD divides by the least price, which CoinGecko (alone of its three sources) may report as negative.
  The other prices can then be as far apart as they like.
\<close>

lemma susn_unchecked:
  assumes "x \<in> set xs" and "x \<le> 0"
  shows "susn_combine rate (map FFin xs) n sp \<noteq> Inr (Inl (CSpread d))"
proof (cases "n \<le> int (length xs)")
  case True
  have ne: "xs \<noteq> []" and "Min (set xs) \<le> 0" using assms by (auto intro: order_trans [OF Min_le])
  then show ?thesis
    by (simp only: susn_combine_finite [OF ne True] Let_def) (simp add: not_less [symmetric] del: Min_gr_iff)
qed (simp add: susn_combine_def)

lemma frx_unchecked:
  assumes "x \<in> set xs" and "x < 0" and "0 \<le> s"
  shows "frx_combine rate (map FFin xs) n (FFin s) \<noteq> Inr (Inl (CSpread d))"
proof (cases "n \<le> int (length xs)")
  case True
  let ?spread = "price_spread (FFin (Min (set xs))) (FFin (Max (set xs)))"
  have ne: "xs \<noteq> []" and "Min (set xs) \<le> x" and "x \<le> Max (set xs)" using assms(1) by auto
  then have "f64_below_0 ?spread" using assms(2) by (intro negative_spread) simp_all
  then have "\<not> f64_less (FFin s) ?spread" using assms(3) by (cases ?spread) (simp_all add: f64_below_0_def)
  then show ?thesis by (simp add: frx_combine_finite [OF ne True] Let_def)
qed (simp add: frx_combine_def)

text \<open>
  One price that is not positive switches the check of the spread off: whatever the other prices and the limit are, the
  handler of SUSN (a price of at most 0) and that of sFRXUSD (a negative one) never report that the spread is too large.
\<close>

theorem nonpositive_price_unchecked:
  assumes "susn_prices p rpcReaders = map FFin xs" and "x \<in> set xs" and "x \<le> 0"
    and "frx_prices q = map FFin ys" and "y \<in> set ys" and "y < 0" and "0 \<le> s"
  shows "SUSNPriceHandler_FetchValue crs rpcReaders p clk n sp age \<noteq> Inr (Inl (CSpread d)) \<and>
    SFRXUSDPriceHandler_FetchValue crs q clk n (FFin s) age \<noteq> Inr (Inl (CSpread d))"
  using susn_unchecked [OF assms(2,3)] frx_unchecked [OF assms(5-7)] assms(1,4)
  by (auto simp: SUSNPriceHandler_FetchValue_def SFRXUSDPriceHandler_FetchValue_def susn_prices_def frx_prices_def
      split: option.splits sum.splits)

text \<open>A handler panics only when it has no price and asks for none.\<close>

lemma combine_no_panic:
  assumes "0 < n"
  shows "susn_combine rate ps n sp \<noteq> Inl e" and "frx_combine rate ps n sp \<noteq> Inl e"
  using assms by (auto simp: susn_combine_def frx_combine_def Let_def split: prod.splits)

lemma combined_handlers_no_panic:
  assumes "0 < n"
  shows "SUSNPriceHandler_FetchValue crs rrs p clk n sp age \<noteq> Inl e" and "SFRXUSDPriceHandler_FetchValue crs p clk n sp age \<noteq> Inl e"
  using combine_no_panic [OF assms]
  by (auto simp: SUSNPriceHandler_FetchValue_def SFRXUSDPriceHandler_FetchValue_def split: option.splits sum.splits)

section \<open>An example\<close>

text \<open>One source for SUSN and one for sFRXUSD, both of which report a price of 1.\<close>

definition demo_one :: json where "demo_one = JNum ''1''"

definition demo_fetched :: parallelFetcher where
  "demo_fetched = NewParallelFetcher\<lparr>pf_results :=
     [(''conversion_rate'', ContractBytes [2]), (''price_per_share'', ContractBytes [2]),
      (''price_a'', JsonBytes (Inr demo_one)),
      (''frx_coingecko'', JsonBytes (Inr (JObj [(''frax'', JObj [(''usd'', demo_one)])])))]\<rparr>"

lemma demo_fetched_results:
  "GetResult demo_fetched ''price_a'' = Inr (JsonBytes (Inr demo_one))"
  "GetResult demo_fetched ''frx_coingecko'' = Inr (JsonBytes (Inr (JObj [(''frax'', JObj [(''usd'', demo_one)])])))"
  "\<exists>e. GetResult demo_fetched ''frx_curve'' = Inl e"
  "\<exists>e. GetResult demo_fetched ''frx_coinpaprika'' = Inl e"
  "GetContractBytes demo_fetched ''conversion_rate'' = Inr [2]"
  "GetContractBytes demo_fetched ''price_per_share'' = Inr [2]"
  by (simp_all add: demo_fetched_def NewParallelFetcher_def GetResult_def GetContractBytes_def)

lemma json_float_1: "json_float ''1'' = 1"
  by (simp add: json_float_def ParseFloat_1)

lemma demo_susn: "susn_prices demo_fetched [(''a'', demo_reader [] [])] = map FFin [1]"
  using demo_fetched_results(1)
  by (simp add: susn_prices_def List.map_filter_def susn_price_def GetDocument_def demo_reader_def susn_extractPrice_def
      json_Decode_def decode_any_def demo_one_def json_float_1 ParseFloat_1)

lemma demo_frx: "frx_prices demo_fetched = map FFin [1]"
  using demo_fetched_results(2-4)
  by (auto simp: frx_prices_def frx_price_def GetDocument_def coingecko_price_def positive_price_def decode_curve_usd_def
      decode_float64_def json_Decode_def demo_one_def ParseFloat_1 decode_map_def decode_struct_def field_decoder_def)

lemma demo_positive: "positive_floats (map FFin [1])"
  using is_float64_100(3) by (simp add: positive_floats_def)


text \<open>A price of -1 beside one of 1.\<close>

definition demo_negative :: parallelFetcher where
  "demo_negative = NewParallelFetcher\<lparr>pf_results :=
     [(''price_a'', JsonBytes (Inr (JNum ''-1''))), (''price_b'', JsonBytes (Inr demo_one)),
      (''frx_coingecko'', JsonBytes (Inr (JObj [(''frax'', JObj [(''usd'', JNum ''-1'')])]))),
      (''frx_curve'', JsonBytes (Inr (JObj [(''data'', JObj [(''usd_price'', demo_one)])])))]\<rparr>"

lemma ParseFloat_m1: "ParseFloat ''-1'' = Some (FFin (- 1))"
proof -
  have "readFloat ''-1'' = Some (- 1)" by code_simp
  moreover have "strings_ToLower ''1'' = ''1''" by code_simp
  moreover have "float64_round (- 1) = FFin (- 1)" using float64_round_neg [of 1] is_float64_100(3) by (simp add: is_float64_def)
  moreover have "strings_ToLower ''-1'' = ''-1''" by code_simp
  ultimately show ?thesis by (simp add: ParseFloat_def trim_sign_def Let_def)
qed

lemma demo_negative_prices:
  "susn_prices demo_negative [(''a'', demo_reader [] []), (''b'', demo_reader [] [])] = map FFin [- 1, 1]"
  "frx_prices demo_negative = map FFin [- 1, 1]"
  by (simp_all add: susn_prices_def List.map_filter_def susn_price_def GetDocument_def demo_reader_def susn_extractPrice_def
      json_Decode_def decode_any_def demo_one_def json_float_def ParseFloat_1 ParseFloat_m1 demo_negative_def
      NewParallelFetcher_def GetResult_def frx_prices_def frx_price_def coingecko_price_def positive_price_def
      decode_curve_usd_def decode_float64_def decode_map_def decode_struct_def field_decoder_def)

theorem nonpositive_price_unchecked_witness:
  "SUSNPriceHandler_FetchValue [(''ethereum'', demo_clients True)] [(''a'', demo_reader [] []), (''b'', demo_reader [] [])] demo_negative demo_clock 1 (FFin 5) 0
     \<noteq> Inr (Inl (CSpread (FFin 7))) \<and>
   SFRXUSDPriceHandler_FetchValue [(''ethereum'', demo_clients True)] demo_negative demo_clock 1 (FFin 5) 0 \<noteq> Inr (Inl (CSpread (FFin 7)))"
  by (rule nonpositive_price_unchecked [OF demo_negative_prices(1) _ _ demo_negative_prices(2), of "- 1" "- 1"]) simp_all

end
