(* ===== verification/QueryConfig.thy ===== *)
theory QueryConfig
  imports CombinedHandlers
begin

text \<open>
  The configuration of the custom queries (\<open>custom_query/config.go\<close>, its types) and the timeouts of a query
  (\<open>custom_query/deadline.go\<close>): the defaults of each type of query, how the settings of the file and of the query
  override them, and the deadline of the collection of prices.
\<close>

section \<open>Types\<close>

record EndpointTemplate =
  et_URLTemplate :: string
  et_Query :: string
  et_Method :: string
  et_Timeout :: int
  et_ApiKey :: string
  et_Headers :: "(string, string) gomap"
  et_MaxDataAgeSecs :: int

record RPCEndpointTemplate =
  re_URLs :: "string list"

record TimeoutDefaults =
  td_FetchTimeoutMs :: int
  td_PerSourceTimeoutMs :: int
  td_MaxSourceRetries :: int
  td_PostFetchReserveMs :: int
  td_AggregationBufferMs :: int

text \<open>A value of type \<open>any\<close>, by its dynamic type.\<close>

datatype any =
    AnyString string
  | AnyBool bool
  | AnyInt int
  | AnyInt64 int
  | AnyFloat64 float64
  | AnyStrings "string list"
  | AnySlice "any list"
  | AnyMap "(string \<times> any) list"

record ContractHandler =
  ch_Handler :: string
  ch_Reader :: contractReader
  ch_MarketId :: string
  ch_SourceId :: string
  ch_MaxDataAge :: duration

record RpcHandler =
  rh_Handler :: string
  rh_Reader :: rpcReader
  rh_Invert :: bool
  rh_UsdViaID :: uint32
  rh_Method :: string
  rh_EndpointID :: string
  rh_MarketId :: string
  rh_SourceId :: string
  rh_MaxDataAge :: duration

record CombinedHandler =
  cb_Handler :: string
  cb_ContractReaders :: "(string, contractReader) gomap"
  cb_RpcReaders :: "(string, rpcReader) gomap"
  cb_Config :: "(string, any) gomap"
  cb_MinResponses :: int
  cb_MaxSpreadPercent :: float64
  cb_MaxDataAge :: duration

record EndpointConfig =
  ep_EndpointType :: string
  ep_ResponsePath :: "string list"
  ep_Params :: "(string, string) gomap"
  ep_MarketId :: string
  ep_Handler :: string
  ep_Chain :: string
  ep_Invert :: bool
  ep_UsdViaID :: uint32
  ep_MaxDataAgeSecs :: int
  ep_CombinedSources :: "(string, string) gomap"
  ep_CombinedConfig :: "(string, any) gomap"

record QueryConfig =
  qc_ID :: string
  qc_QueryType :: string
  qc_AggregationMethod :: string
  qc_MinResponses :: int
  qc_ResponseType :: string
  qc_MaxSpreadPercent :: float64
  qc_FetchTimeoutMs :: int
  qc_PerSourceTimeoutMs :: int
  qc_MaxSourceRetries :: int
  qc_PostFetchReserveMs :: int
  qc_AggregationBufferMs :: int
  qc_Endpoints :: "EndpointConfig list"
  qc_ContractReaders :: "ContractHandler list"
  qc_RpcReaders :: "RpcHandler list"
  qc_CombinedReaders :: "CombinedHandler list"

record query_file =
  cfg_Endpoints :: "(string, EndpointTemplate) gomap"
  cfg_RPCEndpoints :: "(string, RPCEndpointTemplate) gomap"
  cfg_Queries :: "(string, QueryConfig) gomap"
  cfg_Defaults :: "(string, TimeoutDefaults) gomap"

section \<open>The defaults of the types of queries\<close>

definition QueryTypeSpotPrice :: string where "QueryTypeSpotPrice = ''spot_price''"
definition QueryTypeBridgeDeposit :: string where "QueryTypeBridgeDeposit = ''bridge_deposit''"

definition Millisecond :: duration where "Millisecond = 10 ^ 6"
definition DefaultFetchTimeout :: duration where "DefaultFetchTimeout = 2000 * Millisecond"
definition DefaultAggregationBuffer :: duration where "DefaultAggregationBuffer = 100 * Millisecond"
definition DefaultPostFetchReserve :: duration where "DefaultPostFetchReserve = 500 * Millisecond"
definition DefaultPerSourceTimeout :: duration where "DefaultPerSourceTimeout = 1000 * Millisecond"
definition DefaultMaxSourceRetries :: int where "DefaultMaxSourceRetries = 1"

lemmas default_timeouts =
  Millisecond_def DefaultFetchTimeout_def DefaultAggregationBuffer_def DefaultPostFetchReserve_def DefaultPerSourceTimeout_def

definition spot_price_defaults :: TimeoutDefaults where
  "spot_price_defaults = \<lparr>td_FetchTimeoutMs = 2000, td_PerSourceTimeoutMs = 1000, td_MaxSourceRetries = 1,
     td_PostFetchReserveMs = 500, td_AggregationBufferMs = 100\<rparr>"

definition bridge_deposit_defaults :: TimeoutDefaults where
  "bridge_deposit_defaults = \<lparr>td_FetchTimeoutMs = 15000, td_PerSourceTimeoutMs = 5000, td_MaxSourceRetries = 3,
     td_PostFetchReserveMs = 10000, td_AggregationBufferMs = 100\<rparr>"

definition StaticTimeoutDefaultsByQueryType :: "(string, TimeoutDefaults) gomap" where
  "StaticTimeoutDefaultsByQueryType =
     [(QueryTypeSpotPrice, spot_price_defaults), (QueryTypeBridgeDeposit, bridge_deposit_defaults)]"

text \<open>The value of a type with all fields zero, which Go reads from a map for a missing key.\<close>

definition zero_defaults :: TimeoutDefaults where
  "zero_defaults = \<lparr>td_FetchTimeoutMs = 0, td_PerSourceTimeoutMs = 0, td_MaxSourceRetries = 0,
     td_PostFetchReserveMs = 0, td_AggregationBufferMs = 0\<rparr>"

definition MapOnChainQueryType :: "string \<Rightarrow> string" where
  "MapOnChainQueryType onChainType =
     (let t = strings_ToLower onChainType in
      if t = ''spotprice'' then QueryTypeSpotPrice
      else if t \<in> {''trbbridgev2'', ''bridge_deposit'', ''bridgedeposit''} then QueryTypeBridgeDeposit
      else QueryTypeSpotPrice)"

definition override :: "int \<Rightarrow> int \<Rightarrow> int" where
  "override over base = (if over > 0 then over else base)"

definition mergeTimeoutDefaults :: "TimeoutDefaults \<Rightarrow> TimeoutDefaults \<Rightarrow> TimeoutDefaults" where
  "mergeTimeoutDefaults base over =
     \<lparr>td_FetchTimeoutMs = override (td_FetchTimeoutMs over) (td_FetchTimeoutMs base),
      td_PerSourceTimeoutMs = override (td_PerSourceTimeoutMs over) (td_PerSourceTimeoutMs base),
      td_MaxSourceRetries = override (td_MaxSourceRetries over) (td_MaxSourceRetries base),
      td_PostFetchReserveMs = override (td_PostFetchReserveMs over) (td_PostFetchReserveMs base),
      td_AggregationBufferMs = override (td_AggregationBufferMs over) (td_AggregationBufferMs base)\<rparr>"

fun merge_overrides :: "(string, TimeoutDefaults) gomap \<Rightarrow> (string, TimeoutDefaults) gomap \<Rightarrow> (string, TimeoutDefaults) gomap" where
  "merge_overrides merged [] = merged"
| "merge_overrides merged ((queryType, overrides) # rest) =
     (let base = (case map_of merged queryType of Some d \<Rightarrow> d | None \<Rightarrow> zero_defaults) in
      merge_overrides (mput queryType (mergeTimeoutDefaults base overrides) merged) rest)"

definition mergedConfigDefaults :: "(string, TimeoutDefaults) gomap \<Rightarrow> (string, TimeoutDefaults) gomap" where
  "mergedConfigDefaults configDefaults = merge_overrides StaticTimeoutDefaultsByQueryType configDefaults"

section \<open>The settings of a query\<close>

definition queryTypeOf :: "QueryConfig \<Rightarrow> string" where
  "queryTypeOf query = (if qc_QueryType query \<noteq> [] then qc_QueryType query else QueryTypeSpotPrice)"

definition typeDefaults :: "QueryConfig \<Rightarrow> (string, TimeoutDefaults) gomap \<Rightarrow> TimeoutDefaults" where
  "typeDefaults query defaults =
     (case map_of defaults (queryTypeOf query) of Some td \<Rightarrow> td | None \<Rightarrow> spot_price_defaults)"

definition unless_set :: "int \<Rightarrow> int \<Rightarrow> int" where
  "unless_set x d = (if x = 0 then d else x)"

definition ResolveReaderTimeouts :: "QueryConfig \<Rightarrow> (string, TimeoutDefaults) gomap \<Rightarrow> QueryConfig" where
  "ResolveReaderTimeouts query defaults =
     (let td = typeDefaults query defaults in
      query\<lparr>qc_PerSourceTimeoutMs := unless_set (qc_PerSourceTimeoutMs query) (td_PerSourceTimeoutMs td),
            qc_MaxSourceRetries := unless_set (qc_MaxSourceRetries query) (td_MaxSourceRetries td)\<rparr>)"

definition ResolveFetchTimeouts :: "QueryConfig \<Rightarrow> (string, TimeoutDefaults) gomap \<Rightarrow> QueryConfig" where
  "ResolveFetchTimeouts query defaults =
     (let td = typeDefaults query defaults in
      query\<lparr>qc_FetchTimeoutMs := unless_set (qc_FetchTimeoutMs query) (td_FetchTimeoutMs td),
            qc_PostFetchReserveMs := unless_set (qc_PostFetchReserveMs query) (td_PostFetchReserveMs td),
            qc_AggregationBufferMs := unless_set (qc_AggregationBufferMs query) (td_AggregationBufferMs td)\<rparr>)"

definition ResolveQueryTimeouts :: "QueryConfig \<Rightarrow> (string, TimeoutDefaults) gomap \<Rightarrow> QueryConfig" where
  "ResolveQueryTimeouts query defaults = ResolveFetchTimeouts (ResolveReaderTimeouts query defaults) defaults"

definition WithRuntimeQueryType :: "QueryConfig \<Rightarrow> string \<Rightarrow> QueryConfig" where
  "WithRuntimeQueryType query onChainType =
     (if qc_QueryType query \<noteq> [] then query else query\<lparr>qc_QueryType := MapOnChainQueryType onChainType\<rparr>)"

section \<open>Durations\<close>

text \<open>An \<open>int64\<close> that wraps around.\<close>

definition int64_wrap :: "int \<Rightarrow> int" where
  "int64_wrap x = (x + 2 ^ 63) mod 2 ^ 64 - 2 ^ 63"

definition milliseconds :: "int \<Rightarrow> duration" where
  "milliseconds n = int64_wrap (n * Millisecond)"

definition fetchTimeout :: "QueryConfig \<Rightarrow> duration" where
  "fetchTimeout query =
     (if qc_FetchTimeoutMs query > 0 then milliseconds (qc_FetchTimeoutMs query) else DefaultFetchTimeout)"

definition perSourceTimeout :: "QueryConfig \<Rightarrow> duration" where
  "perSourceTimeout query =
     (if qc_PerSourceTimeoutMs query > 0 then milliseconds (qc_PerSourceTimeoutMs query) else DefaultPerSourceTimeout)"

definition maxSourceRetries :: "QueryConfig \<Rightarrow> int" where
  "maxSourceRetries query = (if qc_MaxSourceRetries query > 0 then qc_MaxSourceRetries query else DefaultMaxSourceRetries)"

definition perSourceTimeoutMs :: "QueryConfig \<Rightarrow> int" where
  "perSourceTimeoutMs query = perSourceTimeout query sdiv Millisecond"

definition aggregationBuffer :: "QueryConfig \<Rightarrow> duration" where
  "aggregationBuffer query =
     (if qc_AggregationBufferMs query > 0 then milliseconds (qc_AggregationBufferMs query) else DefaultAggregationBuffer)"

definition postFetchReserve :: "QueryConfig \<Rightarrow> duration" where
  "postFetchReserve query =
     (if qc_PostFetchReserveMs query > 0 then milliseconds (qc_PostFetchReserveMs query) else DefaultPostFetchReserve)"

text \<open>The deadline of the context, if it has one.\<close>

definition collectionDeadline :: "gotime \<Rightarrow> gotime option \<Rightarrow> QueryConfig \<Rightarrow> gotime" where
  "collectionDeadline now ctxDeadline query =
     (let deadline = time_Add now (fetchTimeout query) in
      case ctxDeadline of
        None \<Rightarrow> deadline
      | Some d \<Rightarrow>
          let safeDeadline = time_Add d (int64_wrap (int64_wrap (- aggregationBuffer query) - postFetchReserve query)) in
          if time_Before safeDeadline deadline then safeDeadline else deadline)"

section \<open>Timeouts are positive\<close>

lemma int64_wrap_id: "- (2 ^ 63) \<le> x \<Longrightarrow> x < 2 ^ 63 \<Longrightarrow> int64_wrap x = x"
  by (simp add: int64_wrap_def)

text \<open>Settings of less than a hundred years.\<close>

definition sane_timeouts :: "QueryConfig \<Rightarrow> bool" where
  "sane_timeouts query \<longleftrightarrow>
     (\<forall>n \<in> {qc_FetchTimeoutMs query, qc_PerSourceTimeoutMs query, qc_PostFetchReserveMs query, qc_AggregationBufferMs query}.
        n < 3000000000000)"

lemma milliseconds_sane: "0 < n \<Longrightarrow> n < 3000000000000 \<Longrightarrow> milliseconds n = n * 1000000"
  by (simp add: milliseconds_def Millisecond_def int64_wrap_id)

lemma sane_durations:
  assumes "sane_timeouts query"
  shows "0 < fetchTimeout query" and "0 < perSourceTimeout query" and "0 < aggregationBuffer query"
    and "0 < postFetchReserve query" and "0 < perSourceTimeoutMs query" and "0 < maxSourceRetries query"
    and "aggregationBuffer query \<le> 3 * 10 ^ 18" and "postFetchReserve query \<le> 3 * 10 ^ 18"
  using assms
  by (simp_all add: sane_timeouts_def fetchTimeout_def perSourceTimeout_def aggregationBuffer_def postFetchReserve_def
      perSourceTimeoutMs_def maxSourceRetries_def default_timeouts milliseconds_sane DefaultMaxSourceRetries_def signed_divide_int_def)

text \<open>
  The collection ends no later than the timeout of the query, and leaves the buffer and the reserve before the deadline of
  the context; one of the two is the reason for the deadline.
\<close>

theorem collectionDeadline_spec:
  assumes "sane_timeouts query"
  shows "collectionDeadline now ctxDeadline query =
     (case ctxDeadline of
        None \<Rightarrow> now + fetchTimeout query
      | Some d \<Rightarrow> min (now + fetchTimeout query) (d - aggregationBuffer query - postFetchReserve query))"
proof -
  note d = sane_durations [OF assms]
  have "int64_wrap (- aggregationBuffer query) = - aggregationBuffer query" using d(3,7) by (intro int64_wrap_id) simp_all
  moreover have "int64_wrap (- aggregationBuffer query - postFetchReserve query) = - aggregationBuffer query - postFetchReserve query"
    using d(3,4,7,8) by (intro int64_wrap_id) simp_all
  ultimately show ?thesis
    by (auto simp: collectionDeadline_def time_Add_def time_Before_def Let_def algebra_simps split: option.split)
qed

section \<open>Which setting counts\<close>

lemma map_of_merge_overrides:
  assumes "gomap_ok overrides"
  shows "map_of (merge_overrides merged overrides) t =
    (case map_of overrides t of
       None \<Rightarrow> map_of merged t
     | Some over \<Rightarrow> Some (mergeTimeoutDefaults (case map_of merged t of Some d \<Rightarrow> d | None \<Rightarrow> zero_defaults) over))"
  using assms
proof (induction merged overrides rule: merge_overrides.induct)
  case (2 merged queryType over rest)
  then have "map_of rest queryType = None" by (auto simp: map_of_eq_None_iff)
  then show ?case using 2 by (auto simp: Let_def split: option.split)
qed simp

text \<open>The first that is positive: the setting of the query, that of the file for the type of the query, the static one.\<close>

definition chosen :: "int \<Rightarrow> int \<Rightarrow> int \<Rightarrow> int" where
  "chosen own file static = (if own > 0 then own else if file > 0 then file else static)"

definition file_defaults :: "(string, TimeoutDefaults) gomap \<Rightarrow> QueryConfig \<Rightarrow> TimeoutDefaults" where
  "file_defaults configDefaults query =
     (case map_of configDefaults (queryTypeOf query) of Some d \<Rightarrow> d | None \<Rightarrow> zero_defaults)"

definition static_defaults :: "QueryConfig \<Rightarrow> TimeoutDefaults" where
  "static_defaults query =
     (if queryTypeOf query = QueryTypeBridgeDeposit then bridge_deposit_defaults else spot_price_defaults)"

definition settings_ok :: "QueryConfig \<Rightarrow> bool" where
  "settings_ok query \<longleftrightarrow> 0 \<le> qc_FetchTimeoutMs query \<and> 0 \<le> qc_PerSourceTimeoutMs query \<and> 0 \<le> qc_MaxSourceRetries query \<and>
     0 \<le> qc_PostFetchReserveMs query \<and> 0 \<le> qc_AggregationBufferMs query"

lemma ResolveQueryTimeouts_fields:
  "qc_FetchTimeoutMs (ResolveQueryTimeouts q d) = unless_set (qc_FetchTimeoutMs q) (td_FetchTimeoutMs (typeDefaults q d))"
  "qc_PerSourceTimeoutMs (ResolveQueryTimeouts q d) = unless_set (qc_PerSourceTimeoutMs q) (td_PerSourceTimeoutMs (typeDefaults q d))"
  "qc_MaxSourceRetries (ResolveQueryTimeouts q d) = unless_set (qc_MaxSourceRetries q) (td_MaxSourceRetries (typeDefaults q d))"
  "qc_PostFetchReserveMs (ResolveQueryTimeouts q d) = unless_set (qc_PostFetchReserveMs q) (td_PostFetchReserveMs (typeDefaults q d))"
  "qc_AggregationBufferMs (ResolveQueryTimeouts q d) =
     unless_set (qc_AggregationBufferMs q) (td_AggregationBufferMs (typeDefaults q d))"
  by (simp_all add: ResolveQueryTimeouts_def ResolveFetchTimeouts_def ResolveReaderTimeouts_def Let_def typeDefaults_def
      queryTypeOf_def)

lemma typeDefaults_merged:
  assumes "gomap_ok cfg"
  shows "typeDefaults query (mergedConfigDefaults cfg) =
    (let over = file_defaults cfg query in
     if queryTypeOf query \<in> {QueryTypeSpotPrice, QueryTypeBridgeDeposit} \<or> map_of cfg (queryTypeOf query) = None
     then mergeTimeoutDefaults (static_defaults query) over
     else mergeTimeoutDefaults zero_defaults over)"
proof -
  have "mergeTimeoutDefaults d zero_defaults = d" for d
    by (simp add: mergeTimeoutDefaults_def zero_defaults_def override_def)
  then show ?thesis
    by (auto simp: typeDefaults_def mergedConfigDefaults_def map_of_merge_overrides [OF assms] file_defaults_def static_defaults_def
        StaticTimeoutDefaultsByQueryType_def QueryTypeSpotPrice_def QueryTypeBridgeDeposit_def Let_def split: option.split)
qed

theorem timeout_precedence:
  assumes "gomap_ok cfg" and "settings_ok query"
  defines "q' \<equiv> ResolveQueryTimeouts query (mergedConfigDefaults cfg)"
    and "file \<equiv> file_defaults cfg query" and "static \<equiv> static_defaults query"
  shows "fetchTimeout q' = milliseconds (chosen (qc_FetchTimeoutMs query) (td_FetchTimeoutMs file) (td_FetchTimeoutMs static)) \<and>
    perSourceTimeout q' =
      milliseconds (chosen (qc_PerSourceTimeoutMs query) (td_PerSourceTimeoutMs file) (td_PerSourceTimeoutMs static)) \<and>
    maxSourceRetries q' = chosen (qc_MaxSourceRetries query) (td_MaxSourceRetries file) (td_MaxSourceRetries static) \<and>
    postFetchReserve q' =
      milliseconds (chosen (qc_PostFetchReserveMs query) (td_PostFetchReserveMs file) (td_PostFetchReserveMs static)) \<and>
    aggregationBuffer q' =
      milliseconds (chosen (qc_AggregationBufferMs query) (td_AggregationBufferMs file) (td_AggregationBufferMs static))"
proof -
  have m: "milliseconds 2000 = 2000 * Millisecond" "milliseconds 1000 = 1000 * Millisecond" "milliseconds 500 = 500 * Millisecond"
    "milliseconds 100 = 100 * Millisecond" by (simp_all add: milliseconds_def Millisecond_def int64_wrap_def)
  have own: "0 \<le> qc_FetchTimeoutMs query" "0 \<le> qc_PerSourceTimeoutMs query" "0 \<le> qc_MaxSourceRetries query"
    "0 \<le> qc_PostFetchReserveMs query" "0 \<le> qc_AggregationBufferMs query" using assms(2) by (simp_all add: settings_ok_def)
  note defs = q'_def file_def static_def ResolveQueryTimeouts_fields typeDefaults_merged [OF assms(1)] Let_def
    static_defaults_def mergeTimeoutDefaults_def chosen_def unless_set_def override_def spot_price_defaults_def
    bridge_deposit_defaults_def zero_defaults_def
  show ?thesis
  proof (intro conjI)
    show "fetchTimeout q' = milliseconds (chosen (qc_FetchTimeoutMs query) (td_FetchTimeoutMs file) (td_FetchTimeoutMs static))"
      using own(1) m by (simp add: fetchTimeout_def DefaultFetchTimeout_def defs)
    show "perSourceTimeout q' =
        milliseconds (chosen (qc_PerSourceTimeoutMs query) (td_PerSourceTimeoutMs file) (td_PerSourceTimeoutMs static))"
      using own(2) m by (simp add: perSourceTimeout_def DefaultPerSourceTimeout_def defs)
    show "maxSourceRetries q' = chosen (qc_MaxSourceRetries query) (td_MaxSourceRetries file) (td_MaxSourceRetries static)"
      using own(3) by (simp add: maxSourceRetries_def DefaultMaxSourceRetries_def defs)
    show "postFetchReserve q' =
        milliseconds (chosen (qc_PostFetchReserveMs query) (td_PostFetchReserveMs file) (td_PostFetchReserveMs static))"
      using own(4) m by (simp add: postFetchReserve_def DefaultPostFetchReserve_def defs)
    show "aggregationBuffer q' =
        milliseconds (chosen (qc_AggregationBufferMs query) (td_AggregationBufferMs file) (td_AggregationBufferMs static))"
      using own(5) m by (simp add: aggregationBuffer_def DefaultAggregationBuffer_def defs)
  qed
qed

section \<open>An example\<close>

text \<open>A query with no settings, and one of the bridge with a timeout of 20 seconds; the file sets the retries of the bridge.\<close>

definition zero_query :: QueryConfig where
  "zero_query = \<lparr>qc_ID = [], qc_QueryType = [], qc_AggregationMethod = [], qc_MinResponses = 0, qc_ResponseType = [],
     qc_MaxSpreadPercent = FFin 0, qc_FetchTimeoutMs = 0, qc_PerSourceTimeoutMs = 0, qc_MaxSourceRetries = 0,
     qc_PostFetchReserveMs = 0, qc_AggregationBufferMs = 0, qc_Endpoints = [], qc_ContractReaders = [], qc_RpcReaders = [],
     qc_CombinedReaders = []\<rparr>"

definition demo_bridge :: QueryConfig where
  "demo_bridge = zero_query\<lparr>qc_QueryType := QueryTypeBridgeDeposit, qc_FetchTimeoutMs := 20000\<rparr>"

definition demo_file :: "(string, TimeoutDefaults) gomap" where
  "demo_file = [(QueryTypeBridgeDeposit, zero_defaults\<lparr>td_MaxSourceRetries := 7\<rparr>)]"

theorem timeout_precedence_witness:
  "fetchTimeout (ResolveQueryTimeouts demo_bridge (mergedConfigDefaults demo_file)) = milliseconds 20000 \<and>
   maxSourceRetries (ResolveQueryTimeouts demo_bridge (mergedConfigDefaults demo_file)) = 7 \<and>
   postFetchReserve (ResolveQueryTimeouts demo_bridge (mergedConfigDefaults demo_file)) = milliseconds 10000"
proof -
  have "gomap_ok demo_file" "settings_ok demo_bridge"
    by (simp_all add: demo_file_def demo_bridge_def zero_query_def settings_ok_def)
  from timeout_precedence [OF this] show ?thesis
    by (simp add: chosen_def file_defaults_def static_defaults_def demo_bridge_def demo_file_def zero_query_def zero_defaults_def
        bridge_deposit_defaults_def queryTypeOf_def QueryTypeBridgeDeposit_def)
qed

theorem collectionDeadline_spec_witness:
  "collectionDeadline 0 (Some (10 ^ 9)) zero_query = 400 * 10 ^ 6 \<and> collectionDeadline 0 None zero_query = 2 * 10 ^ 9"
proof -
  have "sane_timeouts zero_query" by (simp add: sane_timeouts_def zero_query_def)
  from collectionDeadline_spec [OF this] show ?thesis
    by (simp add: fetchTimeout_def aggregationBuffer_def postFetchReserve_def zero_query_def default_timeouts)
qed

end
