(* ===== verification/CustomQuery.thy ===== *)
theory CustomQuery
  imports QueryConfig
begin

text \<open>
  Fetching the value of a custom query (\<open>custom_query/request.go\<close>): one goroutine per source, the loop that collects
  their results until all have come, the deadline passes or the context ends, and the aggregation. The order in which the
  results, the timer and the context are seen is a list of events. Telemetry is left out.
\<close>

section \<open>Results\<close>

datatype source_error =
    SNoHandler string
  | SContract handler_error
  | SRpc rpc_handler_error
  | SCombined combined_error
  | SNotFinite string
  | SNotPositive string

record Result =
  rs_Value :: float64
  rs_Err :: "source_error option"
  rs_EndpointID :: string
  rs_MarketId :: string
  rs_SourceId :: string

record FetchPriceResult =
  fp_EncodedValue :: string
  fp_RawResults :: "Result list"
  fp_QueryID :: string
  fp_ResponseType :: string
  fp_SuccessRate :: float64

datatype fetch_price_error =
    FNoEndpoints string
  | FNothingToAggregate
  | FMethod string
  | FAbi abi_error
  | FInsufficient nat int

definition float64_of_nat :: "nat \<Rightarrow> float64" where
  "float64_of_nat n = float64_round (of_nat n)"

definition fetchPriceResultFromCollected ::
    "Result list \<Rightarrow> Result list \<Rightarrow> QueryConfig \<Rightarrow> nat \<Rightarrow> string \<Rightarrow> FetchPriceResult" where
  "fetchPriceResultFromCollected allResults successfulResults query totalEndpoints encodedValue =
     \<lparr>fp_EncodedValue = encodedValue, fp_RawResults = allResults, fp_QueryID = qc_ID query,
      fp_ResponseType = qc_ResponseType query,
      fp_SuccessRate =
        (if totalEndpoints > 0 then f64_div (float64_of_nat (length successfulResults)) (float64_of_nat totalEndpoints)
         else FFin 0)\<rparr>"

definition maxDuration :: "duration \<Rightarrow> duration \<Rightarrow> duration" where
  "maxDuration a b = (if a > b then a else b)"

section \<open>Aggregation\<close>

definition aggregateResults :: "Result list \<Rightarrow> string \<Rightarrow> string \<Rightarrow> float64 \<Rightarrow> go_panic + fetch_price_error + string" where
  "aggregateResults results method responseType maxSpreadPercent =
     (if results = [] then Inr (Inl FNothingToAggregate)
      else if strings_ToLower method = ''median'' then
        bindE (MedianInHex (map rs_Value results) responseType maxSpreadPercent) (\<lambda>r.
          Inr (case r of Inl e \<Rightarrow> Inl (FAbi e) | Inr v \<Rightarrow> Inr v))
      else Inr (Inl (FMethod method)))"

type_synonym fetch_outcome = "FetchPriceResult option \<times> fetch_price_error option"

definition finalizeFetch :: "Result list \<Rightarrow> Result list \<Rightarrow> QueryConfig \<Rightarrow> nat \<Rightarrow> go_panic + fetch_outcome" where
  "finalizeFetch allResults successfulResults query totalEndpoints =
     bindE (aggregateResults successfulResults (qc_AggregationMethod query) (qc_ResponseType query) (qc_MaxSpreadPercent query))
       (\<lambda>r. Inr (case r of
            Inl err \<Rightarrow>
              (Some (fetchPriceResultFromCollected allResults successfulResults query totalEndpoints []), Some err)
          | Inr aggregatedValue \<Rightarrow>
              (Some (fetchPriceResultFromCollected allResults successfulResults query totalEndpoints aggregatedValue), None)))"

section \<open>Sources\<close>

definition validatePositiveFiniteValue :: "float64 \<Rightarrow> string \<Rightarrow> source_error option" where
  "validatePositiveFiniteValue v label =
     (case v of
        FFin x \<Rightarrow> if x \<le> 0 then Some (SNotPositive label) else None
      | _ \<Rightarrow> Some (SNotFinite label))"

definition failed :: "source_error \<Rightarrow> string \<Rightarrow> string \<Rightarrow> string \<Rightarrow> Result" where
  "failed e endpoint market source =
     \<lparr>rs_Value = FFin 0, rs_Err = Some e, rs_EndpointID = endpoint, rs_MarketId = market, rs_SourceId = source\<rparr>"

definition checked :: "float64 \<Rightarrow> string \<Rightarrow> string \<Rightarrow> string \<Rightarrow> string \<Rightarrow> string \<Rightarrow> Result" where
  "checked v label failedEndpoint endpoint market source =
     (case validatePositiveFiniteValue v label of
        Some e \<Rightarrow> failed e failedEndpoint market source
      | None \<Rightarrow> \<lparr>rs_Value = v, rs_Err = None, rs_EndpointID = endpoint, rs_MarketId = market, rs_SourceId = source\<rparr>)"

text \<open>
  What the sources meet, each with its number: the answers of the nodes, the answer of the endpoint, the parallel fetcher
  when it is read, and the times.
\<close>

record source_env =
  sv_library :: abi_library
  sv_parse :: time_parser
  sv_httpGet :: "string \<Rightarrow> string + body"
  sv_call :: "nat \<Rightarrow> bytes \<Rightarrow> bytes \<Rightarrow> call_env"
  sv_fetched :: "nat \<Rightarrow> rpc_error + body"
  sv_fetcher :: "nat \<Rightarrow> parallelFetcher"
  sv_clock :: "nat \<Rightarrow> handler_clock"

text \<open>The result, and the reader with the clients that have failed.\<close>

definition fetchFromContractEndpoint ::
    "source_env \<Rightarrow> nat \<Rightarrow> ContractHandler \<Rightarrow> MarketToExchangePrices \<Rightarrow> go_panic + Result \<times> contractReader" where
  "fetchFromContractEndpoint env i ep priceCache =
     (case contract_GetHandler (ch_Handler ep) of
        Inl err \<Rightarrow> Inr (failed (SNoHandler err) (ch_Handler ep) (ch_MarketId ep) (ch_SourceId ep), ch_Reader ep)
      | Inr handler \<Rightarrow>
          bindE (handler (sv_library env) (sv_call env i) (ch_Reader ep) priceCache (sv_clock env i) (ch_MaxDataAge ep))
            (\<lambda>(res, r). Inr
              (case res of
                 Inl err \<Rightarrow> failed (SContract err) (ch_Handler ep) (ch_MarketId ep) (ch_SourceId ep)
               | Inr v \<Rightarrow> checked v ''contract value'' (ch_Handler ep) (''contract:'' @ ch_Handler ep) (ch_MarketId ep)
                           (ch_SourceId ep), r)))"

definition fetchFromRpcEndpoint :: "source_env \<Rightarrow> nat \<Rightarrow> RpcHandler \<Rightarrow> MarketToExchangePrices \<Rightarrow> go_panic + Result" where
  "fetchFromRpcEndpoint env i ep priceCache =
     (let handlerStr = (if rh_Handler ep = [] then ''generic'' else rh_Handler ep) in
      case rpc_GetHandler handlerStr of
        Inl err \<Rightarrow> Inr (failed (SNoHandler err) (rh_EndpointID ep) (rh_MarketId ep) (rh_SourceId ep))
      | Inr handler \<Rightarrow>
          bindE (handler (sv_parse env) (sv_httpGet env) (sv_fetched env i) (rh_Reader ep) (rh_Invert ep) (rh_UsdViaID ep)
                   priceCache (sv_clock env i) (rh_MaxDataAge ep))
            (\<lambda>res. Inr
              (case res of
                 Inl err \<Rightarrow> failed (SRpc err) (rh_EndpointID ep) (rh_MarketId ep) (rh_SourceId ep)
               | Inr v \<Rightarrow> checked v ''RPC value'' (rh_EndpointID ep) (rh_EndpointID ep) (rh_MarketId ep) (rh_SourceId ep))))"

definition combined_FetchValue ::
    "combined_handler_kind \<Rightarrow> source_env \<Rightarrow> nat \<Rightarrow> CombinedHandler \<Rightarrow> go_panic + combined_error + float64" where
  "combined_FetchValue handler env i ep =
     (case handler of
        SUSNPriceHandler \<Rightarrow> SUSNPriceHandler_FetchValue (cb_ContractReaders ep) (cb_RpcReaders ep) (sv_fetcher env i)
          (sv_clock env i) (cb_MinResponses ep) (cb_MaxSpreadPercent ep) (cb_MaxDataAge ep)
      | SFRXUSDPriceHandler \<Rightarrow> SFRXUSDPriceHandler_FetchValue (cb_ContractReaders ep) (sv_fetcher env i)
          (sv_clock env i) (cb_MinResponses ep) (cb_MaxSpreadPercent ep) (cb_MaxDataAge ep))"

definition fetchFromCombinedEndpoint :: "source_env \<Rightarrow> nat \<Rightarrow> CombinedHandler \<Rightarrow> go_panic + Result" where
  "fetchFromCombinedEndpoint env i ep =
     (case combined_GetHandler (cb_Handler ep) of
        None \<Rightarrow> Inr (failed (SNoHandler (''combined handler not found: '' @ cb_Handler ep)) (cb_Handler ep) [] [])
      | Some handler \<Rightarrow>
          bindE (combined_FetchValue handler env i ep) (\<lambda>res. Inr
            (case res of
               Inl err \<Rightarrow> failed (SCombined err) (cb_Handler ep) [] []
             | Inr v \<Rightarrow> checked v ''combined value'' (cb_Handler ep) (''combined:'' @ cb_Handler ep) [] [])))"

section \<open>Collecting\<close>

text \<open>What the select statement sees next: a result, the timer, or the end of the fetch context (and of its parent).\<close>

datatype fetch_event = Arrived Result | TimerFired | FetchContextDone bool

text \<open>
  The loop, with the number of pending results and what it has collected: \<open>Inl\<close> when all have come and they are enough,
  \<open>Inr\<close> when it is left otherwise, \<open>None\<close> while it still waits.
\<close>

definition successes :: "Result list \<Rightarrow> Result list" where
  "successes rs = filter (\<lambda>r. rs_Err r = None) rs"

fun collectLoop :: "int \<Rightarrow> fetch_event list \<Rightarrow> nat \<Rightarrow> Result list \<Rightarrow> (Result list + Result list) option" where
  "collectLoop minResponses evs 0 allResults = Some (Inr allResults)"
| "collectLoop minResponses [] (Suc pending) allResults = None"
| "collectLoop minResponses (Arrived result # evs) (Suc pending) allResults =
     (let allResults = allResults @ [result] in
      if pending = 0 \<and> int (length (successes allResults)) \<ge> minResponses then Some (Inl allResults)
      else collectLoop minResponses evs pending allResults)"
| "collectLoop minResponses (TimerFired # evs) (Suc pending) allResults = Some (Inr allResults)"
| "collectLoop minResponses (FetchContextDone parent # evs) (Suc pending) allResults =
     (if parent then Some (Inr allResults) else collectLoop minResponses evs (Suc pending) allResults)"

text \<open>\<open>queued\<close> are the results that are in the channel when the loop is left: they are drained.\<close>

definition FetchPrice :: "QueryConfig \<Rightarrow> fetch_event list \<Rightarrow> Result list \<Rightarrow> (go_panic + fetch_outcome) option" where
  "FetchPrice query evs queued =
     (let totalEndpoints =
        length (qc_RpcReaders query) + length (qc_ContractReaders query) + length (qc_CombinedReaders query) in
      if totalEndpoints = 0 then Some (Inr (None, Some (FNoEndpoints (qc_ID query))))
      else case collectLoop (qc_MinResponses query) evs totalEndpoints [] of
        None \<Rightarrow> None
      | Some (Inl allResults) \<Rightarrow> Some (finalizeFetch allResults (successes allResults) query totalEndpoints)
      | Some (Inr collected) \<Rightarrow>
          let allResults = collected @ queued; successfulResults = successes allResults in
          Some (if int (length successfulResults) \<ge> qc_MinResponses query
                then finalizeFetch allResults successfulResults query totalEndpoints
                else Inr (Some (fetchPriceResultFromCollected allResults successfulResults query totalEndpoints []),
                          Some (FInsufficient (length successfulResults) (qc_MinResponses query)))))"

text \<open>The sources of a query, in the order in which they are started.\<close>

definition query_sources :: "source_env \<Rightarrow> QueryConfig \<Rightarrow> MarketToExchangePrices \<Rightarrow> (go_panic + Result) list" where
  "query_sources env query priceCache =
     (let c = length (qc_ContractReaders query); r = length (qc_RpcReaders query) in
      map (\<lambda>(i, ep). bindE (fetchFromContractEndpoint env i ep priceCache) (\<lambda>(res, _). Inr res))
        (enumerate 0 (qc_ContractReaders query)) @
      map (\<lambda>(i, ep). fetchFromRpcEndpoint env i ep priceCache) (enumerate c (qc_RpcReaders query)) @
      map (\<lambda>(i, ep). fetchFromCombinedEndpoint env i ep) (enumerate (c + r) (qc_CombinedReaders query)))"

section \<open>What the sources deliver\<close>

definition validated :: "Result \<Rightarrow> bool" where
  "validated r \<longleftrightarrow> (rs_Err r = None \<longrightarrow> (\<exists>x. rs_Value r = FFin x \<and> 0 < x))"

lemma validated_failed [simp]: "validated (failed e a b c)"
  by (simp add: validated_def failed_def)

lemma validated_checked [simp]: "validated (checked v l a b c d)"
  by (auto simp: validated_def checked_def validatePositiveFiniteValue_def failed_def split: float64.split)

lemma Inr_eq_bindE: "Inr y = bindE r f \<longleftrightarrow> (\<exists>x. r = Inr x \<and> f x = Inr y)"
  by (cases r) auto

lemma validated_case [simp]:
  "validated (case res of Inl err \<Rightarrow> failed (f err) a b c | Inr v \<Rightarrow> checked v l a' b' c' d')"
  by (cases res) simp_all

lemma endpoints_validated:
  "fetchFromContractEndpoint env i ch priceCache = Inr (r, rd) \<Longrightarrow> validated r"
  "fetchFromRpcEndpoint env i rh priceCache = Inr r \<Longrightarrow> validated r"
  "fetchFromCombinedEndpoint env i cb = Inr r \<Longrightarrow> validated r"
proof -
  show "validated r" if "fetchFromContractEndpoint env i ch priceCache = Inr (r, rd)"
    using that unfolding fetchFromContractEndpoint_def by (cases "contract_GetHandler (ch_Handler ch)") auto
  show "validated r" if "fetchFromRpcEndpoint env i rh priceCache = Inr r"
    using that unfolding fetchFromRpcEndpoint_def Let_def
    by (cases "rpc_GetHandler (if rh_Handler rh = [] then ''generic'' else rh_Handler rh)") auto
  show "validated r" if "fetchFromCombinedEndpoint env i cb = Inr r"
    using that unfolding fetchFromCombinedEndpoint_def by (cases "combined_GetHandler (cb_Handler cb)") auto
qed

lemma query_sources_validated:
  assumes "Inr r \<in> set (query_sources env query priceCache)"
  shows "validated r"
  using assms endpoints_validated
  by (auto simp: query_sources_def Let_def Inr_eq_bindE dest: sym [of "Inr r"])

lemma combined_FetchValue_no_panic: "0 < cb_MinResponses ep \<Longrightarrow> \<exists>res. combined_FetchValue h env i ep = Inr res"
  using combined_handlers_no_panic
  by (cases "combined_FetchValue h env i ep"; cases h) (force simp: combined_FetchValue_def)+

text \<open>No source panics, if the combined handlers ask for at least one price.\<close>

lemma query_sources_no_panic:
  assumes "\<forall>ep \<in> set (qc_CombinedReaders query). 0 < cb_MinResponses ep" and "s \<in> set (query_sources env query priceCache)"
  shows "\<exists>r. s = Inr r"
proof -
  have "\<exists>r. fetchFromContractEndpoint env i ep priceCache = Inr r" for i ep
  proof (cases "contract_GetHandler (ch_Handler ep)")
    case (Inr h)
    from contract_handlers_no_panic [OF Inr] show ?thesis by (simp add: fetchFromContractEndpoint_def Inr) (metis case_prod_conv)
  qed (simp add: fetchFromContractEndpoint_def)
  moreover have "\<exists>r. fetchFromRpcEndpoint env i ep priceCache = Inr r" for i ep
  proof (cases "rpc_GetHandler (if rh_Handler ep = [] then ''generic'' else rh_Handler ep)")
    case (Inr h)
    from rpc_handlers_no_panic [OF Inr] show ?thesis unfolding fetchFromRpcEndpoint_def Let_def Inr by auto
  qed (simp add: fetchFromRpcEndpoint_def Let_def)
  moreover have "\<exists>r. fetchFromCombinedEndpoint env i ep = Inr r" if "0 < cb_MinResponses ep" for i ep
    using combined_FetchValue_no_panic [OF that] by (auto simp: fetchFromCombinedEndpoint_def split: option.split)
  ultimately show ?thesis
    using assms by (fastforce simp: query_sources_def Let_def in_set_enumerate_eq)
qed

section \<open>The result of a fetch\<close>

text \<open>The results the loop takes from the channel.\<close>

fun taken :: "fetch_event list \<Rightarrow> nat \<Rightarrow> Result list" where
  "taken evs 0 = []"
| "taken [] (Suc n) = []"
| "taken (Arrived r # evs) (Suc n) = r # taken evs n"
| "taken (TimerFired # evs) (Suc n) = []"
| "taken (FetchContextDone parent # evs) (Suc n) = (if parent then [] else taken evs (Suc n))"

definition sources_of :: "QueryConfig \<Rightarrow> nat" where
  "sources_of query = length (qc_RpcReaders query) + length (qc_ContractReaders query) + length (qc_CombinedReaders query)"

definition settle :: "QueryConfig \<Rightarrow> Result list \<Rightarrow> go_panic + fetch_outcome" where
  "settle query rs =
     (if int (length (successes rs)) \<ge> qc_MinResponses query then finalizeFetch rs (successes rs) query (sources_of query)
      else Inr (Some (fetchPriceResultFromCollected rs (successes rs) query (sources_of query) []),
                Some (FInsufficient (length (successes rs)) (qc_MinResponses query))))"

lemma collectLoop_taken:
  "collectLoop m evs n acc = Some out \<Longrightarrow>
     out = Inr (acc @ taken evs n) \<or>
     out = Inl (acc @ taken evs n) \<and> m \<le> int (length (successes (acc @ taken evs n))) \<and> length (taken evs n) = n"
  by (induction m evs n acc rule: collectLoop.induct) (auto simp: Let_def split: if_splits)

text \<open>At most one result of each source is taken or left in the channel.\<close>

definition run_ok :: "QueryConfig \<Rightarrow> fetch_event list \<Rightarrow> Result list \<Rightarrow> bool" where
  "run_ok query evs queued \<longleftrightarrow>
     0 < sources_of query \<and> length (taken evs (sources_of query)) + length queued \<le> sources_of query"

lemma FetchPrice_settle:
  assumes "run_ok query evs queued" and "FetchPrice query evs queued = Some out"
  shows "out = settle query (taken evs (sources_of query) @ queued)"
proof -
  obtain c where c: "collectLoop (qc_MinResponses query) evs (sources_of query) [] = Some c"
    using assms by (auto simp: FetchPrice_def run_ok_def sources_of_def Let_def split: option.splits)
  from collectLoop_taken [OF c] show ?thesis
    using assms c by (auto simp: FetchPrice_def run_ok_def settle_def sources_of_def Let_def)
qed

text \<open>A fetch returns as soon as the timer fires, the context ends, or all sources have delivered.\<close>

lemma collectLoop_returns:
  assumes "TimerFired \<in> set evs \<or> FetchContextDone True \<in> set evs \<or> n \<le> length [r. Arrived r \<leftarrow> evs]"
  shows "collectLoop m evs n acc \<noteq> None"
  using assms by (induction m evs n acc rule: collectLoop.induct) (auto simp: Let_def)

text \<open>
  C27: a fetch does not wait for ever: it returns as soon as the timer fires, the context ends, or every source has
  delivered.
\<close>

theorem FetchPrice_returns:
  assumes "TimerFired \<in> set evs \<or> FetchContextDone True \<in> set evs \<or> sources_of query \<le> length [r. Arrived r \<leftarrow> evs]"
  shows "FetchPrice query evs queued \<noteq> None"
  using collectLoop_returns [OF assms, of "qc_MinResponses query" "[]"]
  by (auto simp: FetchPrice_def sources_of_def Let_def simp del: not_None_eq split: option.split sum.split)

section \<open>The order of the results does not matter\<close>

text \<open>What the callers read of an outcome: the encoded value, the rate of success, the error.\<close>

definition outcome_key ::
    "go_panic + fetch_outcome \<Rightarrow> go_panic + (string \<times> float64) option \<times> fetch_price_error option" where
  "outcome_key out =
     bindE out (\<lambda>(res, err). Inr (map_option (\<lambda>r. (fp_EncodedValue r, fp_SuccessRate r)) res, err))"

lemma success_values:
  assumes "\<forall>r \<in> set rs. validated r"
  obtains xs where "map rs_Value (successes rs) = map FFin xs" and "\<forall>x \<in> set xs. 0 < x"
proof -
  let ?val = "\<lambda>p. case p of FFin x \<Rightarrow> x | _ \<Rightarrow> 0"
  have "\<exists>x. rs_Value r = FFin x \<and> 0 < x" if "r \<in> set (successes rs)" for r
    using assms that by (auto simp: validated_def successes_def)
  then have "map rs_Value (successes rs) = map FFin (map (?val \<circ> rs_Value) (successes rs))"
    and "\<forall>x \<in> set (map (?val \<circ> rs_Value) (successes rs)). 0 < x" by fastforce+
  then show thesis by (rule that)
qed

text \<open>
  C6: the order in which the sources deliver does not matter: two runs that take the same validated results, in whatever
  order, end with the same encoded value, the same rate of success and the same error.
\<close>

theorem FetchPrice_order_irrelevant:
  assumes "run_ok query evs queued" and "run_ok query evs' queued'"
    and "mset (taken evs (sources_of query) @ queued) = mset (taken evs' (sources_of query) @ queued')"
    and "\<forall>r \<in> set (taken evs (sources_of query) @ queued). validated r"
    and "FetchPrice query evs queued = Some out" and "FetchPrice query evs' queued' = Some out'"
  shows "outcome_key out = outcome_key out'"
proof -
  define rs where "rs = taken evs (sources_of query) @ queued"
  define rs' where "rs' = taken evs' (sources_of query) @ queued'"
  have "mset rs = mset rs'" and val: "\<forall>r \<in> set rs. validated r" using assms(3,4) by (simp_all add: rs_def rs'_def)
  then have succ: "mset (successes rs) = mset (successes rs')" by (simp add: successes_def)
  then have len: "length (successes rs) = length (successes rs')" by (rule mset_eq_length)
  have "\<forall>r \<in> set rs'. validated r" using val \<open>mset rs = mset rs'\<close> by (metis mset_eq_setD)
  then obtain ys where ys: "map rs_Value (successes rs') = map FFin ys" "\<forall>x \<in> set ys. 0 < x" by (rule success_values)
  obtain xs where xs: "map rs_Value (successes rs) = map FFin xs" "\<forall>x \<in> set xs. 0 < x" using success_values [OF val] .
  have inv: "image_mset (\<lambda>p. case p of FFin x \<Rightarrow> x | _ \<Rightarrow> 0) (mset (map FFin zs)) = mset zs" for zs
    by (simp add: multiset.map_comp comp_def)
  have "mset (map FFin xs) = mset (map FFin ys)" using succ by (simp flip: xs(1) ys(1))
  then have "mset xs = mset ys" using inv [of xs] inv [of ys] by simp
  then have "MedianInHex (map FFin xs) t p = MedianInHex (map FFin ys) t p" for t p by (rule MedianInHex_order [OF _ xs(2)])
  then have "aggregateResults (successes rs) m t p = aggregateResults (successes rs') m t p" for m t p
    using len by (simp add: aggregateResults_def xs(1) ys(1) cong: if_cong) (metis length_0_conv)
  then have "outcome_key (settle query rs) = outcome_key (settle query rs')"
    using len
    by (cases "aggregateResults (successes rs') (qc_AggregationMethod query) (qc_ResponseType query) (qc_MaxSpreadPercent query)")
      (auto simp: settle_def finalizeFetch_def outcome_key_def fetchPriceResultFromCollected_def split: sum.split)
  then show ?thesis
    using FetchPrice_settle [OF assms(1,5)] FetchPrice_settle [OF assms(2,6)] by (simp add: rs_def rs'_def)
qed

section \<open>What is reported\<close>

text \<open>
  A value that is returned without an error: enough sources delivered, at least one, each of them a positive number, the
  text encodes a middle of these numbers for the type of the response, and they agree within the limit on the spread of
  the query (up to the errors of three roundings).
\<close>

definition encodes_middle :: "string \<Rightarrow> string \<Rightarrow> rat list \<Rightarrow> bool" where
  "encodes_middle s t xs \<longleftrightarrow>
     (\<exists>ti m d bs. parseAbiType t = Inr ti \<and> middle_of m xs \<and> float64_round d = FFin m \<and> int (length s) * 4 = ti_bitSize ti \<and>
        hex_DecodeString s = Inr bs \<and> abi_value ti bs = \<lfloor>d * 10 ^ nat (ti_decimals ti)\<rfloor>)"

definition close_together :: "float64 \<Rightarrow> rat list \<Rightarrow> bool" where
  "close_together p xs \<longleftrightarrow>
     (\<forall>r. p = FFin r \<and> 1 < length xs \<longrightarrow>
        (Max (set xs) - Min (set xs)) / Min (set xs) * 100 * (1 - 1 / 2 ^ 53) ^ 3 \<le> r + pow2 (- 1000))"

lemma MedianInHex_middle:
  assumes "\<forall>x. FFin x \<in> set values \<longrightarrow> is_float64 x" and "MedianInHex values t p = Inr (Inr s)"
  obtains xs where "values = map FFin xs" and "xs \<noteq> []" and "\<forall>x \<in> set xs. 0 < x" and "encodes_middle s t xs"
    and "close_together p xs"
  using MedianInHex_sound [OF assms] unfolding encodes_middle_def close_together_def by blast

text \<open>The values the sources compute are numbers of the type \<open>float64\<close>.\<close>

definition float_results :: "Result list \<Rightarrow> bool" where
  "float_results rs \<longleftrightarrow> (\<forall>r \<in> set rs. \<forall>x. rs_Value r = FFin x \<longrightarrow> is_float64 x)"

lemma successes_values: "float_results rs \<Longrightarrow> \<forall>x. FFin x \<in> set (map rs_Value (successes rs)) \<longrightarrow> is_float64 x"
  by (auto simp: float_results_def successes_def)

lemma finalizeFetch_cases:
  "finalizeFetch rs succ query n =
    (case aggregateResults succ (qc_AggregationMethod query) (qc_ResponseType query) (qc_MaxSpreadPercent query) of
       Inl p \<Rightarrow> Inl p
     | Inr r \<Rightarrow> Inr (case r of
         Inl err \<Rightarrow> (Some (fetchPriceResultFromCollected rs succ query n []), Some err)
       | Inr v \<Rightarrow> (Some (fetchPriceResultFromCollected rs succ query n v), None)))"
  by (simp add: finalizeFetch_def split: sum.split)

lemma aggregateResults_Inr:
  "aggregateResults rs m t p = Inr (Inr s) \<Longrightarrow> MedianInHex (map rs_Value rs) t p = Inr (Inr s)"
  by (cases "MedianInHex (map rs_Value rs) t p") (auto simp: aggregateResults_def split: if_splits sum.splits)

lemma settle_value:
  assumes "settle query rs = Inr (Some res, None)" and "float_results rs"
  obtains xs where "map rs_Value (successes rs) = map FFin xs" and "xs \<noteq> []" and "\<forall>x \<in> set xs. 0 < x"
    and "qc_MinResponses query \<le> int (length xs)" and "encodes_middle (fp_EncodedValue res) (qc_ResponseType query) xs"
    and "close_together (qc_MaxSpreadPercent query) xs"
proof -
  have enough: "qc_MinResponses query \<le> int (length (successes rs))"
    using assms(1) by (auto simp: settle_def split: if_splits)
  then have "MedianInHex (map rs_Value (successes rs)) (qc_ResponseType query) (qc_MaxSpreadPercent query) =
      Inr (Inr (fp_EncodedValue res))"
    using assms(1)
    by (auto simp: settle_def finalizeFetch_cases fetchPriceResultFromCollected_def intro!: aggregateResults_Inr
        split: if_splits sum.splits)
  from MedianInHex_middle [OF successes_values [OF assms(2)] this] obtain xs where
    xs: "map rs_Value (successes rs) = map FFin xs" "xs \<noteq> []" "\<forall>x \<in> set xs. 0 < x"
      "encodes_middle (fp_EncodedValue res) (qc_ResponseType query) xs" "close_together (qc_MaxSpreadPercent query) xs" .
  have "length (successes rs) = length xs" using arg_cong [OF xs(1), of length] by simp
  then show thesis using that [OF xs(1-3) _ xs(4,5)] enough by simp
qed

lemma settle_no_panic:
  assumes "float_results rs"
  shows "\<exists>out. settle query rs = Inr out"
proof -
  obtain r where "MedianInHex (map rs_Value (successes rs)) (qc_ResponseType query) (qc_MaxSpreadPercent query) = Inr r"
    using MedianInHex_no_panic [OF successes_values [OF assms]] by blast
  then show ?thesis by (auto simp: settle_def finalizeFetch_def aggregateResults_def)
qed

text \<open>
  C5: however the results of the sources and the timer interleave: a fetch that ends does not panic, and it reports every result
  it took. When it reports no error, the successful results are positive numbers, at least as many as the query asks for;
  the encoded value is that of a middle one, and they agree within the limit on the spread.
\<close>

theorem FetchPrice_sound:
  assumes "run_ok query evs queued" and "float_results (taken evs (sources_of query) @ queued)"
    and "FetchPrice query evs queued = Some out"
  shows "(\<exists>res err. out = Inr (Some res, err) \<and> fp_RawResults res = taken evs (sources_of query) @ queued) \<and>
    (\<forall>res. out = Inr (Some res, None) \<longrightarrow>
       (\<exists>xs. map rs_Value (successes (fp_RawResults res)) = map FFin xs \<and> xs \<noteq> [] \<and> (\<forall>x \<in> set xs. 0 < x) \<and>
          qc_MinResponses query \<le> int (length xs) \<and> encodes_middle (fp_EncodedValue res) (qc_ResponseType query) xs \<and>
          close_together (qc_MaxSpreadPercent query) xs))"
proof -
  define rs where "rs = taken evs (sources_of query) @ queued"
  have out: "out = settle query rs" using FetchPrice_settle [OF assms(1,3)] by (simp add: rs_def)
  have float: "float_results rs" using assms(2) by (simp add: rs_def)
  have raw: "fp_RawResults res = rs" if "settle query rs = Inr (Some res, err)" for res err
    using that by (auto simp: settle_def finalizeFetch_cases fetchPriceResultFromCollected_def split: if_splits sum.splits)
  have "\<exists>res err. settle query rs = Inr (Some res, err)"
    using settle_no_panic [OF float, of query]
    by (auto simp: settle_def finalizeFetch_cases split: if_splits sum.splits)
  then have "\<exists>res err. out = Inr (Some res, err) \<and> fp_RawResults res = rs" using raw out by blast
  moreover have "\<exists>xs. map rs_Value (successes (fp_RawResults res)) = map FFin xs \<and> xs \<noteq> [] \<and> (\<forall>x \<in> set xs. 0 < x) \<and>
      qc_MinResponses query \<le> int (length xs) \<and> encodes_middle (fp_EncodedValue res) (qc_ResponseType query) xs \<and>
      close_together (qc_MaxSpreadPercent query) xs" if "out = Inr (Some res, None)" for res
    using settle_value [OF _ float, of query res] that out raw [of res None] by (metis (no_types))
  ultimately show ?thesis by (simp add: rs_def)
qed

section \<open>An example\<close>

text \<open>Three sources; the results of two are taken, the third is in the channel when the timer fires.\<close>

definition demo_median_query :: QueryConfig where
  "demo_median_query = zero_query\<lparr>qc_AggregationMethod := ''Median'', qc_MinResponses := 2, qc_ResponseType := ''uint256'',
     qc_MaxSpreadPercent := FFin 100,
     qc_RpcReaders := replicate 3 \<lparr>rh_Handler = [], rh_Reader = demo_reader [] [], rh_Invert = False, rh_UsdViaID = 0,
       rh_Method = ''GET'', rh_EndpointID = ''e'', rh_MarketId = [], rh_SourceId = ''e'', rh_MaxDataAge = 0\<rparr>\<rparr>"

definition demo_result :: "rat \<Rightarrow> Result" where
  "demo_result x = checked (FFin x) ''RPC value'' ''e'' ''e'' [] ''e''"

lemma demo_results:
  "0 < x \<Longrightarrow> rs_Value (demo_result x) = FFin x" "0 < x \<Longrightarrow> rs_Err (demo_result x) = None" "validated (demo_result x)"
  by (simp_all add: demo_result_def) (simp_all add: checked_def validatePositiveFiniteValue_def)

lemma demo_sources: "sources_of demo_median_query = Suc (Suc (Suc 0))"
  by (simp add: sources_of_def demo_median_query_def zero_query_def)

theorem FetchPrice_returns_witness: "FetchPrice demo_median_query [Arrived (demo_result 100), TimerFired] [] \<noteq> None"
  by (rule FetchPrice_returns) simp

lemma demo_run:
  "run_ok demo_median_query [Arrived (demo_result x), Arrived (demo_result y), TimerFired] [demo_result z]"
  "taken [Arrived (demo_result x), Arrived (demo_result y), TimerFired] (sources_of demo_median_query) = [demo_result x, demo_result y]"
  by (simp_all add: run_ok_def demo_sources)

lemma demo_float: "float_results [demo_result 101, demo_result 100, demo_result 100]"
  using is_float64_100 by (auto simp: float_results_def demo_results)

lemma demo_settled: "\<exists>res. settle demo_median_query [demo_result 101, demo_result 100, demo_result 100] = Inr (Some res, None)"
proof -
  obtain s where "MedianInHex [FFin 101, FFin 100, FFin 100] ''uint256'' (FFin 100) = Inr (Inr s)"
    using encode_100 median_100 by auto
  moreover have "strings_ToLower ''Median'' = ''median''" by code_simp
  ultimately show ?thesis
    by (simp add: settle_def finalizeFetch_cases aggregateResults_def successes_def demo_results)
      (simp add: demo_median_query_def zero_query_def)
qed

lemma demo_fetch:
  "\<exists>out. FetchPrice demo_median_query [Arrived (demo_result x), Arrived (demo_result y), TimerFired] [demo_result z] = Some out"
  unfolding FetchPrice_def Let_def sources_of_def [symmetric] demo_sources by simp

theorem FetchPrice_sound_witness:
  "\<exists>res xs. FetchPrice demo_median_query [Arrived (demo_result 101), Arrived (demo_result 100), TimerFired] [demo_result 100] =
      Some (Inr (Some res, None)) \<and> map FFin xs = map FFin [101, 100, 100] \<and>
     encodes_middle (fp_EncodedValue res) ''uint256'' xs"
proof -
  let ?evs = "[Arrived (demo_result 101), Arrived (demo_result 100), TimerFired]" and ?q = "[demo_result 100]"
  obtain out where out: "FetchPrice demo_median_query ?evs ?q = Some out" using demo_fetch by blast
  have float: "float_results (taken ?evs (sources_of demo_median_query) @ ?q)" using demo_float demo_run(2) by simp
  obtain res where res: "out = Inr (Some res, None)"
    using demo_settled FetchPrice_settle [OF demo_run(1) out] demo_run(2) by auto
  have succ: "map rs_Value (successes [demo_result 101, demo_result 100, demo_result 100]) = map FFin [101, 100, 100]"
    by (simp add: successes_def demo_results)
  have type: "qc_ResponseType demo_median_query = ''uint256''" by (simp add: demo_median_query_def)
  note sound = FetchPrice_sound [OF demo_run(1) float out]
  have "fp_RawResults res = [demo_result 101, demo_result 100, demo_result 100]" using sound res demo_run(2) by auto
  then obtain xs where "map FFin [101, 100, 100] = map FFin xs" "encodes_middle (fp_EncodedValue res) ''uint256'' xs"
    using sound res succ type by metis
  then show ?thesis using out res by metis
qed

theorem FetchPrice_order_irrelevant_witness:
  "\<exists>out out'. FetchPrice demo_median_query [Arrived (demo_result 101), Arrived (demo_result 100), TimerFired] [demo_result 100] = Some out \<and>
     FetchPrice demo_median_query [Arrived (demo_result 100), Arrived (demo_result 100), TimerFired] [demo_result 101] = Some out' \<and>
     outcome_key out = outcome_key out'"
proof -
  obtain out where out: "FetchPrice demo_median_query [Arrived (demo_result 101), Arrived (demo_result 100), TimerFired] [demo_result 100] = Some out"
    using demo_fetch by blast
  obtain out' where out': "FetchPrice demo_median_query [Arrived (demo_result 100), Arrived (demo_result 100), TimerFired] [demo_result 101] = Some out'"
    using demo_fetch by blast
  have "outcome_key out = outcome_key out'"
    by (rule FetchPrice_order_irrelevant [OF demo_run(1) demo_run(1) _ _ out out']) (simp_all add: demo_run(2) demo_results)
  then show ?thesis using out out' by blast
qed

end
