(* ===== verification/BuildQueries.thy ===== *)
theory BuildQueries
  imports CustomQuery
begin

text \<open>
  Building the queries from the configuration file (\<open>custom_query/config.go\<close>): variables of the environment in addresses
  and API keys, placeholders of the URL templates, the readers of each endpoint. The file is given as the outcome of
  reading and parsing it; printing and the pause for the reader are left out.
\<close>

section \<open>Text\<close>

function strings_ReplaceAll :: "string \<Rightarrow> string \<Rightarrow> string \<Rightarrow> string" where
  "strings_ReplaceAll s old new =
     (if s = [] \<or> old = [] then s
      else if strings_HasPrefix s old then new @ strings_ReplaceAll (drop (length old) s) old new
      else hd s # strings_ReplaceAll (tl s) old new)"
  by pat_completeness auto
termination by (relation "measure (\<lambda>(s, old, new). length s)") auto

declare strings_ReplaceAll.simps [simp del]

definition strings_CutPrefix :: "string \<Rightarrow> string \<Rightarrow> string option" where
  "strings_CutPrefix s p = (if strings_HasPrefix s p then Some (drop (length p) s) else None)"

text \<open>The expression \<open>{([^{}]+)}\<close>: what is between braces, at the start of a text.\<close>

definition brace_match :: "string \<Rightarrow> (string \<times> string) option" where
  "brace_match s =
     (case s of
        [] \<Rightarrow> None
      | c # cs \<Rightarrow>
          let body = takeWhile (\<lambda>c. c \<noteq> CHR ''{'' \<and> c \<noteq> CHR ''}'') cs; rest = drop (length body) cs in
          if c = CHR ''{'' \<and> body \<noteq> [] \<and> rest \<noteq> [] \<and> hd rest = CHR ''}'' then Some (body, tl rest) else None)"

text \<open>All matches, from the left.\<close>

function placeholders :: "string \<Rightarrow> string list" where
  "placeholders s =
     (case brace_match s of
        Some (name, rest) \<Rightarrow> name # placeholders rest
      | None \<Rightarrow> (case s of [] \<Rightarrow> [] | c # cs \<Rightarrow> placeholders cs))"
  by pat_completeness auto
termination
  by (relation "measure length")
    (auto simp: brace_match_def Let_def less_Suc_eq_le split: list.splits if_splits intro: le_trans [OF _ diff_le_self])

declare placeholders.simps [simp del]

text \<open>The first match of \<open>${([^{}]+)}\<close>.\<close>

fun env_variable :: "string \<Rightarrow> string option" where
  "env_variable [] = None"
| "env_variable (c # cs) =
     (if c = CHR ''$'' \<and> brace_match cs \<noteq> None then map_option fst (brace_match cs) else env_variable cs)"

section \<open>\<open>os.ExpandEnv\<close>\<close>

definition is_alnum :: "char \<Rightarrow> bool" where
  "is_alnum c = (let n = of_char c :: nat in
     c = CHR ''_'' \<or> (48 \<le> n \<and> n \<le> 57) \<or> (97 \<le> n \<and> n \<le> 122) \<or> (65 \<le> n \<and> n \<le> 90))"

definition is_special_var :: "char \<Rightarrow> bool" where
  "is_special_var c = (c \<in> set ''*#$@!?-0123456789'')"

text \<open>The name after a dollar sign and the number of characters it takes.\<close>

definition getShellName :: "string \<Rightarrow> string \<times> nat" where
  "getShellName s =
     (if hd s = CHR ''{'' then
        if length s > 2 \<and> is_special_var (s ! 1) \<and> s ! 2 = CHR ''}'' then ([s ! 1], 3)
        else
          let body = takeWhile (\<lambda>c. c \<noteq> CHR ''}'') (tl s) in
          if length body = length (tl s) then ([], 1)
          else if body = [] then ([], 2)
          else (body, length body + 2)
      else if is_special_var (hd s) then ([hd s], 1)
      else let name = takeWhile is_alnum s in (name, length name))"

function os_Expand :: "(string \<Rightarrow> string) \<Rightarrow> string \<Rightarrow> string" where
  "os_Expand mapping s =
     (case s of
        [] \<Rightarrow> []
      | c # cs \<Rightarrow>
          if c = CHR ''$'' \<and> cs \<noteq> [] then
            let (name, w) = getShellName cs in
            (if name = [] \<and> w > 0 then [] else if name = [] then [c] else mapping name) @ os_Expand mapping (drop w cs)
          else c # os_Expand mapping cs)"
  by pat_completeness auto
termination by (relation "measure (\<lambda>(mapping, s). length s)") auto

declare os_Expand.simps [simp del]

section \<open>Endpoints of the nodes\<close>

fun expand_urls :: "(string \<Rightarrow> string) \<Rightarrow> string list \<Rightarrow> string list" where
  "expand_urls getenv [] = []"
| "expand_urls getenv (url # rest) =
     (let expandedURL = os_Expand getenv url in
      if strings_Contains expandedURL ''${'' \<and> strings_Contains expandedURL ''}'' then expand_urls getenv rest
      else if strings_Contains expandedURL '','' then
        (case ParseEndpointList expandedURL of
           Inl err \<Rightarrow> expand_urls getenv rest
         | Inr endpoints \<Rightarrow> endpoints @ expand_urls getenv rest)
      else expandedURL # expand_urls getenv rest)"

definition chain_urls :: "(string \<Rightarrow> string) \<Rightarrow> string \<times> RPCEndpointTemplate \<Rightarrow> (string \<times> string list) option" where
  "chain_urls getenv ce =
     (let (chain, endpointConfig) = ce;
          configured = (let urls = expand_urls getenv (re_URLs endpointConfig) in if urls \<noteq> [] then Some (chain, urls) else None)
      in
      if chain = ''ethereum'' then
        (case ETHMainnetRPCNodesFromEnv getenv of Inr urls \<Rightarrow> Some (chain, urls) | Inl e \<Rightarrow> configured)
      else configured)"

definition processRPCEndpoints ::
    "(string \<Rightarrow> string) \<Rightarrow> (string, RPCEndpointTemplate) gomap \<Rightarrow> (string, string list) gomap" where
  "processRPCEndpoints getenv configured = List.map_filter (chain_urls getenv) configured"

definition load_api_key :: "(string \<Rightarrow> string) \<Rightarrow> EndpointTemplate \<Rightarrow> EndpointTemplate" where
  "load_api_key getenv endpoint =
     (case env_variable (et_ApiKey endpoint) of
        Some envVar \<Rightarrow> endpoint\<lparr>et_ApiKey := getenv envVar\<rparr> | None \<Rightarrow> endpoint)"

definition processApiKeys :: "(string \<Rightarrow> string) \<Rightarrow> query_file \<Rightarrow> query_file" where
  "processApiKeys getenv cfg =
     cfg\<lparr>cfg_Endpoints := map (\<lambda>(endpointName, endpoint). (endpointName, load_api_key getenv endpoint)) (cfg_Endpoints cfg)\<rparr>"

definition resolveMaxDataAge :: "int \<Rightarrow> int \<Rightarrow> duration" where
  "resolveMaxDataAge templateSecs endpointSecs =
     (if endpointSecs > 0 then int64_wrap (endpointSecs * 10 ^ 9)
      else if templateSecs > 0 then int64_wrap (templateSecs * 10 ^ 9)
      else 0)"

section \<open>Endpoints of a query\<close>

datatype build_error =
    BFile string
  | BNoHandler string
  | BNoChain string string
  | BContractReader string string
  | BNoTemplate string string
  | BRpcReader string string
  | BMissingParam string string
  | BPlaceholders string

text \<open>\<open>dial\<close>, the environment, and the text of \<open>%v\<close> for a value that is not a string, a number or a truth value.\<close>

record build_env =
  be_dial :: "string \<Rightarrow> bool"
  be_getenv :: "string \<Rightarrow> string"
  be_sprint :: "any \<Rightarrow> string"

definition sprint_int :: "int \<Rightarrow> string" where
  "sprint_int i = (if i < 0 then CHR ''-'' # decimal_digits (nat (- i)) else decimal_digits (nat i))"

definition sprint_any :: "build_env \<Rightarrow> any \<Rightarrow> string" where
  "sprint_any env v =
     (case v of
        AnyString s \<Rightarrow> s
      | AnyBool b \<Rightarrow> if b then ''true'' else ''false''
      | AnyInt i \<Rightarrow> sprint_int i
      | AnyInt64 i \<Rightarrow> sprint_int i
      | _ \<Rightarrow> be_sprint env v)"

definition braces :: "string \<Rightarrow> string" where
  "braces key = CHR ''{'' # key @ ''}''"

definition replace_params :: "string \<Rightarrow> (string \<times> string) list \<Rightarrow> string" where
  "replace_params s params = foldl (\<lambda>u (key, v). strings_ReplaceAll u (braces key) v) s params"

definition process_headers :: "EndpointTemplate \<Rightarrow> (string, string) gomap" where
  "process_headers template =
     map (\<lambda>(key, v). (key, if strings_EqualFold v ''api_key'' then et_ApiKey template else v)) (et_Headers template)"

definition source_timeout :: "QueryConfig \<Rightarrow> EndpointTemplate \<Rightarrow> int" where
  "source_timeout query template =
     (if qc_PerSourceTimeoutMs query > 0 then qc_PerSourceTimeoutMs query else et_Timeout template)"

definition new_contract_reader ::
    "build_env \<Rightarrow> (string, string list) gomap \<Rightarrow> QueryConfig \<Rightarrow> string \<Rightarrow> build_error + contractReader" where
  "new_contract_reader env processed query chain =
     (case map_of processed chain of
        None \<Rightarrow> Inl (BNoChain chain (qc_ID query))
      | Some urls \<Rightarrow>
          (case contract_NewReader (be_dial env) urls (perSourceTimeoutMs query) (maxSourceRetries query) of
             Inl e \<Rightarrow> Inl (BContractReader e (qc_ID query)) | Inr r \<Rightarrow> Inr r))"

section \<open>Combined endpoints\<close>

text \<open>The parameters of a source: a value that is no map panics.\<close>

definition source_params :: "build_env \<Rightarrow> EndpointConfig \<Rightarrow> string \<Rightarrow> go_panic + (string, string) gomap" where
  "source_params env ep sourceName =
     (case map_of (ep_CombinedConfig ep) (sourceName @ ''_params'') of
        None \<Rightarrow> Inr []
      | Some (AnyMap m) \<Rightarrow> Inr (map (\<lambda>(key, v). (key, sprint_any env v)) m)
      | Some _ \<Rightarrow> Inl PanicTypeAssertion)"

definition source_response_path :: "EndpointConfig \<Rightarrow> string \<Rightarrow> string list" where
  "source_response_path ep sourceName =
     (case map_of (ep_CombinedConfig ep) (sourceName @ ''_response_path'') of
        Some (AnyStrings path) \<Rightarrow> path
      | Some (AnySlice xs) \<Rightarrow> List.map_filter (\<lambda>x. case x of AnyString s \<Rightarrow> Some s | _ \<Rightarrow> None) xs
      | _ \<Rightarrow> [])"

definition combined_rpc_reader ::
    "build_env \<Rightarrow> query_file \<Rightarrow> QueryConfig \<Rightarrow> EndpointConfig \<Rightarrow> string \<Rightarrow> string \<Rightarrow> go_panic + build_error + rpcReader" where
  "combined_rpc_reader env cfg query ep sourceName endpointType =
     (case map_of (cfg_Endpoints cfg) endpointType of
        None \<Rightarrow> Inr (Inl (BNoTemplate endpointType (qc_ID query)))
      | Some template \<Rightarrow>
          bindE (source_params env ep sourceName) (\<lambda>sourceParams.
            let url = strings_ReplaceAll (replace_params (et_URLTemplate template) sourceParams) ''{api_key}'' (et_ApiKey template);
                processedQuery = replace_params (et_Query template) sourceParams
            in Inr
              (case rpc_NewReader url (et_Method template) processedQuery (process_headers template)
                      (source_response_path ep sourceName) (source_timeout query template) sourceParams (maxSourceRetries query) of
                 Inl e \<Rightarrow> Inl (BRpcReader e (qc_ID query)) | Inr r \<Rightarrow> Inr r)))"

type_synonym combined_readers = "(string, contractReader) gomap \<times> (string, rpcReader) gomap"

fun combined_sources ::
    "build_env \<Rightarrow> query_file \<Rightarrow> (string, string list) gomap \<Rightarrow> QueryConfig \<Rightarrow> EndpointConfig \<Rightarrow> (string \<times> string) list \<Rightarrow>
     combined_readers \<Rightarrow> go_panic + build_error + combined_readers" where
  "combined_sources env cfg processed query ep [] readers = Inr (Inr readers)"
| "combined_sources env cfg processed query ep ((sourceName, sourceType) # rest) (crs, rrs) =
     (case strings_CutPrefix sourceType ''contract:'' of
        Some chain \<Rightarrow>
          (case new_contract_reader env processed query chain of
             Inl e \<Rightarrow> Inr (Inl e)
           | Inr reader \<Rightarrow> combined_sources env cfg processed query ep rest (mput sourceName reader crs, rrs))
      | None \<Rightarrow>
          (case strings_CutPrefix sourceType ''rpc:'' of
             None \<Rightarrow> combined_sources env cfg processed query ep rest (crs, rrs)
           | Some endpointType \<Rightarrow>
               bindE (combined_rpc_reader env cfg query ep sourceName endpointType) (\<lambda>r.
                 case r of
                   Inl e \<Rightarrow> Inr (Inl e)
                 | Inr reader \<Rightarrow> combined_sources env cfg processed query ep rest (crs, mput sourceName reader rrs))))"

text \<open>A float that is no number converts to the least integer, as on amd64.\<close>

definition config_min_responses :: "(string, any) gomap \<Rightarrow> int" where
  "config_min_responses config =
     (case map_of config ''min_responses'' of
        Some (AnyInt v) \<Rightarrow> v
      | Some (AnyInt64 v) \<Rightarrow> v
      | Some (AnyFloat64 v) \<Rightarrow> (case v of FFin x \<Rightarrow> f64_to_int64 x | _ \<Rightarrow> - (2 ^ 63))
      | _ \<Rightarrow> 1)"

definition config_max_spread :: "(string, any) gomap \<Rightarrow> float64" where
  "config_max_spread config =
     (case map_of config ''max_spread_percent'' of
        Some (AnyFloat64 v) \<Rightarrow> v
      | Some (AnyInt v) \<Rightarrow> float64_round (of_int v)
      | Some (AnyInt64 v) \<Rightarrow> float64_round (of_int v)
      | _ \<Rightarrow> FFin 100)"

definition build_combined ::
    "build_env \<Rightarrow> query_file \<Rightarrow> (string, string list) gomap \<Rightarrow> QueryConfig \<Rightarrow> EndpointConfig \<Rightarrow>
     go_panic + build_error + CombinedHandler" where
  "build_combined env cfg processed query ep =
     (if ep_Handler ep = [] then Inr (Inl (BNoHandler (qc_ID query)))
      else bindE (combined_sources env cfg processed query ep (ep_CombinedSources ep) ([], [])) (\<lambda>r. Inr
        (case r of
           Inl e \<Rightarrow> Inl e
         | Inr (crs, rrs) \<Rightarrow> Inr
             \<lparr>cb_Handler = ep_Handler ep, cb_ContractReaders = crs, cb_RpcReaders = rrs, cb_Config = ep_CombinedConfig ep,
              cb_MinResponses = config_min_responses (ep_CombinedConfig ep),
              cb_MaxSpreadPercent = config_max_spread (ep_CombinedConfig ep),
              cb_MaxDataAge = resolveMaxDataAge 0 (ep_MaxDataAgeSecs ep)\<rparr>)))"

section \<open>Contracts and documents\<close>

definition build_contract ::
    "build_env \<Rightarrow> (string, string list) gomap \<Rightarrow> QueryConfig \<Rightarrow> EndpointConfig \<Rightarrow> build_error + ContractHandler" where
  "build_contract env processed query ep =
     (if ep_Handler ep = [] \<or> ep_Chain ep = [] then Inl (BNoHandler (qc_ID query))
      else bindE (new_contract_reader env processed query (ep_Chain ep)) (\<lambda>contractReader. Inr
        \<lparr>ch_Handler = ep_Handler ep, ch_Reader = contractReader, ch_MarketId = ep_MarketId ep,
         ch_SourceId = ep_EndpointType ep, ch_MaxDataAge = resolveMaxDataAge 0 (ep_MaxDataAgeSecs ep)\<rparr>))"

text \<open>The placeholders of the template must have a parameter; the API key comes from the template otherwise.\<close>

fun check_placeholders ::
    "EndpointTemplate \<Rightarrow> EndpointConfig \<Rightarrow> string list \<Rightarrow> string \<Rightarrow> build_error + string" where
  "check_placeholders template ep [] url = Inr url"
| "check_placeholders template ep (paramName # rest) url =
     (if map_of (ep_Params ep) paramName = None then
        if paramName = ''api_key'' then
          check_placeholders template ep rest (strings_ReplaceAll url ''{api_key}'' (et_ApiKey template))
        else Inl (BMissingParam paramName (ep_EndpointType ep))
      else check_placeholders template ep rest url)"

definition build_url :: "EndpointTemplate \<Rightarrow> EndpointConfig \<Rightarrow> build_error + string" where
  "build_url template ep =
     bindE (check_placeholders template ep (placeholders (et_URLTemplate template)) (et_URLTemplate template)) (\<lambda>url.
       let url = replace_params url (ep_Params ep) in
       if placeholders url \<noteq> [] then Inl (BPlaceholders url) else Inr url)"

definition build_rpc :: "query_file \<Rightarrow> QueryConfig \<Rightarrow> EndpointConfig \<Rightarrow> build_error + RpcHandler" where
  "build_rpc cfg query ep =
     (case map_of (cfg_Endpoints cfg) (ep_EndpointType ep) of
        None \<Rightarrow> Inl (BNoTemplate (ep_EndpointType ep) (qc_ID query))
      | Some template \<Rightarrow>
          bindE (build_url template ep) (\<lambda>url.
            case rpc_NewReader url (et_Method template) (replace_params (et_Query template) (ep_Params ep))
                   (process_headers template) (ep_ResponsePath ep) (source_timeout query template) (ep_Params ep)
                   (maxSourceRetries query) of
              Inl e \<Rightarrow> Inl (BRpcReader e (qc_ID query))
            | Inr rpcReader \<Rightarrow> Inr
                \<lparr>rh_Handler = ep_Handler ep, rh_Reader = rpcReader, rh_Invert = ep_Invert ep, rh_UsdViaID = ep_UsdViaID ep,
                 rh_Method = et_Method template, rh_EndpointID = ep_EndpointType ep, rh_MarketId = ep_MarketId ep,
                 rh_SourceId = ep_EndpointType ep,
                 rh_MaxDataAge = resolveMaxDataAge (et_MaxDataAgeSecs template) (ep_MaxDataAgeSecs ep)\<rparr>))"

section \<open>The queries\<close>

text \<open>The readers of a query, by kind, in the order of its endpoints.\<close>

fun build_endpoints ::
    "build_env \<Rightarrow> query_file \<Rightarrow> (string, string list) gomap \<Rightarrow> QueryConfig \<Rightarrow> EndpointConfig list \<Rightarrow> QueryConfig \<Rightarrow>
     go_panic + build_error + QueryConfig" where
  "build_endpoints env cfg processed query [] acc = Inr (Inr acc)"
| "build_endpoints env cfg processed query (ep # eps) acc =
     (if ep_EndpointType ep = ''combined'' then
        bindE (build_combined env cfg processed query ep) (\<lambda>r. case r of
            Inl e \<Rightarrow> Inr (Inl e)
          | Inr h \<Rightarrow> build_endpoints env cfg processed query eps (acc\<lparr>qc_CombinedReaders := qc_CombinedReaders acc @ [h]\<rparr>))
      else if ep_EndpointType ep = ''contract'' then
        (case build_contract env processed query ep of
            Inl e \<Rightarrow> Inr (Inl e)
          | Inr h \<Rightarrow> build_endpoints env cfg processed query eps (acc\<lparr>qc_ContractReaders := qc_ContractReaders acc @ [h]\<rparr>))
      else
        (case build_rpc cfg query ep of
            Inl e \<Rightarrow> Inr (Inl e)
          | Inr h \<Rightarrow> build_endpoints env cfg processed query eps (acc\<lparr>qc_RpcReaders := qc_RpcReaders acc @ [h]\<rparr>)))"

text \<open>The query that is built has no endpoints of the file any more.\<close>

definition build_query ::
    "build_env \<Rightarrow> query_file \<Rightarrow> (string, string list) gomap \<Rightarrow> (string, TimeoutDefaults) gomap \<Rightarrow> QueryConfig \<Rightarrow>
     go_panic + build_error + QueryConfig" where
  "build_query env cfg processed timeoutDefaults query0 =
     (let query = ResolveQueryTimeouts query0 timeoutDefaults in
      build_endpoints env cfg processed query (qc_Endpoints query)
        (query\<lparr>qc_Endpoints := [], qc_ContractReaders := [], qc_RpcReaders := [], qc_CombinedReaders := []\<rparr>))"

fun build_queries ::
    "build_env \<Rightarrow> query_file \<Rightarrow> (string, string list) gomap \<Rightarrow> (string, TimeoutDefaults) gomap \<Rightarrow> (string \<times> QueryConfig) list \<Rightarrow>
     (string, QueryConfig) gomap \<Rightarrow> go_panic + build_error + (string, QueryConfig) gomap" where
  "build_queries env cfg processed timeoutDefaults [] queryMap = Inr (Inr queryMap)"
| "build_queries env cfg processed timeoutDefaults ((k, query) # rest) queryMap =
     bindE (build_query env cfg processed timeoutDefaults query) (\<lambda>r. case r of
         Inl e \<Rightarrow> Inr (Inl e)
       | Inr q \<Rightarrow> build_queries env cfg processed timeoutDefaults rest (mput (qc_ID query) q queryMap))"

definition BuildQueryEndpoints ::
    "build_env \<Rightarrow> build_error + query_file \<Rightarrow> go_panic + build_error + (string, QueryConfig) gomap" where
  "BuildQueryEndpoints env file =
     (case file of
        Inl e \<Rightarrow> Inr (Inl e)
      | Inr config \<Rightarrow>
          let processedRPCEndpoints = processRPCEndpoints (be_getenv env) (cfg_RPCEndpoints config);
              queryMap = fold (\<lambda>(k, query). mput (qc_ID query) query) (cfg_Queries config) [];
              config = processApiKeys (be_getenv env) config
          in build_queries env config processedRPCEndpoints (mergedConfigDefaults (cfg_Defaults config)) (cfg_Queries config)
               queryMap)"

section \<open>Variables that are not set\<close>

lemma Contains_append:
  "CHR ''$'' \<notin> set a \<Longrightarrow> strings_Contains (a @ b) ''${'' = strings_Contains b ''${''"
  by (induction a) auto

lemma Contains_dollar: "strings_Contains (CHR ''$'' # s) ''${'' \<longleftrightarrow> (s \<noteq> [] \<and> hd s = CHR ''{'') \<or> strings_Contains s ''${''"
  by (cases s) auto

lemma os_Expand_Nil [simp]: "os_Expand mapping [] = []"
  by (simp add: os_Expand.simps)

lemma os_Expand_plain: "c \<noteq> CHR ''$'' \<Longrightarrow> os_Expand mapping (c # cs) = c # os_Expand mapping cs"
  by (subst os_Expand.simps) simp

lemma getShellName_no_name:
  assumes "cs \<noteq> []" and "getShellName cs = ([], 0)"
  shows "hd cs \<noteq> CHR ''$'' \<and> hd cs \<noteq> CHR ''{''"
  using assms by (auto simp: getShellName_def is_special_var_def Let_def split: if_splits)

lemma expanded_no_variable:
  assumes "\<And>v. CHR ''$'' \<notin> set (mapping v)"
  shows "\<not> strings_Contains (os_Expand mapping s) ''${''"
proof (induction s rule: length_induct)
  case (1 s)
  show ?case
  proof (cases s)
    case (Cons c cs)
    show ?thesis
    proof (cases "c = CHR ''$'' \<and> cs \<noteq> []")
      case True
      obtain name w where nw: "getShellName cs = (name, w)" by (cases "getShellName cs")
      have rest: "\<not> strings_Contains (os_Expand mapping (drop w cs)) ''${''" using 1 Cons by simp
      have eq: "os_Expand mapping s =
          (if name = [] \<and> w > 0 then [] else if name = [] then [c] else mapping name) @ os_Expand mapping (drop w cs)"
        by (subst os_Expand.simps) (simp add: Cons True nw)
      show ?thesis
      proof (cases "name = [] \<and> w = 0")
        case True
        then have hd: "hd cs \<noteq> CHR ''$''" "hd cs \<noteq> CHR ''{''" "cs \<noteq> []"
          using getShellName_no_name [of cs] nw \<open>c = CHR ''$'' \<and> cs \<noteq> []\<close> by simp_all
        then obtain d ds where "cs = d # ds" by (auto simp: neq_Nil_conv)
        then have "os_Expand mapping cs = d # os_Expand mapping ds" "d \<noteq> CHR ''{''" using hd by (simp_all add: os_Expand_plain)
        then show ?thesis using eq rest True \<open>c = CHR ''$'' \<and> cs \<noteq> []\<close> by (simp add: Contains_dollar)
      next
        case False
        then show ?thesis using eq rest assms [of name] by (auto simp: Contains_append)
      qed
    next
      case False
      then have "os_Expand mapping s = c # os_Expand mapping cs" by (subst os_Expand.simps) (auto simp: Cons)
      moreover have "\<not> strings_Contains (os_Expand mapping cs) ''${''" using 1 Cons by simp
      ultimately show ?thesis using False by (cases "c = CHR ''$''") auto
    qed
  qed simp
qed

text \<open>
  An address with a variable that is not set is not skipped: the expansion leaves nothing of the variable, so the check for
  a remaining one never holds. Every address of the file yields at least one, unless it is a list with an empty entry.
\<close>

theorem unset_variable_not_skipped:
  assumes "\<And>v. CHR ''$'' \<notin> set (getenv v)"
  shows "expand_urls getenv urls =
    concat (map (\<lambda>url. let e = os_Expand getenv url in
      if strings_Contains e '','' then (case ParseEndpointList e of Inl err \<Rightarrow> [] | Inr es \<Rightarrow> es) else [e]) urls)"
  using expanded_no_variable [of getenv, OF assms] by (induction urls) (auto simp: Let_def split: sum.split)

section \<open>The readers of a query\<close>

text \<open>The settings of a query that its readers depend on, and those that the fetch needs.\<close>

definition same_settings :: "QueryConfig \<Rightarrow> QueryConfig \<Rightarrow> bool" where
  "same_settings q q' \<longleftrightarrow>
     (\<exists>crs rrs cbs eps. q' = q\<lparr>qc_Endpoints := eps, qc_ContractReaders := crs, qc_RpcReaders := rrs, qc_CombinedReaders := cbs\<rparr>)"

definition rpc_reader_ok :: "QueryConfig \<Rightarrow> RpcHandler \<Rightarrow> bool" where
  "rpc_reader_ok query h \<longleftrightarrow> rr_baseURL (rh_Reader h) \<noteq> [] \<and> placeholders (rr_baseURL (rh_Reader h)) = [] \<and>
     int (rr_maxRetries (rh_Reader h)) = max 1 (maxSourceRetries query)"

lemma build_rpc_ok:
  assumes "build_rpc cfg query ep = Inr h"
  shows "rpc_reader_ok query h"
  using assms
  by (auto simp: build_rpc_def build_url_def rpc_NewReader_def rpc_reader_ok_def Let_def split: option.splits if_splits)

lemma case_Inr_Inr [simp]:
  "(case r of Inl e \<Rightarrow> Inr (Inl e) | Inr h \<Rightarrow> f h) = Inr (Inr q) \<longleftrightarrow> (\<exists>h. r = Inr h \<and> f h = Inr (Inr q))"
  by (cases r) auto

lemma build_endpoints_readers:
  assumes "build_endpoints env cfg processed query eps acc = Inr (Inr q)"
  shows "sources_of q = sources_of acc + length eps" and "same_settings acc q"
    and "\<forall>h \<in> set (qc_RpcReaders q). h \<in> set (qc_RpcReaders acc) \<or> rpc_reader_ok query h"
proof -
  have "sources_of q = sources_of acc + length eps \<and> same_settings acc q \<and>
      (\<forall>h \<in> set (qc_RpcReaders q). h \<in> set (qc_RpcReaders acc) \<or> rpc_reader_ok query h)"
    using assms
  proof (induction env cfg processed query eps acc rule: build_endpoints.induct)
    case (1 env cfg processed query acc)
    have "same_settings acc acc" unfolding same_settings_def
      by (intro exI [of _ "qc_ContractReaders acc"] exI [of _ "qc_RpcReaders acc"] exI [of _ "qc_CombinedReaders acc"]
          exI [of _ "qc_Endpoints acc"]) simp
    then show ?case using 1 by auto
  next
    case (2 env cfg processed query ep eps acc)
    have step: "same_settings (acc\<lparr>qc_CombinedReaders := a\<rparr>) q \<Longrightarrow> same_settings acc q"
      "same_settings (acc\<lparr>qc_ContractReaders := b\<rparr>) q \<Longrightarrow> same_settings acc q"
      "same_settings (acc\<lparr>qc_RpcReaders := c\<rparr>) q \<Longrightarrow> same_settings acc q" for a b c
      unfolding same_settings_def by auto
    consider h where "build_combined env cfg processed query ep = Inr (Inr h)" "ep_EndpointType ep = ''combined''"
        "build_endpoints env cfg processed query eps (acc\<lparr>qc_CombinedReaders := qc_CombinedReaders acc @ [h]\<rparr>) = Inr (Inr q)"
      | h where "build_contract env processed query ep = Inr h" "ep_EndpointType ep \<noteq> ''combined''" "ep_EndpointType ep = ''contract''"
        "build_endpoints env cfg processed query eps (acc\<lparr>qc_ContractReaders := qc_ContractReaders acc @ [h]\<rparr>) = Inr (Inr q)"
      | h where "build_rpc cfg query ep = Inr h" "ep_EndpointType ep \<noteq> ''combined''" "ep_EndpointType ep \<noteq> ''contract''"
        "build_endpoints env cfg processed query eps (acc\<lparr>qc_RpcReaders := qc_RpcReaders acc @ [h]\<rparr>) = Inr (Inr q)"
      using "2.prems" by (auto split: if_splits)
    then show ?case
    proof cases
      case 1
      from "2.IH"(1) [OF 1(2,3)] show ?thesis using step(1) by (auto simp: sources_of_def)
    next
      case 2
      from "2.IH"(2) [OF 2(2,3,1,4)] show ?thesis using step(2) by (auto simp: sources_of_def)
    next
      case 3
      from "2.IH"(3) [OF 3(2,3,1,4)] show ?thesis using step(3) build_rpc_ok [OF 3(1)] by (auto simp: sources_of_def)
    qed
  qed
  then show "sources_of q = sources_of acc + length eps" and "same_settings acc q"
    and "\<forall>h \<in> set (qc_RpcReaders q). h \<in> set (qc_RpcReaders acc) \<or> rpc_reader_ok query h" by blast+
qed

section \<open>The queries of a file\<close>

definition built_from :: "(string, TimeoutDefaults) gomap \<Rightarrow> QueryConfig \<Rightarrow> QueryConfig \<Rightarrow> bool" where
  "built_from timeoutDefaults query0 q \<longleftrightarrow>
     (let query = ResolveQueryTimeouts query0 timeoutDefaults in
      same_settings query q \<and> sources_of q = length (qc_Endpoints query0) \<and> (\<forall>h \<in> set (qc_RpcReaders q). rpc_reader_ok query h))"

lemma Resolve_endpoints [simp]: "qc_Endpoints (ResolveQueryTimeouts q d) = qc_Endpoints q" "qc_ID (ResolveQueryTimeouts q d) = qc_ID q"
  by (simp_all add: ResolveQueryTimeouts_def ResolveFetchTimeouts_def ResolveReaderTimeouts_def Let_def)

lemma build_query_ok:
  assumes "build_query env cfg processed d query0 = Inr (Inr q)"
  shows "built_from d query0 q"
proof -
  define query where "query = ResolveQueryTimeouts query0 d"
  define acc where "acc = query\<lparr>qc_Endpoints := [], qc_ContractReaders := [], qc_RpcReaders := [], qc_CombinedReaders := []\<rparr>"
  have "build_endpoints env cfg processed query (qc_Endpoints query) acc = Inr (Inr q)"
    using assms by (simp add: build_query_def query_def acc_def Let_def)
  note r = build_endpoints_readers [OF this]
  have "same_settings query q" using r(2) unfolding same_settings_def acc_def by auto
  then show ?thesis using r(1,3) by (simp add: built_from_def Let_def acc_def sources_of_def flip: query_def) (simp add: query_def)
qed

lemma build_queries_result:
  assumes "build_queries env cfg processed d qs m0 = Inr (Inr m)" and "distinct (map (qc_ID \<circ> snd) qs)"
  shows "\<forall>q0 \<in> set (map snd qs). \<exists>q. map_of m (qc_ID q0) = Some q \<and> built_from d q0 q"
    and "\<forall>i. i \<notin> set (map (qc_ID \<circ> snd) qs) \<longrightarrow> map_of m i = map_of m0 i"
  using assms
proof (induction env cfg processed d qs m0 rule: build_queries.induct)
  case (2 env cfg processed d k query rest m0)
  case 1
  from 1(1) obtain q where q: "build_query env cfg processed d query = Inr (Inr q)"
    "build_queries env cfg processed d rest (mput (qc_ID query) q m0) = Inr (Inr m)" by auto
  have "distinct (map (qc_ID \<circ> snd) rest)" "qc_ID query \<notin> set (map (qc_ID \<circ> snd) rest)"
    using 1(2) by (auto simp: comp_def)
  note ih = "2.IH"(1) [OF q(2) this(1)] "2.IH"(2) [OF q(2) this(1)] this(2)
  have "map_of m (qc_ID query) = Some q" using ih(2,3) by simp
  then show ?case using ih(1) build_query_ok [OF q(1)] by auto
next
  case (2 env cfg processed d k query rest m0)
  case 2
  from 2(1) obtain q where q: "build_queries env cfg processed d rest (mput (qc_ID query) q m0) = Inr (Inr m)" by auto
  have "distinct (map (qc_ID \<circ> snd) rest)" using 2(2) by (simp add: comp_def)
  from "2.IH"(2) [OF q this] show ?case by auto
qed auto

text \<open>
  A configuration that is accepted: every query of the file has been built, with as many sources as it has endpoints, with
  its settings and the resolved timeouts, and no placeholder is left in the address of a document.
\<close>

theorem BuildQueryEndpoints_spec:
  assumes "BuildQueryEndpoints env (Inr cfg) = Inr (Inr m)" and "distinct (map (qc_ID \<circ> snd) (cfg_Queries cfg))"
    and "query0 \<in> set (map snd (cfg_Queries cfg))"
  shows "\<exists>q. map_of m (qc_ID query0) = Some q \<and> built_from (mergedConfigDefaults (cfg_Defaults cfg)) query0 q"
proof -
  have fields: "cfg_Defaults (processApiKeys g cfg) = cfg_Defaults cfg" "cfg_Queries (processApiKeys g cfg) = cfg_Queries cfg" for g
    by (simp_all add: processApiKeys_def)
  from assms(1) have "\<forall>q0 \<in> set (map snd (cfg_Queries cfg)). \<exists>q. map_of m (qc_ID q0) = Some q \<and>
      built_from (mergedConfigDefaults (cfg_Defaults cfg)) q0 q"
    unfolding BuildQueryEndpoints_def Let_def sum.case fields by (rule build_queries_result(1) [OF _ assms(2)])
  then show ?thesis using assms(3) by blast
qed

section \<open>The timeout of an endpoint\<close>

text \<open>The file with other timeouts in its endpoint templates.\<close>

definition retime :: "(string \<Rightarrow> int) \<Rightarrow> query_file \<Rightarrow> query_file" where
  "retime f cfg = cfg\<lparr>cfg_Endpoints := map (\<lambda>(n, t). (n, t\<lparr>et_Timeout := f n\<rparr>)) (cfg_Endpoints cfg)\<rparr>"

lemma map_of_retime: "map_of (cfg_Endpoints (retime f cfg)) n = map_option (\<lambda>t. t\<lparr>et_Timeout := f n\<rparr>) (map_of (cfg_Endpoints cfg) n)"
proof -
  have "map_of (map (\<lambda>(n, t). (n, t\<lparr>et_Timeout := f n\<rparr>)) ts) n = map_option (\<lambda>t. t\<lparr>et_Timeout := f n\<rparr>) (map_of ts n)" for ts
    by (induction ts) auto
  then show ?thesis by (simp add: retime_def)
qed

lemma retimed_fields:
  "et_URLTemplate (t\<lparr>et_Timeout := x\<rparr>) = et_URLTemplate t" "et_Query (t\<lparr>et_Timeout := x\<rparr>) = et_Query t"
  "et_Method (t\<lparr>et_Timeout := x\<rparr>) = et_Method t" "et_ApiKey (t\<lparr>et_Timeout := x\<rparr>) = et_ApiKey t"
  "et_Headers (t\<lparr>et_Timeout := x\<rparr>) = et_Headers t" "et_MaxDataAgeSecs (t\<lparr>et_Timeout := x\<rparr>) = et_MaxDataAgeSecs t"
  by simp_all

lemma retimed_template:
  "process_headers (t\<lparr>et_Timeout := x\<rparr>) = process_headers t" "build_url (t\<lparr>et_Timeout := x\<rparr>) ep = build_url t ep"
proof -
  show "process_headers (t\<lparr>et_Timeout := x\<rparr>) = process_headers t" unfolding process_headers_def retimed_fields ..
  have "check_placeholders (t\<lparr>et_Timeout := x\<rparr>) ep ps url = check_placeholders t ep ps url" for ps url
    by (induction t ep ps url rule: check_placeholders.induct) auto
  then show "build_url (t\<lparr>et_Timeout := x\<rparr>) ep = build_url t ep" by (simp add: build_url_def)
qed

lemma source_timeout_own: "0 < qc_PerSourceTimeoutMs query \<Longrightarrow> source_timeout query t = qc_PerSourceTimeoutMs query"
  by (simp add: source_timeout_def)

lemma retime_build_rpc:
  assumes "0 < qc_PerSourceTimeoutMs query"
  shows "build_rpc (retime f cfg) query ep = build_rpc cfg query ep"
  unfolding build_rpc_def map_of_retime
  by (cases "map_of (cfg_Endpoints cfg) (ep_EndpointType ep)")
    (simp_all only: option.map option.case retimed_template retimed_fields source_timeout_own [OF assms])

lemma retime_combined_rpc_reader:
  assumes "0 < qc_PerSourceTimeoutMs query"
  shows "combined_rpc_reader env (retime f cfg) query ep n t = combined_rpc_reader env cfg query ep n t"
  unfolding combined_rpc_reader_def map_of_retime
  by (cases "map_of (cfg_Endpoints cfg) t")
    (simp_all only: option.map option.case retimed_template retimed_fields source_timeout_own [OF assms])

lemma retime_build_combined:
  assumes "0 < qc_PerSourceTimeoutMs query"
  shows "build_combined env (retime f cfg) processed query ep = build_combined env cfg processed query ep"
proof -
  have "combined_sources env (retime f cfg) processed query ep sources readers = combined_sources env cfg processed query ep sources readers"
    for sources readers
  proof (induction sources arbitrary: readers)
    case (Cons s rest)
    obtain n t crs rrs where sr: "s = (n, t)" "readers = (crs, rrs)" by (cases s, cases readers)
    show ?case unfolding sr combined_sources.simps retime_combined_rpc_reader [OF assms] Cons.IH ..
  qed simp
  then show ?thesis by (simp add: build_combined_def)
qed

lemma retime_build_endpoints:
  assumes "0 < qc_PerSourceTimeoutMs query"
  shows "build_endpoints env (retime f cfg) processed query eps acc = build_endpoints env cfg processed query eps acc"
proof (induction eps arbitrary: acc)
  case (Cons ep eps)
  show ?case unfolding build_endpoints.simps retime_build_combined [OF assms] retime_build_rpc [OF assms] Cons.IH ..
qed simp

text \<open>
  The setting \<open>timeout\<close> of an endpoint has no effect: for a query of a known type (or none) the timeout of its sources is
  always resolved to a positive one, and this is what every reader gets.
\<close>

lemma resolved_per_source:
  assumes "gomap_ok defaults" and "settings_ok query" and "queryTypeOf query \<in> {QueryTypeSpotPrice, QueryTypeBridgeDeposit}"
  shows "0 < qc_PerSourceTimeoutMs (ResolveQueryTimeouts query (mergedConfigDefaults defaults))"
  using assms(2,3)
  by (simp add: ResolveQueryTimeouts_fields typeDefaults_merged [OF assms(1)] Let_def settings_ok_def unless_set_def
      mergeTimeoutDefaults_def override_def static_defaults_def spot_price_defaults_def bridge_deposit_defaults_def)

text \<open>
  The setting \<open>timeout\<close> of the endpoints has no effect: for queries of a known type (or none) the same sources are built
  whatever the timeouts of the endpoints are.
\<close>

theorem endpoint_timeout_ignored:
  assumes "gomap_ok (cfg_Defaults cfg)"
    and "\<forall>query \<in> set (map snd (cfg_Queries cfg)).
      settings_ok query \<and> queryTypeOf query \<in> {QueryTypeSpotPrice, QueryTypeBridgeDeposit}"
  shows "BuildQueryEndpoints env (Inr (retime f cfg)) = BuildQueryEndpoints env (Inr cfg)"
proof -
  let ?d = "mergedConfigDefaults (cfg_Defaults cfg)"
  have same: "processApiKeys g (retime f cfg) = retime f (processApiKeys g cfg)" for g
  proof -
    have "load_api_key g (t\<lparr>et_Timeout := x\<rparr>) = (load_api_key g t)\<lparr>et_Timeout := x\<rparr>" for t x
      by (simp add: load_api_key_def split: option.split)
    then show ?thesis by (simp add: processApiKeys_def retime_def case_prod_beta comp_def)
  qed
  have fields: "cfg_RPCEndpoints (retime f cfg) = cfg_RPCEndpoints cfg" "cfg_Queries (retime f c) = cfg_Queries c"
    "cfg_Defaults (retime f c) = cfg_Defaults c" "cfg_Defaults (processApiKeys g cfg) = cfg_Defaults cfg"
    "cfg_Queries (processApiKeys g cfg) = cfg_Queries cfg" for g c
    by (simp_all add: retime_def processApiKeys_def)
  have "build_queries env (retime f c) processed ?d qs m = build_queries env c processed ?d qs m"
    if "\<forall>query \<in> set (map snd qs). settings_ok query \<and> queryTypeOf query \<in> {QueryTypeSpotPrice, QueryTypeBridgeDeposit}"
    for c processed qs m
    using that
  proof (induction qs arbitrary: m)
    case (Cons kq rest)
    obtain k query where kq: "kq = (k, query)" by (cases kq)
    have "0 < qc_PerSourceTimeoutMs (ResolveQueryTimeouts query ?d)"
      using resolved_per_source [OF assms(1)] Cons.prems kq by simp
    then have "build_query env (retime f c) processed ?d query = build_query env c processed ?d query"
      unfolding build_query_def Let_def by (rule retime_build_endpoints)
    moreover have "build_queries env (retime f c) processed ?d rest m' = build_queries env c processed ?d rest m'" for m'
      using Cons by simp
    ultimately show ?case unfolding kq build_queries.simps by simp
  qed simp
  note eq = this [OF assms(2)]
  show ?thesis unfolding BuildQueryEndpoints_def Let_def sum.case same fields by (rule eq)
qed

end
