(* ===== verification/QueryFeeds.thy ===== *)
theory QueryFeeds
  imports QueryConfig
begin

text \<open>
  The comments on the feeds of the configuration file (\<open>custom_query/query_feed_comment.go\<close>): which queries are
  fundamental feeds (a ratio of a contract times a price of its collateral) and which are market feeds.
\<close>

definition FeedTypeMarket :: string where "FeedTypeMarket = ''market''"
definition FeedTypeFundamental :: string where "FeedTypeFundamental = ''fundamental''"

definition contractHandlerCollateral :: "(string, string) gomap" where
  "contractHandlerCollateral =
     [(''yieldfi_yusd_handler'', ''USDC''),
      (''yieldfi_vyusd_handler'', ''USDC''),
      (''yieldfi_yeth_handler'', ''ETH''),
      (''susdeusd_handler'', ''USDE''),
      (''reth_handler'', ''ETH''),
      (''wsteth_handler'', ''stETH'')]"

definition contractHandlerLabel :: "(string, string) gomap" where
  "contractHandlerLabel =
     [(''yieldfi_yusd_handler'', ''yieldfi-yusd contract''),
      (''yieldfi_vyusd_handler'', ''yieldfi-vyusd contract''),
      (''yieldfi_yeth_handler'', ''yieldfi-yeth contract''),
      (''susdeusd_handler'', ''susde contract''),
      (''reth_handler'', ''reth contract''),
      (''wsteth_handler'', ''wsteth contract'')]"

definition combinedHandlerCollateral :: "(string, string) gomap" where
  "combinedHandlerCollateral = [(''susn_price'', ''USN''), (''sfrxusd_price'', ''FRX'')]"

definition combinedHandlerLabel :: "(string, string) gomap" where
  "combinedHandlerLabel = [(''susn_price'', ''susn contract''), (''sfrxusd_price'', ''sfrxusd contract'')]"

text \<open>\<open>strings.Cut\<close> at the first dash.\<close>

definition marketIDToAsset :: "string \<Rightarrow> string" where
  "marketIDToAsset marketID = takeWhile (\<lambda>c. c \<noteq> CHR ''-'') marketID"

definition inferTargetAsset :: "QueryConfig \<Rightarrow> string" where
  "inferTargetAsset q =
     (case find (\<lambda>ep. ep_MarketId ep \<noteq> []) (qc_Endpoints q) of
        Some ep \<Rightarrow> marketIDToAsset (ep_MarketId ep)
      | None \<Rightarrow>
          (case qc_Endpoints q of
             [ep] \<Rightarrow>
               if ep_Handler ep \<in> {''yieldfi_yusd_handler'', ''yieldfi_vyusd_handler''} then ''yUSD''
               else if ep_Handler ep = ''yieldfi_yeth_handler'' then ''yETH''
               else if ep_Handler ep = ''susn_price'' then ''SUSN''
               else if ep_Handler ep = ''sfrxusd_price'' then ''sFRXUSD''
               else []
           | _ \<Rightarrow> []))"

definition feed_collateral :: "EndpointConfig \<Rightarrow> string option" where
  "feed_collateral ep =
     (if ep_EndpointType ep = ''contract'' then map_of contractHandlerCollateral (ep_Handler ep)
      else if ep_EndpointType ep = ''combined'' then map_of combinedHandlerCollateral (ep_Handler ep)
      else None)"

text \<open>The type of the feed, the asset, and the collateral (empty for market feeds).\<close>

definition ClassifyQueryFeed :: "QueryConfig \<Rightarrow> string \<times> string \<times> string" where
  "ClassifyQueryFeed q =
     (let targetAsset = inferTargetAsset q in
      case qc_Endpoints q of
        [ep] \<Rightarrow>
          (case feed_collateral ep of
             Some collateral \<Rightarrow> (FeedTypeFundamental, targetAsset, collateral)
           | None \<Rightarrow> (FeedTypeMarket, targetAsset, []))
      | _ \<Rightarrow> (FeedTypeMarket, targetAsset, []))"

definition countCombinedRPCSources :: "EndpointConfig \<Rightarrow> nat" where
  "countCombinedRPCSources ep =
     length (filter (\<lambda>(name, sourceType). strings_HasPrefix sourceType ''rpc:'') (ep_CombinedSources ep))"

definition label_or_handler :: "(string, string) gomap \<Rightarrow> string \<Rightarrow> string" where
  "label_or_handler labels handler =
     (case map_of labels handler of None \<Rightarrow> handler | Some l \<Rightarrow> if l = [] then handler else l)"

text \<open>The sign for multiplication, in UTF-8.\<close>

definition times_sign :: string where "times_sign = [CHR 0xC3, CHR 0x97]"

definition fundamentalFeedComment :: "QueryConfig \<Rightarrow> string \<Rightarrow> string \<Rightarrow> go_panic + string" where
  "fundamentalFeedComment q pair collateral =
     (case qc_Endpoints q of
        [] \<Rightarrow> Inl PanicIndexOutOfRange
      | ep # _ \<Rightarrow>
          if ep_EndpointType ep = ''contract'' then
            Inr (pair @ '': (fundamental) ratio from '' @ label_or_handler contractHandlerLabel (ep_Handler ep) @ '' '' @
                 times_sign @ '' '' @ collateral @ ''/USD pricefeed cache.'')
          else if ep_EndpointType ep = ''combined'' then
            Inr (pair @ '': (fundamental) ratio from '' @ label_or_handler combinedHandlerLabel (ep_Handler ep) @ '' '' @
                 times_sign @ '' median '' @ collateral @ ''/USD from '' @ decimal_digits (countCombinedRPCSources ep) @
                 '' sources.'')
          else Inr (pair @ '': (fundamental).''))"

definition GenerateFeedComment :: "QueryConfig \<Rightarrow> go_panic + string" where
  "GenerateFeedComment q =
     (let targetAsset = (if inferTargetAsset q = [] then ''asset'' else inferTargetAsset q);
          pair = targetAsset @ ''/USD'';
          (feedType, _, collateral) = ClassifyQueryFeed q
      in if feedType = FeedTypeFundamental then fundamentalFeedComment q pair collateral
         else Inr (pair @ '': (market) median of '' @ decimal_digits (length (qc_Endpoints q)) @ '' sources.''))"

section \<open>What the comments say\<close>

lemma feed_types_differ: "FeedTypeMarket \<noteq> FeedTypeFundamental"
  by (simp add: FeedTypeMarket_def FeedTypeFundamental_def)

lemma fundamental_iff:
  "fst (ClassifyQueryFeed q) = FeedTypeFundamental \<longleftrightarrow>
     (\<exists>ep collateral. qc_Endpoints q = [ep] \<and> feed_collateral ep = Some collateral \<and>
        ClassifyQueryFeed q = (FeedTypeFundamental, inferTargetAsset q, collateral))"
  using feed_types_differ by (auto simp: ClassifyQueryFeed_def Let_def split: list.splits option.splits)

lemma labels_complete:
  "map_of contractHandlerCollateral h = Some c \<Longrightarrow> \<exists>l. map_of contractHandlerLabel h = Some l \<and> l \<noteq> []"
  "map_of combinedHandlerCollateral h = Some c \<Longrightarrow> \<exists>l. map_of combinedHandlerLabel h = Some l \<and> l \<noteq> []"
  by (auto simp: contractHandlerCollateral_def contractHandlerLabel_def combinedHandlerCollateral_def combinedHandlerLabel_def
      split: if_splits)

text \<open>
  A comment is always produced. It is that of a fundamental feed exactly for a single endpoint that reads a contract with
  a known collateral, and then it names the label of the contract and the collateral, not the bare handler.
\<close>

lemma GenerateFeedComment_spec:
  "GenerateFeedComment q =
     (let pair = (if inferTargetAsset q = [] then ''asset'' else inferTargetAsset q) @ ''/USD'' in
      case qc_Endpoints q of
        [ep] \<Rightarrow> (case feed_collateral ep of
                   Some collateral \<Rightarrow> fundamentalFeedComment q pair collateral
                 | None \<Rightarrow> Inr (pair @ '': (market) median of 1 sources.''))
      | eps \<Rightarrow> Inr (pair @ '': (market) median of '' @ decimal_digits (length eps) @ '' sources.''))"
proof -
  have "decimal_digits 1 = ''1''" by code_simp
  then show ?thesis using feed_types_differ
    by (auto simp: GenerateFeedComment_def ClassifyQueryFeed_def Let_def split: list.splits option.splits)
qed

lemma GenerateFeedComment_total: "\<exists>s. GenerateFeedComment q = Inr s"
  by (auto simp: GenerateFeedComment_spec Let_def fundamentalFeedComment_def split: list.split option.split)

end
