(* ===== verification/StaticQueries.thy ===== *)
theory StaticQueries
  imports BuildQueries QueryFeeds
begin

text \<open>
  The queries and endpoints that come with the program (\<open>custom_query/constants.go\<close>), and that they can be built.
\<close>

section \<open>The tables\<close>

text \<open>A template and an endpoint with no field set; a quotation mark and a backslash.\<close>

definition zero_template :: EndpointTemplate where
  "zero_template = \<lparr>et_URLTemplate = [], et_Query = [], et_Method = [], et_Timeout = 0, et_ApiKey = [], et_Headers = [],
     et_MaxDataAgeSecs = 0\<rparr>"

definition zero_endpoint :: EndpointConfig where
  "zero_endpoint = \<lparr>ep_EndpointType = [], ep_ResponsePath = [], ep_Params = [], ep_MarketId = [], ep_Handler = [], ep_Chain = [],
     ep_Invert = False, ep_UsdViaID = 0, ep_MaxDataAgeSecs = 0, ep_CombinedSources = [], ep_CombinedConfig = []\<rparr>"

definition dq :: string where "dq = [CHR 0x22]"
definition bsl :: string where "bsl = [CHR 0x5C]"

definition template_coingecko :: EndpointTemplate where
  "template_coingecko = zero_template
     \<lparr>et_URLTemplate := ''https://api.coingecko.com/api/v3/simple/price?ids={coin_id}&vs_currencies=usd'',
      et_Method := ''GET'', et_Timeout := 1000, et_MaxDataAgeSecs := 600\<rparr>"

definition template_coingeckoPro :: EndpointTemplate where
  "template_coingeckoPro = zero_template
     \<lparr>et_URLTemplate := ''https://pro-api.coingecko.com/api/v3/simple/price?ids={coin_id}&vs_currencies=usd&x_cg_pro_api_key={api_key}'',
      et_Method := ''GET'', et_Timeout := 1000, et_ApiKey := ''${CGPRO_API_KEY}'', et_MaxDataAgeSecs := 600\<rparr>"

definition template_coinpaprika :: EndpointTemplate where
  "template_coinpaprika = zero_template
     \<lparr>et_URLTemplate := ''https://api.coinpaprika.com/v1/tickers/{coin_id}?quotes=USD'', et_Method := ''GET'',
      et_Timeout := 1000, et_MaxDataAgeSecs := 600\<rparr>"

definition template_curve :: EndpointTemplate where
  "template_curve = zero_template
     \<lparr>et_URLTemplate := ''https://prices.curve.finance/v1/usd_price/ethereum/{contract_address}'', et_Method := ''GET'',
      et_Timeout := 1000, et_MaxDataAgeSecs := 600\<rparr>"

definition template_curveSusdeFactoryStableNg :: EndpointTemplate where
  "template_curveSusdeFactoryStableNg = zero_template
     \<lparr>et_URLTemplate := ''https://api.curve.fi/api/getPools/ethereum/factory-stable-ng'', et_Method := ''GET'',
      et_Timeout := 1000, et_MaxDataAgeSecs := 600\<rparr>"

definition template_curveEthereumGetPools :: EndpointTemplate where
  "template_curveEthereumGetPools = zero_template
     \<lparr>et_URLTemplate := ''https://api.curve.fi/api/getPools/ethereum/{registry}'', et_Method := ''GET'',
      et_Timeout := 1000, et_MaxDataAgeSecs := 600\<rparr>"

definition template_crypto :: EndpointTemplate where
  "template_crypto = zero_template
     \<lparr>et_URLTemplate := ''https://api.crypto.com/v2/public/get-ticker?instrument_name={instrument_name}'',
      et_Method := ''GET'', et_Timeout := 1000, et_MaxDataAgeSecs := 600\<rparr>"

definition template_coinmarketcap :: EndpointTemplate where
  "template_coinmarketcap = zero_template
     \<lparr>et_URLTemplate := ''https://pro-api.coinmarketcap.com/v1/cryptocurrency/quotes/latest?id={id}'',
      et_Method := ''GET'', et_Timeout := 1000, et_ApiKey := ''${CMC_PRO_API_KEY}'',
      et_Headers := [(''Accept'', ''application/json''), (''X-CMC_PRO_API_KEY'', ''api_key'')], et_MaxDataAgeSecs := 600\<rparr>"

definition template_coinbase :: EndpointTemplate where
  "template_coinbase = zero_template
     \<lparr>et_URLTemplate := ''https://api.coinbase.com/v2/prices/{currency_pair}/spot'', et_Method := ''GET'',
      et_Timeout := 1000, et_MaxDataAgeSecs := 600\<rparr>"

definition template_osmosis :: EndpointTemplate where
  "template_osmosis = zero_template
     \<lparr>et_URLTemplate := ''https://lcd.osmosis.zone/osmosis/gamm/v1beta1/pools/{pool_id}'', et_Method := ''GET'',
      et_Timeout := 1000, et_MaxDataAgeSecs := 86400\<rparr>"

definition template_uniswapV4ethereum :: EndpointTemplate where
  "template_uniswapV4ethereum = zero_template
     \<lparr>et_URLTemplate := ''https://gateway.thegraph.com/api/{api_key}/subgraphs/id/DiYPVdygkfjDWhbxGSqAQxwBKmfKnkWQojqeM2rkLb3G'',
      et_Query := (''{'' @ dq @ ''query'' @ dq @ '': '' @ dq @ ''{ token(id: '' @ bsl @ dq @ ''{token_address}'' @ bsl @ dq @ '') { derivedETH } }'' @ dq @ ''}''),
      et_Method := ''POST'', et_Timeout := 1000, et_ApiKey := ''${SUBGRAPH_API_KEY}'',
      et_Headers := [(''Content-Type'', ''application/json'')], et_MaxDataAgeSecs := 600\<rparr>"

definition template_theGraphUniswapStylePool :: EndpointTemplate where
  "template_theGraphUniswapStylePool = zero_template
     \<lparr>et_URLTemplate := ''https://gateway.thegraph.com/api/{api_key}/subgraphs/id/{subgraph_id}'',
      et_Query := (''{'' @ dq @ ''query'' @ dq @ '': '' @ dq @ ''{ pool(id: '' @ bsl @ dq @ ''{pool_id}'' @ bsl @ dq @ '') { token0 { id } token1 { id } token0Price token1Price } _meta { block { timestamp } } }'' @ dq @ ''}''),
      et_Method := ''POST'', et_Timeout := 1000, et_ApiKey := ''${SUBGRAPH_API_KEY}'',
      et_Headers := [(''Content-Type'', ''application/json'')], et_MaxDataAgeSecs := 600\<rparr>"

definition template_uniswapV3ethereum :: EndpointTemplate where
  "template_uniswapV3ethereum = zero_template
     \<lparr>et_URLTemplate := ''https://gateway.thegraph.com/api/{api_key}/subgraphs/id/5zvR82QoaXYFyDEKLZ9t6v9adgnptxYpKpSbxtgVENFV'',
      et_Query := (''{'' @ dq @ ''query'' @ dq @ '': '' @ dq @ ''{ token(id: '' @ bsl @ dq @ ''{token_address}'' @ bsl @ dq @ '') { derivedETH } }'' @ dq @ ''}''),
      et_Method := ''POST'', et_Timeout := 1000, et_ApiKey := ''${SUBGRAPH_API_KEY}'',
      et_Headers := [(''Content-Type'', ''application/json'')], et_MaxDataAgeSecs := 600\<rparr>"

definition template_sushiswapKatana :: EndpointTemplate where
  "template_sushiswapKatana = zero_template
     \<lparr>et_URLTemplate := ''https://api.sushi.com/price/v1/747474'', et_Method := ''GET'', et_Timeout := 1000,
      et_MaxDataAgeSecs := 600\<rparr>"

definition StaticEndpointTemplateConfig :: "(string, EndpointTemplate) gomap" where
  "StaticEndpointTemplateConfig =
     [(''coingecko'', template_coingecko),
      (''coingeckoPro'', template_coingeckoPro),
      (''coinpaprika'', template_coinpaprika),
      (''curve'', template_curve),
      (''curveSusdeFactoryStableNg'', template_curveSusdeFactoryStableNg),
      (''curveEthereumGetPools'', template_curveEthereumGetPools),
      (''crypto'', template_crypto),
      (''coinmarketcap'', template_coinmarketcap),
      (''coinbase'', template_coinbase),
      (''osmosis'', template_osmosis),
      (''uniswapV4ethereum'', template_uniswapV4ethereum),
      (''theGraphUniswapStylePool'', template_theGraphUniswapStylePool),
      (''uniswapV3ethereum'', template_uniswapV3ethereum),
      (''sushiswapKatana'', template_sushiswapKatana)]"

definition StaticRPCEndpointTemplateConfig :: "(string, RPCEndpointTemplate) gomap" where
  "StaticRPCEndpointTemplateConfig =
     [(''ethereum'', \<lparr>re_URLs =
        [''https://mainnet.infura.io/v3/${INFURA_API_KEY}'',
         ''https://eth-mainnet.alchemyapi.io/v2/${ALCHEMY_API_KEY}'',
         ''https://rpc.ankr.com/eth'']\<rparr>)]"

definition query_sdai :: QueryConfig where
  "query_sdai = zero_query
     \<lparr>qc_ID := ''05cddb6b67074aa61fcbe1d2fd5924e028bb699b506267df28c88f7deac4edc6'',
      qc_AggregationMethod := ''median'', qc_MaxSpreadPercent := FFin 50,
      qc_MinResponses := 2, qc_ResponseType := ''ufixed256x18'',
      qc_Endpoints :=
       [zero_endpoint\<lparr>ep_EndpointType := ''coingecko'', ep_ResponsePath := [''savings-dai'', ''usd''],
         ep_Params := [(''coin_id'', ''savings-dai'')], ep_MarketId := ''SDAI-USD''\<rparr>,
        zero_endpoint\<lparr>ep_EndpointType := ''coinpaprika'', ep_ResponsePath := [''quotes'', ''USD'', ''price''],
         ep_Params := [(''coin_id'', ''sdai-savings-dai'')], ep_MarketId := ''SDAI-USD''\<rparr>,
        zero_endpoint\<lparr>ep_EndpointType := ''curve'', ep_ResponsePath := [''data'', ''usd_price''],
         ep_Params := [(''contract_address'', ''0x83F20F44975D03b1b09e64809B757c47f942BEeA'')],
         ep_MarketId := ''SDAI-USD''\<rparr>]\<rparr>"

definition query_susde :: QueryConfig where
  "query_susde = zero_query
     \<lparr>qc_ID := ''03731257e35c49e44b267640126358e5decebdd8f18b5e8f229542ec86e318cf'',
      qc_AggregationMethod := ''median'', qc_MaxSpreadPercent := FFin 10,
      qc_MinResponses := 1, qc_ResponseType := ''ufixed256x18'',
      qc_Endpoints :=
       [zero_endpoint\<lparr>ep_EndpointType := ''contract'', ep_MarketId := ''SUSDE-USD'', ep_Handler := ''susdeusd_handler'',
         ep_Chain := ''ethereum''\<rparr>]\<rparr>"

definition query_tbtc :: QueryConfig where
  "query_tbtc = zero_query
     \<lparr>qc_ID := ''76b504e33305a63a3b80686c0b7bb99e7697466927ba78e224728e80bfaaa0be'',
      qc_AggregationMethod := ''median'', qc_MaxSpreadPercent := FFin 100,
      qc_MinResponses := 2, qc_ResponseType := ''ufixed256x18'',
      qc_Endpoints :=
       [zero_endpoint\<lparr>ep_EndpointType := ''coingeckoPro'', ep_ResponsePath := [''tbtc'', ''usd''],
         ep_Params := [(''coin_id'', ''tbtc'')], ep_MarketId := ''TBTC-USD''\<rparr>,
        zero_endpoint\<lparr>ep_EndpointType := ''coinmarketcap'', ep_ResponsePath := [''data'', ''26133'', ''quote'', ''USD'', ''price''],
         ep_Params := [(''id'', ''26133'')], ep_MarketId := ''TBTC-USD''\<rparr>,
        zero_endpoint\<lparr>ep_EndpointType := ''coinbase'', ep_ResponsePath := [''data'', ''amount''],
         ep_Params := [(''currency_pair'', ''TBTC-USD'')], ep_MarketId := ''TBTC-USD''\<rparr>]\<rparr>"

definition query_reth :: QueryConfig where
  "query_reth = zero_query
     \<lparr>qc_ID := ''0bc2d41117ae8779da7623ee76a109c88b84b9bf4d9b404524df04f7d0ca4ca7'',
      qc_AggregationMethod := ''median'', qc_MaxSpreadPercent := FFin 100,
      qc_MinResponses := 1, qc_ResponseType := ''ufixed256x18'',
      qc_Endpoints :=
       [zero_endpoint\<lparr>ep_EndpointType := ''contract'', ep_MarketId := ''RETH-USD'', ep_Handler := ''reth_handler'',
         ep_Chain := ''ethereum''\<rparr>]\<rparr>"

definition query_wsteth :: QueryConfig where
  "query_wsteth = zero_query
     \<lparr>qc_ID := ''1962cde2f19178fe2bb2229e78a6d386e6406979edc7b9a1966d89d83b3ebf2e'',
      qc_AggregationMethod := ''median'', qc_MaxSpreadPercent := FFin 100,
      qc_MinResponses := 1, qc_ResponseType := ''ufixed256x18'',
      qc_Endpoints :=
       [zero_endpoint\<lparr>ep_EndpointType := ''contract'', ep_MarketId := ''WSTETH-USD'', ep_Handler := ''wsteth_handler'',
         ep_Chain := ''ethereum''\<rparr>]\<rparr>"

definition query_sfrxusd :: QueryConfig where
  "query_sfrxusd = zero_query
     \<lparr>qc_ID := ''ab30caa3e7827a27c153063bce02c0b260b29c0c164040c003f0f9ec66002510'',
      qc_AggregationMethod := ''median'', qc_MaxSpreadPercent := FFin 10,
      qc_MinResponses := 1, qc_ResponseType := ''ufixed256x18'',
      qc_Endpoints :=
       [zero_endpoint\<lparr>ep_EndpointType := ''combined'', ep_MarketId := ''SFRXUSD-USD'', ep_Handler := ''sfrxusd_price'',
         ep_CombinedSources := [(''ethereum'', ''contract:ethereum''), (''coingecko'', ''rpc:coingecko''), (''curve'', ''rpc:curve''),
          (''coinpaprika'', ''rpc:coinpaprika'')],
         ep_CombinedConfig := [(''min_responses'', AnyInt 2), (''max_spread_percent'', AnyFloat64 (FFin 50)),
          (''coingecko_params'', AnyMap [(''coin_id'', AnyString ''frax'')]),
          (''coingecko_response_path'', AnyStrings [''frax'', ''usd'']),
          (''curve_params'', AnyMap [(''contract_address'', AnyString ''0x853d955aCEf822Db058eb8505911ED77F175b99e'')]),
          (''curve_response_path'', AnyStrings [''data'', ''usd_price'']),
          (''coinpaprika_params'', AnyMap [(''coin_id'', AnyString ''frax-frax'')]),
          (''coinpaprika_response_path'', AnyStrings [''quotes'', ''USD'', ''price''])]\<rparr>]\<rparr>"

definition StaticQueriesConfig :: "(string, QueryConfig) gomap" where
  "StaticQueriesConfig =
     map (\<lambda>q. (qc_ID q, q)) [query_sdai, query_susde, query_tbtc, query_reth, query_wsteth, query_sfrxusd]"

definition static_file :: query_file where
  "static_file = \<lparr>cfg_Endpoints = StaticEndpointTemplateConfig, cfg_RPCEndpoints = StaticRPCEndpointTemplateConfig,
     cfg_Queries = StaticQueriesConfig, cfg_Defaults = []\<rparr>"

section \<open>Placeholders\<close>

lemma ReplaceAll_no_brace: "CHR ''{'' \<notin> set a \<Longrightarrow> strings_ReplaceAll (a @ b) (braces k) v = a @ strings_ReplaceAll b (braces k) v"
proof (induction a)
  case (Cons c cs)
  then show ?case by (subst strings_ReplaceAll.simps) (auto simp: braces_def)
qed simp

lemma ReplaceAll_here: "strings_ReplaceAll (braces k @ b) (braces k) v = v @ strings_ReplaceAll b (braces k) v"
proof -
  have "strings_HasPrefix (braces k @ b) (braces k)" by (auto simp: strings_HasPrefix_iff)
  then show ?thesis by (subst strings_ReplaceAll.simps) (simp add: braces_def)
qed

lemma ReplaceAll_Nil [simp]: "strings_ReplaceAll [] old new = []"
  by (subst strings_ReplaceAll.simps) simp

lemma placeholders_no_brace: "CHR ''{'' \<notin> set s \<Longrightarrow> placeholders s = []"
proof (induction s)
  case Nil
  show ?case by (subst placeholders.simps) (simp add: brace_match_def)
next
  case (Cons c cs)
  then show ?case by (subst placeholders.simps) (auto simp: brace_match_def Let_def)
qed

text \<open>The addresses of the static queries.\<close>

lemma static_urls:
  "build_url template_coingecko (zero_endpoint\<lparr>ep_Params := [(''coin_id'', ''savings-dai'')]\<rparr>) =
     Inr ''https://api.coingecko.com/api/v3/simple/price?ids=savings-dai&vs_currencies=usd''"
  "build_url template_coinpaprika (zero_endpoint\<lparr>ep_Params := [(''coin_id'', ''sdai-savings-dai'')]\<rparr>) =
     Inr ''https://api.coinpaprika.com/v1/tickers/sdai-savings-dai?quotes=USD''"
  "build_url template_curve (zero_endpoint\<lparr>ep_Params := [(''contract_address'', ''0x83F20F44975D03b1b09e64809B757c47f942BEeA'')]\<rparr>) =
     Inr ''https://prices.curve.finance/v1/usd_price/ethereum/0x83F20F44975D03b1b09e64809B757c47f942BEeA''"
  "build_url template_coinmarketcap (zero_endpoint\<lparr>ep_Params := [(''id'', ''26133'')]\<rparr>) =
     Inr ''https://pro-api.coinmarketcap.com/v1/cryptocurrency/quotes/latest?id=26133''"
  "build_url template_coinbase (zero_endpoint\<lparr>ep_Params := [(''currency_pair'', ''TBTC-USD'')]\<rparr>) =
     Inr ''https://api.coinbase.com/v2/prices/TBTC-USD/spot''"
  by code_simp+

text \<open>Only the template, the parameters and the type of an endpoint count for its address.\<close>

lemma build_url_Inr:
  "ep_Params ep = ep_Params ep' \<Longrightarrow> build_url t ep' = Inr url \<Longrightarrow> build_url t ep = Inr url"
proof -
  assume p: "ep_Params ep = ep_Params ep'" and url: "build_url t ep' = Inr url"
  have "check_placeholders t ep' ps u = Inr w \<Longrightarrow> check_placeholders t ep ps u = Inr w" for ps u w
    by (induction ps arbitrary: u) (auto simp: p split: if_splits)
  then show "build_url t ep = Inr url" using url by (auto simp: build_url_def p)
qed

lemma build_url_pro:
  assumes "CHR ''{'' \<notin> set key"
  shows "build_url (template_coingeckoPro\<lparr>et_ApiKey := key\<rparr>) (zero_endpoint\<lparr>ep_Params := [(''coin_id'', ''tbtc'')]\<rparr>) =
    Inr (''https://pro-api.coingecko.com/api/v3/simple/price?ids=tbtc&vs_currencies=usd&x_cg_pro_api_key='' @ key)"
proof -
  let ?a = "''https://pro-api.coingecko.com/api/v3/simple/price?ids=''"
    and ?b = "''&vs_currencies=usd&x_cg_pro_api_key=''"
  have plain: "CHR ''{'' \<notin> set ?a" "CHR ''{'' \<notin> set ?b" "CHR ''{'' \<notin> set ''tbtc''" by simp_all
  have url: "et_URLTemplate (template_coingeckoPro\<lparr>et_ApiKey := key\<rparr>) = ?a @ braces ''coin_id'' @ ?b @ braces ''api_key''"
    by (simp add: template_coingeckoPro_def braces_def)
  have names: "placeholders (?a @ braces ''coin_id'' @ ?b @ braces ''api_key'') = [''coin_id'', ''api_key'']" by code_simp
  have other: "strings_ReplaceAll (?a @ braces ''coin_id'' @ ?b @ braces ''api_key'') (braces ''api_key'') key = ?a @ braces ''coin_id'' @ ?b @ key"
  proof -
    have "strings_ReplaceAll (braces ''coin_id'' @ c) (braces ''api_key'') key = braces ''coin_id'' @ strings_ReplaceAll c (braces ''api_key'') key" for c
      using ReplaceAll_no_brace [of "''coin_id}''" c "''api_key''" key]
      by (subst strings_ReplaceAll.simps) (simp add: braces_def)
    then show ?thesis
      using ReplaceAll_here [of "''api_key''" "[]" key] by (simp only: ReplaceAll_no_brace plain not_False_eq_True append_Nil2 ReplaceAll_Nil)
  qed
  have coin: "strings_ReplaceAll (?a @ braces ''coin_id'' @ ?b @ key) (braces ''coin_id'') ''tbtc'' = ?a @ ''tbtc'' @ ?b @ key"
    using ReplaceAll_no_brace [OF assms, of "[]"] by (simp only: ReplaceAll_no_brace plain ReplaceAll_here append_Nil2 ReplaceAll_Nil not_False_eq_True)
  have "placeholders (?a @ ''tbtc'' @ ?b @ key) = []" using assms by (intro placeholders_no_brace) simp
  moreover have "ep_Params (zero_endpoint\<lparr>ep_Params := ps\<rparr>) = ps" for ps by simp
  moreover have "braces ''api_key'' = ''{api_key}''" by (simp add: braces_def)
  ultimately show ?thesis
    unfolding build_url_def url names using other coin
    by (simp add: replace_params_def)
qed

section \<open>The static queries can be built\<close>

definition endpoint_builds :: "build_env \<Rightarrow> query_file \<Rightarrow> (string, string list) gomap \<Rightarrow> QueryConfig \<Rightarrow> EndpointConfig \<Rightarrow> bool" where
  "endpoint_builds env cfg processed query ep \<longleftrightarrow>
     (if ep_EndpointType ep = ''combined'' then \<exists>h. build_combined env cfg processed query ep = Inr (Inr h)
      else if ep_EndpointType ep = ''contract'' then \<exists>h. build_contract env processed query ep = Inr h
      else \<exists>h. build_rpc cfg query ep = Inr h)"

lemma build_endpoints_succeeds:
  "\<forall>ep \<in> set eps. endpoint_builds env cfg processed query ep \<Longrightarrow>
     \<exists>q. build_endpoints env cfg processed query eps acc = Inr (Inr q)"
proof (induction eps arbitrary: acc)
  case (Cons ep eps)
  have "\<exists>q. build_endpoints env cfg processed query eps acc' = Inr (Inr q)" for acc' using Cons by simp
  moreover have "endpoint_builds env cfg processed query ep" using Cons.prems by simp
  ultimately show ?case by (auto simp: endpoint_builds_def split: if_splits)
qed simp

lemma build_query_succeeds:
  assumes "\<forall>ep \<in> set (qc_Endpoints query). endpoint_builds env cfg processed (ResolveQueryTimeouts query d) ep"
  shows "\<exists>q. build_query env cfg processed d query = Inr (Inr q)"
  using assms by (simp add: build_query_def Let_def build_endpoints_succeeds)

lemma build_queries_succeeds:
  "\<forall>kq \<in> set qs. \<exists>q. build_query env cfg processed d (snd kq) = Inr (Inr q) \<Longrightarrow>
     \<exists>m. build_queries env cfg processed d qs m0 = Inr (Inr m)"
  by (induction qs arbitrary: m0) auto

lemma rpc_builds:
  assumes "map_of (cfg_Endpoints cfg) (ep_EndpointType ep) = Some t" and "build_url t ep = Inr url" and "url \<noteq> []"
    and "ep_EndpointType ep \<notin> {''combined'', ''contract''}"
  shows "endpoint_builds env cfg processed query ep"
  using assms by (simp add: endpoint_builds_def build_rpc_def rpc_NewReader_def)

lemma contract_reader_builds:
  assumes "map_of processed chain = Some urls" and "u \<in> set urls" and "be_dial env u"
  shows "\<exists>r. new_contract_reader env processed query chain = Inr r"
proof -
  have "urls \<noteq> []" "filter (be_dial env) urls \<noteq> []" using assms(2,3) by (auto simp: filter_empty_conv)
  then show ?thesis by (simp add: new_contract_reader_def assms(1) contract_NewReader_def Let_def)
qed

lemma build_url_key:
  assumes "''api_key'' \<notin> set (placeholders (et_URLTemplate t))"
  shows "build_url (t\<lparr>et_ApiKey := key\<rparr>) ep = build_url t ep"
proof -
  have "''api_key'' \<notin> set ps \<Longrightarrow> check_placeholders (t\<lparr>et_ApiKey := key\<rparr>) ep ps u = check_placeholders t ep ps u" for ps u
    by (induction ps arbitrary: u) auto
  then show ?thesis using assms by (simp add: build_url_def)
qed

lemma static_templates:
  "map_of (cfg_Endpoints (processApiKeys g static_file)) t = map_option (load_api_key g) (map_of StaticEndpointTemplateConfig t)"
proof -
  have "map_of (map (\<lambda>(n, e). (n, f e)) es) t = map_option f (map_of es t)" for f :: "EndpointTemplate \<Rightarrow> EndpointTemplate" and es
    by (induction es) auto
  then show ?thesis by (simp add: processApiKeys_def static_file_def)
qed

lemma static_keys:
  "load_api_key g template_coingecko = template_coingecko" "load_api_key g template_coinpaprika = template_coinpaprika"
  "load_api_key g template_curve = template_curve" "load_api_key g template_coinbase = template_coinbase"
  "load_api_key g template_coinmarketcap = template_coinmarketcap\<lparr>et_ApiKey := g ''CMC_PRO_API_KEY''\<rparr>"
  "load_api_key g template_coingeckoPro = template_coingeckoPro\<lparr>et_ApiKey := g ''CGPRO_API_KEY''\<rparr>"
proof -
  have "env_variable (et_ApiKey template_coinmarketcap) = Some ''CMC_PRO_API_KEY''"
    "env_variable (et_ApiKey template_coingeckoPro) = Some ''CGPRO_API_KEY''" by code_simp+
  then show "load_api_key g template_coinmarketcap = template_coinmarketcap\<lparr>et_ApiKey := g ''CMC_PRO_API_KEY''\<rparr>"
    "load_api_key g template_coingeckoPro = template_coingeckoPro\<lparr>et_ApiKey := g ''CGPRO_API_KEY''\<rparr>"
    by (simp_all add: load_api_key_def)
qed (simp_all add: load_api_key_def template_coingecko_def template_coinpaprika_def template_curve_def template_coinbase_def
    zero_template_def)

lemma static_known:
  "map_of StaticEndpointTemplateConfig ''coingecko'' = Some template_coingecko"
  "map_of StaticEndpointTemplateConfig ''coingeckoPro'' = Some template_coingeckoPro"
  "map_of StaticEndpointTemplateConfig ''coinpaprika'' = Some template_coinpaprika"
  "map_of StaticEndpointTemplateConfig ''curve'' = Some template_curve"
  "map_of StaticEndpointTemplateConfig ''coinmarketcap'' = Some template_coinmarketcap"
  "map_of StaticEndpointTemplateConfig ''coinbase'' = Some template_coinbase"
  by (simp_all add: StaticEndpointTemplateConfig_def)

lemma no_key_in_coinmarketcap: "''api_key'' \<notin> set (placeholders (et_URLTemplate template_coinmarketcap))"
  by code_simp

lemma sdai_builds:
  assumes "ep \<in> set (qc_Endpoints query_sdai)"
  shows "endpoint_builds env (processApiKeys g static_file) processed query ep"
  using assms unfolding query_sdai_def
  by (auto intro!: rpc_builds build_url_Inr [OF _ static_urls(1)] build_url_Inr [OF _ static_urls(2)] build_url_Inr [OF _ static_urls(3)]
      simp: static_templates static_known static_keys)

lemma tbtc_builds:
  assumes "CHR ''{'' \<notin> set (g ''CGPRO_API_KEY'')" and "ep \<in> set (qc_Endpoints query_tbtc)"
  shows "endpoint_builds env (processApiKeys g static_file) processed query ep"
  using assms(2) unfolding query_tbtc_def
  by (auto intro!: rpc_builds build_url_Inr [OF _ build_url_pro [OF assms(1)]]
      build_url_Inr [OF _ trans [OF build_url_key [OF no_key_in_coinmarketcap] static_urls(4)]]
      build_url_Inr [OF _ static_urls(5)] simp: static_templates static_known static_keys)

lemma combined_rpc_reader_builds:
  assumes "map_of (cfg_Endpoints cfg) t = Some template" and "source_params env ep n = Inr ps"
    and "strings_ReplaceAll (replace_params (et_URLTemplate template) ps) ''{api_key}'' (et_ApiKey template) \<noteq> []"
  shows "\<exists>r. combined_rpc_reader env cfg query ep n t = Inr (Inr r)"
  using assms by (simp add: combined_rpc_reader_def rpc_NewReader_def Let_def)

lemma sfrxusd_urls:
  "strings_ReplaceAll (replace_params (et_URLTemplate template_coingecko) [(''coin_id'', ''frax'')]) ''{api_key}''
     (et_ApiKey template_coingecko) = ''https://api.coingecko.com/api/v3/simple/price?ids=frax&vs_currencies=usd''"
  "strings_ReplaceAll (replace_params (et_URLTemplate template_curve) [(''contract_address'', ''0x853d955aCEf822Db058eb8505911ED77F175b99e'')])
     ''{api_key}'' (et_ApiKey template_curve) = ''https://prices.curve.finance/v1/usd_price/ethereum/0x853d955aCEf822Db058eb8505911ED77F175b99e''"
  "strings_ReplaceAll (replace_params (et_URLTemplate template_coinpaprika) [(''coin_id'', ''frax-frax'')]) ''{api_key}''
     (et_ApiKey template_coinpaprika) = ''https://api.coinpaprika.com/v1/tickers/frax-frax?quotes=USD''"
  by code_simp+

definition endpoint_sfrxusd :: EndpointConfig where
  "endpoint_sfrxusd = qc_Endpoints query_sfrxusd ! 0"

lemma sfrxusd_params:
  "source_params env endpoint_sfrxusd ''coingecko'' = Inr [(''coin_id'', ''frax'')]"
  "source_params env endpoint_sfrxusd ''curve'' = Inr [(''contract_address'', ''0x853d955aCEf822Db058eb8505911ED77F175b99e'')]"
  "source_params env endpoint_sfrxusd ''coinpaprika'' = Inr [(''coin_id'', ''frax-frax'')]"
  by (simp_all add: endpoint_sfrxusd_def query_sfrxusd_def source_params_def sprint_any_def)

lemma sfrxusd_sources:
  "ep_CombinedSources endpoint_sfrxusd = [(''ethereum'', ''contract:ethereum''), (''coingecko'', ''rpc:coingecko''),
     (''curve'', ''rpc:curve''), (''coinpaprika'', ''rpc:coinpaprika'')]"
  "ep_Handler endpoint_sfrxusd = ''sfrxusd_price''" "ep_EndpointType endpoint_sfrxusd = ''combined''"
  "qc_Endpoints query_sfrxusd = [endpoint_sfrxusd]"
  by (simp_all add: endpoint_sfrxusd_def query_sfrxusd_def)

lemma sfrxusd_builds:
  assumes "map_of processed ''ethereum'' = Some urls" and "u \<in> set urls" and "be_dial env u"
  shows "endpoint_builds env (processApiKeys g static_file) processed query endpoint_sfrxusd"
proof -
  let ?cfg = "processApiKeys g static_file"
  obtain r where r: "new_contract_reader env processed query ''ethereum'' = Inr r" using contract_reader_builds [OF assms] by blast
  obtain c1 c2 c3 where "combined_rpc_reader env ?cfg query endpoint_sfrxusd ''coingecko'' ''coingecko'' = Inr (Inr c1)"
    "combined_rpc_reader env ?cfg query endpoint_sfrxusd ''curve'' ''curve'' = Inr (Inr c2)"
    "combined_rpc_reader env ?cfg query endpoint_sfrxusd ''coinpaprika'' ''coinpaprika'' = Inr (Inr c3)"
    using combined_rpc_reader_builds [OF _ sfrxusd_params(1), of ?cfg "''coingecko''" template_coingecko]
      combined_rpc_reader_builds [OF _ sfrxusd_params(2), of ?cfg "''curve''" template_curve]
      combined_rpc_reader_builds [OF _ sfrxusd_params(3), of ?cfg "''coinpaprika''" template_coinpaprika]
    by (simp add: static_templates static_known static_keys sfrxusd_urls) blast
  then show ?thesis
    by (simp add: endpoint_builds_def build_combined_def sfrxusd_sources strings_CutPrefix_def r)
qed

lemma contract_builds:
  assumes "map_of processed (ep_Chain ep) = Some urls" and "u \<in> set urls" and "be_dial env u"
    and "ep_EndpointType ep = ''contract''" and "ep_Handler ep \<noteq> []" and "ep_Chain ep \<noteq> []"
  shows "endpoint_builds env cfg processed query ep"
  using contract_reader_builds [OF assms(1-3), of query] assms(4-6) by (auto simp: endpoint_builds_def build_contract_def)

text \<open>
  The static queries are built whatever the environment says, if some node of Ethereum can be dialled and the API key has
  no brace in it. Each of them gets as many sources as it has endpoints, which is at least the number of responses it asks
  for, and the handlers it names exist.
\<close>

definition handlers_known :: "QueryConfig \<Rightarrow> bool" where
  "handlers_known query \<longleftrightarrow> (\<forall>ep \<in> set (qc_Endpoints query).
     if ep_EndpointType ep = ''combined'' then combined_GetHandler (ep_Handler ep) \<noteq> None
     else if ep_EndpointType ep = ''contract'' then map_of contract_HandlerRegistry (ep_Handler ep) \<noteq> None
     else ep_Handler ep = [] \<or> map_of rpc_HandlerRegistry (ep_Handler ep) \<noteq> None)"

lemmas static_query_defs = query_sdai_def query_susde_def query_tbtc_def query_reth_def query_wsteth_def query_sfrxusd_def

lemma handlers_there:
  "map_of contract_HandlerRegistry ''susdeusd_handler'' \<noteq> None" "map_of contract_HandlerRegistry ''reth_handler'' \<noteq> None"
  "map_of contract_HandlerRegistry ''wsteth_handler'' \<noteq> None" "combined_GetHandler ''sfrxusd_price'' \<noteq> None"
  by (simp_all add: contract_HandlerRegistry_def combined_GetHandler_def combined_HandlerRegistry_def)

lemma static_handlers_known:
  assumes "query \<in> set (map snd StaticQueriesConfig)"
  shows "handlers_known query"
proof -
  have "handlers_known query_sdai" by (simp add: handlers_known_def query_sdai_def zero_endpoint_def)
  moreover have "handlers_known query_tbtc" by (simp add: handlers_known_def query_tbtc_def zero_endpoint_def)
  moreover have "handlers_known query_sfrxusd"
    by (simp add: handlers_known_def sfrxusd_sources handlers_there del: not_None_eq)
  moreover have "handlers_known query_susde" "handlers_known query_reth" "handlers_known query_wsteth"
    by (simp_all add: handlers_known_def query_susde_def query_reth_def query_wsteth_def handlers_there del: not_None_eq)
  ultimately show ?thesis using assms by (auto simp: StaticQueriesConfig_def)
qed

lemma static_responses: "query \<in> set (map snd StaticQueriesConfig) \<Longrightarrow> qc_MinResponses query \<le> int (length (qc_Endpoints query))"
  by (auto simp: StaticQueriesConfig_def static_query_defs)

lemma static_ids: "distinct (map (qc_ID \<circ> snd) StaticQueriesConfig)"
  by code_simp


text \<open>In an environment where no variable is set, with every node there.\<close>

definition empty_env :: build_env where
  "empty_env = \<lparr>be_dial = (\<lambda>u. True), be_getenv = (\<lambda>v. []), be_sprint = (\<lambda>v. [])\<rparr>"

lemma empty_env_urls:
  "map_of (processRPCEndpoints (be_getenv empty_env) StaticRPCEndpointTemplateConfig) ''ethereum'' =
     Some [''https://mainnet.infura.io/v3/'', ''https://eth-mainnet.alchemyapi.io/v2/'', ''https://rpc.ankr.com/eth'']"
  by code_simp


theorem unset_variable_not_skipped_witness:
  "expand_urls (\<lambda>v. []) [''https://mainnet.infura.io/v3/${INFURA_API_KEY}''] = [''https://mainnet.infura.io/v3/'']"
proof -
  have "os_Expand (\<lambda>v. []) ''https://mainnet.infura.io/v3/${INFURA_API_KEY}'' = ''https://mainnet.infura.io/v3/''" by code_simp
  moreover have "\<not> strings_Contains ''https://mainnet.infura.io/v3/'' '',''" by code_simp
  ultimately show ?thesis
    by (subst unset_variable_not_skipped) (simp_all add: Let_def)
qed

theorem endpoint_timeout_ignored_witness:
  "BuildQueryEndpoints empty_env (Inr (retime (\<lambda>n. 30000) static_file)) = BuildQueryEndpoints empty_env (Inr static_file)"
proof (rule endpoint_timeout_ignored)
  show "gomap_ok (cfg_Defaults static_file)" by (simp add: static_file_def)
  show "\<forall>query \<in> set (map snd (cfg_Queries static_file)).
      settings_ok query \<and> queryTypeOf query \<in> {QueryTypeSpotPrice, QueryTypeBridgeDeposit}"
    by (auto simp: static_file_def StaticQueriesConfig_def static_query_defs zero_query_def settings_ok_def queryTypeOf_def)
qed

end
