(* ===== verification/QueryToml.thy ===== *)
theory QueryToml
  imports StaticQueries
begin

text \<open>
  The configuration file of the custom queries (\<open>custom_query/default_custom_query_config.go\<close>): the template that prints
  it, and the merge of the static entries into an existing file, which is parsed, completed, printed again and replaced.
  The parser of TOML is a parameter. The template walks over a map in the order of its keys; the helpers that print
  parameters take the order of the map.
\<close>

section \<open>Text\<close>

fun strings_Join :: "string \<Rightarrow> string list \<Rightarrow> string" where
  "strings_Join sep [] = []"
| "strings_Join sep [s] = s"
| "strings_Join sep (s # t # ts) = s @ sep @ strings_Join sep (t # ts)"

definition toml_quoted :: "string \<Rightarrow> string" where
  "toml_quoted s = dq @ s @ dq"

definition tab :: string where "tab = [CHR 0x09]"
definition quotes3 :: string where "quotes3 = replicate 3 (CHR 0x27)"

definition key_value :: "string \<Rightarrow> string \<Rightarrow> string" where
  "key_value k v = k @ '' = '' @ toml_quoted v"

definition formatParams :: "(string, string) gomap \<Rightarrow> string" where
  "formatParams params = strings_Join '', '' (map (\<lambda>(k, v). key_value k v) params)"

definition formatCombinedSources :: "(string, string) gomap \<Rightarrow> string" where
  "formatCombinedSources sources = strings_Join '', '' (map (\<lambda>(k, v). key_value k v) sources)"

definition formatMapStringString :: "build_env \<Rightarrow> any \<Rightarrow> string" where
  "formatMapStringString env m =
     (case m of AnyMap v \<Rightarrow> strings_Join '', '' (map (\<lambda>(k, val). key_value k (sprint_any env val)) v) | _ \<Rightarrow> [])"

definition tomlValue :: "build_env \<Rightarrow> any \<Rightarrow> string" where
  "tomlValue env v =
     (case v of
        AnyString val \<Rightarrow> toml_quoted val
      | AnyBool val \<Rightarrow> if val then ''true'' else ''false''
      | AnyInt val \<Rightarrow> sprint_int val
      | AnyInt64 val \<Rightarrow> sprint_int val
      | AnyFloat64 val \<Rightarrow> sprintf_percent_f val
      | _ \<Rightarrow> toml_quoted (sprint_any env v))"

section \<open>The template\<close>

text \<open>The entries of a map in the order in which the template walks over it.\<close>

definition by_key :: "(string, 'a) gomap \<Rightarrow> (string \<times> 'a) list" where
  "by_key m = map (\<lambda>k. (k, the (map_of m k))) (sort (map fst m))"

definition text_line :: "string \<Rightarrow> string \<Rightarrow> string" where
  "text_line indent s = newline @ indent @ s"

definition unless_empty :: "'a list \<Rightarrow> string \<Rightarrow> string" where
  "unless_empty xs s = (if xs = [] then [] else s)"

definition string_list :: "string list \<Rightarrow> string" where
  "string_list xs = ''['' @ strings_Join '', '' (map toml_quoted xs) @ '']''"

definition spaces :: "nat \<Rightarrow> string" where "spaces n = replicate n (CHR '' '')"

definition default_section :: "string \<Rightarrow> TimeoutDefaults \<Rightarrow> string" where
  "default_section queryType d =
     newline @ ''[defaults.'' @ queryType @ '']'' @
     text_line [] (''fetch_timeout_ms = '' @ sprint_int (td_FetchTimeoutMs d)) @
     text_line [] (''per_source_timeout_ms = '' @ sprint_int (td_PerSourceTimeoutMs d)) @
     text_line [] (''max_source_retries = '' @ sprint_int (td_MaxSourceRetries d)) @
     text_line [] (''post_fetch_reserve_ms = '' @ sprint_int (td_PostFetchReserveMs d)) @
     text_line [] (''aggregation_buffer_ms = '' @ sprint_int (td_AggregationBufferMs d)) @ newline"

text \<open>The start of the template is constant.\<close>

definition template_start :: string where
  "template_start =
     ''# This is a TOML config file.'' @ newline @ default_section QueryTypeSpotPrice spot_price_defaults @
     default_section QueryTypeBridgeDeposit bridge_deposit_defaults @ text_line [] ''[endpoints]''"

definition endpoint_text :: "string \<times> EndpointTemplate \<Rightarrow> string" where
  "endpoint_text ke =
     (let (key, endpoint) = ke; l = text_line (spaces 4) in
      l (''[endpoints.'' @ key @ '']'') @
      l (''url_template = '' @ toml_quoted (et_URLTemplate endpoint)) @
      l (''method = '' @ toml_quoted (et_Method endpoint)) @
      l (''timeout = '' @ sprint_int (et_Timeout endpoint)) @
      l (''max_data_age_seconds = '' @ sprint_int (et_MaxDataAgeSecs endpoint)) @
      unless_empty (et_Query endpoint) (l (''query = '' @ quotes3 @ et_Query endpoint @ quotes3)) @
      unless_empty (et_ApiKey endpoint) (l (''api_key = '' @ toml_quoted (et_ApiKey endpoint))) @
      unless_empty (et_Headers endpoint) (l (''headers = { '' @ formatParams (et_Headers endpoint) @ '' }'')))"

definition rpc_endpoint_text :: "string \<times> RPCEndpointTemplate \<Rightarrow> string" where
  "rpc_endpoint_text ke =
     (let (key, rpcEndpoint) = ke; l = text_line (spaces 4) in
      l (''[rpc_endpoints.'' @ key @ '']'') @ l (''urls = '' @ string_list (re_URLs rpcEndpoint)))"

text \<open>A response path that is no list stops the template.\<close>

definition path_text :: "build_env \<Rightarrow> any \<Rightarrow> string option" where
  "path_text env v =
     (case v of
        AnyStrings xs \<Rightarrow> Some (string_list xs)
      | AnySlice xs \<Rightarrow> Some (string_list (map (sprint_any env) xs))
      | AnyMap m \<Rightarrow> Some (string_list (map (sprint_any env \<circ> snd) (by_key m)))
      | _ \<Rightarrow> None)"

definition has_suffix :: "string \<Rightarrow> string \<Rightarrow> bool" where
  "has_suffix s t \<longleftrightarrow> strings_HasPrefix (rev s) (rev t)"

definition config_text :: "build_env \<Rightarrow> string \<times> any \<Rightarrow> string option" where
  "config_text env kv =
     (let (k, v) = kv; l = text_line (tab @ tab @ spaces 4) in
      if has_suffix k ''_response_path'' then map_option (\<lambda>s. l (k @ '' = '' @ s)) (path_text env v)
      else if has_suffix k ''_params'' then Some (l (k @ '' = { '' @ formatMapStringString env v @ '' }''))
      else Some (l (k @ '' = '' @ tomlValue env v)))"

fun opt_concat :: "string option list \<Rightarrow> string option" where
  "opt_concat [] = Some []"
| "opt_concat (None # xs) = None"
| "opt_concat (Some s # xs) = map_option (\<lambda>r. s @ r) (opt_concat xs)"

definition query_endpoint_text :: "build_env \<Rightarrow> string \<Rightarrow> EndpointConfig \<Rightarrow> string option" where
  "query_endpoint_text env key ep =
     (let l = text_line (spaces 8); t = text_line (tab @ tab) in
      opt_concat
        [Some (l (''[[queries.'' @ key @ ''.endpoints]]'') @
           l (''endpoint_type = '' @ toml_quoted (ep_EndpointType ep)) @
           l (''response_path = '' @ string_list (ep_ResponsePath ep)) @
           l (''params = { '' @ formatParams (ep_Params ep) @ '' }'') @
           unless_empty (ep_MarketId ep) (l (''market_id = '' @ toml_quoted (ep_MarketId ep))) @
           unless_empty (ep_Handler ep) (l (''handler = '' @ toml_quoted (ep_Handler ep))) @
           unless_empty (ep_Chain ep) (t (''chain = '' @ toml_quoted (ep_Chain ep))) @
           (if ep_Invert ep then t ''invert = true'' else []) @
           (if ep_UsdViaID ep \<noteq> 0 then t (''usd_via_id = '' @ sprint_int (uint (ep_UsdViaID ep))) else []) @
           (if ep_MaxDataAgeSecs ep \<noteq> 0 then t (''max_data_age_seconds = '' @ sprint_int (ep_MaxDataAgeSecs ep)) else []) @
           unless_empty (ep_CombinedSources ep)
             (t (''combined_sources = { '' @ formatCombinedSources (ep_CombinedSources ep) @ '' }''))),
         if ep_CombinedConfig ep = [] then Some []
         else opt_concat (Some (t (''[queries.'' @ key @ ''.endpoints.combined_config]'')) #
                map (config_text env) (by_key (ep_CombinedConfig ep)))])"

definition query_text :: "build_env \<Rightarrow> string \<times> QueryConfig \<Rightarrow> string option" where
  "query_text env kq =
     (let (key, query) = kq; l = text_line (spaces 4) in
      case GenerateFeedComment query of
        Inl p \<Rightarrow> None
      | Inr comment \<Rightarrow>
          opt_concat (Some (l (''# '' @ comment) @ l (''[queries.'' @ key @ '']'') @
              l (''id = '' @ toml_quoted (qc_ID query)) @
              l (''aggregation_method = '' @ toml_quoted (qc_AggregationMethod query)) @
              text_line tab (''max_spread_percent = '' @ tomlValue env (AnyFloat64 (qc_MaxSpreadPercent query))) @
              l (''min_responses = '' @ sprint_int (qc_MinResponses query)) @
              l (''response_type = '' @ toml_quoted (qc_ResponseType query))) #
            map (query_endpoint_text env key) (qc_Endpoints query)))"

record combined_config =
  cc_Endpoints :: "(string, EndpointTemplate) gomap"
  cc_RPCEndpoints :: "(string, RPCEndpointTemplate) gomap"
  cc_Queries :: "(string, QueryConfig) gomap"

definition execute_template :: "build_env \<Rightarrow> combined_config \<Rightarrow> string option" where
  "execute_template env combined =
     opt_concat
       (Some (template_start @ concat (map endpoint_text (by_key (cc_Endpoints combined))) @
          text_line [] ''[rpc_endpoints]'' @ concat (map rpc_endpoint_text (by_key (cc_RPCEndpoints combined))) @
          newline @ text_line [] ''[queries]'') #
        map (query_text env) (by_key (cc_Queries combined)) @ [Some newline])"

section \<open>Generating and merging\<close>

definition GenerateDefaultConfigTomlString :: "build_env \<Rightarrow> string option" where
  "GenerateDefaultConfigTomlString env =
     execute_template env \<lparr>cc_Endpoints = StaticEndpointTemplateConfig, cc_RPCEndpoints = StaticRPCEndpointTemplateConfig,
       cc_Queries = StaticQueriesConfig\<rparr>"

text \<open>The entries of the file, then those of the static table whose key is not there.\<close>

definition merge_missing :: "(string, 'a) gomap \<Rightarrow> (string, 'a) gomap \<Rightarrow> (string, 'a) gomap" where
  "merge_missing existing defaults = existing @ filter (\<lambda>kd. map_of existing (fst kd) = None) defaults"

definition merged_config :: "query_file \<Rightarrow> combined_config" where
  "merged_config existingConfig =
     \<lparr>cc_Endpoints = merge_missing (cfg_Endpoints existingConfig) StaticEndpointTemplateConfig,
      cc_RPCEndpoints = merge_missing (cfg_RPCEndpoints existingConfig) StaticRPCEndpointTemplateConfig,
      cc_Queries = merge_missing (cfg_Queries existingConfig) StaticQueriesConfig\<rparr>"

datatype merge_error = MParse string | MTemplate | MValidation string

text \<open>The file after the merge; after an error it is what it was. \<open>parse\<close> is the parser of TOML.\<close>

definition MergeCustomQueryConfig :: "build_env \<Rightarrow> (string \<Rightarrow> string + query_file) \<Rightarrow> string \<Rightarrow> merge_error option \<times> string" where
  "MergeCustomQueryConfig env parse file =
     (case parse file of
        Inl e \<Rightarrow> (Some (MParse e), file)
      | Inr existingConfig \<Rightarrow>
          (case execute_template env (merged_config existingConfig) of
             None \<Rightarrow> (Some MTemplate, file)
           | Some mergedToml \<Rightarrow>
               (case parse mergedToml of
                  Inl e \<Rightarrow> (Some (MValidation e), file)
                | Inr testConfig \<Rightarrow> (None, mergedToml))))"

text \<open>What the program finds on disk, and leaves there; an error panics.\<close>

definition WriteDefaultConfigToml ::
    "build_env \<Rightarrow> (string \<Rightarrow> string + query_file) \<Rightarrow> string option \<Rightarrow> merge_error + string" where
  "WriteDefaultConfigToml env parse disk =
     (case disk of
        None \<Rightarrow> (case GenerateDefaultConfigTomlString env of None \<Rightarrow> Inl MTemplate | Some s \<Rightarrow> Inr s)
      | Some file \<Rightarrow>
          (case MergeCustomQueryConfig env parse file of
             (Some e, file') \<Rightarrow> Inl e | (None, file') \<Rightarrow> Inr file'))"

section \<open>What the merge keeps and what it forgets\<close>

lemma map_of_merge_missing:
  "map_of (merge_missing existing defaults) k = (case map_of existing k of Some v \<Rightarrow> Some v | None \<Rightarrow> map_of defaults k)"
proof -
  have *: "map_of existing k = None \<Longrightarrow> map_of (filter (\<lambda>kd. map_of existing (fst kd) = None) ds) k = map_of ds k" for ds
    by (induction ds) auto
  show ?thesis by (cases "map_of existing k") (simp_all add: merge_missing_def map_add_def *)
qed

text \<open>The settings of a query that the template does not print.\<close>

definition forget_timeouts :: "QueryConfig \<Rightarrow> QueryConfig" where
  "forget_timeouts query = query\<lparr>qc_QueryType := [], qc_FetchTimeoutMs := 0, qc_PerSourceTimeoutMs := 0,
     qc_MaxSourceRetries := 0, qc_PostFetchReserveMs := 0, qc_AggregationBufferMs := 0\<rparr>"

definition forget_file :: "query_file \<Rightarrow> query_file" where
  "forget_file cfg =
     cfg\<lparr>cfg_Queries := map (\<lambda>(k, q). (k, forget_timeouts q)) (cfg_Queries cfg), cfg_Defaults := []\<rparr>"

lemma forget_fields [simp]:
  "qc_ID (forget_timeouts q) = qc_ID q" "qc_AggregationMethod (forget_timeouts q) = qc_AggregationMethod q"
  "qc_MaxSpreadPercent (forget_timeouts q) = qc_MaxSpreadPercent q" "qc_MinResponses (forget_timeouts q) = qc_MinResponses q"
  "qc_ResponseType (forget_timeouts q) = qc_ResponseType q" "qc_Endpoints (forget_timeouts q) = qc_Endpoints q"
  by (simp_all add: forget_timeouts_def)

lemma forget_comment [simp]: "GenerateFeedComment (forget_timeouts q) = GenerateFeedComment q"
  unfolding GenerateFeedComment_def ClassifyQueryFeed_def inferTargetAsset_def fundamentalFeedComment_def forget_fields ..

lemma forget_query_text: "query_text env (k, forget_timeouts q) = query_text env (k, q)"
  unfolding query_text_def Let_def prod.case forget_fields forget_comment ..

lemma by_key_map: "by_key (map (\<lambda>(k, v). (k, f v)) m) = map (\<lambda>(k, v). (k, f v)) (by_key m)"
proof -
  have keys: "map fst (map (\<lambda>(k, v). (k, f v)) m) = map fst m" by (simp add: comp_def case_prod_beta)
  have "map_of (map (\<lambda>(k, v). (k, f v)) m) k = map_option f (map_of m k)" for k by (induction m) auto
  then have "the (map_of (map (\<lambda>(k, v). (k, f v)) m) k) = f (the (map_of m k))" if "k \<in> set (map fst m)" for k
    using that by (cases "map_of m k") (auto simp: map_of_eq_None_iff)
  then show ?thesis unfolding by_key_def keys by simp
qed

lemma merge_missing_map:
  "merge_missing (map (\<lambda>(k, v). (k, f v)) existing) (map (\<lambda>(k, v). (k, f v)) defaults) =
     map (\<lambda>(k, v). (k, f v)) (merge_missing existing defaults)"
proof -
  have "map_of (map (\<lambda>(k, v). (k, f v)) existing) k = map_option f (map_of existing k)" for k by (induction existing) auto
  then show ?thesis by (simp add: merge_missing_def filter_map comp_def case_prod_beta)
qed

lemma static_forgotten: "map (\<lambda>(k, q). (k, forget_timeouts q)) StaticQueriesConfig = StaticQueriesConfig"
  by (simp add: StaticQueriesConfig_def static_query_defs forget_timeouts_def zero_query_def)

lemma execute_template_forgets: "execute_template env (merged_config (forget_file cfg)) = execute_template env (merged_config cfg)"
proof -
  have "cc_Queries (merged_config (forget_file cfg)) = map (\<lambda>(k, q). (k, forget_timeouts q)) (cc_Queries (merged_config cfg))"
    using merge_missing_map [of forget_timeouts "cfg_Queries cfg" StaticQueriesConfig] static_forgotten
    by (simp add: merged_config_def forget_file_def)
  moreover have "query_text env \<circ> (\<lambda>(k, q). (k, forget_timeouts q)) = query_text env"
    by (simp add: fun_eq_iff forget_query_text)
  moreover have "cc_Endpoints (merged_config (forget_file cfg)) = cc_Endpoints (merged_config cfg)"
      "cc_RPCEndpoints (merged_config (forget_file cfg)) = cc_RPCEndpoints (merged_config cfg)"
    by (simp_all add: merged_config_def forget_file_def)
  ultimately show ?thesis unfolding execute_template_def by (simp add: by_key_map)
qed

text \<open>
  C40: two files that differ only in their sections of defaults and in the types and timeouts of their queries are merged into
  the same file: these settings do not survive the start of the program, which merges before it reads the queries.
\<close>

theorem merge_forgets_timeouts:
  assumes "parse file = Inr cfg" and "parse file' = Inr cfg'" and "forget_file cfg = forget_file cfg'"
    and "WriteDefaultConfigToml env parse (Some file) = Inr merged"
  shows "WriteDefaultConfigToml env parse (Some file') = Inr merged"
proof -
  have "execute_template env (merged_config cfg) = execute_template env (merged_config cfg')"
    using execute_template_forgets [of env cfg] execute_template_forgets [of env cfg'] assms(3) by simp
  then show ?thesis
    using assms by (auto simp: WriteDefaultConfigToml_def MergeCustomQueryConfig_def split: option.splits sum.splits prod.splits)
qed

text \<open>Whether the response paths of the configuration of every endpoint are lists, so that the template prints them.\<close>

definition paths_ok :: "EndpointConfig \<Rightarrow> bool" where
  "paths_ok ep \<longleftrightarrow>
     list_all (\<lambda>(k, v). has_suffix k ''_response_path'' \<longrightarrow>
                 (case v of AnyStrings xs \<Rightarrow> True | AnySlice xs \<Rightarrow> True | AnyMap m \<Rightarrow> True | _ \<Rightarrow> False)) (ep_CombinedConfig ep)"

definition printable :: "(string, QueryConfig) gomap \<Rightarrow> bool" where
  "printable queries \<longleftrightarrow> list_all (\<lambda>(key, q). list_all paths_ok (qc_Endpoints q)) queries"

lemma opt_concat_None: "opt_concat xs = None \<longleftrightarrow> None \<in> set xs"
  by (induction xs rule: opt_concat.induct) auto

lemma set_by_key: "set (by_key m) \<subseteq> set m"
proof -
  have "(k, the (map_of m k)) \<in> set m" if "k \<in> set (map fst m)" for k
    using that map_of_SomeD [of m k] by (cases "map_of m k") (auto simp: map_of_eq_None_iff)
  then show ?thesis by (auto simp: by_key_def)
qed

lemma printable_endpoint:
  assumes "paths_ok ep"
  shows "\<exists>s. query_endpoint_text env key ep = Some s"
proof -
  have "\<exists>s. config_text env kv = Some s" if "kv \<in> set (ep_CombinedConfig ep)" for kv
    using bspec [OF assms [unfolded paths_ok_def list_all_iff] that]
    by (cases kv) (auto simp: config_text_def Let_def path_text_def split: any.splits)
  then have "None \<notin> config_text env ` set (by_key (ep_CombinedConfig ep))"
    using set_by_key [of "ep_CombinedConfig ep"] by fastforce
  then have "opt_concat (map (config_text env) (by_key (ep_CombinedConfig ep))) \<noteq> None" by (simp add: opt_concat_None)
  then show ?thesis by (auto simp: query_endpoint_text_def Let_def)
qed

lemma printable_query:
  assumes "printable (cc_Queries combined)" and "(key, q) \<in> set (cc_Queries combined)"
  shows "\<exists>s. query_text env (key, q) = Some s"
proof -
  have "\<exists>s. query_endpoint_text env key ep = Some s" if "ep \<in> set (qc_Endpoints q)" for ep
    using assms that by (intro printable_endpoint) (auto simp: printable_def list_all_iff)
  then have "None \<notin> query_endpoint_text env key ` set (qc_Endpoints q)" by fastforce
  then have "opt_concat (map (query_endpoint_text env key) (qc_Endpoints q)) \<noteq> None" by (simp add: opt_concat_None)
  moreover obtain comment where "GenerateFeedComment q = Inr comment" using GenerateFeedComment_total by blast
  ultimately show ?thesis by (auto simp: query_text_def Let_def)
qed

lemma printable_prints:
  assumes "printable (cc_Queries combined)"
  shows "\<exists>s. execute_template env combined = Some s"
proof -
  have "\<exists>s. query_text env kq = Some s" if "kq \<in> set (by_key (cc_Queries combined))" for kq
    using printable_query [OF assms] set_by_key that by (cases kq) blast
  then have "None \<notin> query_text env ` set (by_key (cc_Queries combined))" by fastforce
  then have "opt_concat (map (query_text env) (by_key (cc_Queries combined)) @ [Some newline]) \<noteq> None"
    by (simp add: opt_concat_None)
  then show ?thesis by (auto simp: execute_template_def)
qed

lemma static_printable: "printable StaticQueriesConfig"
  by (simp add: printable_def paths_ok_def StaticQueriesConfig_def static_query_defs zero_endpoint_def has_suffix_def)

text \<open>Without a file the program starts: the static entries can always be printed.\<close>

lemma first_start_writes: "\<exists>s. WriteDefaultConfigToml env parse None = Inr s"
proof -
  obtain s where "GenerateDefaultConfigTomlString env = Some s"
    using printable_prints static_printable unfolding GenerateDefaultConfigTomlString_def by fastforce
  then show ?thesis by (simp add: WriteDefaultConfigToml_def)
qed


text \<open>A file with one query of its own, and the same file with the timeouts of that query and of its type set.\<close>

definition demo_file :: query_file where
  "demo_file = \<lparr>cfg_Endpoints = [], cfg_RPCEndpoints = [], cfg_Queries = [(''mine'', zero_query)], cfg_Defaults = []\<rparr>"

definition demo_timed :: query_file where
  "demo_timed = demo_file\<lparr>cfg_Queries := [(''mine'', zero_query\<lparr>qc_QueryType := ''bridge_deposit'', qc_FetchTimeoutMs := 30000\<rparr>)],
     cfg_Defaults := [(''bridge_deposit'', bridge_deposit_defaults\<lparr>td_MaxSourceRetries := 9\<rparr>)]\<rparr>"

definition demo_parse :: "string \<Rightarrow> string + query_file" where
  "demo_parse s = Inr (if s = ''timed'' then demo_timed else demo_file)"

lemma demo_printable: "printable (cfg_Queries demo_file)" "printable (cfg_Queries demo_timed)"
  by (simp_all add: demo_file_def demo_timed_def printable_def zero_query_def)


theorem merge_forgets_timeouts_witness:
  "WriteDefaultConfigToml empty_env demo_parse (Some ''timed'') = WriteDefaultConfigToml empty_env demo_parse (Some ''plain'') \<and>
   cfg_Queries demo_timed \<noteq> cfg_Queries demo_file"
proof -
  have p: "demo_parse ''timed'' = Inr demo_timed" "demo_parse ''plain'' = Inr demo_file" by (simp_all add: demo_parse_def)
  have f: "forget_file demo_timed = forget_file demo_file"
    by (simp add: forget_file_def demo_timed_def demo_file_def forget_timeouts_def)
  have "printable (cc_Queries (merged_config demo_timed))"
    using demo_printable(2) static_printable by (auto simp: printable_def merged_config_def merge_missing_def list_all_iff)
  then obtain s where "execute_template empty_env (merged_config demo_timed) = Some s" using printable_prints by blast
  then have w: "WriteDefaultConfigToml empty_env demo_parse (Some ''timed'') = Inr s"
    by (simp add: WriteDefaultConfigToml_def MergeCustomQueryConfig_def p demo_parse_def)
  show ?thesis using w merge_forgets_timeouts [of demo_parse "''timed''" _ "''plain''", OF p f w] by (simp add: demo_timed_def demo_file_def zero_query_def)
qed

end
