(* ===== verification/TokenBridge.thy ===== *)
theory TokenBridge
  imports BridgeCaches GoStrings
begin

text \<open>
  The token bridge client, \<open>token_bridge_feed/client/client.go\<close>: it follows the deposits of the
  bridge contract on Ethereum and turns those that are final into reports for the reporter.

  What the Ethereum nodes and the contract answer, the environment and the ABI codec of go-ethereum
  are parameters: an \<open>eth_world\<close> gives the answers of every endpoint at one moment, and an operation
  that talks to the nodes several times takes one world per moment. A nil \<open>big.Int\<close> is \<open>None\<close>.
\<close>

section \<open>Parameters\<close>

datatype abi_type = TyString | TyBytes | TyBool | TyUint256 | TyAddress
datatype abi_value = VString string | VBytes bytes | VBool bool | VUint256 int | VAddress nat

fun has_abi_type :: "abi_value \<Rightarrow> abi_type \<Rightarrow> bool" where
  "has_abi_type (VString s) TyString = True"
| "has_abi_type (VBytes b) TyBytes = list_all (\<lambda>x. x < 256) b"
| "has_abi_type (VBool b) TyBool = True"
| "has_abi_type (VUint256 n) TyUint256 = (0 \<le> n \<and> n < 2 ^ 256)"
| "has_abi_type (VAddress a) TyAddress = (a < 2 ^ 160)"
| "has_abi_type _ _ = False"

record abi_ops =
  abi_Pack :: "abi_type list \<Rightarrow> abi_value list \<Rightarrow> string + bytes"
  abi_Unpack :: "abi_type list \<Rightarrow> bytes \<Rightarrow> string + abi_value list"

text \<open>
  What the documentation of the codec promises: packing values of the given types yields bytes that
  unpack to the same values, and unpacking yields values of the given types.
\<close>

definition abi_laws :: "'x abi_ops_scheme \<Rightarrow> bool" where
  "abi_laws A \<longleftrightarrow>
     (\<forall>ts vs. list_all2 has_abi_type vs ts \<longrightarrow>
        (\<exists>b. abi_Pack A ts vs = Inr b \<and> list_all (\<lambda>x. x < 256) b \<and> abi_Unpack A ts b = Inr vs)) \<and>
     (\<forall>ts b vs. abi_Unpack A ts b = Inr vs \<longrightarrow> list_all2 has_abi_type vs ts)"

record eth_deposit =
  ed_Sender :: nat
  ed_Recipient :: string
  ed_Amount :: int
  ed_Tip :: int
  ed_BlockHeight :: int

record eth_world =
  ew_getenv :: "string \<Rightarrow> string"
  ew_dial :: "string \<Rightarrow> string option"
  ew_DepositId :: "string \<Rightarrow> string + int"
  ew_Initialized :: "string \<Rightarrow> string + bool"
  ew_Deposits :: "string \<Rightarrow> int \<Rightarrow> string + eth_deposit"
  ew_BlockNumber :: "string \<Rightarrow> string + uint64"

section \<open>State\<close>

record BridgeClient =
  bc_lastReportedDepositId :: "int option"
  bc_tokenDepositsCache :: DepositReports
  bc_tokenBridgeTipsCache :: DepositTips
  bc_chainID :: string
  bc_ethRPCConnections :: "string list"

record DepositReceipt =
  rc_DepositId :: int
  rc_Sender :: nat
  rc_Recipient :: string
  rc_Amount :: int
  rc_Tip :: int
  rc_BlockHeight :: int

datatype bridge_error =
    ErrEndpoints endpoints_error
  | ErrUnsupportedChain string
  | ErrInvalidContractAddress
  | ErrNoEthEndpoints
  | ErrEthEndpointsFailed "(string \<times> string) list"
  | ErrAllEthEndpoints "string option"
  | ErrDepositNotAvailable
  | ErrDepositIdQuery
  | ErrNotDeposit
  | ErrAbi string

definition tokenBridgeContractByChainID :: "(string, string) gomap" where
  "tokenBridgeContractByChainID =
     [(''tellor-1'', ''0x6ec401744008f4B018Ed9A36f76e6629799Ee50E''),
      (''layertest-5'', ''0x55355157703A44f7516FBB831333317E98944e32'')]"

definition newClient :: "DepositReports \<Rightarrow> DepositTips \<Rightarrow> string \<Rightarrow> BridgeClient" where
  "newClient tokenDepositsCache tokenBridgeTipsCache chainID =
     \<lparr>bc_lastReportedDepositId = None, bc_tokenDepositsCache = tokenDepositsCache,
      bc_tokenBridgeTipsCache = tokenBridgeTipsCache, bc_chainID = strings_TrimSpace chainID,
      bc_ethRPCConnections = []\<rparr>"

section \<open>Connections\<close>

definition getTokenBridgeContractAddress ::
    "(string \<Rightarrow> bool) \<Rightarrow> eth_world \<Rightarrow> BridgeClient \<Rightarrow> bridge_error + string" where
  "getTokenBridgeContractAddress isHexAddress w c =
     (let chainID = strings_ToLower (strings_TrimSpace (bc_chainID c)) in
      case map_of tokenBridgeContractByChainID chainID of
        Some address \<Rightarrow> Inr address
      | None \<Rightarrow>
          let address = strings_TrimSpace (ew_getenv w ''TOKEN_BRIDGE_TEST_CONTRACT'') in
          if address = '''' then Inl (ErrUnsupportedChain (bc_chainID c))
          else if \<not> isHexAddress address then Inl ErrInvalidContractAddress
          else Inr address)"

fun connect_eth_loop ::
    "eth_world \<Rightarrow> string list \<Rightarrow> string list \<Rightarrow> (string \<times> string) list \<Rightarrow> string list \<times> (string \<times> string) list" where
  "connect_eth_loop w [] conns errs = (conns, errs)"
| "connect_eth_loop w (rpcURL # rest) conns errs =
     (case ew_dial w rpcURL of
        Some err \<Rightarrow> connect_eth_loop w rest conns (errs @ [(rpcURL, err)])
      | None \<Rightarrow> connect_eth_loop w rest (conns @ [rpcURL]) errs)"

text \<open>The old connections are dropped before the first dial, whatever its outcome.\<close>

definition connectEthRPCs :: "eth_world \<Rightarrow> string list \<Rightarrow> BridgeClient \<Rightarrow> bridge_error option \<times> BridgeClient" where
  "connectEthRPCs w rpcURLs c =
     (let (conns, errs) = connect_eth_loop w rpcURLs [] [];
          c' = c\<lparr>bc_ethRPCConnections := conns\<rparr>
      in (if length conns = 0
          then Some (if length errs = 0 then ErrNoEthEndpoints else ErrEthEndpointsFailed errs)
          else None, c'))"

definition initializeClientsAndContracts ::
    "(string \<Rightarrow> bool) \<Rightarrow> eth_world \<Rightarrow> BridgeClient \<Rightarrow> bridge_error option \<times> BridgeClient" where
  "initializeClientsAndContracts isHexAddress w c =
     (case BridgeChainRPCNodesFromEnv (ew_getenv w) of
        Inl err \<Rightarrow> (Some (ErrEndpoints err), c)
      | Inr rpcURLs \<Rightarrow>
          (case getTokenBridgeContractAddress isHexAddress w c of
             Inl err \<Rightarrow> (Some err, c)
           | Inr contractAddress \<Rightarrow> connectEthRPCs w rpcURLs c))"

definition reconnectEthClient ::
    "(string \<Rightarrow> bool) \<Rightarrow> eth_world \<Rightarrow> BridgeClient \<Rightarrow> bridge_error option \<times> BridgeClient" where
  "reconnectEthClient isHexAddress w c = initializeClientsAndContracts isHexAddress w c"

section \<open>Queries\<close>

text \<open>The loop over the connections: the first answer, or the last error (none without connections).\<close>

fun try_connections :: "('k \<Rightarrow> string + 'a) \<Rightarrow> 'k list \<Rightarrow> string option \<Rightarrow> string option + 'a" where
  "try_connections query [] lastErr = Inl lastErr"
| "try_connections query (conn # rest) lastErr =
     (case query conn of
        Inr answer \<Rightarrow> Inr answer
      | Inl err \<Rightarrow> try_connections query rest (Some err))"

definition QueryCurrentDepositId :: "eth_world \<Rightarrow> BridgeClient \<Rightarrow> bridge_error + int" where
  "QueryCurrentDepositId w c =
     (case try_connections (ew_DepositId w) (bc_ethRPCConnections c) None of
        Inr depositId \<Rightarrow> Inr depositId
      | Inl lastErr \<Rightarrow> Inl (ErrAllEthEndpoints lastErr))"

definition QueryHasContractBeenInitialized :: "eth_world \<Rightarrow> BridgeClient \<Rightarrow> bridge_error + bool" where
  "QueryHasContractBeenInitialized w c =
     (case try_connections (ew_Initialized w) (bc_ethRPCConnections c) None of
        Inr initialized \<Rightarrow> Inr initialized
      | Inl lastErr \<Rightarrow> Inl (ErrAllEthEndpoints lastErr))"

text \<open>Without a connection the deposit keeps nil amounts, and comparing them panics.\<close>

definition QueryDepositDetails :: "eth_world \<Rightarrow> BridgeClient \<Rightarrow> int \<Rightarrow> go_panic + bridge_error + DepositReceipt" where
  "QueryDepositDetails w c depositId =
     (case try_connections (\<lambda>conn. ew_Deposits w conn depositId) (bc_ethRPCConnections c) None of
        Inl (Some lastErr) \<Rightarrow> Inr (Inl (ErrAllEthEndpoints (Some lastErr)))
      | Inl None \<Rightarrow> Inl NilDereference
      | Inr deposit \<Rightarrow>
          if ed_Amount deposit = 0 \<or> ed_BlockHeight deposit = 0 then Inr (Inl ErrDepositNotAvailable)
          else Inr (Inr \<lparr>rc_DepositId = depositId, rc_Sender = ed_Sender deposit, rc_Recipient = ed_Recipient deposit,
                       rc_Amount = ed_Amount deposit, rc_Tip = ed_Tip deposit, rc_BlockHeight = ed_BlockHeight deposit\<rparr>))"

definition CheckForFinality :: "eth_world \<Rightarrow> BridgeClient \<Rightarrow> int \<Rightarrow> bridge_error + bool" where
  "CheckForFinality w c blockHeight =
     (case try_connections (ew_BlockNumber w) (bc_ethRPCConnections c) None of
        Inl (Some lastErr) \<Rightarrow> Inl (ErrAllEthEndpoints (Some lastErr))
      | Inl None \<Rightarrow> Inr (0 - blockHeight \<ge> 100)
      | Inr currentBlock \<Rightarrow> Inr (uint currentBlock - blockHeight \<ge> 100))"

section \<open>Query data\<close>

definition abi_result :: "string + 'a \<Rightarrow> bridge_error + 'a" where
  "abi_result r = (case r of Inl err \<Rightarrow> Inl (ErrAbi err) | Inr x \<Rightarrow> Inr x)"

definition EncodeQueryData :: "'x abi_ops_scheme \<Rightarrow> DepositReceipt \<Rightarrow> bridge_error + bytes" where
  "EncodeQueryData A depositReceipt =
     bindE (abi_result (abi_Pack A [TyBool, TyUint256] [VBool True, VUint256 (rc_DepositId depositReceipt)]))
       (\<lambda>queryDataArgsEncoded.
          abi_result (abi_Pack A [TyString, TyBytes] [VString ''TRBBridgeV2'', VBytes queryDataArgsEncoded]))"

definition EncodeReportValue :: "'x abi_ops_scheme \<Rightarrow> DepositReceipt \<Rightarrow> bridge_error + bytes" where
  "EncodeReportValue A depositReceipt =
     abi_result (abi_Pack A [TyAddress, TyString, TyUint256, TyUint256]
       [VAddress (rc_Sender depositReceipt), VString (rc_Recipient depositReceipt),
        VUint256 (rc_Amount depositReceipt), VUint256 (rc_Tip depositReceipt)])"

text \<open>The values of an unpacked list are asserted to have their types: a failed assertion panics.\<close>

definition DecodeQueryData :: "'x abi_ops_scheme \<Rightarrow> bytes \<Rightarrow> go_panic + bridge_error + string \<times> int" where
  "DecodeQueryData A queryData =
     (case abi_Unpack A [TyString, TyBytes] queryData of
        Inl err \<Rightarrow> Inr (Inl (ErrAbi err))
      | Inr [VString queryType, VBytes innerData] \<Rightarrow>
          (case abi_Unpack A [TyBool, TyUint256] innerData of
             Inl err \<Rightarrow> Inr (Inl (ErrAbi err))
           | Inr [VBool isDeposit, VUint256 depositId] \<Rightarrow>
               if \<not> isDeposit then Inr (Inl ErrNotDeposit) else Inr (Inr (queryType, depositId))
           | Inr _ \<Rightarrow> Inl PanicTypeAssertion)
      | Inr _ \<Rightarrow> Inl PanicTypeAssertion)"

section \<open>Following the deposits\<close>

definition InitializeDeposits ::
    "(string \<Rightarrow> bool) \<Rightarrow> eth_world \<Rightarrow> BridgeClient \<Rightarrow> bridge_error option \<times> BridgeClient" where
  "InitializeDeposits isHexAddress w c =
     (let (err, c') = (if length (bc_ethRPCConnections c) = 0
                       then initializeClientsAndContracts isHexAddress w c else (None, c))
      in case err of
           Some e \<Rightarrow> (Some e, c')
         | None \<Rightarrow>
             (case QueryCurrentDepositId w c' of
                Inl e \<Rightarrow> (Some e, c')
              | Inr latestDepositId \<Rightarrow> (None, c'\<lparr>bc_lastReportedDepositId := Some latestDepositId\<rparr>)))"

text \<open>The three attempts to read the latest deposit id, reconnecting in between.\<close>

function latest_deposit_loop ::
    "(string \<Rightarrow> bool) \<Rightarrow> (nat \<Rightarrow> eth_world) \<Rightarrow> nat \<Rightarrow> BridgeClient \<Rightarrow> (bridge_error + int) \<times> BridgeClient" where
  "latest_deposit_loop isHexAddress w retries c =
     (case QueryCurrentDepositId (w retries) c of
        Inr latestDepositId \<Rightarrow> (Inr latestDepositId, c)
      | Inl err \<Rightarrow>
          if retries < 2 then
            latest_deposit_loop isHexAddress w (Suc retries) (snd (reconnectEthClient isHexAddress (w retries) c))
          else (Inl ErrDepositIdQuery, c))"
  by pat_completeness auto

termination latest_deposit_loop
  by (relation "measure (\<lambda>(h, w, retries, c). 2 - retries)") auto

declare latest_deposit_loop.simps [simp del]

definition bigint_Uint64_nat :: "int \<Rightarrow> uint64" where
  "bigint_Uint64_nat n = word_of_int \<bar>n\<bar>"

text \<open>
  One round: \<open>w 0\<close> to \<open>w 2\<close> are the worlds of the attempts to read the latest id, \<open>w 3\<close> and \<open>w 4\<close>
  those of the deposit details and of the finality check. An encoding error is logged and the
  report is added without the part that failed.
\<close>

definition QueryTokenBridgeContract ::
    "(string \<Rightarrow> bool) \<Rightarrow> 'x abi_ops_scheme \<Rightarrow> (nat \<Rightarrow> eth_world) \<Rightarrow> BridgeClient \<Rightarrow>
     go_panic + bridge_error option \<times> BridgeClient" where
  "QueryTokenBridgeContract isHexAddress A w c0 =
     (case latest_deposit_loop isHexAddress w 0 c0 of
        (Inl err, c) \<Rightarrow> Inr (Some err, c)
      | (Inr latestDepositId, c1) \<Rightarrow>
          let last = (case bc_lastReportedDepositId c1 of None \<Rightarrow> 0 | Some n \<Rightarrow> n);
              c = c1\<lparr>bc_lastReportedDepositId := Some last\<rparr>
          in if bigint_Uint64_nat latestDepositId > bigint_Uint64_nat last then
               let nextDepositId = sint (bigint_Uint64_nat last + 1) in
               (case QueryDepositDetails (w 3) c nextDepositId of
                  Inl p \<Rightarrow> Inl p
                | Inr (Inl err) \<Rightarrow> Inr (Some err, c)
                | Inr (Inr depositTicket) \<Rightarrow>
                    (case CheckForFinality (w 4) c (rc_BlockHeight depositTicket) of
                       Inl err \<Rightarrow> Inr (Some err, c)
                     | Inr isFinal \<Rightarrow>
                         if \<not> isFinal then Inr (None, c)
                         else
                           let queryData = (case EncodeQueryData A depositTicket of Inl _ \<Rightarrow> [] | Inr b \<Rightarrow> b);
                               reportValue = (case EncodeReportValue A depositTicket of Inl _ \<Rightarrow> [] | Inr b \<Rightarrow> b)
                           in Inr (None, c\<lparr>bc_tokenDepositsCache :=
                                     AddReport (bc_tokenDepositsCache c) \<lparr>dr_QueryData = queryData, dr_Value = reportValue\<rparr>,
                                   bc_lastReportedDepositId := Some nextDepositId\<rparr>)))
             else Inr (None, c))"

text \<open>
  The oldest tip: \<open>w 0\<close> answers the deposit details, \<open>w 1\<close> the finality check. The method always
  returns nil, so that its result is the new state.
\<close>

definition ProcessPendingTips ::
    "'x abi_ops_scheme \<Rightarrow> (nat \<Rightarrow> eth_world) \<Rightarrow> BridgeClient \<Rightarrow> go_panic + BridgeClient" where
  "ProcessPendingTips A w c =
     (let drop = c\<lparr>bc_tokenBridgeTipsCache := RemoveOldestTip (bc_tokenBridgeTipsCache c)\<rparr> in
      case GetOldestTip (bc_tokenBridgeTipsCache c) of
        Inl err \<Rightarrow> Inr c
      | Inr oldestTipQueryData \<Rightarrow>
          (case DecodeQueryData A (qd_QueryData oldestTipQueryData) of
             Inl p \<Rightarrow> Inl p
           | Inr (Inl err) \<Rightarrow> Inr drop
           | Inr (Inr (queryType, depositId)) \<Rightarrow>
               if queryType \<noteq> ''TRBBridgeV2'' then Inr drop
               else
                 (case QueryDepositDetails (w 0) c depositId of
                    Inl p \<Rightarrow> Inl p
                  | Inr (Inl err) \<Rightarrow> Inr c
                  | Inr (Inr depositTicket) \<Rightarrow>
                      if rc_Amount depositTicket = 0 then Inr drop
                      else
                        (case CheckForFinality (w 1) c (rc_BlockHeight depositTicket) of
                           Inl err \<Rightarrow> Inr c
                         | Inr isFinal \<Rightarrow>
                             if \<not> isFinal then Inr c
                             else
                               (case EncodeReportValue A depositTicket of
                                  Inl err \<Rightarrow> Inr c
                                | Inr reportValue \<Rightarrow>
                                    Inr (drop\<lparr>bc_tokenDepositsCache := AddReport (bc_tokenDepositsCache c)
                                      \<lparr>dr_QueryData = qd_QueryData oldestTipQueryData, dr_Value = reportValue\<rparr>\<rparr>))))))"

definition bridge_tick ::
    "(string \<Rightarrow> bool) \<Rightarrow> 'x abi_ops_scheme \<Rightarrow> (nat \<Rightarrow> eth_world) \<Rightarrow> (nat \<Rightarrow> eth_world) \<Rightarrow> BridgeClient \<Rightarrow>
     go_panic + BridgeClient" where
  "bridge_tick isHexAddress A w w' c =
     bindE (QueryTokenBridgeContract isHexAddress A w c) (\<lambda>(err, c'). ProcessPendingTips A w' c')"

section \<open>Waiting for the contract\<close>

text \<open>
  Round \<open>n\<close>: \<open>ctxErr n\<close> says that the context has ended when the round begins, \<open>interrupted n\<close> that
  it ends while the round waits, and \<open>query n\<close> is the answer of the contract. The result is whether
  the contract is initialised (nil) or the context ended (its error); the loop may run forever.
\<close>

partial_function (option) waitForContractInitialized ::
    "(nat \<Rightarrow> bool) \<Rightarrow> (nat \<Rightarrow> bool) \<Rightarrow> (nat \<Rightarrow> bridge_error + bool) \<Rightarrow> nat \<Rightarrow> bool option" where
  "waitForContractInitialized ctxErr interrupted query n =
     (if ctxErr n then Some False
      else case query n of
        Inl err \<Rightarrow> if interrupted n then Some False
                   else waitForContractInitialized ctxErr interrupted query (Suc n)
      | Inr initialized \<Rightarrow>
          if initialized then Some True
          else if interrupted n then Some False
          else waitForContractInitialized ctxErr interrupted query (Suc n))"

section \<open>Lemmas about the queries\<close>

lemma try_connections_Inr:
  "try_connections query conns lastErr = Inr x \<Longrightarrow> \<exists>conn \<in> set conns. query conn = Inr x"
  by (induction query conns lastErr rule: try_connections.induct) (auto split: sum.splits)

lemma try_connections_None: "try_connections query conns lastErr = Inl None \<longleftrightarrow> conns = [] \<and> lastErr = None"
  by (induction query conns lastErr rule: try_connections.induct) (auto split: sum.splits)

lemma try_connections_fail:
  "\<forall>conn \<in> set conns. \<exists>e. query conn = Inl e \<Longrightarrow> \<exists>e. try_connections query conns lastErr = Inl e"
  by (induction query conns lastErr rule: try_connections.induct) auto

lemma try_connections_all:
  assumes "\<forall>conn \<in> set conns. \<exists>x. query conn = Inr x \<and> P x" and "conns \<noteq> []"
  shows "\<exists>x. try_connections query conns lastErr = Inr x \<and> P x"
  using assms by (cases conns) (auto split: sum.splits)

text \<open>The report of a deposit, and when a deposit counts as confirmed in the answers of the nodes.\<close>

definition deposit_report :: "'x abi_ops_scheme \<Rightarrow> DepositReceipt \<Rightarrow> DepositReport" where
  "deposit_report A rc =
     \<lparr>dr_QueryData = (case EncodeQueryData A rc of Inl _ \<Rightarrow> [] | Inr b \<Rightarrow> b),
      dr_Value = (case EncodeReportValue A rc of Inl _ \<Rightarrow> [] | Inr b \<Rightarrow> b)\<rparr>"

definition receipt_of :: "int \<Rightarrow> eth_deposit \<Rightarrow> DepositReceipt" where
  "receipt_of depositId d =
     \<lparr>rc_DepositId = depositId, rc_Sender = ed_Sender d, rc_Recipient = ed_Recipient d,
      rc_Amount = ed_Amount d, rc_Tip = ed_Tip d, rc_BlockHeight = ed_BlockHeight d\<rparr>"

definition confirmed :: "eth_world \<Rightarrow> eth_world \<Rightarrow> DepositReceipt \<Rightarrow> bool" where
  "confirmed w w' rc \<longleftrightarrow>
     (\<exists>conn d. ew_Deposits w conn (rc_DepositId rc) = Inr d \<and> rc = receipt_of (rc_DepositId rc) d \<and>
        ed_Amount d \<noteq> 0 \<and> ed_BlockHeight d \<noteq> 0) \<and>
     (\<exists>conn block. ew_BlockNumber w' conn = Inr block \<and> uint block \<ge> rc_BlockHeight rc + 100)"

lemma QueryDepositDetails_ok:
  assumes "QueryDepositDetails w c depositId = Inr (Inr rc)"
  shows "bc_ethRPCConnections c \<noteq> [] \<and> (\<exists>conn d. ew_Deposits w conn depositId = Inr d \<and>
    rc = receipt_of depositId d \<and> ed_Amount d \<noteq> 0 \<and> ed_BlockHeight d \<noteq> 0)"
  using assms
  by (auto simp: QueryDepositDetails_def receipt_of_def split: sum.splits option.splits if_splits
      dest!: try_connections_Inr)

lemma CheckForFinality_ok:
  assumes "CheckForFinality w c height = Inr True" and "bc_ethRPCConnections c \<noteq> []"
  shows "\<exists>conn block. ew_BlockNumber w conn = Inr block \<and> uint block \<ge> height + 100"
  using assms
  by (auto simp: CheckForFinality_def try_connections_None algebra_simps split: sum.splits option.splits
      dest!: try_connections_Inr)

lemma reconnect_keeps:
  "bc_lastReportedDepositId (snd (reconnectEthClient h w c)) = bc_lastReportedDepositId c \<and>
   bc_tokenDepositsCache (snd (reconnectEthClient h w c)) = bc_tokenDepositsCache c \<and>
   bc_tokenBridgeTipsCache (snd (reconnectEthClient h w c)) = bc_tokenBridgeTipsCache c"
  by (simp add: reconnectEthClient_def initializeClientsAndContracts_def connectEthRPCs_def Let_def
      split: sum.splits prod.splits)

lemma latest_deposit_loop_keeps:
  assumes "latest_deposit_loop h w k c = (r, c')"
  shows "bc_lastReportedDepositId c' = bc_lastReportedDepositId c \<and>
    bc_tokenDepositsCache c' = bc_tokenDepositsCache c \<and> bc_tokenBridgeTipsCache c' = bc_tokenBridgeTipsCache c \<and>
    (\<forall>n. r = Inr n \<longrightarrow> bc_ethRPCConnections c' \<noteq> [])"
  using assms
proof (induction h w k c rule: latest_deposit_loop.induct)
  case (1 h w k c)
  show ?case
  proof (cases "QueryCurrentDepositId (w k) c")
    case (Inr n)
    then have "bc_ethRPCConnections c \<noteq> []" by (auto simp: QueryCurrentDepositId_def)
    then show ?thesis using 1(2) Inr by (subst (asm) latest_deposit_loop.simps) auto
  next
    case (Inl err)
    show ?thesis
    proof (cases "k < 2")
      case True
      then have "latest_deposit_loop h w (Suc k) (snd (reconnectEthClient h (w k) c)) = (r, c')"
        using 1(2) Inl by (subst (asm) latest_deposit_loop.simps) simp
      from 1(1) [OF Inl True this] show ?thesis using reconnect_keeps [of h "w k" c] by simp
    next
      case False
      then show ?thesis using 1(2) Inl by (subst (asm) latest_deposit_loop.simps) auto
    qed
  qed
qed

lemma next_id:
  assumes "0 \<le> n" and "n + 1 < 2 ^ 63"
  shows "sint (bigint_Uint64_nat n + 1) = n + 1"
proof -
  have "bigint_Uint64_nat n + 1 = word_of_int (n + 1)" using assms(1) by (simp add: bigint_Uint64_nat_def)
  moreover have "sint (word_of_int (n + 1) :: uint64) = n + 1"
    unfolding sint_sbintrunc' using assms by (intro signed_take_bit_int_eq_self) simp_all
  ultimately show ?thesis by simp
qed

section \<open>Deposits are reported in order\<close>

fun contract_rounds ::
    "(string \<Rightarrow> bool) \<Rightarrow> 'x abi_ops_scheme \<Rightarrow> (nat \<Rightarrow> eth_world) list \<Rightarrow> BridgeClient \<Rightarrow> go_panic + BridgeClient" where
  "contract_rounds h A [] c = Inr c"
| "contract_rounds h A (w # ws) c =
     bindE (QueryTokenBridgeContract h A w c) (\<lambda>(err, c'). contract_rounds h A ws c')"

lemma contract_round:
  assumes last: "bc_lastReportedDepositId c = Some n" and n: "0 \<le> n" "n + 1 < 2 ^ 63"
  shows "\<exists>err c'. QueryTokenBridgeContract h A w c = Inr (err, c') \<and>
    bc_tokenBridgeTipsCache c' = bc_tokenBridgeTipsCache c \<and>
    (bc_lastReportedDepositId c' = Some n \<and> bc_tokenDepositsCache c' = bc_tokenDepositsCache c \<or>
     (\<exists>rc. bc_lastReportedDepositId c' = Some (n + 1) \<and> rc_DepositId rc = n + 1 \<and> confirmed (w 3) (w 4) rc \<and>
        bc_tokenDepositsCache c' = AddReport (bc_tokenDepositsCache c) (deposit_report A rc)))"
proof -
  obtain r c1 where loop: "latest_deposit_loop h w 0 c = (r, c1)" by (cases "latest_deposit_loop h w 0 c")
  note keep = latest_deposit_loop_keeps [OF loop]
  let ?c = "c1\<lparr>bc_lastReportedDepositId := Some n\<rparr>"
  show ?thesis
  proof (cases r)
    case (Inl err)
    then show ?thesis using loop keep last by (simp add: QueryTokenBridgeContract_def)
  next
    case (Inr latest)
    then have conns: "bc_ethRPCConnections ?c \<noteq> []" using keep by simp
    have last1: "bc_lastReportedDepositId c1 = Some n" using keep last by simp
    consider (old) "\<not> bigint_Uint64_nat latest > bigint_Uint64_nat n"
      | (err) "bigint_Uint64_nat latest > bigint_Uint64_nat n" "\<And>rc. QueryDepositDetails (w 3) ?c (n + 1) \<noteq> Inr (Inr rc)"
      | (got) rc where "bigint_Uint64_nat latest > bigint_Uint64_nat n" "QueryDepositDetails (w 3) ?c (n + 1) = Inr (Inr rc)"
      by blast
    then show ?thesis
    proof cases
      case old
      then show ?thesis using loop Inr last1 keep by (simp add: QueryTokenBridgeContract_def)
    next
      case err
      have "QueryDepositDetails (w 3) ?c (n + 1) \<noteq> Inl p" for p
        using conns try_connections_None by (auto simp: QueryDepositDetails_def split: sum.splits option.splits if_splits)
      then obtain e where "QueryDepositDetails (w 3) ?c (n + 1) = Inr (Inl e)" using err(2) by (metis sum.exhaust)
      then show ?thesis using loop Inr last1 keep err(1) by (simp add: QueryTokenBridgeContract_def next_id [OF n])
    next
      case (got rc)
      from QueryDepositDetails_ok [OF got(2)] obtain conn d where
        d: "ew_Deposits (w 3) conn (n + 1) = Inr d" "rc = receipt_of (n + 1) d" "ed_Amount d \<noteq> 0" "ed_BlockHeight d \<noteq> 0"
        by blast
      show ?thesis
      proof (cases "CheckForFinality (w 4) ?c (rc_BlockHeight rc) = Inr True")
        case True
        have "confirmed (w 3) (w 4) rc"
          using d CheckForFinality_ok [OF True conns] by (auto simp: confirmed_def receipt_of_def)
        moreover have "rc_DepositId rc = n + 1" using d(2) by (simp add: receipt_of_def)
        ultimately show ?thesis
          using loop Inr last1 keep got True
          by (auto simp: QueryTokenBridgeContract_def next_id [OF n] deposit_report_def)
      next
        case False
        then show ?thesis
          using loop Inr last1 keep got
          by (cases "CheckForFinality (w 4) ?c (rc_BlockHeight rc)")
            (simp_all add: QueryTokenBridgeContract_def next_id [OF n])
      qed
    qed
  qed
qed


section \<open>Tips\<close>

fun tip_rounds :: "'x abi_ops_scheme \<Rightarrow> (nat \<Rightarrow> eth_world) list \<Rightarrow> BridgeClient \<Rightarrow> go_panic + BridgeClient" where
  "tip_rounds A [] c = Inr c"
| "tip_rounds A (w # ws) c = bindE (ProcessPendingTips A w c) (tip_rounds A ws)"

text \<open>
  A tip for a deposit that does not exist blocks the queue. The client means to drop such a
  tip, but \<open>QueryDepositDetails\<close> already turns a zero amount into an error, on which the tip is
  kept: as long as the contract has no such deposit, no round changes anything, and the tips
  behind it are never looked at.
\<close>

theorem unknown_deposit_blocks_tips:
  assumes "dts_Tips (bc_tokenBridgeTipsCache c) = tip # waiting" and "bc_ethRPCConnections c \<noteq> []"
    and "DecodeQueryData A (qd_QueryData tip) = Inr (Inr (''TRBBridgeV2'', depositId))"
    and "\<forall>w \<in> set ws. \<forall>conn \<in> set (bc_ethRPCConnections c). \<exists>d. ew_Deposits (w 0) conn depositId = Inr d \<and> ed_Amount d = 0"
  shows "tip_rounds A ws c = Inr c"
  using assms(4)
proof (induction ws)
  case (Cons w ws)
  from Cons.prems try_connections_all [of "bc_ethRPCConnections c" "\<lambda>conn. ew_Deposits (w 0) conn depositId" "\<lambda>d. ed_Amount d = 0" None]
    assms(2) obtain d where
    "try_connections (\<lambda>conn. ew_Deposits (w 0) conn depositId) (bc_ethRPCConnections c) None = Inr d" "ed_Amount d = 0" by auto
  then have "ProcessPendingTips A w c = Inr c"
    using assms(1,3) by (simp add: ProcessPendingTips_def tips.oldest_eq QueryDepositDetails_def Let_def)
  then show ?case using Cons by simp
qed simp

text \<open>
  An outage takes the client down. If in one round no node answers and none can be dialled
  again, the failed reconnection leaves no connections; a pending tip then makes the same round
  compare the nil amount of a deposit that was never read, and panic.
\<close>

theorem outage_with_tip_panics:
  assumes tip: "dts_Tips (bc_tokenBridgeTipsCache c) = tip # waiting"
    and decoded: "DecodeQueryData A (qd_QueryData tip) = Inr (Inr (''TRBBridgeV2'', depositId))"
    and silent: "\<And>k conn. \<exists>e. ew_DepositId (w k) conn = Inl e"
    and endpoints: "\<And>k. \<exists>urls. BridgeChainRPCNodesFromEnv (ew_getenv (w k)) = Inr urls"
    and chain: "getTokenBridgeContractAddress h (w 0) c = Inr address"
    and dead: "\<And>k url. \<exists>e. ew_dial (w k) url = Some e"
    and later: "\<And>k. ew_getenv (w k) = ew_getenv (w 0)"
  shows "bridge_tick h A w w' c = Inl NilDereference"
proof -
  have none: "fst (connect_eth_loop (w k) urls [] errs) = []" for k urls errs
  proof (induction urls arbitrary: errs)
    case (Cons url urls)
    from dead obtain e where "ew_dial (w k) url = Some e" by blast
    then show ?case using Cons.IH by simp
  qed simp
  have addr: "getTokenBridgeContractAddress h (w k) c' = Inr address" if "bc_chainID c' = bc_chainID c" for k c'
    using chain unfolding getTokenBridgeContractAddress_def that later [of k] by simp
  have rec: "snd (reconnectEthClient h (w k) c') = c'\<lparr>bc_ethRPCConnections := []\<rparr>" if "bc_chainID c' = bc_chainID c" for k c'
    using endpoints [of k] addr [OF that, of k] none [of k]
    by (auto simp: reconnectEthClient_def initializeClientsAndContracts_def connectEthRPCs_def Let_def split: prod.splits)
      (metis fst_conv)
  have query: "\<exists>e. QueryCurrentDepositId (w k) c' = Inl e" for k c'
    using try_connections_fail [of "bc_ethRPCConnections c'" "ew_DepositId (w k)" None] silent
    by (auto simp: QueryCurrentDepositId_def)
  let ?c = "c\<lparr>bc_ethRPCConnections := []\<rparr>"
  have "latest_deposit_loop h w 2 ?c = (Inl ErrDepositIdQuery, ?c)"
    using query [of 2 ?c] by (subst latest_deposit_loop.simps) auto
  moreover have "latest_deposit_loop h w 1 ?c = latest_deposit_loop h w 2 ?c"
    using query [of 1 ?c] rec [of ?c 1] by (subst latest_deposit_loop.simps) (auto simp: numeral_2_eq_2)
  moreover have "latest_deposit_loop h w 0 c = latest_deposit_loop h w 1 ?c"
    using query [of 0 c] rec [of c 0] by (subst latest_deposit_loop.simps) auto
  ultimately have "QueryTokenBridgeContract h A w c = Inr (Some ErrDepositIdQuery, ?c)"
    by (simp add: QueryTokenBridgeContract_def)
  then show ?thesis
    using tip decoded by (simp add: bridge_tick_def ProcessPendingTips_def tips.oldest_eq QueryDepositDetails_def Let_def)
qed

section \<open>Encoding and decoding of query data\<close>

lemma DecodeQueryData_no_panic:
  assumes "abi_laws A"
  shows "DecodeQueryData A b \<noteq> Inl p"
proof -
  have two: "\<exists>x y. vs = [x, y] \<and> has_abi_type x t \<and> has_abi_type y u" if "abi_Unpack A [t, u] b' = Inr vs" for b' t u vs
  proof -
    have "list_all2 has_abi_type vs [t, u]" using assms that unfolding abi_laws_def by blast
    then show ?thesis by (auto simp: list_all2_Cons2)
  qed
  have str: "has_abi_type x TyString \<Longrightarrow> \<exists>s. x = VString s" "has_abi_type x TyBytes \<Longrightarrow> \<exists>b. x = VBytes b"
    "has_abi_type x TyBool \<Longrightarrow> \<exists>b. x = VBool b" "has_abi_type x TyUint256 \<Longrightarrow> \<exists>n. x = VUint256 n" for x
    by (cases x; simp)+
  show ?thesis
  proof (cases "abi_Unpack A [TyString, TyBytes] b")
    case (Inr vs)
    from two [OF this] obtain x y where "vs = [x, y]" "has_abi_type x TyString" "has_abi_type y TyBytes" by blast
    with str(1) [of x] str(2) [of y] obtain s i where vs: "vs = [VString s, VBytes i]" by auto
    show ?thesis
    proof (cases "abi_Unpack A [TyBool, TyUint256] i")
      case Inl
      then show ?thesis using Inr vs by (simp add: DecodeQueryData_def)
    next
      case i: (Inr us)
      from two [OF this] obtain x y where "us = [x, y]" "has_abi_type x TyBool" "has_abi_type y TyUint256" by blast
      with str(3) [of x] str(4) [of y] obtain d n where "us = [VBool d, VUint256 n]" by auto
      then show ?thesis using Inr vs i by (simp add: DecodeQueryData_def)
    qed
  qed (simp add: DecodeQueryData_def)
qed

text \<open>
  C35: query data round trip. The query data of a deposit decodes to its type and its id, and
  decoding arbitrary bytes fails with an error rather than a panic.
\<close>

theorem query_data_roundtrip:
  assumes "abi_laws A" and "0 \<le> rc_DepositId rc" and "rc_DepositId rc < 2 ^ 256"
  shows "(\<exists>b. EncodeQueryData A rc = Inr b \<and> DecodeQueryData A b = Inr (Inr (''TRBBridgeV2'', rc_DepositId rc))) \<and>
    (\<forall>b p. DecodeQueryData A b \<noteq> Inl p)"
proof -
  have pack: "\<exists>b. abi_Pack A ts vs = Inr b \<and> list_all (\<lambda>x. x < 256) b \<and> abi_Unpack A ts b = Inr vs"
    if "list_all2 has_abi_type vs ts" for ts vs
    using assms(1) that unfolding abi_laws_def by blast
  have "list_all2 has_abi_type [VBool True, VUint256 (rc_DepositId rc)] [TyBool, TyUint256]"
    using assms(2,3) by simp
  from pack [OF this] obtain i where i: "abi_Pack A [TyBool, TyUint256] [VBool True, VUint256 (rc_DepositId rc)] = Inr i"
    "list_all (\<lambda>x. x < 256) i" "abi_Unpack A [TyBool, TyUint256] i = Inr [VBool True, VUint256 (rc_DepositId rc)]" by blast
  have "list_all2 has_abi_type [VString ''TRBBridgeV2'', VBytes i] [TyString, TyBytes]" using i(2) by simp
  from pack [OF this] obtain b where "abi_Pack A [TyString, TyBytes] [VString ''TRBBridgeV2'', VBytes i] = Inr b"
    "abi_Unpack A [TyString, TyBytes] b = Inr [VString ''TRBBridgeV2'', VBytes i]" by blast
  with i have "EncodeQueryData A rc = Inr b \<and> DecodeQueryData A b = Inr (Inr (''TRBBridgeV2'', rc_DepositId rc))"
    by (simp add: EncodeQueryData_def DecodeQueryData_def abi_result_def)
  then show ?thesis using DecodeQueryData_no_panic [OF assms(1)] by blast
qed

section \<open>The wait for the contract ends\<close>

definition wait_ends :: "(nat \<Rightarrow> bool) \<Rightarrow> (nat \<Rightarrow> bool) \<Rightarrow> (nat \<Rightarrow> bridge_error + bool) \<Rightarrow> nat \<Rightarrow> bool" where
  "wait_ends ctxErr interrupted query m \<longleftrightarrow> ctxErr m \<or> query m = Inr True \<or> interrupted m"

lemma wait_step:
  "waitForContractInitialized ctxErr interrupted query n =
     (if wait_ends ctxErr interrupted query n then Some (\<not> ctxErr n \<and> query n = Inr True)
      else waitForContractInitialized ctxErr interrupted query (Suc n))"
  by (subst waitForContractInitialized.simps) (auto simp: wait_ends_def split: sum.splits)

lemma wait_from:
  assumes "wait_ends ctxErr interrupted query (n + k)" and "\<forall>j < k. \<not> wait_ends ctxErr interrupted query (n + j)"
  shows "waitForContractInitialized ctxErr interrupted query n = Some (\<not> ctxErr (n + k) \<and> query (n + k) = Inr True)"
  using assms
proof (induction k arbitrary: n)
  case 0
  then show ?case using wait_step [of ctxErr interrupted query n] by simp
next
  case (Suc k)
  have "\<not> wait_ends ctxErr interrupted query n" using Suc.prems(2) by (metis add.right_neutral zero_less_Suc)
  then have "waitForContractInitialized ctxErr interrupted query n =
      waitForContractInitialized ctxErr interrupted query (Suc n)"
    using wait_step [of ctxErr interrupted query n] by simp
  moreover have "\<forall>j < k. \<not> wait_ends ctxErr interrupted query (Suc n + j)"
    using Suc.prems(2) by (metis Suc_mono add_Suc_shift)
  ultimately show ?case using Suc.IH [of "Suc n"] Suc.prems(1) by simp
qed

lemma wait_only_if:
  assumes "waitForContractInitialized ctxErr interrupted query n = Some r"
  shows "\<exists>m. wait_ends ctxErr interrupted query (n + m)"
proof (rule waitForContractInitialized.raw_induct [OF _ assms], goal_cases)
  case (1 f ctxErr interrupted query n r)
  show ?case
  proof (cases "wait_ends ctxErr interrupted query n")
    case True
    then show ?thesis by (metis add.right_neutral)
  next
    case False
    then have "f ctxErr interrupted query (Suc n) = Some r"
      using 1(2) by (auto simp: wait_ends_def split: sum.splits if_splits)
    from 1(1) [OF this] show ?thesis by (metis add_Suc_shift)
  qed
qed

text \<open>
  The wait for the contract. It ends exactly if some round finds the contract initialised or
  the context ended, with success exactly if at the first such round the contract is initialised.
\<close>

theorem wait_terminates_iff:
  "((\<exists>r. waitForContractInitialized ctxErr interrupted query 0 = Some r) \<longleftrightarrow>
      (\<exists>m. wait_ends ctxErr interrupted query m)) \<and>
   (wait_ends ctxErr interrupted query m \<and> (\<forall>j < m. \<not> wait_ends ctxErr interrupted query j) \<longrightarrow>
      waitForContractInitialized ctxErr interrupted query 0 = Some (\<not> ctxErr m \<and> query m = Inr True))"
proof -
  have first: "waitForContractInitialized ctxErr interrupted query 0 = Some (\<not> ctxErr m \<and> query m = Inr True)"
    if "wait_ends ctxErr interrupted query m" "\<forall>j < m. \<not> wait_ends ctxErr interrupted query j" for m
    using wait_from [of ctxErr interrupted query 0 m] that by simp
  moreover have "\<exists>m. wait_ends ctxErr interrupted query m" if "waitForContractInitialized ctxErr interrupted query 0 = Some r" for r
    using wait_only_if [OF that] by simp
  moreover have "\<exists>r. waitForContractInitialized ctxErr interrupted query 0 = Some r" if "wait_ends ctxErr interrupted query m" for m
    using that first exists_least_iff [of "wait_ends ctxErr interrupted query"] by blast
  ultimately show ?thesis by blast
qed

section \<open>A concrete codec and concrete nodes\<close>

text \<open>A codec with the laws: every value is its length or number in unary, followed by its bytes.\<close>

definition enc_nat :: "nat \<Rightarrow> bytes" where
  "enc_nat n = replicate n 1 @ [0]"

fun dec_nat :: "bytes \<Rightarrow> (nat \<times> bytes) option" where
  "dec_nat [] = None"
| "dec_nat (b # bs) = (if b = 0 then Some (0, bs) else map_option (\<lambda>(n, r). (Suc n, r)) (dec_nat bs))"

fun enc_value :: "abi_value \<Rightarrow> bytes" where
  "enc_value (VString s) = enc_nat (length s) @ map of_char s"
| "enc_value (VBytes b) = enc_nat (length b) @ b"
| "enc_value (VBool b) = [if b then 1 else 0]"
| "enc_value (VUint256 n) = enc_nat (nat n)"
| "enc_value (VAddress a) = enc_nat a"

fun dec_value :: "abi_type \<Rightarrow> bytes \<Rightarrow> (abi_value \<times> bytes) option" where
  "dec_value TyString bs = map_option (\<lambda>(n, r). (VString (map char_of (take n r)), drop n r)) (dec_nat bs)"
| "dec_value TyBytes bs = map_option (\<lambda>(n, r). (VBytes (take n r), drop n r)) (dec_nat bs)"
| "dec_value TyBool bs = (case bs of [] \<Rightarrow> None | b # r \<Rightarrow> Some (VBool (b = 1), r))"
| "dec_value TyUint256 bs = map_option (\<lambda>(n, r). (VUint256 (int n), r)) (dec_nat bs)"
| "dec_value TyAddress bs = map_option (\<lambda>(n, r). (VAddress n, r)) (dec_nat bs)"

fun dec_values :: "abi_type list \<Rightarrow> bytes \<Rightarrow> abi_value list option" where
  "dec_values [] bs = Some []"
| "dec_values (t # ts) bs =
     (case dec_value t bs of None \<Rightarrow> None | Some (v, r) \<Rightarrow> map_option (\<lambda>vs. v # vs) (dec_values ts r))"

definition demo_abi :: abi_ops where
  "demo_abi = \<lparr>abi_Pack = (\<lambda>ts vs. if list_all2 has_abi_type vs ts then Inr (concat (map enc_value vs)) else Inl ''type''),
     abi_Unpack = (\<lambda>ts bs. case dec_values ts bs of
        Some vs \<Rightarrow> if list_all2 has_abi_type vs ts then Inr vs else Inl ''range'' | None \<Rightarrow> Inl ''short'')\<rparr>"

lemma dec_enc_nat: "dec_nat (enc_nat n @ bs) = Some (n, bs)"
  by (induction n) (simp_all add: enc_nat_def)

lemma dec_enc_value: "has_abi_type v t \<Longrightarrow> dec_value t (enc_value v @ bs) = Some (v, bs)"
  by (cases "(v, t)" rule: has_abi_type.cases) (simp_all add: dec_enc_nat comp_def)

lemma dec_enc_values: "list_all2 has_abi_type vs ts \<Longrightarrow> dec_values ts (concat (map enc_value vs)) = Some vs"
  by (induction vs ts rule: list_all2_induct) (simp_all add: dec_enc_value)

lemma enc_value_bytes: "has_abi_type v t \<Longrightarrow> list_all (\<lambda>x. x < 256) (enc_value v)"
proof (cases "(v, t)" rule: has_abi_type.cases)
  case (1 s)
  moreover have "(of_char c :: nat) < 256" for c using nat_of_char_less_256 [of c] by simp
  ultimately show ?thesis by (auto simp: enc_nat_def list_all_iff)
qed (auto simp: enc_nat_def list_all_iff)

lemma demo_abi_laws: "abi_laws demo_abi"
proof -
  have "list_all (\<lambda>x. x < 256) (concat (map enc_value vs))" if "list_all2 has_abi_type vs ts" for vs ts
    using that by (induction vs ts rule: list_all2_induct) (simp_all add: enc_value_bytes)
  then show ?thesis by (simp add: abi_laws_def demo_abi_def dec_enc_values split: option.splits)
qed

definition demo_world :: eth_world where
  "demo_world = \<lparr>ew_getenv = (\<lambda>v. if v = ''BRIDGE_CHAIN_RPC_NODES'' then ''https://a'' else ''''), ew_dial = (\<lambda>_. None),
     ew_DepositId = (\<lambda>_. Inr 9), ew_Initialized = (\<lambda>_. Inr True),
     ew_Deposits = (\<lambda>_ n. Inr \<lparr>ed_Sender = 1, ed_Recipient = ''r'', ed_Amount = (if n \<le> 9 then 50 else 0), ed_Tip = 0,
        ed_BlockHeight = 100 + n\<rparr>),
     ew_BlockNumber = (\<lambda>_. Inr 1000)\<rparr>"

definition demo_outage :: eth_world where
  "demo_outage = demo_world\<lparr>ew_dial := (\<lambda>_. Some ''refused''), ew_DepositId := (\<lambda>_. Inl ''refused'')\<rparr>"

definition demo_tip :: "int \<Rightarrow> QueryData" where
  "demo_tip n = \<lparr>qd_QueryData = (case EncodeQueryData demo_abi \<lparr>rc_DepositId = n, rc_Sender = 0, rc_Recipient = '''',
     rc_Amount = 0, rc_Tip = 0, rc_BlockHeight = 0\<rparr> of Inr b \<Rightarrow> b | Inl _ \<Rightarrow> [])\<rparr>"

definition demo_bridge_client :: "int \<Rightarrow> BridgeClient" where
  "demo_bridge_client n = \<lparr>bc_lastReportedDepositId = Some 7, bc_tokenDepositsCache = NewDepositReports,
     bc_tokenBridgeTipsCache = \<lparr>dts_Tips = [demo_tip n, demo_tip 3]\<rparr>, bc_chainID = ''tellor-1'',
     bc_ethRPCConnections = [''https://a'']\<rparr>"


theorem query_data_roundtrip_witness:
  "\<exists>b. EncodeQueryData demo_abi (receipt_of 3 \<lparr>ed_Sender = 1, ed_Recipient = ''r'', ed_Amount = 5, ed_Tip = 0, ed_BlockHeight = 1\<rparr>) = Inr b \<and>
     DecodeQueryData demo_abi b = Inr (Inr (''TRBBridgeV2'', 3))"
  using query_data_roundtrip [OF demo_abi_laws, of "receipt_of 3 \<lparr>ed_Sender = 1, ed_Recipient = ''r'', ed_Amount = 5, ed_Tip = 0, ed_BlockHeight = 1\<rparr>"]
  by (simp add: receipt_of_def)

theorem unknown_deposit_blocks_tips_witness:
  "tip_rounds demo_abi [\<lambda>_. demo_world, \<lambda>_. demo_world] (demo_bridge_client 12) = Inr (demo_bridge_client 12)"
proof -
  have "DecodeQueryData demo_abi (qd_QueryData (demo_tip 12)) = Inr (Inr (''TRBBridgeV2'', 12))" by code_simp
  then show ?thesis
    by (intro unknown_deposit_blocks_tips [where tip = "demo_tip 12" and waiting = "[demo_tip 3]" and depositId = 12])
      (simp_all add: demo_bridge_client_def demo_world_def)
qed

theorem outage_with_tip_panics_witness:
  "bridge_tick (\<lambda>_. True) demo_abi (\<lambda>_. demo_outage) (\<lambda>_. demo_outage) (demo_bridge_client 5) = Inl NilDereference"
proof (rule outage_with_tip_panics [where tip = "demo_tip 5" and waiting = "[demo_tip 3]" and depositId = 5])
  show "DecodeQueryData demo_abi (qd_QueryData (demo_tip 5)) = Inr (Inr (''TRBBridgeV2'', 5))" by code_simp
  show "\<exists>urls. BridgeChainRPCNodesFromEnv (ew_getenv demo_outage) = Inr urls" for k :: nat
    by (rule exI [of _ "[''https://a'']"]) code_simp
  show "getTokenBridgeContractAddress (\<lambda>_. True) demo_outage (demo_bridge_client 5) =
      Inr ''0x6ec401744008f4B018Ed9A36f76e6629799Ee50E''" by code_simp
qed (simp_all add: demo_bridge_client_def demo_outage_def)

theorem wait_terminates_iff_witness:
  "waitForContractInitialized (\<lambda>_. False) (\<lambda>_. False) (\<lambda>n. if n = 2 then Inr True else Inl ErrNotDeposit) 0 = Some True"
proof -
  have "wait_ends (\<lambda>_. False) (\<lambda>_. False) (\<lambda>n. if n = 2 then Inr True else Inl ErrNotDeposit) 2" by code_simp
  moreover have "\<forall>j < 2. \<not> wait_ends (\<lambda>_. False) (\<lambda>_. False) (\<lambda>n. if n = 2 then Inr True else Inl ErrNotDeposit) j"
    by (simp add: wait_ends_def)
  ultimately show ?thesis
    using wait_terminates_iff [of "\<lambda>_. False" "\<lambda>_. False" "\<lambda>n. if n = 2 then Inr True else Inl ErrNotDeposit" 2] by simp
qed

end
