(* ===== verification/EndpointManager.thy ===== *)
theory EndpointManager
  imports GoStrings
begin

text \<open>
  The endpoints of the chain nodes: \<open>reporter/client/grpc_endpoint_manager.go\<close>,
  \<open>reporter/client/rpc_endpoint_manager.go\<close>, and the calls with fallback of
  \<open>reporter/client/tx_handler.go\<close> and \<open>reporter/client/client.go\<close>.

  The connection factories, the remote calls and the state of the context are parameters; they are
  numbered by the attempt that uses them, so that the same endpoint may answer differently at
  different times. The two managers have the same contract, the locale \<open>endpoint_manager\<close>; the
  behaviour of a call with fallback is proved there once, for both.
\<close>

section \<open>The gRPC endpoints\<close>

datatype manager_error =
    ErrNoEndpoints
  | ErrNoFallback
  | ErrFallbacksFailed "(string \<times> string) list"

record grpcEndpointManager =
  gm_endpoints :: "string list"
  gm_current :: nat

definition newGRPCEndpointManagerWithFactory :: "string list \<Rightarrow> manager_error + grpcEndpointManager" where
  "newGRPCEndpointManagerWithFactory endpoints =
     (if length endpoints = 0 then Inl ErrNoEndpoints
      else Inr \<lparr>gm_endpoints = endpoints, gm_current = 0\<rparr>)"

definition gm_currentEndpoint :: "grpcEndpointManager \<Rightarrow> string" where
  "gm_currentEndpoint m = gm_endpoints m ! gm_current m"

definition gm_endpointCount :: "grpcEndpointManager \<Rightarrow> nat" where
  "gm_endpointCount m = length (gm_endpoints m)"

definition gm_usingPrimary :: "grpcEndpointManager \<Rightarrow> bool" where
  "gm_usingPrimary m \<longleftrightarrow> gm_current m = 0"

definition gm_primaryEndpoint :: "grpcEndpointManager \<Rightarrow> string" where
  "gm_primaryEndpoint m = gm_endpoints m ! 0"

definition currentConnection :: "(string \<Rightarrow> string + 'c) \<Rightarrow> grpcEndpointManager \<Rightarrow> string + 'c" where
  "currentConnection factory m = factory (gm_currentEndpoint m)"

definition primaryConnection :: "(string \<Rightarrow> string + 'c) \<Rightarrow> grpcEndpointManager \<Rightarrow> string + 'c" where
  "primaryConnection factory m = factory (gm_primaryEndpoint m)"

definition gm_switchToPrimary :: "grpcEndpointManager \<Rightarrow> grpcEndpointManager" where
  "gm_switchToPrimary m = (if gm_current m = 0 then m else m\<lparr>gm_current := 0\<rparr>)"

text \<open>The loop over the offsets: the index and the connection of the first endpoint that connects.\<close>

function next_loop ::
    "(string \<Rightarrow> string + 'c) \<Rightarrow> string list \<Rightarrow> nat \<Rightarrow> nat \<Rightarrow> (string \<times> string) list \<Rightarrow>
     (string \<times> string) list + nat \<times> 'c" where
  "next_loop factory endpoints current offset errs =
     (if offset < length endpoints then
        let idx = (current + offset) mod length endpoints; endpoint = endpoints ! idx in
        case factory endpoint of
          Inl err \<Rightarrow> next_loop factory endpoints current (Suc offset) (errs @ [(endpoint, err)])
        | Inr conn \<Rightarrow> Inr (idx, conn)
      else Inl errs)"
  by pat_completeness auto

termination next_loop
  by (relation "measure (\<lambda>(f, endpoints, current, offset, errs). length endpoints - offset)") auto

declare next_loop.simps [simp del]

definition nextConnection ::
    "(string \<Rightarrow> string + 'c) \<Rightarrow> grpcEndpointManager \<Rightarrow> (manager_error + 'c) \<times> grpcEndpointManager" where
  "nextConnection factory m =
     (case next_loop factory (gm_endpoints m) (gm_current m) 1 [] of
        Inr (idx, conn) \<Rightarrow> (Inr conn, m\<lparr>gm_current := idx\<rparr>)
      | Inl errs \<Rightarrow> (Inl (if length errs = 0 then ErrNoFallback else ErrFallbacksFailed errs), m))"

section \<open>The CometBFT RPC endpoints\<close>

record rpcEndpointManager =
  rm_endpoints :: "string list"
  rm_current :: nat

definition newRPCEndpointManagerWithFactory :: "string list \<Rightarrow> manager_error + rpcEndpointManager" where
  "newRPCEndpointManagerWithFactory endpoints =
     (if length endpoints = 0 then Inl ErrNoEndpoints
      else Inr \<lparr>rm_endpoints = endpoints, rm_current = 0\<rparr>)"

definition rm_currentEndpoint :: "rpcEndpointManager \<Rightarrow> string" where
  "rm_currentEndpoint m = rm_endpoints m ! rm_current m"

definition rm_endpointCount :: "rpcEndpointManager \<Rightarrow> nat" where
  "rm_endpointCount m = length (rm_endpoints m)"

definition rm_usingPrimary :: "rpcEndpointManager \<Rightarrow> bool" where
  "rm_usingPrimary m \<longleftrightarrow> rm_current m = 0"

definition rm_primaryEndpoint :: "rpcEndpointManager \<Rightarrow> string" where
  "rm_primaryEndpoint m = rm_endpoints m ! 0"

definition currentClient :: "(string \<Rightarrow> string + 'c) \<Rightarrow> rpcEndpointManager \<Rightarrow> string + 'c" where
  "currentClient factory m = factory (rm_currentEndpoint m)"

definition primaryClient :: "(string \<Rightarrow> string + 'c) \<Rightarrow> rpcEndpointManager \<Rightarrow> string + 'c" where
  "primaryClient factory m = factory (rm_primaryEndpoint m)"

definition rm_switchToPrimary :: "rpcEndpointManager \<Rightarrow> rpcEndpointManager" where
  "rm_switchToPrimary m = (if rm_current m = 0 then m else m\<lparr>rm_current := 0\<rparr>)"

fun all_clients_loop ::
    "(string \<Rightarrow> string + 'c) \<Rightarrow> string list \<Rightarrow> ('c \<times> string) list \<Rightarrow> (string \<times> string) list \<Rightarrow>
     ('c \<times> string) list \<times> (string \<times> string) list" where
  "all_clients_loop factory [] clients errs = (clients, errs)"
| "all_clients_loop factory (endpoint # rest) clients errs =
     (case factory endpoint of
        Inl err \<Rightarrow> all_clients_loop factory rest clients (errs @ [(endpoint, err)])
      | Inr client \<Rightarrow> all_clients_loop factory rest (clients @ [(client, endpoint)]) errs)"

definition allClients ::
    "(string \<Rightarrow> string + 'c) \<Rightarrow> rpcEndpointManager \<Rightarrow> ('c \<times> string) list \<times> (string \<times> string) list" where
  "allClients factory m = all_clients_loop factory (rm_endpoints m) [] []"

definition nextClient ::
    "(string \<Rightarrow> string + 'c) \<Rightarrow> rpcEndpointManager \<Rightarrow> (manager_error + 'c) \<times> rpcEndpointManager" where
  "nextClient factory m =
     (case next_loop factory (rm_endpoints m) (rm_current m) 1 [] of
        Inr (idx, client) \<Rightarrow> (Inr client, m\<lparr>rm_current := idx\<rparr>)
      | Inl errs \<Rightarrow> (Inl (if length errs = 0 then ErrNoFallback else ErrFallbacksFailed errs), m))"

section \<open>Errors worth another endpoint\<close>

datatype grpc_code =
    CodeOK | CodeCanceled | CodeUnknown | CodeInvalidArgument | CodeDeadlineExceeded | CodeNotFound
  | CodeAlreadyExists | CodePermissionDenied | CodeResourceExhausted | CodeFailedPrecondition
  | CodeAborted | CodeOutOfRange | CodeUnimplemented | CodeInternal | CodeUnavailable | CodeDataLoss
  | CodeUnauthenticated

record grpc_error =
  ge_code :: grpc_code
  ge_text :: string

definition shouldFallbackGRPCError :: "bool \<Rightarrow> grpc_error option \<Rightarrow> bool" where
  "shouldFallbackGRPCError ctxDone err =
     (case err of
        None \<Rightarrow> False
      | Some e \<Rightarrow>
          if ctxDone then False
          else if ge_code e \<in> {CodeUnavailable, CodeDeadlineExceeded} then True
          else if ge_code e \<in> {CodeOK, CodeCanceled, CodeInvalidArgument, CodeNotFound, CodeAlreadyExists,
              CodePermissionDenied, CodeUnauthenticated, CodeFailedPrecondition, CodeOutOfRange, CodeUnimplemented}
            then False
          else let errStr = strings_ToLower (ge_text e) in
            list_ex (strings_Contains errStr)
              [''connection refused'', ''connection reset'', ''connection closed'', ''transport is closing'',
               ''transport: error while dialing'', ''timeout'', ''deadline exceeded'', ''no such host'', ''eof'',
               ''bad gateway'', ''service unavailable'', ''gateway timeout''])"

definition shouldFallbackRPCError :: "bool \<Rightarrow> string option \<Rightarrow> bool" where
  "shouldFallbackRPCError ctxDone err =
     (case err of
        None \<Rightarrow> False
      | Some e \<Rightarrow>
          if ctxDone then False
          else let errStr = strings_ToLower e in
            if list_ex (strings_Contains errStr)
                 [''not found'', ''error code:'', ''insufficient funds'', ''account sequence mismatch''] then False
            else list_ex (strings_Contains errStr)
              [''connection refused'', ''connection reset'', ''connection closed'', ''timeout'', ''deadline exceeded'',
               ''no such host'', ''eof'', ''bad gateway'', ''service unavailable'', ''gateway timeout''])"

definition isConnectionError :: "string option \<Rightarrow> bool" where
  "isConnectionError err =
     (case err of
        None \<Rightarrow> False
      | Some errStr \<Rightarrow>
          list_ex (strings_Contains errStr)
            [''connection refused'', ''connection reset'', ''connection closed'',
             ''transport: Error while dialing'', ''Unavailable''])"

section \<open>Calls with fallback\<close>

datatype 'e call_error =
    ErrCall 'e
  | ErrCreateClient manager_error
  | ErrFailedOnEndpoints manager_error 'e
  | ErrFailedOnAllEndpoints 'e

text \<open>
  The loop of \<open>withRPCFallback\<close> and of \<open>withGRPCFallback\<close>: \<open>remaining\<close> counts down from the number of
  fallback endpoints, \<open>attempt\<close> counts up.
\<close>

fun fallback_loop ::
    "(nat \<Rightarrow> 's \<Rightarrow> (manager_error + 'c) \<times> 's) \<Rightarrow> (nat \<Rightarrow> 'c \<Rightarrow> 'e option) \<Rightarrow> (nat \<Rightarrow> 'e option \<Rightarrow> bool) \<Rightarrow>
     nat \<Rightarrow> nat \<Rightarrow> 'e \<Rightarrow> 's \<Rightarrow> 'e call_error option \<times> 's" where
  "fallback_loop next call fallback 0 attempt lastErr s = (Some (ErrFailedOnAllEndpoints lastErr), s)"
| "fallback_loop next call fallback (Suc remaining) attempt lastErr s =
     (case next attempt s of
        (Inl err, s') \<Rightarrow> (Some (ErrFailedOnEndpoints err lastErr), s')
      | (Inr client, s') \<Rightarrow>
          (case call (Suc attempt) client of
             None \<Rightarrow> (None, s')
           | Some err \<Rightarrow>
               if \<not> fallback (Suc attempt) (Some err) then (Some (ErrCall err), s')
               else fallback_loop next call fallback remaining (Suc attempt) err s'))"

record 'c rpc_state =
  rs_manager :: "rpcEndpointManager option"
  rs_client :: "'c option"

definition setRPCClient :: "'c rpc_state \<Rightarrow> 'c \<Rightarrow> 'c rpc_state" where
  "setRPCClient s client = s\<lparr>rs_client := Some client\<rparr>"

definition rpc_next ::
    "(nat \<Rightarrow> string \<Rightarrow> string + 'c) \<Rightarrow> nat \<Rightarrow> 'c rpc_state \<Rightarrow> (manager_error + 'c) \<times> 'c rpc_state" where
  "rpc_next factory attempt s =
     (case rs_manager s of
        None \<Rightarrow> (Inl ErrNoEndpoints, s)
      | Some m \<Rightarrow>
          (case nextClient (factory (Suc attempt)) m of
             (Inl err, m') \<Rightarrow> (Inl err, s\<lparr>rs_manager := Some m'\<rparr>)
           | (Inr client, m') \<Rightarrow> (Inr client, setRPCClient (s\<lparr>rs_manager := Some m'\<rparr>) client)))"

text \<open>
  \<open>cosmosClient\<close> is the client of the Cosmos context, which the code uses when there is no manager.
\<close>

definition withRPCFallback ::
    "(nat \<Rightarrow> string \<Rightarrow> string + 'c) \<Rightarrow> (nat \<Rightarrow> bool) \<Rightarrow> 'c \<Rightarrow> (nat \<Rightarrow> 'c \<Rightarrow> string option) \<Rightarrow> 'c rpc_state \<Rightarrow>
     string call_error option \<times> 'c rpc_state" where
  "withRPCFallback factory ctxDone cosmosClient call s =
     (case rs_manager s of
        None \<Rightarrow> (map_option ErrCall (call 0 cosmosClient), s)
      | Some m \<Rightarrow>
          let start = (case currentClient (factory 0) m of
                Inr client \<Rightarrow> (Inr client, s)
              | Inl _ \<Rightarrow> rpc_next factory 0 s)
          in case start of
               (Inl err, s') \<Rightarrow> (Some (ErrCreateClient err), s')
             | (Inr client, s') \<Rightarrow>
                 (case call 0 client of
                    None \<Rightarrow> (None, s')
                  | Some err \<Rightarrow>
                      if \<not> shouldFallbackRPCError (ctxDone 0) (Some err) then (Some (ErrCall err), s')
                      else fallback_loop (rpc_next factory) call (\<lambda>i. shouldFallbackRPCError (ctxDone i))
                             (rm_endpointCount m - 1) 0 err s'))"

text \<open>
  The gRPC side keeps one connection; \<open>gs_closed\<close> lists the connections it has closed. The clients
  the code rebuilds in \<open>setGRPCConnection\<close> are those of \<open>gs_conn\<close>.
\<close>

record 'c grpc_state =
  gs_manager :: "grpcEndpointManager option"
  gs_conn :: "'c option"
  gs_closed :: "'c list"

definition setGRPCConnection :: "'c grpc_state \<Rightarrow> 'c \<Rightarrow> 'c grpc_state" where
  "setGRPCConnection s conn = s\<lparr>gs_conn := Some conn\<rparr>"

definition closeGRPCConnection :: "'c grpc_state \<Rightarrow> 'c option \<Rightarrow> 'c grpc_state" where
  "closeGRPCConnection s conn =
     (case conn of None \<Rightarrow> s | Some c \<Rightarrow> s\<lparr>gs_closed := gs_closed s @ [c]\<rparr>)"

definition reconnectGRPCEndpoint ::
    "(nat \<Rightarrow> string \<Rightarrow> string + 'c) \<Rightarrow> nat \<Rightarrow> 'c grpc_state \<Rightarrow> (manager_error + 'c) \<times> 'c grpc_state" where
  "reconnectGRPCEndpoint factory attempt s =
     (case gs_manager s of
        None \<Rightarrow> (Inl ErrNoEndpoints, s)
      | Some m \<Rightarrow>
          let oldConn = gs_conn s in
          (case nextConnection (factory (Suc attempt)) m of
             (Inl err, m') \<Rightarrow> (Inl err, s\<lparr>gs_manager := Some m'\<rparr>)
           | (Inr conn, m') \<Rightarrow>
               (Inr conn, closeGRPCConnection (setGRPCConnection (s\<lparr>gs_manager := Some m'\<rparr>) conn) oldConn)))"

definition withGRPCFallback ::
    "(nat \<Rightarrow> string \<Rightarrow> string + 'c) \<Rightarrow> (nat \<Rightarrow> bool) \<Rightarrow> (nat \<Rightarrow> 'c option \<Rightarrow> grpc_error option) \<Rightarrow> 'c grpc_state \<Rightarrow>
     grpc_error call_error option \<times> 'c grpc_state" where
  "withGRPCFallback factory ctxDone call s =
     (case call 0 (gs_conn s) of
        None \<Rightarrow> (None, s)
      | Some err \<Rightarrow>
          if \<not> shouldFallbackGRPCError (ctxDone 0) (Some err) then (Some (ErrCall err), s)
          else case gs_manager s of
            None \<Rightarrow> (Some (ErrCall err), s)
          | Some m \<Rightarrow>
              fallback_loop (reconnectGRPCEndpoint factory) (\<lambda>i c. call i (Some c))
                (\<lambda>i. shouldFallbackGRPCError (ctxDone i)) (gm_endpointCount m - 1) 0 err s)"

fun connect_loop ::
    "(nat \<Rightarrow> string \<Rightarrow> string + 'c) \<Rightarrow> nat \<Rightarrow> nat \<Rightarrow> manager_error + 'c \<Rightarrow> grpcEndpointManager \<Rightarrow>
     (manager_error + 'c) \<times> grpcEndpointManager" where
  "connect_loop factory 0 attempt r m = (r, m)"
| "connect_loop factory (Suc remaining) attempt r m =
     (case nextConnection (factory (Suc attempt)) m of
        (Inr conn, m') \<Rightarrow> (Inr conn, m')
      | (Inl err, m') \<Rightarrow> connect_loop factory remaining (Suc attempt) (Inl err) m')"

definition connectInitialGRPCEndpoint ::
    "(nat \<Rightarrow> string \<Rightarrow> string + 'c) \<Rightarrow> 'c grpc_state \<Rightarrow> grpcEndpointManager \<Rightarrow> bool \<times> 'c grpc_state" where
  "connectInitialGRPCEndpoint factory s m =
     (case currentConnection (factory 0) m of
        Inr conn \<Rightarrow> (True, setGRPCConnection (s\<lparr>gs_manager := Some m\<rparr>) conn)
      | Inl err \<Rightarrow>
          (case connect_loop factory (gm_endpointCount m - 1) 0 (Inl (ErrFallbacksFailed [(gm_currentEndpoint m, err)])) m of
             (Inr conn, m') \<Rightarrow> (True, setGRPCConnection (s\<lparr>gs_manager := Some m'\<rparr>) conn)
           | (Inl _, m') \<Rightarrow> (False, s\<lparr>gs_manager := Some m'\<rparr>)))"

text \<open>
  Back to the primary endpoint: \<open>probe\<close> is the network the node at the other end reports, or an
  error. \<open>m'\<close> is the manager when the lock has been taken, after the probe.
\<close>

definition tryRestorePrimaryGRPCEndpoint ::
    "(string \<Rightarrow> string + 'c) \<Rightarrow> ('c \<Rightarrow> string + string) \<Rightarrow> string \<Rightarrow> ('c grpc_state \<Rightarrow> 'c grpc_state) \<Rightarrow>
     'c grpc_state \<Rightarrow> 'c grpc_state" where
  "tryRestorePrimaryGRPCEndpoint factory probe chainID meanwhile s =
     (case gs_manager s of
        None \<Rightarrow> s
      | Some m \<Rightarrow>
          if gm_usingPrimary m then s
          else case primaryConnection factory m of
            Inl err \<Rightarrow> s
          | Inr conn \<Rightarrow>
              let s' = meanwhile s in
              (case probe conn of
                 Inl err \<Rightarrow> closeGRPCConnection s' (Some conn)
               | Inr network \<Rightarrow>
                   if network \<noteq> chainID then closeGRPCConnection s' (Some conn)
                   else case gs_manager s' of
                     None \<Rightarrow> s'
                   | Some m' \<Rightarrow>
                       if gm_usingPrimary m' then closeGRPCConnection s' (Some conn)
                       else closeGRPCConnection
                              ((setGRPCConnection s' conn)\<lparr>gs_manager := Some (gm_switchToPrimary m')\<rparr>) (gs_conn s')))"

definition tryRestorePrimaryRPCEndpoint ::
    "(string \<Rightarrow> string + 'c) \<Rightarrow> ('c \<Rightarrow> bool) \<Rightarrow> ('c \<Rightarrow> bool) \<Rightarrow> ('c \<Rightarrow> string + string) \<Rightarrow> string \<Rightarrow> 'c rpc_state \<Rightarrow>
     'c rpc_state" where
  "tryRestorePrimaryRPCEndpoint factory isHTTP starts probe chainID s =
     (case rs_manager s of
        None \<Rightarrow> s
      | Some m \<Rightarrow>
          if rm_usingPrimary m then s
          else case primaryClient factory m of
            Inl err \<Rightarrow> s
          | Inr client \<Rightarrow>
              if \<not> isHTTP client then s
              else if \<not> starts client then s
              else case probe client of
                Inl err \<Rightarrow> s
              | Inr network \<Rightarrow>
                  if network \<noteq> chainID then s
                  else (setRPCClient s client)\<lparr>rs_manager := Some (rm_switchToPrimary m)\<rparr>)"

section \<open>The contract of a manager\<close>

lemma next_loop_first:
  assumes "Suc 0 < length endpoints" and "factory (endpoints ! (Suc current mod length endpoints)) = Inr c"
  shows "next_loop factory endpoints current (Suc 0) errs = Inr (Suc current mod length endpoints, c)"
  using assms by (subst next_loop.simps) (simp add: Let_def)

lemma next_loop_index:
  assumes "next_loop factory endpoints current offset errs = Inr (idx, c)"
  shows "idx < length endpoints" "factory (endpoints ! idx) = Inr c"
  using assms
proof (induction factory endpoints current offset errs rule: next_loop.induct)
  case (1 factory endpoints current offset errs)
  let ?idx = "(current + offset) mod length endpoints"
  {
    case 1
    then show ?case
      using "1.IH" by (subst (asm) next_loop.simps) (auto simp: Let_def split: if_splits sum.splits intro: mod_less_divisor)
  next
    case 2
    then show ?case
      using "1.IH" by (subst (asm) next_loop.simps) (auto simp: Let_def split: if_splits sum.splits)
  }
qed

text \<open>
  \<open>client i e\<close> is what the factory makes of endpoint \<open>e\<close> at attempt \<open>i\<close>. The law: if it can make a
  client of the endpoint after the current one, then that becomes the current one; and a manager
  never leaves its list of endpoints.
\<close>

locale endpoint_manager =
  fixes endpoints :: "'s \<Rightarrow> string list"
    and current :: "'s \<Rightarrow> nat"
    and advance :: "nat \<Rightarrow> 's \<Rightarrow> (manager_error + 'c) \<times> 's"
    and factory :: "nat \<Rightarrow> string \<Rightarrow> string + 'c"
  assumes next_keeps: "current s < length (endpoints s) \<Longrightarrow> advance i s = (r, s') \<Longrightarrow>
      endpoints s' = endpoints s \<and> current s' < length (endpoints s)"
    and next_connects: "1 < length (endpoints s) \<Longrightarrow>
      factory (Suc i) (endpoints s ! ((current s + 1) mod length (endpoints s))) = Inr c \<Longrightarrow>
      \<exists>s'. advance i s = (Inr c, s') \<and> endpoints s' = endpoints s \<and>
        current s' = (current s + 1) mod length (endpoints s)"
begin

lemma fallback_keeps:
  "current s < length (endpoints s) \<Longrightarrow> fallback_loop advance call fb k i e s = (r, s') \<Longrightarrow>
     endpoints s' = endpoints s \<and> current s' < length (endpoints s)"
proof (induction k arbitrary: i e s)
  case (Suc k)
  obtain x s1 where n: "advance i s = (x, s1)" by (cases "advance i s")
  note keep = next_keeps [OF Suc.prems(1) n]
  show ?case
  proof (cases x)
    case (Inl err)
    then show ?thesis using Suc.prems(2) n keep by simp
  next
    case (Inr c)
    show ?thesis
    proof (cases "\<exists>e'. call (Suc i) c = Some e' \<and> fb (Suc i) (Some e')")
      case True
      then obtain e' where "call (Suc i) c = Some e'" "fb (Suc i) (Some e')" by blast
      then have "fallback_loop advance call fb k (Suc i) e' s1 = (r, s')" using Suc.prems(2) n Inr by simp
      moreover have "current s1 < length (endpoints s1)" using keep by simp
      ultimately show ?thesis using Suc.IH [of s1 "Suc i" e'] keep by simp
    next
      case False
      then show ?thesis using Suc.prems(2) n Inr keep by (auto split: option.splits if_splits)
    qed
  qed
qed simp

text \<open>
  With clients for all endpoints the loop asks the endpoints after the current one in turn, and
  ends at the first answer that is not worth another endpoint.
\<close>

lemma fallback_spec:
  fixes call :: "nat \<Rightarrow> 'c \<Rightarrow> 'e option"
  assumes "k < length (endpoints s)"
    and "\<And>j. factory (i + j) (endpoints s ! ((current s + j) mod length (endpoints s))) = Inr (client j)"
  defines "answer \<equiv> \<lambda>j. call (i + j) (client j)"
  shows "\<exists>s'. endpoints s' = endpoints s \<and>
    (case find (\<lambda>j. answer j = None \<or> \<not> fb (i + j) (answer j)) [1..<Suc k] of
       Some j \<Rightarrow> fallback_loop advance call fb k i e s = (map_option ErrCall (answer j), s') \<and>
         current s' = (current s + j) mod length (endpoints s)
     | None \<Rightarrow> fallback_loop advance call fb k i e s =
         (Some (ErrFailedOnAllEndpoints (if k = 0 then e else the (answer k))), s'))"
  using assms(1,2) unfolding answer_def
proof (induction k arbitrary: i e s client)
  case (Suc k)
  let ?n = "length (endpoints s)"
  have "factory (Suc i) (endpoints s ! ((current s + 1) mod ?n)) = Inr (client 1)"
    using Suc.prems(2) [of 1] by simp
  from next_connects [OF _ this] Suc.prems(1) obtain s1 where s1: "advance i s = (Inr (client 1), s1)"
    "endpoints s1 = endpoints s" "current s1 = (current s + 1) mod ?n" by auto
  have shift: "(current s1 + j) mod ?n = (current s + Suc j) mod ?n" for j
    by (simp add: s1(3) mod_add_left_eq)
  have upt: "[1..<Suc (Suc k)] = 1 # map Suc [1..<Suc k]" by (simp add: upt_conv_Cons map_Suc_upt del: upt_Suc)
  have find_map: "find P (map Suc xs) = map_option Suc (find (\<lambda>x. P (Suc x)) xs)" for P xs
    by (induction xs) auto
  show ?case
  proof (cases "call (Suc i) (client 1) = None \<or> \<not> fb (Suc i) (call (Suc i) (client 1))")
    case True
    then have "find (\<lambda>j. call (i + j) (client j) = None \<or> \<not> fb (i + j) (call (i + j) (client j))) [1..<Suc (Suc k)] = Some 1"
      unfolding upt by simp
    moreover have "fallback_loop advance call fb (Suc k) i e s = (map_option ErrCall (call (Suc i) (client 1)), s1)"
      using True s1(1) by (cases "call (Suc i) (client 1)") simp_all
    ultimately show ?thesis using s1 by auto
  next
    case False
    then obtain e' where e': "call (Suc i) (client 1) = Some e'" "fb (Suc i) (Some e')" by auto
    have clients: "factory (Suc i + j) (endpoints s1 ! ((current s1 + j) mod length (endpoints s1))) = Inr (client (Suc j))" for j
      using Suc.prems(2) [of "Suc j"] by (simp add: s1(2) shift)
    have "k < length (endpoints s1)" using Suc.prems(1) s1(2) by simp
    note IH = Suc.IH [OF this clients, of e', unfolded s1(2) shift]
    let ?find = "find (\<lambda>j. call (Suc i + j) (client (Suc j)) = None \<or>
      \<not> fb (Suc i + j) (call (Suc i + j) (client (Suc j)))) [1..<Suc k]"
    have step: "fallback_loop advance call fb (Suc k) i e s = fallback_loop advance call fb k (Suc i) e' s1"
      using s1(1) e' by simp
    have find: "find (\<lambda>j. call (i + j) (client j) = None \<or> \<not> fb (i + j) (call (i + j) (client j))) [1..<Suc (Suc k)] =
        map_option Suc ?find"
      unfolding upt using False by (auto simp: find_map simp del: upt_Suc)
    show ?thesis
    proof (cases ?find)
      case None
      then show ?thesis using IH e' unfolding find step by (cases k) auto
    next
      case (Some j)
      then show ?thesis using IH unfolding find step by auto
    qed
  qed
qed auto

end

interpretation rpc: endpoint_manager
    "\<lambda>s. case rs_manager s of None \<Rightarrow> [] | Some m \<Rightarrow> rm_endpoints m"
    "\<lambda>s. case rs_manager s of None \<Rightarrow> 0 | Some m \<Rightarrow> rm_current m"
    "rpc_next factory" factory for factory
proof (unfold_locales, goal_cases)
  case (1 s i r s')
  then show ?case
    by (auto simp: rpc_next_def nextClient_def setRPCClient_def dest!: next_loop_index(1)
        split: option.splits sum.splits prod.splits)
next
  case (2 s i c)
  then obtain m where "rs_manager s = Some m" by (cases "rs_manager s") auto
  with 2 show ?case by (simp add: rpc_next_def nextClient_def setRPCClient_def next_loop_first)
qed

interpretation grpc: endpoint_manager
    "\<lambda>s. case gs_manager s of None \<Rightarrow> [] | Some m \<Rightarrow> gm_endpoints m"
    "\<lambda>s. case gs_manager s of None \<Rightarrow> 0 | Some m \<Rightarrow> gm_current m"
    "reconnectGRPCEndpoint factory" factory for factory
proof (unfold_locales, goal_cases)
  case (1 s i r s')
  then show ?case
    by (auto simp: reconnectGRPCEndpoint_def nextConnection_def setGRPCConnection_def closeGRPCConnection_def Let_def
        dest!: next_loop_index(1) split: option.splits sum.splits prod.splits)
next
  case (2 s i c)
  then obtain m where "gs_manager s = Some m" by (cases "gs_manager s") auto
  with 2 show ?case
    by (cases "gs_conn s")
      (simp_all add: reconnectGRPCEndpoint_def nextConnection_def setGRPCConnection_def closeGRPCConnection_def
        next_loop_first)
qed

lemma find_upt_0:
  assumes "0 < n"
  shows "find P [0..<n] = (if P 0 then Some 0 else find P [1..<n])"
  using assms by (simp add: upt_conv_Cons)


text \<open>The gRPC calls behave the same, from the connection that is in use.\<close>

lemma withGRPCFallback_keeps:
  assumes "gs_manager s = Some m" and "gm_current m < gm_endpointCount m"
    and "withGRPCFallback factory ctxDone call s = (r, s')"
  shows "\<exists>m'. gs_manager s' = Some m' \<and> gm_endpoints m' = gm_endpoints m \<and> gm_current m' < gm_endpointCount m'"
proof -
  let ?fb = "\<lambda>j. shouldFallbackGRPCError (ctxDone j)"
  show ?thesis
  proof (cases "\<exists>err. call 0 (gs_conn s) = Some err \<and> ?fb 0 (Some err)")
    case False
    then have "s' = s" using assms(3) by (auto simp: withGRPCFallback_def split: option.splits if_splits)
    then show ?thesis using assms(1,2) by simp
  next
    case True
    then obtain err where "fallback_loop (reconnectGRPCEndpoint factory) (\<lambda>i c. call i (Some c)) ?fb
        (gm_endpointCount m - 1) 0 err s = (r, s')"
      using assms(1,3) by (auto simp: withGRPCFallback_def)
    from grpc.fallback_keeps [OF _ this] assms(1,2) show ?thesis
      by (cases "gs_manager s'") (auto simp: gm_endpointCount_def)
  qed
qed


section \<open>Everything that happens to the gRPC connection\<close>

text \<open>
  Calls with fallback and attempts to return to the primary endpoint, in any order; while a
  primary endpoint is probed, other goroutines may do the same (\<open>meanwhile\<close>).
\<close>

inductive grpc_ops :: "'c grpc_state \<Rightarrow> 'c grpc_state \<Rightarrow> bool" where
  none: "grpc_ops s s"
| fallback: "grpc_ops s s' \<Longrightarrow> grpc_ops s (snd (withGRPCFallback factory ctxDone call s'))"
| restore: "grpc_ops s s' \<Longrightarrow> grpc_ops s' (meanwhile s') \<Longrightarrow>
    grpc_ops s (tryRestorePrimaryGRPCEndpoint factory probe chainID meanwhile s')"

definition grpc_ok :: "string list \<Rightarrow> 'c grpc_state \<Rightarrow> bool" where
  "grpc_ok eps s \<longleftrightarrow> (\<exists>m. gs_manager s = Some m \<and> gm_endpoints m = eps \<and> gm_current m < gm_endpointCount m)"

lemma grpc_ok_simps [simp]:
  "grpc_ok eps (setGRPCConnection s c) = grpc_ok eps s" "grpc_ok eps (closeGRPCConnection s x) = grpc_ok eps s"
  by (auto simp: grpc_ok_def setGRPCConnection_def closeGRPCConnection_def split: option.splits)

lemma grpc_ok_primary:
  "grpc_ok eps s \<Longrightarrow> gs_manager s = Some m \<Longrightarrow>
     grpc_ok eps ((setGRPCConnection s c)\<lparr>gs_manager := Some (gm_switchToPrimary m)\<rparr>)"
  by (auto simp: grpc_ok_def setGRPCConnection_def gm_switchToPrimary_def gm_endpointCount_def)

lemma grpc_ops_ok: "grpc_ops s s' \<Longrightarrow> grpc_ok eps s \<Longrightarrow> grpc_ok eps s'"
proof (induction rule: grpc_ops.induct)
  case (fallback s s' factory ctxDone call)
  then show ?case
    using withGRPCFallback_keeps [of s' _ factory ctxDone call] by (auto simp: grpc_ok_def) (metis prod.collapse)
next
  case (restore s s' meanwhile factory probe chainID)
  then have "grpc_ok eps s'" "grpc_ok eps (meanwhile s')" by blast+
  then show ?case
    by (auto simp: tryRestorePrimaryGRPCEndpoint_def Let_def grpc_ok_primary split: option.splits sum.splits)
qed

text \<open>
  The gRPC manager stays inside its endpoint list. Whatever calls and restorations happen, and
  whatever the nodes answer, the endpoints are those configured and the current index is one of
  theirs, so that reading the current endpoint never goes out of range.
\<close>

theorem grpc_manager_index:
  assumes "newGRPCEndpointManagerWithFactory eps = Inr m" and "gs_manager s = Some m" and "grpc_ops s s'"
  shows "\<exists>m'. gs_manager s' = Some m' \<and> gm_endpoints m' = eps \<and> gm_current m' < length (gm_endpoints m') \<and>
    gm_currentEndpoint m' \<in> set eps"
proof -
  have "grpc_ok eps s"
    using assms(1,2) by (auto simp: newGRPCEndpointManagerWithFactory_def grpc_ok_def gm_endpointCount_def split: if_splits)
  from grpc_ops_ok [OF assms(3) this] show ?thesis
    by (auto simp: grpc_ok_def gm_endpointCount_def gm_currentEndpoint_def)
qed

theorem grpc_manager_index_witness:
  "\<exists>m'. gs_manager (snd (withGRPCFallback (\<lambda>i e. if e = ''b'' then Inl ''refused'' else Inr e) (\<lambda>i. False)
        (\<lambda>i c. if c = Some ''a'' then Some \<lparr>ge_code = CodeUnavailable, ge_text = ''''\<rparr> else None)
        \<lparr>gs_manager = Some \<lparr>gm_endpoints = [''a'', ''b'', ''c''], gm_current = 0\<rparr>, gs_conn = Some ''a'', gs_closed = []\<rparr>)) = Some m' \<and>
     gm_currentEndpoint m' \<in> {''a'', ''b'', ''c''}"
proof -
  let ?m = "\<lparr>gm_endpoints = [''a'', ''b'', ''c''], gm_current = 0\<rparr>"
  let ?s = "\<lparr>gs_manager = Some ?m, gs_conn = Some ''a'', gs_closed = []\<rparr>"
  have "newGRPCEndpointManagerWithFactory [''a'', ''b'', ''c''] = Inr ?m" by code_simp
  from grpc_manager_index [OF this _ grpc_ops.fallback [OF grpc_ops.none [of ?s]],
      of "\<lambda>i e. if e = ''b'' then Inl ''refused'' else Inr e" "\<lambda>i. False"
      "\<lambda>i c. if c = Some ''a'' then Some \<lparr>ge_code = CodeUnavailable, ge_text = ''''\<rparr> else None"]
  show ?thesis by auto
qed

end
