(* ===== verification/TxHandler.thy ===== *)
theory TxHandler
  imports TokenBridge EndpointManager
begin

text \<open>
  Sending transactions: \<open>reporter/client/tx_handler.go\<close> (gas estimates, the attempts of \<open>sendTx\<close>, the
  broadcast to all endpoints, the wait for inclusion, the gas price) and the timeout timestamps of
  \<open>reporter/client/client.go\<close>.

  The chain is a parameter: a \<open>tx_env\<close> gives the answers of the node to each step of each attempt.
  Gas adjustments are rationals. A conversion of a float that does not fit into a \<open>uint64\<close>, which Go
  leaves to the implementation, is the parameter \<open>overflow\<close>.
\<close>

section \<open>Gas estimates\<close>

definition bridgeGasBucketKey :: string where "bridgeGasBucketKey = ''bridge''"
definition spotPriceGasBucketKey :: string where "spotPriceGasBucketKey = ''spot-price''"
definition defaultNonBridgeBucketConfigKey :: string where
  "defaultNonBridgeBucketConfigKey = ''default-non-bridge''"
definition outOfGasCode :: uint32 where "outOfGasCode = 11"
definition defaultMaxTxAttempts :: nat where "defaultMaxTxAttempts = 3"
definition defaultGas :: uint64 where "defaultGas = 240000"

record gasBucketState =
  gb_cachedEstimate :: uint64
  gb_hasEstimate :: bool

record gasEstimateState =
  ge_configByKey :: "(string, rat) gomap"
  ge_bucketState :: "(string, gasBucketState) gomap"

definition newGasEstimateState :: "(string, rat) gomap \<Rightarrow> gasEstimateState" where
  "newGasEstimateState configByKey = \<lparr>ge_configByKey = configByKey, ge_bucketState = []\<rparr>"

definition client_gasEstimator :: gasEstimateState where
  "client_gasEstimator =
     newGasEstimateState [(bridgeGasBucketKey, 7 / 4), (defaultNonBridgeBucketConfigKey, 3 / 2)]"

definition gasAdjustment :: "gasEstimateState \<Rightarrow> string \<Rightarrow> rat" where
  "gasAdjustment s bucket =
     (case map_of (ge_configByKey s) bucket of
        Some cfg \<Rightarrow> cfg
      | None \<Rightarrow> (case map_of (ge_configByKey s) defaultNonBridgeBucketConfigKey of Some cfg \<Rightarrow> cfg | None \<Rightarrow> 0))"

definition getOrInitBucketState :: "gasEstimateState \<Rightarrow> string \<Rightarrow> gasBucketState \<times> gasEstimateState" where
  "getOrInitBucketState s bucket =
     (case map_of (ge_bucketState s) bucket of
        Some state \<Rightarrow> (state, s)
      | None \<Rightarrow>
          let state = \<lparr>gb_cachedEstimate = 0, gb_hasEstimate = False\<rparr>
          in (state, s\<lparr>ge_bucketState := mput bucket state (ge_bucketState s)\<rparr>))"

definition getCachedEstimate :: "gasEstimateState \<Rightarrow> string \<Rightarrow> (uint64 \<times> bool) \<times> gasEstimateState" where
  "getCachedEstimate s bucket =
     (let (state, s') = getOrInitBucketState s bucket
      in ((gb_cachedEstimate state, gb_hasEstimate state), s'))"

definition put_estimate :: "gasEstimateState \<Rightarrow> string \<Rightarrow> gasBucketState \<Rightarrow> uint64 \<Rightarrow> gasEstimateState" where
  "put_estimate s bucket state gas =
     s\<lparr>ge_bucketState := mput bucket (state\<lparr>gb_cachedEstimate := gas, gb_hasEstimate := True\<rparr>) (ge_bucketState s)\<rparr>"

definition setEstimate :: "gasEstimateState \<Rightarrow> string \<Rightarrow> uint64 \<Rightarrow> gasEstimateState" where
  "setEstimate s bucket gas =
     (let (state, s') = getOrInitBucketState s bucket in put_estimate s' bucket state gas)"

text \<open>
  \<open>float64(base) * 1.5\<close>: the product of the rounded base, rounded to 53 bits; then truncated.
\<close>

definition bits_of_nat :: "nat \<Rightarrow> nat" where
  "bits_of_nat v = length (takeWhile (\<lambda>i. 2 ^ i \<le> v) [0..<128])"

definition round53 :: "nat \<Rightarrow> nat" where
  "round53 v =
     (let s = bits_of_nat v - 53; q = v div 2 ^ s; r = v mod 2 ^ s in
      if s = 0 then v
      else if 2 ^ s < 2 * r \<or> (2 ^ s = 2 * r \<and> odd q) then (q + 1) * 2 ^ s
      else q * 2 ^ s)"

definition bump_gas :: "(nat \<Rightarrow> uint64) \<Rightarrow> uint64 \<Rightarrow> uint64" where
  "bump_gas overflow base =
     (let v = round53 (3 * float64_of_uint64 base) div 2 in if v < 2 ^ 64 then of_nat v else overflow v)"

definition bumpEstimateForOutOfGas ::
    "(nat \<Rightarrow> uint64) \<Rightarrow> gasEstimateState \<Rightarrow> string \<Rightarrow> uint64 \<Rightarrow> uint64 \<times> gasEstimateState" where
  "bumpEstimateForOutOfGas overflow s bucket gasWanted =
     (let (state, s') = getOrInitBucketState s bucket;
          base = (if gasWanted = 0 then gb_cachedEstimate state else gasWanted)
      in if base = 0 then (0, s')
         else
           let newEstimate = bump_gas overflow base;
               newEstimate' = (if newEstimate \<le> base then base + 1 else newEstimate)
           in (newEstimate', put_estimate s' bucket state newEstimate'))"

definition raiseEstimateIfHigher ::
    "gasEstimateState \<Rightarrow> string \<Rightarrow> uint64 \<Rightarrow> (bool \<times> uint64) \<times> gasEstimateState" where
  "raiseEstimateIfHigher s bucket estimate =
     (let (state, s') = getOrInitBucketState s bucket; previous = gb_cachedEstimate state
      in if gb_hasEstimate state \<and> estimate \<le> gb_cachedEstimate state then ((False, previous), s')
         else ((True, previous), put_estimate s' bucket state estimate))"

definition clearAllEstimates :: "gasEstimateState \<Rightarrow> gasEstimateState" where
  "clearAllEstimates s =
     s\<lparr>ge_bucketState := map (\<lambda>(bucket, state). (bucket, state\<lparr>gb_hasEstimate := False, gb_cachedEstimate := 0\<rparr>))
         (ge_bucketState s)\<rparr>"

section \<open>Messages\<close>

definition GetQueryType :: "'x abi_ops_scheme \<Rightarrow> bytes \<Rightarrow> go_panic + string" where
  "GetQueryType A querydata =
     (case abi_Unpack A [TyString, TyBytes] querydata of
        Inl err \<Rightarrow> Inr ''''
      | Inr (VString queryType # _) \<Rightarrow> Inr queryType
      | Inr _ \<Rightarrow> Inl PanicTypeAssertion)"

text \<open>Of the messages the daemon sends, only \<open>MsgSubmitValue\<close> has query data.\<close>

definition isSpotPriceSubmitValue :: "'x abi_ops_scheme \<Rightarrow> sdk_msg \<Rightarrow> go_panic + bool" where
  "isSpotPriceSubmitValue A msg =
     (case msg of
        MsgSubmitValue _ querydata _ \<Rightarrow>
          bindE (GetQueryType A querydata) (\<lambda>t. Inr (strings_EqualFold t ''SpotPrice''))
      | _ \<Rightarrow> Inr False)"

definition reflect_TypeOf :: "sdk_msg \<Rightarrow> string" where
  "reflect_TypeOf msg =
     (case msg of
        MsgSubmitValue _ _ _ \<Rightarrow> ''*types.MsgSubmitValue''
      | MsgWithdrawTip _ _ \<Rightarrow> ''*types.MsgWithdrawTip''
      | MsgWithdrawTipToBalance _ \<Rightarrow> ''*types.MsgWithdrawTipToBalance''
      | MsgUndelegate _ _ _ \<Rightarrow> ''*types.MsgUndelegate''
      | MsgWithdrawTokens _ _ _ \<Rightarrow> ''*types.MsgWithdrawTokens'')"

definition bucketForTx :: "'x abi_ops_scheme \<Rightarrow> sdk_msg \<Rightarrow> bool \<Rightarrow> go_panic + string" where
  "bucketForTx A msg isBridge =
     (if isBridge then Inr bridgeGasBucketKey
      else bindE (isSpotPriceSubmitValue A msg)
             (\<lambda>spot. Inr (if spot then spotPriceGasBucketKey else reflect_TypeOf msg)))"

definition maxAttemptsForTx :: "'x abi_ops_scheme \<Rightarrow> sdk_msg \<Rightarrow> go_panic + nat" where
  "maxAttemptsForTx A msg =
     bindE (isSpotPriceSubmitValue A msg) (\<lambda>spot. Inr (if spot then 2 else defaultMaxTxAttempts))"

section \<open>The wait for inclusion\<close>

record tx_result =
  tr_code :: uint32
  tr_gasWanted :: uint64

datatype tx_error =
    ErrTx string
  | ErrTxNotFound nat
  | ErrWaitBlock string

text \<open>
  Round \<open>n\<close> of \<open>WaitForTx\<close>: \<open>lookup n\<close> is the answer of the first lookup, \<open>nextBlock n\<close> the error of
  the wait for a block; \<open>latest\<close>, \<open>interrupted\<close> and \<open>retry\<close> belong to the last round, which looks once
  more if the chain is exactly at the timeout height.
\<close>

record tx_waits =
  tw_lookup :: "nat \<Rightarrow> string + tx_result"
  tw_nextBlock :: "nat \<Rightarrow> string option"
  tw_latest :: "string + int"
  tw_interrupted :: bool
  tw_retry :: "string + tx_result"

definition not_found :: "string \<Rightarrow> bool" where
  "not_found err = strings_Contains err ''not found''"

function WaitForTx_loop :: "tx_waits \<Rightarrow> uint64 \<Rightarrow> nat \<Rightarrow> tx_error + tx_result" where
  "WaitForTx_loop W timeoutHeight waitedBlockCount =
     (case tw_lookup W waitedBlockCount of
        Inr resp \<Rightarrow> Inr resp
      | Inl err \<Rightarrow>
          if \<not> not_found err then Inl (ErrTx err)
          else if waitedBlockCount \<ge> 2 then
            (case tw_latest W of
               Inr latestHeight \<Rightarrow>
                 if word_of_int latestHeight = timeoutHeight then
                   if tw_interrupted W then Inl (ErrWaitBlock ''context'')
                   else (case tw_retry W of
                           Inr resp \<Rightarrow> Inr resp
                         | Inl retryErr \<Rightarrow>
                             if \<not> not_found retryErr then Inl (ErrTx retryErr)
                             else Inl (ErrTxNotFound waitedBlockCount))
                 else Inl (ErrTxNotFound waitedBlockCount)
             | Inl _ \<Rightarrow> Inl (ErrTxNotFound waitedBlockCount))
          else
            (case tw_nextBlock W waitedBlockCount of
               Some err \<Rightarrow> Inl (ErrWaitBlock err)
             | None \<Rightarrow> WaitForTx_loop W timeoutHeight (Suc waitedBlockCount)))"
  by pat_completeness auto

termination WaitForTx_loop
  by (relation "measure (\<lambda>(W, h, n). 2 - n)") auto

declare WaitForTx_loop.simps [simp del]

definition WaitForTx :: "tx_waits \<Rightarrow> uint64 \<Rightarrow> string \<Rightarrow> tx_error + tx_result" where
  "WaitForTx W timeoutHeight hash =
     (case hex_DecodeString hash of
        Inl _ \<Rightarrow> Inl (ErrTx ''decode'')
      | Inr bz \<Rightarrow> WaitForTx_loop W timeoutHeight 0)"

section \<open>One attempt\<close>

record tx_response =
  resp_Code :: uint32
  resp_RawLog :: string
  resp_TxHash :: string

definition handleBroadcastResult :: "string + tx_response \<Rightarrow> string option" where
  "handleBroadcastResult r =
     (case r of
        Inl err \<Rightarrow> Some (if strings_Contains err ''not found''
                         then ''make sure that your account has enough balance'' else err)
      | Inr resp \<Rightarrow> if resp_Code resp > 0 then Some (resp_RawLog resp) else None)"

record tx_env =
  te_block :: "nat \<Rightarrow> string + int"
  te_prepare :: "nat \<Rightarrow> string option"
  te_simulate :: "nat \<Rightarrow> rat \<Rightarrow> string + uint64"
  te_build :: "nat \<Rightarrow> string option"
  te_sign :: "nat \<Rightarrow> string option"
  te_encode :: "nat \<Rightarrow> string option"
  te_broadcast :: "nat \<Rightarrow> uint64 \<Rightarrow> string + tx_response"
  te_waits :: "nat \<Rightarrow> tx_waits"

definition txTimeoutHeightOffset :: uint64 where "txTimeoutHeightOffset = 2"

definition EstimateGas ::
    "tx_env \<Rightarrow> nat \<Rightarrow> string \<Rightarrow> gasEstimateState \<Rightarrow> (string + uint64) \<times> gasEstimateState" where
  "EstimateGas E attempt bucket s =
     (case getCachedEstimate s bucket of
        ((gasEstimate, True), s') \<Rightarrow> (Inr gasEstimate, s')
      | ((_, False), s') \<Rightarrow>
          (case te_simulate E attempt (gasAdjustment s' bucket) of
             Inl err \<Rightarrow> (Inl err, s')
           | Inr gasEstimate \<Rightarrow> (Inr gasEstimate, setEstimate s' bucket gasEstimate)))"

definition option_error :: "string option \<Rightarrow> tx_error + unit" where
  "option_error e = (case e of None \<Rightarrow> Inr () | Some err \<Rightarrow> Inl (ErrTx err))"

definition sendTxOnce ::
    "tx_env \<Rightarrow> nat \<Rightarrow> string \<Rightarrow> gasEstimateState \<Rightarrow> (tx_error + tx_result) \<times> gasEstimateState" where
  "sendTxOnce E attempt bucket s =
     (case te_block E attempt of
        Inl err \<Rightarrow> (Inl (ErrTx err), s)
      | Inr broadcastHeight \<Rightarrow>
          let timeoutHeight = word_of_int broadcastHeight + txTimeoutHeightOffset in
          (case te_prepare E attempt of
             Some err \<Rightarrow> (Inl (ErrTx err), s)
           | None \<Rightarrow>
               (case EstimateGas E attempt bucket s of
                  (r, s') \<Rightarrow>
                    let gas = (case r of Inr gasEstimate \<Rightarrow> gasEstimate | Inl _ \<Rightarrow> defaultGas) in
                    (bindE (option_error (te_build E attempt)) (\<lambda>_.
                     bindE (option_error (te_sign E attempt)) (\<lambda>_.
                     bindE (option_error (te_encode E attempt)) (\<lambda>_.
                       let res = te_broadcast E attempt gas in
                       bindE (option_error (handleBroadcastResult res)) (\<lambda>_.
                         case res of
                           Inl _ \<Rightarrow> Inl (ErrTx '''')
                         | Inr resp \<Rightarrow> WaitForTx (te_waits E attempt) timeoutHeight (resp_TxHash resp))))),
                     s'))))"

section \<open>All attempts\<close>

text \<open>
  \<open>refresh attempt\<close> is the estimate the goroutine of \<open>refreshGasEstimateAsync\<close> of that attempt brings,
  or an error; it is applied before the next attempt.
\<close>

definition refreshGasEstimateAsync :: "string + uint64 \<Rightarrow> string \<Rightarrow> gasEstimateState \<Rightarrow> gasEstimateState" where
  "refreshGasEstimateAsync r bucket s =
     (case r of Inl err \<Rightarrow> s | Inr gasEstimate \<Rightarrow> snd (raiseEstimateIfHigher s bucket gasEstimate))"

fun sendTx_loop ::
    "(nat \<Rightarrow> uint64) \<Rightarrow> tx_env \<Rightarrow> (nat \<Rightarrow> string + uint64) \<Rightarrow> string \<Rightarrow> nat \<Rightarrow> nat \<Rightarrow> tx_result option \<Rightarrow>
     gasEstimateState \<Rightarrow> (tx_error + tx_result option) \<times> bool \<times> gasEstimateState" where
  "sendTx_loop overflow E refresh bucket 0 attempt lastResp s = (Inr lastResp, False, s)"
| "sendTx_loop overflow E refresh bucket (Suc remaining) attempt lastResp s =
     (case sendTxOnce E attempt bucket s of
        (Inl err, s') \<Rightarrow> (Inl err, False, s')
      | (Inr resp, s') \<Rightarrow>
          if tr_code resp = 0 then (Inr (Some resp), True, s')
          else if tr_code resp \<noteq> outOfGasCode then (Inr (Some resp), False, s')
          else
            let (newEstimate, s'') = bumpEstimateForOutOfGas overflow s' bucket (tr_gasWanted resp)
            in sendTx_loop overflow E refresh bucket remaining (Suc attempt) (Some resp)
                 (refreshGasEstimateAsync (refresh attempt) bucket s''))"

text \<open>
  \<open>sendTx\<close> for a single message: what it returns, the committed query ids and the gas estimates.
\<close>

definition sendTx ::
    "(nat \<Rightarrow> uint64) \<Rightarrow> 'x abi_ops_scheme \<Rightarrow> tx_env \<Rightarrow> (nat \<Rightarrow> string + uint64) \<Rightarrow> uint64 \<Rightarrow> bool \<Rightarrow> sdk_msg \<Rightarrow>
     uint64 set \<Rightarrow> gasEstimateState \<Rightarrow>
     go_panic + (tx_error + tx_result option) \<times> uint64 set \<times> gasEstimateState" where
  "sendTx overflow A E refresh queryMetaId isBridge msg commitedIds s =
     bindE (bucketForTx A msg isBridge) (\<lambda>bucket.
     bindE (maxAttemptsForTx A msg) (\<lambda>maxAttempts.
       let (r, txSuccess, s') = sendTx_loop overflow E refresh bucket maxAttempts 1 None s
       in Inr (r, if \<not> txSuccess \<and> queryMetaId \<noteq> 0 then commitedIds - {queryMetaId} else commitedIds, s')))"

section \<open>Broadcasting to all endpoints\<close>

definition isAlreadyBroadcastErr :: "string \<Rightarrow> bool" where
  "isAlreadyBroadcastErr err =
     (let s = strings_ToLower err in
      strings_Contains s ''tx already exists in cache'' \<or> strings_Contains s ''already in mempool'' \<or>
      strings_Contains s ''tx already exists'')"

definition isAlreadyBroadcastCode :: "tx_response \<Rightarrow> bool" where
  "isAlreadyBroadcastCode resp = isAlreadyBroadcastErr (resp_RawLog resp)"

datatype broadcast_error =
    ErrNoUsableEndpoints
  | ErrBroadcastFailed string
  | ErrNoAcceptingResponse

text \<open>The results of the endpoints in the order in which they arrive.\<close>

fun broadcast_loop :: "(string + tx_response) list \<Rightarrow> string option \<Rightarrow> broadcast_error + tx_response" where
  "broadcast_loop [] lastErr =
     Inl (case lastErr of Some err \<Rightarrow> ErrBroadcastFailed err | None \<Rightarrow> ErrNoAcceptingResponse)"
| "broadcast_loop (r # rest) lastErr =
     (case r of
        Inl err \<Rightarrow>
          if isAlreadyBroadcastErr err then broadcast_loop rest lastErr
          else broadcast_loop rest (Some err)
      | Inr resp \<Rightarrow>
          if resp_Code resp = 0 \<or> isAlreadyBroadcastCode resp then Inr resp
          else broadcast_loop rest (Some (resp_RawLog resp)))"

definition broadcastTxToAllEndpoints :: "(string + tx_response) list \<Rightarrow> broadcast_error + tx_response" where
  "broadcastTxToAllEndpoints results =
     (if length results = 0 then Inl ErrNoUsableEndpoints else broadcast_loop results None)"

section \<open>Gas price\<close>

record dec_coin =
  coin_Denom :: string
  coin_Amount :: rat

definition pick_loya :: "dec_coin list \<Rightarrow> dec_coin" where
  "pick_loya coins =
     fold (\<lambda>coin acc. if coin_Denom coin = ''loya'' \<and> coin_Amount coin > 0 then coin else acc) coins
       \<lparr>coin_Denom = ''loya'', coin_Amount = 0\<rparr>"

definition gasprice :: "dec_coin list \<Rightarrow> dec_coin list \<Rightarrow> dec_coin" where
  "gasprice local global =
     \<lparr>coin_Denom = ''loya'', coin_Amount = max (coin_Amount (pick_loya local)) (coin_Amount (pick_loya global))\<rparr>"

definition SetGasPrice :: "dec_coin list \<Rightarrow> dec_coin list \<Rightarrow> dec_coin option" where
  "SetGasPrice minimumGasPrices localPrice =
     (let p = gasprice minimumGasPrices localPrice in if coin_Amount p = 0 then None else Some p)"

section \<open>Timeouts of unordered transactions\<close>

text \<open>
  \<open>GetUniqueUnorderedTimeout\<close> takes a number from an atomic counter and then reads the clock. The
  conversion of the number to a duration keeps its bits.
\<close>

definition next_nonce :: "uint64 \<Rightarrow> uint64 \<times> uint64" where
  "next_nonce counter = (counter + 1, counter + 1)"

definition unordered_timeout :: "duration \<Rightarrow> uint64 \<Rightarrow> gotime \<Rightarrow> gotime" where
  "unordered_timeout unorderedTxTimeout nonce now = time_Add (time_Add now unorderedTxTimeout) (sint nonce)"

section \<open>Gas grows after running out of gas\<close>

lemma bits_of_nat_le: "v < 2 ^ k \<Longrightarrow> k < 128 \<Longrightarrow> bits_of_nat v \<le> k"
proof (rule ccontr)
  assume v: "v < 2 ^ k" "k < 128" and "\<not> bits_of_nat v \<le> k"
  then have k: "k < length (takeWhile (\<lambda>i. 2 ^ i \<le> v) [0..<128])" by (simp add: bits_of_nat_def)
  then have "takeWhile (\<lambda>i. 2 ^ i \<le> v) [0..<128] ! k = k" using v(2) by (simp add: takeWhile_nth)
  then have "2 ^ k \<le> v" using nth_mem [OF k] by (auto dest: set_takeWhileD)
  with v(1) show False by simp
qed

lemma round53_exact: "v < 2 ^ 53 \<Longrightarrow> round53 v = v"
  using bits_of_nat_le [of v 53] by (simp add: round53_def Let_def)

lemma unat_less_pow: "uint (w :: uint64) < 2 ^ k \<Longrightarrow> unat w < 2 ^ k"
  unfolding uint_nat by (metis of_nat_less_numeral_power_cancel_iff)

lemma unat_gt_1: "1 < uint (w :: uint64) \<Longrightarrow> 1 < unat w"
  unfolding uint_nat by linarith

lemma float64_small: "uint w < 2 ^ 53 \<Longrightarrow> float64_of_uint64 w = unat w"
proof -
  assume w: "uint w < 2 ^ 53"
  have "2 ^ 53 * \<bar>int (float64_of_uint64 w) - uint w\<bar> < 2 ^ 53 * 1"
    using w by (intro le_less_trans [OF float64_near]) simp
  then have "\<bar>int (float64_of_uint64 w) - uint w\<bar> < 1" by simp
  then show ?thesis unfolding uint_nat by linarith
qed

lemma bump_gas_exact:
  assumes "uint base < 2 ^ 51"
  shows "bump_gas overflow base = of_nat (3 * unat base div 2)"
proof -
  have n: "unat base < 2 ^ 51" using assms by (rule unat_less_pow)
  have "float64_of_uint64 base = unat base" using assms by (intro float64_small) simp
  moreover have "round53 (3 * unat base) = 3 * unat base" using n by (intro round53_exact) simp
  moreover have "3 * unat base div 2 < 2 ^ 64" using n by simp
  ultimately show ?thesis by (simp add: bump_gas_def Let_def)
qed

text \<open>
  Out of gas. After an out-of-gas answer the cached estimate of the bucket is strictly larger
  than the gas the failed transaction asked for, whatever the floating-point product yields; for
  amounts of gas below \<open>2 ^ 51\<close> it is one and a half times that gas, rounded down.
\<close>

theorem bumpEstimate_increases:
  assumes "gas \<noteq> 0" and "gas \<noteq> - 1"
  shows "\<exists>new s'. bumpEstimateForOutOfGas overflow s bucket gas = (new, s') \<and> new > gas \<and>
    fst (getCachedEstimate s' bucket) = (new, True) \<and>
    (1 < uint gas \<and> uint gas < 2 ^ 51 \<longrightarrow> unat new = 3 * unat gas div 2)"
proof -
  let ?b = "bump_gas overflow gas"
  let ?new = "if ?b \<le> gas then gas + 1 else ?b"
  have gt: "gas < ?new"
  proof (cases "?b \<le> gas")
    case True
    have "uint gas \<noteq> 2 ^ 64 - 1"
    proof
      assume "uint gas = 2 ^ 64 - 1"
      then have "gas = word_of_int (2 ^ 64 - 1)" by (metis word_of_int_uint)
      then show False using assms(2) by simp
    qed
    then have "gas < gas + 1" using uint_bounded [of gas] by (intro word_less_def [THEN iffD2]) (simp add: uint_plus_if')
    then show ?thesis using True by simp
  qed simp
  have exact: "unat ?new = 3 * unat gas div 2" if g: "1 < uint gas" "uint gas < 2 ^ 51"
  proof -
    note n = unat_gt_1 [OF g(1)] unat_less_pow [OF g(2)]
    have b: "?b = of_nat (3 * unat gas div 2)" using g(2) by (rule bump_gas_exact)
    have "unat ?b = 3 * unat gas div 2" unfolding b using n(2) by (simp add: unat_of_nat take_bit_nat_eq_self)
    moreover have "unat gas < 3 * unat gas div 2" using n(1) by simp
    ultimately show ?thesis by (auto simp: word_le_nat_alt)
  qed
  obtain state s' where st: "getOrInitBucketState s bucket = (state, s')" by (cases "getOrInitBucketState s bucket")
  have "bumpEstimateForOutOfGas overflow s bucket gas = (?new, put_estimate s' bucket state ?new)"
    using assms(1) st by (simp add: bumpEstimateForOutOfGas_def Let_def)
  moreover have "fst (getCachedEstimate (put_estimate s' bucket state ?new) bucket) = (?new, True)"
    by (simp add: getCachedEstimate_def getOrInitBucketState_def put_estimate_def)
  ultimately show ?thesis using gt exact by blast
qed

theorem bumpEstimate_increases_witness:
  "\<exists>new s'. bumpEstimateForOutOfGas (\<lambda>_. 0) client_gasEstimator ''bridge'' 240000 = (new, s') \<and> unat new = 360000"
proof -
  have "(240000 :: uint64) \<noteq> 0" "(240000 :: uint64) \<noteq> - 1" "1 < uint (240000 :: uint64)" "uint (240000 :: uint64) < 2 ^ 51"
    "3 * unat (240000 :: uint64) div 2 = 360000" by simp_all
  then show ?thesis using bumpEstimate_increases [of 240000 "\<lambda>_. 0" client_gasEstimator "''bridge''"] by auto
qed

section \<open>The attempts of a transaction\<close>

lemma sendTx_loop_success:
  assumes "sendTx_loop overflow E refresh bucket n attempt lastResp s = (r, ok, s')"
    and "\<And>resp. lastResp = Some resp \<Longrightarrow> tr_code resp \<noteq> 0"
  shows "(ok \<longleftrightarrow> (\<exists>resp. r = Inr (Some resp) \<and> tr_code resp = 0)) \<and>
    (r = Inr None \<longrightarrow> n = 0 \<and> lastResp = None)"
  using assms
proof (induction n arbitrary: attempt lastResp s)
  case 0
  then show ?case by auto
next
  case (Suc n)
  obtain res s1 where once: "sendTxOnce E attempt bucket s = (res, s1)" by (cases "sendTxOnce E attempt bucket s")
  show ?case
  proof (cases "\<exists>resp. res = Inr resp \<and> tr_code resp = outOfGasCode")
    case False
    then show ?thesis using Suc.prems(1) once by (cases res) (auto split: if_splits)
  next
    case True
    then obtain resp where resp: "res = Inr resp" "tr_code resp = outOfGasCode" by blast
    have nz: "tr_code resp \<noteq> 0" using resp(2) by (simp add: outOfGasCode_def)
    obtain new s2 where bump: "bumpEstimateForOutOfGas overflow s1 bucket (tr_gasWanted resp) = (new, s2)"
      by (cases "bumpEstimateForOutOfGas overflow s1 bucket (tr_gasWanted resp)")
    have "sendTx_loop overflow E refresh bucket n (Suc attempt) (Some resp)
        (refreshGasEstimateAsync (refresh attempt) bucket s2) = (r, ok, s')"
      using Suc.prems(1) once resp nz bump by simp
    from Suc.IH [OF this] nz show ?thesis by simp
  qed
qed

lemma GetQueryType_no_panic:
  assumes "abi_laws A"
  shows "\<exists>t. GetQueryType A b = Inr t"
proof (cases "abi_Unpack A [TyString, TyBytes] b")
  case (Inr vs)
  then have "list_all2 has_abi_type vs [TyString, TyBytes]" using assms unfolding abi_laws_def by blast
  then obtain x y where vs: "vs = [x, y]" "has_abi_type x TyString" by (auto simp: list_all2_Cons2)
  then show ?thesis using Inr by (cases x) (simp_all add: GetQueryType_def)
qed (simp add: GetQueryType_def)

lemma attempts_no_panic:
  assumes "abi_laws A"
  shows "\<exists>b. bucketForTx A msg isBridge = Inr b" "\<exists>n > 0. maxAttemptsForTx A msg = Inr n"
proof -
  obtain spot where "isSpotPriceSubmitValue A msg = Inr spot"
    using GetQueryType_no_panic [OF assms] by (cases msg) (auto simp: isSpotPriceSubmitValue_def, metis bindE.simps(2))
  then show "\<exists>b. bucketForTx A msg isBridge = Inr b" "\<exists>n > 0. maxAttemptsForTx A msg = Inr n"
    by (simp_all add: bucketForTx_def maxAttemptsForTx_def defaultMaxTxAttempts_def)
qed

text \<open>
  C19: a report can be tried again unless it succeeded. \<open>sendTx\<close> never panics and never returns a nil
  response without an error; the query it reports for stays marked as committed exactly if the
  transaction went through with code 0, and is cleared after every error, rejection or exhausted
  retry, while the marks of other queries are left alone.
\<close>

theorem sendTx_commits:
  assumes "abi_laws A"
  shows "\<exists>r ids s'. sendTx overflow A E refresh queryMetaId isBridge msg commitedIds s = Inr (r, ids, s') \<and>
    r \<noteq> Inr None \<and>
    (queryMetaId \<noteq> 0 \<longrightarrow>
       (queryMetaId \<in> ids \<longleftrightarrow> queryMetaId \<in> commitedIds \<and> (\<exists>resp. r = Inr (Some resp) \<and> tr_code resp = 0))) \<and>
    (\<forall>q. q \<noteq> queryMetaId \<longrightarrow> (q \<in> ids \<longleftrightarrow> q \<in> commitedIds))"
proof -
  from attempts_no_panic [OF assms] obtain bucket n where
    bn: "bucketForTx A msg isBridge = Inr bucket" "maxAttemptsForTx A msg = Inr n" "n > 0" by blast
  obtain r ok s' where loop: "sendTx_loop overflow E refresh bucket n 1 None s = (r, ok, s')"
    by (cases "sendTx_loop overflow E refresh bucket n 1 None s") auto
  from sendTx_loop_success [OF this] have
    "ok \<longleftrightarrow> (\<exists>resp. r = Inr (Some resp) \<and> tr_code resp = 0)" "r \<noteq> Inr None" using bn(3) by auto
  then show ?thesis using bn(1,2) loop by (auto simp: sendTx_def Let_def)
qed

definition demo_env :: "uint32 \<Rightarrow> tx_env" where
  "demo_env code = \<lparr>te_block = (\<lambda>_. Inr 100), te_prepare = (\<lambda>_. None), te_simulate = (\<lambda>_ _. Inr 200000),
     te_build = (\<lambda>_. None), te_sign = (\<lambda>_. None), te_encode = (\<lambda>_. None),
     te_broadcast = (\<lambda>_ gas. Inr \<lparr>resp_Code = 0, resp_RawLog = '''', resp_TxHash = ''ab''\<rparr>),
     te_waits = (\<lambda>attempt. \<lparr>tw_lookup = (\<lambda>_. Inr \<lparr>tr_code = (if attempt = 1 then code else 0), tr_gasWanted = 200000\<rparr>),
        tw_nextBlock = (\<lambda>_. None), tw_latest = Inl '''', tw_interrupted = False, tw_retry = Inl ''''\<rparr>)\<rparr>"

theorem sendTx_commits_witness:
  "\<exists>r ids s'. sendTx (\<lambda>_. 0) demo_abi (demo_env 5) (\<lambda>_. Inl ''x'') 7 False (MsgWithdrawTipToBalance ''m'') {7, 8} client_gasEstimator = Inr (r, ids, s') \<and>
     7 \<notin> ids \<and> 8 \<in> ids"
proof -
  have "map_sum id (\<lambda>x. fst x) (sendTx (\<lambda>_. 0) demo_abi (demo_env 5) (\<lambda>_. Inl ''x'') 7 False (MsgWithdrawTipToBalance ''m'') {7, 8} client_gasEstimator) =
      Inr (Inr (Some \<lparr>tr_code = 5, tr_gasWanted = 200000\<rparr>))" by code_simp
  then show ?thesis
    using sendTx_commits [OF demo_abi_laws, of "\<lambda>_. 0" "demo_env 5" "\<lambda>_. Inl ''x''" 7 False "MsgWithdrawTipToBalance ''m''" "{7, 8}" client_gasEstimator]
    by auto
qed

section \<open>Broadcast\<close>

definition accepts :: "tx_response \<Rightarrow> bool" where
  "accepts resp \<longleftrightarrow> resp_Code resp = 0 \<or> isAlreadyBroadcastCode resp"

lemma broadcast_loop_spec:
  "(\<exists>resp. broadcast_loop results e = Inr resp) \<longleftrightarrow> (\<exists>resp. Inr resp \<in> set results \<and> accepts resp)"
  "broadcast_loop results e = Inr resp \<Longrightarrow> Inr resp \<in> set results \<and> accepts resp"
  by (induction results e rule: broadcast_loop.induct) (auto simp: accepts_def split: sum.splits if_splits)

lemma broadcast_loop_known:
  "\<forall>r \<in> set results. \<exists>err. r = Inl err \<and> isAlreadyBroadcastErr err \<Longrightarrow>
     broadcast_loop results None = Inl ErrNoAcceptingResponse"
  by (induction results) auto

text \<open>
  Broadcast to all endpoints. The broadcast succeeds exactly if some endpoint accepts the
  transaction, in whatever order the answers arrive, and then returns an accepting answer. But if
  all endpoints answer with the error that they know the transaction already, the broadcast fails,
  although such an answer is meant to count as success.
\<close>

theorem broadcast_all_endpoints:
  "((\<exists>resp. broadcastTxToAllEndpoints results = Inr resp) \<longleftrightarrow> (\<exists>resp. Inr resp \<in> set results \<and> accepts resp)) \<and>
   (\<forall>resp. broadcastTxToAllEndpoints results = Inr resp \<longrightarrow> Inr resp \<in> set results \<and> accepts resp) \<and>
   (mset results' = mset results \<longrightarrow>
      (\<exists>resp. broadcastTxToAllEndpoints results' = Inr resp) = (\<exists>resp. broadcastTxToAllEndpoints results = Inr resp)) \<and>
   (results \<noteq> [] \<and> (\<forall>r \<in> set results. \<exists>err. r = Inl err \<and> isAlreadyBroadcastErr err) \<longrightarrow>
      broadcastTxToAllEndpoints results = Inl ErrNoAcceptingResponse)"
proof -
  have iff: "(\<exists>resp. broadcastTxToAllEndpoints rs = Inr resp) \<longleftrightarrow> (\<exists>resp. Inr resp \<in> set rs \<and> accepts resp)" for rs
    using broadcast_loop_spec(1) [of rs None] by (cases rs) (auto simp: broadcastTxToAllEndpoints_def)
  moreover have "Inr resp \<in> set results \<and> accepts resp" if "broadcastTxToAllEndpoints results = Inr resp" for resp
    using that broadcast_loop_spec(2) [of results None resp] by (simp add: broadcastTxToAllEndpoints_def split: if_splits)
  moreover have "(\<exists>resp. broadcastTxToAllEndpoints results' = Inr resp) = (\<exists>resp. broadcastTxToAllEndpoints results = Inr resp)"
    if "mset results' = mset results"
    unfolding iff using mset_eq_setD [OF that] by simp
  moreover have "broadcastTxToAllEndpoints results = Inl ErrNoAcceptingResponse"
    if "results \<noteq> []" "\<forall>r \<in> set results. \<exists>err. r = Inl err \<and> isAlreadyBroadcastErr err"
    using that broadcast_loop_known [OF that(2)] by (simp add: broadcastTxToAllEndpoints_def)
  ultimately show ?thesis by simp
qed

theorem broadcast_all_endpoints_witness:
  "broadcastTxToAllEndpoints [Inl ''tx already exists in cache''] = Inl ErrNoAcceptingResponse"
proof -
  have "isAlreadyBroadcastErr ''tx already exists in cache''" by code_simp
  then show ?thesis using broadcast_all_endpoints [of "[Inl ''tx already exists in cache'']" "[]"] by simp
qed

text \<open>
  Timeout timestamps. Successive calls get strictly later timestamps, so they are unique while
  the clock does not go backwards; but a call that takes its number first and reads the clock one
  nanosecond after the next call gets the timestamp of that call.
\<close>

theorem unordered_timeout_unique:
  "(sint nonce < sint nonce' \<and> now \<le> now' \<longrightarrow> unordered_timeout d nonce now < unordered_timeout d nonce' now') \<and>
   (sint nonce' = sint nonce + 1 \<and> now = now' + 1 \<longrightarrow> unordered_timeout d nonce now = unordered_timeout d nonce' now')"
  by (simp add: unordered_timeout_def time_Add_def)

theorem unordered_timeout_unique_witness:
  "unordered_timeout 30 1 101 = unordered_timeout 30 (snd (next_nonce 1)) 100"
proof -
  have "sint (snd (next_nonce 1)) = sint (1 :: uint64) + 1" by code_simp
  then show ?thesis using unordered_timeout_unique [of 1 "snd (next_nonce 1)" 101 100 30] by simp
qed

end
