(* ===== verification/Reporter.thy ===== *)
theory Reporter
  imports TxHandler ServerPrices Floats
begin

text \<open>
  Reporting prices: the price guard (\<open>reporter/client/price_guard.go\<close>), the value of a query
  (\<open>reporter/client/median.go\<close>), \<open>GenerateAndBroadcastSpotPriceReport\<close> of
  \<open>reporter/client/broadcast_message.go\<close> and the round of the cycle list monitor
  (\<open>reporter/client/reporter_monitors.go\<close>).

  The hash that turns query data into a query id, the custom queries and the ABI codec are
  parameters. Prices are floats made from \<open>uint64\<close> values: rational numbers rounded to 53 bits after
  every operation; their exponents stay far inside the range of \<open>float64\<close>.
\<close>

section \<open>Floating-point operations\<close>

definition float_sub :: "rat \<Rightarrow> rat \<Rightarrow> rat" where "float_sub x y = float_round (x - y)"
definition float_div :: "rat \<Rightarrow> rat \<Rightarrow> rat" where "float_div x y = float_round (x / y)"

section \<open>The price guard\<close>

record PriceGuard =
  pg_lastPrices :: "(string, rat) gomap"
  pg_lastUpdateTime :: "(string, gotime) gomap"
  pg_globalThreshold :: rat
  pg_queryThresholds :: "(string, rat) gomap"
  pg_maxAge :: duration
  pg_enabled :: bool
  pg_updateOnBlocked :: bool

definition NewPriceGuard :: "rat \<Rightarrow> duration \<Rightarrow> bool \<Rightarrow> bool \<Rightarrow> PriceGuard" where
  "NewPriceGuard globalThreshold maxAge enabled updateOnBlocked =
     \<lparr>pg_lastPrices = [], pg_lastUpdateTime = [], pg_globalThreshold = globalThreshold, pg_queryThresholds = [],
      pg_maxAge = maxAge, pg_enabled = enabled, pg_updateOnBlocked = updateOnBlocked\<rparr>"

definition guard_threshold :: "PriceGuard \<Rightarrow> string \<Rightarrow> rat" where
  "guard_threshold pg queryIdHex =
     (case map_of (pg_queryThresholds pg) queryIdHex of Some t \<Rightarrow> t | None \<Rightarrow> pg_globalThreshold pg)"

definition price_change :: "rat \<Rightarrow> rat \<Rightarrow> rat" where
  "price_change lastPrice newPrice = float_div \<bar>float_sub newPrice lastPrice\<bar> lastPrice"

definition ShouldSubmit :: "(bytes \<Rightarrow> bytes) \<Rightarrow> gotime \<Rightarrow> PriceGuard \<Rightarrow> bytes \<Rightarrow> rat \<Rightarrow> bool" where
  "ShouldSubmit queryId now pg queryData newPrice =
     (if \<not> pg_enabled pg then True
      else
        let queryIdHex = hex_EncodeToString (queryId queryData) in
        case map_of (pg_lastPrices pg) queryIdHex of
          None \<Rightarrow> True
        | Some lastPrice \<Rightarrow>
            if (case map_of (pg_lastUpdateTime pg) queryIdHex of
                  Some lastTime \<Rightarrow> pg_maxAge pg > 0 \<and> time_Sub now lastTime > pg_maxAge pg
                | None \<Rightarrow> False) then True
            else if lastPrice = 0 then True
            else \<not> price_change lastPrice newPrice > guard_threshold pg queryIdHex)"

definition UpdateLastPrice :: "(bytes \<Rightarrow> bytes) \<Rightarrow> gotime \<Rightarrow> PriceGuard \<Rightarrow> bytes \<Rightarrow> rat \<Rightarrow> PriceGuard" where
  "UpdateLastPrice queryId now pg queryData price =
     (if \<not> pg_enabled pg then pg
      else let queryIdHex = hex_EncodeToString (queryId queryData) in
        pg\<lparr>pg_lastPrices := mput queryIdHex price (pg_lastPrices pg),
           pg_lastUpdateTime := mput queryIdHex now (pg_lastUpdateTime pg)\<rparr>)"

section \<open>The value of a query\<close>

datatype report_error =
    ErrNoMedian
  | ErrEncode
  | ErrNoConfig
  | ErrFetchPrice
  | ErrBlocked string
  | ErrNotQueued

text \<open>
  \<open>custom\<close> gives the outcome of the custom query of a query id: \<open>None\<close> if there is no configuration
  for it, otherwise an error or the encoded value.
\<close>

definition median ::
    "(int \<Rightarrow> 'e + bytes) \<Rightarrow> (bytes \<Rightarrow> bytes) \<Rightarrow> (string \<Rightarrow> (unit + string) option) \<Rightarrow> gotime \<Rightarrow>
     MarketToExchangePrices \<Rightarrow> MarketParam list \<Rightarrow> bytes \<Rightarrow> go_panic + report_error + string \<times> rat" where
  "median pack queryId custom now mte marketParams querydata =
     (let querydatastr = hex_EncodeToString querydata in
      case find (\<lambda>marketParam. strings_EqualFold (mp_QueryData marketParam) querydatastr) marketParams of
        Some marketParam \<Rightarrow>
          (case map_of (GetValidMedianPrices mte [marketParam] now) (mp_Id marketParam) of
             None \<Rightarrow> Inr (Inl ErrNoMedian)
           | Some val \<Rightarrow>
               (case EncodePrice pack (float64_of_uint64 val) (mp_Exponent marketParam) of
                  Inl p \<Rightarrow> Inl p
                | Inr (Inl err) \<Rightarrow> Inr (Inl ErrEncode)
                | Inr (Inr value) \<Rightarrow> Inr (Inr (value, of_nat (float64_of_uint64 val)))))
      | None \<Rightarrow>
          (case custom (hex_EncodeToString (queryId querydata)) of
             None \<Rightarrow> Inr (Inl ErrNoConfig)
           | Some (Inl _) \<Rightarrow> Inr (Inl ErrFetchPrice)
           | Some (Inr value) \<Rightarrow> Inr (Inr (value, 0))))"

section \<open>A report\<close>

record reporter_state =
  rep_guard :: PriceGuard
  rep_commitedIds :: "uint64 set"
  rep_bridge :: reporter_bridge

text \<open>
  What follows the median in \<open>GenerateAndBroadcastSpotPriceReport\<close>; the error for a blocked report
  names the pair of the market.
\<close>

definition report_price ::
    "(bytes \<Rightarrow> bytes) \<Rightarrow> gotime \<Rightarrow> bool \<Rightarrow> string \<Rightarrow> MarketParam list \<Rightarrow> reporter_state \<Rightarrow> bytes \<Rightarrow> uint64 \<Rightarrow>
     string \<Rightarrow> rat \<Rightarrow> report_error option \<times> reporter_state" where
  "report_price queryId now ctxDone accAddr marketParams c qd metaId encodedValue rawPrice =
     (let guarded = pg_enabled (rep_guard c) \<and> rawPrice > 0;
          shouldSubmit = (guarded \<longrightarrow> ShouldSubmit queryId now (rep_guard c) qd rawPrice);
          onBlocked = pg_updateOnBlocked (rep_guard c);
          c1 = (if guarded \<and> (shouldSubmit \<or> onBlocked)
                then c\<lparr>rep_guard := UpdateLastPrice queryId now (rep_guard c) qd rawPrice\<rparr> else c)
      in if \<not> shouldSubmit then
           (Some (ErrBlocked (case find (\<lambda>marketParam. mp_QueryData marketParam = hex_EncodeToString qd) marketParams of
                                Some marketParam \<Rightarrow> mp_Pair marketParam | None \<Rightarrow> '''')),
            if onBlocked then c1\<lparr>rep_commitedIds := insert metaId (rep_commitedIds c1)\<rparr> else c1)
         else
           (case trySend ctxDone (rep_bridge c1)
                   \<lparr>tci_Msg = MsgSubmitValue accAddr qd encodedValue, tci_isBridge = False, tci_NumRetries = 0,
                    tci_QueryMetaId = metaId\<rparr> of
              (False, b) \<Rightarrow> (Some ErrNotQueued, c1\<lparr>rep_bridge := b\<rparr>)
            | (True, b) \<Rightarrow> (None, c1\<lparr>rep_bridge := b, rep_commitedIds := insert metaId (rep_commitedIds c1)\<rparr>)))"

definition GenerateAndBroadcastSpotPriceReport ::
    "(int \<Rightarrow> 'e + bytes) \<Rightarrow> (bytes \<Rightarrow> bytes) \<Rightarrow> (string \<Rightarrow> (unit + string) option) \<Rightarrow> gotime \<Rightarrow> bool \<Rightarrow> string \<Rightarrow>
     MarketToExchangePrices \<Rightarrow> MarketParam list \<Rightarrow> reporter_state \<Rightarrow> bytes \<Rightarrow> uint64 \<Rightarrow>
     go_panic + report_error option \<times> reporter_state" where
  "GenerateAndBroadcastSpotPriceReport pack queryId custom now ctxDone accAddr mte marketParams c qd metaId =
     bindE (median pack queryId custom now mte marketParams qd)
       (\<lambda>r. case r of
          Inl err \<Rightarrow> Inr (Some err, c)
        | Inr (encodedValue, rawPrice) \<Rightarrow>
            Inr (report_price queryId now ctxDone accAddr marketParams c qd metaId encodedValue rawPrice))"

text \<open>
  One round of the cycle list monitor (\<open>checkCycle\<close>): \<open>query\<close> is the current query of the chain, if it
  could be read. A report is generated unless the query is the previous one or is committed.
\<close>

definition checkCycle ::
    "(bytes \<Rightarrow> uint64 \<Rightarrow> reporter_state \<Rightarrow> go_panic + report_error option \<times> reporter_state) \<Rightarrow>
     (bytes \<times> uint64) option \<Rightarrow> bytes \<times> reporter_state \<Rightarrow> go_panic + bytes \<times> reporter_state" where
  "checkCycle report query st =
     (case (query, st) of
        (None, _) \<Rightarrow> Inr st
      | (Some (querydata, metaId), (prevQueryData, c)) \<Rightarrow>
          if querydata = prevQueryData \<or> metaId \<in> rep_commitedIds c then Inr st
          else bindE (report querydata metaId c) (\<lambda>(err, c'). Inr (querydata, c')))"

section \<open>Rounding errors\<close>

text \<open>The computed relative change is the exact one up to three units in the last place.\<close>

lemma price_change_near:
  assumes "0 < old"
  shows "2 ^ 53 * \<bar>price_change old new - \<bar>new - old\<bar> / old\<bar> \<le> 3 * (\<bar>new - old\<bar> / old)"
proof -
  define d where "d = \<bar>float_round (new - old)\<bar>"
  define e where "e = \<bar>new - old\<bar>"
  have d: "2 ^ 53 * \<bar>d - e\<bar> \<le> e"
  proof -
    have "\<bar>d - e\<bar> \<le> \<bar>float_round (new - old) - (new - old)\<bar>" by (simp add: d_def e_def abs_triangle_ineq3)
    then show ?thesis using float_round_near [of "new - old"] by (simp add: e_def)
  qed
  have "price_change old new = float_round (d / old)" by (simp add: price_change_def float_div_def float_sub_def d_def)
  then have c: "2 ^ 53 * \<bar>price_change old new - d / old\<bar> \<le> d / old"
    using float_round_near [of "d / old"] assms by (simp add: d_def)
  have dl: "2 ^ 53 * \<bar>d / old - e / old\<bar> \<le> e / old"
    using d assms by (simp add: field_simps flip: diff_divide_distrib)
  have near: "x \<le> 2 * y" if "2 ^ 53 * \<bar>x - y\<bar> \<le> y" for x y :: rat using that by (simp add: abs_if split: if_splits)
  have "2 ^ 53 * \<bar>price_change old new - e / old\<bar> \<le>
      2 ^ 53 * \<bar>price_change old new - d / old\<bar> + 2 ^ 53 * \<bar>d / old - e / old\<bar>"
    using abs_triangle_ineq [of "price_change old new - d / old" "d / old - e / old"] by simp
  also have "\<dots> \<le> 3 * (e / old)" using c dl near [OF dl] by simp
  finally have "2 ^ 53 * \<bar>price_change old new - e / old\<bar> \<le> 3 * (e / old)" .
  then show ?thesis by (simp add: e_def)
qed

lemma near_lower:
  fixes x y :: rat
  assumes "2 ^ 53 * \<bar>x - y\<bar> \<le> 3 * y"
  shows "(1 - 3 / 2 ^ 53) * y \<le> x"
proof -
  have "2 ^ 53 * (y - x) \<le> 2 ^ 53 * \<bar>x - y\<bar>" by (intro mult_left_mono) (simp_all add: abs_ge_minus_self minus_le_iff)
  then have "2 ^ 53 * (y - x) \<le> 3 * y" using assms by (rule order_trans)
  then show ?thesis by (simp add: left_diff_distrib)
qed

section \<open>What the guard guarantees\<close>

text \<open>
  A sequence of reports: the time, whether the queueing is interrupted, the query data and its id,
  and the value and raw price of each.
\<close>

type_synonym report_event = "gotime \<times> bool \<times> bytes \<times> uint64 \<times> string \<times> rat"

definition report_one ::
    "(bytes \<Rightarrow> bytes) \<Rightarrow> string \<Rightarrow> MarketParam list \<Rightarrow> reporter_state \<Rightarrow> report_event \<Rightarrow>
     report_error option \<times> reporter_state" where
  "report_one queryId accAddr mps c e =
     (case e of (now, ctxDone, qd, metaId, value, price) \<Rightarrow>
        report_price queryId now ctxDone accAddr mps c qd metaId value price)"

definition report_events ::
    "(bytes \<Rightarrow> bytes) \<Rightarrow> string \<Rightarrow> MarketParam list \<Rightarrow> report_event list \<Rightarrow> reporter_state \<Rightarrow> reporter_state" where
  "report_events queryId accAddr mps es c = foldl (\<lambda>c e. snd (report_one queryId accAddr mps c e)) c es"

definition is_blocked :: "report_error option \<Rightarrow> bool" where
  "is_blocked r \<longleftrightarrow> (\<exists>pair. r = Some (ErrBlocked pair))"

definition query_key :: "(bytes \<Rightarrow> bytes) \<Rightarrow> bytes \<Rightarrow> string" where
  "query_key queryId qd = hex_EncodeToString (queryId qd)"

definition guard_on :: "reporter_state \<Rightarrow> bool" where
  "guard_on c \<longleftrightarrow> pg_enabled (rep_guard c)"

lemma report_price_blocked:
  assumes "guard_on c" and "0 < price"
  shows "is_blocked (fst (report_price queryId now ctxDone accAddr mps c qd metaId value price)) \<longleftrightarrow>
    \<not> ShouldSubmit queryId now (rep_guard c) qd price"
  using assms by (auto simp: report_price_def is_blocked_def guard_on_def Let_def split: prod.splits bool.splits)

lemma report_price_guard:
  "rep_guard (snd (report_price queryId now ctxDone accAddr mps c qd metaId value price)) =
     (if pg_enabled (rep_guard c) \<and> 0 < price \<and>
         (ShouldSubmit queryId now (rep_guard c) qd price \<or> pg_updateOnBlocked (rep_guard c))
      then UpdateLastPrice queryId now (rep_guard c) qd price else rep_guard c)"
  by (auto simp: report_price_def Let_def split: prod.splits bool.splits)

text \<open>The settings of a guard do not change.\<close>

definition same_settings :: "PriceGuard \<Rightarrow> PriceGuard \<Rightarrow> bool" where
  "same_settings pg pg' \<longleftrightarrow> pg_enabled pg' = pg_enabled pg \<and> pg_updateOnBlocked pg' = pg_updateOnBlocked pg \<and>
     pg_maxAge pg' = pg_maxAge pg \<and> pg_globalThreshold pg' = pg_globalThreshold pg \<and>
     pg_queryThresholds pg' = pg_queryThresholds pg"

lemma report_price_settings:
  "same_settings (rep_guard c) (rep_guard (snd (report_price queryId now ctxDone accAddr mps c qd metaId value price)))"
  by (simp add: report_price_guard same_settings_def UpdateLastPrice_def Let_def)

lemma guard_threshold_settings: "same_settings pg pg' \<Longrightarrow> guard_threshold pg' q = guard_threshold pg q"
  by (cases "map_of (pg_queryThresholds pg) q") (simp_all add: same_settings_def guard_threshold_def)

text \<open>A report that is not blocked sets the baseline of its query.\<close>

definition baseline :: "reporter_state \<Rightarrow> string \<Rightarrow> rat option \<times> gotime option" where
  "baseline c q = (map_of (pg_lastPrices (rep_guard c)) q, map_of (pg_lastUpdateTime (rep_guard c)) q)"

lemma baseline_set:
  assumes "guard_on c" and "0 < price" and "ShouldSubmit queryId now (rep_guard c) qd price"
  shows "baseline (snd (report_price queryId now ctxDone accAddr mps c qd metaId value price)) (query_key queryId qd) =
    (Some price, Some now)"
  using assms by (simp add: baseline_def report_price_guard UpdateLastPrice_def guard_on_def query_key_def Let_def)

text \<open>Reports of other queries, and blocked ones if the guard does not learn from them, keep it.\<close>

definition keeps_baseline ::
    "(bytes \<Rightarrow> bytes) \<Rightarrow> string \<Rightarrow> MarketParam list \<Rightarrow> string \<Rightarrow> reporter_state \<Rightarrow> report_event \<Rightarrow> bool" where
  "keeps_baseline queryId accAddr mps q c e \<longleftrightarrow>
     (case e of (now, ctxDone, qd, metaId, value, price) \<Rightarrow>
        query_key queryId qd \<noteq> q \<or> is_blocked (fst (report_one queryId accAddr mps c e)))"

fun keep_all ::
    "(bytes \<Rightarrow> bytes) \<Rightarrow> string \<Rightarrow> MarketParam list \<Rightarrow> string \<Rightarrow> reporter_state \<Rightarrow> report_event list \<Rightarrow> bool" where
  "keep_all queryId accAddr mps q c [] = True"
| "keep_all queryId accAddr mps q c (e # es) =
     (keeps_baseline queryId accAddr mps q c e \<and>
      keep_all queryId accAddr mps q (snd (report_one queryId accAddr mps c e)) es)"

lemma report_price_not_guarded:
  "\<not> (pg_enabled (rep_guard c) \<and> 0 < price) \<Longrightarrow>
     \<not> is_blocked (fst (report_price queryId now ctxDone accAddr mps c qd metaId value price))"
  by (auto simp: report_price_def is_blocked_def Let_def split: prod.splits bool.splits)

lemma baseline_keep:
  assumes "keeps_baseline queryId accAddr mps q c e" and "\<not> pg_updateOnBlocked (rep_guard c)"
  shows "baseline (snd (report_one queryId accAddr mps c e)) q = baseline c q"
proof -
  obtain now ctxDone qd metaId "value" price where e: "e = (now, ctxDone, qd, metaId, value, price)" by (cases e)
  show ?thesis
  proof (cases "query_key queryId qd = q")
    case False
    then show ?thesis
      by (auto simp: e report_one_def baseline_def report_price_guard UpdateLastPrice_def query_key_def Let_def)
  next
    case True
    then have "is_blocked (fst (report_price queryId now ctxDone accAddr mps c qd metaId value price))"
      using assms(1) by (simp add: keeps_baseline_def e report_one_def)
    moreover from this have "pg_enabled (rep_guard c) \<and> 0 < price" using report_price_not_guarded by blast
    ultimately have "\<not> ShouldSubmit queryId now (rep_guard c) qd price"
      using report_price_blocked [of c price queryId now ctxDone accAddr mps qd metaId "value"] by (simp add: guard_on_def)
    then show ?thesis using assms(2) by (simp add: e report_one_def baseline_def report_price_guard)
  qed
qed

lemma keep_all_baseline:
  assumes "keep_all queryId accAddr mps q c es" and "\<not> pg_updateOnBlocked (rep_guard c)"
  shows "baseline (report_events queryId accAddr mps es c) q = baseline c q \<and>
    same_settings (rep_guard c) (rep_guard (report_events queryId accAddr mps es c))"
  using assms
proof (induction es arbitrary: c)
  case Nil
  then show ?case by (simp add: report_events_def same_settings_def)
next
  case (Cons e es)
  let ?c = "snd (report_one queryId accAddr mps c e)"
  have set: "same_settings (rep_guard c) (rep_guard ?c)"
    by (cases e) (simp add: report_one_def report_price_settings)
  have "baseline (report_events queryId accAddr mps es ?c) q = baseline ?c q \<and>
      same_settings (rep_guard ?c) (rep_guard (report_events queryId accAddr mps es ?c))"
    using Cons.prems set by (intro Cons.IH) (simp_all add: same_settings_def)
  moreover have "baseline ?c q = baseline c q" using Cons.prems by (intro baseline_keep) simp_all
  ultimately show ?case using set by (simp add: report_events_def same_settings_def)
qed


text \<open>
  A guard that learns from blocked reports delays a jump by one report only: the same price is
  accepted when it is reported again.
\<close>

theorem price_guard_blocks_once:
  assumes "guard_on c" and "pg_updateOnBlocked (rep_guard c)" and "0 < price"
    and "0 \<le> guard_threshold (rep_guard c) (query_key queryId qd)"
    and "report_price queryId t1 d1 accAddr mps c qd m1 v1 price = (r1, c1)"
  shows "\<not> is_blocked (fst (report_price queryId t2 d2 accAddr mps c1 qd m2 v2 price))"
proof -
  have guard: "rep_guard c1 = UpdateLastPrice queryId t1 (rep_guard c) qd price"
    using assms(1-3) report_price_guard [of queryId t1 d1 accAddr mps c qd m1 v1 price]
    by (simp add: assms(5) guard_on_def)
  have "price_change price price = 0" by (simp add: price_change_def float_sub_def float_div_def)
  moreover have "guard_threshold (rep_guard c1) (query_key queryId qd) = guard_threshold (rep_guard c) (query_key queryId qd)"
    by (intro guard_threshold_settings) (simp add: guard same_settings_def UpdateLastPrice_def Let_def)
  moreover have "map_of (pg_lastPrices (rep_guard c1)) (query_key queryId qd) = Some price"
    using assms(1) by (simp add: guard UpdateLastPrice_def guard_on_def query_key_def Let_def)
  ultimately have "ShouldSubmit queryId t2 (rep_guard c1) qd price"
    using assms(3,4) by (simp add: ShouldSubmit_def query_key_def Let_def)
  moreover have "guard_on c1" using assms(1) by (simp add: guard guard_on_def UpdateLastPrice_def Let_def)
  ultimately show ?thesis using report_price_blocked [of c1 price] assms(3) by blast
qed

text \<open>
  A failed cycle list report is not repeated. Whatever made the report of a query fail, the
  monitor remembers the query data, and its next rounds for the same query do nothing, although a
  failed transaction clears the committed mark so that the query could be reported again.
\<close>

theorem failed_report_not_retried:
  assumes "report querydata metaId c = Inr (Some err, c')" and "querydata \<noteq> prevQueryData"
    and "metaId \<notin> rep_commitedIds c"
  shows "\<exists>st. checkCycle report (Some (querydata, metaId)) (prevQueryData, c) = Inr st \<and>
    checkCycle report (Some (querydata, metaId')) st = Inr st"
  using assms by (simp add: checkCycle_def)

section \<open>A concrete guard\<close>

definition demo_reporter :: "bool \<Rightarrow> reporter_state" where
  "demo_reporter onBlocked = \<lparr>rep_guard = NewPriceGuard (1 / 10) 1000 True onBlocked, rep_commitedIds = {},
     rep_bridge = demo_bridge\<rparr>"


theorem price_guard_blocks_once_witness:
  "\<not> is_blocked (fst (report_price (\<lambda>b. b) 3 False ''t'' []
      (snd (report_price (\<lambda>b. b) 2 False ''t'' [] (demo_reporter True) [7] 2 ''v'' 200)) [7] 3 ''v'' 200))"
  by (rule price_guard_blocks_once [of "demo_reporter True" _ "\<lambda>b. b" _ 2 False "''t''" "[]" 2 "''v''"
        "fst (report_price (\<lambda>b. b) 2 False ''t'' [] (demo_reporter True) [7] 2 ''v'' 200)"])
    (simp_all add: guard_on_def demo_reporter_def NewPriceGuard_def guard_threshold_def)

theorem failed_report_not_retried_witness:
  "\<exists>st. checkCycle (\<lambda>qd m c. Inr (Some ErrNoMedian, c)) (Some ([7], 5)) ([], demo_reporter True) = Inr st \<and>
     checkCycle (\<lambda>qd m c. Inr (Some ErrNoMedian, c)) (Some ([7], 6)) st = Inr st"
  by (rule failed_report_not_retried) (simp_all add: demo_reporter_def)

end
