(* ===== verification/Monitors.thy ===== *)
theory Monitors
  imports Reporter QueryConfig
begin

text \<open>
  The monitors of the reporter (\<open>reporter/client/reporter_monitors.go\<close>, \<open>reporter/client/current_query.go\<close>): the
  subscription to new blocks, the monitors of the cycle list and of tipped queries, the withdrawal of rewards, the
  unbonding of stake and the bridging of the balance of the wallet.

  A round of a monitor is a function of what the chain answers in it; a run is a list of events. A report that runs into
  its timeout goes on in the background: its effects are those of a later round. The block events that are
  dropped while a round runs are those that are not in the list. Addresses in bech32 and decimals of the Cosmos SDK are
  parameters.
\<close>

section \<open>Addresses of validators\<close>

record bech32_ops =
  b32_Decode :: "string \<Rightarrow> (string \<times> bytes) option"
  b32_Encode :: "string \<Rightarrow> bytes \<Rightarrow> string option"

definition toValidatorOperator :: "bech32_ops \<Rightarrow> string \<Rightarrow> string" where
  "toValidatorOperator B walletAddr =
     (if walletAddr = [] then []
      else case b32_Decode B walletAddr of
        None \<Rightarrow> []
      | Some (hrp, addrBytes) \<Rightarrow>
          (case b32_Encode B ''tellorvaloper'' addrBytes of None \<Rightarrow> [] | Some valoperAddr \<Rightarrow> valoperAddr))"

definition reportersValidatorAddressEnv :: string where
  "reportersValidatorAddressEnv = ''REPORTERS_VALIDATOR_ADDRESS''"

datatype valaddr_error = VNotBech32 | VPrefix string | VNotDerived

definition validatorOperatorAddress ::
    "bech32_ops \<Rightarrow> (string \<Rightarrow> string) \<Rightarrow> string \<Rightarrow> valaddr_error + string \<times> string" where
  "validatorOperatorAddress B getenv reporterAddr =
     (let configuredAddr = strings_TrimSpace (getenv reportersValidatorAddressEnv) in
      if configuredAddr \<noteq> [] then
        (case b32_Decode B configuredAddr of
           None \<Rightarrow> Inl VNotBech32
         | Some (hrp, addrBytes) \<Rightarrow>
             if hrp \<noteq> ''tellorvaloper'' then Inl (VPrefix hrp)
             else Inr (configuredAddr, reportersValidatorAddressEnv))
      else
        let valAddr = toValidatorOperator B reporterAddr in
        if valAddr = [] then Inl VNotDerived else Inr (valAddr, ''derived''))"

section \<open>The subscription to new blocks\<close>

text \<open>\<open>sub i client\<close> is the error of the subscription at the \<open>i\<close>-th endpoint that is tried, if any.\<close>

fun subscribe_loop ::
    "(nat \<Rightarrow> string \<Rightarrow> string + 'c) \<Rightarrow> (nat \<Rightarrow> 'c \<Rightarrow> string option) \<Rightarrow> nat \<Rightarrow> nat \<Rightarrow> rpcEndpointManager \<Rightarrow> 'c rpc_state \<Rightarrow>
     'c option \<times> 'c rpc_state" where
  "subscribe_loop factory sub 0 attempt m s = (None, s\<lparr>rs_manager := Some m\<rparr>)"
| "subscribe_loop factory sub (Suc remaining) attempt m s =
     (case nextClient (factory (Suc attempt)) m of
        (Inl err, m') \<Rightarrow> (None, s\<lparr>rs_manager := Some m'\<rparr>)
      | (Inr client, m') \<Rightarrow>
          (case sub (Suc attempt) client of
             None \<Rightarrow> (Some client, setRPCClient (s\<lparr>rs_manager := Some m'\<rparr>) client)
           | Some err \<Rightarrow> subscribe_loop factory sub remaining (Suc attempt) m' s))"

definition subscribeNewBlocks ::
    "(nat \<Rightarrow> string \<Rightarrow> string + 'c) \<Rightarrow> (nat \<Rightarrow> 'c \<Rightarrow> string option) \<Rightarrow> 'c rpc_state \<Rightarrow> 'c option \<times> 'c rpc_state" where
  "subscribeNewBlocks factory sub s =
     (case rs_manager s of
        None \<Rightarrow>
          (case rs_client s of
             None \<Rightarrow> (None, s)
           | Some client \<Rightarrow> (if sub 0 client = None then Some client else None, s))
      | Some m \<Rightarrow>
          (case currentClient (factory 0) m of
             Inr client \<Rightarrow>
               if sub 0 client = None then (Some client, setRPCClient s client)
               else subscribe_loop factory sub (rm_endpointCount m - 1) 0 m s
           | Inl err \<Rightarrow> subscribe_loop factory sub (rm_endpointCount m - 1) 0 m s))"

section \<open>The cycle list\<close>

definition defaultRetryDelay :: duration where "defaultRetryDelay = 200 * 10 ^ 6"
definition maxRetryDelay :: duration where "maxRetryDelay = 30 * 10 ^ 9"

definition backoff :: "duration \<Rightarrow> duration" where
  "backoff retryDelay = (if retryDelay * 2 > maxRetryDelay then maxRetryDelay else retryDelay * 2)"

record QueryMeta =
  qm_Id :: uint64
  qm_QueryData :: bytes
  qm_Expiration :: uint64

datatype current_query_error = QLookup string | QParse string

text \<open>\<open>parse\<close> turns the hexadecimal text of the answer into bytes.\<close>

definition CurrentQuery ::
    "(string \<Rightarrow> string + bytes) \<Rightarrow> string + string \<times> QueryMeta option \<Rightarrow>
     current_query_error + bytes \<times> QueryMeta option" where
  "CurrentQuery parse response =
     (case response of
        Inl err \<Rightarrow> Inl (QLookup err)
      | Inr (queryData, meta) \<Rightarrow>
          (case parse queryData of Inl err \<Rightarrow> Inl (QParse err) | Inr querydata \<Rightarrow> Inr (querydata, meta)))"

text \<open>What the monitor goes on with: not with an error, and not without the meta data.\<close>

definition usable_query :: "current_query_error + bytes \<times> QueryMeta option \<Rightarrow> (bytes \<times> uint64) option" where
  "usable_query q = (case q of Inr (querydata, Some querymeta) \<Rightarrow> Some (querydata, qm_Id querymeta) | _ \<Rightarrow> None)"

datatype monitor_mode = EventDriven | Polling | Ended

record 'c cycle_monitor =
  cm_mode :: monitor_mode
  cm_prevQueryData :: bytes
  cm_retryDelay :: duration
  cm_rpc :: "'c rpc_state"

text \<open>The polling of the cycle list starts with no previous query.\<close>

definition start_polling :: "'c cycle_monitor \<Rightarrow> 'c cycle_monitor" where
  "start_polling m = m\<lparr>cm_mode := Polling, cm_prevQueryData := [], cm_retryDelay := defaultRetryDelay\<rparr>"

definition resubscribe ::
    "(nat \<Rightarrow> string \<Rightarrow> string + 'c) \<Rightarrow> (nat \<Rightarrow> 'c \<Rightarrow> string option) \<Rightarrow> 'c cycle_monitor \<Rightarrow> 'c cycle_monitor" where
  "resubscribe factory sub m =
     (case subscribeNewBlocks factory sub (cm_rpc m) of
        (None, s) \<Rightarrow> start_polling (m\<lparr>cm_rpc := s\<rparr>)
      | (Some client, s) \<Rightarrow> m\<lparr>cm_rpc := s\<rparr>)"

definition MonitorCyclelistQuery ::
    "(nat \<Rightarrow> string \<Rightarrow> string + 'c) \<Rightarrow> (nat \<Rightarrow> 'c \<Rightarrow> string option) \<Rightarrow> 'c rpc_state \<Rightarrow> 'c cycle_monitor" where
  "MonitorCyclelistQuery factory sub s =
     resubscribe factory sub
       \<lparr>cm_mode = EventDriven, cm_prevQueryData = [], cm_retryDelay = defaultRetryDelay, cm_rpc = s\<rparr>"

text \<open>What a monitor waits for: a block, the fallback timer, the tick of the polling, the end of the channel or the context.\<close>

datatype ('env, 'c) cycle_event =
    NewBlock 'env "current_query_error + bytes \<times> QueryMeta option"
  | FallbackTimer 'env "current_query_error + bytes \<times> QueryMeta option"
  | PollTick 'env "current_query_error + bytes \<times> QueryMeta option"
  | BlocksClosed "nat \<Rightarrow> string \<Rightarrow> string + 'c" "nat \<Rightarrow> 'c \<Rightarrow> string option"
  | CycleContextDone

type_synonym 'env report_fn =
  "'env \<Rightarrow> bytes \<Rightarrow> uint64 \<Rightarrow> reporter_state \<Rightarrow> go_panic + report_error option \<times> reporter_state"

definition cycle_round ::
    "'env report_fn \<Rightarrow> 'env \<Rightarrow> (bytes \<times> uint64) option \<Rightarrow> 'c cycle_monitor \<times> reporter_state \<Rightarrow>
     go_panic + 'c cycle_monitor \<times> reporter_state" where
  "cycle_round report env query st =
     (case st of (m, c) \<Rightarrow>
        bindE (checkCycle (report env) query (cm_prevQueryData m, c))
          (\<lambda>(prev, c'). Inr (m\<lparr>cm_prevQueryData := prev\<rparr>, c')))"

text \<open>One tick of \<open>monitorCyclelistQueryPolling\<close>.\<close>

definition poll_round ::
    "'env report_fn \<Rightarrow> 'env \<Rightarrow> (bytes \<times> uint64) option \<Rightarrow> 'c cycle_monitor \<times> reporter_state \<Rightarrow>
     go_panic + 'c cycle_monitor \<times> reporter_state" where
  "poll_round report env query st =
     (case st of (m, c) \<Rightarrow>
        if query = None then Inr (m\<lparr>cm_retryDelay := backoff (cm_retryDelay m)\<rparr>, c)
        else cycle_round report env query (m\<lparr>cm_retryDelay := defaultRetryDelay\<rparr>, c))"

definition cycle_step ::
    "'env report_fn \<Rightarrow> ('env, 'c) cycle_event \<Rightarrow> 'c cycle_monitor \<times> reporter_state \<Rightarrow>
     go_panic + 'c cycle_monitor \<times> reporter_state" where
  "cycle_step report ev st =
     (case (cm_mode (fst st), ev) of
        (Ended, _) \<Rightarrow> Inr st
      | (_, CycleContextDone) \<Rightarrow> Inr ((fst st)\<lparr>cm_mode := Ended\<rparr>, snd st)
      | (EventDriven, NewBlock env q) \<Rightarrow> cycle_round report env (usable_query q) st
      | (EventDriven, FallbackTimer env q) \<Rightarrow> cycle_round report env (usable_query q) st
      | (EventDriven, BlocksClosed factory sub) \<Rightarrow> Inr (resubscribe factory sub (fst st), snd st)
      | (Polling, PollTick env q) \<Rightarrow> poll_round report env (usable_query q) st
      | _ \<Rightarrow> Inr st)"

section \<open>Tipped queries\<close>

text \<open>The cache of the tips, which the token bridge client reads, and the identifiers of those that were put there.\<close>

record tipped_monitor =
  tm_Tips :: DepositTips
  tm_depositTipMap :: "uint64 set"
  tm_retryDelay :: duration

definition tipped_query ::
    "'x abi_ops_scheme \<Rightarrow> (bytes \<Rightarrow> uint64 \<Rightarrow> reporter_state \<Rightarrow> go_panic + report_error option \<times> reporter_state) \<Rightarrow>
     uint64 \<Rightarrow> QueryMeta \<Rightarrow> tipped_monitor \<times> reporter_state \<Rightarrow> go_panic + tipped_monitor \<times> reporter_state" where
  "tipped_query A report height query st =
     (case st of (t, c) \<Rightarrow>
      bindE (GetQueryType A (qm_QueryData query)) (\<lambda>queryType.
        if height > qm_Expiration query \<or> qm_Id query \<in> rep_commitedIds c \<or>
           \<not> strings_EqualFold queryType ''SpotPrice'' \<and> \<not> strings_EqualFold queryType ''TRBBridgeV2'' then Inr (t, c)
        else if strings_EqualFold queryType ''TRBBridgeV2'' then
          (if qm_Id query \<in> tm_depositTipMap t then Inr (t, c)
           else Inr (t\<lparr>tm_Tips := AddTip (tm_Tips t) \<lparr>qd_QueryData = qm_QueryData query\<rparr>,
                       tm_depositTipMap := insert (qm_Id query) (tm_depositTipMap t)\<rparr>, c))
        else bindE (report (qm_QueryData query) (qm_Id query) c) (\<lambda>(err, c'). Inr (t, c'))))"

fun tipped_queries ::
    "'x abi_ops_scheme \<Rightarrow> (bytes \<Rightarrow> uint64 \<Rightarrow> reporter_state \<Rightarrow> go_panic + report_error option \<times> reporter_state) \<Rightarrow>
     uint64 \<Rightarrow> QueryMeta list \<Rightarrow> tipped_monitor \<times> reporter_state \<Rightarrow> go_panic + tipped_monitor \<times> reporter_state" where
  "tipped_queries A report height [] st = Inr st"
| "tipped_queries A report height (query # queries) st =
     bindE (tipped_query A report height query st) (tipped_queries A report height queries)"

text \<open>
  One tick: \<open>response\<close> is the answer of the chain (\<open>None\<close> for a nil one), \<open>status\<close> the height of the latest block, which
  is signed. The delay goes back to the default only after an answer with queries.
\<close>

definition MonitorForTippedQueries ::
    "'x abi_ops_scheme \<Rightarrow> 'env report_fn \<Rightarrow> 'env \<Rightarrow> string + QueryMeta list option \<Rightarrow> string + int \<Rightarrow>
     tipped_monitor \<times> reporter_state \<Rightarrow> go_panic + tipped_monitor \<times> reporter_state" where
  "MonitorForTippedQueries A report env response status st =
     (case st of (t, c) \<Rightarrow>
        case response of
          Inl err \<Rightarrow> Inr (t\<lparr>tm_retryDelay := backoff (tm_retryDelay t)\<rparr>, c)
        | Inr None \<Rightarrow> Inr (t, c)
        | Inr (Some queries) \<Rightarrow>
            if queries = [] then Inr (t, c)
            else
              let t' = t\<lparr>tm_retryDelay := defaultRetryDelay\<rparr> in
              case status of
                Inl err \<Rightarrow> Inr (t', c)
              | Inr latestBlockHeight \<Rightarrow>
                  tipped_queries A (report env) (word_of_int latestBlockHeight) queries (t', c))"

section \<open>The two monitors together\<close>

text \<open>
  The cycle list and the tipped queries share the committed identifiers; a transaction that fails takes the mark of its
  query away again (\<open>sendTx\<close>).
\<close>

record 'c monitors =
  mo_cycle :: "'c cycle_monitor"
  mo_tipped :: tipped_monitor
  mo_reporter :: reporter_state

datatype ('env, 'c) monitor_event =
    CycleEvent "('env, 'c) cycle_event"
  | TippedTick 'env "string + QueryMeta list option" "string + int"
  | TxFailed uint64

definition monitors_step ::
    "'x abi_ops_scheme \<Rightarrow> 'env report_fn \<Rightarrow> ('env, 'c) monitor_event \<Rightarrow> 'c monitors \<Rightarrow> go_panic + 'c monitors" where
  "monitors_step A report ev s =
     (case ev of
        CycleEvent cev \<Rightarrow>
          bindE (cycle_step report cev (mo_cycle s, mo_reporter s))
            (\<lambda>(m, c). Inr (s\<lparr>mo_cycle := m, mo_reporter := c\<rparr>))
      | TippedTick env response status \<Rightarrow>
          bindE (MonitorForTippedQueries A report env response status (mo_tipped s, mo_reporter s))
            (\<lambda>(t, c). Inr (s\<lparr>mo_tipped := t, mo_reporter := c\<rparr>))
      | TxFailed i \<Rightarrow>
          Inr (if i = 0 then s
               else s\<lparr>mo_reporter := (mo_reporter s)\<lparr>rep_commitedIds := rep_commitedIds (mo_reporter s) - {i}\<rparr>\<rparr>))"

fun monitors_run ::
    "'x abi_ops_scheme \<Rightarrow> 'env report_fn \<Rightarrow> ('env, 'c) monitor_event list \<Rightarrow> 'c monitors \<Rightarrow> go_panic + 'c monitors" where
  "monitors_run A report [] s = Inr s"
| "monitors_run A report (ev # evs) s = bindE (monitors_step A report ev s) (monitors_run A report evs)"

section \<open>A query is reported once\<close>

text \<open>The messages for a query among those that were handed to the channel.\<close>

definition reports_of :: "uint64 \<Rightarrow> reporter_state \<Rightarrow> nat" where
  "reports_of i c = length (filter (\<lambda>info. tci_QueryMetaId info = i) (rb_txChan (rep_bridge c)))"

text \<open>At most one message while the query is committed, and one more for every transaction that failed.\<close>

definition once :: "uint64 \<Rightarrow> nat \<Rightarrow> reporter_state \<Rightarrow> bool" where
  "once i n c \<longleftrightarrow> reports_of i c \<le> n + (if i \<in> rep_commitedIds c then 1 else 0)"

definition failures :: "uint64 \<Rightarrow> ('e, 'c) monitor_event list \<Rightarrow> nat" where
  "failures i evs = length (filter (\<lambda>ev. ev = TxFailed i) evs)"

text \<open>What the monitors rely on: a report queues at most one message, for its own query, and then commits the query.\<close>

locale query_reporter =
  fixes report :: "'env \<Rightarrow> bytes \<Rightarrow> uint64 \<Rightarrow> reporter_state \<Rightarrow> go_panic + report_error option \<times> reporter_state"
  assumes report_one: "report env qd i c = Inr (err, c') \<Longrightarrow>
      reports_of j c' = reports_of j c \<or> j = i \<and> reports_of j c' = Suc (reports_of j c) \<and> i \<in> rep_commitedIds c'"
    and report_keeps: "report env qd i c = Inr (err, c') \<Longrightarrow> rep_commitedIds c \<subseteq> rep_commitedIds c'"
begin

lemma report_once:
  assumes "report env qd j c = Inr (err, c')" and "j \<notin> rep_commitedIds c" and "once i n c"
  shows "once i n c'"
  using report_one [OF assms(1), of i] report_keeps [OF assms(1)] assms(2,3) by (auto simp: once_def split: if_splits)

lemma checkCycle_once:
  assumes "checkCycle (report env) query (prev, c) = Inr (prev', c')" and "once i n c"
  shows "once i n c'"
  using assms by (auto simp: checkCycle_def intro: report_once split: option.splits prod.splits if_splits)

lemma cycle_step_once:
  assumes "cycle_step report ev (m, c) = Inr (m', c')" and "once i n c"
  shows "once i n c'"
  using assms
  by (auto simp: cycle_step_def cycle_round_def poll_round_def intro: checkCycle_once
      split: monitor_mode.splits cycle_event.splits if_splits)

lemma tipped_query_once:
  assumes "tipped_query A (report env) h q (t, c) = Inr (t', c')" and "once i n c"
  shows "once i n c'"
  using assms by (auto simp: tipped_query_def intro: report_once split: if_splits)

lemma tipped_queries_once:
  "tipped_queries A (report env) h qs (t, c) = Inr (t', c') \<Longrightarrow> once i n c \<Longrightarrow> once i n c'"
  by (induction qs arbitrary: t c) (auto dest: tipped_query_once)

lemma tipped_once:
  assumes "MonitorForTippedQueries A report env response status (t, c) = Inr (t', c')" and "once i n c"
  shows "once i n c'"
  using assms
  by (auto simp: MonitorForTippedQueries_def Let_def intro: tipped_queries_once split: sum.splits option.splits if_splits)

lemma monitors_step_once:
  assumes "monitors_step A report ev s = Inr s'" and "once i n (mo_reporter s)"
  shows "once i (n + failures i [ev]) (mo_reporter s')"
proof (cases ev)
  case (TxFailed j)
  then show ?thesis using assms by (auto simp: monitors_step_def failures_def once_def reports_of_def split: if_splits)
qed (use assms in \<open>auto simp: monitors_step_def failures_def dest: cycle_step_once tipped_once\<close>)

lemma monitors_run_once:
  "monitors_run A report evs s = Inr s' \<Longrightarrow> once i n (mo_reporter s) \<Longrightarrow>
     once i (n + failures i evs) (mo_reporter s')"
proof (induction evs arbitrary: s n)
  case (Cons ev evs)
  obtain s1 where s1: "monitors_step A report ev s = Inr s1" "monitors_run A report evs s1 = Inr s'"
    using Cons.prems(1) by auto
  have "failures i (ev # evs) = failures i [ev] + failures i evs" by (simp add: failures_def)
  then show ?case using Cons.IH [OF s1(2) monitors_step_once [OF s1(1) Cons.prems(2)]] by (simp add: add.assoc)
qed (simp add: failures_def)

end

text \<open>The reports of the code: the environment is what \<open>GenerateAndBroadcastSpotPriceReport\<close> reads in a round.\<close>

record report_env =
  re_pack :: "int \<Rightarrow> string + bytes"
  re_queryId :: "bytes \<Rightarrow> bytes"
  re_custom :: "string \<Rightarrow> (unit + string) option"
  re_now :: gotime
  re_ctxDone :: bool
  re_accAddr :: string
  re_prices :: MarketToExchangePrices
  re_marketParams :: "MarketParam list"

definition spot_report :: "report_env report_fn" where
  "spot_report env qd metaId c =
     GenerateAndBroadcastSpotPriceReport (re_pack env) (re_queryId env) (re_custom env) (re_now env) (re_ctxDone env)
       (re_accAddr env) (re_prices env) (re_marketParams env) c qd metaId"

definition queued_for :: "uint64 \<Rightarrow> reporter_state \<Rightarrow> reporter_state \<Rightarrow> bool" where
  "queued_for i c c' \<longleftrightarrow>
     rb_txChan (rep_bridge c') = rb_txChan (rep_bridge c) \<or>
     i \<in> rep_commitedIds c' \<and> (\<exists>info. tci_QueryMetaId info = i \<and> rb_txChan (rep_bridge c') = rb_txChan (rep_bridge c) @ [info])"

lemma report_price_queues:
  assumes "report_price queryId now ctxDone accAddr marketParams c qd i v p = (err, c')"
  shows "queued_for i c c' \<and> rep_commitedIds c \<subseteq> rep_commitedIds c'"
proof -
  let ?r = "report_price queryId now ctxDone accAddr marketParams c qd i v p"
  have "queued_for i c (snd ?r) \<and> rep_commitedIds c \<subseteq> rep_commitedIds (snd ?r)"
    by (auto simp: report_price_def trySend_def queued_for_def Let_def simp del: not_None_eq)
  then show ?thesis using assms by simp
qed

lemma spot_report_queues:
  assumes "spot_report env qd i c = Inr (err, c')"
  shows "queued_for i c c' \<and> rep_commitedIds c \<subseteq> rep_commitedIds c'"
proof -
  obtain m where m: "median (re_pack env) (re_queryId env) (re_custom env) (re_now env) (re_prices env) (re_marketParams env) qd
      = Inr m" using assms by (auto simp: spot_report_def GenerateAndBroadcastSpotPriceReport_def)
  show ?thesis
  proof (cases m)
    case (Inl e)
    then show ?thesis using assms m by (auto simp: spot_report_def GenerateAndBroadcastSpotPriceReport_def queued_for_def)
  next
    case (Inr vp)
    then show ?thesis using assms m
      by (cases vp) (auto simp: spot_report_def GenerateAndBroadcastSpotPriceReport_def dest: report_price_queues)
  qed
qed

interpretation spot: query_reporter spot_report
proof
  fix env qd i c err c' j
  assume "spot_report env qd i c = Inr (err, c')"
  then have q: "queued_for i c c'" and k: "rep_commitedIds c \<subseteq> rep_commitedIds c'" using spot_report_queues by blast+
  from q show "reports_of j c' = reports_of j c \<or>
      j = i \<and> reports_of j c' = Suc (reports_of j c) \<and> i \<in> rep_commitedIds c'"
    by (auto simp: queued_for_def reports_of_def split: if_splits)
  show "rep_commitedIds c \<subseteq> rep_commitedIds c'" by (rule k)
qed


section \<open>Tips\<close>

lemma tipped_query_tips:
  assumes "tipped_query A report h q (t, c) = Inr (t', c')"
  shows "tm_retryDelay t' = tm_retryDelay t" "\<exists>ps. dts_Tips (tm_Tips t') = dts_Tips (tm_Tips t) @ map snd ps \<and>
    distinct (map fst ps) \<and> fst ` set ps \<inter> tm_depositTipMap t = {} \<and> tm_depositTipMap t' = tm_depositTipMap t \<union> fst ` set ps"
proof -
  let ?p = "(qm_Id q, \<lparr>qd_QueryData = qm_QueryData q\<rparr>)"
  have "t' = t \<or> qm_Id q \<notin> tm_depositTipMap t \<and>
      t' = t\<lparr>tm_Tips := AddTip (tm_Tips t) (snd ?p), tm_depositTipMap := insert (qm_Id q) (tm_depositTipMap t)\<rparr>"
    using assms by (auto simp: tipped_query_def split: if_splits)
  then show "tm_retryDelay t' = tm_retryDelay t" "\<exists>ps. dts_Tips (tm_Tips t') = dts_Tips (tm_Tips t) @ map snd ps \<and>
    distinct (map fst ps) \<and> fst ` set ps \<inter> tm_depositTipMap t = {} \<and> tm_depositTipMap t' = tm_depositTipMap t \<union> fst ` set ps"
    by (auto intro: exI [of _ "[]"] exI [of _ "[?p]"] simp: AddTip_def)
qed

lemma tipped_queries_tips:
  "tipped_queries A report h qs (t, c) = Inr (t', c') \<Longrightarrow> tm_retryDelay t' = tm_retryDelay t \<and>
   (\<exists>ps. dts_Tips (tm_Tips t') = dts_Tips (tm_Tips t) @ map snd ps \<and>
    distinct (map fst ps) \<and> fst ` set ps \<inter> tm_depositTipMap t = {} \<and> tm_depositTipMap t' = tm_depositTipMap t \<union> fst ` set ps)"
proof (induction qs arbitrary: t c)
  case Nil
  then show ?case by (auto intro: exI [of _ "[]"])
next
  case (Cons q qs)
  obtain t1 c1 where 1: "tipped_query A report h q (t, c) = Inr (t1, c1)" "tipped_queries A report h qs (t1, c1) = Inr (t', c')"
    using Cons.prems by auto
  from tipped_query_tips [OF 1(1)] obtain ps where ps: "tm_retryDelay t1 = tm_retryDelay t"
    "dts_Tips (tm_Tips t1) = dts_Tips (tm_Tips t) @ map snd ps" "distinct (map fst ps)"
    "fst ` set ps \<inter> tm_depositTipMap t = {}" "tm_depositTipMap t1 = tm_depositTipMap t \<union> fst ` set ps" by blast
  from Cons.IH [OF 1(2)] obtain rs where rs: "tm_retryDelay t' = tm_retryDelay t1"
    "dts_Tips (tm_Tips t') = dts_Tips (tm_Tips t1) @ map snd rs" "distinct (map fst rs)"
    "fst ` set rs \<inter> tm_depositTipMap t1 = {}" "tm_depositTipMap t' = tm_depositTipMap t1 \<union> fst ` set rs" by blast
  show ?case using ps rs by (intro conjI exI [of _ "ps @ rs"]) auto
qed

text \<open>The tips that a run of ticks hands to the bridge client: one for each identifier, in the order they were seen.\<close>

fun tipped_ticks ::
    "'x abi_ops_scheme \<Rightarrow> 'env report_fn \<Rightarrow> ('env \<times> (string + QueryMeta list option) \<times> (string + int)) list \<Rightarrow>
     tipped_monitor \<times> reporter_state \<Rightarrow> go_panic + tipped_monitor \<times> reporter_state" where
  "tipped_ticks A report [] st = Inr st"
| "tipped_ticks A report ((env, response, status) # ticks) st =
     bindE (MonitorForTippedQueries A report env response status st) (tipped_ticks A report ticks)"

definition tips_match :: "tipped_monitor \<Rightarrow> bool" where
  "tips_match t \<longleftrightarrow> (\<exists>ps. dts_Tips (tm_Tips t) = map snd ps \<and> distinct (map fst ps) \<and> tm_depositTipMap t = fst ` set ps)"

lemma tick_tips_match:
  assumes "MonitorForTippedQueries A report env response status (t, c) = Inr (t', c')" and "tips_match t"
  shows "tips_match t'"
proof -
  have delay: "tips_match (t\<lparr>tm_retryDelay := d\<rparr>)" for d using assms(2) by (simp add: tips_match_def)
  have "tips_match t2" if r1: "tipped_queries A (report env) h qs (t1, c1) = Inr (t2, c2)" and m1: "tips_match t1" for h qs t1 c1 t2 c2
  proof -
    obtain ps where ps: "dts_Tips (tm_Tips t1) = map snd ps" "distinct (map fst ps)" "tm_depositTipMap t1 = fst ` set ps"
      using m1 by (auto simp: tips_match_def)
    from tipped_queries_tips [OF r1] obtain rs where rs: "dts_Tips (tm_Tips t2) = dts_Tips (tm_Tips t1) @ map snd rs"
      "distinct (map fst rs)" "fst ` set rs \<inter> tm_depositTipMap t1 = {}" "tm_depositTipMap t2 = tm_depositTipMap t1 \<union> fst ` set rs"
      by blast
    show ?thesis unfolding tips_match_def using ps rs by (intro exI [of _ "ps @ rs"]) auto
  qed
  then show ?thesis using assms delay
    by (auto simp: MonitorForTippedQueries_def Let_def split: sum.splits option.splits if_splits)
qed

lemma backoff_power: "(backoff ^^ n) defaultRetryDelay = min maxRetryDelay (defaultRetryDelay * 2 ^ n)"
proof (induction n)
  case (Suc n)
  have "0 \<le> defaultRetryDelay * 2 ^ n" by (simp add: defaultRetryDelay_def)
  then show ?case using Suc by (auto simp: backoff_def min_def maxRetryDelay_def)
qed (simp add: defaultRetryDelay_def maxRetryDelay_def)

definition failing_tick :: "'env \<times> (string + QueryMeta list option) \<times> (string + int) \<Rightarrow> bool" where
  "failing_tick tick = (case fst (snd tick) of Inl err \<Rightarrow> True | Inr _ \<Rightarrow> False)"

definition empty_tick :: "'env \<times> (string + QueryMeta list option) \<times> (string + int) \<Rightarrow> bool" where
  "empty_tick tick = (case fst (snd tick) of Inr (Some qs) \<Rightarrow> qs = [] | Inr None \<Rightarrow> True | Inl err \<Rightarrow> False)"

lemma failing_ticks:
  "list_all failing_tick ticks \<Longrightarrow> tipped_ticks A report ticks (t, c) =
     Inr (t\<lparr>tm_retryDelay := (backoff ^^ length ticks) (tm_retryDelay t)\<rparr>, c)"
proof (induction ticks arbitrary: t)
  case (Cons tick ticks)
  then obtain env err status where "tick = (env, Inl err, status)"
    by (cases tick) (auto simp: failing_tick_def split: sum.splits)
  then show ?case using Cons by (simp add: MonitorForTippedQueries_def funpow_swap1)
qed simp

lemma empty_ticks: "list_all empty_tick ticks \<Longrightarrow> tipped_ticks A report ticks st = Inr st"
  by (induction ticks)
    (auto simp: MonitorForTippedQueries_def empty_tick_def split: sum.splits option.splits)

lemma bindE_assoc: "bindE (bindE r f) g = bindE r (\<lambda>x. bindE (f x) g)"
  by (cases r) simp_all

lemma tipped_ticks_append:
  "tipped_ticks A report (xs @ ys) st = bindE (tipped_ticks A report xs st) (tipped_ticks A report ys)"
proof (induction xs arbitrary: st)
  case (Cons x xs)
  have "tipped_ticks A report (xs @ ys) = (\<lambda>st. bindE (tipped_ticks A report xs st) (tipped_ticks A report ys))"
    by (rule ext) (rule Cons.IH)
  then show ?case by (cases x) (simp add: bindE_assoc)
qed simp

text \<open>
  Answers without queries do not end the backoff of the monitor of tipped queries: after \<open>n\<close> errors it keeps the long
  delay, at most 30 seconds, for as long as the chain answers but has no tipped query, and so sees the next one late.
\<close>

theorem tipped_backoff_sticks:
  assumes "list_all failing_tick errors" and "list_all empty_tick quiet" and "tm_retryDelay t = defaultRetryDelay"
  shows "\<exists>t'. tipped_ticks A report (errors @ quiet) (t, c) = Inr (t', c) \<and>
    tm_retryDelay t' = min (30 * 10 ^ 9) (200 * 10 ^ 6 * 2 ^ length errors)"
  using backoff_power [of "length errors"]
  by (simp add: tipped_ticks_append failing_ticks [OF assms(1)] empty_ticks [OF assms(2)] assms(3))
    (simp add: maxRetryDelay_def defaultRetryDelay_def)

text \<open>C17: however often a tipped deposit is seen, it is handed to the bridge client once.\<close>

theorem tips_handed_over_once:
  assumes "tipped_ticks A report ticks (t, c) = Inr (t', c')" and "tm_Tips t = NewDepositTips" and "tm_depositTipMap t = {}"
  shows "\<exists>ps. GetTips (tm_Tips t') = map snd ps \<and> distinct (map fst ps) \<and> tm_depositTipMap t' = fst ` set ps"
proof -
  have "tipped_ticks A report ticks (t, c) = Inr (t', c') \<Longrightarrow> tips_match t \<Longrightarrow> tips_match t'" for t c
  proof (induction ticks arbitrary: t c)
    case (Cons tick ticks)
    then show ?case by (cases tick) (auto dest: tick_tips_match)
  qed simp
  moreover have "tips_match t" using assms(2,3) by (auto simp: tips_match_def NewDepositTips_def)
  ultimately show ?thesis using assms(1) by (auto simp: tips_match_def GetTips_def)
qed

section \<open>A subscription is found\<close>

lemma next_loop_offset:
  assumes "factory (endpoints ! ((current + d) mod length endpoints)) = Inr c" and "offset \<le> d" and "d < length endpoints"
  shows "\<exists>k c'. offset \<le> k \<and> k \<le> d \<and> factory (endpoints ! ((current + k) mod length endpoints)) = Inr c' \<and>
    next_loop factory endpoints current offset errs = Inr ((current + k) mod length endpoints, c')"
  using assms(2,3)
proof (induction "d - offset" arbitrary: offset errs)
  case 0
  then have "offset = d" by simp
  then show ?case using 0 assms(1) by (intro exI [of _ d]) (subst next_loop.simps, auto)
next
  case (Suc n)
  show ?case
  proof (cases "factory (endpoints ! ((current + offset) mod length endpoints))")
    case (Inr c')
    then show ?thesis using Suc.prems by (intro exI [of _ offset] exI [of _ c']) (subst next_loop.simps, auto)
  next
    case (Inl err)
    have n: "n = d - Suc offset" and le: "Suc offset \<le> d" using Suc.hyps(2) by simp_all
    let ?errs = "errs @ [(endpoints ! ((current + offset) mod length endpoints), err)]"
    from Suc.hyps(1) [OF n le Suc.prems(2), of ?errs] obtain k c' where k: "Suc offset \<le> k" "k \<le> d"
      "factory (endpoints ! ((current + k) mod length endpoints)) = Inr c'"
      "next_loop factory endpoints current (Suc offset) ?errs = Inr ((current + k) mod length endpoints, c')" by blast
    have "next_loop factory endpoints current offset errs = next_loop factory endpoints current (Suc offset) ?errs"
      using Inl Suc.prems by (subst next_loop.simps) simp
    then show ?thesis using k by (intro exI [of _ k] exI [of _ c']) simp
  qed
qed

lemma subscribe_loop_finds:
  assumes "\<And>i. factory i (rm_endpoints m ! t) = Inr target" and "\<And>i. sub i target = None"
    and "1 \<le> d" and "d < length (rm_endpoints m)" and "(rm_current m + d) mod length (rm_endpoints m) = t" and "d \<le> r"
  shows "\<exists>c s'. subscribe_loop factory sub r a m s = (Some c, s') \<and> rs_client s' = Some c \<and> (\<exists>i. sub i c = None)"
  using assms
proof (induction r arbitrary: a m d)
  case (Suc r)
  let ?n = "length (rm_endpoints m)"
  have f: "factory (Suc a) (rm_endpoints m ! ((rm_current m + d) mod ?n)) = Inr target" using Suc.prems(1,5) by simp
  from next_loop_offset [of "factory (Suc a)" "rm_endpoints m" "rm_current m", OF f Suc.prems(3,4), of "[]"] obtain k c' where k: "1 \<le> k" "k \<le> d"
    "factory (Suc a) (rm_endpoints m ! ((rm_current m + k) mod ?n)) = Inr c'"
    "next_loop (factory (Suc a)) (rm_endpoints m) (rm_current m) 1 [] = Inr ((rm_current m + k) mod ?n, c')" by blast
  let ?m' = "m\<lparr>rm_current := (rm_current m + k) mod ?n\<rparr>"
  have next_client: "nextClient (factory (Suc a)) m = (Inr c', ?m')" using k(4) by (simp add: nextClient_def)
  show ?case
  proof (cases "sub (Suc a) c'")
    case None
    then show ?thesis using next_client by (auto simp: setRPCClient_def)
  next
    case (Some err)
    have "k \<noteq> d" using k(3) f Some Suc.prems(2) by auto
    then have d': "1 \<le> d - k" "d - k < ?n" "d - k \<le> r" using k Suc.prems(4,6) by auto
    have "((rm_current m + k) mod ?n + (d - k)) mod ?n = t" 
      using Suc.prems(5) k(2) mod_add_left_eq [of "rm_current m + k" ?n "d - k"] by (metis add.assoc le_add_diff_inverse)
    then show ?thesis using Suc.IH [of ?m' "d - k" "Suc a"] Suc.prems(1,2) d' next_client Some by simp
  qed
qed simp

text \<open>
  C33: as long as one node of the list can be reached and takes subscriptions, the monitor of the cycle list stays driven by
  events: whatever the other nodes do, \<open>subscribeNewBlocks\<close> ends at a node that takes the subscription, and makes it the
  node of the client.
\<close>

theorem subscription_survives:
  assumes "cm_rpc m = s" and "rs_manager s = Some rm" and "rm_current rm < length (rm_endpoints rm)"
    and "t < length (rm_endpoints rm)" and "\<And>i. factory i (rm_endpoints rm ! t) = Inr target" and "\<And>i. sub i target = None"
  shows "\<exists>c. cm_mode (resubscribe factory sub m) = cm_mode m \<and> cm_prevQueryData (resubscribe factory sub m) = cm_prevQueryData m \<and>
    rs_client (cm_rpc (resubscribe factory sub m)) = Some c \<and> (\<exists>i. sub i c = None)"
proof -
  let ?n = "length (rm_endpoints rm)"
  have "\<exists>c s'. subscribeNewBlocks factory sub s = (Some c, s') \<and> rs_client s' = Some c \<and> (\<exists>i. sub i c = None)"
  proof (cases "\<exists>c. factory 0 (rm_endpoints rm ! rm_current rm) = Inr c \<and> sub 0 c = None")
    case True
    then show ?thesis using assms(2)
      by (auto simp: subscribeNewBlocks_def currentClient_def rm_currentEndpoint_def setRPCClient_def)
  next
    case False
    have ne: "t \<noteq> rm_current rm" using False assms(5,6) by auto
    define d where "d = (if rm_current rm < t then t - rm_current rm else t + ?n - rm_current rm)"
    have d: "1 \<le> d" "d < ?n" "(rm_current rm + d) mod ?n = t" "d \<le> rm_endpointCount rm - 1"
      using ne assms(3,4) by (auto simp: d_def rm_endpointCount_def)
    have "subscribeNewBlocks factory sub s = subscribe_loop factory sub (rm_endpointCount rm - 1) 0 rm s"
      using False assms(2)
      by (auto simp: subscribeNewBlocks_def currentClient_def rm_currentEndpoint_def split: sum.splits)
    then show ?thesis using subscribe_loop_finds [of factory rm t target sub, OF assms(5,6) d] by simp
  qed
  then show ?thesis using assms(1) by (auto simp: resubscribe_def)
qed

section \<open>Concrete rounds\<close>

text \<open>Three nodes, of which the first cannot be reached and the second takes no subscription.\<close>

definition demo_nodes :: "nat \<Rightarrow> string \<Rightarrow> string + nat" where
  "demo_nodes i e = (if e = ''a'' then Inl ''refused'' else Inr (if e = ''b'' then 1 else 2))"

definition demo_sub :: "nat \<Rightarrow> nat \<Rightarrow> string option" where
  "demo_sub i c = (if c = 2 then None else Some ''no events'')"

definition demo_cycle :: "nat cycle_monitor" where
  "demo_cycle = \<lparr>cm_mode = EventDriven, cm_prevQueryData = [9], cm_retryDelay = defaultRetryDelay,
     cm_rpc = \<lparr>rs_manager = Some \<lparr>rm_endpoints = [''a'', ''b'', ''c''], rm_current = 0\<rparr>, rs_client = None\<rparr>\<rparr>"

theorem subscription_survives_witness:
  "cm_mode (resubscribe demo_nodes demo_sub demo_cycle) = EventDriven"
proof -
  have "cm_rpc demo_cycle = cm_rpc demo_cycle" ..
  from subscription_survives [OF this, of _ 2 demo_nodes 2 demo_sub] show ?thesis
    by (auto simp: demo_cycle_def demo_nodes_def demo_sub_def)
qed

definition demo_report_env :: report_env where
  "demo_report_env = \<lparr>re_pack = (\<lambda>n. Inl ''none''), re_queryId = (\<lambda>b. b), re_custom = (\<lambda>q. Some (Inr ''v'')), re_now = 5,
     re_ctxDone = False, re_accAddr = ''tellor1'', re_prices = \<lparr>mte_marketToExchangePrices = [], mte_maxPriceAge = 1\<rparr>, re_marketParams = []\<rparr>"

definition demo_query :: "current_query_error + bytes \<times> QueryMeta option" where
  "demo_query = Inr ([1], Some \<lparr>qm_Id = 7, qm_QueryData = [1], qm_Expiration = 100\<rparr>)"

definition demo_monitors :: "nat monitors" where
  "demo_monitors = \<lparr>mo_cycle = demo_cycle, mo_tipped = \<lparr>tm_Tips = NewDepositTips, tm_depositTipMap = {},
     tm_retryDelay = defaultRetryDelay\<rparr>, mo_reporter = demo_reporter False\<rparr>"

text \<open>A block, the loss of the subscription at all nodes, a tick that sees the same query, and a failed transaction of another.\<close>

definition demo_events :: "(report_env, nat) monitor_event list" where
  "demo_events =
     [CycleEvent (NewBlock demo_report_env demo_query), CycleEvent (BlocksClosed demo_nodes (\<lambda>i c. Some ''no events'')),
      CycleEvent (PollTick demo_report_env demo_query), TxFailed 8]"


text \<open>Two errors and an empty answer.\<close>

theorem tipped_backoff_sticks_witness:
  "\<exists>t'. tipped_ticks demo_abi spot_report [(demo_report_env, Inl ''down'', Inr 5), (demo_report_env, Inl ''down'', Inr 5),
       (demo_report_env, Inr None, Inr 5)] (mo_tipped demo_monitors, demo_reporter False) = Inr (t', demo_reporter False) \<and>
     tm_retryDelay t' = 800 * 10 ^ 6"
  using tipped_backoff_sticks [of "[(demo_report_env, Inl ''down'', Inr 5), (demo_report_env, Inl ''down'', Inr 5)]"
      "[(demo_report_env, Inr None, Inr 5)]" "mo_tipped demo_monitors" demo_abi spot_report "demo_reporter False"]
  by (simp add: failing_tick_def empty_tick_def demo_monitors_def)

text \<open>A tip for a deposit that is seen in two ticks.\<close>

definition demo_tip_tick :: "report_env \<times> (string + QueryMeta list option) \<times> (string + int)" where
  "demo_tip_tick = (demo_report_env, Inr (Some [\<lparr>qm_Id = 4, qm_QueryData = qd_QueryData (demo_tip 3), qm_Expiration = 100\<rparr>]), Inr 5)"

theorem tips_handed_over_once_witness:
  "\<exists>st. tipped_ticks demo_abi spot_report [demo_tip_tick, demo_tip_tick] (mo_tipped demo_monitors, demo_reporter False) = Inr st \<and>
     length (GetTips (tm_Tips (fst st))) = 1"
proof -
  have "map_sum id (\<lambda>st. (GetTips (tm_Tips (fst st)), tm_depositTipMap (fst st) = {4}))
      (tipped_ticks demo_abi spot_report [demo_tip_tick, demo_tip_tick] (mo_tipped demo_monitors, demo_reporter False)) =
      Inr ([demo_tip 3], True)" by code_simp
  then obtain t c where st: "tipped_ticks demo_abi spot_report [demo_tip_tick, demo_tip_tick]
      (mo_tipped demo_monitors, demo_reporter False) = Inr (t, c)" "tm_depositTipMap t = {4}"
    by (cases "tipped_ticks demo_abi spot_report [demo_tip_tick, demo_tip_tick] (mo_tipped demo_monitors, demo_reporter False)")
      auto
  have "tm_Tips (mo_tipped demo_monitors) = NewDepositTips" "tm_depositTipMap (mo_tipped demo_monitors) = {}"
    by (simp_all add: demo_monitors_def)
  from tips_handed_over_once [OF st(1) this] obtain ps where ps: "GetTips (tm_Tips t) = map snd ps" "distinct (map fst ps)"
    "fst ` set ps = {4 :: uint64}" using st(2) by auto
  have "length ps = 1" using ps(2,3) distinct_card [OF ps(2)] by simp
  then show ?thesis using st(1) ps(1) by auto
qed

end
