(* ===== verification/StakeMonitors.thy ===== *)
theory StakeMonitors
  imports Monitors
begin

text \<open>
  The monitors that move the rewards, the stake and the balance of the reporter
  (\<open>reporter/client/reporter_monitors.go\<close>), with the settings they parse (\<open>reporter/client/client.go\<close>).

  The decimals of the Cosmos SDK, the addresses of Ethereum and the answers of the chain are parameters.
\<close>

section \<open>Decimals of the Cosmos SDK\<close>

record 'd legacy_ops =
  ld_FromStr :: "string \<Rightarrow> 'd option"
  ld_FromInt :: "int \<Rightarrow> 'd"
  ld_Mul :: "'d \<Rightarrow> 'd \<Rightarrow> 'd"
  ld_GT :: "'d \<Rightarrow> 'd \<Rightarrow> bool"
  ld_LT :: "'d \<Rightarrow> 'd \<Rightarrow> bool"
  ld_TruncateInt :: "'d \<Rightarrow> int"

text \<open>
  The documented behaviour: a decimal has 18 places; the product is rounded to the nearest one; the rest is exact.
\<close>

definition legacy_laws :: "'d legacy_ops \<Rightarrow> ('d \<Rightarrow> rat) \<Rightarrow> bool" where
  "legacy_laws L val \<longleftrightarrow>
     (\<forall>x. \<exists>n. val x * 10 ^ 18 = of_int n) \<and>
     (\<forall>n. val (ld_FromInt L n) = of_int n) \<and>
     (\<forall>x y. \<bar>val (ld_Mul L x y) - val x * val y\<bar> \<le> 1 / (2 * 10 ^ 18)) \<and>
     (\<forall>x y. ld_GT L x y \<longleftrightarrow> val x > val y) \<and>
     (\<forall>x y. ld_LT L x y \<longleftrightarrow> val x < val y) \<and>
     (\<forall>x. ld_TruncateInt L x = (if val x < 0 then - \<lfloor>- val x\<rfloor> else \<lfloor>val x\<rfloor>))"

section \<open>The withdrawal of rewards\<close>

text \<open>\<open>None\<close> stops the monitor before it starts.\<close>

definition withdraw_frequency :: "(string \<Rightarrow> string) \<Rightarrow> int option" where
  "withdraw_frequency getenv =
     (let freqVar = getenv ''WITHDRAW_FREQUENCY'' in atoi (if freqVar = [] then ''43200'' else freqVar))"

text \<open>
  How long \<open>waitForRewardWithdrawal\<close> waits, unless the context ends first: \<open>time.After\<close> fires at once for a duration that
  is not positive.
\<close>

definition waitForRewardWithdrawal :: "int \<Rightarrow> duration" where
  "waitForRewardWithdrawal frequency = max 0 (int64_wrap (int64_wrap frequency * 10 ^ 9))"

definition projectedReporterShareExceeds :: "'d legacy_ops \<Rightarrow> int \<Rightarrow> uint64 \<Rightarrow> 'd \<Rightarrow> int \<Rightarrow> 'd \<Rightarrow> bool" where
  "projectedReporterShareExceeds L powerReduction reporterPower tips totalBonded threshold =
     (let projectedStake = uint reporterPower * powerReduction + ld_TruncateInt L tips
      in ld_GT L (ld_FromInt L projectedStake) (ld_Mul L (ld_FromInt L totalBonded) threshold))"

text \<open>The settings, and what the chain answers to the three lookups (each with fallback to other endpoints).\<close>

record withdraw_settings =
  ws_WithdrawToWallet :: bool
  ws_PowerThreshold :: string

record 'd reward_answers =
  ra_Reporter :: "string + uint64"
  ra_AvailableTips :: "string + 'd"
  ra_Pool :: "string + int"

definition DefaultWithdrawToWalletPowerThreshold :: string where
  "DefaultWithdrawToWalletPowerThreshold = ''0.295''"

datatype withdraw_error = WThreshold string | WLookup string

definition shouldWithdrawTipsToWallet ::
    "'d legacy_ops \<Rightarrow> int \<Rightarrow> withdraw_settings \<Rightarrow> 'd reward_answers \<Rightarrow> withdraw_error + bool" where
  "shouldWithdrawTipsToWallet L powerReduction cfg ans =
     (if ws_WithdrawToWallet cfg then Inr True
      else
        let thresholdValue =
          (if ws_PowerThreshold cfg = [] then DefaultWithdrawToWalletPowerThreshold else ws_PowerThreshold cfg) in
        case ld_FromStr L thresholdValue of
          None \<Rightarrow> Inl (WThreshold thresholdValue)
        | Some threshold \<Rightarrow>
            (case ra_Reporter ans of
               Inl err \<Rightarrow> Inl (WLookup err)
             | Inr reporterPower \<Rightarrow>
                 (case ra_AvailableTips ans of
                    Inl err \<Rightarrow> Inl (WLookup err)
                  | Inr tips \<Rightarrow>
                      (case ra_Pool ans of
                         Inl err \<Rightarrow> Inl (WLookup err)
                       | Inr bonded \<Rightarrow>
                           Inr (projectedReporterShareExceeds L powerReduction reporterPower tips bonded threshold)))))"

definition monitor_message :: "bool \<Rightarrow> sdk_msg \<Rightarrow> TxChannelInfo" where
  "monitor_message isBridge msg = \<lparr>tci_Msg = msg, tci_isBridge = isBridge, tci_NumRetries = 0, tci_QueryMetaId = 0\<rparr>"

text \<open>One round of the loop, which is followed by the wait.\<close>

definition WithdrawAndStakeEarnedRewards ::
    "'d legacy_ops \<Rightarrow> int \<Rightarrow> bech32_ops \<Rightarrow> (string \<Rightarrow> string) \<Rightarrow> withdraw_settings \<Rightarrow> string \<Rightarrow> 'd reward_answers \<Rightarrow> bool \<Rightarrow>
     reporter_bridge \<Rightarrow> reporter_bridge" where
  "WithdrawAndStakeEarnedRewards L powerReduction B getenv cfg accAddr ans ctxDone c =
     (case shouldWithdrawTipsToWallet L powerReduction cfg ans of
        Inl err \<Rightarrow> c
      | Inr True \<Rightarrow> snd (trySend ctxDone c (monitor_message False (MsgWithdrawTipToBalance accAddr)))
      | Inr False \<Rightarrow>
          (case validatorOperatorAddress B getenv accAddr of
             Inl err \<Rightarrow> c
           | Inr (valAddr, valAddrSource) \<Rightarrow>
               snd (trySend ctxDone c (monitor_message False (MsgWithdrawTip accAddr valAddr)))))"

section \<open>Unbonding\<close>

record unbond_settings =
  us_Frequency :: uint32
  us_Amount :: uint32
  us_MaxStakePercentage :: string

record 'd unbond_monitor =
  um_maxStakePercentage :: 'd
  um_unbondAmount :: int
  um_valAddr :: string

text \<open>The start of the monitor; \<open>None\<close> if it does not run. A maximum that is no decimal panics.\<close>

definition AutoUnbondStake_start ::
    "'d legacy_ops \<Rightarrow> bech32_ops \<Rightarrow> (string \<Rightarrow> string) \<Rightarrow> unbond_settings \<Rightarrow> string \<Rightarrow> go_panic + 'd unbond_monitor option" where
  "AutoUnbondStake_start L B getenv cfg accAddr =
     (if us_Frequency cfg = 0 then Inr None
      else case ld_FromStr L (us_MaxStakePercentage cfg) of
        None \<Rightarrow> Inl (PanicMessage (us_MaxStakePercentage cfg))
      | Some maxStakePercentage \<Rightarrow>
          (case validatorOperatorAddress B getenv accAddr of
             Inl err \<Rightarrow> Inr None
           | Inr (valAddr, valAddrSource) \<Rightarrow>
               Inr (Some \<lparr>um_maxStakePercentage = maxStakePercentage, um_unbondAmount = uint (us_Amount cfg),
                          um_valAddr = valAddr\<rparr>)))"

definition shouldSkipAutoUnbond :: "'d legacy_ops \<Rightarrow> 'd \<Rightarrow> 'd \<Rightarrow> int \<Rightarrow> bool" where
  "shouldSkipAutoUnbond L reporterStake maxStakePercentage unbondAmount =
     (if \<not> ld_GT L maxStakePercentage (ld_FromInt L 0) then False
      else ld_LT L (ld_Mul L reporterStake maxStakePercentage) (ld_FromInt L unbondAmount))"

text \<open>The stake of the reporter among the selections: pairs of a selector and the total of its delegations.\<close>

definition own_stake :: "string \<Rightarrow> (string \<times> int) list \<Rightarrow> int" where
  "own_stake accAddr selections =
     (case find (\<lambda>(selector, delegations). selector = accAddr) selections of Some (selector, delegations) \<Rightarrow> delegations | None \<Rightarrow> 0)"

definition AutoUnbondStake_tick ::
    "'d legacy_ops \<Rightarrow> string \<Rightarrow> string + (string \<times> int) list \<Rightarrow> bool \<Rightarrow> 'd unbond_monitor \<Rightarrow> reporter_bridge \<Rightarrow>
     reporter_bridge" where
  "AutoUnbondStake_tick L accAddr answer ctxDone um c =
     (case answer of
        Inl err \<Rightarrow> c
      | Inr selections \<Rightarrow>
          if selections = [] then c
          else if shouldSkipAutoUnbond L (ld_FromInt L (own_stake accAddr selections)) (um_maxStakePercentage um)
                    (um_unbondAmount um) then c
          else snd (trySend ctxDone c (monitor_message False (MsgUndelegate accAddr (um_valAddr um) (um_unbondAmount um)))))"

section \<open>Bridging the excess of the wallet\<close>

record eth_address_ops =
  ea_IsHexAddress :: "string \<Rightarrow> bool"
  ea_Hex :: "string \<Rightarrow> string"

definition strings_TrimPrefix :: "string \<Rightarrow> string \<Rightarrow> string" where
  "strings_TrimPrefix s p = (if strings_HasPrefix s p then drop (length p) s else s)"

definition normalizeAutoBalanceEthAddr :: "eth_address_ops \<Rightarrow> string \<Rightarrow> string + string" where
  "normalizeAutoBalanceEthAddr H addr =
     (let addr = strings_TrimSpace addr in
      if addr = [] then Inr []
      else if \<not> ea_IsHexAddress H addr then Inl addr
      else Inr (strings_TrimPrefix (ea_Hex H addr) ''0x''))"

text \<open>\<open>strings.SplitN(s, ":", 2)\<close>.\<close>

definition split_colon :: "string \<Rightarrow> string list" where
  "split_colon s =
     (let p = takeWhile (\<lambda>c. c \<noteq> CHR '':'') s in if p = s then [s] else [p, drop (Suc (length p)) s])"

definition parseAutoBalanceExecutionTime :: "string \<Rightarrow> string + int \<times> int" where
  "parseAutoBalanceExecutionTime executionTime =
     (case split_colon executionTime of
        [h, m] \<Rightarrow>
          (case (atoi h, atoi m) of
             (Some hour, Some minute) \<Rightarrow>
               if hour < 0 \<or> hour > 23 \<or> minute < 0 \<or> minute > 59 then Inl executionTime else Inr (hour, minute)
           | _ \<Rightarrow> Inl executionTime)
      | _ \<Rightarrow> Inl executionTime)"

text \<open>A day, an hour and a minute in nanoseconds; time zero is a midnight of UTC.\<close>

definition Day :: duration where "Day = 24 * 60 * 60 * 10 ^ 9"

definition time_of_day :: "int \<Rightarrow> int \<Rightarrow> duration" where
  "time_of_day hour minute = (hour * 60 + minute) * 60 * 10 ^ 9"

definition next_execution :: "gotime \<Rightarrow> int \<Rightarrow> int \<Rightarrow> gotime" where
  "next_execution now hour minute =
     (let next = (now - now mod Day) + time_of_day hour minute
      in if \<not> time_Before now next then time_Add next Day else next)"

record balance_settings =
  bs_BalanceToKeep :: uint64
  bs_BridgeToEthAddr :: string
  bs_ExecutionTime :: string

record balance_monitor =
  bm_keep :: uint64
  bm_ethAddr :: string
  bm_hour :: int
  bm_minute :: int

definition AutoBridge_start :: "eth_address_ops \<Rightarrow> balance_settings \<Rightarrow> balance_monitor option" where
  "AutoBridge_start H cfg =
     (if bs_BalanceToKeep cfg = 0 then None
      else case normalizeAutoBalanceEthAddr H (bs_BridgeToEthAddr cfg) of
        Inl err \<Rightarrow> None
      | Inr ethAddr \<Rightarrow>
          (case parseAutoBalanceExecutionTime (bs_ExecutionTime cfg) of
             Inl err \<Rightarrow> None
           | Inr (hour, minute) \<Rightarrow>
               Some \<lparr>bm_keep = bs_BalanceToKeep cfg, bm_ethAddr = ethAddr, bm_hour = hour, bm_minute = minute\<rparr>))"

definition AutoBridge_tick :: "string \<Rightarrow> string + int \<Rightarrow> bool \<Rightarrow> balance_monitor \<Rightarrow> reporter_bridge \<Rightarrow> reporter_bridge" where
  "AutoBridge_tick accAddr answer ctxDone bm c =
     (case answer of
        Inl err \<Rightarrow> c
      | Inr walletBal \<Rightarrow>
          let keepAmt = uint (bm_keep bm);
              gasReserve = 1000000;
              amountToBridge = walletBal - keepAmt - gasReserve
          in if \<not> amountToBridge > 0 then c
             else snd (trySend ctxDone c (monitor_message True (MsgWithdrawTokens accAddr (bm_ethAddr bm) amountToBridge))))"

section \<open>Products with whole numbers are exact\<close>

lemma legacy_mul_int:
  assumes "legacy_laws L val" and "val x = of_int n"
  shows "val (ld_Mul L x y) = of_int n * val y"
proof -
  obtain k where k: "val y * 10 ^ 18 = of_int k" using assms(1) unfolding legacy_laws_def by blast
  obtain m where m: "val (ld_Mul L x y) * 10 ^ 18 = of_int m" using assms(1) unfolding legacy_laws_def by blast
  define e where "e = val (ld_Mul L x y) - val x * val y"
  have "\<bar>e\<bar> \<le> 1 / (2 * 10 ^ 18)" using assms(1) unfolding legacy_laws_def e_def by blast
  then have "\<bar>e * 10 ^ 18\<bar> \<le> 1 / 2" by (simp add: abs_mult)
  moreover have "e * 10 ^ 18 = of_int (m - n * k)"
    using k m assms(2) by (simp add: e_def algebra_simps)
  ultimately have "\<bar>m - n * k\<bar> < 1" by linarith
  then have "val (ld_Mul L x y) * 10 ^ 18 = of_int n * (val y * 10 ^ 18)" using k m by simp
  then show ?thesis by simp
qed

lemma projected_share:
  assumes "legacy_laws L val"
  shows "projectedReporterShareExceeds L r pw tips bonded threshold \<longleftrightarrow>
    of_int bonded * val threshold < of_int (uint pw * r + ld_TruncateInt L tips)"
  using assms legacy_mul_int [OF assms, of "ld_FromInt L bonded" bonded threshold]
  by (simp add: projectedReporterShareExceeds_def legacy_laws_def)

definition bech32_laws :: "bech32_ops \<Rightarrow> bool" where
  "bech32_laws B \<longleftrightarrow> (\<forall>p b s. b32_Encode B p b = Some s \<longrightarrow> b32_Decode B s = Some (p, b))"

text \<open>An address the reporter uses for its validator is one of a validator; without a configured one it is the reporter's own.\<close>

lemma validatorOperatorAddress_prefix:
  assumes "bech32_laws B" and "validatorOperatorAddress B getenv reporterAddr = Inr (v, src)"
  shows "\<exists>b. b32_Decode B v = Some (''tellorvaloper'', b) \<and>
    (src = ''derived'' \<longrightarrow> (\<exists>hrp. b32_Decode B reporterAddr = Some (hrp, b)))"
  using assms
  by (auto simp: validatorOperatorAddress_def toValidatorOperator_def bech32_laws_def reportersValidatorAddressEnv_def Let_def
      split: option.splits if_splits prod.splits)

text \<open>Whether a monitor has queued this message.\<close>

definition queued :: "sdk_msg \<Rightarrow> bool \<Rightarrow> reporter_bridge \<Rightarrow> reporter_bridge \<Rightarrow> bool" where
  "queued msg isBridge c c' \<longleftrightarrow> rb_txChan c' = rb_txChan c @ [monitor_message isBridge msg]"

lemma trySend_changes:
  assumes "rb_txChan (snd (trySend ctxDone c (monitor_message isBridge msg))) \<noteq> rb_txChan c"
  shows "queued msg isBridge c (snd (trySend ctxDone c (monitor_message isBridge msg)))"
  using assms by (auto simp: trySend_def queued_def split: if_splits)

section \<open>What the monitors send\<close>

text \<open>
  C21: the rewards of a round go to the wallet exactly if the flag says so or the stake of the reporter with the rewards would
  exceed its share of the bonded tokens, which is compared without rounding; otherwise they are staked with a validator.
\<close>

theorem rewards_destination:
  assumes "legacy_laws L val" and "bech32_laws B"
    and "c' = WithdrawAndStakeEarnedRewards L r B getenv cfg accAddr ans ctxDone c" and "rb_txChan c' \<noteq> rb_txChan c"
  shows "if ws_WithdrawToWallet cfg \<or>
      (\<exists>threshold pw tips bonded. ld_FromStr L (if ws_PowerThreshold cfg = [] then ''0.295'' else ws_PowerThreshold cfg) = Some threshold \<and>
         ra_Reporter ans = Inr pw \<and> ra_AvailableTips ans = Inr tips \<and> ra_Pool ans = Inr bonded \<and>
         of_int bonded * val threshold < of_int (uint pw * r + ld_TruncateInt L tips))
    then queued (MsgWithdrawTipToBalance accAddr) False c c'
    else \<exists>v b. queued (MsgWithdrawTip accAddr v) False c c' \<and> b32_Decode B v = Some (''tellorvaloper'', b)"
proof -
  let ?d = "shouldWithdrawTipsToWallet L r cfg ans"
  obtain w where w: "?d = Inr w" using assms(3,4) by (cases ?d) (auto simp: WithdrawAndStakeEarnedRewards_def)
  have "w \<longleftrightarrow> ws_WithdrawToWallet cfg \<or>
      (\<exists>threshold pw tips bonded. ld_FromStr L (if ws_PowerThreshold cfg = [] then ''0.295'' else ws_PowerThreshold cfg) = Some threshold \<and>
         ra_Reporter ans = Inr pw \<and> ra_AvailableTips ans = Inr tips \<and> ra_Pool ans = Inr bonded \<and>
         of_int bonded * val threshold < of_int (uint pw * r + ld_TruncateInt L tips))"
    using w by (auto simp: shouldWithdrawTipsToWallet_def Let_def DefaultWithdrawToWalletPowerThreshold_def
        projected_share [OF assms(1)] split: if_splits option.splits sum.splits)
  moreover have "if w then queued (MsgWithdrawTipToBalance accAddr) False c c'
    else \<exists>v b. queued (MsgWithdrawTip accAddr v) False c c' \<and> b32_Decode B v = Some (''tellorvaloper'', b)"
  proof (cases w)
    case True
    then show ?thesis using w assms(3,4) trySend_changes by (auto simp: WithdrawAndStakeEarnedRewards_def)
  next
    case False
    then obtain v src where v: "validatorOperatorAddress B getenv accAddr = Inr (v, src)"
      using w assms(3,4) by (cases "validatorOperatorAddress B getenv accAddr") (auto simp: WithdrawAndStakeEarnedRewards_def)
    then have "queued (MsgWithdrawTip accAddr v) False c c'"
      using False w assms(3,4) trySend_changes by (auto simp: WithdrawAndStakeEarnedRewards_def)
    then show ?thesis using False validatorOperatorAddress_prefix [OF assms(2) v] by auto
  qed
  ultimately show ?thesis by simp
qed

text \<open>
  C22: a tick that unbonds asks for the configured amount, and with a positive maximum this is at most that part of the
  reporter's own stake: rounding never lets more through.
\<close>

theorem unbond_within_limit:
  assumes "legacy_laws L val" and "AutoUnbondStake_start L B getenv cfg accAddr = Inr (Some um)"
    and "c' = AutoUnbondStake_tick L accAddr answer ctxDone um c" and "rb_txChan c' \<noteq> rb_txChan c"
  shows "\<exists>maximum selections. ld_FromStr L (us_MaxStakePercentage cfg) = Some maximum \<and> answer = Inr selections \<and>
    queued (MsgUndelegate accAddr (um_valAddr um) (uint (us_Amount cfg))) False c c' \<and>
    (0 < val maximum \<longrightarrow> of_int (uint (us_Amount cfg)) \<le> of_int (own_stake accAddr selections) * val maximum)"
proof -
  obtain maximum where m: "ld_FromStr L (us_MaxStakePercentage cfg) = Some maximum" "um_maxStakePercentage um = maximum"
    "um_unbondAmount um = uint (us_Amount cfg)"
    using assms(2) by (auto simp: AutoUnbondStake_start_def split: if_splits option.splits sum.splits)
  obtain selections where s: "answer = Inr selections"
    using assms(3,4) by (cases answer) (auto simp: AutoUnbondStake_tick_def)
  let ?stake = "ld_FromInt L (own_stake accAddr selections)"
  have no_skip: "\<not> shouldSkipAutoUnbond L ?stake maximum (uint (us_Amount cfg))"
    and q: "queued (MsgUndelegate accAddr (um_valAddr um) (uint (us_Amount cfg))) False c c'"
    using assms(3,4) s m trySend_changes by (auto simp: AutoUnbondStake_tick_def split: if_splits)
  have "val (ld_Mul L ?stake maximum) = of_int (own_stake accAddr selections) * val maximum"
    using assms(1) by (intro legacy_mul_int) (simp_all add: legacy_laws_def)
  then have "0 < val maximum \<longrightarrow> of_int (uint (us_Amount cfg)) \<le> of_int (own_stake accAddr selections) * val maximum"
    using no_skip assms(1) by (auto simp: shouldSkipAutoUnbond_def legacy_laws_def)
  then show ?thesis using m(1) s q by blast
qed

lemma atoi_time: "parseAutoBalanceExecutionTime s = Inr (h, m) \<Longrightarrow> 0 \<le> h \<and> h \<le> 23 \<and> 0 \<le> m \<and> m \<le> 59"
  by (auto simp: parseAutoBalanceExecutionTime_def split: list.splits option.splits if_splits)

lemma next_in_day:
  fixes now :: int
  assumes "0 \<le> x" and "x < d" and "(0 :: int) < d"
  defines "n \<equiv> (if \<not> now < now - now mod d + x then now - now mod d + x + d else now - now mod d + x)"
  shows "now < n \<and> n \<le> now + d \<and> n mod d = x \<and> (\<forall>t. now < t \<and> t mod d = x \<longrightarrow> n \<le> t)"
proof -
  have r: "0 \<le> now mod d" "now mod d < d" using assms(3) by simp_all
  have base: "(now - now mod d) mod d = 0" by (simp add: mod_diff_right_eq)
  have nm: "n mod d = x" using assms(1,2) base unfolding n_def by (simp add: mod_add_eq [symmetric] mod_add_left_eq)
  have bounds: "now < n \<and> n \<le> now + d"
  proof (cases "now < now - now mod d + x")
    case True
    then have "n = now - now mod d + x" unfolding n_def by (subst if_not_P) simp_all
    then show ?thesis using True r assms(2) by linarith
  next
    case False
    then have "n = now - now mod d + x + d" unfolding n_def by (subst if_P) simp_all
    then show ?thesis using False r assms(1) by linarith
  qed
  have "n \<le> t" if "now < t" "t mod d = x" for t
  proof (rule ccontr)
    assume "\<not> n \<le> t"
    then have "0 < n - t" "n - t < d" using that(1) bounds by auto
    moreover have "(n - t) mod d = 0" using nm that(2) by (metis mod_diff_eq diff_self mod_0)
    ultimately show False using mod_pos_pos_trivial [of "n - t" d] by simp
  qed
  then show ?thesis using nm bounds by blast
qed

text \<open>
  C23: the monitor of the balance acts at the configured time of the day, the next one after now; and when it bridges, the
  wallet keeps exactly the configured balance and one TRB for gas.
\<close>

theorem bridge_keeps_reserve:
  assumes "AutoBridge_start H cfg = Some bm"
  shows "(let next = next_execution now (bm_hour bm) (bm_minute bm); x = time_of_day (bm_hour bm) (bm_minute bm) in
      now < next \<and> next mod Day = x \<and> (\<forall>t. now < t \<and> t mod Day = x \<longrightarrow> next \<le> t)) \<and>
    (\<forall>answer ctxDone c c'. c' = AutoBridge_tick accAddr answer ctxDone bm c \<and> rb_txChan c' \<noteq> rb_txChan c \<longrightarrow>
      (\<exists>balance amount. answer = Inr balance \<and> queued (MsgWithdrawTokens accAddr (bm_ethAddr bm) amount) True c c' \<and>
         0 < amount \<and> balance - amount = uint (bs_BalanceToKeep cfg) + 1000000))"
proof
  have "parseAutoBalanceExecutionTime (bs_ExecutionTime cfg) = Inr (bm_hour bm, bm_minute bm)"
    using assms by (auto simp: AutoBridge_start_def split: if_splits sum.splits)
  then have hm: "0 \<le> bm_hour bm" "bm_hour bm \<le> 23" "0 \<le> bm_minute bm" "bm_minute bm \<le> 59" using atoi_time by blast+
  then have "0 \<le> time_of_day (bm_hour bm) (bm_minute bm)" "time_of_day (bm_hour bm) (bm_minute bm) < Day" "0 < Day"
    by (simp_all add: time_of_day_def Day_def)
  from next_in_day [OF this, of now]
  show "let next = next_execution now (bm_hour bm) (bm_minute bm); x = time_of_day (bm_hour bm) (bm_minute bm) in
      now < next \<and> next mod Day = x \<and> (\<forall>t. now < t \<and> t mod Day = x \<longrightarrow> next \<le> t)"
    unfolding next_execution_def Let_def time_Before_def time_Add_def by blast
  have keep: "bm_keep bm = bs_BalanceToKeep cfg" using assms by (auto simp: AutoBridge_start_def split: if_splits sum.splits)
  show "\<forall>answer ctxDone c c'. c' = AutoBridge_tick accAddr answer ctxDone bm c \<and> rb_txChan c' \<noteq> rb_txChan c \<longrightarrow>
      (\<exists>balance amount. answer = Inr balance \<and> queued (MsgWithdrawTokens accAddr (bm_ethAddr bm) amount) True c c' \<and>
         0 < amount \<and> balance - amount = uint (bs_BalanceToKeep cfg) + 1000000)"
  proof (intro allI impI, elim conjE)
    fix answer ctxDone c c'
    assume c': "c' = AutoBridge_tick accAddr answer ctxDone bm c" and ne: "rb_txChan c' \<noteq> rb_txChan c"
    obtain balance where b: "answer = Inr balance" using c' ne by (cases answer) (auto simp: AutoBridge_tick_def)
    let ?amount = "balance - uint (bm_keep bm) - 1000000"
    have "0 < ?amount" "queued (MsgWithdrawTokens accAddr (bm_ethAddr bm) ?amount) True c c'"
      using c' ne b trySend_changes by (auto simp: AutoBridge_tick_def Let_def split: if_splits)
    then show "\<exists>balance amount. answer = Inr balance \<and> queued (MsgWithdrawTokens accAddr (bm_ethAddr bm) amount) True c c' \<and>
         0 < amount \<and> balance - amount = uint (bs_BalanceToKeep cfg) + 1000000"
      using b keep by (intro exI [of _ balance] exI [of _ ?amount]) simp
  qed
qed

text \<open>
  A frequency of zero or below is taken as it is: the monitor then asks for the rewards again and again without a pause,
  until the context ends.
\<close>

theorem withdraw_without_pause:
  assumes "withdraw_frequency getenv = Some f" and "f \<le> 0" and "- 9223372036 \<le> f"
  shows "waitForRewardWithdrawal f = 0"
proof -
  have "int64_wrap f = f" "int64_wrap (f * 10 ^ 9) = f * 10 ^ 9" using assms(2,3) by (simp_all add: int64_wrap_def)
  then show ?thesis using assms(2) by (simp add: waitForRewardWithdrawal_def)
qed

section \<open>Concrete rounds\<close>

text \<open>Decimals as whole numbers of units of \<open>10 ^ -18\<close>, rounding half up; addresses with a separator.\<close>

definition demo_legacy :: "int legacy_ops" where
  "demo_legacy = \<lparr>ld_FromStr = (\<lambda>s. if s = ''0.295'' then Some (295 * 10 ^ 15) else if s = ''0.1'' then Some (10 ^ 17) else None),
     ld_FromInt = (\<lambda>n. n * 10 ^ 18), ld_Mul = (\<lambda>x y. (x * y + 5 * 10 ^ 17) div 10 ^ 18), ld_GT = (\<lambda>x y. x > y),
     ld_LT = (\<lambda>x y. x < y), ld_TruncateInt = (\<lambda>x. if x < 0 then - (- x div 10 ^ 18) else x div 10 ^ 18)\<rparr>"

definition demo_val :: "int \<Rightarrow> rat" where "demo_val x = of_int x / 10 ^ 18"

lemma demo_legacy_laws: "legacy_laws demo_legacy demo_val"
proof -
  have floor: "\<lfloor>(of_int x :: rat) / 10 ^ 18\<rfloor> = x div 10 ^ 18" for x :: int
    using floor_divide_of_int_eq [of x "10 ^ 18", where ?'a = rat] by simp
  have floor2: "\<lfloor>(of_int x :: rat) / 1000000000000000000\<rfloor> = x div 1000000000000000000"
    "\<lfloor>- ((of_int x :: rat) / 1000000000000000000)\<rfloor> = - x div 1000000000000000000" for x :: int
    using floor [of x] floor [of "- x"] by simp_all
  have "\<bar>demo_val ((x * y + 5 * 10 ^ 17) div 10 ^ 18) - demo_val x * demo_val y\<bar> \<le> 1 / (2 * 10 ^ 18)" for x y
  proof -
    define q where "q = (x * y + 5 * 10 ^ 17) div 10 ^ 18"
    define r where "r = (x * y + 5 * 10 ^ 17) mod 10 ^ 18"
    define z where "z = x * y"
    have "q * 10 ^ 18 + r = z + 5 * 10 ^ 17" unfolding q_def r_def z_def by (rule div_mult_mod_eq)
    moreover have "0 \<le> r" "r < 10 ^ 18" unfolding r_def by simp_all
    ultimately have "\<bar>q * 10 ^ 18 - z\<bar> \<le> 5 * 10 ^ 17" by simp
    then have "\<bar>q * 10 ^ 18 - x * y\<bar> \<le> 5 * 10 ^ 17" unfolding z_def .
    then have "(of_int \<bar>q * 10 ^ 18 - x * y\<bar> :: rat) \<le> of_int (5 * 10 ^ 17)" by (simp only: of_int_le_iff)
    then have "\<bar>of_int (q * 10 ^ 18 - x * y) :: rat\<bar> \<le> 5 * 10 ^ 17" by simp
    moreover have "demo_val q - demo_val x * demo_val y = of_int (q * 10 ^ 18 - x * y) / 10 ^ 36"
      by (simp add: demo_val_def field_simps)
    moreover have "\<bar>a / 10 ^ 36\<bar> \<le> 1 / (2 * 10 ^ 18)" if "\<bar>a\<bar> \<le> 5 * 10 ^ 17" for a :: rat
      using that by (simp add: abs_divide field_simps)
    ultimately show ?thesis unfolding q_def [symmetric] by (simp only:)
  qed
  then show ?thesis
    by (simp add: legacy_laws_def demo_legacy_def) (simp add: demo_val_def divide_less_cancel floor2)
qed

definition demo_bech32 :: bech32_ops where
  "demo_bech32 = \<lparr>b32_Decode = (\<lambda>s. if CHR ''1'' \<in> set s
       then Some (takeWhile (\<lambda>c. c \<noteq> CHR ''1'') s, map of_char (tl (dropWhile (\<lambda>c. c \<noteq> CHR ''1'') s))) else None),
     b32_Encode = (\<lambda>p b. if CHR ''1'' \<notin> set p \<and> list_all (\<lambda>x. x < 256) b then Some (p @ ''1'' @ map char_of b) else None)\<rparr>"

lemma demo_bech32_laws: "bech32_laws demo_bech32"
proof -
  have "takeWhile (\<lambda>c. c \<noteq> CHR ''1'') (p @ CHR ''1'' # s) = p \<and> dropWhile (\<lambda>c. c \<noteq> CHR ''1'') (p @ CHR ''1'' # s) = CHR ''1'' # s"
    if "CHR ''1'' \<notin> set p" for p s
    using that by (induction p) auto
  moreover have "list_all (\<lambda>x. x < 256) b \<Longrightarrow> map (of_char \<circ> char_of) b = (b :: nat list)" for b
    by (induction b) auto
  ultimately show ?thesis by (auto simp: bech32_laws_def demo_bech32_def comp_def split: if_splits)
qed

definition demo_wallet :: withdraw_settings where
  "demo_wallet = \<lparr>ws_WithdrawToWallet = False, ws_PowerThreshold = []\<rparr>"

text \<open>A power of 294 and one coin and a bit of rewards, of 1000 coins bonded: more than the share of 0.295.\<close>

definition demo_rewards :: "int reward_answers" where
  "demo_rewards = \<lparr>ra_Reporter = Inr 294, ra_AvailableTips = Inr (1000001 * 10 ^ 18), ra_Pool = Inr (1000 * 1000000)\<rparr>"

theorem rewards_destination_witness:
  "queued (MsgWithdrawTipToBalance ''tellor1a'') False BridgeCaches.demo_bridge
     (WithdrawAndStakeEarnedRewards demo_legacy 1000000 demo_bech32 (\<lambda>v. []) demo_wallet ''tellor1a'' demo_rewards False
       BridgeCaches.demo_bridge)"
proof -
  let ?c' = "WithdrawAndStakeEarnedRewards demo_legacy 1000000 demo_bech32 (\<lambda>v. []) demo_wallet ''tellor1a'' demo_rewards False
       BridgeCaches.demo_bridge"
  have ch: "rb_txChan ?c' \<noteq> rb_txChan BridgeCaches.demo_bridge" by code_simp
  have "ld_FromStr demo_legacy (if ws_PowerThreshold demo_wallet = [] then ''0.295'' else ws_PowerThreshold demo_wallet) =
      Some (295 * 10 ^ 15)"
    "of_int (1000 * 1000000) * demo_val (295 * 10 ^ 15) <
      of_int (uint (294 :: uint64) * 1000000 + ld_TruncateInt demo_legacy (1000001 * 10 ^ 18))"
    by (simp_all add: demo_legacy_def demo_wallet_def demo_val_def)
  moreover have "ra_Reporter demo_rewards = Inr 294" "ra_AvailableTips demo_rewards = Inr (1000001 * 10 ^ 18)"
    "ra_Pool demo_rewards = Inr (1000 * 1000000)" by (simp_all add: demo_rewards_def)
  ultimately show ?thesis
    using rewards_destination [OF demo_legacy_laws demo_bech32_laws refl ch] by (metis (no_types, lifting))
qed

definition demo_unbond :: unbond_settings where
  "demo_unbond = \<lparr>us_Frequency = 7, us_Amount = 100, us_MaxStakePercentage = ''0.1''\<rparr>"

theorem unbond_within_limit_witness:
  "\<exists>um. AutoUnbondStake_start demo_legacy demo_bech32 (\<lambda>v. []) demo_unbond ''tellor1a'' = Inr (Some um) \<and>
     queued (MsgUndelegate ''tellor1a'' (um_valAddr um) 100) False BridgeCaches.demo_bridge
       (AutoUnbondStake_tick demo_legacy ''tellor1a'' (Inr [(''tellor1b'', 7), (''tellor1a'', 1000)]) False um BridgeCaches.demo_bridge) \<and>
     (100 :: rat) \<le> 1000 * (1 / 10)"
proof -
  let ?um = "\<lparr>um_maxStakePercentage = 10 ^ 17, um_unbondAmount = 100, um_valAddr = ''tellorvaloper1a''\<rparr>"
  have st: "AutoUnbondStake_start demo_legacy demo_bech32 (\<lambda>v. []) demo_unbond ''tellor1a'' = Inr (Some ?um)" by code_simp
  have ch: "rb_txChan (AutoUnbondStake_tick demo_legacy ''tellor1a'' (Inr [(''tellor1b'', 7), (''tellor1a'', 1000)]) False ?um
      BridgeCaches.demo_bridge) \<noteq> rb_txChan BridgeCaches.demo_bridge" by code_simp
  have "ld_FromStr demo_legacy (us_MaxStakePercentage demo_unbond) = Some (10 ^ 17)" "demo_val (10 ^ 17) = 1 / 10"
    "own_stake ''tellor1a'' [(''tellor1b'', 7), (''tellor1a'', 1000)] = 1000" "uint (us_Amount demo_unbond) = 100"
    by (simp_all add: demo_legacy_def demo_unbond_def demo_val_def own_stake_def)
  with unbond_within_limit [OF demo_legacy_laws st refl ch] st show ?thesis by auto
qed

definition demo_address :: eth_address_ops where
  "demo_address = \<lparr>ea_IsHexAddress = (\<lambda>a. length a = 4), ea_Hex = (\<lambda>a. ''0x'' @ a)\<rparr>"

definition demo_balance :: balance_settings where
  "demo_balance = \<lparr>bs_BalanceToKeep = 5000000, bs_BridgeToEthAddr = ''beef'', bs_ExecutionTime = ''03:05''\<rparr>"

theorem bridge_keeps_reserve_witness:
  "\<exists>bm. AutoBridge_start demo_address demo_balance = Some bm \<and> next_execution (Day + 1) (bm_hour bm) (bm_minute bm) > Day + 1 \<and>
     queued (MsgWithdrawTokens ''tellor1a'' ''beef'' 4000000) True BridgeCaches.demo_bridge
       (AutoBridge_tick ''tellor1a'' (Inr 10000000) False bm BridgeCaches.demo_bridge)"
proof -
  let ?bm = "\<lparr>bm_keep = 5000000, bm_ethAddr = ''beef'', bm_hour = 3, bm_minute = 5\<rparr>"
  have st: "AutoBridge_start demo_address demo_balance = Some ?bm" by code_simp
  have ch: "rb_txChan (AutoBridge_tick ''tellor1a'' (Inr 10000000) False ?bm BridgeCaches.demo_bridge) \<noteq>
      rb_txChan BridgeCaches.demo_bridge" by code_simp
  have "uint (bs_BalanceToKeep demo_balance) = 5000000" by (simp add: demo_balance_def)
  then show ?thesis using bridge_keeps_reserve [OF st, of "Day + 1" "''tellor1a''"] st ch
    by (intro exI [of _ ?bm]) (fastforce simp: Let_def)
qed

theorem withdraw_without_pause_witness:
  "withdraw_frequency (\<lambda>v. ''0'') = Some 0 \<and> waitForRewardWithdrawal 0 = 0"
proof -
  have f: "withdraw_frequency (\<lambda>v. ''0'') = Some 0" by code_simp
  then show ?thesis using withdraw_without_pause [OF f] by simp
qed

end
