(* ===== verification/ReporterStart.thy ===== *)
theory ReporterStart
  imports StakeMonitors
begin

text \<open>
  The start of the reporter (\<open>reporter/client/client.go\<close>): the validation of the settings, the keyring with its password
  file, the connections, and the wait for the reporter to exist. The keyring, the remote signer and the files are
  parameters.
\<close>

section \<open>The settings\<close>

text \<open>An option is \<open>None\<close> if it is not set.\<close>

record start_settings =
  ss_PriceGuardEnabled :: bool
  ss_PriceGuardThreshold :: "rat option"
  ss_PriceGuardMaxAge :: "duration option"
  ss_PriceGuardUpdateOnBlocked :: "bool option"
  ss_RefreshGasEstimatesInterval :: duration
  ss_TxBroadcastTimeout :: duration
  ss_UnorderedTxTimeout :: duration
  ss_TxTimeoutHeightOffset :: uint64
  ss_Withdraw :: withdraw_settings
  ss_Unbond :: unbond_settings
  ss_Balance :: balance_settings

datatype start_error =
    SGuardThresholdUnset | SGuardThreshold rat | SGuardMaxAgeUnset | SGuardMaxAge duration | SGuardUpdateUnset
  | SGuardDisabled
  | STxBroadcastTimeout duration | SUnorderedTxTimeout duration | STxTimeoutHeightOffset
  | SWithdrawThreshold
  | SUnbondFrequency uint32 | SUnbondAmount | SUnbondPercentage string
  | SBridgeAddress string | SBridgeAddressRequired | SBridgeTime string

definition price_guard_settings :: "start_settings \<Rightarrow> start_error + PriceGuard" where
  "price_guard_settings s =
     (let updateOnBlocked = (ss_PriceGuardUpdateOnBlocked s = Some True) in
      if ss_PriceGuardEnabled s then
        (case ss_PriceGuardThreshold s of
           None \<Rightarrow> Inl SGuardThresholdUnset
         | Some threshold \<Rightarrow>
             if threshold \<le> 0 then Inl (SGuardThreshold threshold)
             else case ss_PriceGuardMaxAge s of
               None \<Rightarrow> Inl SGuardMaxAgeUnset
             | Some maxAge \<Rightarrow>
                 if maxAge \<le> 0 then Inl (SGuardMaxAge maxAge)
                 else if ss_PriceGuardUpdateOnBlocked s = None then Inl SGuardUpdateUnset
                 else Inr (NewPriceGuard threshold maxAge True updateOnBlocked))
      else if ss_PriceGuardThreshold s \<noteq> None \<or> ss_PriceGuardMaxAge s \<noteq> None \<or> ss_PriceGuardUpdateOnBlocked s \<noteq> None
        then Inl SGuardDisabled
      else Inr (NewPriceGuard 0 0 False updateOnBlocked))"

definition timeout_settings :: "start_settings \<Rightarrow> start_error option" where
  "timeout_settings s =
     (if ss_TxBroadcastTimeout s \<le> 0 then Some (STxBroadcastTimeout (ss_TxBroadcastTimeout s))
      else if ss_UnorderedTxTimeout s \<le> 0 then Some (SUnorderedTxTimeout (ss_UnorderedTxTimeout s))
      else if ss_TxTimeoutHeightOffset s = 0 then Some STxTimeoutHeightOffset
      else None)"

definition withdraw_settings_ok :: "'d legacy_ops \<Rightarrow> withdraw_settings \<Rightarrow> start_error option" where
  "withdraw_settings_ok L cfg =
     (case ld_FromStr L (if ws_PowerThreshold cfg = [] then DefaultWithdrawToWalletPowerThreshold else ws_PowerThreshold cfg) of
        None \<Rightarrow> Some SWithdrawThreshold
      | Some t \<Rightarrow>
          if \<not> ld_GT L t (ld_FromInt L 0) \<or> ld_GT L t (ld_FromInt L 1) then Some SWithdrawThreshold else None)"

definition unbond_settings_ok :: "'d legacy_ops \<Rightarrow> unbond_settings \<Rightarrow> start_error option" where
  "unbond_settings_ok L cfg =
     (if us_Frequency cfg > 0 then
        (if us_Frequency cfg > 21 then Some (SUnbondFrequency (us_Frequency cfg))
         else if us_Amount cfg = 0 then Some SUnbondAmount
         else case ld_FromStr L (us_MaxStakePercentage cfg) of
           None \<Rightarrow> Some (SUnbondPercentage (us_MaxStakePercentage cfg))
         | Some p \<Rightarrow>
             if ld_LT L p (ld_FromInt L 0) \<or> ld_GT L p (ld_FromInt L 1)
             then Some (SUnbondPercentage (us_MaxStakePercentage cfg)) else None)
      else None)"

definition balance_settings_ok :: "eth_address_ops \<Rightarrow> balance_settings \<Rightarrow> start_error option" where
  "balance_settings_ok H cfg =
     (if bs_BalanceToKeep cfg > 0 then
        (case normalizeAutoBalanceEthAddr H (bs_BridgeToEthAddr cfg) of
           Inl a \<Rightarrow> Some (SBridgeAddress a)
         | Inr ethAddr \<Rightarrow>
             if ethAddr = [] then Some SBridgeAddressRequired
             else case parseAutoBalanceExecutionTime (bs_ExecutionTime cfg) of
               Inl t \<Rightarrow> Some (SBridgeTime t) | Inr hm \<Rightarrow> None)
      else None)"

text \<open>The first error of the checks in the order of \<open>Start\<close>, or the price guard.\<close>

definition validate_settings :: "'d legacy_ops \<Rightarrow> eth_address_ops \<Rightarrow> start_settings \<Rightarrow> start_error + PriceGuard" where
  "validate_settings L H s =
     (case price_guard_settings s of
        Inl e \<Rightarrow> Inl e
      | Inr guard \<Rightarrow>
          (case timeout_settings s of Some e \<Rightarrow> Inl e
           | None \<Rightarrow> (case withdraw_settings_ok L (ss_Withdraw s) of Some e \<Rightarrow> Inl e
           | None \<Rightarrow> (case unbond_settings_ok L (ss_Unbond s) of Some e \<Rightarrow> Inl e
           | None \<Rightarrow> (case balance_settings_ok H (ss_Balance s) of Some e \<Rightarrow> Inl e
           | None \<Rightarrow> Inr guard)))))"

section \<open>The password file\<close>

record repeatingPasswordReader =
  rp_line :: string
  rp_pos :: nat

definition newRepeatingPasswordReader :: "string \<Rightarrow> repeatingPasswordReader" where
  "newRepeatingPasswordReader pass = \<lparr>rp_line = pass @ [CHR 0x0A], rp_pos = 0\<rparr>"

fun Read :: "nat \<Rightarrow> repeatingPasswordReader \<Rightarrow> string \<times> repeatingPasswordReader" where
  "Read 0 r = ([], r)"
| "Read (Suc n) r =
     (let c = rp_line r ! rp_pos r;
          (p, r') = Read n (r\<lparr>rp_pos := (rp_pos r + 1) mod length (rp_line r)\<rparr>)
      in (c # p, r'))"

datatype keyring_input = Stdin | PasswordInput repeatingPasswordReader

datatype keyring_cause =
    KReadFile string | KEmptyFile | KBackendRequired | KBackendUnsupported string | KNeedsFileBackend string
  | KRemoteSigner string | KNew string | KKey string | KAddress string | KUnlock string | KNoSignature

text \<open>Whether an error wraps \<open>ErrKeyringPasswordFile\<close>.\<close>

datatype keyring_error = PasswordFileError keyring_cause | OtherError keyring_cause

definition IsKeyringPasswordFileError :: "keyring_error \<Rightarrow> bool" where
  "IsKeyringPasswordFileError e = (case e of PasswordFileError c \<Rightarrow> True | OtherError c \<Rightarrow> False)"

definition keyringReader ::
    "(string \<Rightarrow> string) \<Rightarrow> (string \<Rightarrow> string + string) \<Rightarrow> keyring_error + keyring_input \<times> bool" where
  "keyringReader getenv readFile =
     (let passFile = getenv ''KEYRING_PASSWORD_FILE'' in
      if passFile = [] then Inr (Stdin, False)
      else case readFile passFile of
        Inl err \<Rightarrow> Inl (PasswordFileError (KReadFile err))
      | Inr data \<Rightarrow>
          let pass = strings_TrimSpace data in
          if pass = [] then Inl (PasswordFileError KEmptyFile)
          else Inr (PasswordInput (newRepeatingPasswordReader pass), True))"

definition validKeyringBackends :: "string list" where
  "validKeyringBackends = [''os'', ''file'', ''kwallet'', ''pass'', ''test'', ''memory'']"

definition validateKeyringBackendConfig :: "string \<Rightarrow> bool \<Rightarrow> keyring_error option" where
  "validateKeyringBackendConfig backend usingPasswordFile =
     (let backend = strings_TrimSpace backend in
      if backend = [] then Some (OtherError KBackendRequired)
      else if backend \<notin> set validKeyringBackends then Some (OtherError (KBackendUnsupported backend))
      else if usingPasswordFile \<and> backend \<noteq> ''file'' then Some (PasswordFileError (KNeedsFileBackend backend))
      else None)"

text \<open>
  The keyring of the Cosmos SDK: opened for a backend with an input, it gives a record for a name, the record its address,
  and it signs a text (the signature, and whether there is a public key).
\<close>

record 'k keyring_ops =
  ko_New :: "string \<Rightarrow> keyring_input \<Rightarrow> string + 'k"
  ko_Key :: "'k \<Rightarrow> string \<Rightarrow> string + (string + string)"
  ko_Sign :: "'k \<Rightarrow> string \<Rightarrow> string \<Rightarrow> string + string \<times> bool"

definition validateKeyringAccountUnlocked :: "'k keyring_ops \<Rightarrow> 'k \<Rightarrow> string \<Rightarrow> keyring_error option" where
  "validateKeyringAccountUnlocked K kr keyName =
     (case ko_Sign K kr keyName ''layer-daemons keyring unlock check'' of
        Inl err \<Rightarrow> Some (PasswordFileError (KUnlock err))
      | Inr (sig, hasPubKey) \<Rightarrow> if sig = [] \<or> \<not> hasPubKey then Some (PasswordFileError KNoSignature) else None)"

text \<open>
  The account of the reporter and the chain: \<open>signer\<close> is what the connection to the remote signer gives, the address and
  the chain ID it reports. With a remote signer no local keyring is opened.
\<close>

record 'k keyring_setup =
  ks_keyring :: "'k option"
  ks_address :: string
  ks_chainID :: string

definition setupKeyring ::
    "'k keyring_ops \<Rightarrow> (string \<Rightarrow> string) \<Rightarrow> (string \<Rightarrow> string + string) \<Rightarrow> string \<Rightarrow> (string \<Rightarrow> string + string \<times> string) \<Rightarrow>
     string \<Rightarrow> string \<Rightarrow> string \<Rightarrow> keyring_error + 'k keyring_setup" where
  "setupKeyring K getenv readFile remoteSignerAddr signer keyName kb chainId =
     (if remoteSignerAddr \<noteq> [] then
        (case signer remoteSignerAddr of
           Inl err \<Rightarrow> Inl (OtherError (KRemoteSigner err))
         | Inr (signerAccAddr, signerChainID) \<Rightarrow>
             Inr \<lparr>ks_keyring = None, ks_address = signerAccAddr,
                  ks_chainID = (if signerChainID \<noteq> [] then signerChainID else chainId)\<rparr>)
      else
        (case keyringReader getenv readFile of
           Inl e \<Rightarrow> Inl e
         | Inr (keyringInput, usingPasswordFile) \<Rightarrow>
             let wrap = (\<lambda>c. if usingPasswordFile then PasswordFileError c else OtherError c) in
             (case validateKeyringBackendConfig kb usingPasswordFile of
                Some e \<Rightarrow> Inl e
              | None \<Rightarrow>
                  (case ko_New K kb keyringInput of
                     Inl err \<Rightarrow> Inl (wrap (KNew err))
                   | Inr kr \<Rightarrow>
                       (case ko_Key K kr keyName of
                          Inl err \<Rightarrow> Inl (wrap (KKey err))
                        | Inr (Inl err) \<Rightarrow> Inl (OtherError (KAddress err))
                        | Inr (Inr addr) \<Rightarrow>
                            (case (if usingPasswordFile then validateKeyringAccountUnlocked K kr keyName else None) of
                               Some e \<Rightarrow> Inl e
                             | None \<Rightarrow> Inr \<lparr>ks_keyring = Some kr, ks_address = addr, ks_chainID = chainId\<rparr>))))))"

section \<open>The wait for the reporter\<close>

text \<open>\<open>direct i\<close> and \<open>selector i\<close> are the errors of the two lookups of attempt \<open>i\<close>, which may fall back to other endpoints.\<close>

fun checkReporter_loop ::
    "(nat \<Rightarrow> string option) \<Rightarrow> (nat \<Rightarrow> string option) \<Rightarrow> nat \<Rightarrow> nat \<Rightarrow> bool" where
  "checkReporter_loop direct selector 0 attempt = False"
| "checkReporter_loop direct selector (Suc remaining) attempt =
     (if direct attempt = None then True
      else if isConnectionError (direct attempt) \<and> remaining > 0
        then checkReporter_loop direct selector remaining (Suc attempt)
      else if selector attempt = None then True
      else if isConnectionError (selector attempt) \<and> remaining > 0
        then checkReporter_loop direct selector remaining (Suc attempt)
      else if \<not> isConnectionError (selector attempt) \<or> remaining = 0 then False
      else checkReporter_loop direct selector remaining (Suc attempt))"

definition checkReporter :: "(nat \<Rightarrow> string option) \<Rightarrow> (nat \<Rightarrow> string option) \<Rightarrow> bool" where
  "checkReporter direct selector = checkReporter_loop direct selector 3 0"

text \<open>
  The loop at the start of \<open>StartReporterDaemonTaskLoop\<close>: it ends when the reporter is there and the gas price is set
  (\<open>True\<close>), or when the context is done (\<open>False\<close>), and otherwise runs for ever.
\<close>

partial_function (option) await_reporter ::
    "(nat \<Rightarrow> bool) \<Rightarrow> (nat \<Rightarrow> bool) \<Rightarrow> (nat \<Rightarrow> bool) \<Rightarrow> nat \<Rightarrow> bool option" where
  "await_reporter ctxDone reporterCreated gasPriceSet n =
     (if ctxDone n then Some False
      else if reporterCreated n \<and> gasPriceSet n then Some True
      else await_reporter ctxDone reporterCreated gasPriceSet (Suc n))"

section \<open>What a validated start promises\<close>


text \<open>
  The answers of the password reader: whatever pieces the keyring reads, it sees the password and a newline over and over.
\<close>

theorem password_repeats:
  assumes "rp_pos r < length (rp_line r)"
  shows "Read n r = (map (\<lambda>i. rp_line r ! ((rp_pos r + i) mod length (rp_line r))) [0..<n],
    r\<lparr>rp_pos := (rp_pos r + n) mod length (rp_line r)\<rparr>)"
  using assms
proof (induction n arbitrary: r)
  case (Suc n)
  let ?len = "length (rp_line r)"
  let ?r1 = "r\<lparr>rp_pos := (rp_pos r + 1) mod ?len\<rparr>"
  have "0 < ?len" using Suc.prems by linarith
  then have "rp_pos ?r1 < length (rp_line ?r1)" by simp
  from Suc.IH [OF this] have "Read n ?r1 = (map (\<lambda>i. rp_line r ! ((rp_pos r + 1 + i) mod ?len)) [0..<n],
      r\<lparr>rp_pos := (rp_pos r + 1 + n) mod ?len\<rparr>)" by (simp add: mod_simps)
  moreover have "rp_line r ! rp_pos r # map (\<lambda>i. rp_line r ! ((rp_pos r + 1 + i) mod ?len)) [0..<n] =
      map (\<lambda>i. rp_line r ! ((rp_pos r + i) mod ?len)) [0..<Suc n]"
    using Suc.prems by (simp add: map_upt_Suc del: upt_Suc)
  ultimately show ?case by (simp add: Let_def)
qed simp

text \<open>
  A local keyring that is unlocked by a password file: it is the file backend, the password is not empty, and the account
  has signed. Every failure on the way, except one of the record's address, is marked as one of the password file.
\<close>

theorem password_file_unlocks:
  assumes "getenv ''KEYRING_PASSWORD_FILE'' \<noteq> []"
  shows "case setupKeyring K getenv readFile [] signer keyName kb chainId of
      Inr ks \<Rightarrow> strings_TrimSpace kb = ''file'' \<and>
        (\<exists>text kr sig. readFile (getenv ''KEYRING_PASSWORD_FILE'') = Inr text \<and> strings_TrimSpace text \<noteq> [] \<and>
           ks_keyring ks = Some kr \<and> ko_New K kb (PasswordInput (newRepeatingPasswordReader (strings_TrimSpace text))) = Inr kr \<and>
           ko_Key K kr keyName = Inr (Inr (ks_address ks)) \<and>
           ko_Sign K kr keyName ''layer-daemons keyring unlock check'' = Inr (sig, True) \<and> sig \<noteq> [])
    | Inl e \<Rightarrow> IsKeyringPasswordFileError e \<or> (\<exists>err. e = OtherError (KAddress err)) \<or>
        strings_TrimSpace kb \<notin> set validKeyringBackends"
  using assms
  by (auto simp: setupKeyring_def keyringReader_def validateKeyringBackendConfig_def validateKeyringAccountUnlocked_def
      IsKeyringPasswordFileError_def validKeyringBackends_def Let_def split: sum.splits option.splits if_splits)

text \<open>
  The lookup of the reporter: it is found exactly if one of three attempts finds it, directly or through its selector, and
  the attempts before that one all failed on the connection. The selector is not asked after a failed connection, except
  in the last attempt.
\<close>

definition found_at :: "(nat \<Rightarrow> string option) \<Rightarrow> (nat \<Rightarrow> string option) \<Rightarrow> nat \<Rightarrow> bool" where
  "found_at direct selector i \<longleftrightarrow>
     direct i = None \<or> (isConnectionError (direct i) \<longrightarrow> i = 2) \<and> selector i = None"

definition retried_at :: "(nat \<Rightarrow> string option) \<Rightarrow> (nat \<Rightarrow> string option) \<Rightarrow> nat \<Rightarrow> bool" where
  "retried_at direct selector i \<longleftrightarrow>
     direct i \<noteq> None \<and> (isConnectionError (direct i) \<or> isConnectionError (selector i))"

lemma checkReporter_spec:
  "checkReporter direct selector \<longleftrightarrow> (\<exists>i < 3. found_at direct selector i \<and> (\<forall>j < i. retried_at direct selector j))"
proof -
  have none: "\<not> isConnectionError None" by (simp add: isConnectionError_def)
  have split: "(\<exists>i < 3. P i) \<longleftrightarrow> P 0 \<or> P 1 \<or> P (2 :: nat)" for P
    by (auto simp: numeral_3_eq_3 numeral_2_eq_2 less_Suc_eq)
  have "(\<forall>j < 1. P j) \<longleftrightarrow> P 0" "(\<forall>j < (2 :: nat). P j) \<longleftrightarrow> P 0 \<and> P 1" for P
    by (auto simp: numeral_2_eq_2 less_Suc_eq)
  then show ?thesis unfolding split
    using none by (auto simp: checkReporter_def numeral_3_eq_3 numeral_2_eq_2 found_at_def retried_at_def)
qed

lemma await_reporter_ends:
  assumes "\<And>j. j < k \<Longrightarrow> \<not> ctxDone (n + j) \<and> \<not> (created (n + j) \<and> gas (n + j))"
    and "ctxDone (n + k) \<or> created (n + k) \<and> gas (n + k)"
  shows "await_reporter ctxDone created gas n = Some (\<not> ctxDone (n + k))"
  using assms
proof (induction k arbitrary: n)
  case 0
  then show ?case by (subst await_reporter.simps) auto
next
  case (Suc k)
  have "await_reporter ctxDone created gas (Suc n) = Some (\<not> ctxDone (Suc n + k))"
  proof (rule Suc.IH)
    fix j assume "j < k"
    then show "\<not> ctxDone (Suc n + j) \<and> \<not> (created (Suc n + j) \<and> gas (Suc n + j))" using Suc.prems(1) [of "Suc j"] by simp
  qed (use Suc.prems(2) in simp)
  then show ?case using Suc.prems(1) [of 0] by (subst await_reporter.simps) auto
qed

section \<open>A concrete start\<close>

definition demo_settings :: start_settings where
  "demo_settings = \<lparr>ss_PriceGuardEnabled = True, ss_PriceGuardThreshold = Some (1 / 10), ss_PriceGuardMaxAge = Some (60 * 10 ^ 9),
     ss_PriceGuardUpdateOnBlocked = Some False, ss_RefreshGasEstimatesInterval = 0, ss_TxBroadcastTimeout = 15 * 10 ^ 9,
     ss_UnorderedTxTimeout = 30 * 10 ^ 9, ss_TxTimeoutHeightOffset = 2, ss_Withdraw = demo_wallet, ss_Unbond = demo_unbond,
     ss_Balance = demo_balance\<rparr>"


theorem password_repeats_witness:
  "fst (Read 5 (newRepeatingPasswordReader ''ab'')) = ''ab'' @ [CHR 0x0A] @ ''ab''"
proof -
  let ?r = "newRepeatingPasswordReader ''ab''"
  have "rp_pos ?r < length (rp_line ?r)" by (simp add: newRepeatingPasswordReader_def)
  note read = password_repeats [OF this, of 5]
  have "map (\<lambda>i. rp_line ?r ! ((rp_pos ?r + i) mod length (rp_line ?r))) [0..<5] = ''ab'' @ [CHR 0x0A] @ ''ab''" by code_simp
  then show ?thesis unfolding read fst_conv .
qed

definition demo_keyring :: "string keyring_ops" where
  "demo_keyring = \<lparr>ko_New = (\<lambda>b i. Inr b), ko_Key = (\<lambda>k n. Inr (Inr ''tellor1a'')), ko_Sign = (\<lambda>k n t. Inr (''sig'', True))\<rparr>"

theorem password_file_unlocks_witness:
  "setupKeyring demo_keyring (\<lambda>v. ''pw'') (\<lambda>f. Inr ''secret'') [] (\<lambda>a. Inl []) ''me'' ''file'' ''c'' =
     Inr \<lparr>ks_keyring = Some ''file'', ks_address = ''tellor1a'', ks_chainID = ''c''\<rparr> \<and> strings_TrimSpace ''file'' = ''file''"
proof -
  have s: "setupKeyring demo_keyring (\<lambda>v. ''pw'') (\<lambda>f. Inr ''secret'') [] (\<lambda>a. Inl []) ''me'' ''file'' ''c'' =
     Inr \<lparr>ks_keyring = Some ''file'', ks_address = ''tellor1a'', ks_chainID = ''c''\<rparr>" by code_simp
  have "(\<lambda>v. ''pw'') ''KEYRING_PASSWORD_FILE'' \<noteq> []" by simp
  from password_file_unlocks [where getenv = "\<lambda>v. ''pw''" and K = demo_keyring and readFile = "\<lambda>f. Inr ''secret''" and
      signer = "\<lambda>a. Inl []" and keyName = "''me''" and kb = "''file''" and chainId = "''c''", OF this]
  show ?thesis using s by simp
qed

end
