(* ===== verification/Dispute.thy ===== *)
theory Dispute
  imports RpcReader
begin

text \<open>
  The dispute failsafe (\<open>reporter/dispute\<close>): its configuration from the environment, the check of the open disputes at
  all API nodes, and the run that checks again at every tick and event. HTTP and the decoding of the answers are
  parameters, as is \<open>time.ParseDuration\<close>. A check that finds an open dispute panics.
\<close>

section \<open>The configuration\<close>

record dispute_config =
  dc_Enabled :: bool
  dc_LayerAPIURLs :: "string list"
  dc_RPCEndpoints :: "string list"
  dc_IgnoreDisputes :: "uint64 list"
  dc_CheckInterval :: duration

definition defaultCheckInterval :: duration where "defaultCheckInterval = 30 * 10 ^ 9"

definition isTrue :: "string \<Rightarrow> bool" where
  "isTrue s \<longleftrightarrow> strings_ToLower (strings_TrimSpace s) \<in> {''1'', ''true'', ''yes'', ''on''}"

text \<open>\<open>strconv.ParseUint(s, 10, 64)\<close>.\<close>

definition ParseDisputeID :: "string \<Rightarrow> uint64 option" where
  "ParseDisputeID val =
     (case parse_digits val of Some n \<Rightarrow> if n < 2 ^ 64 then Some (word_of_int n) else None | None \<Rightarrow> None)"

definition LoadConfigFromEnv :: "(string \<Rightarrow> duration option) \<Rightarrow> (string \<Rightarrow> string) \<Rightarrow> string list \<Rightarrow> dispute_config" where
  "LoadConfigFromEnv ParseDuration getenv rpcEndpoints =
     (let urls = getenv ''API_URLS'';
          ignoreIDs = getenv ''DISPUTE_IGNORE_IDS'';
          interval = getenv ''DISPUTE_CHECK_INTERVAL''
      in \<lparr>dc_Enabled = isTrue (getenv ''DISPUTE_MONITOR_ENABLED''),
          dc_LayerAPIURLs =
            (if urls = [] then [] else filter (\<lambda>u. u \<noteq> []) (map strings_TrimSpace (strings_Split (CHR '','') urls))),
          dc_RPCEndpoints = rpcEndpoints,
          dc_IgnoreDisputes =
            (if ignoreIDs = [] then []
             else List.map_filter (\<lambda>s. ParseDisputeID (strings_TrimSpace s)) (strings_Split (CHR '','') ignoreIDs)),
          dc_CheckInterval =
            (if interval = [] then defaultCheckInterval
             else case ParseDuration interval of
               Some d \<Rightarrow> if d > 0 then d else defaultCheckInterval | None \<Rightarrow> defaultCheckInterval)\<rparr>)"

definition dispute_New :: "dispute_config \<Rightarrow> dispute_config" where
  "dispute_New cfg = (if dc_CheckInterval cfg \<le> 0 then cfg\<lparr>dc_CheckInterval := defaultCheckInterval\<rparr> else cfg)"

section \<open>The check\<close>

text \<open>
  \<open>get\<close> is the HTTP request, with the status and the body; \<open>decode\<close> reads the list of identifiers out of a body
  (\<open>None\<close> if the field is missing).
\<close>

datatype dispute_error = DRequest string | DStatus int | DDecode string | DMissingField

definition queryDisputesFromAPI ::
    "(string \<Rightarrow> string + int \<times> string) \<Rightarrow> (string \<Rightarrow> string + uint64 list option) \<Rightarrow> string \<Rightarrow>
     dispute_error + uint64 list" where
  "queryDisputesFromAPI get decode baseURL =
     (let url = rev (dropWhile (\<lambda>c. c = CHR ''/'') (rev baseURL)) @ ''/tellor-io/layer/dispute/open-disputes'' in
      case get url of
        Inl err \<Rightarrow> Inl (DRequest err)
      | Inr (statusCode, body) \<Rightarrow>
          if statusCode \<noteq> 200 then Inl (DStatus statusCode)
          else case decode body of
            Inl err \<Rightarrow> Inl (DDecode err)
          | Inr None \<Rightarrow> Inl DMissingField
          | Inr (Some ids) \<Rightarrow> Inr ids)"

text \<open>The nodes are asked at the same time; the result is a map, whose order says nothing.\<close>

definition queryAllAPINodes ::
    "(string \<Rightarrow> string + int \<times> string) \<Rightarrow> (string \<Rightarrow> string + uint64 list option) \<Rightarrow> string list \<Rightarrow> uint64 list" where
  "queryAllAPINodes get decode apiURLs =
     remdups (concat (map (\<lambda>url. case queryDisputesFromAPI get decode url of Inl err \<Rightarrow> [] | Inr ids \<Rightarrow> ids) apiURLs))"

definition isIgnored :: "uint64 list \<Rightarrow> uint64 \<Rightarrow> bool" where
  "isIgnored ignoreList disputeID = list_ex (\<lambda>ignoreID. ignoreID = disputeID) ignoreList"

definition checkDisputes ::
    "(string \<Rightarrow> string + int \<times> string) \<Rightarrow> (string \<Rightarrow> string + uint64 list option) \<Rightarrow> dispute_config \<Rightarrow> go_panic + unit" where
  "checkDisputes get decode cfg =
     (case find (\<lambda>disputeID. \<not> isIgnored (dc_IgnoreDisputes cfg) disputeID) (queryAllAPINodes get decode (dc_LayerAPIURLs cfg)) of
        Some disputeID \<Rightarrow>
          Inl (PanicMessage (''OPEN DISPUTES DETECTED - not safe to continue reporting. Add dispute IDs to DISPUTE_IGNORE_IDS if safe to ignore: dispute_id=''
            @ decimal_digits (unat disputeID)))
      | None \<Rightarrow> Inr ())"

text \<open>
  The start of the program with the failsafe: the check before the other components start, then a check for every tick and
  every event; the n-th of them sees the answers \<open>get n\<close>.
\<close>

definition CheckBeforeStart ::
    "(string \<Rightarrow> string + int \<times> string) \<Rightarrow> (string \<Rightarrow> string + uint64 list option) \<Rightarrow> dispute_config \<Rightarrow> go_panic + unit" where
  "CheckBeforeStart get decode cfg = (if dc_Enabled cfg then checkDisputes get decode (dispute_New cfg) else Inr ())"

fun dispute_Run ::
    "(nat \<Rightarrow> string \<Rightarrow> string + int \<times> string) \<Rightarrow> (string \<Rightarrow> string + uint64 list option) \<Rightarrow> dispute_config \<Rightarrow> nat \<Rightarrow> nat \<Rightarrow>
     go_panic + unit" where
  "dispute_Run get decode cfg i 0 = Inr ()"
| "dispute_Run get decode cfg i (Suc n) = bindE (checkDisputes (get i) decode cfg) (\<lambda>_. dispute_Run get decode cfg (Suc i) n)"

section \<open>What stops the program\<close>

text \<open>An open dispute that some node reports and that is not on the list.\<close>

definition dispute_reported ::
    "(string \<Rightarrow> string + int \<times> string) \<Rightarrow> (string \<Rightarrow> string + uint64 list option) \<Rightarrow> dispute_config \<Rightarrow> bool" where
  "dispute_reported get decode cfg \<longleftrightarrow>
     (\<exists>url \<in> set (dc_LayerAPIURLs cfg). \<exists>ids. queryDisputesFromAPI get decode url = Inr ids \<and>
        \<not> set ids \<subseteq> set (dc_IgnoreDisputes cfg))"

lemma isIgnored_iff: "isIgnored xs i \<longleftrightarrow> i \<in> set xs"
  by (simp add: isIgnored_def list_ex_iff)

lemma checkDisputes_iff: "(\<exists>p. checkDisputes get decode cfg = Inl p) \<longleftrightarrow> dispute_reported get decode cfg"
proof -
  have "set (queryAllAPINodes get decode urls) = {i. \<exists>url \<in> set urls. \<exists>ids. queryDisputesFromAPI get decode url = Inr ids \<and> i \<in> set ids}"
    for urls by (induction urls) (auto simp: queryAllAPINodes_def split: sum.splits)
  from this [of "dc_LayerAPIURLs cfg"] have "find (\<lambda>i. \<not> isIgnored (dc_IgnoreDisputes cfg) i) (queryAllAPINodes get decode (dc_LayerAPIURLs cfg)) = None \<longleftrightarrow>
      \<not> dispute_reported get decode cfg"
    unfolding find_None_iff isIgnored_iff dispute_reported_def by (simp add: subset_eq) blast
  then show ?thesis by (auto simp: checkDisputes_def split: option.splits)
qed

text \<open>
  C25: the program stops at the first check in which some node reports an open dispute that is not ignored, whatever the other
  nodes answer, and goes on through all checks without one.
\<close>

theorem failsafe_stops:
  "(\<exists>p. dispute_Run get decode cfg i n = Inl p) \<longleftrightarrow> (\<exists>k < n. dispute_reported (get (i + k)) decode cfg)"
proof (induction n arbitrary: i)
  case (Suc n)
  have "(\<exists>k < Suc n. dispute_reported (get (i + k)) decode cfg) \<longleftrightarrow>
      dispute_reported (get i) decode cfg \<or> (\<exists>k < n. dispute_reported (get (Suc i + k)) decode cfg)"
    by (auto simp: less_Suc_eq_0_disj)
  moreover have "(\<exists>p. dispute_Run get decode cfg i (Suc n) = Inl p) \<longleftrightarrow>
      (\<exists>p. checkDisputes (get i) decode cfg = Inl p) \<or> (\<exists>p. dispute_Run get decode cfg (Suc i) n = Inl p)"
    by (cases "checkDisputes (get i) decode cfg") auto
  ultimately show ?case using Suc.IH [of "Suc i"] checkDisputes_iff [of "get i" decode cfg] by simp
qed simp

text \<open>
  The failsafe fails open: when no node answers with a list, because none is configured, none is reachable or the answer
  cannot be decoded, the check passes and the reporter starts, open disputes or not.
\<close>

theorem failsafe_fails_open:
  assumes "\<forall>url \<in> set (dc_LayerAPIURLs cfg). \<exists>err. queryDisputesFromAPI get decode url = Inl err"
  shows "CheckBeforeStart get decode cfg = Inr ()"
proof -
  let ?cfg = "dispute_New cfg"
  have "dc_LayerAPIURLs ?cfg = dc_LayerAPIURLs cfg" by (simp add: dispute_New_def)
  then have "\<not> dispute_reported get decode ?cfg" using assms unfolding dispute_reported_def by fastforce
  then have "checkDisputes get decode ?cfg = Inr ()"
    using checkDisputes_iff [of get decode ?cfg] by (cases "checkDisputes get decode ?cfg") auto
  then show ?thesis by (simp add: CheckBeforeStart_def)
qed

text \<open>A node with an open dispute that cannot be reached.\<close>

definition demo_dispute_env :: "string \<Rightarrow> string" where
  "demo_dispute_env v = (if v = ''DISPUTE_MONITOR_ENABLED'' then '' True'' else if v = ''API_URLS'' then ''http://a/, http://b''
     else if v = ''DISPUTE_IGNORE_IDS'' then ''3, x, 5'' else [])"

theorem failsafe_fails_open_witness:
  "dc_Enabled (LoadConfigFromEnv (\<lambda>s. None) demo_dispute_env []) \<and>
   dc_IgnoreDisputes (LoadConfigFromEnv (\<lambda>s. None) demo_dispute_env []) = [3, 5] \<and>
   CheckBeforeStart (\<lambda>url. Inl ''refused'') (\<lambda>b. Inr (Some [7])) (LoadConfigFromEnv (\<lambda>s. None) demo_dispute_env []) = Inr ()"
proof -
  have "dc_Enabled (LoadConfigFromEnv (\<lambda>s. None) demo_dispute_env [])"
    "dc_IgnoreDisputes (LoadConfigFromEnv (\<lambda>s. None) demo_dispute_env []) = [3, 5]" by code_simp+
  then show ?thesis
    using failsafe_fails_open [of "LoadConfigFromEnv (\<lambda>s. None) demo_dispute_env []" "\<lambda>url. Inl ''refused''" "\<lambda>b. Inr (Some [7])"]
    by (simp add: queryDisputesFromAPI_def)
qed

end
