(* ===== verification/Startup.thy ===== *)
theory Startup
  imports Dispute GoStrings
begin

text \<open>
  What the command decides before the daemons run (\<open>cmd/endpoints.go\<close>, \<open>cmd/chain_id.go\<close>, the command of
  \<open>cmd/main.go\<close>): the lists of endpoints, the detection of the chain, and the order of the endpoints the application
  gets. The nodes that report their chain are parameters.
\<close>

section \<open>Endpoint lists\<close>

record endpointListConfig =
  el_Endpoints :: "string list"
  el_Source :: string

text \<open>\<open>None\<close> if an entry is empty.\<close>

fun parse_values :: "string list \<Rightarrow> string list \<Rightarrow> string list option" where
  "parse_values [] endpoints = Some endpoints"
| "parse_values (part # parts) endpoints =
     (let endpoint = strings_TrimSpace part in
      if endpoint = [] then None else parse_values parts (endpoints @ [endpoint]))"

definition parseEndpointValues :: "string \<Rightarrow> string list option" where
  "parseEndpointValues value = parse_values (strings_Split (CHR '','') value) []"

text \<open>\<open>lookupEnv\<close> gives the value of a variable that is set, be it empty; the error names the source.\<close>

definition endpointsFromEnvOrFlag ::
    "(string \<Rightarrow> string option) \<Rightarrow> string \<Rightarrow> string \<Rightarrow> string \<Rightarrow> string + endpointListConfig" where
  "endpointsFromEnvOrFlag lookupEnv envName flagName flagValue =
     (case lookupEnv envName of
        Some envValue \<Rightarrow>
          (case parseEndpointValues envValue of
             None \<Rightarrow> Inl envName | Some endpoints \<Rightarrow> Inr \<lparr>el_Endpoints = endpoints, el_Source = envName\<rparr>)
      | None \<Rightarrow>
          (case parseEndpointValues flagValue of
             None \<Rightarrow> Inl (''--'' @ flagName)
           | Some endpoints \<Rightarrow> Inr \<lparr>el_Endpoints = endpoints, el_Source = ''--'' @ flagName\<rparr>))"

definition grpcEndpointsFromEnvOrFlag :: "(string \<Rightarrow> string option) \<Rightarrow> string \<Rightarrow> string + endpointListConfig" where
  "grpcEndpointsFromEnvOrFlag lookupEnv flagValue = endpointsFromEnvOrFlag lookupEnv ''GRPC_NODES'' ''grpc'' flagValue"

definition rpcEndpointsFromEnvOrFlag :: "(string \<Rightarrow> string option) \<Rightarrow> string \<Rightarrow> string + endpointListConfig" where
  "rpcEndpointsFromEnvOrFlag lookupEnv flagValue = endpointsFromEnvOrFlag lookupEnv ''RPC_NODES'' ''node'' flagValue"

text \<open>The entries before the selected one move one place back.\<close>

fun move_loop :: "string list \<Rightarrow> nat \<Rightarrow> string list \<Rightarrow> string \<Rightarrow> string list" where
  "move_loop [] i reordered selected = reordered"
| "move_loop (endpoint # rest) i reordered selected =
     (if endpoint \<noteq> selected then move_loop rest (Suc i) reordered selected
      else selected # take i reordered @ drop (Suc i) reordered)"

definition moveEndpointToFront :: "string list \<Rightarrow> string \<Rightarrow> string list" where
  "moveEndpointToFront endpoints selected = move_loop endpoints 0 endpoints selected"

section \<open>The chain\<close>

datatype chain_error =
    CNoneReachable string "(string \<times> string) list"
  | CDisagree string
  | CMismatch string string

text \<open>\<open>detector\<close> is what a node answers.\<close>

fun detect_loop ::
    "(string \<Rightarrow> string + string) \<Rightarrow> string list \<Rightarrow> (string \<times> string) list \<Rightarrow> (string \<times> string) list \<Rightarrow>
     (string \<times> string) list \<times> (string \<times> string) list" where
  "detect_loop detector [] detected errs = (detected, errs)"
| "detect_loop detector (endpoint # endpoints) detected errs =
     (case detector endpoint of
        Inl err \<Rightarrow> detect_loop detector endpoints detected (errs @ [(endpoint, err)])
      | Inr chainID \<Rightarrow> detect_loop detector endpoints (detected @ [(endpoint, chainID)]) errs)"

definition detectEndpointChainIDs ::
    "string \<Rightarrow> string list \<Rightarrow> (string \<Rightarrow> string + string) \<Rightarrow> chain_error + (string \<times> string) list" where
  "detectEndpointChainIDs endpointType endpoints detector =
     (case detect_loop detector endpoints [] [] of
        (detected, errs) \<Rightarrow> if detected = [] then Inl (CNoneReachable endpointType errs) else Inr detected)"

definition validateReachableChainIDs :: "string \<Rightarrow> (string \<times> string) list \<Rightarrow> chain_error option" where
  "validateReachableChainIDs endpointType detected =
     (if list_ex (\<lambda>item. snd item \<noteq> snd (hd detected)) (tl detected) then Some (CDisagree endpointType) else None)"

definition detectChainIDFromEndpoints ::
    "(string \<Rightarrow> string + string) \<Rightarrow> (string \<Rightarrow> string + string) \<Rightarrow> string list \<Rightarrow> string list \<Rightarrow>
     chain_error + string \<times> string \<times> string" where
  "detectChainIDFromEndpoints fromGRPC fromRPC grpcAddrs nodeRPCAddrs =
     (case detectEndpointChainIDs ''gRPC'' grpcAddrs fromGRPC of
        Inl err \<Rightarrow> Inl err
      | Inr grpcChainIDs \<Rightarrow>
          (case detectEndpointChainIDs ''node RPC'' nodeRPCAddrs fromRPC of
             Inl err \<Rightarrow> Inl err
           | Inr rpcChainIDs \<Rightarrow>
               (case validateReachableChainIDs ''gRPC'' grpcChainIDs of
                  Some err \<Rightarrow> Inl err
                | None \<Rightarrow>
                    (case validateReachableChainIDs ''node RPC'' rpcChainIDs of
                       Some err \<Rightarrow> Inl err
                     | None \<Rightarrow>
                         if snd (hd grpcChainIDs) \<noteq> snd (hd rpcChainIDs)
                         then Inl (CMismatch (snd (hd grpcChainIDs)) (snd (hd rpcChainIDs)))
                         else Inr (snd (hd grpcChainIDs), fst (hd grpcChainIDs), fst (hd rpcChainIDs))))))"

section \<open>The command\<close>

datatype run_error =
    RTestQueryWithoutTest | RGrpcEndpoints string | RRpcEndpoints string | RHomeRequired | RGrpcRequired
  | RFromRequired | RRpcRequired | RChain chain_error

text \<open>The flags the command reads, and what the application is started with.\<close>

record run_flags =
  rf_LayerHome :: string
  rf_Home :: string
  rf_TestQueryID :: string
  rf_GRPC :: string
  rf_From :: string
  rf_Node :: string

record app_args =
  aa_chainId :: string
  aa_grpcEndpoints :: "string list"
  aa_rpcEndpoints :: "string list"
  aa_homePath :: string

definition reporterd_run ::
    "(string \<Rightarrow> string option) \<Rightarrow> (string \<Rightarrow> string + string) \<Rightarrow> (string \<Rightarrow> string + string) \<Rightarrow> run_flags \<Rightarrow>
     run_error + app_args" where
  "reporterd_run lookupEnv fromGRPC fromRPC f =
     (let homePath = (if rf_LayerHome f = [] then rf_Home f else rf_LayerHome f) in
      if rf_TestQueryID f \<noteq> [] then Inl RTestQueryWithoutTest
      else case grpcEndpointsFromEnvOrFlag lookupEnv (rf_GRPC f) of
        Inl err \<Rightarrow> Inl (RGrpcEndpoints err)
      | Inr grpcCfg \<Rightarrow>
          (case rpcEndpointsFromEnvOrFlag lookupEnv (rf_Node f) of
             Inl err \<Rightarrow> Inl (RRpcEndpoints err)
           | Inr rpcCfg \<Rightarrow>
               if homePath = [] then Inl RHomeRequired
               else if el_Endpoints grpcCfg = [] then Inl RGrpcRequired
               else if rf_From f = [] then Inl RFromRequired
               else if el_Endpoints rpcCfg = [] then Inl RRpcRequired
               else case detectChainIDFromEndpoints fromGRPC fromRPC (el_Endpoints grpcCfg) (el_Endpoints rpcCfg) of
                 Inl err \<Rightarrow> Inl (RChain err)
               | Inr (chainId, grpcAddr, selectedRPCNode) \<Rightarrow>
                   Inr \<lparr>aa_chainId = chainId, aa_grpcEndpoints = moveEndpointToFront (el_Endpoints grpcCfg) grpcAddr,
                        aa_rpcEndpoints = moveEndpointToFront (el_Endpoints rpcCfg) selectedRPCNode, aa_homePath = homePath\<rparr>))"

section \<open>What the application starts with\<close>

lemma move_loop_eq:
  "reordered = pre @ endpoints \<Longrightarrow> selected \<notin> set pre \<Longrightarrow>
   move_loop endpoints (length pre) reordered selected =
     (if selected \<in> set endpoints then selected # remove1 selected reordered else reordered)"
proof (induction endpoints arbitrary: pre)
  case (Cons endpoint rest)
  show ?case
  proof (cases "endpoint = selected")
    case True
    then show ?thesis using Cons.prems by (simp add: remove1_append)
  next
    case False
    then show ?thesis using Cons.IH [of "pre @ [endpoint]"] Cons.prems by simp
  qed
qed simp

lemma moveEndpointToFront_eq:
  "moveEndpointToFront endpoints selected =
     (if selected \<in> set endpoints then selected # remove1 selected endpoints else endpoints)"
  using move_loop_eq [of endpoints "[]" endpoints selected] by (simp add: moveEndpointToFront_def)

lemma detect_loop_eq:
  "fst (detect_loop detector endpoints detected errs) =
     detected @ List.map_filter (\<lambda>e. case detector e of Inl err \<Rightarrow> None | Inr c \<Rightarrow> Some (e, c)) endpoints"
  by (induction endpoints arbitrary: detected errs) (auto simp: map_filter_simps split: sum.splits)

lemma detectEndpointChainIDs_spec:
  assumes "detectEndpointChainIDs t endpoints detector = Inr detected"
  shows "detected \<noteq> []" "set detected = {(e, c). e \<in> set endpoints \<and> detector e = Inr c}"
proof -
  let ?f = "\<lambda>e. case detector e of Inl err \<Rightarrow> None | Inr c \<Rightarrow> Some (e, c)"
  have "detected = List.map_filter ?f endpoints" and ne: "detected \<noteq> []"
    using assms detect_loop_eq [of detector endpoints "[]" "[]"]
    by (auto simp: detectEndpointChainIDs_def split: prod.splits if_splits)
  moreover have "set (List.map_filter ?f es) = {(e, c). e \<in> set es \<and> detector e = Inr c}" for es
    by (induction es) (auto simp: map_filter_simps split: sum.splits)
  ultimately show "detected \<noteq> []" "set detected = {(e, c). e \<in> set endpoints \<and> detector e = Inr c}" by simp_all
qed

lemma validateReachable_all:
  assumes "validateReachableChainIDs t detected = None" and "x \<in> set detected"
  shows "snd x = snd (hd detected)"
  using assms by (cases detected) (auto simp: validateReachableChainIDs_def list_ex_iff split: if_splits)


text \<open>A list of endpoints that was parsed has an entry: the checks for an empty list in the command are never reached.\<close>

lemma parse_values_nonempty: "parse_values parts acc = Some endpoints \<Longrightarrow> parts \<noteq> [] \<or> acc \<noteq> [] \<Longrightarrow> endpoints \<noteq> []"
  by (induction parts acc rule: parse_values.induct) (auto simp: Let_def split: if_splits)

lemma endpoints_required_elsewhere:
  "reporterd_run lookupEnv fromGRPC fromRPC f \<noteq> Inl RGrpcRequired" "reporterd_run lookupEnv fromGRPC fromRPC f \<noteq> Inl RRpcRequired"
proof -
  have "el_Endpoints cfg \<noteq> []" if "endpointsFromEnvOrFlag lookupEnv n fl v = Inr cfg" for n fl v cfg
    using that strings_Split_ne
    by (auto simp: endpointsFromEnvOrFlag_def parseEndpointValues_def split: option.splits dest!: parse_values_nonempty)
  then show "reporterd_run lookupEnv fromGRPC fromRPC f \<noteq> Inl RGrpcRequired"
    "reporterd_run lookupEnv fromGRPC fromRPC f \<noteq> Inl RRpcRequired"
    by (auto simp: reporterd_run_def Let_def grpcEndpointsFromEnvOrFlag_def rpcEndpointsFromEnvOrFlag_def
        split: sum.splits if_splits prod.splits)
qed

text \<open>Three gRPC nodes, of which the first is down; the variable wins over the flag.\<close>

definition demo_flags :: run_flags where
  "demo_flags = \<lparr>rf_LayerHome = [], rf_Home = ''/h'', rf_TestQueryID = [], rf_GRPC = ''0.0.0.0:9090'', rf_From = ''me'', rf_Node = ''n''\<rparr>"

definition demo_lookup :: "string \<Rightarrow> string option" where
  "demo_lookup v = (if v = ''GRPC_NODES'' then Some ''a, b,c'' else None)"

definition demo_chain :: "string \<Rightarrow> string + string" where
  "demo_chain e = (if e = ''a'' then Inl ''down'' else Inr ''layer-1'')"


end
