(* ===== verification/Spec2Isabelle.thy ===== *)
theory Spec2Isabelle
  imports PriceUpdater MutableMarketConfigs HealthCheck Exchanges QueryToml ReporterStart Startup
begin

text \<open>
  \<^bold>\<open>The Tellor Layer daemons: a verification library\<close>

  The program under \<open>src/\<close> is a set of Go daemons that run beside a Tellor Layer node. They fetch market
  prices from exchanges, keep them in caches, watch the token bridge contract on Ethereum, and report
  prices and deposits to the chain. This library translates their own logic into executable HOL
  functions and proves what makes them correct.

  \<^bold>\<open>The parts and how they interact\<close>

  \<^item> A \<^emph>\<open>price fetcher\<close> per exchange (\<open>pricefeed/client/price_fetcher\<close>) asks the exchange for its markets
    round robin, through the \<^emph>\<open>query handler\<close> (\<open>queryhandler\<close>), and writes the answers to a buffered channel.
  \<^item> A \<^emph>\<open>price encoder\<close> per exchange (\<open>price_encoder\<close>) reads the channel, converts each price (inverting it,
    or adjusting it by the index price of another market) and stores it in the client's cache
    (\<open>pricefeed/client/types\<close>).
  \<^item> The \<^emph>\<open>price updater\<close> (\<open>pricefeed/client/subtask_runner.go\<close>) sends the client's cache to the
    \<^emph>\<open>server\<close> (\<open>server/pricefeed.go\<close>), which keeps its own cache (\<open>server/types/pricefeed\<close>) and computes medians.
  \<^item> The \<^emph>\<open>mutable market configurations\<close> (\<open>price_feed_mutable_market_configs.go\<close>) turn the market params
    into configurations for fetchers and encoders and push every change to them.
  \<^item> The \<^emph>\<open>token bridge client\<close> (\<open>token_bridge_feed/client\<close>) watches the bridge contract and fills the queue of
    deposit reports; tips for single deposits come in by another queue (\<open>server/types/token_bridge*\<close>).
  \<^item> The \<^emph>\<open>custom queries\<close> (\<open>custom_query\<close>) compute values that are no market prices: a query has several
    sources, each a reader of a contract, of an HTTP API or a combination, and a handler that turns what was read
    into a number; the results that arrive before a deadline are aggregated and encoded.
  \<^item> The \<^emph>\<open>reporter\<close> (\<open>reporter/client\<close>) asks the server for medians, checks them with the price guard, and
    sends reports of prices and deposits as transactions, over a list of gRPC and RPC endpoints with
    fallback. Its \<^emph>\<open>monitors\<close> watch the cycle list and the tipped queries, withdraw rewards, unbond stake and bridge
    the balance; the \<^emph>\<open>dispute failsafe\<close> (\<open>reporter/dispute\<close>) stops the program when a dispute is open.
  \<^item> The \<^emph>\<open>reporter command\<close> (\<open>cmd\<close>) reads the endpoints, detects the chain and starts the application.
  \<^item> The \<^emph>\<open>health monitor\<close> (\<open>server/types/health_*.go\<close>, \<open>types/health_checkable.go\<close>) polls the daemons and
    calls back when one of them has been failing for too long.

  \<^bold>\<open>The theories\<close>

  \<^item> \<open>Prelude\<close>: machine integers as words, Go maps as association lists (\<open>mput\<close> writes; every statement about
    a map holds for any order of its entries, as Go iterates them in a random order), times and
    durations in nanoseconds, panics and errors as values (\<open>go_panic + error + 'a\<close>), and the lemmas shared by the rest.
  \<^item> \<open>GoLib\<close> (\<open>lib/math.go\<close>, \<open>lib/big_math.go\<close>, \<open>lib/collections.go\<close>): \<open>Median\<close> over the machine integers with
    wrap-around written out, shown to be the mathematical median; powers of ten with their memo table.
  \<^item> \<open>Prices\<close> (\<open>lib/prices/utils.go\<close>): inversion, multiplication and division of prices over decimals, with their
    exact results or error bounds; the 256-bit encoding of a price and its round trip.
  \<^item> \<open>PriceTimestamp\<close>, \<open>ServerPrices\<close>: one cell of a cache, as a locale of last-writer-wins registers, and the
    server's cache with its gRPC handler: the handler's validation, the medians, and that the order of
    requests does not matter.
  \<^item> \<open>ClientPrices\<close>, \<open>MarketConfig\<close>: the client's cache and its index prices; market params and
    configurations with their validation.
  \<^item> \<open>PriceFetcher\<close>, \<open>QueryHandler\<close>, \<open>PriceEncoder\<close>, \<open>PriceUpdater\<close>: the pipeline from an exchange to the server,
    with all interleavings of the subtasks of a task loop, and its composition.
  \<^item> \<open>MutableMarketConfigs\<close>: the transformation of market params, \<open>UpdateMarkets\<close>, and that fetchers and
    encoders stay in sync with the stored configuration.
  \<^item> \<open>HealthCheck\<close>: services, checkers and the monitor; the polls of a checker as a step relation in which the
    timer, running polls and \<open>Stop\<close> interleave.
  \<^item> \<open>GoStrings\<close>, \<open>EndpointManager\<close> (\<open>utils/eth_rpc.go\<close>, \<open>reporter/client/*_endpoint_manager.go\<close>, parts of \<open>client.go\<close>):
    endpoint lists, and calls with fallback, as one locale with an interpretation for gRPC and one for RPC.
  \<^item> \<open>BridgeCaches\<close>, \<open>TokenBridge\<close>: the queues of deposits and tips and the way of a deposit report through the
    transaction channel; the client that watches the contract.
  \<^item> \<open>TxHandler\<close> (\<open>reporter/client/tx_handler.go\<close>): gas estimates, sending with retries, waiting for inclusion,
    broadcast to all endpoints.
  \<^item> \<open>Reporter\<close> (\<open>price_guard.go\<close>, \<open>median.go\<close>, \<open>broadcast_message.go\<close>, \<open>reporter_monitors.go\<close>): the price guard on
    binary64 numbers with their rounding, the spot price report, a round of the cycle list monitor.
  \<^item> \<open>Monitors\<close>, \<open>StakeMonitors\<close> (\<open>reporter_monitors.go\<close>, \<open>current_query.go\<close>): the subscription to blocks, the monitors
    of the cycle list and the tipped queries with the state they share; rewards, unbonding and bridging.
  \<^item> \<open>ReporterStart\<close> (\<open>reporter/client/client.go\<close>): the validation of the settings, the keyring and its password file,
    the wait for the reporter. \<open>Dispute\<close> (\<open>reporter/dispute\<close>): the configuration and the runs of the failsafe.
  \<^item> \<open>Startup\<close> (\<open>cmd/endpoints.go\<close>, \<open>cmd/chain_id.go\<close>, \<open>cmd/main.go\<close>): endpoint lists, the detection of the chain, the
    start of the application.
  \<^item> \<open>Floats\<close>, \<open>FloatFormat\<close>, \<open>FloatMedian\<close>: binary64 numbers with their rounding and special values, their decimal
    texts, the medians of floats; \<open>AbiNumbers\<close> (\<open>custom_query/convert_num.go\<close>): the ABI encoding of a number.
  \<^item> \<open>Sources\<close>, \<open>Exchanges\<close> (\<open>pricefeed/client/sources\<close>): the medians of tickers in the precision of the code, the
    shared price function, the tickers and the price function of every exchange.
  \<^item> \<open>StaticMarkets\<close> (\<open>constants/static_market_params_config.go\<close>), \<open>GoMath\<close>: the static table of markets; big
    integers and strings as the handlers use them.
  \<^item> \<open>ContractReader\<close>, \<open>ContractHandlers\<close> (\<open>custom_query/contracts\<close>): calls of contracts over several nodes with
    retries and health marks, and the handlers that turn a rate into a price.
  \<^item> \<open>RpcReader\<close>, \<open>RpcHandlers\<close> (\<open>custom_query/rpc\<close>): requests with retries within a budget of time, the shared cache
    with all interleavings of its callers, and the handlers of documents.
  \<^item> \<open>CombinedHandlers\<close> (\<open>custom_query/combined\<close>): the parallel fetcher as a step relation, the handlers that
    combine its results.
  \<^item> \<open>QueryConfig\<close>, \<open>QueryFeeds\<close>, \<open>BuildQueries\<close>, \<open>StaticQueries\<close>, \<open>QueryToml\<close>: timeouts and deadlines, the kinds of
    feeds, the building of the readers from the configuration, the static tables, the printed file and its merge.
  \<^item> \<open>CustomQuery\<close> (\<open>custom_query/request.go\<close>): a fetch: the loop that collects results, the aggregation, its end.

  \<^bold>\<open>Conventions\<close>

  A struct is a record, an operation a function from the old state to the result and the new state. The clock is an
  argument. A lock is not modelled where an operation holds it from start to end; where an operation gives
  it up in between, its parts are separate definitions (the two reads of a fetcher's task loop, the report
  and the scheduling of a poll) and the theorems speak of what happens between them. Logging and telemetry are left out.
  Code outside the repository is an argument: decimals (\<open>decimal_ops\<close> with \<open>decimal_laws\<close>), rings (\<open>ring_ops\<close>,
  \<open>ring_laws\<close>), the ABI codec (\<open>abi_ops\<close>, \<open>abi_laws\<close>), JSON, HTTP answers, the answers of Ethereum and Layer
  nodes, JSON and TOML documents (functions of the call, so that each call may be answered differently). Each set of laws has an instance
  on which the witnesses evaluate.

  \<^bold>\<open>Loops and fuel\<close>

  Loops are structural recursions or functions with a termination proof. Only
  \<open>waitForContractInitialized\<close> and \<open>await_reporter\<close> may run forever: they are partial functions into \<open>option\<close>, and it is
  shown when they end. A monitor is a function of one round and runs over the list of the events that happen. \<open>WaitForTx\<close> ends because it counts blocks. The loop that collects the results of a query runs over the
  list of the events that happen; \<open>None\<close> says that it still waits at the end of the list, and it is shown when it returns.

  \<^bold>\<open>What is not modelled\<close>

  Generated code (contract bindings, protobuf), mocks and test utilities, metrics, the commands that send a single
  transaction, the test mode, the wiring of the daemons and the remote signer's keyring are not modelled, as they only
  call other code. Of the exchanges, the volatile test exchange is left out, as it computes a cosine.
\<close>

end
